(* ===== verification/Prelude.thy ===== *)
theory Prelude
  imports Complex_Main "HOL-Library.Word"
begin

text \<open>
  Types, byte-level helpers and generic lemmas shared by every component of the library:
  the machine integers of the C code, big-endian byte order, serial-number comparison of
  32 bit stamps and sequence numbers, and the model of a write pointer into a buffer.
\<close>

unbundle bit_operations_syntax

type_synonym u8 = "8 word"
type_synonym u16 = "16 word"
type_synonym u32 = "32 word"
type_synonym u64 = "64 word"
type_synonym bytes = "u8 list"

text \<open>Facts that unfold the wire-format models, and facts about bytes of a word.\<close>

named_theorems wire_defs
named_theorems word_bytes

section \<open>Bytes of a word\<close>

text \<open>The byte of \<open>w\<close> that a C cast \<open>(uint8_t)(w >> n)\<close> selects.\<close>

definition byte_at :: "nat \<Rightarrow> 'a::len word \<Rightarrow> u8" where
  "byte_at n w = ucast (drop_bit n w)"

definition be16 :: "u16 \<Rightarrow> bytes" where
  "be16 v = [byte_at 8 v, byte_at 0 v]"

definition be32 :: "u32 \<Rightarrow> bytes" where
  "be32 v = [byte_at 24 v, byte_at 16 v, byte_at 8 v, byte_at 0 v]"

definition of_be16 :: "u8 \<Rightarrow> u8 \<Rightarrow> u16" where
  "of_be16 a b = push_bit 8 (ucast a) OR ucast b"

definition of_be32 :: "u8 \<Rightarrow> u8 \<Rightarrow> u8 \<Rightarrow> u8 \<Rightarrow> u32" where
  "of_be32 a b c d =
     push_bit 24 (ucast a) OR push_bit 16 (ucast b) OR push_bit 8 (ucast c) OR ucast d"

lemma length_be16 [simp]: "length (be16 v) = 2"
  by (simp add: be16_def)

lemma length_be32 [simp]: "length (be32 v) = 4"
  by (simp add: be32_def)

lemma bit_u8_high [simp]: "8 \<le> n \<Longrightarrow> \<not> bit (b::u8) n"
  using bit_imp_le_length [of b n] by auto

lemma of_be16_byte_at [simp, word_bytes]: "of_be16 (byte_at 8 v) (byte_at 0 v) = v"
  by (rule bit_word_eqI) (auto simp: of_be16_def byte_at_def bit_simps)

lemma of_be32_byte_at [simp, word_bytes]:
  "of_be32 (byte_at 24 v) (byte_at 16 v) (byte_at 8 v) (byte_at 0 v) = v"
proof (rule bit_word_eqI)
  fix n
  assume "n < LENGTH(32)"
  then have "n < 32" by simp
  then consider "n < 8" | "8 \<le> n" "n < 16" | "16 \<le> n" "n < 24" | "24 \<le> n" "n < 32"
    by linarith
  then show "bit (of_be32 (byte_at 24 v) (byte_at 16 v) (byte_at 8 v) (byte_at 0 v)) n = bit v n"
    by cases (auto simp: of_be32_def byte_at_def bit_simps)
qed

lemma byte_at_of_be16 [simp, word_bytes]:
  "byte_at 8 (of_be16 a b) = a" "byte_at 0 (of_be16 a b) = b"
  by (rule bit_word_eqI, auto simp: of_be16_def byte_at_def bit_simps)+

lemma byte_at_of_be32 [simp, word_bytes]:
  "byte_at 24 (of_be32 a b c d) = a" "byte_at 16 (of_be32 a b c d) = b"
  "byte_at 8 (of_be32 a b c d) = c" "byte_at 0 (of_be32 a b c d) = d"
  by (rule bit_word_eqI, auto simp: of_be32_def byte_at_def bit_simps)+

lemma of_be16_plus: "push_bit 8 (ucast a) + ucast b = of_be16 a b"
proof -
  have "push_bit 8 (ucast a :: u16) AND ucast b = 0"
    by (rule bit_word_eqI) (auto simp: bit_simps)
  then show ?thesis
    by (simp add: of_be16_def disjunctive_add_eq_or)
qed

lemma unat_u8_less [simp]: "unat (a::u8) < 256"
  using unsigned_less [of a, where ?'a = nat] by simp

lemma unat_u16_less [simp]: "unat (a::u16) < 65536"
  using unsigned_less [of a, where ?'a = nat] by simp

lemma unat_u32_less [simp]: "unat (a::u32) < 4294967296"
  using unsigned_less [of a, where ?'a = nat] by simp

lemma take_bit_16_unat_u8 [simp]: "take_bit 16 (unat (b::u8)) = unat b"
proof -
  have "unat b < 2 ^ 16" using unat_u8_less [of b] by (simp del: unat_u8_less)
  then show ?thesis by (simp only: take_bit_nat_eq_self_iff)
qed

lemma unat_of_be16: "unat (of_be16 a b) = unat a * 256 + unat b"
proof -
  have "unat a * 256 + unat b < 65536"
    using unat_u8_less [of a] unat_u8_less [of b] by linarith
  then have "unat (push_bit 8 (ucast a :: u16) + ucast b) = unat a * 256 + unat b"
    by (simp add: unat_word_ariths push_bit_eq_mult unsigned_ucast_eq)
  then show ?thesis
    by (simp add: of_be16_plus)
qed

section \<open>Reading words as numbers\<close>

lemma unat_ucast_u8_u16 [simp, word_bytes]: "unat (ucast (b::u8) :: u16) = unat b"
  by (simp add: unsigned_ucast_eq)

lemma unat_ucast_u8_u32 [simp, word_bytes]: "unat (ucast (b::u8) :: u32) = unat b"
  using unat_u8_less [of b]
  by (simp add: unsigned_ucast_eq take_bit_nat_eq_self_iff del: unat_u8_less)

lemma unat_ucast_u16_u32 [simp, word_bytes]: "unat (ucast (b::u16) :: u32) = unat b"
  using unat_u16_less [of b]
  by (simp add: unsigned_ucast_eq take_bit_nat_eq_self_iff del: unat_u16_less)

lemma unat_ucast_u32_u8 [simp, word_bytes]: "unat (ucast (v::u32) :: u8) = unat v mod 256"
  by (simp add: unsigned_ucast_eq take_bit_eq_mod)

lemma unat_ucast_u32_u16 [simp, word_bytes]: "unat (ucast (v::u32) :: u16) = unat v mod 65536"
  by (simp add: unsigned_ucast_eq take_bit_eq_mod)

lemma unat_ucast_u16_u8 [simp, word_bytes]: "unat (ucast (v::u16) :: u8) = unat v mod 256"
  by (simp add: unsigned_ucast_eq take_bit_eq_mod)

lemma unat_byte_at_u32 [simp, word_bytes]: "unat (byte_at n (v::u32)) = unat v div 2 ^ n mod 256"
  unfolding byte_at_def unat_ucast_u32_u8 unat_drop_bit_eq by (simp add: drop_bit_eq_div)

lemma unat_byte_at_u16 [simp, word_bytes]: "unat (byte_at n (v::u16)) = unat v div 2 ^ n mod 256"
  unfolding byte_at_def unat_ucast_u16_u8 unat_drop_bit_eq by (simp add: drop_bit_eq_div)

lemma unat_and_255 [simp, word_bytes]: "unat ((v::u32) AND 255) = unat v mod 256"
proof -
  have "v AND 255 = take_bit 8 v" by (simp add: take_bit_eq_mask mask_eq_exp_minus_1)
  then show ?thesis by (simp only: unsigned_take_bit_eq) (simp add: take_bit_eq_mod)
qed

lemma unat_diff_u32:
  "unat ((a::u32) - b) = (if unat b \<le> unat a then unat a - unat b else 4294967296 + unat a - unat b)"
  by (simp add: unat_sub_if_size word_size) arith

lemma unat_add_u32:
  "unat ((a::u32) + b) = (if unat a + unat b < 4294967296 then unat a + unat b
     else unat a + unat b - 4294967296)"
  by (simp add: unat_plus_if_size word_size)

lemma u8_eq_iff: "(a::u8) = b \<longleftrightarrow> unat a = unat b"
  by (rule word_unat_eq_iff)

lemma u16_eq_iff: "(a::u16) = b \<longleftrightarrow> unat a = unat b"
  by (rule word_unat_eq_iff)

lemma u32_eq_iff: "(a::u32) = b \<longleftrightarrow> unat a = unat b"
  by (rule word_unat_eq_iff)

section \<open>Big-endian numbers of any length\<close>

text \<open>The number a big-endian byte string denotes: the specification of the C accumulate loops.\<close>

definition nat_be :: "bytes \<Rightarrow> nat" where
  "nat_be bs = foldl (\<lambda>r b. r * 256 + unat b) 0 bs"

lemma nat_be_Nil [simp]: "nat_be [] = 0"
  by (simp add: nat_be_def)

lemma nat_be_snoc [simp]: "nat_be (bs @ [b]) = nat_be bs * 256 + unat b"
  by (simp add: nat_be_def)

lemma nat_be_less: "nat_be bs < 256 ^ length bs"
proof (induction bs rule: rev_induct)
  case (snoc b bs)
  have "nat_be bs * 256 + unat b < (nat_be bs + 1) * 256"
    using unat_u8_less [of b] by (simp add: algebra_simps del: unat_u8_less)
  also have "\<dots> \<le> 256 ^ length bs * 256"
    using snoc by (intro mult_right_mono) auto
  finally show ?case by (simp add: mult.commute)
qed simp

lemma unat_shift8_add:
  assumes "unat (r::u32) < 16777216"
  shows "unat (push_bit 8 r + ucast (b::u8)) = unat r * 256 + unat b"
proof -
  have "unat b < 256" by simp
  with assms have *: "unat r * 256 + unat b < 4294967296" by linarith
  have b: "take_bit 32 (unat b) = unat b"
    using unat_u8_less [of b] by (simp add: take_bit_nat_eq_self_iff del: unat_u8_less)
  show ?thesis
    using * b by (simp add: unat_word_ariths push_bit_eq_mult unsigned_ucast_eq)
qed

lemma unat_shift8_add_bytes [simp, word_bytes]:
  "unat (push_bit 8 (ucast (a::u8)) + ucast (b::u8) :: u32) = unat a * 256 + unat b"
  using unat_shift8_add [of "ucast a" b] unat_u8_less [of a] by (simp add: less_trans del: unat_u8_less)

lemma shift8_add_byte_at:
  "unat (x::u32) < 65536 \<Longrightarrow> push_bit 8 (ucast (byte_at 8 x)) + ucast (byte_at 0 x) = x"
  by (simp add: u32_eq_iff)

lemma unat_drop8: "unat (drop_bit 8 (v::u32)) = unat v div 256"
  unfolding unat_drop_bit_eq by (simp add: drop_bit_eq_div)

section \<open>Write pointers\<close>

text \<open>
  A C write pointer together with the end of its buffer: the bytes written so far and the room
  that is left, or \<open>None\<close> for the null pointer that an encoder returns when the data did not fit.
\<close>

type_synonym wptr = "(bytes \<times> nat) option"

definition wput :: "bytes \<Rightarrow> wptr \<Rightarrow> wptr" where
  "wput bs p = (case p of None \<Rightarrow> None
     | Some (w, room) \<Rightarrow> if room < length bs then None else Some (w @ bs, room - length bs))"

lemma wput_None [simp]: "wput bs None = None"
  by (simp add: wput_def)

lemma wput_Some_iff [simp]:
  "wput bs (Some (w, room)) = Some q \<longleftrightarrow> length bs \<le> room \<and> q = (w @ bs, room - length bs)"
  by (auto simp: wput_def)

lemma wput_wput: "wput cs (wput bs p) = wput (bs @ cs) p"
  by (auto simp: wput_def split: option.splits)

end
