(* ===== verification/Serial.thy ===== *)
theory Serial
  imports Prelude
begin

text \<open>
  Serial-number comparison of 32 bit counters.  The C code compares time stamps and sequence
  numbers by the sign of \<open>(int32_t)(a - b)\<close>; the locale collects what such a comparison gives
  its clients as long as the compared numbers stay within half of the number space.
\<close>

lemma sint_neg_iff: "sint (w::u32) < 0 \<longleftrightarrow> 2147483648 \<le> unat w"
proof -
  have "sint w < 0 \<longleftrightarrow> bit w 31"
    using bit_last_iff [of w] by simp
  also have "\<dots> \<longleftrightarrow> bit (unat w) 31"
    by (simp add: bit_unsigned_iff)
  also have "\<dots> \<longleftrightarrow> odd (unat w div 2 ^ 31)"
    by (simp only: bit_iff_odd)
  also have "\<dots> \<longleftrightarrow> 2147483648 \<le> unat w"
  proof (cases "2147483648 \<le> unat w")
    case True
    then have "unat w div 2 ^ 31 = 1"
      using unat_u32_less [of w] by (simp add: le_div_geq del: unat_u32_less)
    with True show ?thesis by simp
  qed simp
  finally show ?thesis .
qed

locale serial_order =
  fixes less :: "u32 \<Rightarrow> u32 \<Rightarrow> bool"
  assumes less_sint: "less a b \<longleftrightarrow> sint (a - b) < 0"
begin

lemma less_irrefl [simp]: "\<not> less a a"
  by (simp add: less_sint)

lemma less_iff_distance: "less a b \<longleftrightarrow> 2147483648 \<le> unat (a - b)"
  by (simp add: less_sint sint_neg_iff)

lemma less_window:
  assumes "unat (a - base) < 2147483648" "unat (b - base) < 2147483648"
  shows "less a b \<longleftrightarrow> unat (a - base) < unat (b - base)"
proof -
  have "a - b = (a - base) - (b - base)" by simp
  then have "less a b \<longleftrightarrow> 2147483648 \<le> unat ((a - base) - (b - base))"
    unfolding less_iff_distance by argo
  also have "\<dots> \<longleftrightarrow> unat (a - base) < unat (b - base)"
    using assms by (subst unat_diff_u32) auto
  finally show ?thesis .
qed

lemma less_window_trans:
  assumes "unat (a - base) < 2147483648" "unat (b - base) < 2147483648"
    "unat (c - base) < 2147483648" "less a b" "less b c"
  shows "less a c"
  using assms by (simp add: less_window [of _ base])

lemma less_add:
  assumes "d \<noteq> 0" "unat d < 2147483648"
  shows "less a (a + d)"
  using assms less_window [of a a "a + d"] by (simp add: unat_gt_0)

lemma less_linear:
  assumes "a \<noteq> b" "a - b \<noteq> 0x80000000"
  shows "less a b \<or> less b a"
proof -
  have "unat (a - b) \<noteq> unat (0x80000000::u32)"
    using assms(2) by (metis unsigned_word_eqI)
  moreover have "unat (b - a) = 4294967296 - unat (a - b)"
    using assms(1) unat_u32_less [of a] unat_u32_less [of b]
    by (auto simp: unat_diff_u32 dest: unsigned_word_eqI simp del: unat_u32_less)
  ultimately show ?thesis
    unfolding less_iff_distance by simp linarith
qed

lemma less_asym:
  assumes "less a b" "a - b \<noteq> 0x80000000"
  shows "\<not> less b a"
proof -
  have "unat (a - b) \<noteq> unat (0x80000000::u32)"
    using assms(2) by (metis unsigned_word_eqI)
  moreover have "unat (b - a) = 4294967296 - unat (a - b)"
    using assms(1) unat_u32_less [of a] unat_u32_less [of b]
    by (auto simp: unat_diff_u32 less_iff_distance simp del: unat_u32_less split: if_splits)
  ultimately show ?thesis
    using assms(1) unfolding less_iff_distance by simp
qed

end

end
