(* ===== verification/Coap_Wire.thy ===== *)
theory Coap_Wire
  imports Serial
begin

text \<open>
  The CoAP message format, src/components/coap/src/nabto_coap.c and nabto_coap.h: option and
  message parsing, header, option and payload encoding, variable length integers, block numbers
  and the comparison of time stamps.  A read pointer with its end is the list of the bytes that
  are left; a write pointer with its end is a \<^typ>\<open>wptr\<close>; a null pointer is \<open>None\<close>.
\<close>

section \<open>Data\<close>

datatype coap_type = CON | NON | ACK | RST

fun coap_type_to_bits :: "coap_type \<Rightarrow> u8" where
  "coap_type_to_bits CON = 0"
| "coap_type_to_bits NON = 1"
| "coap_type_to_bits ACK = 2"
| "coap_type_to_bits RST = 3"

definition coap_type_of_bits :: "u8 \<Rightarrow> coap_type" where
  "coap_type_of_bits b = (if b = 0 then CON else if b = 1 then NON else if b = 2 then ACK else RST)"

datatype coap_error = COAP_OK | COAP_OUT_OF_MEMORY | COAP_NO_CONNECTION | COAP_INVALID_PARAMETER

type_synonym coap_code = u32

text \<open>A token is the list of its first \<open>tokenLength\<close> bytes.\<close>

type_synonym coap_token = bytes

definition NABTO_COAP_CODE :: "u32 \<Rightarrow> u32 \<Rightarrow> coap_code" where
  "NABTO_COAP_CODE cl c = push_bit 5 cl + c"

abbreviation (input) NABTO_COAP_CODE_EMPTY :: coap_code where "NABTO_COAP_CODE_EMPTY \<equiv> 0"

abbreviation (input) OPTION_OBSERVE :: u16 where "OPTION_OBSERVE \<equiv> 6"
abbreviation (input) OPTION_URI_PATH :: u16 where "OPTION_URI_PATH \<equiv> 11"
abbreviation (input) OPTION_CONTENT_FORMAT :: u16 where "OPTION_CONTENT_FORMAT \<equiv> 12"
abbreviation (input) OPTION_BLOCK2 :: u16 where "OPTION_BLOCK2 \<equiv> 23"
abbreviation (input) OPTION_BLOCK1 :: u16 where "OPTION_BLOCK1 \<equiv> 27"
abbreviation (input) OPTION_SIZE1 :: u16 where "OPTION_SIZE1 \<equiv> 60"

abbreviation (input) NABTO_COAP_MAX_OPTION_LENGTH :: nat where
  "NABTO_COAP_MAX_OPTION_LENGTH \<equiv> 65804"

record option_iterator =
  it_buffer :: "bytes option"
  it_option :: u16
  it_data :: bytes

record coap_incoming_message =
  im_type :: coap_type
  im_code :: coap_code
  im_messageId :: u16
  im_token :: coap_token
  im_options :: "bytes option"
  im_payload :: "bytes option"
  im_hasContentFormat :: bool
  im_contentFormat :: u16
  im_hasBlock1 :: bool
  im_block1 :: u32
  im_hasBlock2 :: bool
  im_block2 :: u32
  im_hasObserve :: bool
  im_observe :: u32
  im_hasRepeatedBlockOption :: bool

record coap_message_header =
  mh_type :: coap_type
  mh_code :: coap_code
  mh_messageId :: u16
  mh_token :: coap_token

section \<open>Codes, stamps, tokens and blocks\<close>

definition nabto_coap_uint16_to_code :: "u16 \<Rightarrow> coap_code" where
  "nabto_coap_uint16_to_code code =
     (let cl = code div 100; code' = code - cl * 100
      in NABTO_COAP_CODE (ucast cl) (ucast code'))"

definition nabto_coap_is_stamp_less :: "u32 \<Rightarrow> u32 \<Rightarrow> bool" where
  "nabto_coap_is_stamp_less s1 s2 \<longleftrightarrow> sint (s1 - s2) < 0"

definition nabto_coap_is_stamp_less_equal :: "u32 \<Rightarrow> u32 \<Rightarrow> bool" where
  "nabto_coap_is_stamp_less_equal s1 s2 \<longleftrightarrow> sint (s1 - s2) \<le> 0"

definition nabto_coap_stamp_min :: "u32 \<Rightarrow> u32 \<Rightarrow> u32" where
  "nabto_coap_stamp_min s1 s2 = (if nabto_coap_is_stamp_less_equal s1 s2 then s1 else s2)"

definition nabto_coap_stamp_diff :: "u32 \<Rightarrow> u32 \<Rightarrow> int" where
  "nabto_coap_stamp_diff s1 s2 = sint (s1 - s2)"

definition nabto_coap_token_equal :: "coap_token \<Rightarrow> coap_token \<Rightarrow> bool" where
  "nabto_coap_token_equal t1 t2 =
     (if length t1 \<noteq> length t2 then False else take (length t1) t2 = t1)"

definition nabto_coap_block_size_from_szx :: "u32 \<Rightarrow> nat" where
  "nabto_coap_block_size_from_szx szx = push_bit (unat (szx AND 7)) 16"

definition nabto_coap_block_offset :: "u32 \<Rightarrow> u32 \<Rightarrow> nat" where
  "nabto_coap_block_offset blockNum szx = unat blockNum * nabto_coap_block_size_from_szx szx"

definition NABTO_COAP_BLOCK_SIZE :: "u32 \<Rightarrow> u32" where
  "NABTO_COAP_BLOCK_SIZE v = v AND 7"

definition NABTO_COAP_BLOCK_SIZE_ABSOLUTE :: "u32 \<Rightarrow> nat" where
  "NABTO_COAP_BLOCK_SIZE_ABSOLUTE v = push_bit (unat (NABTO_COAP_BLOCK_SIZE v)) 16"

definition NABTO_COAP_BLOCK_NUM :: "u32 \<Rightarrow> u32" where
  "NABTO_COAP_BLOCK_NUM v = drop_bit 4 v"

definition NABTO_COAP_BLOCK_MORE :: "u32 \<Rightarrow> bool" where
  "NABTO_COAP_BLOCK_MORE v \<longleftrightarrow> drop_bit 3 (v AND 15) \<noteq> 0"

definition NABTO_COAP_BLOCK_OFFSET :: "u32 \<Rightarrow> nat" where
  "NABTO_COAP_BLOCK_OFFSET v =
     nabto_coap_block_offset (NABTO_COAP_BLOCK_NUM v) (NABTO_COAP_BLOCK_SIZE v)"

definition nabto_coap_error_to_string :: "coap_error \<Rightarrow> string" where
  "nabto_coap_error_to_string err = (case err of
     COAP_OK \<Rightarrow> ''NABTO_COAP_ERROR_OK''
   | COAP_OUT_OF_MEMORY \<Rightarrow> ''NABTO_COAP_ERROR_OUT_OF_MEMORY''
   | COAP_NO_CONNECTION \<Rightarrow> ''NABTO_COAP_ERROR_NO_CONNECTION''
   | COAP_INVALID_PARAMETER \<Rightarrow> ''NABTO_COAP_ERROR_INVALID_PARAMETER'')"

section \<open>Variable length integers\<close>

primrec parse_variable_loop :: "u32 \<Rightarrow> bytes \<Rightarrow> u32" where
  "parse_variable_loop r [] = r"
| "parse_variable_loop r (b # bs) = parse_variable_loop (push_bit 8 r + ucast b) bs"

definition nabto_coap_parse_variable_int :: "bytes \<Rightarrow> u8 \<Rightarrow> u32 option" where
  "nabto_coap_parse_variable_int buf maxBytes =
     (if unat maxBytes < length buf then None else Some (parse_variable_loop 0 buf))"

lemma drop8_less: "(v::u32) \<noteq> 0 \<Longrightarrow> unat (drop_bit 8 v) < unat v"
  by (simp add: unat_drop8 unat_gt_0)

function variable_length_bytes :: "u32 \<Rightarrow> u8 \<Rightarrow> u8" where
  "variable_length_bytes v n =
     (if 0 < v then variable_length_bytes (drop_bit 8 v) (n + 1) else n)"
  by pat_completeness auto
termination by (relation "measure (unat \<circ> fst)") (auto simp: drop8_less word_gt_0)

text \<open>The fill loop: \<open>i\<close> is the index of \<open>ptr\<close>, which moves down before each store.\<close>

function variable_fill :: "u32 \<Rightarrow> nat \<Rightarrow> bytes \<Rightarrow> bytes" where
  "variable_fill v i buf =
     (if 0 < v then variable_fill (drop_bit 8 v) (i - 1) (buf[i - 1 := ucast (v AND 0xFF)]) else buf)"
  by pat_completeness auto
termination by (relation "measure (unat \<circ> fst)") (auto simp: drop8_less word_gt_0)

declare variable_length_bytes.simps [simp del] variable_fill.simps [simp del]

definition nabto_coap_encode_variable_int ::
  "bytes \<Rightarrow> u8 \<Rightarrow> u32 \<Rightarrow> (bytes \<times> nat) option" where
  "nabto_coap_encode_variable_int buf maxBufferLength v =
     (let n = variable_length_bytes v 0
      in if maxBufferLength < n then None else Some (variable_fill v (unat n) buf, unat n))"

section \<open>Options\<close>

definition decode_option_field :: "u8 \<Rightarrow> bytes \<Rightarrow> (u32 \<times> bytes) option" where
  "decode_option_field nibble ptr =
     (if nibble < 13 then Some (ucast nibble, ptr)
      else if nibble = 13 then
        (case ptr of b0 # ptr' \<Rightarrow> Some (ucast b0 + 13, ptr') | [] \<Rightarrow> None)
      else if nibble = 14 then
        (case ptr of b0 # b1 # ptr' \<Rightarrow> Some (push_bit 8 (ucast b0) + ucast b1 + 269, ptr')
         | _ \<Rightarrow> None)
      else None)"

definition nabto_coap_get_next_option :: "option_iterator \<Rightarrow> option_iterator option" where
  "nabto_coap_get_next_option it = (case it_buffer it of
     None \<Rightarrow> None
   | Some [] \<Rightarrow> None
   | Some (first # ptr) \<Rightarrow>
      (case decode_option_field (drop_bit 4 first) ptr of
         None \<Rightarrow> None
       | Some (delta, ptr) \<Rightarrow>
          (case decode_option_field (first AND 0x0F) ptr of
             None \<Rightarrow> None
           | Some (len, ptr) \<Rightarrow>
              if length ptr < unat len then None
              else let delta = delta + ucast (it_option it) in
                if 0xFFFF < delta then None
                else Some (it\<lparr>it_option := ucast delta, it_data := take (unat len) ptr,
                              it_buffer := Some (drop (unat len) ptr)\<rparr>))))"

definition nabto_coap_option_iterator_init :: "bytes option \<Rightarrow> option_iterator" where
  "nabto_coap_option_iterator_init buf = \<lparr>it_buffer = buf, it_option = 0, it_data = []\<rparr>"

definition it_left :: "option_iterator \<Rightarrow> nat" where
  "it_left it = (case it_buffer it of None \<Rightarrow> 0 | Some b \<Rightarrow> length b)"

lemma decode_option_field_length:
  "decode_option_field nb ptr = Some (v, ptr') \<Longrightarrow> length ptr' \<le> length ptr"
  by (auto simp: decode_option_field_def split: if_splits list.splits)

lemma get_next_option_left [simp]:
  "nabto_coap_get_next_option it = Some it' \<Longrightarrow> it_left it' < it_left it"
  by (auto simp: nabto_coap_get_next_option_def it_left_def Let_def
      split: option.splits list.splits if_splits prod.splits
      dest!: decode_option_field_length)

function nabto_coap_get_option :: "u16 \<Rightarrow> option_iterator \<Rightarrow> option_iterator option" where
  "nabto_coap_get_option optionNumber it = (case nabto_coap_get_next_option it of
     None \<Rightarrow> None
   | Some it' \<Rightarrow> if it_option it' = optionNumber then Some it'
                else nabto_coap_get_option optionNumber it')"
  by pat_completeness auto
termination by (relation "measure (it_left \<circ> snd)") auto

declare nabto_coap_get_option.simps [simp del]

section \<open>Messages\<close>

definition empty_message :: coap_incoming_message where
  "empty_message = \<lparr>im_type = CON, im_code = 0, im_messageId = 0, im_token = [],
     im_options = None, im_payload = None, im_hasContentFormat = False, im_contentFormat = 0,
     im_hasBlock1 = False, im_block1 = 0, im_hasBlock2 = False, im_block2 = 0,
     im_hasObserve = False, im_observe = 0, im_hasRepeatedBlockOption = False\<rparr>"

text \<open>The body of the option loop of \<open>nabto_coap_parse_message\<close>.\<close>

definition parse_message_option ::
  "option_iterator \<Rightarrow> coap_incoming_message \<Rightarrow> coap_incoming_message option" where
  "parse_message_option it msg =
     (if it_option it = OPTION_OBSERVE then
        (case nabto_coap_parse_variable_int (it_data it) 3 of None \<Rightarrow> None
         | Some v \<Rightarrow> Some (msg\<lparr>im_hasObserve := True, im_observe := v\<rparr>))
      else if it_option it = OPTION_CONTENT_FORMAT then
        (case nabto_coap_parse_variable_int (it_data it) 2 of None \<Rightarrow> None
         | Some v \<Rightarrow> Some (msg\<lparr>im_hasContentFormat := True, im_contentFormat := ucast v\<rparr>))
      else if it_option it = OPTION_BLOCK1 then
        (case nabto_coap_parse_variable_int (it_data it) 3 of None \<Rightarrow> None
         | Some v \<Rightarrow>
            let msg = (if im_hasBlock1 msg then msg\<lparr>im_hasRepeatedBlockOption := True\<rparr> else msg)
            in Some (msg\<lparr>im_hasBlock1 := True, im_block1 := v\<rparr>))
      else if it_option it = OPTION_BLOCK2 then
        (case nabto_coap_parse_variable_int (it_data it) 3 of None \<Rightarrow> None
         | Some v \<Rightarrow>
            let msg = (if im_hasBlock2 msg then msg\<lparr>im_hasRepeatedBlockOption := True\<rparr> else msg)
            in Some (msg\<lparr>im_hasBlock2 := True, im_block2 := v\<rparr>))
      else Some msg)"

function parse_message_options ::
  "option_iterator \<Rightarrow> coap_incoming_message \<Rightarrow> (option_iterator \<times> coap_incoming_message) option"
where
  "parse_message_options it msg = (case nabto_coap_get_next_option it of
     None \<Rightarrow> Some (it, msg)
   | Some it' \<Rightarrow>
      (case parse_message_option it' msg of
         None \<Rightarrow> None
       | Some msg' \<Rightarrow> parse_message_options it' msg'))"
  by pat_completeness auto
termination by (relation "measure (it_left \<circ> fst)") auto

declare parse_message_options.simps [simp del]

text \<open>The part of \<open>nabto_coap_parse_message\<close> that follows the token.\<close>

definition parse_message_tail :: "bytes \<Rightarrow> coap_incoming_message \<Rightarrow> coap_incoming_message option" where
  "parse_message_tail ptr msg =
     (if length ptr < 1 then Some msg
      else (case parse_message_options (nabto_coap_option_iterator_init (Some ptr)) msg of
         None \<Rightarrow> None
       | Some (it, msg) \<Rightarrow>
          let rest = the (it_buffer it);
              msg = msg\<lparr>im_options := Some (take (length ptr - length rest) ptr)\<rparr>
          in (case rest of
                [] \<Rightarrow> Some msg
              | b # payload \<Rightarrow>
                 if b = 0xFF then
                   (if length rest < 2 then None
                    else Some (msg\<lparr>im_payload := Some payload\<rparr>))
                 else None)))"

definition nabto_coap_parse_message :: "bytes \<Rightarrow> coap_incoming_message option" where
  "nabto_coap_parse_message packet =
     (if length packet < 4 then None
      else let
        first = packet ! 0;
        version = drop_bit 6 first;
        tokenLength = first AND 0x0f;
        msg = empty_message
          \<lparr>im_type := coap_type_of_bits (drop_bit 4 (first AND 0x30)),
           im_code := ucast (packet ! 1),
           im_messageId := push_bit 8 (ucast (packet ! 2)) + ucast (packet ! 3)\<rparr>;
        ptr = drop 4 packet
      in if version \<noteq> 1 then None
         else if 8 < tokenLength then None
         else if length packet < unat tokenLength + 4 then None
         else parse_message_tail (drop (unat tokenLength) ptr)
                (msg\<lparr>im_token := take (unat tokenLength) ptr\<rparr>))"

definition im_payloadLength :: "coap_incoming_message \<Rightarrow> nat" where
  "im_payloadLength msg = (case im_payload msg of None \<Rightarrow> 0 | Some p \<Rightarrow> length p)"

section \<open>Encoding\<close>

definition nabto_coap_encode_header :: "coap_message_header \<Rightarrow> wptr \<Rightarrow> wptr" where
  "nabto_coap_encode_header header p = (case p of
     None \<Rightarrow> None
   | Some (w, room) \<Rightarrow>
      let tokenLength = length (mh_token header) in
      if room < 4 + tokenLength then None
      else let
        firstByte = 0x40;
        firstByte = firstByte OR (push_bit 4 (coap_type_to_bits (mh_type header)) AND 0x30);
        firstByte = firstByte OR (word_of_nat tokenLength AND 0x0f)
      in Some (w @ [firstByte, ucast (mh_code header), byte_at 8 (mh_messageId header),
                    byte_at 0 (mh_messageId header)] @ mh_token header,
               room - (4 + tokenLength)))"

text \<open>The nibble and the extension bytes of an option field, for the room that is left.\<close>

definition encode_option_field :: "u32 \<Rightarrow> nat \<Rightarrow> (u8 \<times> bytes) option" where
  "encode_option_field value room =
     (if value < 13 then Some (ucast value, [])
      else if value < 269 then
        (if room < 1 then None else Some (13, [ucast (value - 13)]))
      else
        (if room < 2 then None
         else let value = value - 269
              in Some (14, [byte_at 8 value, byte_at 0 value])))"

definition nabto_coap_encode_option :: "u16 \<Rightarrow> bytes \<Rightarrow> wptr \<Rightarrow> wptr" where
  "nabto_coap_encode_option optionDelta optionData p =
     (if NABTO_COAP_MAX_OPTION_LENGTH < length optionData then None
      else case p of None \<Rightarrow> None
      | Some (w, room) \<Rightarrow>
         if room < 1 then None
         else (case encode_option_field (ucast optionDelta) (room - 1) of
           None \<Rightarrow> None
         | Some (deltaNibble, e1) \<Rightarrow>
            (case encode_option_field (word_of_nat (length optionData)) (room - 1 - length e1) of
               None \<Rightarrow> None
             | Some (lengthNibble, e2) \<Rightarrow>
                let room = room - 1 - length e1 - length e2 in
                if room < length optionData then None
                else Some (w @ [push_bit 4 deltaNibble OR lengthNibble] @ e1 @ e2 @ optionData,
                           room - length optionData))))"

definition nabto_coap_encode_payload :: "bytes option \<Rightarrow> wptr \<Rightarrow> wptr" where
  "nabto_coap_encode_payload payload p = (case payload of
     None \<Rightarrow> p
   | Some bs \<Rightarrow>
      if length bs = 0 then p
      else (case p of None \<Rightarrow> None
        | Some (w, room) \<Rightarrow>
           if room < length bs + 1 then None
           else Some (w @ [0xFF] @ bs, room - (length bs + 1))))"

definition nabto_coap_encode_varint_option :: "u16 \<Rightarrow> u32 \<Rightarrow> wptr \<Rightarrow> wptr" where
  "nabto_coap_encode_varint_option optionDelta value p =
     (case nabto_coap_encode_variable_int [0, 0, 0, 0] 4 value of
        None \<Rightarrow> None
      | Some (encoded, encodedLength) \<Rightarrow>
         nabto_coap_encode_option optionDelta (take encodedLength encoded) p)"

section \<open>Option fields read back\<close>

lemma encode_decode_option_field:
  assumes "encode_option_field v room = Some (nib, ext)" "unat v \<le> 65804"
  shows "decode_option_field nib (ext @ rest) = Some (v, rest) \<and> nib < 15 \<and> length ext \<le> room"
proof -
  consider "unat v < 13" | "13 \<le> unat v" "unat v < 269" | "269 \<le> unat v" by linarith
  then show "decode_option_field nib (ext @ rest) = Some (v, rest) \<and> nib < 15 \<and> length ext \<le> room"
  proof cases
    case 1
    then show ?thesis using assms(1)
      by (auto simp: encode_option_field_def decode_option_field_def word_less_nat_alt u32_eq_iff u8_eq_iff)
  next
    case 2
    then have "unat (v - 13) = unat v - 13" by (simp add: unat_diff_u32)
    with 2 show ?thesis using assms(1)
      by (auto simp: encode_option_field_def decode_option_field_def word_less_nat_alt u32_eq_iff
          unat_add_u32 split: if_splits)
  next
    case 3
    then have "unat (v - 269) = unat v - 269" by (simp add: unat_diff_u32)
    with assms(2) have "push_bit 8 (ucast (byte_at 8 (v - 269))) + ucast (byte_at 0 (v - 269)) + 269 = v"
      by (simp add: shift8_add_byte_at)
    with 3 assms show ?thesis
      by (auto simp: encode_option_field_def decode_option_field_def word_less_nat_alt
          Let_def split: if_splits)
  qed
qed

lemma nibbles:
  assumes "d < (16::u8)" "l < 16"
  shows "drop_bit 4 (push_bit 4 d OR l) = d" "(push_bit 4 d OR l) AND 0x0F = l"
proof -
  have d: "take_bit 4 d = d" and l: "take_bit 4 l = l"
    using assms by (simp_all add: take_bit_eq_mod word_less_nat_alt u8_eq_iff unat_mod)
  have hi: "bit d n \<Longrightarrow> n < 4" and lo: "bit l n \<Longrightarrow> n < 4" for n
    by (metis bit_take_bit_iff d, metis bit_take_bit_iff l)
  have mask: "(0x0F::u8) = mask 4" by (simp add: mask_eq_exp_minus_1)
  show "drop_bit 4 (push_bit 4 d OR l) = d"
    by (rule bit_word_eqI) (auto simp: bit_simps dest: lo hi)
  show "(push_bit 4 d OR l) AND 0x0F = l"
    unfolding mask by (rule bit_word_eqI) (auto simp: bit_simps dest: lo hi)
qed

lemma encode_option_field_room:
  "encode_option_field v room = Some (nib, ext) \<Longrightarrow> length ext \<le> room"
  by (auto simp: encode_option_field_def Let_def split: if_splits)

text \<open>What an encoded option is for the iterator that reads it back.\<close>

definition option_frame :: "u16 \<Rightarrow> bytes \<Rightarrow> bytes \<Rightarrow> bool" where
  "option_frame delta data opt \<longleftrightarrow> opt \<noteq> [] \<and>
     (\<forall>it rest. it_buffer it = Some (opt @ rest) \<longrightarrow>
        nabto_coap_get_next_option it =
          (if 0xFFFF < unat (it_option it) + unat delta then None
           else Some (it\<lparr>it_option := it_option it + delta, it_data := data, it_buffer := Some rest\<rparr>)))"

lemma encode_option_frame:
  assumes "nabto_coap_encode_option delta data (Some (w, room)) = Some q"
  obtains opt where "q = (w @ opt, room - length opt)" "length opt \<le> room"
    "option_frame delta data opt"
proof -
  from assms obtain dn e1 ln e2 where
    len: "length data \<le> 65804" and
    d: "encode_option_field (ucast delta) (room - 1) = Some (dn, e1)" and
    l: "encode_option_field (word_of_nat (length data)) (room - 1 - length e1) = Some (ln, e2)" and
    room: "1 \<le> room" "length data \<le> room - 1 - length e1 - length e2" and
    q: "q = (w @ [push_bit 4 dn OR ln] @ e1 @ e2 @ data,
             room - 1 - length e1 - length e2 - length data)"
    by (auto simp: nabto_coap_encode_option_def Let_def split: if_splits option.splits)
  let ?opt = "[push_bit 4 dn OR ln] @ e1 @ e2 @ data"
  have ul: "unat (word_of_nat (length data) :: u32) = length data"
    using len by (simp add: unat_of_nat)
  have ud: "unat (ucast delta :: u32) \<le> 65804"
    using unat_u16_less [of delta] by (simp add: less_imp_le order.trans del: unat_u16_less)
  note D = encode_decode_option_field [OF d ud]
  note L = encode_decode_option_field [OF l]
  have nib: "dn < 16" "ln < 16"
    using D [of "[]"] L [of "[]"] len ul by (auto simp: word_less_nat_alt)
  define f where "f = push_bit 4 dn OR ln"
  have f: "drop_bit 4 f = dn" "f AND 0x0F = ln"
    unfolding f_def using nibbles [OF nib] by blast+
  have "option_frame delta data ?opt"
    unfolding f_def [symmetric] option_frame_def
  proof (intro conjI allI impI)
    fix it :: option_iterator and rest
    assume it: "it_buffer it = Some (([f] @ e1 @ e2 @ data) @ rest)"
    have add: "unat (ucast delta + ucast (it_option it) :: u32) = unat (it_option it) + unat delta"
      using unat_u16_less [of delta] unat_u16_less [of "it_option it"]
      by (simp add: unat_add_u32 del: unat_u16_less)
    have opt: "ucast (ucast delta + ucast (it_option it) :: u32) = it_option it + delta"
      if "unat (it_option it) + unat delta \<le> 0xFFFF"
      using that by (simp add: u16_eq_iff add) (simp add: unat_plus_if_size word_size)
    show "nabto_coap_get_next_option it =
          (if 0xFFFF < unat (it_option it) + unat delta then None
           else Some (it\<lparr>it_option := it_option it + delta, it_data := data, it_buffer := Some rest\<rparr>))"
      using D L len ul it opt f
      by (auto simp: nabto_coap_get_next_option_def word_less_nat_alt add Let_def)
  qed simp
  moreover have "length ?opt \<le> room"
    using room encode_option_field_room [OF d] encode_option_field_room [OF l] by simp
  ultimately show thesis
    using that [of ?opt] q room by simp
qed

text \<open>An option that \<open>nabto_coap_encode_option\<close> has written is read back by the option iterator
  whatever follows it: the number is the previous one plus the delta, the data are the ones that
  were encoded, and the iterator is left at the first byte after the option.  The encoder uses
  exactly as much room as the bytes it writes.\<close>

theorem encode_option_roundtrip:
  assumes "nabto_coap_encode_option delta data (Some (w, room)) = Some (w', room')"
    and "unat prev + unat delta \<le> 0xFFFF"
  shows "\<exists>opt. w' = w @ opt \<and> room = room' + length opt \<and>
    (\<forall>rest d. nabto_coap_get_next_option \<lparr>it_buffer = Some (opt @ rest), it_option = prev, it_data = d\<rparr>
       = Some \<lparr>it_buffer = Some rest, it_option = prev + delta, it_data = data\<rparr>)"
proof -
  obtain opt where "(w', room') = (w @ opt, room - length opt)" "length opt \<le> room"
    "option_frame delta data opt"
    using encode_option_frame [OF assms(1)] by blast
  then show ?thesis
    using assms(2) by (intro exI [of _ opt]) (auto simp: option_frame_def)
qed

section \<open>Messages read back\<close>

text \<open>All options an iterator yields.\<close>

function options_of :: "option_iterator \<Rightarrow> (u16 \<times> bytes) list" where
  "options_of it = (case nabto_coap_get_next_option it of
     None \<Rightarrow> []
   | Some it' \<Rightarrow> (it_option it', it_data it') # options_of it')"
  by pat_completeness auto
termination by (relation "measure it_left") auto

declare options_of.simps [simp del]

text \<open>A sequence of options encoded one after the other, numbers relative to the previous one.\<close>

fun encode_options :: "u16 \<Rightarrow> (u16 \<times> bytes) list \<Rightarrow> wptr \<Rightarrow> wptr" where
  "encode_options prev [] p = p"
| "encode_options prev ((n, data) # opts) p =
     encode_options n opts (nabto_coap_encode_option (n - prev) data p)"

lemma encode_option_None [simp]: "nabto_coap_encode_option n d None = None"
  by (simp add: nabto_coap_encode_option_def)

lemma encode_options_None [simp]: "encode_options prev opts None = None"
  by (induction opts arbitrary: prev) auto

definition option_ok :: "u16 \<times> bytes \<Rightarrow> bool" where
  "option_ok = (\<lambda>(n, data).
     (n \<in> {OPTION_OBSERVE, OPTION_BLOCK1, OPTION_BLOCK2} \<longrightarrow> length data \<le> 3) \<and>
     (n = OPTION_CONTENT_FORMAT \<longrightarrow> length data \<le> 2))"

definition same_frame :: "coap_incoming_message \<Rightarrow> coap_incoming_message \<Rightarrow> bool" where
  "same_frame m m' \<longleftrightarrow> im_type m = im_type m' \<and> im_code m = im_code m' \<and>
     im_messageId m = im_messageId m' \<and> im_token m = im_token m' \<and>
     im_options m = im_options m' \<and> im_payload m = im_payload m'"

lemma parse_message_option_frame:
  "parse_message_option it msg = Some msg' \<Longrightarrow> same_frame msg msg'"
  by (auto simp: parse_message_option_def same_frame_def Let_def split: if_splits option.splits)

lemma parse_message_option_ok:
  "option_ok (it_option it, it_data it) \<Longrightarrow> \<exists>msg'. parse_message_option it msg = Some msg'"
  by (auto simp: parse_message_option_def option_ok_def nabto_coap_parse_variable_int_def Let_def
      split: if_splits option.splits)

text \<open>The two ways an option list ends in a well formed message.\<close>

definition options_end :: "bytes \<Rightarrow> bool" where
  "options_end tail = (tail = [] \<or> hd tail = 0xFF)"

lemma get_next_option_end:
  "options_end tail \<Longrightarrow> it_buffer it = Some tail \<Longrightarrow> nabto_coap_get_next_option it = None"
  by (cases tail) (auto simp: nabto_coap_get_next_option_def options_end_def decode_option_field_def)

lemma parse_encoded_options:
  assumes "encode_options prev opts (Some (w, room)) = Some (w', room')"
    and "sorted (map unat (prev # map fst opts))" and "\<forall>opt\<in>set opts. option_ok opt"
    and "options_end tail"
  shows "\<exists>enc. w' = w @ enc \<and> room = room' + length enc \<and> (opts \<noteq> [] \<longrightarrow> enc \<noteq> []) \<and>
    (\<forall>it msg. it_buffer it = Some (enc @ tail) \<longrightarrow> it_option it = prev \<longrightarrow>
       options_of it = opts \<and>
       (\<exists>it' msg'. parse_message_options it msg = Some (it', msg') \<and> it_buffer it' = Some tail \<and>
          same_frame msg msg'))"
  using assms
proof (induction opts arbitrary: prev w room)
  case Nil
  then show ?case
    by (auto simp: parse_message_options.simps options_of.simps get_next_option_end same_frame_def)
next
  case (Cons o1 opts)
  obtain n data where o1: "o1 = (n, data)" by fastforce
  from Cons.prems(1) obtain q where q: "nabto_coap_encode_option (n - prev) data (Some (w, room)) = Some q"
    by (cases "nabto_coap_encode_option (n - prev) data (Some (w, room))") (auto simp: o1)
  obtain opt where opt: "q = (w @ opt, room - length opt)" "length opt \<le> room"
    "option_frame (n - prev) data opt"
    using encode_option_frame [OF q] by blast
  have le: "unat prev \<le> unat n" using Cons.prems(2) by (simp add: o1)
  then have diff: "unat (n - prev) = unat n - unat prev"
    by (simp add: unat_sub word_le_nat_alt)
  obtain enc where enc: "w' = (w @ opt) @ enc" "room - length opt = room' + length enc"
    "\<And>it msg. it_buffer it = Some (enc @ tail) \<Longrightarrow> it_option it = n \<Longrightarrow>
       options_of it = opts \<and>
       (\<exists>it' msg'. parse_message_options it msg = Some (it', msg') \<and> it_buffer it' = Some tail \<and>
          same_frame msg msg')"
    using Cons.IH [of n "w @ opt" "room - length opt"] Cons.prems q opt(1) by (auto simp: o1)
  have step: "nabto_coap_get_next_option it
      = Some (it\<lparr>it_option := n, it_data := data, it_buffer := Some (enc @ tail)\<rparr>)"
    if "it_buffer it = Some ((opt @ enc) @ tail)" "it_option it = prev" for it
    using opt(3) that le diff unat_u16_less [of n]
    by (auto simp: option_frame_def simp del: unat_u16_less)
  have all: "options_of it = o1 # opts \<and>
       (\<exists>it' msg'. parse_message_options it msg = Some (it', msg') \<and> it_buffer it' = Some tail \<and>
          same_frame msg msg')"
    if it: "it_buffer it = Some ((opt @ enc) @ tail)" "it_option it = prev" for it msg
  proof -
    let ?it = "it\<lparr>it_option := n, it_data := data, it_buffer := Some (enc @ tail)\<rparr>"
    have "\<exists>msg1. parse_message_option ?it msg = Some msg1"
      using Cons.prems(3) by (intro parse_message_option_ok) (simp add: o1)
    then obtain msg1 where msg1: "parse_message_option ?it msg = Some msg1" by blast
    obtain it' msg' where "parse_message_options ?it msg1 = Some (it', msg')"
      "it_buffer it' = Some tail" "same_frame msg1 msg'" and "options_of ?it = opts"
      using enc(3) [of ?it msg1] by auto
    then show ?thesis
      using step [OF it] msg1 parse_message_option_frame [OF msg1]
      by (auto simp: options_of.simps [of it] parse_message_options.simps [of it] o1 same_frame_def)
  qed
  have "opt \<noteq> []" using opt(3) by (simp add: option_frame_def)
  with all enc(1,2) opt(2) show ?case
    by (intro exI [of _ "opt @ enc"]) auto
qed

lemma header_first_byte:
  fixes t :: coap_type and n :: nat
  assumes "n \<le> 8"
  defines "f \<equiv> (0x40 OR (push_bit 4 (coap_type_to_bits t) AND 0x30)) OR (word_of_nat n AND 0x0f :: u8)"
  shows "drop_bit 6 f = 1" "coap_type_of_bits (drop_bit 4 (f AND 0x30)) = t"
    "f AND 0x0f = word_of_nat n"
proof -
  have "n \<in> {0,1,2,3,4,5,6,7,8}" using assms(1) by auto
  then have *: "drop_bit 6 f = 1 \<and> coap_type_of_bits (drop_bit 4 (f AND 0x30)) = t \<and>
    f AND 0x0f = word_of_nat n"
    unfolding f_def by (cases t) (auto simp: coap_type_of_bits_def)
  then show "drop_bit 6 f = 1" "coap_type_of_bits (drop_bit 4 (f AND 0x30)) = t"
    "f AND 0x0f = word_of_nat n"
    by blast+
qed

lemma encode_header_parse:
  assumes "nabto_coap_encode_header h (Some ([], room)) = Some (w, r)" "length (mh_token h) \<le> 8"
    and "unat (mh_code h) < 256"
  shows "nabto_coap_parse_message (w @ rest) =
    parse_message_tail rest (empty_message\<lparr>im_type := mh_type h, im_code := mh_code h,
       im_messageId := mh_messageId h, im_token := mh_token h\<rparr>)"
proof -
  let ?n = "length (mh_token h)"
  have room: "4 + ?n \<le> room"
    using assms(1) by (auto simp: nabto_coap_encode_header_def Let_def split: if_splits)
  define f where "f = (0x40 OR (push_bit 4 (coap_type_to_bits (mh_type h)) AND 0x30)) OR
    (word_of_nat ?n AND 0x0f :: u8)"
  have f: "drop_bit 6 f = 1" "coap_type_of_bits (drop_bit 4 (f AND 0x30)) = mh_type h"
    "f AND 0x0f = word_of_nat ?n"
    unfolding f_def using header_first_byte [OF assms(2)] by blast+
  have n: "unat (word_of_nat ?n :: u8) = ?n"
    using assms(2) by (simp add: unat_of_nat)
  have w: "w = [f, ucast (mh_code h), byte_at 8 (mh_messageId h), byte_at 0 (mh_messageId h)] @ mh_token h"
    using assms(1) room by (auto simp: nabto_coap_encode_header_def Let_def f_def)
  have code: "ucast (ucast (mh_code h) :: u8) = mh_code h"
    using assms(3) by (simp add: u32_eq_iff)
  have id: "push_bit 8 (ucast (byte_at 8 (mh_messageId h))) + ucast (byte_at 0 (mh_messageId h)) = mh_messageId h"
    by (simp add: of_be16_plus)
  have tok: "\<not> 8 < (word_of_nat ?n :: u8)"
    using assms(2) n by (simp add: word_less_nat_alt)
  show ?thesis
    unfolding nabto_coap_parse_message_def w
    using f n id tok code by (simp add: Let_def)
qed

lemma encode_header_Some:
  "nabto_coap_encode_header h (Some (w, room)) = Some q \<Longrightarrow>
   \<exists>hd. q = (w @ hd, room - length hd) \<and> length hd \<le> room \<and> length hd = 4 + length (mh_token h)"
  by (auto simp: nabto_coap_encode_header_def Let_def split: if_splits)

lemma encoded_message_parses:
  assumes "nabto_coap_encode_payload payload
             (encode_options 0 opts (nabto_coap_encode_header h (Some ([], room)))) = Some (packet, left)"
    and "length (mh_token h) \<le> 8" "unat (mh_code h) < 256"
    and "sorted (map (unat \<circ> fst) opts)" and "\<forall>opt\<in>set opts. option_ok opt"
  shows "\<exists>m. nabto_coap_parse_message packet = Some m \<and>
    im_type m = mh_type h \<and> im_code m = mh_code h \<and> im_messageId m = mh_messageId h \<and>
    im_token m = mh_token h \<and>
    options_of (nabto_coap_option_iterator_init (im_options m)) = opts \<and>
    im_payload m = (if payload = Some [] then None else payload) \<and>
    length packet + left = room"
proof -
  from assms(1) obtain q0 where q0: "nabto_coap_encode_header h (Some ([], room)) = Some q0"
    by (cases "nabto_coap_encode_header h (Some ([], room))")
       (auto simp: nabto_coap_encode_payload_def split: option.splits if_splits)
  then obtain w0 where w0: "q0 = (w0, room - length w0)" "length w0 \<le> room"
    using encode_header_Some by fastforce
  from assms(1) q0 obtain w1 r1 where w1: "encode_options 0 opts (Some q0) = Some (w1, r1)"
    by (cases "encode_options 0 opts (Some q0)")
       (auto simp: nabto_coap_encode_payload_def split: option.splits if_splits)
  define pl where "pl = (case payload of None \<Rightarrow> [] | Some bs \<Rightarrow> if bs = [] then [] else 0xFF # bs)"
  have pk: "packet = w1 @ pl" "r1 = left + length pl"
    using assms(1) q0 w1
    by (auto simp: nabto_coap_encode_payload_def pl_def split: option.splits if_splits)
  have sorted: "sorted (map unat (0 # map fst opts))"
    using assms(4) by simp
  have e: "options_end pl" by (auto simp: options_end_def pl_def split: option.splits)
  have e0: "options_end []" by (simp add: options_end_def)
  have w1': "encode_options 0 opts (Some (w0, room - length w0)) = Some (w1, r1)"
    using w1 w0(1) by simp
  obtain enc where enc: "w1 = w0 @ enc" "room - length w0 = r1 + length enc"
    "opts \<noteq> [] \<longrightarrow> enc \<noteq> []"
    "\<forall>it msg. it_buffer it = Some (enc @ pl) \<longrightarrow> it_option it = 0 \<longrightarrow>
       options_of it = opts \<and>
       (\<exists>it' msg'. parse_message_options it msg = Some (it', msg') \<and> it_buffer it' = Some pl \<and>
          same_frame msg msg')"
    using parse_encoded_options [OF w1' sorted assms(5) e] by blast
  obtain enc2 where enc2: "w1 = w0 @ enc2"
    "\<forall>it (msg::coap_incoming_message). it_buffer it = Some (enc2 @ []) \<longrightarrow> it_option it = 0 \<longrightarrow> options_of it = opts"
    using parse_encoded_options [OF w1' sorted assms(5) e0] by blast
  note parse = encode_header_parse [OF q0 [unfolded w0(1)] assms(2,3), of "enc @ pl"]
  have o0: "options_of (nabto_coap_option_iterator_init (Some enc)) = opts"
    using enc2 enc(1) by (simp add: nabto_coap_option_iterator_init_def)
  show ?thesis
  proof (cases "enc @ pl = []")
    case True
    then have "opts = []" "payload = None \<or> payload = Some []"
      using enc(3) by (auto simp: pl_def split: option.splits if_splits)
    then show ?thesis
      using parse True pk enc(1,2) w0
      by (auto simp: parse_message_tail_def nabto_coap_option_iterator_init_def options_of.simps
          nabto_coap_get_next_option_def empty_message_def)
  next
    case False
    define msg where "msg = empty_message\<lparr>im_type := mh_type h, im_code := mh_code h,
                 im_messageId := mh_messageId h, im_token := mh_token h\<rparr>"
    obtain it' msg' where it: "parse_message_options (nabto_coap_option_iterator_init (Some (enc @ pl))) msg
        = Some (it', msg')" "it_buffer it' = Some pl" "same_frame msg msg'"
      using enc(4) [rule_format, of "nabto_coap_option_iterator_init (Some (enc @ pl))" msg]
      by (auto simp: nabto_coap_option_iterator_init_def)
    have "length packet + left = room"
      using pk enc(1,2) w0 by simp
    then show ?thesis
      using parse it False pk(1) enc(1) o0 unfolding msg_def [symmetric]
      by (auto simp: parse_message_tail_def pl_def same_frame_def msg_def empty_message_def Let_def
          split: option.splits if_splits)
  qed
qed

text \<open>C28: A message written by \<open>nabto_coap_encode_header\<close>, any sequence of options in the order of
  their numbers and \<open>nabto_coap_encode_payload\<close> is accepted by \<open>nabto_coap_parse_message\<close>, which
  recovers type, code, message id, token, the list of options and the payload.\<close>

theorem message_roundtrip:
  assumes "nabto_coap_encode_payload payload
             (encode_options 0 opts (nabto_coap_encode_header h (Some ([], room)))) = Some (packet, left)"
    and "length (mh_token h) \<le> 8" "unat (mh_code h) < 256"
    and "sorted (map (unat \<circ> fst) opts)" and "\<forall>opt\<in>set opts. option_ok opt"
  shows "\<exists>m. nabto_coap_parse_message packet = Some m \<and>
    im_type m = mh_type h \<and> im_code m = mh_code h \<and> im_messageId m = mh_messageId h \<and>
    im_token m = mh_token h \<and>
    options_of (nabto_coap_option_iterator_init (im_options m)) = opts \<and>
    im_payload m = (if payload = Some [] then None else payload) \<and>
    length packet + left = room"
  by (rule encoded_message_parses [OF assms])

lemma get_next_option_suffix:
  assumes "nabto_coap_get_next_option it = Some it'" "it_buffer it = Some b"
  shows "\<exists>pre b'. it_buffer it' = Some b' \<and> b = pre @ b' \<and> pre \<noteq> []"
proof -
  have dec: "\<exists>pre. p = pre @ p'" if "decode_option_field nb p = Some (v, p')" for nb p v p'
    using that by (auto simp: decode_option_field_def split: if_splits list.splits)
  from assms obtain first ptr d p1 l p2 where b: "b = first # ptr" and
    1: "decode_option_field (drop_bit 4 first) ptr = Some (d, p1)" and
    2: "decode_option_field (first AND 0x0F) p1 = Some (l, p2)" and
    it': "it_buffer it' = Some (drop (unat l) p2)"
    by (auto simp: nabto_coap_get_next_option_def Let_def
        split: option.splits list.splits if_splits prod.splits)
  obtain pre1 pre2 where "ptr = pre1 @ p1" "p1 = pre2 @ p2" using dec [OF 1] dec [OF 2] by auto
  then have "b = (first # pre1 @ pre2 @ take (unat l) p2) @ drop (unat l) p2" using b by simp
  then show ?thesis using it' by blast
qed

lemma parse_message_options_suffix:
  assumes "parse_message_options it msg = Some (it', msg')" "it_buffer it = Some b"
  shows "\<exists>pre b'. it_buffer it' = Some b' \<and> b = pre @ b' \<and> same_frame msg msg'
     \<and> nabto_coap_get_next_option it' = None"
  using assms
proof (induction it msg arbitrary: b rule: parse_message_options.induct)
  case (1 it msg)
  show ?case
  proof (cases "nabto_coap_get_next_option it")
    case None
    with 1 show ?thesis by (auto simp: parse_message_options.simps [of it] same_frame_def)
  next
    case (Some it1)
    with 1 obtain msg1 where m1: "parse_message_option it1 msg = Some msg1"
      and p1: "parse_message_options it1 msg1 = Some (it', msg')"
      by (auto simp: parse_message_options.simps [of it] split: option.splits)
    obtain pre1 b1 where "it_buffer it1 = Some b1" "b = pre1 @ b1"
      using get_next_option_suffix [OF Some 1(3)] by blast
    then show ?thesis
      using "1.IH" [OF Some m1 p1] parse_message_option_frame [OF m1]
      by (fastforce simp: same_frame_def)
  qed
qed

text \<open>What a parsed message says about the packet: where each part lies.\<close>

definition message_layout :: "bytes \<Rightarrow> coap_incoming_message \<Rightarrow> bool" where
  "message_layout packet m \<longleftrightarrow>
     (\<exists>header. length header = 4 \<and>
        packet = header @ im_token m @
          (case im_options m of None \<Rightarrow> [] | Some opts \<Rightarrow> opts) @
          (case im_payload m of None \<Rightarrow> [] | Some p \<Rightarrow> 0xFF # p))"

lemma parse_message_tail_layout:
  assumes "parse_message_tail ptr msg0 = Some m" "im_options msg0 = None" "im_payload msg0 = None"
  shows "ptr = (case im_options m of None \<Rightarrow> [] | Some opts \<Rightarrow> opts) @
          (case im_payload m of None \<Rightarrow> [] | Some p \<Rightarrow> 0xFF # p)"
    "im_token m = im_token msg0" "im_options m = None \<longrightarrow> im_payload m = None"
    "im_payload m \<noteq> Some []"
proof -
  have "ptr = (case im_options m of None \<Rightarrow> [] | Some opts \<Rightarrow> opts) @
          (case im_payload m of None \<Rightarrow> [] | Some p \<Rightarrow> 0xFF # p) \<and>
    im_token m = im_token msg0 \<and> (im_options m = None \<longrightarrow> im_payload m = None) \<and>
    im_payload m \<noteq> Some []"
  proof (cases "ptr = []")
    case True
    then show ?thesis using assms by (simp add: parse_message_tail_def)
  next
    case False
    then obtain it msg1 where
      opts: "parse_message_options (nabto_coap_option_iterator_init (Some ptr)) msg0 = Some (it, msg1)"
      using assms(1) by (auto simp: parse_message_tail_def split: option.splits)
    obtain pre b' where b': "it_buffer it = Some b'" "ptr = pre @ b'" "same_frame msg0 msg1"
      using parse_message_options_suffix [OF opts, of ptr]
      by (auto simp: nabto_coap_option_iterator_init_def)
    then show ?thesis
      using assms opts False
      by (auto simp: parse_message_tail_def same_frame_def Let_def split: list.splits if_splits)
  qed
  then show "ptr = (case im_options m of None \<Rightarrow> [] | Some opts \<Rightarrow> opts) @
          (case im_payload m of None \<Rightarrow> [] | Some p \<Rightarrow> 0xFF # p)"
    "im_token m = im_token msg0" "im_options m = None \<longrightarrow> im_payload m = None"
    "im_payload m \<noteq> Some []"
    by blast+
qed

text \<open>An accepted packet is exactly its four byte header, the token of at most eight bytes, the
  options and, after a marker, a payload that is never empty: the parser takes nothing from outside
  the packet and leaves no byte of it unaccounted for.\<close>

theorem parse_message_layout:
  assumes "nabto_coap_parse_message packet = Some m"
  shows "message_layout packet m \<and> length (im_token m) \<le> 8 \<and>
    (im_options m = None \<longrightarrow> im_payload m = None) \<and> im_payload m \<noteq> Some []"
proof -
  define tl where "tl = (packet ! 0) AND 0x0f"
  let ?tok = "take (unat tl) (drop 4 packet)" and ?rest = "drop (unat tl) (drop 4 packet)"
  from assms obtain msg0 where len: "4 \<le> length packet" "\<not> 8 < tl"
    and m: "parse_message_tail ?rest msg0 = Some m"
    and msg0: "im_options msg0 = None" "im_payload msg0 = None" "im_token msg0 = ?tok"
    by (auto simp: nabto_coap_parse_message_def tl_def Let_def empty_message_def split: if_splits)
  have "length ?tok \<le> 8"
    using len(2) by (simp add: word_less_nat_alt)
  moreover have "packet = take 4 packet @ ?tok @ ?rest"
    by (metis append_take_drop_id)
  ultimately show ?thesis
    using parse_message_tail_layout [OF m msg0(1,2)] len msg0(3)
    by (auto simp: message_layout_def intro!: exI [of _ "take 4 packet"])
qed

section \<open>Variable length integers read back\<close>

lemma parse_variable_loop_nat_be:
  "length bs + k \<le> 4 \<Longrightarrow> unat r < 256 ^ k \<Longrightarrow>
   unat (parse_variable_loop r bs) = foldl (\<lambda>r b. r * 256 + unat b) (unat r) bs"
proof (induction bs arbitrary: r k)
  case (Cons b bs)
  have "(256::nat) ^ k \<le> 256 ^ 3" using Cons.prems(1) by (intro power_increasing) auto
  then have r: "unat r < 16777216" using Cons.prems(2) by simp
  have "unat r * 256 + unat b < (unat r + 1) * 256"
    using unat_u8_less [of b] by (simp add: algebra_simps del: unat_u8_less)
  also have "\<dots> \<le> 256 ^ Suc k" using Cons.prems(2) by simp
  finally have k: "unat (push_bit 8 r + ucast b) < 256 ^ Suc k"
    by (simp only: unat_shift8_add [OF r])
  show ?case
    using Cons.IH [OF _ k] Cons.prems(1) by (simp add: unat_shift8_add [OF r])
qed simp

lemma parse_variable_int_value:
  assumes "unat maxBytes \<le> 4"
  shows "nabto_coap_parse_variable_int buf maxBytes =
    (if length buf \<le> unat maxBytes then Some (word_of_nat (nat_be buf)) else None)"
proof -
  have "parse_variable_loop 0 buf = word_of_nat (nat_be buf)" if "length buf \<le> unat maxBytes"
  proof -
    have "unat (parse_variable_loop 0 buf) = nat_be buf"
      using parse_variable_loop_nat_be [of buf 0 0] that assms by (simp add: nat_be_def)
    then show ?thesis by (metis of_nat_unat ucast_id)
  qed
  then show ?thesis
    by (simp add: nabto_coap_parse_variable_int_def)
qed

text \<open>The number of base 256 digits of \<open>n\<close>.\<close>

fun digits256 :: "nat \<Rightarrow> nat" where
  "digits256 n = (if n = 0 then 0 else Suc (digits256 (n div 256)))"

declare digits256.simps [simp del]

lemma digits256_le: "n < 256 ^ k \<Longrightarrow> digits256 n \<le> k"
proof (induction k arbitrary: n)
  case (Suc k)
  then have "n div 256 < 256 ^ k" by (simp add: less_mult_imp_div_less mult.commute)
  then show ?case using Suc.IH by (subst digits256.simps) auto
qed (simp add: digits256.simps)

lemma digits256_lower: "0 < digits256 n \<Longrightarrow> 256 ^ (digits256 n - 1) \<le> n"
  using digits256_le [of n "digits256 n - 1"] by (meson diff_less leI leD less_numeral_extra(1))

lemma variable_length_bytes_digits: "variable_length_bytes v n = n + word_of_nat (digits256 (unat v))"
proof (induction v n rule: variable_length_bytes.induct)
  case (1 v n)
  then show ?case
    by (subst variable_length_bytes.simps, subst digits256.simps)
       (simp add: word_gt_0 unat_drop8 unat_eq_0)
qed

lemma digits256_u32: "digits256 (unat (v::u32)) \<le> 4"
  by (rule digits256_le) simp

lemma variable_fill_value:
  "digits256 (unat v) \<le> i \<Longrightarrow> i \<le> length buf \<Longrightarrow>
   length (variable_fill v i buf) = length buf \<and>
   drop i (variable_fill v i buf) = drop i buf \<and>
   nat_be (drop (i - digits256 (unat v)) (take i (variable_fill v i buf))) = unat v"
proof (induction v i buf rule: variable_fill.induct)
  case (1 v i buf)
  show ?case
  proof (cases "0 < v")
    case True
    define buf' where "buf' = buf[i - 1 := ucast (v AND 0xFF)]"
    define r where "r = variable_fill (drop_bit 8 v) (i - 1) buf'"
    have d: "digits256 (unat v) = Suc (digits256 (unat (drop_bit 8 v)))"
      using True by (subst digits256.simps) (simp add: word_gt_0 unat_drop8 unat_eq_0)
    then have i: "i = Suc (i - 1)" using 1(2) by simp
    have IH: "length r = length buf' \<and> drop (i - 1) r = drop (i - 1) buf' \<and>
      nat_be (drop (i - 1 - digits256 (unat (drop_bit 8 v))) (take (i - 1) r)) = unat (drop_bit 8 v)"
      unfolding r_def buf'_def using 1 True d by (intro "1.IH") auto
    have r: "variable_fill v i buf = r"
      using True by (subst variable_fill.simps) (simp add: r_def buf'_def)
    have len: "length r = length buf" using IH by (simp add: buf'_def)
    have byte: "unat (ucast (v AND 0xFF) :: u8) = unat v mod 256" by simp
    have "drop (i - 1) r ! 0 = drop (i - 1) buf' ! 0" using IH by simp
    then have last: "r ! (i - 1) = ucast (v AND 0xFF)"
      using len i 1(3) by (simp add: buf'_def)
    have tk: "take i r = take (i - 1) r @ [ucast (v AND 0xFF)]"
      using last len i 1(3) by (metis Suc_le_lessD take_Suc_conv_app_nth)
    have "drop i r = drop i buf'"
    proof -
      have "drop (Suc 0) (drop (i - 1) r) = drop (Suc 0) (drop (i - 1) buf')" using IH by simp
      then show ?thesis unfolding drop_drop using i by simp
    qed
    moreover have "nat_be (drop (i - digits256 (unat v)) (take i r)) = unat v"
    proof -
      have e: "i - digits256 (unat v) = i - 1 - digits256 (unat (drop_bit 8 v))" using d by simp
      have "drop (i - digits256 (unat v)) (take i r) =
        drop (i - 1 - digits256 (unat (drop_bit 8 v))) (take (i - 1) r) @ [ucast (v AND 0xFF)]"
        unfolding e tk using len i 1(3) by simp
      then show ?thesis using IH byte by (simp add: unat_drop8)
    qed
    ultimately show ?thesis
      using r len i by (simp add: buf'_def)
  next
    case False
    then have "v = 0" by (simp add: word_gt_0)
    then show ?thesis by (simp add: variable_fill.simps [of 0] digits256.simps [of 0])
  qed
qed

lemma encode_variable_int_length:
  "variable_length_bytes v 0 = word_of_nat (digits256 (unat v)) \<and>
   unat (variable_length_bytes v 0) = digits256 (unat v)"
  using digits256_u32 [of v] by (simp add: variable_length_bytes_digits unat_of_nat)

text \<open>C13: \<open>nabto_coap_encode_variable_int\<close> writes the shortest big-endian form of the value into the
  first \<open>n\<close> bytes of its buffer, leaves the rest of the buffer alone, and the parser reads the value
  back.\<close>

theorem variable_int_roundtrip:
  assumes "length buf = 4" "unat maxLen \<le> 4"
    and "nabto_coap_encode_variable_int buf maxLen v = Some (buf', n)"
  shows "n \<le> unat maxLen \<and> length buf' = 4 \<and> drop n buf' = drop n buf \<and>
    (0 < n \<longrightarrow> 256 ^ (n - 1) \<le> unat v) \<and>
    nabto_coap_parse_variable_int (take n buf') maxLen = Some v"
proof -
  let ?d = "digits256 (unat v)"
  have n: "n = ?d" "buf' = variable_fill v ?d buf" "?d \<le> unat maxLen"
    using assms(3) encode_variable_int_length [of v]
    by (auto simp: nabto_coap_encode_variable_int_def Let_def word_le_nat_alt not_less split: if_splits)
  have f: "length buf' = 4" "drop n buf' = drop n buf" "nat_be (take n buf') = unat v"
    using variable_fill_value [of v ?d buf] n digits256_u32 [of v] assms(1) by auto
  show ?thesis
    using f n assms(2) parse_variable_int_value [OF assms(2), of "take n buf'"] digits256_lower [of "unat v"]
    by simp
qed


section \<open>Stamps, codes and tokens\<close>

interpretation coap_stamp: serial_order nabto_coap_is_stamp_less
  by unfold_locales (simp add: nabto_coap_is_stamp_less_def)

lemma stamp_less_equal_iff:
  "nabto_coap_is_stamp_less_equal a b \<longleftrightarrow> a = b \<or> nabto_coap_is_stamp_less a b"
  by (auto simp: nabto_coap_is_stamp_less_equal_def nabto_coap_is_stamp_less_def order_le_less
      signed_eq_0_iff)

lemma token_equal_iff [simp]: "nabto_coap_token_equal t1 t2 \<longleftrightarrow> t1 = t2"
  by (auto simp: nabto_coap_token_equal_def)

lemma stamp_min_cases: "nabto_coap_stamp_min a b = a \<or> nabto_coap_stamp_min a b = b"
  by (simp add: nabto_coap_stamp_min_def)

section \<open>Instances\<close>


definition sample_header :: coap_message_header where
  "sample_header = \<lparr>mh_type = CON, mh_code = 1, mh_messageId = 258, mh_token = [7, 8]\<rparr>"

definition sample_message :: bytes where
  "sample_message = [0x42, 1, 1, 2, 7, 8, 0xB2, 104, 105, 0x10, 0xFF, 33]"

lemma sample_option_encoded:
  "nabto_coap_encode_option 11 [104, 105] (Some ([], 10)) = Some ([0xB2, 104, 105], 7)"
  by (simp add: nabto_coap_encode_option_def encode_option_field_def Let_def)

theorem encode_option_roundtrip_witness:
  "\<exists>opt. [0xB2, 104, 105] = opt \<and>
    nabto_coap_get_next_option \<lparr>it_buffer = Some (opt @ [9]), it_option = 4, it_data = []\<rparr>
     = Some \<lparr>it_buffer = Some [9], it_option = 15, it_data = [104, 105]\<rparr>"
  using encode_option_roundtrip [OF sample_option_encoded, of 4] by simp

lemma sample_message_encoded:
  "nabto_coap_encode_payload (Some [33]) (encode_options 0 [(11, [104, 105]), (12, [])]
     (nabto_coap_encode_header sample_header (Some ([], 20)))) = Some (sample_message, 8)"
  by (simp add: nabto_coap_encode_option_def encode_option_field_def nabto_coap_encode_header_def
      nabto_coap_encode_payload_def sample_header_def sample_message_def byte_at_def Let_def)

theorem message_roundtrip_witness:
  "\<exists>m. nabto_coap_parse_message sample_message = Some m \<and> im_type m = CON \<and> im_messageId m = 258 \<and>
     options_of (nabto_coap_option_iterator_init (im_options m)) = [(11, [104, 105]), (12, [])] \<and>
     im_payload m = Some [33]"
  using message_roundtrip [OF sample_message_encoded]
  by (auto simp: sample_header_def option_ok_def)

theorem parse_message_layout_witness:
  "\<exists>m. nabto_coap_parse_message sample_message = Some m \<and> message_layout sample_message m"
proof -
  have "nabto_coap_parse_message sample_message \<noteq> None" by code_simp
  then obtain m where m: "nabto_coap_parse_message sample_message = Some m" by blast
  then show ?thesis using parse_message_layout [OF m] by blast
qed

theorem variable_int_roundtrip_witness:
  "nabto_coap_parse_variable_int (take 2 [1, 2, 0, 0]) 4 = Some 258"
proof -
  have "nabto_coap_encode_variable_int [0, 0, 0, 0] 4 258 = Some ([1, 2, 0, 0], 2)" by code_simp
  from variable_int_roundtrip [OF _ _ this] show ?thesis by simp
qed

end
