(* ===== verification/Nn_Memory.thy ===== *)
theory Nn_Memory
  imports Prelude
begin

text \<open>
  The allocator table of src/components/nn/src/nn/allocator.c and the two string functions of
  src/components/nn/src/nn/string.c.  The functions of the table are supplied by the user of the
  library and are parameters of the model: they pass a state of their own along.  A C string is the
  list of its bytes before the terminator; a string the library owns carries its address.
\<close>

section \<open>The allocator\<close>

type_synonym address = nat

record 'm nn_allocator =
  al_calloc :: "('m \<Rightarrow> nat \<Rightarrow> nat \<Rightarrow> address option \<times> 'm) option"
  al_free :: "('m \<Rightarrow> address option \<Rightarrow> 'm) option"

definition nn_allocator_calloc ::
  "'m nn_allocator \<Rightarrow> nat \<Rightarrow> nat \<Rightarrow> 'm \<Rightarrow> address option \<times> 'm" where
  "nn_allocator_calloc al n sz m = (case al_calloc al of None \<Rightarrow> (None, m) | Some f \<Rightarrow> f m n sz)"

definition nn_allocator_free :: "'m nn_allocator \<Rightarrow> address option \<Rightarrow> 'm \<Rightarrow> 'm" where
  "nn_allocator_free al p m = (case al_free al of None \<Rightarrow> m | Some f \<Rightarrow> f m p)"

text \<open>
  What the library relies on: an allocated block is one that was not in use, a failed allocation
  and a free of the null pointer leave the blocks in use as they are, and a free gives back the
  block it names.
\<close>

definition allocator_ok :: "'m nn_allocator \<Rightarrow> ('m \<Rightarrow> address set) \<Rightarrow> bool" where
  "allocator_ok al live \<longleftrightarrow>
     (\<forall>m n sz p m'. nn_allocator_calloc al n sz m = (Some p, m') \<longrightarrow>
        p \<notin> live m \<and> live m' = insert p (live m)) \<and>
     (\<forall>m n sz m'. nn_allocator_calloc al n sz m = (None, m') \<longrightarrow> live m' = live m) \<and>
     (\<forall>m. live (nn_allocator_free al None m) = live m) \<and>
     (\<forall>m p. p \<in> live m \<longrightarrow> live (nn_allocator_free al (Some p) m) = live m - {p})"

lemma calloc_Some:
  "allocator_ok al live \<Longrightarrow> nn_allocator_calloc al n sz m = (Some p, m') \<Longrightarrow>
   p \<notin> live m \<and> live m' = insert p (live m)"
  by (auto simp: allocator_ok_def)

lemma calloc_None:
  "allocator_ok al live \<Longrightarrow> nn_allocator_calloc al n sz m = (None, m') \<Longrightarrow> live m' = live m"
  by (auto simp: allocator_ok_def)

lemma free_live [simp]:
  "allocator_ok al live \<Longrightarrow> live (nn_allocator_free al None m) = live m"
  "allocator_ok al live \<Longrightarrow> p \<in> live m \<Longrightarrow> live (nn_allocator_free al (Some p) m) = live m - {p}"
  by (auto simp: allocator_ok_def)

lemma free_all_live:
  "allocator_ok al live \<Longrightarrow> distinct ps \<Longrightarrow> set ps \<subseteq> live m \<Longrightarrow>
   live (fold (\<lambda>p. nn_allocator_free al (Some p)) ps m) = live m - set ps"
proof (induction ps arbitrary: m)
  case (Cons p ps)
  then have "set ps \<subseteq> live (nn_allocator_free al (Some p) m)" by auto
  with Cons show ?case by auto
qed simp

text \<open>An allocator of the kind assumed, with room for a given number of blocks: the state is the
  number of blocks that may still be taken and the blocks in use.\<close>

type_synonym counting = "nat \<times> address list"

definition counting_allocator :: "counting nn_allocator" where
  "counting_allocator =
     \<lparr>al_calloc = Some (\<lambda>(left, blocks) n sz.
        if left = 0 then (None, (left, blocks))
        else (Some (Suc (sum_list blocks)), (left - 1, Suc (sum_list blocks) # blocks))),
      al_free = Some (\<lambda>(left, blocks) p.
        (case p of None \<Rightarrow> (left, blocks) | Some a \<Rightarrow> (left + 1, removeAll a blocks)))\<rparr>"

lemma counting_simps [simp]:
  "nn_allocator_calloc counting_allocator n sz (left, blocks) =
     (if left = 0 then (None, (left, blocks))
      else (Some (Suc (sum_list blocks)), (left - 1, Suc (sum_list blocks) # blocks)))"
  "nn_allocator_free counting_allocator None (left, blocks) = (left, blocks)"
  "nn_allocator_free counting_allocator (Some a) (left, blocks) = (left + 1, removeAll a blocks)"
  by (simp_all add: counting_allocator_def nn_allocator_calloc_def nn_allocator_free_def)

definition counting_live :: "counting \<Rightarrow> address set" where
  "counting_live m = set (snd m)"

lemma counting_allocator_ok: "allocator_ok counting_allocator counting_live"
proof -
  have "Suc (sum_list bs) \<notin> set bs" for bs :: "nat list"
    using member_le_sum_list [of "Suc (sum_list bs)" bs] by auto
  then show ?thesis
    by (auto simp: allocator_ok_def counting_allocator_def counting_live_def
        nn_allocator_calloc_def nn_allocator_free_def split: prod.splits if_splits)
qed

section \<open>Strings\<close>

type_synonym cstring = "address \<times> bytes"

definition nn_strdup :: "bytes \<Rightarrow> 'm nn_allocator \<Rightarrow> 'm \<Rightarrow> cstring option \<times> 'm" where
  "nn_strdup str al m =
     (case nn_allocator_calloc al 1 (length str + 1) m of
        (None, m) \<Rightarrow> (None, m)
      | (Some dupBuf, m) \<Rightarrow> (Some (dupBuf, str), m))"

text \<open>The pointer of a string that may be null, as it is passed to free.\<close>

definition cstring_ptr :: "cstring option \<Rightarrow> address option" where
  "cstring_ptr s = map_option fst s"

lemma cstring_ptr_simps [simp]: "cstring_ptr None = None" "cstring_ptr (Some s) = Some (fst s)"
  by (simp_all add: cstring_ptr_def)

lemma strdup_Some:
  "allocator_ok al live \<Longrightarrow> nn_strdup str al m = (Some s, m') \<Longrightarrow>
   snd s = str \<and> fst s \<notin> live m \<and> live m' = insert (fst s) (live m)"
  by (auto simp: nn_strdup_def dest: calloc_Some split: prod.splits option.splits)

lemma strdup_None:
  "allocator_ok al live \<Longrightarrow> nn_strdup str al m = (None, m') \<Longrightarrow> live m' = live m"
  by (auto simp: nn_strdup_def dest: calloc_None split: prod.splits option.splits)

text \<open>The C function strlen on the bytes at a pointer, and the bytes of the string there.\<close>

definition c_strlen :: "bytes \<Rightarrow> nat" where
  "c_strlen buf = length (takeWhile (\<lambda>b. b \<noteq> 0) buf)"

definition c_string :: "bytes \<Rightarrow> bytes" where
  "c_string buf = takeWhile (\<lambda>b. b \<noteq> 0) buf"

text \<open>\<open>dst\<close> is the buffer of the destination, \<open>src\<close> the bytes at the source.\<close>

definition nn_strcat :: "bytes \<Rightarrow> nat \<Rightarrow> bytes \<Rightarrow> bool \<times> bytes" where
  "nn_strcat dst dstLen src =
     (let srcLen = c_strlen src;
          orgStrLen = c_strlen dst
      in if srcLen + orgStrLen < dstLen
         then (True, take orgStrLen dst @ take (srcLen + 1) src @ drop (orgStrLen + srcLen + 1) dst)
         else (False, dst))"

lemma c_string_take: "take (c_strlen buf) buf = c_string buf"
  by (simp add: c_strlen_def c_string_def takeWhile_eq_take [symmetric])

lemma c_string_append: "0 \<notin> set s \<Longrightarrow> c_string (s @ bs) = s @ c_string bs"
  unfolding c_string_def by (rule takeWhile_append2) auto

lemma take_terminated:
  assumes "0 \<in> set buf"
  shows "take (c_strlen buf + 1) buf = c_string buf @ [0]"
  using assms by (induction buf) (auto simp: c_strlen_def c_string_def)

text \<open>Concatenation.  On a destination buffer of the given length that holds a terminated string
  and a terminated source, the function appends exactly when the result and its terminator fit:
  then the buffer holds both strings one after the other, otherwise it is unchanged.  Its length
  stays the same: nothing is written outside it.\<close>

theorem strcat_concatenates:
  assumes "length dst = dstLen" "0 \<in> set dst" "0 \<in> set src"
  shows "(case nn_strcat dst dstLen src of (ok, dst') \<Rightarrow>
      (ok \<longleftrightarrow> length (c_string dst) + length (c_string src) + 1 \<le> dstLen) \<and>
      c_string dst' = (if ok then c_string dst @ c_string src else c_string dst) \<and>
      0 \<in> set dst' \<and> length dst' = dstLen)"
proof -
  have z: "0 \<notin> set (c_string dst)" "0 \<notin> set (c_string src)"
    unfolding c_string_def by (auto dest: set_takeWhileD)
  have l: "c_strlen dst = length (c_string dst)" "c_strlen src = length (c_string src)"
    by (simp_all add: c_strlen_def c_string_def)
  have e: "nn_strcat dst dstLen src =
      (if length (c_string src) + length (c_string dst) < dstLen
       then (True, c_string dst @ (c_string src @ [0]) @ drop (length (c_string dst) + length (c_string src) + 1) dst)
       else (False, dst))"
    unfolding nn_strcat_def Let_def c_string_take take_terminated [OF assms(3)] unfolding l ..
  have t: "c_string (0 # bs) = []" for bs by (simp add: c_string_def)
  show ?thesis
    unfolding e using assms z by (auto simp: c_string_append t)
qed

theorem strcat_concatenates_witness:
  "nn_strcat [97, 0, 7, 7] 4 [98, 99, 0, 5] = (True, [97, 98, 99, 0]) \<and>
   c_string (snd (nn_strcat [97, 0, 7, 7] 4 [98, 99, 0, 5])) = [97, 98, 99]"
  using strcat_concatenates [of "[97, 0, 7, 7]" 4 "[98, 99, 0, 5]"]
  by (simp add: nn_strcat_def c_strlen_def c_string_def)

end
