(* ===== verification/Coap_Payload.thy ===== *)
theory Coap_Payload
  imports Coap_Wire Nn_Memory "HOL-Library.Multiset"
begin

text \<open>
  What the CoAP client and the CoAP server share: constants of nabto_coap.h, payloads in blocks of their own, and
  the statement that an object owns its blocks and nothing of it is lost.
\<close>

section \<open>Constants\<close>

type_synonym connection = address

definition NABTO_COAP_BLOCK_NUM_MAX :: nat where
  "NABTO_COAP_BLOCK_NUM_MAX = 0xFFFFF"

definition NABTO_COAP_ACK_TIMEOUT :: u32 where "NABTO_COAP_ACK_TIMEOUT = 2000"
definition NABTO_COAP_MAX_RETRANSMITS :: u8 where "NABTO_COAP_MAX_RETRANSMITS = 4"

definition REQUEST_ENTITY_TOO_LARGE :: coap_code where
  "REQUEST_ENTITY_TOO_LARGE = NABTO_COAP_CODE 4 13"


section \<open>Payloads\<close>

text \<open>A payload is its block and its bytes; the null pointer has no bytes.\<close>

type_synonym owned_bytes = "(address \<times> bytes) option"

fun owned_length :: "owned_bytes \<Rightarrow> nat" where
  "owned_length None = 0"
| "owned_length (Some (p, bs)) = length bs"

fun owned_data :: "owned_bytes \<Rightarrow> bytes" where
  "owned_data None = []"
| "owned_data (Some (p, bs)) = bs"

lemma owned_length_data: "owned_length payload = length (owned_data payload)"
  by (cases payload) auto

section \<open>Blocks in use\<close>

definition owned_blocks :: "owned_bytes \<Rightarrow> address list" where
  "owned_blocks payload = (case payload of None \<Rightarrow> [] | Some (p, bs) \<Rightarrow> [p])"

text \<open>The blocks \<open>bs\<close> are different, apart from \<open>F\<close>, and the two are the blocks in use.\<close>

definition owned :: "('m \<Rightarrow> address set) \<Rightarrow> address set \<Rightarrow> address list \<Rightarrow> 'm \<Rightarrow> bool" where
  "owned live F bs m \<longleftrightarrow> distinct bs \<and> set bs \<inter> F = {} \<and> live m = F \<union> set bs"

lemma owned_mset: "mset bs = mset bs' \<Longrightarrow> owned live F bs m \<longleftrightarrow> owned live F bs' m"
  unfolding owned_def by (metis mset_eq_imp_distinct_iff mset_eq_setD)

lemma owned_append: "owned live F (xs @ ys) m \<longleftrightarrow> owned live (F \<union> set xs) ys m \<and> distinct xs \<and> set xs \<inter> F = {}"
  unfolding owned_def by auto

lemma owned_calloc:
  assumes "allocator_ok al live" "owned live F bs m" "nn_allocator_calloc al n sz m = (p, m')"
  shows "owned live F (case p of None \<Rightarrow> bs | Some q \<Rightarrow> q # bs) m'"
  using assms calloc_Some [of al live n sz m] calloc_None [of al live n sz m]
  unfolding owned_def by (cases p) auto

lemma owned_free:
  "allocator_ok al live \<Longrightarrow> owned live F (p # bs) m \<Longrightarrow> owned live F bs (nn_allocator_free al (Some p) m)"
  unfolding owned_def by auto

end
