(* ===== verification/Nn_Ip.thy ===== *)
theory Nn_Ip
  imports Prelude
begin

text \<open>
  Addresses and byte order: src/components/nn/src/nn/ip_address.c and endian.c.  The union of an
  address is its sixteen bytes, of which an IPv4 address is the first four.  Text is the list of its
  bytes before the terminator.  The byte order of the host is a parameter of the conversions.
\<close>

section \<open>Byte order\<close>

text \<open>The bytes of a number in the memory of a host, and the number that bytes in memory are.\<close>

definition be64 :: "u64 \<Rightarrow> bytes" where
  "be64 v = [byte_at 56 v, byte_at 48 v, byte_at 40 v, byte_at 32 v,
             byte_at 24 v, byte_at 16 v, byte_at 8 v, byte_at 0 v]"

definition host_bytes :: "bool \<Rightarrow> bytes \<Rightarrow> bytes" where
  "host_bytes little bs = (if little then rev bs else bs)"

definition nn_ntohs :: "bool \<Rightarrow> u16 \<Rightarrow> u16" where
  "nn_ntohs little v =
     (let ptr = host_bytes little (be16 v)
      in push_bit 8 (ucast (ptr ! 0)) OR ucast (ptr ! 1))"

definition nn_htons :: "bool \<Rightarrow> u16 \<Rightarrow> u16" where
  "nn_htons little v = nn_ntohs little v"

definition nn_ntohl :: "bool \<Rightarrow> u32 \<Rightarrow> u32" where
  "nn_ntohl little v =
     (let ptr = host_bytes little (be32 v)
      in push_bit 24 (ucast (ptr ! 0)) OR push_bit 16 (ucast (ptr ! 1)) OR
         push_bit 8 (ucast (ptr ! 2)) OR ucast (ptr ! 3))"

definition nn_htonl :: "bool \<Rightarrow> u32 \<Rightarrow> u32" where
  "nn_htonl little v = nn_ntohl little v"

definition nn_htonll :: "bool \<Rightarrow> u64 \<Rightarrow> u64" where
  "nn_htonll little v =
     (let ptr = host_bytes little (be64 v)
      in push_bit 56 (ucast (ptr ! 0)) OR push_bit 48 (ucast (ptr ! 1)) OR
         push_bit 40 (ucast (ptr ! 2)) OR push_bit 32 (ucast (ptr ! 3)) OR
         push_bit 24 (ucast (ptr ! 4)) OR push_bit 16 (ucast (ptr ! 5)) OR
         push_bit 8 (ucast (ptr ! 6)) OR ucast (ptr ! 7))"

definition nn_ntohll :: "bool \<Rightarrow> u64 \<Rightarrow> u64" where
  "nn_ntohll little v = nn_htonll little v"

lemma ntohs_of_be: "nn_ntohs little v = (let ptr = host_bytes little (be16 v) in of_be16 (ptr ! 0) (ptr ! 1))"
  by (simp only: nn_ntohs_def of_be16_def)

lemma ntohl_of_be:
  "nn_ntohl little v = (let ptr = host_bytes little (be32 v) in of_be32 (ptr ! 0) (ptr ! 1) (ptr ! 2) (ptr ! 3))"
  by (simp only: nn_ntohl_def of_be32_def)

lemma be16_of_be16: "be16 (of_be16 a b) = [a, b]"
  by (simp add: be16_def)

lemma be32_of_be32: "be32 (of_be32 a b c d) = [a, b, c, d]"
  by (simp add: be32_def)

lemma host_bytes_nth:
  "length bs = 2 \<Longrightarrow> [host_bytes little bs ! 0, host_bytes little bs ! 1] = host_bytes little bs"
  "length cs = 4 \<Longrightarrow> [host_bytes little cs ! 0, host_bytes little cs ! 1, host_bytes little cs ! 2,
     host_bytes little cs ! 3] = host_bytes little cs"
  by (auto simp: host_bytes_def length_Suc_conv numeral_eq_Suc)

lemma ntohs_be: "be16 (nn_ntohs little v) = host_bytes little (be16 v)"
  using host_bytes_nth(1) [of "be16 v" little] be16_of_be16 by (simp only: ntohs_of_be Let_def length_be16)

lemma ntohl_be: "be32 (nn_ntohl little v) = host_bytes little (be32 v)"
  using host_bytes_nth(2) [of "be32 v" little] be32_of_be32 by (simp only: ntohl_of_be Let_def length_be32)

lemma be64_word: "be64 (push_bit 56 (ucast a) OR push_bit 48 (ucast b) OR push_bit 40 (ucast c) OR push_bit 32 (ucast d) OR
    push_bit 24 (ucast e) OR push_bit 16 (ucast f) OR push_bit 8 (ucast g) OR ucast h) = [a, b, c, d, e, f, g, h]"
  unfolding be64_def byte_at_def list.inject
  by (intro conjI refl; rule bit_word_eqI; auto simp: bit_simps)

lemma htonll_be: "be64 (nn_htonll little v) = host_bytes little (be64 v)"
  unfolding nn_htonll_def Let_def be64_word by (simp add: host_bytes_def be64_def)

lemma be16_inject: "be16 v = be16 w \<Longrightarrow> v = w"
  unfolding be16_def list.inject using of_be16_byte_at [of v] of_be16_byte_at [of w] by metis

lemma be32_inject: "be32 v = be32 w \<Longrightarrow> v = w"
  unfolding be32_def list.inject using of_be32_byte_at [of v] of_be32_byte_at [of w] by metis

lemma be64_inject:
  assumes "be64 v = be64 w"
  shows "v = w"
proof (rule bit_word_eqI)
  fix n
  assume "n < LENGTH(64)"
  have b: "bit v (m + k) \<longleftrightarrow> bit w (m + k)" if "byte_at m v = byte_at m w" "k < 8" for m k
  proof -
    have "bit (byte_at m v) k \<longleftrightarrow> bit (byte_at m w) k" using that(1) by simp
    then show ?thesis using that(2) by (simp add: byte_at_def bit_simps)
  qed
  have "n div 8 \<in> {0, 1, 2, 3, 4, 5, 6, 7}" using \<open>n < LENGTH(64)\<close> by auto
  then have "byte_at (8 * (n div 8)) v = byte_at (8 * (n div 8)) w"
    using assms by (auto simp: be64_def)
  from b [OF this, of "n mod 8"] show "bit v n \<longleftrightarrow> bit w n" by simp
qed

lemma host_bytes_host_bytes: "host_bytes little (host_bytes little bs) = bs"
  by (simp add: host_bytes_def)

text \<open>Whatever the byte order of the host, converting to network order puts the bytes of a number
  in memory with the most significant byte first, and converting back gives the number again, for
  two, four and eight bytes.\<close>

theorem network_order_roundtrip:
  "host_bytes little (be16 (nn_htons little v16)) = be16 v16 \<and> nn_ntohs little (nn_htons little v16) = v16 \<and>
   host_bytes little (be32 (nn_htonl little v32)) = be32 v32 \<and> nn_ntohl little (nn_htonl little v32) = v32 \<and>
   host_bytes little (be64 (nn_htonll little v64)) = be64 v64 \<and> nn_ntohll little (nn_htonll little v64) = v64"
  by (auto intro!: be16_inject be32_inject be64_inject
      simp: nn_htons_def nn_htonl_def nn_ntohll_def ntohs_be ntohl_be htonll_be host_bytes_host_bytes)

section \<open>Addresses\<close>

datatype nn_ip_address_type = NN_IPV4 | NN_IPV6

record nn_ip_address =
  ip_type :: nn_ip_address_type
  ip_bytes :: bytes

definition nn_ip_is_v4 :: "nn_ip_address \<Rightarrow> bool" where
  "nn_ip_is_v4 ip \<longleftrightarrow> ip_type ip = NN_IPV4"

definition nn_ip_is_v6 :: "nn_ip_address \<Rightarrow> bool" where
  "nn_ip_is_v6 ip \<longleftrightarrow> ip_type ip = NN_IPV6"

text \<open>Writing the first four bytes of the union.\<close>

definition set_v4 :: "bytes \<Rightarrow> nn_ip_address \<Rightarrow> nn_ip_address" where
  "set_v4 octets ip = ip\<lparr>ip_type := NN_IPV4, ip_bytes := octets @ drop 4 (ip_bytes ip)\<rparr>"

definition nn_ip_address_assign_v4 :: "u32 \<Rightarrow> nn_ip_address \<Rightarrow> nn_ip_address" where
  "nn_ip_address_assign_v4 address ip =
     set_v4 [ucast (drop_bit 24 address), ucast (drop_bit 16 address), ucast (drop_bit 8 address), ucast address] ip"

definition ipv4MappedIpv6Prefix :: bytes where
  "ipv4MappedIpv6Prefix = [0, 0, 0, 0, 0, 0, 0, 0, 0, 0, 0xFF, 0xFF]"

definition nn_ip_is_v4_mapped :: "nn_ip_address \<Rightarrow> bool" where
  "nn_ip_is_v4_mapped ip \<longleftrightarrow> nn_ip_is_v6 ip \<and> take 12 (ip_bytes ip) = ipv4MappedIpv6Prefix"

definition nn_ip_convert_v4_to_v4_mapped :: "nn_ip_address \<Rightarrow> nn_ip_address \<Rightarrow> nn_ip_address" where
  "nn_ip_convert_v4_to_v4_mapped v4 v6 =
     (let octets = take 4 (ip_bytes v4)
      in v6\<lparr>ip_type := NN_IPV6, ip_bytes := ipv4MappedIpv6Prefix @ octets\<rparr>)"

definition nn_ip_convert_v4_mapped_to_v4 :: "nn_ip_address \<Rightarrow> nn_ip_address \<Rightarrow> nn_ip_address" where
  "nn_ip_convert_v4_mapped_to_v4 v6 v4 = set_v4 (take 4 (drop 12 (ip_bytes v6))) v4"

section \<open>Reading an address\<close>

text \<open>The byte at a pointer into a string, which is zero at its end.\<close>

definition c_char :: "bytes \<Rightarrow> u8" where
  "c_char ptr = (case ptr of [] \<Rightarrow> 0 | c # cs \<Rightarrow> c)"

definition is_digit :: "u8 \<Rightarrow> bool" where
  "is_digit c \<longleftrightarrow> 48 \<le> c \<and> c \<le> 57"

fun read_digits :: "bytes \<Rightarrow> u32 \<Rightarrow> nat \<Rightarrow> u32 \<times> nat \<times> bytes" where
  "read_digits [] n digits = (n, digits, [])"
| "read_digits (c # ptr) n digits =
     (if is_digit c \<and> digits < 3 then read_digits ptr (n * 10 + ucast (c - 48)) (digits + 1)
      else (n, digits, c # ptr))"

definition read_octet :: "bytes \<Rightarrow> (u8 \<times> bytes) option" where
  "read_octet ptr =
     (case read_digits ptr 0 0 of (n, digits, ptr) \<Rightarrow>
        if digits = 0 \<or> 255 < n then None else Some (ucast n, ptr))"

text \<open>The loop from the octet numbered \<open>i\<close>; \<open>k\<close> octets are left.\<close>

fun read_octets :: "nat \<Rightarrow> nat \<Rightarrow> bytes \<Rightarrow> (bytes \<times> bytes) option" where
  "read_octets 0 i ptr = Some ([], ptr)"
| "read_octets (Suc k) i ptr =
     (if 0 < i \<and> c_char ptr \<noteq> 46 then None
      else (case read_octet (if 0 < i then tl ptr else ptr) of
              None \<Rightarrow> None
            | Some (octet, ptr) \<Rightarrow> map_option (\<lambda>(octets, ptr). (octet # octets, ptr)) (read_octets k (Suc i) ptr)))"

definition nn_ip_address_read_v4 :: "bytes \<Rightarrow> nn_ip_address \<Rightarrow> bool \<times> nn_ip_address" where
  "nn_ip_address_read_v4 str ip =
     (case read_octets 4 0 str of
        None \<Rightarrow> (False, ip)
      | Some (octets, ptr) \<Rightarrow> if c_char ptr \<noteq> 0 then (False, ip) else (True, set_v4 octets ip))"

section \<open>Printing an address\<close>

text \<open>The conversions \<open>%u\<close> and \<open>%02x\<close> of printf.\<close>

fun decimal :: "nat \<Rightarrow> bytes" where
  "decimal n = (if n < 10 then [of_nat (48 + n)] else decimal (n div 10) @ [of_nat (48 + n mod 10)])"

declare decimal.simps [simp del]

definition hex_digit :: "u8 \<Rightarrow> u8" where
  "hex_digit d = (if d < 10 then 48 + d else 87 + d)"

definition hex2 :: "u8 \<Rightarrow> bytes" where
  "hex2 b = [hex_digit (drop_bit 4 b), hex_digit (b AND 15)]"

definition snprintf :: "nat \<Rightarrow> bytes \<Rightarrow> bytes" where
  "snprintf sz text = take (sz - 1) text"

definition nn_ip_address_to_string :: "nn_ip_address \<Rightarrow> bytes" where
  "nn_ip_address_to_string address =
     (let ip = ip_bytes address; d = (\<lambda>i. decimal (unat (ip ! i))); h = (\<lambda>i. hex2 (ip ! i))
      in case ip_type address of
           NN_IPV4 \<Rightarrow> snprintf 40 (d 0 @ [46] @ d 1 @ [46] @ d 2 @ [46] @ d 3)
         | NN_IPV6 \<Rightarrow> snprintf 40 (h 0 @ h 1 @ [58] @ h 2 @ h 3 @ [58] @ h 4 @ h 5 @ [58] @ h 6 @ h 7 @ [58] @
             h 8 @ h 9 @ [58] @ h 10 @ h 11 @ [58] @ h 12 @ h 13 @ [58] @ h 14 @ h 15))"

section \<open>Reading what was printed\<close>

definition ip_ok :: "nn_ip_address \<Rightarrow> bool" where
  "ip_ok ip \<longleftrightarrow> length (ip_bytes ip) = 16"

lemma decimal_length: "n < 256 \<Longrightarrow> length (decimal n) \<le> 3"
  by (subst decimal.simps, simp, subst decimal.simps, simp, subst decimal.simps, simp)

lemma digit_char:
  assumes "d < 10"
  shows "is_digit (of_nat (48 + d))" "ucast (of_nat (48 + d) - 48 :: u8) = (of_nat d :: u32)"
proof -
  have u: "unat (of_nat (48 + d) :: u8) = 48 + d"
    using assms by (simp only: unat_of_nat) simp
  then show "is_digit (of_nat (48 + d))" using assms by (simp add: is_digit_def word_le_nat_alt)
  have "of_nat (48 + d) - 48 = (of_nat d :: u8)" by simp
  then show "ucast (of_nat (48 + d) - 48 :: u8) = (of_nat d :: u32)"
    using assms by (simp only: u32_eq_iff unat_ucast_u8_u32 unat_of_nat) simp
qed

lemma read_digits_stop:
  "(rest = [] \<or> \<not> is_digit (hd rest)) \<Longrightarrow> read_digits rest n k = (n, k, rest)"
  by (cases rest) auto

lemma read_digits_digit:
  "d < 10 \<Longrightarrow> k < 3 \<Longrightarrow>
   read_digits (of_nat (48 + d) # ptr) n k = read_digits ptr (n * 10 + of_nat d) (Suc k)"
  using digit_char [of d] by (simp del: of_nat_add)

lemma decimal_small: "n < 10 \<Longrightarrow> decimal n = [of_nat (48 + n)]"
  by (subst decimal.simps) (simp del: of_nat_add)

lemma decimal_step: "10 \<le> n \<Longrightarrow> decimal n = decimal (n div 10) @ [of_nat (48 + n mod 10)]"
  by (subst decimal.simps) (simp del: of_nat_add)

lemma of_nat_digit: "of_nat (n div 10) * 10 + of_nat (n mod 10) = (of_nat n :: u32)"
proof -
  have "of_nat (n div 10) * 10 + of_nat (n mod 10) = (of_nat (n div 10 * 10 + n mod 10) :: u32)"
    by (simp only: of_nat_add of_nat_mult of_nat_numeral)
  then show ?thesis by simp
qed

lemma read_digits_decimal:
  assumes "n < 256"
  shows "\<exists>k > 0. read_digits (decimal n @ rest) 0 0 = read_digits rest (of_nat n) k \<and> k = length (decimal n)"
proof -
  consider "n < 10" | "10 \<le> n" "n < 100" | "100 \<le> n" by linarith
  then show ?thesis
  proof cases
    case 1
    then show ?thesis using read_digits_digit [of n 0] by (simp add: decimal_small del: of_nat_add)
  next
    case 2
    have d: "decimal n = [of_nat (48 + n div 10), of_nat (48 + n mod 10)]"
      using 2 by (simp add: decimal_step [of n] decimal_small del: of_nat_add)
    show ?thesis
      unfolding d using 2 by (simp add: read_digits_digit of_nat_digit del: of_nat_add read_digits.simps(2))
  next
    case 3
    have d: "decimal n = [of_nat (48 + n div 10 div 10), of_nat (48 + n div 10 mod 10), of_nat (48 + n mod 10)]"
      using 3 assms by (simp add: decimal_step [of n] decimal_step [of "n div 10"] decimal_small del: of_nat_add)
    show ?thesis
      unfolding d using 3 assms by (simp add: read_digits_digit of_nat_digit del: of_nat_add read_digits.simps(2))
  qed
qed

lemma read_octet_decimal:
  assumes "rest = [] \<or> \<not> is_digit (hd rest)"
  shows "read_octet (decimal (unat b) @ rest) = Some (b, rest)"
proof -
  obtain k where k: "0 < k" "read_digits (decimal (unat b) @ rest) 0 0 = read_digits rest (of_nat (unat b)) k"
    using read_digits_decimal [of "unat b" rest] by auto
  have u: "unat (of_nat (unat b) :: u32) = unat b"
    using unat_u8_less [of b] by (simp only: unat_of_nat) (simp del: unat_u8_less)
  then have "\<not> 255 < (of_nat (unat b) :: u32)"
    using unat_u8_less [of b] by (simp only: word_less_nat_alt) (simp del: unat_u8_less)
  moreover have "ucast (of_nat (unat b) :: u32) = b"
    using u unat_u8_less [of b] by (simp only: u8_eq_iff unat_ucast_u32_u8) (simp del: unat_u8_less)
  ultimately show ?thesis
    using k read_digits_stop [OF assms] by (simp add: read_octet_def)
qed

lemma not_digit_dot [simp]: "\<not> is_digit 46"
  by (simp add: is_digit_def)

lemma read_octets_printed:
  "read_octets 4 0 (decimal (unat a) @ 46 # decimal (unat b) @ 46 # decimal (unat c) @ 46 # decimal (unat d)) =
   Some ([a, b, c, d], [])"
  using read_octet_decimal [of "[]" d]
  by (simp add: numeral_eq_Suc read_octet_decimal c_char_def)

lemma ip_bytes_v4:
  assumes "ip_ok ip"
  shows "\<exists>a b c d. take 4 (ip_bytes ip) = [a, b, c, d] \<and> ip_bytes ip ! 0 = a \<and> ip_bytes ip ! 1 = b \<and>
    ip_bytes ip ! 2 = c \<and> ip_bytes ip ! 3 = d"
  using assms unfolding ip_ok_def by (auto simp: length_Suc_conv numeral_eq_Suc)

text \<open>The text of an IPv4 address is read back to the same address, and the text of every address
  with its terminator fits the buffer of forty bytes, so that nothing is cut off.\<close>

theorem ip_text_roundtrip:
  assumes "ip_ok ip"
  shows "length (nn_ip_address_to_string ip) + 1 \<le> 40 \<and>
    (nn_ip_is_v4 ip \<longrightarrow> nn_ip_address_read_v4 (nn_ip_address_to_string ip) ip = (True, ip))"
proof (cases "ip_type ip")
  case NN_IPV4
  obtain a b c d where o: "take 4 (ip_bytes ip) = [a, b, c, d]" "ip_bytes ip ! 0 = a" "ip_bytes ip ! 1 = b"
      "ip_bytes ip ! 2 = c" "ip_bytes ip ! 3 = d"
    using ip_bytes_v4 [OF assms] by blast
  let ?t = "decimal (unat a) @ 46 # decimal (unat b) @ 46 # decimal (unat c) @ 46 # decimal (unat d)"
  have l: "length ?t \<le> 15"
    using decimal_length [of "unat a"] decimal_length [of "unat b"] decimal_length [of "unat c"]
      decimal_length [of "unat d"] by simp
  then have t: "nn_ip_address_to_string ip = ?t"
    using NN_IPV4 o by (simp add: nn_ip_address_to_string_def snprintf_def)
  have "[a, b, c, d] @ drop 4 (ip_bytes ip) = ip_bytes ip" unfolding o(1) [symmetric] by simp
  then show ?thesis
    unfolding t using l NN_IPV4
    by (simp add: nn_ip_address_read_v4_def read_octets_printed c_char_def set_v4_def)
next
  case NN_IPV6
  then show ?thesis by (simp add: nn_ip_address_to_string_def snprintf_def hex2_def nn_ip_is_v4_def Let_def)
qed

definition sample_ip :: nn_ip_address where
  "sample_ip = \<lparr>ip_type = NN_IPV4, ip_bytes = [192, 168, 0, 1] @ replicate 12 0\<rparr>"

theorem ip_text_roundtrip_witness:
  "nn_ip_address_read_v4 (nn_ip_address_to_string sample_ip) sample_ip = (True, sample_ip) \<and>
   length (nn_ip_address_to_string sample_ip) = 11"
  using ip_text_roundtrip [of sample_ip]
  by (simp add: ip_ok_def sample_ip_def nn_ip_is_v4_def nn_ip_address_to_string_def snprintf_def
      decimal_small decimal_step)

text \<open>An IPv4 address mapped into IPv6 is recognised as a mapped address and converted back gives the
  same four octets, also when the source and the destination are the same object.\<close>

theorem v4_mapped_roundtrip:
  assumes "ip_ok v4" "ip_ok v6"
  shows "nn_ip_is_v4_mapped (nn_ip_convert_v4_to_v4_mapped v4 v6) \<and> ip_ok (nn_ip_convert_v4_to_v4_mapped v4 v6) \<and>
    nn_ip_is_v4 (nn_ip_convert_v4_mapped_to_v4 (nn_ip_convert_v4_to_v4_mapped v4 v6) ip) \<and>
    take 4 (ip_bytes (nn_ip_convert_v4_mapped_to_v4 (nn_ip_convert_v4_to_v4_mapped v4 v6) ip)) = take 4 (ip_bytes v4)"
  using assms
  by (simp add: nn_ip_convert_v4_to_v4_mapped_def nn_ip_convert_v4_mapped_to_v4_def nn_ip_is_v4_mapped_def
      nn_ip_is_v6_def nn_ip_is_v4_def ip_ok_def ipv4MappedIpv6Prefix_def set_v4_def)

theorem v4_mapped_roundtrip_witness:
  "nn_ip_is_v4_mapped (nn_ip_convert_v4_to_v4_mapped sample_ip sample_ip)"
  using v4_mapped_roundtrip [of sample_ip sample_ip sample_ip] by (simp add: ip_ok_def sample_ip_def)

end
