(* ===== verification/Coap_Client.thy ===== *)
theory Coap_Client
  imports Coap_Payload Nn_Ip
begin

text \<open>
  The CoAP client of src/components/coap/src/nabto_coap_client_impl.c.  A request is the object of the
  user, who holds its address; the requests of a client are a store from addresses to requests, and the
  linked list through them, apart from its sentinel, is the list of their addresses.  The allocator and
  the notification are functions of the integrator; they work on \<open>cc_memory\<close>.  A connection and the
  handler of a request are opaque pointers.
\<close>

section \<open>Data\<close>

datatype client_next_event = CLIENT_CALLBACK | CLIENT_SEND | CLIENT_WAIT | CLIENT_NOTHING

datatype client_status = CLIENT_OK | CLIENT_DECODE_ERROR | CLIENT_TIMEOUT | CLIENT_IN_PROGRESS
  | CLIENT_STOPPED | CLIENT_OBSERVE_NOTIFICATION | CLIENT_RESET

datatype client_request_state = REQUEST_IDLE | REQUEST_SEND | REQUEST_WAIT_ACK | REQUEST_WAIT_RESPONSE
  | REQUEST_DONE_CALLBACK | REQUEST_DONE

text \<open>The code compares states by the order of the enumeration.\<close>

fun request_state_num :: "client_request_state \<Rightarrow> nat" where
  "request_state_num REQUEST_IDLE = 0"
| "request_state_num REQUEST_SEND = 1"
| "request_state_num REQUEST_WAIT_ACK = 2"
| "request_state_num REQUEST_WAIT_RESPONSE = 3"
| "request_state_num REQUEST_DONE_CALLBACK = 4"
| "request_state_num REQUEST_DONE = 5"

datatype client_block1_result = BLOCK1_ADVANCED | BLOCK1_STALE | BLOCK1_BAD

record client_settings =
  cs_ackTimeoutMilliseconds :: u32
  cs_maxRetransmits :: u8
  cs_maxResponsePayload :: nat

record client_response =
  rp_address :: address
  rp_code :: coap_code
  rp_hasContentFormat :: bool
  rp_contentFormat :: u16
  rp_payload :: owned_bytes
  rp_messageId :: u16
  rp_hasObserve :: bool
  rp_observe :: u32

abbreviation rp_payloadLength :: "client_response \<Rightarrow> nat" where
  "rp_payloadLength response \<equiv> owned_length (rp_payload response)"

record client_request =
  rq_state :: client_request_state
  rq_timeoutStamp :: u32
  rq_messageId :: u16
  rq_retransmissions :: u8
  rq_type :: coap_type
  rq_method :: coap_code
  rq_token :: coap_token
  rq_pathSegments :: "bytes list"
  rq_configuredTimeoutMilliseconds :: u32
  rq_hasContentFormat :: bool
  rq_contentFormat :: u16
  rq_payload :: owned_bytes
  rq_block1Size :: u32
  rq_block1Offset :: nat
  rq_block1Restarted :: bool
  rq_hasBlock2 :: bool
  rq_block2 :: u32
  rq_isObserve :: bool
  rq_observeDeregister :: bool
  rq_endHandler :: address
  rq_endHandlerUserData :: address
  rq_status :: client_status
  rq_response :: "client_response option"
  rq_connection :: connection

abbreviation rq_payloadLength :: "client_request \<Rightarrow> nat" where
  "rq_payloadLength request \<equiv> owned_length (rq_payload request)"

record 'm coap_client =
  cc_settings :: client_settings
  cc_allocator :: "'m nn_allocator"
  cc_sentinel :: "address option"
  cc_requests :: "address list"
  cc_request :: "address \<Rightarrow> client_request"
  cc_messageIdCounter :: u16
  cc_tokenCounter :: u64
  cc_notifyEvent :: "'m \<Rightarrow> 'm"
  cc_needSendRst :: bool
  cc_messageIdRst :: u16
  cc_connectionRst :: connection
  cc_needSendAck :: bool
  cc_messageIdAck :: u16
  cc_connectionAck :: connection
  cc_memory :: 'm

definition set_request :: "address \<Rightarrow> (client_request \<Rightarrow> client_request) \<Rightarrow> 'm coap_client \<Rightarrow> 'm coap_client" where
  "set_request a f c = c\<lparr>cc_request := (cc_request c)(a := f (cc_request c a))\<rparr>"

definition set_response :: "address \<Rightarrow> (client_response \<Rightarrow> client_response) \<Rightarrow> 'm coap_client \<Rightarrow> 'm coap_client" where
  "set_response a f = set_request a (\<lambda>r. r\<lparr>rq_response := map_option f (rq_response r)\<rparr>)"

text \<open>The functions of the table of the client, which are not null.\<close>

definition client_calloc :: "nat \<Rightarrow> 'm coap_client \<Rightarrow> address option \<times> 'm coap_client" where
  "client_calloc sz c =
     (case nn_allocator_calloc (cc_allocator c) 1 sz (cc_memory c) of (p, m) \<Rightarrow> (p, c\<lparr>cc_memory := m\<rparr>))"

definition client_free :: "address \<Rightarrow> 'm coap_client \<Rightarrow> 'm coap_client" where
  "client_free p c = c\<lparr>cc_memory := nn_allocator_free (cc_allocator c) (Some p) (cc_memory c)\<rparr>"

definition client_notify :: "'m coap_client \<Rightarrow> 'm coap_client" where
  "client_notify c = c\<lparr>cc_memory := cc_notifyEvent c (cc_memory c)\<rparr>"

definition free_owned :: "owned_bytes \<Rightarrow> 'm coap_client \<Rightarrow> 'm coap_client" where
  "free_owned payload c = (case payload of None \<Rightarrow> c | Some (p, bs) \<Rightarrow> client_free p c)"

definition NABTO_COAP_CLIENT_MAX_TIMEOUT :: u32 where
  "NABTO_COAP_CLIENT_MAX_TIMEOUT = push_bit 30 1"

definition zero_client_request :: client_request where
  "zero_client_request = \<lparr>rq_state = REQUEST_IDLE, rq_timeoutStamp = 0, rq_messageId = 0,
     rq_retransmissions = 0, rq_type = CON, rq_method = 0, rq_token = [], rq_pathSegments = [],
     rq_configuredTimeoutMilliseconds = 0, rq_hasContentFormat = False, rq_contentFormat = 0,
     rq_payload = None, rq_block1Size = 0, rq_block1Offset = 0, rq_block1Restarted = False,
     rq_hasBlock2 = False, rq_block2 = 0, rq_isObserve = False, rq_observeDeregister = False,
     rq_endHandler = 0, rq_endHandlerUserData = 0, rq_status = CLIENT_OK, rq_response = None,
     rq_connection = 0\<rparr>"

text \<open>Sizes of the structs on a 64 bit host; the allocator is the only one who looks at them.\<close>

definition sizeof_client_request :: nat where "sizeof_client_request = 216"
definition sizeof_client_response :: nat where "sizeof_client_response = 48"

section \<open>Message ids and blocks of the request body\<close>

definition nabto_coap_client_next_message_id :: "'m coap_client \<Rightarrow> u16 \<times> 'm coap_client" where
  "nabto_coap_client_next_message_id c =
     (let c = c\<lparr>cc_messageIdCounter := cc_messageIdCounter c + 1\<rparr> in (cc_messageIdCounter c, c))"

text \<open>\<open>little\<close> is the byte order of the host, in which the counter is copied.\<close>

definition nabto_coap_client_next_token :: "bool \<Rightarrow> 'm coap_client \<Rightarrow> coap_token \<times> 'm coap_client" where
  "nabto_coap_client_next_token little c =
     (let c = c\<lparr>cc_tokenCounter := cc_tokenCounter c + 1\<rparr> in (host_bytes little (be64 (cc_tokenCounter c)), c))"

definition nabto_coap_client_block1_adopt_size :: "client_request \<Rightarrow> u32 \<Rightarrow> bool \<times> client_request" where
  "nabto_coap_client_block1_adopt_size r szx =
     (if rq_block1Size r \<le> szx then (False, r)
      else if NABTO_COAP_BLOCK_NUM_MAX < drop_bit (unat szx + 4) (rq_payloadLength r) then (False, r)
      else (True, r\<lparr>rq_block1Size := szx\<rparr>))"

definition nabto_coap_client_block1_advance :: "client_request \<Rightarrow> u32 \<Rightarrow> client_block1_result \<times> client_request" where
  "nabto_coap_client_block1_advance r block1 =
     (let blockSize = nabto_coap_block_size_from_szx (rq_block1Size r);
          current = of_nat (rq_block1Offset r div blockSize);
          num = NABTO_COAP_BLOCK_NUM block1
      in if num < current then (BLOCK1_STALE, r)
         else if current < num then (BLOCK1_BAD, r)
         else
          (let rest = rq_payloadLength r - rq_block1Offset r;
               r = r\<lparr>rq_block1Offset := rq_block1Offset r + (if blockSize < rest then blockSize else rest)\<rparr>
           in (BLOCK1_ADVANCED, snd (nabto_coap_client_block1_adopt_size r (NABTO_COAP_BLOCK_SIZE block1)))))"

definition nabto_coap_client_request_send_again :: "address \<Rightarrow> 'm coap_client \<Rightarrow> 'm coap_client" where
  "nabto_coap_client_request_send_again a c =
     (let c = set_request a (\<lambda>r. r\<lparr>rq_state := REQUEST_SEND\<rparr>) c;
          (messageId, c) = nabto_coap_client_next_message_id c
      in set_request a (\<lambda>r. r\<lparr>rq_messageId := messageId, rq_retransmissions := 0\<rparr>) c)"

section \<open>The client and its list of requests\<close>

definition nabto_coap_client_init ::
  "'m nn_allocator \<Rightarrow> ('m \<Rightarrow> 'm) \<Rightarrow> 'm \<Rightarrow> nat \<Rightarrow> coap_error \<times> 'm coap_client" where
  "nabto_coap_client_init allocator notifyEvent m size_max =
     (let (sentinel, m) = nn_allocator_calloc allocator 1 sizeof_client_request m;
          c = \<lparr>cc_settings = \<lparr>cs_ackTimeoutMilliseconds = NABTO_COAP_ACK_TIMEOUT,
                 cs_maxRetransmits = NABTO_COAP_MAX_RETRANSMITS, cs_maxResponsePayload = size_max\<rparr>,
               cc_allocator = allocator, cc_sentinel = sentinel, cc_requests = [],
               cc_request = (\<lambda>a. zero_client_request),
               cc_messageIdCounter = 0, cc_tokenCounter = 0, cc_notifyEvent = notifyEvent,
               cc_needSendRst = False, cc_messageIdRst = 0, cc_connectionRst = 0,
               cc_needSendAck = False, cc_messageIdAck = 0, cc_connectionAck = 0, cc_memory = m\<rparr>
      in (if sentinel = None then COAP_OUT_OF_MEMORY else COAP_OK, c))"

definition nabto_coap_client_destroy :: "'m coap_client \<Rightarrow> 'm coap_client" where
  "nabto_coap_client_destroy c =
     c\<lparr>cc_memory := nn_allocator_free (cc_allocator c) (cc_sentinel c) (cc_memory c), cc_sentinel := None\<rparr>"

definition nabto_coap_client_limit_response_size :: "nat \<Rightarrow> 'm coap_client \<Rightarrow> 'm coap_client" where
  "nabto_coap_client_limit_response_size limit c =
     c\<lparr>cc_settings := cc_settings c\<lparr>cs_maxResponsePayload := limit\<rparr>\<rparr>"

text \<open>The insertion after the sentinel, the only one in the code.\<close>

definition nabto_coap_client_insert_request_into_list :: "address \<Rightarrow> 'm coap_client \<Rightarrow> 'm coap_client" where
  "nabto_coap_client_insert_request_into_list a c = c\<lparr>cc_requests := a # cc_requests c\<rparr>"

definition nabto_coap_client_remove_request_from_list :: "address \<Rightarrow> 'm coap_client \<Rightarrow> 'm coap_client" where
  "nabto_coap_client_remove_request_from_list a c = c\<lparr>cc_requests := remove1 a (cc_requests c)\<rparr>"

section \<open>Requests\<close>

text \<open>The result is the new request, unless the allocation failed.\<close>

definition nabto_coap_client_request_new ::
  "bool \<Rightarrow> coap_code \<Rightarrow> bytes list \<Rightarrow> address \<Rightarrow> address \<Rightarrow> connection \<Rightarrow> 'm coap_client \<Rightarrow>
   address option \<times> 'm coap_client" where
  "nabto_coap_client_request_new little method pathSegments endHandler endHandlerUserData connection c =
     (case client_calloc sizeof_client_request c of
        (None, c) \<Rightarrow> (None, c)
      | (Some a, c) \<Rightarrow>
         (let (token, c) = nabto_coap_client_next_token little c;
              (messageId, c) = nabto_coap_client_next_message_id c;
              c = nabto_coap_client_insert_request_into_list a c
          in (Some a, set_request a (\<lambda>r. zero_client_request
               \<lparr>rq_state := REQUEST_IDLE, rq_type := CON, rq_method := method, rq_pathSegments := pathSegments,
                rq_configuredTimeoutMilliseconds := 2 * 60 * 1000, rq_token := token, rq_messageId := messageId,
                rq_endHandler := endHandler, rq_endHandlerUserData := endHandlerUserData,
                rq_block1Size := 5, rq_block1Offset := 0, rq_block1Restarted := False,
                rq_connection := connection\<rparr>) c)))"

definition nabto_coap_client_request_send :: "address \<Rightarrow> 'm coap_client \<Rightarrow> 'm coap_client" where
  "nabto_coap_client_request_send a c = client_notify (set_request a (\<lambda>r. r\<lparr>rq_state := REQUEST_SEND\<rparr>) c)"

definition nabto_coap_client_request_cancel :: "address \<Rightarrow> 'm coap_client \<Rightarrow> 'm coap_client" where
  "nabto_coap_client_request_cancel a c =
     (if rq_state (cc_request c a) = REQUEST_SEND then
        client_notify (set_request a (\<lambda>r. r\<lparr>rq_state := REQUEST_DONE_CALLBACK, rq_status := CLIENT_STOPPED\<rparr>) c)
      else if rq_state (cc_request c a) \<in> {REQUEST_WAIT_ACK, REQUEST_WAIT_RESPONSE} then
        client_notify (set_request a (\<lambda>r. r\<lparr>rq_state := REQUEST_DONE_CALLBACK, rq_status := CLIENT_STOPPED\<rparr>) c)
      else c)"

definition nabto_coap_client_response_free :: "client_response \<Rightarrow> 'm coap_client \<Rightarrow> 'm coap_client" where
  "nabto_coap_client_response_free response c =
     (let c = free_owned (rp_payload response) c in client_free (rp_address response) c)"

definition nabto_coap_client_request_drop_response :: "address \<Rightarrow> 'm coap_client \<Rightarrow> 'm coap_client" where
  "nabto_coap_client_request_drop_response a c =
     (case rq_response (cc_request c a) of
        None \<Rightarrow> c
      | Some response \<Rightarrow>
          set_request a (\<lambda>r. r\<lparr>rq_response := None\<rparr>) (nabto_coap_client_response_free response c))"

definition nabto_coap_client_request_free :: "address \<Rightarrow> 'm coap_client \<Rightarrow> 'm coap_client" where
  "nabto_coap_client_request_free a c =
     (let c = (case rq_response (cc_request c a) of None \<Rightarrow> c
               | Some response \<Rightarrow> nabto_coap_client_response_free response c);
          c = nabto_coap_client_remove_request_from_list a c;
          c = (if rq_payloadLength (cc_request c a) \<noteq> 0 then free_owned (rq_payload (cc_request c a)) c else c)
      in client_free a c)"

definition nabto_coap_client_request_set_content_format :: "address \<Rightarrow> u16 \<Rightarrow> 'm coap_client \<Rightarrow> 'm coap_client" where
  "nabto_coap_client_request_set_content_format a format =
     set_request a (\<lambda>r. r\<lparr>rq_hasContentFormat := True, rq_contentFormat := format\<rparr>)"

definition nabto_coap_client_request_set_payload ::
  "address \<Rightarrow> bytes \<Rightarrow> 'm coap_client \<Rightarrow> coap_error \<times> 'm coap_client" where
  "nabto_coap_client_request_set_payload a payload c =
     (if 0 < rq_payloadLength (cc_request c a) then (COAP_INVALID_PARAMETER, c)
      else if length payload = 0 then (COAP_OK, c)
      else (case client_calloc (length payload) c of
              (None, c) \<Rightarrow> (COAP_OUT_OF_MEMORY, set_request a (\<lambda>r. r\<lparr>rq_payload := None\<rparr>) c)
            | (Some p, c) \<Rightarrow> (COAP_OK, set_request a (\<lambda>r. r\<lparr>rq_payload := Some (p, payload)\<rparr>) c)))"

definition nabto_coap_client_request_set_timeout :: "address \<Rightarrow> u32 \<Rightarrow> 'm coap_client \<Rightarrow> 'm coap_client" where
  "nabto_coap_client_request_set_timeout a timeout =
     (let timeout = (if NABTO_COAP_CLIENT_MAX_TIMEOUT < timeout then NABTO_COAP_CLIENT_MAX_TIMEOUT else timeout)
      in set_request a (\<lambda>r. r\<lparr>rq_configuredTimeoutMilliseconds := timeout\<rparr>))"

definition nabto_coap_client_request_set_nonconfirmable :: "address \<Rightarrow> 'm coap_client \<Rightarrow> 'm coap_client" where
  "nabto_coap_client_request_set_nonconfirmable a = set_request a (\<lambda>r. r\<lparr>rq_type := NON\<rparr>)"

definition nabto_coap_client_request_observe :: "address \<Rightarrow> 'm coap_client \<Rightarrow> 'm coap_client" where
  "nabto_coap_client_request_observe a = set_request a (\<lambda>r. r\<lparr>rq_isObserve := True\<rparr>)"

definition nabto_coap_client_request_observe_deregister :: "address \<Rightarrow> 'm coap_client \<Rightarrow> 'm coap_client" where
  "nabto_coap_client_request_observe_deregister a c =
     (let c = set_request a (\<lambda>r. r\<lparr>rq_observeDeregister := True\<rparr>) c
      in if rq_state (cc_request c a) = REQUEST_WAIT_RESPONSE then
           (let (messageId, c) = nabto_coap_client_next_message_id c
            in client_notify (set_request a (\<lambda>r. r\<lparr>rq_messageId := messageId, rq_retransmissions := 0,
                 rq_state := REQUEST_SEND\<rparr>) c))
         else c)"

text \<open>The requests that are not finished when the client or their connection is stopped.\<close>

definition stop_request :: "client_request \<Rightarrow> client_request" where
  "stop_request r =
     (if request_state_num (rq_state r) < request_state_num REQUEST_DONE_CALLBACK
      then r\<lparr>rq_status := CLIENT_STOPPED, rq_state := REQUEST_DONE_CALLBACK\<rparr> else r)"

fun stop_loop :: "address list \<Rightarrow> 'm coap_client \<Rightarrow> 'm coap_client" where
  "stop_loop [] c = c"
| "stop_loop (a # as) c = stop_loop as (set_request a stop_request c)"

definition nabto_coap_client_stop :: "'m coap_client \<Rightarrow> 'm coap_client" where
  "nabto_coap_client_stop c = stop_loop (cc_requests c) c"

fun remove_connection_loop :: "connection \<Rightarrow> address list \<Rightarrow> 'm coap_client \<Rightarrow> 'm coap_client" where
  "remove_connection_loop connection [] c = c"
| "remove_connection_loop connection (a # as) c =
     remove_connection_loop connection as
       (if rq_connection (cc_request c a) = connection then set_request a stop_request c else c)"

definition nabto_coap_client_remove_connection :: "connection \<Rightarrow> 'm coap_client \<Rightarrow> 'm coap_client" where
  "nabto_coap_client_remove_connection connection c =
     client_notify (remove_connection_loop connection (cc_requests c) c)"

definition nabto_coap_client_request_get_status :: "client_request \<Rightarrow> client_status" where
  "nabto_coap_client_request_get_status r =
     (if rq_state r = REQUEST_DONE then rq_status r
      else if rq_status r = CLIENT_OBSERVE_NOTIFICATION then rq_status r
      else CLIENT_IN_PROGRESS)"

definition nabto_coap_client_request_get_response :: "client_request \<Rightarrow> client_response option" where
  "nabto_coap_client_request_get_response r = rq_response r"

definition nabto_coap_client_response_get_code :: "client_response option \<Rightarrow> u16" where
  "nabto_coap_client_response_get_code response =
     (case response of None \<Rightarrow> 0
      | Some resp \<Rightarrow> let compactCode = ucast (rp_code resp) :: u8
                   in ucast (drop_bit 5 compactCode) * 100 + ucast (compactCode AND 0x1f))"

definition nabto_coap_client_response_get_content_format :: "client_response option \<Rightarrow> u16 option" where
  "nabto_coap_client_response_get_content_format response =
     (case response of None \<Rightarrow> None
      | Some resp \<Rightarrow> if rp_hasContentFormat resp then Some (rp_contentFormat resp) else None)"

definition nabto_coap_client_response_get_payload :: "client_response option \<Rightarrow> bytes option" where
  "nabto_coap_client_response_get_payload response =
     (case response of None \<Rightarrow> None
      | Some resp \<Rightarrow> if 0 < rp_payloadLength resp then Some (owned_data (rp_payload resp)) else None)"

definition nabto_coap_client_response_get_observe :: "client_response option \<Rightarrow> u32 option" where
  "nabto_coap_client_response_get_observe response =
     (case response of None \<Rightarrow> None
      | Some resp \<Rightarrow> if rp_hasObserve resp then Some (rp_observe resp) else None)"

section \<open>Events and callbacks\<close>

definition nabto_coap_client_request_need_send :: "client_request \<Rightarrow> u32 \<Rightarrow> bool" where
  "nabto_coap_client_request_need_send r now = (if rq_state r = REQUEST_SEND then True else False)"

definition nabto_coap_client_request_need_wait :: "client_request \<Rightarrow> bool" where
  "nabto_coap_client_request_need_wait r =
     (if rq_state r = REQUEST_WAIT_ACK then True
      else if rq_state r = REQUEST_WAIT_RESPONSE then
        (if rq_isObserve r \<and> \<not> rq_observeDeregister r then False
         else rq_configuredTimeoutMilliseconds r \<noteq> 0)
      else False)"

text \<open>
  The handler is called as the last step; the result is the request it is called for.  What it does,
  such as freeing the request, is a step of its own.
\<close>

fun handle_callback_loop :: "address list \<Rightarrow> 'm coap_client \<Rightarrow> address option \<times> 'm coap_client" where
  "handle_callback_loop [] c = (None, c)"
| "handle_callback_loop (a # as) c =
     (let r = cc_request c a
      in if rq_state r = REQUEST_DONE_CALLBACK then
           (if rq_isObserve r \<and> \<not> rq_observeDeregister r \<and>
               (case rq_response r of None \<Rightarrow> False | Some response \<Rightarrow> rp_hasObserve response) \<and>
               rq_status r \<noteq> CLIENT_STOPPED \<and> rq_status r \<noteq> CLIENT_TIMEOUT \<and> rq_status r \<noteq> CLIENT_RESET
            then (Some a, set_request a (\<lambda>r. r\<lparr>rq_state := REQUEST_WAIT_RESPONSE,
                    rq_status := CLIENT_OBSERVE_NOTIFICATION\<rparr>) c)
            else (Some a, set_request a (\<lambda>r. r\<lparr>rq_state := REQUEST_DONE\<rparr>) c))
         else handle_callback_loop as c)"

definition nabto_coap_client_handle_callback :: "'m coap_client \<Rightarrow> address option \<times> 'm coap_client" where
  "nabto_coap_client_handle_callback c = handle_callback_loop (cc_requests c) c"

fun next_event_loop :: "address list \<Rightarrow> u32 \<Rightarrow> bool \<Rightarrow> 'm coap_client \<Rightarrow> client_next_event" where
  "next_event_loop [] now shouldWait c = (if shouldWait then CLIENT_WAIT else CLIENT_NOTHING)"
| "next_event_loop (a # as) now shouldWait c =
     (if rq_state (cc_request c a) = REQUEST_DONE_CALLBACK then CLIENT_CALLBACK
      else if nabto_coap_client_request_need_send (cc_request c a) now then CLIENT_SEND
      else next_event_loop as now (nabto_coap_client_request_need_wait (cc_request c a) \<or> shouldWait) c)"

definition nabto_coap_client_get_next_event :: "u32 \<Rightarrow> 'm coap_client \<Rightarrow> client_next_event" where
  "nabto_coap_client_get_next_event now c =
     (if cc_needSendRst c then CLIENT_SEND
      else if cc_needSendAck c then CLIENT_SEND
      else if cc_requests c = [] then CLIENT_NOTHING
      else next_event_loop (cc_requests c) now False c)"

fun next_timeout_loop :: "address list \<Rightarrow> u32 \<Rightarrow> 'm coap_client \<Rightarrow> u32" where
  "next_timeout_loop [] timeout c = timeout"
| "next_timeout_loop (a # as) timeout c =
     next_timeout_loop as
       (if nabto_coap_client_request_need_wait (cc_request c a) \<and>
           nabto_coap_is_stamp_less (rq_timeoutStamp (cc_request c a)) timeout
        then rq_timeoutStamp (cc_request c a) else timeout) c"

definition nabto_coap_client_get_next_timeout :: "u32 \<Rightarrow> 'm coap_client \<Rightarrow> u32" where
  "nabto_coap_client_get_next_timeout now c = next_timeout_loop (cc_requests c) (now + 42424242) c"

definition timeout_request :: "u8 \<Rightarrow> u32 \<Rightarrow> client_request \<Rightarrow> client_request" where
  "timeout_request maxRetransmits now r =
     (if nabto_coap_client_request_need_wait r then
        (if rq_state r = REQUEST_WAIT_ACK then
           (if nabto_coap_is_stamp_less_equal (rq_timeoutStamp r) now then
              (if maxRetransmits \<le> rq_retransmissions r
               then r\<lparr>rq_status := CLIENT_TIMEOUT, rq_state := REQUEST_DONE_CALLBACK\<rparr>
               else r\<lparr>rq_retransmissions := rq_retransmissions r + 1, rq_state := REQUEST_SEND\<rparr>)
            else r)
         else if rq_state r = REQUEST_WAIT_RESPONSE then
           (if nabto_coap_is_stamp_less_equal (rq_timeoutStamp r) now
            then r\<lparr>rq_status := CLIENT_TIMEOUT, rq_state := REQUEST_DONE_CALLBACK\<rparr> else r)
         else r)
      else r)"

fun handle_timeout_loop :: "address list \<Rightarrow> u32 \<Rightarrow> 'm coap_client \<Rightarrow> 'm coap_client" where
  "handle_timeout_loop [] now c = c"
| "handle_timeout_loop (a # as) now c =
     handle_timeout_loop as now (set_request a (timeout_request (cs_maxRetransmits (cc_settings c)) now) c)"

definition nabto_coap_client_handle_timeout :: "u32 \<Rightarrow> 'm coap_client \<Rightarrow> 'm coap_client" where
  "nabto_coap_client_handle_timeout now c = handle_timeout_loop (cc_requests c) now c"

section \<open>Creating packets\<close>

fun ack_timeout_loop :: "nat \<Rightarrow> u32 \<Rightarrow> u32" where
  "ack_timeout_loop 0 timeout = timeout"
| "ack_timeout_loop (Suc n) timeout =
     (if timeout < NABTO_COAP_CLIENT_MAX_TIMEOUT then ack_timeout_loop n (timeout * 2) else timeout)"

definition nabto_coap_client_ack_timeout :: "client_settings \<Rightarrow> u8 \<Rightarrow> u32" where
  "nabto_coap_client_ack_timeout settings retransmissions =
     (let timeout = cs_ackTimeoutMilliseconds settings;
          timeout = (if NABTO_COAP_CLIENT_MAX_TIMEOUT < timeout then NABTO_COAP_CLIENT_MAX_TIMEOUT else timeout)
      in ack_timeout_loop (unat retransmissions) timeout)"

fun encode_path_segments :: "u16 \<Rightarrow> bytes list \<Rightarrow> wptr \<Rightarrow> u16 \<times> wptr" where
  "encode_path_segments currentOption [] ptr = (currentOption, ptr)"
| "encode_path_segments currentOption (segment # segments) ptr =
     encode_path_segments OPTION_URI_PATH segments
       (nabto_coap_encode_option (OPTION_URI_PATH - currentOption) segment ptr)"

definition fetching_further_block2 :: "client_request \<Rightarrow> bool" where
  "fetching_further_block2 r \<longleftrightarrow> rq_hasBlock2 r \<and> 0 < NABTO_COAP_BLOCK_NUM (rq_block2 r)"

text \<open>The bytes of a request for the room of the buffer.\<close>

definition request_packet :: "client_request \<Rightarrow> nat \<Rightarrow> wptr" where
  "request_packet r room =
     (let header = \<lparr>mh_type = rq_type r, mh_code = rq_method r, mh_messageId = rq_messageId r, mh_token = rq_token r\<rparr>;
          ptr = nabto_coap_encode_header header (Some ([], room));
          currentOption = 0;
          (currentOption, ptr) =
            (if rq_isObserve r
             then (OPTION_OBSERVE, nabto_coap_encode_varint_option (OPTION_OBSERVE - currentOption)
                     (if rq_observeDeregister r then 1 else 0) ptr)
             else (currentOption, ptr));
          (currentOption, ptr) = encode_path_segments currentOption (rq_pathSegments r) ptr;
          (currentOption, ptr) =
            (if rq_hasContentFormat r
             then (OPTION_CONTENT_FORMAT, nabto_coap_encode_varint_option (OPTION_CONTENT_FORMAT - currentOption)
                     (ucast (rq_contentFormat r)) ptr)
             else (currentOption, ptr));
          (currentOption, ptr) =
            (if rq_hasBlock2 r
             then (OPTION_BLOCK2, nabto_coap_encode_varint_option (OPTION_BLOCK2 - currentOption) (rq_block2 r) ptr)
             else (currentOption, ptr));
          blockSize = nabto_coap_block_size_from_szx (rq_block1Size r);
          payloadOffset = rq_block1Offset r
      in if \<not> fetching_further_block2 r \<and> payloadOffset < rq_payloadLength r then
           (let payloadRestLength = rq_payloadLength r - payloadOffset;
                ptr = (if blockSize < rq_payloadLength r then
                         (let blockMore = (if payloadRestLength \<le> blockSize then 0 else 1);
                              blockNum = of_nat (payloadOffset div blockSize);
                              blockOption = push_bit 4 blockNum + push_bit 3 blockMore + rq_block1Size r
                          in nabto_coap_encode_varint_option (OPTION_BLOCK1 - currentOption) blockOption ptr)
                       else ptr);
                payloadRestLength = (if blockSize < payloadRestLength then blockSize else payloadRestLength)
            in nabto_coap_encode_payload
                 (Some (take payloadRestLength (drop payloadOffset (owned_data (rq_payload r))))) ptr)
         else ptr)"

text \<open>A request after its packet has gone out.\<close>

definition request_sent :: "client_settings \<Rightarrow> u32 \<Rightarrow> client_request \<Rightarrow> client_request" where
  "request_sent settings now r =
     (if rq_type r = NON
      then r\<lparr>rq_state := REQUEST_WAIT_RESPONSE, rq_timeoutStamp := now + rq_configuredTimeoutMilliseconds r\<rparr>
      else r\<lparr>rq_state := REQUEST_WAIT_ACK,
             rq_timeoutStamp := now + nabto_coap_client_ack_timeout settings (rq_retransmissions r)\<rparr>)"

definition nabto_coap_client_request_create_packet ::
  "address \<Rightarrow> u32 \<Rightarrow> nat \<Rightarrow> 'm coap_client \<Rightarrow> wptr \<times> 'm coap_client" where
  "nabto_coap_client_request_create_packet a now room c =
     (case request_packet (cc_request c a) room of
        None \<Rightarrow> (None, set_request a (\<lambda>r. r\<lparr>rq_status := CLIENT_DECODE_ERROR, rq_state := REQUEST_DONE_CALLBACK\<rparr>) c)
      | Some p \<Rightarrow> (Some p, set_request a (request_sent (cc_settings c) now) c))"

definition empty_packet :: "coap_type \<Rightarrow> u16 \<Rightarrow> nat \<Rightarrow> wptr" where
  "empty_packet type messageId room =
     nabto_coap_encode_header \<lparr>mh_type = type, mh_code = NABTO_COAP_CODE_EMPTY, mh_messageId = messageId, mh_token = []\<rparr>
       (Some ([], room))"

definition nabto_coap_client_create_ack_packet :: "client_request \<Rightarrow> nat \<Rightarrow> wptr" where
  "nabto_coap_client_create_ack_packet r room = empty_packet ACK (rq_messageId r) room"

text \<open>The packet, and the connection it goes to when one was set.\<close>

definition nabto_coap_client_create_packet ::
  "u32 \<Rightarrow> nat \<Rightarrow> 'm coap_client \<Rightarrow> wptr \<times> connection option \<times> 'm coap_client" where
  "nabto_coap_client_create_packet stamp room c =
     (if cc_needSendRst c then
        (empty_packet RST (cc_messageIdRst c) room, Some (cc_connectionRst c), c\<lparr>cc_needSendRst := False\<rparr>)
      else if cc_needSendAck c then
        (empty_packet ACK (cc_messageIdAck c) room, Some (cc_connectionAck c), c\<lparr>cc_needSendAck := False\<rparr>)
      else
        (case find (\<lambda>a. nabto_coap_client_request_need_send (cc_request c a) stamp) (cc_requests c) of
           None \<Rightarrow> (None, None, c)
         | Some a \<Rightarrow> (case nabto_coap_client_request_create_packet a stamp room c of
             (p, c') \<Rightarrow> (p, Some (rq_connection (cc_request c a)), c'))))"

section \<open>Responses\<close>

definition nabto_coap_client_send_ack :: "u16 \<Rightarrow> connection \<Rightarrow> 'm coap_client \<Rightarrow> 'm coap_client" where
  "nabto_coap_client_send_ack messageId connection c =
     c\<lparr>cc_needSendAck := True, cc_messageIdAck := messageId, cc_connectionAck := connection\<rparr>"

definition client_send_rst :: "u16 \<Rightarrow> connection \<Rightarrow> 'm coap_client \<Rightarrow> 'm coap_client" where
  "client_send_rst messageId connection c =
     c\<lparr>cc_needSendRst := True, cc_messageIdRst := messageId, cc_connectionRst := connection\<rparr>"

definition ack_confirmable :: "coap_incoming_message \<Rightarrow> connection \<Rightarrow> 'm coap_client \<Rightarrow> 'm coap_client" where
  "ack_confirmable message connection c =
     (if im_type message = CON then nabto_coap_client_send_ack (im_messageId message) connection c else c)"

definition is_fresh_response :: "coap_incoming_message \<Rightarrow> bool" where
  "is_fresh_response message \<longleftrightarrow> \<not> (im_hasBlock2 message \<and> 0 < NABTO_COAP_BLOCK_OFFSET (im_block2 message))"

text \<open>
  The steps of \<open>nabto_coap_client_parse_and_handle_response\<close>.  A step returns \<open>Some\<close> status when
  the function returns there, and \<open>None\<close> when it goes on.  First, a response to work on.
\<close>

definition prepare_response ::
  "address \<Rightarrow> coap_incoming_message \<Rightarrow> 'm coap_client \<Rightarrow> client_status option \<times> 'm coap_client" where
  "prepare_response a message c =
     (case rq_response (cc_request c a) of
        None \<Rightarrow>
          (case client_calloc sizeof_client_response c of
             (None, c) \<Rightarrow> (Some CLIENT_DECODE_ERROR, c)
           | (Some p, c) \<Rightarrow>
              (None, set_request a (\<lambda>r. r\<lparr>rq_response := Some \<lparr>rp_address = p, rp_code = 0,
                 rp_hasContentFormat = False, rp_contentFormat = 0, rp_payload = None, rp_messageId = 0,
                 rp_hasObserve = False, rp_observe = 0\<rparr>\<rparr>) c))
      | Some response \<Rightarrow>
          (if is_fresh_response message then
             (let c = free_owned (rp_payload response) c;
                  c = set_response a (\<lambda>p. p\<lparr>rp_payload := None, rp_hasContentFormat := False, rp_hasObserve := False\<rparr>) c
              in (None, set_request a (\<lambda>r. r\<lparr>rq_hasBlock2 := False, rq_block2 := 0\<rparr>) c))
           else (None, c)))"

definition copy_options :: "address \<Rightarrow> coap_incoming_message \<Rightarrow> 'm coap_client \<Rightarrow> 'm coap_client" where
  "copy_options a message c =
     (let c = set_response a (\<lambda>p. p\<lparr>rp_code := im_code message, rp_messageId := im_messageId message\<rparr>) c;
          c = (if im_hasContentFormat message
               then set_response a (\<lambda>p. p\<lparr>rp_hasContentFormat := True, rp_contentFormat := im_contentFormat message\<rparr>) c
               else c)
      in if im_hasObserve message
         then set_response a (\<lambda>p. p\<lparr>rp_hasObserve := True, rp_observe := im_observe message\<rparr>) c else c)"

definition drop_with_error ::
  "address \<Rightarrow> 'm coap_client \<Rightarrow> client_status option \<times> 'm coap_client" where
  "drop_with_error a c = (Some CLIENT_DECODE_ERROR, nabto_coap_client_request_drop_response a c)"

text \<open>The body of the response, a block of it or the whole; \<open>payload\<close> is the body so far.\<close>

definition store_block2 ::
  "address \<Rightarrow> coap_incoming_message \<Rightarrow> owned_bytes \<Rightarrow> 'm coap_client \<Rightarrow> client_status option \<times> 'm coap_client" where
  "store_block2 a message payload c =
     (if NABTO_COAP_BLOCK_OFFSET (im_block2 message) \<noteq> owned_length payload then drop_with_error a c
      else if NABTO_COAP_BLOCK_MORE (im_block2 message) \<and>
        im_payloadLength message \<noteq> NABTO_COAP_BLOCK_SIZE_ABSOLUTE (im_block2 message) then drop_with_error a c
      else (case client_calloc (owned_length payload + im_payloadLength message + 1) c of
          (None, c) \<Rightarrow> drop_with_error a c
        | (Some p, c) \<Rightarrow>
           (let c = free_owned payload c;
                c = set_response a (\<lambda>r. r\<lparr>rp_payload :=
                      Some (p, owned_data payload @ (case im_payload message of None \<Rightarrow> [] | Some bs \<Rightarrow> bs))\<rparr>) c
            in (None, set_request a (\<lambda>r. r\<lparr>rq_hasBlock2 := True,
                 rq_block2 := push_bit 4 (NABTO_COAP_BLOCK_NUM (im_block2 message) + 1) +
                   NABTO_COAP_BLOCK_SIZE (im_block2 message)\<rparr>) c))))"

definition store_whole ::
  "address \<Rightarrow> coap_incoming_message \<Rightarrow> 'm coap_client \<Rightarrow> client_status option \<times> 'm coap_client" where
  "store_whole a message c =
     (if 0 < im_payloadLength message then
        (case client_calloc (im_payloadLength message + 1) c of
           (None, c) \<Rightarrow> drop_with_error a (set_response a (\<lambda>r. r\<lparr>rp_payload := None\<rparr>) c)
         | (Some p, c) \<Rightarrow>
             (None, set_response a (\<lambda>r. r\<lparr>rp_payload := Some (p, the (im_payload message))\<rparr>) c))
      else (None, c))"

definition store_body ::
  "address \<Rightarrow> coap_incoming_message \<Rightarrow> connection \<Rightarrow> 'm coap_client \<Rightarrow> client_status option \<times> 'm coap_client" where
  "store_body a message connection c =
     (let payload = rp_payload (the (rq_response (cc_request c a)))
      in if im_hasBlock2 message \<and> NABTO_COAP_BLOCK_OFFSET (im_block2 message) < owned_length payload then
           (if owned_length payload < NABTO_COAP_BLOCK_OFFSET (im_block2 message) + im_payloadLength message
            then drop_with_error a c
            else (Some CLIENT_OK, ack_confirmable message connection c))
         else if cs_maxResponsePayload (cc_settings c) < owned_length payload + im_payloadLength message
         then drop_with_error a c
         else if im_hasBlock2 message then store_block2 a message payload c
         else store_whole a message c)"

text \<open>What the response says about the blocks of the request.\<close>

definition handle_block1 ::
  "address \<Rightarrow> coap_incoming_message \<Rightarrow> 'm coap_client \<Rightarrow> client_status option \<times> 'm coap_client" where
  "handle_block1 a message c =
     (if \<not> im_hasBlock1 message then (None, c)
      else
       (let (adopted, r) = (if im_code message = REQUEST_ENTITY_TOO_LARGE \<and> \<not> rq_block1Restarted (cc_request c a)
              then nabto_coap_client_block1_adopt_size (cc_request c a) (NABTO_COAP_BLOCK_SIZE (im_block1 message))
              else (False, cc_request c a));
            c = set_request a (\<lambda>_. r) c
        in if adopted then
             (Some CLIENT_OK, nabto_coap_client_request_send_again a
                (set_request a (\<lambda>r. r\<lparr>rq_block1Restarted := True, rq_block1Offset := 0\<rparr>) c))
           else if drop_bit 5 (im_code message) = 2 then
             (case nabto_coap_client_block1_advance (cc_request c a) (im_block1 message) of
                (BLOCK1_STALE, r) \<Rightarrow> (Some CLIENT_OK, c)
              | (BLOCK1_BAD, r) \<Rightarrow> drop_with_error a c
              | (BLOCK1_ADVANCED, r) \<Rightarrow>
                 (let c = set_request a (\<lambda>_. r) c
                  in if rq_block1Offset r < rq_payloadLength r
                     then (Some CLIENT_OK, nabto_coap_client_request_send_again a c) else (None, c)))
           else (None, c)))"

definition finish_response ::
  "address \<Rightarrow> coap_incoming_message \<Rightarrow> connection \<Rightarrow> 'm coap_client \<Rightarrow> 'm coap_client" where
  "finish_response a message connection c =
     (if im_hasBlock2 message \<and> NABTO_COAP_BLOCK_MORE (im_block2 message)
      then nabto_coap_client_request_send_again a (ack_confirmable message connection c)
      else set_request a (\<lambda>r. r\<lparr>rq_state := REQUEST_DONE_CALLBACK\<rparr>) (ack_confirmable message connection c))"

definition nabto_coap_client_parse_and_handle_response ::
  "address \<Rightarrow> coap_incoming_message \<Rightarrow> connection \<Rightarrow> 'm coap_client \<Rightarrow> client_status \<times> 'm coap_client" where
  "nabto_coap_client_parse_and_handle_response a message connection c =
     (case prepare_response a message c of
        (Some status, c) \<Rightarrow> (status, c)
      | (None, c) \<Rightarrow>
         (case store_body a message connection (copy_options a message c) of
            (Some status, c) \<Rightarrow> (status, c)
          | (None, c) \<Rightarrow>
             (case handle_block1 a message c of
                (Some status, c) \<Rightarrow> (status, c)
              | (None, c) \<Rightarrow> (CLIENT_OK, finish_response a message connection c))))"

section \<open>Packets\<close>

fun handle_ack_loop :: "address list \<Rightarrow> u16 \<Rightarrow> connection \<Rightarrow> u32 \<Rightarrow> 'm coap_client \<Rightarrow> 'm coap_client" where
  "handle_ack_loop [] messageId connection now c = c"
| "handle_ack_loop (a # as) messageId connection now c =
     (let r = cc_request c a
      in if rq_state r = REQUEST_WAIT_ACK \<and> rq_messageId r = messageId \<and> rq_connection r = connection then
           set_request a (\<lambda>r. r\<lparr>rq_state := REQUEST_WAIT_RESPONSE,
             rq_timeoutStamp := now + rq_configuredTimeoutMilliseconds r\<rparr>) c
         else handle_ack_loop as messageId connection now c)"

definition nabto_coap_client_handle_ack ::
  "coap_incoming_message \<Rightarrow> connection \<Rightarrow> u32 \<Rightarrow> 'm coap_client \<Rightarrow> 'm coap_client" where
  "nabto_coap_client_handle_ack message connection now c =
     handle_ack_loop (cc_requests c) (im_messageId message) connection now c"

fun handle_rst_loop :: "address list \<Rightarrow> u16 \<Rightarrow> connection \<Rightarrow> 'm coap_client \<Rightarrow> 'm coap_client" where
  "handle_rst_loop [] messageId connection c = c"
| "handle_rst_loop (a # as) messageId connection c =
     (let r = cc_request c a
      in if (rq_state r = REQUEST_WAIT_ACK \<or> (rq_state r = REQUEST_WAIT_RESPONSE \<and> rq_type r = NON)) \<and>
            rq_messageId r = messageId \<and> rq_connection r = connection then
           set_request a (\<lambda>r. r\<lparr>rq_status := CLIENT_RESET, rq_state := REQUEST_DONE_CALLBACK\<rparr>) c
         else handle_rst_loop as messageId connection c)"

definition nabto_coap_client_handle_rst :: "coap_incoming_message \<Rightarrow> connection \<Rightarrow> 'm coap_client \<Rightarrow> 'm coap_client" where
  "nabto_coap_client_handle_rst message connection c =
     handle_rst_loop (cc_requests c) (im_messageId message) connection c"

definition nabto_coap_client_find_request ::
  "coap_incoming_message \<Rightarrow> connection \<Rightarrow> 'm coap_client \<Rightarrow> address option" where
  "nabto_coap_client_find_request message connection c =
     find (\<lambda>a. rq_connection (cc_request c a) = connection \<and>
               nabto_coap_token_equal (rq_token (cc_request c a)) (im_token message)) (cc_requests c)"

definition nabto_coap_client_handle_request_response ::
  "address \<Rightarrow> coap_incoming_message \<Rightarrow> connection \<Rightarrow> 'm coap_client \<Rightarrow> client_status \<times> 'm coap_client" where
  "nabto_coap_client_handle_request_response a message connection c =
     (if rq_state (cc_request c a) = REQUEST_WAIT_ACK \<or> rq_state (cc_request c a) = REQUEST_WAIT_RESPONSE
      then nabto_coap_client_parse_and_handle_response a message connection c
      else if im_type message = NON \<or> im_type message = CON
      then (CLIENT_OK, client_send_rst (im_messageId message) (rq_connection (cc_request c a)) c)
      else (CLIENT_OK, c))"

definition nabto_coap_client_handle_packet ::
  "u32 \<Rightarrow> bytes \<Rightarrow> connection \<Rightarrow> 'm coap_client \<Rightarrow> client_status \<times> 'm coap_client" where
  "nabto_coap_client_handle_packet now packet connection c =
     (case nabto_coap_parse_message packet of
        None \<Rightarrow> (CLIENT_DECODE_ERROR, c)
      | Some message \<Rightarrow>
         if im_hasRepeatedBlockOption message \<or>
            (im_hasBlock1 message \<and> NABTO_COAP_BLOCK_SIZE (im_block1 message) = 7) \<or>
            (im_hasBlock2 message \<and> NABTO_COAP_BLOCK_SIZE (im_block2 message) = 7)
         then (CLIENT_DECODE_ERROR,
               if im_type message = CON \<or> im_type message = NON
               then client_send_rst (im_messageId message) connection c else c)
         else if im_type message = ACK \<and> im_code message = NABTO_COAP_CODE_EMPTY
         then (CLIENT_OK, nabto_coap_client_handle_ack message connection now c)
         else if im_type message = RST then (CLIENT_OK, nabto_coap_client_handle_rst message connection c)
         else
          (case nabto_coap_client_find_request message connection c of
             Some a \<Rightarrow> nabto_coap_client_handle_request_response a message connection c
           | None \<Rightarrow>
               (CLIENT_OK,
                if im_type message = NON \<or> im_type message = CON
                then client_send_rst (im_messageId message) connection c else c)))"

end
