(* ===== verification/Coap_Client_Memory.thy ===== *)
theory Coap_Client_Memory
  imports Coap_Client
begin

text \<open>
  The memory of the CoAP client.  The blocks a client owns are its sentinel, its requests, their
  payloads and responses; \<open>client_owns\<close> says that these are different blocks, and that together with
  a set of blocks of other owners they are all blocks in use.  An operation on one request is looked at with
  everything else as a frame.
\<close>

section \<open>Blocks\<close>

definition response_blocks :: "client_response option \<Rightarrow> address list" where
  "response_blocks response =
     (case response of None \<Rightarrow> [] | Some r \<Rightarrow> rp_address r # owned_blocks (rp_payload r))"

text \<open>The block of a request body is looked at only when the body has bytes.\<close>

definition body_blocks :: "owned_bytes \<Rightarrow> address list" where
  "body_blocks payload = (if owned_length payload = 0 then [] else owned_blocks payload)"

definition request_blocks :: "client_request \<Rightarrow> address list" where
  "request_blocks r = body_blocks (rq_payload r) @ response_blocks (rq_response r)"

definition client_blocks :: "'m coap_client \<Rightarrow> address list" where
  "client_blocks c = (case cc_sentinel c of None \<Rightarrow> [] | Some s \<Rightarrow> [s]) @ cc_requests c @
     concat (map (\<lambda>a. request_blocks (cc_request c a)) (cc_requests c))"

definition client_owns :: "('m \<Rightarrow> address set) \<Rightarrow> address set \<Rightarrow> 'm coap_client \<Rightarrow> bool" where
  "client_owns live F c \<longleftrightarrow> owned live F (client_blocks c) (cc_memory c) \<and>
     allocator_ok (cc_allocator c) live \<and> (\<forall>m. live (cc_notifyEvent c m) = live m)"

section \<open>One request and its frame\<close>

text \<open>What no operation on the request \<open>a\<close> changes.\<close>

definition client_frame :: "address \<Rightarrow> 'm coap_client \<Rightarrow>
    address option \<times> address list \<times> 'm nn_allocator \<times> ('m \<Rightarrow> 'm) \<times> (address \<Rightarrow> client_request)" where
  "client_frame a c = (cc_sentinel c, cc_requests c, cc_allocator c, cc_notifyEvent c,
     (cc_request c)(a := zero_client_request))"

text \<open>An operation on the request \<open>a\<close>, for any frame.\<close>

definition request_owns :: "('m \<Rightarrow> address set) \<Rightarrow> address set \<Rightarrow> address \<Rightarrow> 'm coap_client \<Rightarrow> bool" where
  "request_owns live F a c \<longleftrightarrow> owned live F (request_blocks (cc_request c a)) (cc_memory c) \<and>
     allocator_ok (cc_allocator c) live"

definition keeps :: "('m \<Rightarrow> address set) \<Rightarrow> address \<Rightarrow> 'm coap_client \<Rightarrow> 'm coap_client \<Rightarrow> bool" where
  "keeps live a c c' \<longleftrightarrow> client_frame a c' = client_frame a c \<and>
     (\<forall>F. request_owns live F a c \<longrightarrow> request_owns live F a c')"

lemma keeps_refl [simp]: "keeps live a c c"
  by (simp add: keeps_def)

lemma keeps_trans [trans]: "keeps live a c c' \<Longrightarrow> keeps live a c' c'' \<Longrightarrow> keeps live a c c''"
  by (simp add: keeps_def)

definition frame_blocks :: "address \<Rightarrow> 'm coap_client \<Rightarrow> address list" where
  "frame_blocks a c = (case cc_sentinel c of None \<Rightarrow> [] | Some s \<Rightarrow> [s]) @ cc_requests c @
     concat (map (\<lambda>b. request_blocks (cc_request c b)) (remove1 a (cc_requests c)))"

lemma client_blocks_split:
  assumes "a \<in> set (cc_requests c)"
  shows "mset (client_blocks c) = mset (frame_blocks a c @ request_blocks (cc_request c a))"
proof -
  have "mset (concat (map f xs)) = mset (concat (map f (remove1 a xs))) + mset (f a)"
    if "a \<in> set xs" for xs and f :: "address \<Rightarrow> address list"
    using that by (induction xs) auto
  from this [OF assms, of "\<lambda>a. request_blocks (cc_request c a)"]
  show ?thesis unfolding client_blocks_def frame_blocks_def by simp
qed

lemma client_owns_focus:
  assumes "a \<in> set (cc_requests c)"
  shows "client_owns live F c \<longleftrightarrow>
    request_owns live (F \<union> set (frame_blocks a c)) a c \<and> distinct (frame_blocks a c) \<and>
    set (frame_blocks a c) \<inter> F = {} \<and> (\<forall>m. live (cc_notifyEvent c m) = live m)"
  unfolding client_owns_def owned_mset [OF client_blocks_split [OF assms]] owned_append request_owns_def by blast

lemma frame_blocks_cong:
  assumes "client_frame a c' = client_frame a c" "distinct (cc_requests c)"
  shows "frame_blocks a c' = frame_blocks a c"
proof -
  have "(cc_request c')(a := zero_client_request) = (cc_request c)(a := zero_client_request)"
    using assms(1) unfolding client_frame_def by simp
  then have "cc_request c' b = cc_request c b" if "b \<noteq> a" for b
    using that by (metis fun_upd_other)
  then have e: "map (\<lambda>b. request_blocks (cc_request c' b)) (remove1 a (cc_requests c)) =
      map (\<lambda>b. request_blocks (cc_request c b)) (remove1 a (cc_requests c))"
    using assms(2) by (auto simp: set_remove1_eq)
  have s: "cc_sentinel c' = cc_sentinel c" "cc_requests c' = cc_requests c"
    using assms(1) unfolding client_frame_def by simp_all
  show ?thesis unfolding frame_blocks_def s e ..
qed

lemma keeps_client_owns:
  assumes "keeps live a c c'" "a \<in> set (cc_requests c)" "client_owns live F c"
  shows "client_owns live F c'"
proof -
  have f: "client_frame a c' = client_frame a c" using assms(1) unfolding keeps_def by blast
  then have s: "cc_requests c' = cc_requests c" "cc_notifyEvent c' = cc_notifyEvent c"
    unfolding client_frame_def by auto
  have "distinct (cc_requests c)"
    using assms(3) unfolding client_owns_def owned_def client_blocks_def by auto
  then have b: "frame_blocks a c' = frame_blocks a c" by (rule frame_blocks_cong [OF f])
  show ?thesis
    using assms(1,3) client_owns_focus [OF assms(2), of live F] client_owns_focus [of a c' live F] assms(2)
    unfolding s b keeps_def by simp
qed

section \<open>The operations on one request\<close>

lemma cc_request_set [simp]: "cc_request (set_request a f c) b = (if b = a then f (cc_request c a) else cc_request c b)"
  by (simp add: set_request_def)

lemma set_request_simps [simp]:
  "cc_sentinel (set_request a f c) = cc_sentinel c" "cc_requests (set_request a f c) = cc_requests c"
  "cc_allocator (set_request a f c) = cc_allocator c" "cc_notifyEvent (set_request a f c) = cc_notifyEvent c"
  "cc_memory (set_request a f c) = cc_memory c" "cc_settings (set_request a f c) = cc_settings c"
  "client_frame a (set_request a f c) = client_frame a c"
  by (simp_all add: set_request_def client_frame_def)

lemma keeps_set_request:
  "request_blocks (f (cc_request c a)) = request_blocks (cc_request c a) \<Longrightarrow> keeps live a c (set_request a f c)"
  by (simp add: keeps_def request_owns_def)

lemma keeps_set_response:
  "(\<And>p. response_blocks (Some (f p)) = response_blocks (Some p)) \<Longrightarrow> keeps live a c (set_response a f c)"
  unfolding set_response_def
  by (rule keeps_set_request) (auto simp: request_blocks_def response_blocks_def split: option.split)

lemma keeps_next_message_id: "keeps live a c (snd (nabto_coap_client_next_message_id c))"
  by (simp add: keeps_def nabto_coap_client_next_message_id_def client_frame_def request_owns_def)

lemma keeps_send_again: "keeps live a c (nabto_coap_client_request_send_again a c)"
proof -
  let ?c = "set_request a (\<lambda>r. r\<lparr>rq_state := REQUEST_SEND\<rparr>) c"
  obtain m c' where n: "nabto_coap_client_next_message_id ?c = (m, c')" by (metis surj_pair)
  have "keeps live a c ?c" by (rule keeps_set_request) (simp add: request_blocks_def)
  also have "keeps live a ?c c'" using keeps_next_message_id [of live a ?c] n by simp
  also have "keeps live a c' (set_request a (\<lambda>r. r\<lparr>rq_messageId := m, rq_retransmissions := 0\<rparr>) c')"
    by (rule keeps_set_request) (simp add: request_blocks_def)
  finally show ?thesis using n by (simp add: nabto_coap_client_request_send_again_def)
qed

lemma keeps_pending: "keeps live a c (nabto_coap_client_send_ack m k c)" "keeps live a c (client_send_rst m k c)"
  "keeps live a c (ack_confirmable msg k c)"
  by (simp_all add: keeps_def nabto_coap_client_send_ack_def client_send_rst_def ack_confirmable_def
      client_frame_def request_owns_def)

text \<open>The blocks of a request around an allocation and a free.\<close>

lemma calloc_owned:
  assumes "client_calloc n c = (p, c')" "owned live F bs (cc_memory c)" "allocator_ok (cc_allocator c) live"
  shows "owned live F (case p of None \<Rightarrow> bs | Some q \<Rightarrow> q # bs) (cc_memory c')"
  using assms owned_calloc unfolding client_calloc_def by (auto split: prod.splits)

lemma calloc_frame:
  assumes "client_calloc n c = (p, c')"
  shows "client_frame a c' = client_frame a c" "cc_request c' = cc_request c" "cc_allocator c' = cc_allocator c"
    "cc_settings c' = cc_settings c"
  using assms unfolding client_calloc_def client_frame_def by (auto split: prod.splits)

lemma free_frame [simp]:
  "client_frame a (client_free p c) = client_frame a c" "cc_request (client_free p c) = cc_request c"
  "cc_allocator (client_free p c) = cc_allocator c"
  "client_frame a (free_owned pl c) = client_frame a c" "cc_request (free_owned pl c) = cc_request c"
  "cc_allocator (free_owned pl c) = cc_allocator c"
  by (auto simp: client_free_def client_frame_def free_owned_def split: option.split)

lemma free_owned_owned:
  assumes "owned live F (owned_blocks pl @ bs) (cc_memory c)" "allocator_ok (cc_allocator c) live"
  shows "owned live F bs (cc_memory (free_owned pl c))"
  using assms owned_free by (auto simp: owned_blocks_def free_owned_def client_free_def split: option.splits)

lemma response_free_owned:
  assumes "owned live F (response_blocks (Some response) @ bs) (cc_memory c)" "allocator_ok (cc_allocator c) live"
  shows "owned live F bs (cc_memory (nabto_coap_client_response_free response c))"
proof -
  have "owned live F (owned_blocks (rp_payload response) @ (rp_address response # bs)) (cc_memory c)"
    by (rule owned_mset [THEN iffD1, OF _ assms(1)]) (simp add: response_blocks_def)
  then have "owned live F (rp_address response # bs) (cc_memory (free_owned (rp_payload response) c))"
    using assms(2) by (rule free_owned_owned)
  then show ?thesis
    using owned_free assms(2) by (auto simp: nabto_coap_client_response_free_def client_free_def Let_def)
qed

lemma keepsI:
  assumes "client_frame a c' = client_frame a c"
    and "\<And>F. owned live F (request_blocks (cc_request c a)) (cc_memory c) \<Longrightarrow> allocator_ok (cc_allocator c) live \<Longrightarrow>
      owned live F (request_blocks (cc_request c' a)) (cc_memory c')"
  shows "keeps live a c c'"
  using assms unfolding keeps_def request_owns_def client_frame_def by auto

lemma keeps_drop_response: "keeps live a c (nabto_coap_client_request_drop_response a c)"
proof (cases "rq_response (cc_request c a)")
  case None
  then show ?thesis by (simp add: nabto_coap_client_request_drop_response_def)
next
  case (Some response)
  show ?thesis
  proof (rule keepsI)
    show "client_frame a (nabto_coap_client_request_drop_response a c) = client_frame a c"
      using Some by (simp add: nabto_coap_client_request_drop_response_def nabto_coap_client_response_free_def)
  next
    fix F
    assume o: "owned live F (request_blocks (cc_request c a)) (cc_memory c)" "allocator_ok (cc_allocator c) live"
    have "owned live F (response_blocks (Some response) @ body_blocks (rq_payload (cc_request c a))) (cc_memory c)"
      by (rule owned_mset [THEN iffD1, OF _ o(1)]) (simp add: request_blocks_def Some)
    from response_free_owned [OF this o(2)]
    show "owned live F (request_blocks (cc_request (nabto_coap_client_request_drop_response a c) a))
        (cc_memory (nabto_coap_client_request_drop_response a c))"
      using Some by (simp add: nabto_coap_client_request_drop_response_def nabto_coap_client_response_free_def
          request_blocks_def response_blocks_def)
  qed
qed

lemma keeps_drop_with_error: "drop_with_error a c = (s, c') \<Longrightarrow> keeps live a c c'"
  using keeps_drop_response by (auto simp: drop_with_error_def)

section \<open>Responses\<close>

lemma keeps_prepare: "prepare_response a message c = (s, c') \<Longrightarrow> keeps live a c c'"
proof (cases "rq_response (cc_request c a)")
  case None
  assume q: "prepare_response a message c = (s, c')"
  obtain p c1 where p: "client_calloc sizeof_client_response c = (p, c1)" by (metis surj_pair)
  show ?thesis
  proof (rule keepsI)
    show "client_frame a c' = client_frame a c"
      using q None p calloc_frame [OF p] by (cases p) (auto simp: prepare_response_def)
  next
    fix F
    assume o: "owned live F (request_blocks (cc_request c a)) (cc_memory c)" "allocator_ok (cc_allocator c) live"
    from calloc_owned [OF p o] show "owned live F (request_blocks (cc_request c' a)) (cc_memory c')"
    proof (cases p)
      case None
      then show ?thesis
        using q p \<open>rq_response (cc_request c a) = None\<close> calloc_owned [OF p o] calloc_frame [OF p]
        by (auto simp: prepare_response_def)
    next
      case (Some r)
      have "owned live F (r # request_blocks (cc_request c a)) (cc_memory c1)"
        using calloc_owned [OF p o] Some by simp
      then have "owned live F (body_blocks (rq_payload (cc_request c a)) @ [r]) (cc_memory c1)"
        by (rule owned_mset [THEN iffD1, rotated]) (simp add: request_blocks_def response_blocks_def None)
      then show ?thesis
        using q p None Some calloc_frame [OF p]
        by (auto simp: prepare_response_def request_blocks_def response_blocks_def owned_blocks_def)
    qed
  qed
next
  case (Some response)
  assume p: "prepare_response a message c = (s, c')"
  show ?thesis
  proof (cases "is_fresh_response message")
    case False
    then show ?thesis using p Some by (simp add: prepare_response_def)
  next
    case True
    show ?thesis
    proof (rule keepsI)
      show "client_frame a c' = client_frame a c"
        using p Some True by (auto simp: prepare_response_def set_response_def Let_def)
    next
      fix F
      assume o: "owned live F (request_blocks (cc_request c a)) (cc_memory c)" "allocator_ok (cc_allocator c) live"
      have "owned live F (owned_blocks (rp_payload response) @
          (body_blocks (rq_payload (cc_request c a)) @ [rp_address response])) (cc_memory c)"
        by (rule owned_mset [THEN iffD1, OF _ o(1)]) (simp add: request_blocks_def response_blocks_def Some)
      from free_owned_owned [OF this o(2)] show "owned live F (request_blocks (cc_request c' a)) (cc_memory c')"
        using p Some True by (auto simp: prepare_response_def set_response_def request_blocks_def
            response_blocks_def owned_blocks_def)
    qed
  qed
qed

lemma keeps_if:
  "keeps live a c d \<Longrightarrow> (\<And>d. keeps live a d (f d)) \<Longrightarrow> keeps live a c (if b then f d else d)"
  by (auto intro: keeps_trans)

lemma keeps_copy_options: "keeps live a c (copy_options a message c)"
proof -
  have "keeps live a d (set_response a (\<lambda>p. p\<lparr>rp_code := x, rp_messageId := y\<rparr>) d)"
    "keeps live a d (set_response a (\<lambda>p. p\<lparr>rp_hasContentFormat := True, rp_contentFormat := z\<rparr>) d)"
    "keeps live a d (set_response a (\<lambda>p. p\<lparr>rp_hasObserve := True, rp_observe := w\<rparr>) d)" for d x y z w
    by (rule keeps_set_response, simp add: response_blocks_def)+
  note step = this
  show ?thesis
    unfolding copy_options_def Let_def
    by (rule keeps_if [where f = "set_response a g" for g], rule keeps_if [where f = "set_response a g" for g],
        rule step, rule step, rule step)
qed

text \<open>The state after a block has been added to the body.\<close>

definition block2_added ::
  "address \<Rightarrow> coap_incoming_message \<Rightarrow> owned_bytes \<Rightarrow> address \<Rightarrow> 'm coap_client \<Rightarrow> 'm coap_client" where
  "block2_added a message payload q c =
     set_request a (\<lambda>r. r\<lparr>rq_hasBlock2 := True,
        rq_block2 := push_bit 4 (NABTO_COAP_BLOCK_NUM (im_block2 message) + 1) + NABTO_COAP_BLOCK_SIZE (im_block2 message)\<rparr>)
       (set_response a (\<lambda>r. r\<lparr>rp_payload := Some (q, owned_data payload @
          (case im_payload message of None \<Rightarrow> [] | Some bs \<Rightarrow> bs))\<rparr>) (free_owned payload c))"

lemma store_block2_cases:
  obtains "store_block2 a message payload c = drop_with_error a c"
  | c1 where "client_calloc (owned_length payload + im_payloadLength message + 1) c = (None, c1)"
      "store_block2 a message payload c = drop_with_error a c1"
  | q c1 where "client_calloc (owned_length payload + im_payloadLength message + 1) c = (Some q, c1)"
      "NABTO_COAP_BLOCK_OFFSET (im_block2 message) = owned_length payload"
      "NABTO_COAP_BLOCK_MORE (im_block2 message) \<longrightarrow>
        im_payloadLength message = NABTO_COAP_BLOCK_SIZE_ABSOLUTE (im_block2 message)"
      "store_block2 a message payload c = (None, block2_added a message payload q c1)"
proof -
  obtain p c1 where p: "client_calloc (owned_length payload + im_payloadLength message + 1) c = (p, c1)"
    by (metis surj_pair)
  consider "NABTO_COAP_BLOCK_OFFSET (im_block2 message) \<noteq> owned_length payload"
    | "NABTO_COAP_BLOCK_MORE (im_block2 message) \<and>
        im_payloadLength message \<noteq> NABTO_COAP_BLOCK_SIZE_ABSOLUTE (im_block2 message)"
    | "NABTO_COAP_BLOCK_OFFSET (im_block2 message) = owned_length payload"
      "\<not> (NABTO_COAP_BLOCK_MORE (im_block2 message) \<and>
        im_payloadLength message \<noteq> NABTO_COAP_BLOCK_SIZE_ABSOLUTE (im_block2 message))"
    by blast
  then show thesis
  proof cases
    case 1
    then show thesis using that(1) by (simp add: store_block2_def)
  next
    case 2
    then show thesis using that(1) by (simp add: store_block2_def)
  next
    case 3
    then have n: "\<not> NABTO_COAP_BLOCK_OFFSET (im_block2 message) \<noteq> owned_length payload" by simp
    have "store_block2 a message payload c = (case p of None \<Rightarrow> drop_with_error a c1
        | Some q \<Rightarrow> (None, block2_added a message payload q c1))"
      unfolding store_block2_def if_not_P [OF n] if_not_P [OF 3(2)] p block2_added_def
      by (simp split: option.split)
    then show thesis using that(2) [of c1] that(3) [of _ c1] p 3 by (cases p) auto
  qed
qed

lemma keeps_calloc_None: "client_calloc n c = (None, c') \<Longrightarrow> keeps live a c c'"
  using calloc_owned [of n c None c'] by (intro keepsI) (auto simp: calloc_frame)

lemma keeps_store_block2:
  assumes "store_block2 a message (rp_payload response) c = (s, c')" "rq_response (cc_request c a) = Some response"
  shows "keeps live a c c'"
proof (rule store_block2_cases [of a message "rp_payload response" c])
  assume "store_block2 a message (rp_payload response) c = drop_with_error a c"
  then show ?thesis using assms(1) keeps_drop_with_error by metis
next
  fix c1
  assume "client_calloc (rp_payloadLength response + im_payloadLength message + 1) c = (None, c1)"
    "store_block2 a message (rp_payload response) c = drop_with_error a c1"
  then show ?thesis using assms(1) keeps_drop_with_error keeps_calloc_None keeps_trans by metis
next
  fix q c1
  assume q: "client_calloc (rp_payloadLength response + im_payloadLength message + 1) c = (Some q, c1)"
    and "store_block2 a message (rp_payload response) c = (None, block2_added a message (rp_payload response) q c1)"
  then have c': "c' = block2_added a message (rp_payload response) q c1" using assms(1) by simp
  note f = calloc_frame [OF q]
  show ?thesis
  proof (rule keepsI)
    show "client_frame a c' = client_frame a c" using f unfolding c' by (simp add: block2_added_def set_response_def)
  next
    fix F
    assume o: "owned live F (request_blocks (cc_request c a)) (cc_memory c)" "allocator_ok (cc_allocator c) live"
    have "owned live F (q # request_blocks (cc_request c a)) (cc_memory c1)" using calloc_owned [OF q o] by simp
    then have "owned live F (owned_blocks (rp_payload response) @
        (q # body_blocks (rq_payload (cc_request c a)) @ [rp_address response])) (cc_memory c1)"
      by (rule owned_mset [THEN iffD1, rotated]) (simp add: request_blocks_def response_blocks_def assms(2))
    from free_owned_owned [OF this] have "owned live F (q # body_blocks (rq_payload (cc_request c a)) @
        [rp_address response]) (cc_memory (free_owned (rp_payload response) c1))"
      using o(2) f by simp
    then have "owned live F (body_blocks (rq_payload (cc_request c a)) @ [rp_address response, q])
        (cc_memory (free_owned (rp_payload response) c1))"
      by (rule owned_mset [THEN iffD1, rotated]) simp
    then show "owned live F (request_blocks (cc_request c' a)) (cc_memory c')"
      unfolding c' by (simp add: block2_added_def set_response_def request_blocks_def response_blocks_def
          owned_blocks_def assms(2) f)
  qed
qed

lemma keeps_store_whole:
  assumes "store_whole a message c = (s, c')" "rq_response (cc_request c a) = Some response" "rp_payload response = None"
  shows "keeps live a c c'"
proof (cases "0 < im_payloadLength message")
  case False
  then show ?thesis using assms(1) by (simp add: store_whole_def)
next
  case True
  obtain p c1 where p: "client_calloc (im_payloadLength message + 1) c = (p, c1)" by (metis surj_pair)
  note f = calloc_frame [OF p]
  show ?thesis
  proof (cases p)
    case None
    let ?c = "set_response a (\<lambda>r. r\<lparr>rp_payload := None\<rparr>) c1"
    have "keeps live a c c1" using p None by (simp add: keeps_calloc_None)
    also have "keeps live a c1 ?c"
      unfolding set_response_def
      by (rule keeps_set_request) (simp add: request_blocks_def response_blocks_def owned_blocks_def f assms(2,3))
    also have "keeps live a ?c c'"
      using assms(1) True p None keeps_drop_with_error by (simp add: store_whole_def)
    finally show ?thesis .
  next
    case (Some q)
    have c': "c' = set_response a (\<lambda>r. r\<lparr>rp_payload := Some (q, the (im_payload message))\<rparr>) c1"
      using assms(1) True p Some by (simp add: store_whole_def)
    show ?thesis
    proof (rule keepsI)
      show "client_frame a c' = client_frame a c" using f unfolding c' by (simp add: set_response_def)
    next
      fix F
      assume o: "owned live F (request_blocks (cc_request c a)) (cc_memory c)" "allocator_ok (cc_allocator c) live"
      have "owned live F (q # request_blocks (cc_request c a)) (cc_memory c1)"
        using calloc_owned [OF p o] Some by simp
      then have "owned live F (body_blocks (rq_payload (cc_request c a)) @ [rp_address response, q]) (cc_memory c1)"
        by (rule owned_mset [THEN iffD1, rotated])
          (simp add: request_blocks_def response_blocks_def owned_blocks_def assms(2,3))
      then show "owned live F (request_blocks (cc_request c' a)) (cc_memory c')"
        unfolding c' by (simp add: set_response_def request_blocks_def response_blocks_def owned_blocks_def assms(2) f)
    qed
  qed
qed

text \<open>When the body is stored there is a response, and a fresh one has no body.\<close>

definition response_ready :: "address \<Rightarrow> coap_incoming_message \<Rightarrow> 'm coap_client \<Rightarrow> bool" where
  "response_ready a message c \<longleftrightarrow> (\<exists>response. rq_response (cc_request c a) = Some response \<and>
     (is_fresh_response message \<longrightarrow> rp_payload response = None))"

lemma prepare_ready: "prepare_response a message c = (None, c') \<Longrightarrow> response_ready a message c'"
  by (auto simp: prepare_response_def response_ready_def set_response_def Let_def split: option.splits prod.splits if_splits)

lemma copy_options_response:
  "rq_response (cc_request c a) = Some response \<Longrightarrow>
   \<exists>response'. rq_response (cc_request (copy_options a message c) a) = Some response' \<and>
     rp_payload response' = rp_payload response"
  by (auto simp: copy_options_def set_response_def Let_def)

lemma copy_options_ready: "response_ready a message c \<Longrightarrow> response_ready a message (copy_options a message c)"
  unfolding response_ready_def using copy_options_response [of c a _ message] by fastforce

lemma keeps_store_body:
  assumes "store_body a message k c = (s, c')" "response_ready a message c"
  shows "keeps live a c c'"
proof -
  obtain response where r: "rq_response (cc_request c a) = Some response"
      "is_fresh_response message \<longrightarrow> rp_payload response = None"
    using assms(2) unfolding response_ready_def by blast
  have w: "keeps live a c c'" if "store_whole a message c = (s, c')" "\<not> im_hasBlock2 message"
    using that r keeps_store_whole [OF that(1) r(1)] by (simp add: is_fresh_response_def)
  show ?thesis
    using assms(1) keeps_drop_with_error [of a c s c'] keeps_store_block2 [of a message response c s c'] w
      keeps_pending(3) [of live a c message k] r(1)
    by (auto simp: store_body_def Let_def split: if_splits)
qed

lemma keeps_handle_block1: "handle_block1 a message c = (s, c') \<Longrightarrow> keeps live a c c'"
proof -
  assume h: "handle_block1 a message c = (s, c')"
  let ?r = "cc_request c a"
  have adopt: "request_blocks (snd (nabto_coap_client_block1_adopt_size r n)) = request_blocks r" for r n
    by (simp add: nabto_coap_client_block1_adopt_size_def request_blocks_def)
  have advance: "request_blocks (snd (nabto_coap_client_block1_advance r n)) = request_blocks r" for r n
    using adopt by (auto simp: nabto_coap_client_block1_advance_def Let_def request_blocks_def)
  show ?thesis
  proof (cases "im_hasBlock1 message")
    case False
    then show ?thesis using h by (simp add: handle_block1_def)
  next
    case True
    obtain adopted r where ar: "(if im_code message = REQUEST_ENTITY_TOO_LARGE \<and> \<not> rq_block1Restarted ?r
        then nabto_coap_client_block1_adopt_size ?r (NABTO_COAP_BLOCK_SIZE (im_block1 message)) else (False, ?r)) =
        (adopted, r)" by (metis surj_pair)
    have "request_blocks r = request_blocks ?r"
      using ar adopt [of ?r "NABTO_COAP_BLOCK_SIZE (im_block1 message)"] by (auto split: if_splits)
    then have k: "keeps live a c (set_request a (\<lambda>_. r) c)" by (rule keeps_set_request)
    let ?c = "set_request a (\<lambda>_. r) c"
    obtain res r' where adv: "nabto_coap_client_block1_advance r (im_block1 message) = (res, r')" by (metis surj_pair)
    have k1: "keeps live a ?c (nabto_coap_client_request_send_again a
        (set_request a (\<lambda>r. r\<lparr>rq_block1Restarted := True, rq_block1Offset := 0\<rparr>) ?c))"
      by (rule keeps_trans [OF keeps_set_request keeps_send_again]) (simp add: request_blocks_def)
    have k2: "keeps live a ?c (set_request a (\<lambda>_. r') ?c)"
      using advance [of r "im_block1 message"] adv by (intro keeps_set_request) simp
    then have k3: "keeps live a ?c (nabto_coap_client_request_send_again a (set_request a (\<lambda>_. r') ?c))"
      using keeps_send_again keeps_trans by blast
    have "keeps live a ?c c'"
      using h True ar adv k1 k2 k3 keeps_drop_with_error [of a ?c s c']
      by (auto simp: handle_block1_def Let_def split: if_splits client_block1_result.splits)
    then show ?thesis using k keeps_trans by blast
  qed
qed

lemma keeps_finish: "keeps live a c (finish_response a message k c)"
proof -
  let ?c = "ack_confirmable message k c"
  have "keeps live a ?c (set_request a (\<lambda>r. r\<lparr>rq_state := REQUEST_DONE_CALLBACK\<rparr>) ?c)"
    by (rule keeps_set_request) (simp add: request_blocks_def)
  then have "keeps live a ?c (finish_response a message k c)"
    using keeps_send_again [of live a ?c] by (simp add: finish_response_def)
  then show ?thesis by (rule keeps_trans [OF keeps_pending(3)])
qed

lemma keeps_handle_response:
  assumes "nabto_coap_client_parse_and_handle_response a message k c = (s, c')"
  shows "keeps live a c c'"
proof -
  obtain s1 c1 where p: "prepare_response a message c = (s1, c1)" by (metis surj_pair)
  obtain s2 c2 where b: "store_body a message k (copy_options a message c1) = (s2, c2)" by (metis surj_pair)
  obtain s3 c3 where h: "handle_block1 a message c2 = (s3, c3)" by (metis surj_pair)
  have 1: "keeps live a c c1" using keeps_prepare [OF p] .
  have 2: "keeps live a c c2" if "s1 = None"
  proof -
    have "response_ready a message c1" using prepare_ready p that by blast
    then have "keeps live a (copy_options a message c1) c2" by (rule keeps_store_body [OF b copy_options_ready])
    then show ?thesis by (rule keeps_trans [OF keeps_trans [OF 1 keeps_copy_options]])
  qed
  have 3: "keeps live a c c3" if "s1 = None" by (rule keeps_trans [OF 2 [OF that] keeps_handle_block1 [OF h]])
  have 4: "keeps live a c (finish_response a message k c3)" if "s1 = None"
    by (rule keeps_trans [OF 3 [OF that] keeps_finish])
  have "c' = (if s1 \<noteq> None then c1 else if s2 \<noteq> None then c2 else if s3 \<noteq> None then c3
      else finish_response a message k c3)"
    using assms p b h
    by (cases s1; cases s2; cases s3) (simp_all add: nabto_coap_client_parse_and_handle_response_def)
  then show ?thesis using 1 2 3 4 by simp
qed

section \<open>The operations of the client\<close>

lemma client_owns_same:
  assumes "client_owns live F c" "cc_sentinel c' = cc_sentinel c" "cc_requests c' = cc_requests c"
    "cc_allocator c' = cc_allocator c" "cc_notifyEvent c' = cc_notifyEvent c" "live (cc_memory c') = live (cc_memory c)"
    "\<And>a. request_blocks (cc_request c' a) = request_blocks (cc_request c a)"
  shows "client_owns live F c'"
  using assms unfolding client_owns_def owned_def client_blocks_def by simp

lemma client_owns_set_request:
  "client_owns live F c \<Longrightarrow> request_blocks (f (cc_request c a)) = request_blocks (cc_request c a) \<Longrightarrow>
   client_owns live F (set_request a f c)"
  by (erule client_owns_same) auto

lemma client_owns_notify: "client_owns live F c \<Longrightarrow> client_owns live F (client_notify c)"
  by (rule client_owns_same) (simp_all add: client_notify_def client_owns_def)

lemma client_owns_next_message_id:
  "client_owns live F c \<Longrightarrow> client_owns live F (snd (nabto_coap_client_next_message_id c))"
  by (erule client_owns_same) (simp_all add: nabto_coap_client_next_message_id_def)

lemma client_owns_handle_packet:
  assumes "client_owns live F c"
  shows "client_owns live F (snd (nabto_coap_client_handle_packet now packet k c))"
proof -
  have rst: "client_owns live F (client_send_rst m k c)" for m k
    by (rule client_owns_same [OF assms]) (simp_all add: client_send_rst_def)
  have ack: "client_owns live F c \<Longrightarrow> client_owns live F (handle_ack_loop as m k now c)" for as m
    by (induction as) (auto simp: Let_def request_blocks_def intro!: client_owns_set_request)
  have reset: "client_owns live F c \<Longrightarrow> client_owns live F (handle_rst_loop as m k c)" for as m
    by (induction as) (auto simp: Let_def request_blocks_def intro!: client_owns_set_request)
  have resp: "client_owns live F (snd (nabto_coap_client_handle_request_response a message k c))"
    if "nabto_coap_client_find_request message k c = Some a" for a message
  proof -
    have "a \<in> set (cc_requests c)"
      using that unfolding nabto_coap_client_find_request_def by (auto simp: find_Some_iff)
    then show ?thesis
      using rst assms keeps_client_owns [OF keeps_handle_response [of a message k c], OF prod.collapse [symmetric]]
      by (simp add: nabto_coap_client_handle_request_response_def)
  qed
  show ?thesis
    using assms rst ack reset resp
    by (auto simp: nabto_coap_client_handle_packet_def nabto_coap_client_handle_ack_def nabto_coap_client_handle_rst_def
        split: option.split)
qed

lemma client_owns_loop:
  assumes "\<And>r. request_blocks (f r) = request_blocks r"
  shows "client_owns live F c \<Longrightarrow> client_owns live F (fold (\<lambda>a c. if P c a then set_request a f c else c) as c)"
  by (induction as arbitrary: c) (simp_all add: client_owns_set_request assms)

lemma stop_loop_fold: "stop_loop as c = fold (\<lambda>a c. if True then set_request a stop_request c else c) as c"
  by (induction as arbitrary: c) simp_all

lemma remove_connection_loop_fold:
  "remove_connection_loop k as c = fold (\<lambda>a c. if rq_connection (cc_request c a) = k then set_request a stop_request c else c) as c"
  by (induction as arbitrary: c) simp_all

lemma stop_request_blocks: "request_blocks (stop_request r) = request_blocks r"
  by (simp add: stop_request_def request_blocks_def)

lemma timeout_request_blocks: "request_blocks (timeout_request n now r) = request_blocks r"
  by (simp add: timeout_request_def request_blocks_def)

lemma client_owns_timeout: "client_owns live F c \<Longrightarrow> client_owns live F (handle_timeout_loop as now c)"
  by (induction as arbitrary: c) (simp_all add: client_owns_set_request timeout_request_blocks)

lemma client_owns_callback: "client_owns live F c \<Longrightarrow> client_owns live F (snd (handle_callback_loop as c))"
  by (induction as) (auto simp: Let_def request_blocks_def intro!: client_owns_set_request)

lemma client_owns_create_packet:
  assumes "client_owns live F c"
  shows "client_owns live F (snd (snd (nabto_coap_client_create_packet now room c)))"
proof -
  have "client_owns live F (c\<lparr>cc_needSendRst := False\<rparr>)" "client_owns live F (c\<lparr>cc_needSendAck := False\<rparr>)"
    by (rule client_owns_same [OF assms]; simp)+
  moreover have "client_owns live F (snd (nabto_coap_client_request_create_packet a now room c))" for a
    using assms by (auto simp: nabto_coap_client_request_create_packet_def request_sent_def request_blocks_def
        intro!: client_owns_set_request split: option.split)
  ultimately show ?thesis
    using assms by (auto simp: nabto_coap_client_create_packet_def split: option.split prod.split)
      (metis snd_conv)
qed

lemma client_owns_new:
  assumes "client_owns live F c"
  shows "client_owns live F (snd (nabto_coap_client_request_new little method segs h d k c))"
proof -
  obtain p c1 where p: "client_calloc sizeof_client_request c = (p, c1)" by (metis surj_pair)
  have ok: "allocator_ok (cc_allocator c) live" "owned live F (client_blocks c) (cc_memory c)"
    using assms unfolding client_owns_def by auto
  have c1: "cc_sentinel c1 = cc_sentinel c" "cc_requests c1 = cc_requests c" "cc_allocator c1 = cc_allocator c"
      "cc_notifyEvent c1 = cc_notifyEvent c" "cc_request c1 = cc_request c"
    using p by (auto simp: client_calloc_def split: prod.splits)
  note o = calloc_owned [OF p ok(2,1)]
  show ?thesis
  proof (cases p)
    case None
    then have "live (cc_memory c1) = live (cc_memory c)" using o ok(2) unfolding owned_def by simp
    then have "client_owns live F c1" by (intro client_owns_same [OF assms]) (simp_all add: c1)
    then show ?thesis using p None by (simp add: nabto_coap_client_request_new_def)
  next
    case (Some a)
    have "owned live F (a # client_blocks c) (cc_memory c1)" using o Some by simp
    then have "a \<notin> set (cc_requests c)" unfolding owned_def client_blocks_def by auto
    then have e: "map (\<lambda>b. request_blocks (if b = a then r else cc_request c b)) (cc_requests c) =
        map (\<lambda>b. request_blocks (cc_request c b)) (cc_requests c)" for r by auto
    define c' where "c' = snd (nabto_coap_client_request_new little method segs h d k c)"
    have c': "cc_sentinel c' = cc_sentinel c" "cc_requests c' = a # cc_requests c" "cc_memory c' = cc_memory c1"
        "cc_allocator c' = cc_allocator c" "cc_notifyEvent c' = cc_notifyEvent c"
        "\<And>b. request_blocks (cc_request c' b) = request_blocks (if b = a then zero_client_request else cc_request c b)"
      unfolding c'_def using p Some
      by (simp_all add: nabto_coap_client_request_new_def Let_def nabto_coap_client_next_token_def
          nabto_coap_client_next_message_id_def nabto_coap_client_insert_request_into_list_def c1
          zero_client_request_def request_blocks_def body_blocks_def response_blocks_def)
    have "request_blocks zero_client_request = []"
      by (simp add: zero_client_request_def request_blocks_def body_blocks_def response_blocks_def)
    then have "mset (client_blocks c') = mset (a # client_blocks c)"
      unfolding client_blocks_def c' by (simp add: e)
    then have "owned live F (client_blocks c') (cc_memory c1)"
      using \<open>owned live F (a # client_blocks c) (cc_memory c1)\<close> by (rule owned_mset [THEN iffD2])
    then show ?thesis
      using assms unfolding client_owns_def c' c'_def [symmetric] by simp
  qed
qed

lemma client_owns_free:
  assumes "client_owns live F c" "a \<in> set (cc_requests c)"
  shows "client_owns live F (nabto_coap_client_request_free a c)"
proof -
  let ?r = "cc_request c a"
  define c1 where "c1 = (case rq_response ?r of None \<Rightarrow> c | Some response \<Rightarrow> nabto_coap_client_response_free response c)"
  define c2 where "c2 = nabto_coap_client_remove_request_from_list a c1"
  define c3 where "c3 = (if rq_payloadLength (cc_request c2 a) \<noteq> 0 then free_owned (rq_payload (cc_request c2 a)) c2 else c2)"
  have c': "nabto_coap_client_request_free a c = client_free a c3"
    by (simp add: nabto_coap_client_request_free_def c1_def c2_def c3_def Let_def)
  have same: "cc_sentinel c1 = cc_sentinel c" "cc_requests c1 = cc_requests c" "cc_allocator c1 = cc_allocator c"
      "cc_notifyEvent c1 = cc_notifyEvent c" "cc_request c1 = cc_request c"
    unfolding c1_def by (auto simp: nabto_coap_client_response_free_def client_free_def free_owned_def Let_def
        split: option.splits)
  have ok: "allocator_ok (cc_allocator c) live" using assms(1) unfolding client_owns_def by simp
  let ?s = "case cc_sentinel c of None \<Rightarrow> [] | Some s \<Rightarrow> [s]"
  let ?rest = "?s @ remove1 a (cc_requests c) @ concat (map (\<lambda>b. request_blocks (cc_request c b)) (remove1 a (cc_requests c)))"
  have "owned live F (client_blocks c) (cc_memory c)" using assms(1) unfolding client_owns_def by simp
  then have o: "owned live F (response_blocks (rq_response ?r) @ (body_blocks (rq_payload ?r) @ a # ?rest)) (cc_memory c)"
    by (rule owned_mset [THEN iffD1, rotated])
      (use client_blocks_split [OF assms(2)] assms(2) in \<open>simp add: frame_blocks_def request_blocks_def\<close>)
  have o1: "owned live F (body_blocks (rq_payload ?r) @ a # ?rest) (cc_memory c1)"
  proof (cases "rq_response ?r")
    case None
    then show ?thesis using o by (simp add: c1_def response_blocks_def)
  next
    case (Some response)
    then show ?thesis using response_free_owned [OF o [unfolded Some] ok] by (simp add: c1_def)
  qed
  have o3: "owned live F (a # ?rest) (cc_memory c3)"
  proof (cases "rq_payloadLength ?r = 0")
    case True
    then show ?thesis
      using o1 same by (simp add: c3_def c2_def nabto_coap_client_remove_request_from_list_def body_blocks_def)
  next
    case False
    then have "owned live F (owned_blocks (rq_payload ?r) @ a # ?rest) (cc_memory c2)"
      using o1 by (simp add: c2_def nabto_coap_client_remove_request_from_list_def body_blocks_def)
    from free_owned_owned [OF this] show ?thesis
      using False same ok by (simp add: c3_def c2_def nabto_coap_client_remove_request_from_list_def)
  qed
  have s3: "cc_sentinel c3 = cc_sentinel c" "cc_requests c3 = remove1 a (cc_requests c)" "cc_allocator c3 = cc_allocator c"
      "cc_notifyEvent c3 = cc_notifyEvent c" "cc_request c3 = cc_request c"
    unfolding c3_def c2_def using same
    by (auto simp: nabto_coap_client_remove_request_from_list_def client_free_def free_owned_def split: option.splits)
  from owned_free [OF ok o3] show ?thesis
    using assms(1) s3 unfolding c' client_owns_def client_blocks_def
    by (simp add: client_free_def)
qed

lemma client_owns_set_payload:
  assumes "client_owns live F c" "a \<in> set (cc_requests c)"
  shows "client_owns live F (snd (nabto_coap_client_request_set_payload a payload c))"
proof -
  have "keeps live a c (snd (nabto_coap_client_request_set_payload a payload c))"
  proof (cases "0 < rq_payloadLength (cc_request c a) \<or> length payload = 0")
    case True
    then show ?thesis by (auto simp: nabto_coap_client_request_set_payload_def)
  next
    case False
    obtain p c1 where p: "client_calloc (length payload) c = (p, c1)" by (metis surj_pair)
    note f = calloc_frame [OF p]
    show ?thesis
    proof (rule keepsI)
      show "client_frame a (snd (nabto_coap_client_request_set_payload a payload c)) = client_frame a c"
        using False p f by (cases p) (simp_all add: nabto_coap_client_request_set_payload_def)
    next
      fix F
      assume o: "owned live F (request_blocks (cc_request c a)) (cc_memory c)" "allocator_ok (cc_allocator c) live"
      show "owned live F (request_blocks (cc_request (snd (nabto_coap_client_request_set_payload a payload c)) a))
          (cc_memory (snd (nabto_coap_client_request_set_payload a payload c)))"
        using calloc_owned [OF p o] False p f
        by (cases p) (simp_all add: nabto_coap_client_request_set_payload_def request_blocks_def body_blocks_def owned_blocks_def)
    qed
  qed
  then show ?thesis using keeps_client_owns assms by blast
qed

section \<open>Sequences of calls\<close>

text \<open>
  The calls of the application and of the integrator.  A request may be used from the call that
  made it to the call that frees it, which is when it is in the list of the client.
\<close>

inductive client_reach ::
  "bool \<Rightarrow> 'm nn_allocator \<Rightarrow> ('m \<Rightarrow> 'm) \<Rightarrow> 'm \<Rightarrow> nat \<Rightarrow> 'm coap_client \<Rightarrow> bool"
  for little allocator notifyEvent m size_max where
  init: "nabto_coap_client_init allocator notifyEvent m size_max = (COAP_OK, c) \<Longrightarrow>
    client_reach little allocator notifyEvent m size_max c"
| limit: "client_reach little allocator notifyEvent m size_max c \<Longrightarrow>
    client_reach little allocator notifyEvent m size_max (nabto_coap_client_limit_response_size n c)"
| new_request: "client_reach little allocator notifyEvent m size_max c \<Longrightarrow> method \<in> {1, 2, 3, 4} \<Longrightarrow>
    client_reach little allocator notifyEvent m size_max
      (snd (nabto_coap_client_request_new little method segments handler userData k c))"
| set_payload: "client_reach little allocator notifyEvent m size_max c \<Longrightarrow> a \<in> set (cc_requests c) \<Longrightarrow>
    rq_state (cc_request c a) = REQUEST_IDLE \<Longrightarrow>
    client_reach little allocator notifyEvent m size_max (snd (nabto_coap_client_request_set_payload a payload c))"
| configure: "client_reach little allocator notifyEvent m size_max c \<Longrightarrow> a \<in> set (cc_requests c) \<Longrightarrow>
    op \<in> {nabto_coap_client_request_set_content_format a format, nabto_coap_client_request_set_timeout a timeout,
      nabto_coap_client_request_set_nonconfirmable a, nabto_coap_client_request_observe a} \<Longrightarrow>
    client_reach little allocator notifyEvent m size_max (op c)"
| send: "client_reach little allocator notifyEvent m size_max c \<Longrightarrow> a \<in> set (cc_requests c) \<Longrightarrow>
    rq_state (cc_request c a) = REQUEST_IDLE \<Longrightarrow>
    client_reach little allocator notifyEvent m size_max (nabto_coap_client_request_send a c)"
| cancel: "client_reach little allocator notifyEvent m size_max c \<Longrightarrow> a \<in> set (cc_requests c) \<Longrightarrow>
    op \<in> {nabto_coap_client_request_cancel a, nabto_coap_client_request_observe_deregister a,
      nabto_coap_client_request_free a} \<Longrightarrow> client_reach little allocator notifyEvent m size_max (op c)"
| integrator: "client_reach little allocator notifyEvent m size_max c \<Longrightarrow>
    op \<in> {nabto_coap_client_stop, nabto_coap_client_remove_connection k, nabto_coap_client_handle_timeout now} \<Longrightarrow>
    client_reach little allocator notifyEvent m size_max (op c)"
| callback: "client_reach little allocator notifyEvent m size_max c \<Longrightarrow>
    client_reach little allocator notifyEvent m size_max (snd (nabto_coap_client_handle_callback c))"
| packet: "client_reach little allocator notifyEvent m size_max c \<Longrightarrow>
    client_reach little allocator notifyEvent m size_max (snd (nabto_coap_client_handle_packet now packet k c))"
| create: "client_reach little allocator notifyEvent m size_max c \<Longrightarrow>
    client_reach little allocator notifyEvent m size_max (snd (snd (nabto_coap_client_create_packet now room c)))"

lemma client_owns_setup:
  assumes "client_owns live F c"
    "op \<in> {nabto_coap_client_request_set_content_format a format, nabto_coap_client_request_set_timeout a timeout,
      nabto_coap_client_request_set_nonconfirmable a, nabto_coap_client_request_observe a}"
  shows "client_owns live F (op c)"
  using assms
  by (auto simp: nabto_coap_client_request_set_content_format_def nabto_coap_client_request_set_timeout_def Let_def
      nabto_coap_client_request_set_nonconfirmable_def nabto_coap_client_request_observe_def request_blocks_def
      intro!: client_owns_set_request)

lemma client_owns_cancel:
  assumes "client_owns live F c"
  shows "client_owns live F (nabto_coap_client_request_cancel a c)"
    "client_owns live F (nabto_coap_client_request_observe_deregister a c)"
    "client_owns live F (nabto_coap_client_request_send a c)"
proof -
  have s: "client_owns live F (set_request a f d)" if "client_owns live F d" "\<And>r. request_blocks (f r) = request_blocks r" for f d
    using client_owns_set_request [OF that(1)] that(2) by blast
  show "client_owns live F (nabto_coap_client_request_cancel a c)"
    using assms by (auto simp: nabto_coap_client_request_cancel_def request_blocks_def intro!: client_owns_notify s)
  have "client_owns live F (set_request a (\<lambda>r. r\<lparr>rq_observeDeregister := True\<rparr>) c)"
    by (rule s [OF assms]) (simp add: request_blocks_def)
  from this client_owns_next_message_id [OF this]
  show "client_owns live F (nabto_coap_client_request_observe_deregister a c)"
    by (auto simp: nabto_coap_client_request_observe_deregister_def nabto_coap_client_next_message_id_def
        Let_def request_blocks_def intro!: client_owns_notify s)
  show "client_owns live F (nabto_coap_client_request_send a c)"
    unfolding nabto_coap_client_request_send_def by (intro client_owns_notify s [OF assms]) (simp add: request_blocks_def)
qed

lemma client_owns_init:
  assumes "nabto_coap_client_init allocator notifyEvent m size_max = (COAP_OK, c)" "allocator_ok allocator live"
    "\<forall>m. live (notifyEvent m) = live m"
  shows "client_owns live (live m) c"
proof -
  obtain p m' where p: "nn_allocator_calloc allocator 1 sizeof_client_request m = (p, m')" by (metis surj_pair)
  have "owned live (live m) [] m" by (simp add: owned_def)
  from owned_calloc [OF assms(2) this p] show ?thesis
    using assms p unfolding client_owns_def client_blocks_def
    by (auto simp: nabto_coap_client_init_def Let_def split: if_splits)
qed

lemma client_reach_owns:
  assumes "client_reach little allocator notifyEvent m size_max c" "allocator_ok allocator live"
    "\<forall>m. live (notifyEvent m) = live m"
  shows "client_owns live (live m) c"
  using assms(1)
proof (induction rule: client_reach.induct)
  case (init c)
  then show ?case by (rule client_owns_init [OF _ assms(2,3)])
next
  case (limit c n)
  then show ?case
    by (rule_tac client_owns_same) (simp_all add: nabto_coap_client_limit_response_size_def)
next
  case (cancel c a op)
  then show ?case using client_owns_cancel client_owns_free by auto
next
  case (integrator c op k now)
  have "client_owns live (live m) (stop_loop (cc_requests c) c)"
    "client_owns live (live m) (remove_connection_loop k (cc_requests c) c)"
    unfolding stop_loop_fold remove_connection_loop_fold
    by (rule client_owns_loop [OF stop_request_blocks integrator.IH])+
  then show ?case
    using integrator client_owns_notify client_owns_timeout
    by (auto simp: nabto_coap_client_stop_def nabto_coap_client_remove_connection_def nabto_coap_client_handle_timeout_def)
next
  case (callback c)
  then show ?case by (simp add: nabto_coap_client_handle_callback_def client_owns_callback)
qed (simp_all add: client_owns_new client_owns_set_payload client_owns_setup client_owns_cancel
    client_owns_handle_packet client_owns_create_packet)

text \<open>C9: Client memory.  Whatever calls are made and whatever packets arrive, the sentinel, the requests, their
  bodies and the responses of a client are different blocks, they and the blocks that were in use before
  are the blocks in use: nothing is freed twice or used after it was freed, and nothing leaks.  When
  the requests have been freed, destroying the client gives everything back.\<close>

theorem client_memory_safe:
  assumes "client_reach little allocator notifyEvent m size_max c" "allocator_ok allocator live"
    "\<forall>m. live (notifyEvent m) = live m"
  shows "distinct (client_blocks c) \<and> set (client_blocks c) \<inter> live m = {} \<and>
    live (cc_memory c) = live m \<union> set (client_blocks c) \<and>
    (cc_requests c = [] \<longrightarrow> live (cc_memory (nabto_coap_client_destroy c)) = live m)"
proof -
  have o: "client_owns live (live m) c" by (rule client_reach_owns [OF assms])
  moreover have "live (cc_memory (nabto_coap_client_destroy c)) = live m" if "cc_requests c = []"
    using o that unfolding client_owns_def owned_def client_blocks_def nabto_coap_client_destroy_def
    by (cases "cc_sentinel c") auto
  ultimately show ?thesis unfolding client_owns_def owned_def by blast
qed

text \<open>A client with one request, in a memory where the block 1 belongs to someone else.\<close>

definition sample_coap_client :: "counting coap_client" where
  "sample_coap_client = snd (nabto_coap_client_init counting_allocator (\<lambda>m. m) (10, [1]) 100000)"

definition sample_requested :: "counting coap_client" where
  "sample_requested = snd (nabto_coap_client_request_new True 1 [[97]] 0 0 5 sample_coap_client)"

lemma sample_coap_client_reach:
  "client_reach True counting_allocator (\<lambda>m. m) (10, [1]) 100000 sample_coap_client"
  "client_reach True counting_allocator (\<lambda>m. m) (10, [1]) 100000 sample_requested"
proof -
  have "nabto_coap_client_init counting_allocator (\<lambda>m. m) (10, [1]) 100000 = (COAP_OK, sample_coap_client)"
    by (simp add: sample_coap_client_def nabto_coap_client_init_def)
  then show 1: "client_reach True counting_allocator (\<lambda>m. m) (10, [1]) 100000 sample_coap_client" by (rule client_reach.init)
  show "client_reach True counting_allocator (\<lambda>m. m) (10, [1]) 100000 sample_requested"
    unfolding sample_requested_def by (rule client_reach.new_request [OF 1]) simp
qed

theorem client_memory_safe_witness:
  "distinct (client_blocks sample_requested) \<and> client_blocks sample_requested = [2, 4] \<and>
   counting_live (cc_memory sample_requested) = {1, 2, 4}"
proof -
  have b: "client_blocks sample_requested = [2, 4]"
    by (simp add: sample_requested_def sample_coap_client_def nabto_coap_client_init_def nabto_coap_client_request_new_def
        client_calloc_def Let_def nabto_coap_client_next_token_def nabto_coap_client_next_message_id_def
        nabto_coap_client_insert_request_into_list_def client_blocks_def request_blocks_def body_blocks_def
        response_blocks_def set_request_def zero_client_request_def)
  show ?thesis
    using client_memory_safe [OF sample_coap_client_reach(2) counting_allocator_ok] b
    by (simp add: counting_live_def insert_commute)
qed

end
