(* ===== verification/Coap_Client_Blocks.thy ===== *)
theory Coap_Client_Blocks
  imports Coap_Client_Memory
begin

text \<open>
  Block-wise transfers of the CoAP client: the chunks of a request body that are acknowledged, the
  blocks of a response body that are put together, and the packets requests are sent in.
\<close>

section \<open>The body of a request\<close>

text \<open>The progress of a body: whole blocks, or all of it.\<close>

definition block1_ok :: "client_request \<Rightarrow> bool" where
  "block1_ok r \<longleftrightarrow> unat (rq_block1Size r) \<le> 5 \<and> rq_block1Offset r \<le> rq_payloadLength r \<and>
     (rq_block1Offset r = rq_payloadLength r \<or> nabto_coap_block_size_from_szx (rq_block1Size r) dvd rq_block1Offset r)"

definition block1_chunk :: "client_request \<Rightarrow> bytes" where
  "block1_chunk r = take (nabto_coap_block_size_from_szx (rq_block1Size r)) (drop (rq_block1Offset r) (owned_data (rq_payload r)))"

lemma and_7: "unat ((v::u32) AND 7) = unat v mod 8"
proof -
  have "v AND 7 = take_bit 3 v" by (simp add: take_bit_eq_mask mask_eq_exp_minus_1)
  then show ?thesis by (simp only: unsigned_take_bit_eq) (simp add: take_bit_eq_mod)
qed

lemma block_size_value: "unat szx \<le> 7 \<Longrightarrow> nabto_coap_block_size_from_szx szx = 2 ^ (unat szx + 4)"
  by (simp add: nabto_coap_block_size_from_szx_def and_7 push_bit_eq_mult power_add)

lemma adopt_size:
  assumes "nabto_coap_client_block1_adopt_size r szx = (b, r')" "block1_ok r"
  shows "block1_ok r' \<and> rq_block1Offset r' = rq_block1Offset r \<and> rq_payload r' = rq_payload r \<and>
    (b \<longrightarrow> unat (rq_block1Size r') < unat (rq_block1Size r))"
proof (cases b)
  case False
  then show ?thesis using assms by (auto simp: nabto_coap_client_block1_adopt_size_def split: if_splits)
next
  case True
  then have r': "r' = r\<lparr>rq_block1Size := szx\<rparr>" "unat szx < unat (rq_block1Size r)"
    using assms(1) by (auto simp: nabto_coap_client_block1_adopt_size_def word_le_nat_alt split: if_splits)
  then have "nabto_coap_block_size_from_szx szx dvd nabto_coap_block_size_from_szx (rq_block1Size r)"
    using assms(2) by (simp add: block_size_value block1_ok_def le_imp_power_dvd)
  then show ?thesis
    using assms(2) r' unfolding block1_ok_def by (auto intro: dvd_trans)
qed

lemma block1_advance:
  assumes "nabto_coap_client_block1_advance r b = (res, r')" "block1_ok r"
  shows "block1_ok r' \<and> rq_payload r' = rq_payload r \<and>
    (res \<noteq> BLOCK1_ADVANCED \<longrightarrow> r' = r) \<and>
    (res = BLOCK1_ADVANCED \<longrightarrow>
      take (rq_block1Offset r') (owned_data (rq_payload r)) =
        take (rq_block1Offset r) (owned_data (rq_payload r)) @ block1_chunk r \<and>
      (rq_block1Offset r < rq_payloadLength r \<longrightarrow> rq_block1Offset r < rq_block1Offset r'))"
proof (cases "res = BLOCK1_ADVANCED")
  case False
  then have "r' = r" using assms(1) by (auto simp: nabto_coap_client_block1_advance_def Let_def split: if_splits)
  then show ?thesis using assms(2) False by simp
next
  case True
  let ?bs = "nabto_coap_block_size_from_szx (rq_block1Size r)"
  let ?rest = "rq_payloadLength r - rq_block1Offset r"
  let ?r = "r\<lparr>rq_block1Offset := rq_block1Offset r + min ?bs ?rest\<rparr>"
  have bs: "0 < ?bs" using assms(2) by (simp add: block_size_value block1_ok_def)
  have a: "nabto_coap_client_block1_adopt_size ?r (NABTO_COAP_BLOCK_SIZE b) = (fst (nabto_coap_client_block1_adopt_size ?r (NABTO_COAP_BLOCK_SIZE b)), r')"
    using assms(1) True by (auto simp: nabto_coap_client_block1_advance_def Let_def min_def split: if_splits)
  have ok: "block1_ok ?r"
    using assms(2) unfolding block1_ok_def by (auto simp: min_def dvd_add)
  have r': "block1_ok r'" "rq_block1Offset r' = rq_block1Offset ?r" "rq_payload r' = rq_payload r"
    using adopt_size [OF a ok] by auto
  have "take (rq_block1Offset ?r) (owned_data (rq_payload r)) =
      take (rq_block1Offset r) (owned_data (rq_payload r)) @ block1_chunk r"
    by (auto simp: block1_chunk_def take_add owned_length_data min_def)
  then show ?thesis using True r' bs by (simp add: min_def)
qed

text \<open>The chunk a Block1 option names: the number counts in the size the chunk was sent with.\<close>

definition named_chunk :: "client_request \<Rightarrow> u32 \<Rightarrow> bytes" where
  "named_chunk r b = take (nabto_coap_block_size_from_szx (rq_block1Size r))
     (drop (unat (NABTO_COAP_BLOCK_NUM b) * nabto_coap_block_size_from_szx (rq_block1Size r)) (owned_data (rq_payload r)))"

text \<open>The number of the block in flight is within the 20 bits of the option.\<close>

definition block1_fits :: "client_request \<Rightarrow> bool" where
  "block1_fits r \<longleftrightarrow> rq_payloadLength r div nabto_coap_block_size_from_szx (rq_block1Size r) \<le> NABTO_COAP_BLOCK_NUM_MAX"

text \<open>
  The chunks that are acknowledged by responses with these Block1 options, one response after the other: the
  chunk an option names is taken as delivered when the client goes on for it while a part of the body is
  in flight.
\<close>

fun acked_chunks :: "u32 list \<Rightarrow> client_request \<Rightarrow> bytes list \<times> client_request" where
  "acked_chunks [] r = ([], r)"
| "acked_chunks (b # bs) r =
     (case nabto_coap_client_block1_advance r b of
        (BLOCK1_ADVANCED, r') \<Rightarrow>
          (let (chunks, r'') = acked_chunks bs r'
           in (if rq_block1Offset r < rq_payloadLength r then named_chunk r b # chunks else chunks, r''))
      | (_, r') \<Rightarrow> acked_chunks bs r')"

lemma block1_number:
  assumes "block1_ok r" "block1_fits r"
  shows "unat (of_nat (rq_block1Offset r div nabto_coap_block_size_from_szx (rq_block1Size r)) :: u32) =
    rq_block1Offset r div nabto_coap_block_size_from_szx (rq_block1Size r)"
proof -
  have "rq_block1Offset r div nabto_coap_block_size_from_szx (rq_block1Size r) \<le> NABTO_COAP_BLOCK_NUM_MAX"
    using assms div_le_mono [of "rq_block1Offset r" "rq_payloadLength r" "nabto_coap_block_size_from_szx (rq_block1Size r)"]
    by (simp add: block1_ok_def block1_fits_def)
  then have "rq_block1Offset r div nabto_coap_block_size_from_szx (rq_block1Size r) < 2 ^ LENGTH(32)"
    by (simp add: NABTO_COAP_BLOCK_NUM_MAX_def)
  then show ?thesis by (simp only: unat_of_nat mod_less)
qed

text \<open>What the client does with an acknowledgement depends only on the number it carries.\<close>

lemma block1_advance_result:
  assumes "block1_ok r" "block1_fits r"
  shows "fst (nabto_coap_client_block1_advance r b) =
    (let num = unat (NABTO_COAP_BLOCK_NUM b);
         current = rq_block1Offset r div nabto_coap_block_size_from_szx (rq_block1Size r)
     in if num < current then BLOCK1_STALE else if num = current then BLOCK1_ADVANCED else BLOCK1_BAD)"
  by (auto simp: nabto_coap_client_block1_advance_def Let_def word_less_nat_alt block1_number [OF assms])

lemma named_chunk_in_flight:
  assumes "nabto_coap_client_block1_advance r b = (BLOCK1_ADVANCED, r')" "block1_ok r" "block1_fits r"
    "rq_block1Offset r < rq_payloadLength r"
  shows "named_chunk r b = block1_chunk r"
proof -
  have "unat (NABTO_COAP_BLOCK_NUM b) = rq_block1Offset r div nabto_coap_block_size_from_szx (rq_block1Size r)"
    using block1_advance_result [OF assms(2,3), of b] assms(1) by (auto simp: Let_def split: if_splits)
  moreover have "nabto_coap_block_size_from_szx (rq_block1Size r) dvd rq_block1Offset r"
    using assms(2,4) by (auto simp: block1_ok_def)
  ultimately show ?thesis by (simp add: named_chunk_def block1_chunk_def)
qed

lemma block1_fits_advance:
  assumes "nabto_coap_client_block1_advance r b = (res, r')" "block1_ok r" "block1_fits r"
  shows "block1_fits r'"
proof -
  have "block1_fits (snd (nabto_coap_client_block1_adopt_size q szx))"
    if "block1_fits q" "unat (rq_block1Size q) \<le> 5" for q szx
    using that
    by (auto simp: nabto_coap_client_block1_adopt_size_def block1_fits_def not_le not_less word_less_nat_alt
        block_size_value drop_bit_eq_div)
  from this [of "r\<lparr>rq_block1Offset := x\<rparr>" for x]
  show ?thesis using assms
    by (auto simp: nabto_coap_client_block1_advance_def Let_def block1_ok_def block1_fits_def split: if_splits)
qed

lemma acked_chunks_delivered:
  "acked_chunks bs r = (chunks, r') \<Longrightarrow> block1_ok r \<Longrightarrow> block1_fits r \<Longrightarrow>
   block1_ok r' \<and> block1_fits r' \<and> rq_payload r' = rq_payload r \<and>
   take (rq_block1Offset r') (owned_data (rq_payload r)) =
     take (rq_block1Offset r) (owned_data (rq_payload r)) @ concat chunks"
proof (induction bs arbitrary: r chunks)
  case (Cons b bs)
  obtain res r1 where a: "nabto_coap_client_block1_advance r b = (res, r1)" by (metis surj_pair)
  note s = block1_advance [OF a Cons.prems(2)]
  note f = block1_fits_advance [OF a Cons.prems(2,3)]
  show ?case
  proof (cases "res = BLOCK1_ADVANCED")
    case True
    obtain cs where c: "acked_chunks bs r1 = (cs, r')"
      "chunks = (if rq_block1Offset r < rq_payloadLength r then block1_chunk r # cs else cs)"
      using Cons.prems a True named_chunk_in_flight [of r b r1] by (auto split: prod.splits)
    have "\<not> rq_block1Offset r < rq_payloadLength r \<Longrightarrow> block1_chunk r = []"
      by (simp add: block1_chunk_def owned_length_data)
    then show ?thesis using Cons.IH [OF c(1)] c(2) s f True by auto
  next
    case False
    then have "acked_chunks (b # bs) r = acked_chunks bs r" using a s by (cases res) auto
    then show ?thesis using Cons.IH Cons.prems by metis
  qed
qed simp

text \<open>C19: Block1.  Whatever Block1 options the responses carry, repeated, out of order or asking for smaller
  blocks, the chunks they name when the client takes them as acknowledgements of what is in flight are, one
  after the other, the body up to the offset, and the whole body when the offset is at its end: the
  server has acknowledged every byte once and in order.  An option with a smaller number than that
  of the chunk in flight is a repetition, one with a larger number an error, and the right number always
  lets the client go on.  The body has to be short enough for its block numbers to fit into the 20 bits of
  the option.\<close>

theorem block1_delivers_body:
  assumes "acked_chunks bs r = (chunks, r')" "block1_ok r" "rq_block1Offset r = 0"
    "rq_payloadLength r div nabto_coap_block_size_from_szx (rq_block1Size r) \<le> NABTO_COAP_BLOCK_NUM_MAX"
  shows "concat chunks = take (rq_block1Offset r') (owned_data (rq_payload r)) \<and> block1_ok r' \<and>
    (rq_block1Offset r' = rq_payloadLength r' \<longrightarrow> concat chunks = owned_data (rq_payload r)) \<and>
    (\<forall>b. fst (nabto_coap_client_block1_advance r' b) =
      (let num = unat (NABTO_COAP_BLOCK_NUM b);
           current = rq_block1Offset r' div nabto_coap_block_size_from_szx (rq_block1Size r')
       in if num < current then BLOCK1_STALE else if num = current then BLOCK1_ADVANCED else BLOCK1_BAD))"
proof -
  have "block1_fits r" using assms(4) by (simp add: block1_fits_def)
  note d = acked_chunks_delivered [OF assms(1,2) this]
  then show ?thesis using assms(3) block1_advance_result [of r'] by (auto simp: owned_length_data)
qed

section \<open>The body in every state of a client\<close>

definition block1_part :: "client_request \<Rightarrow> u32 \<times> nat \<times> owned_bytes" where
  "block1_part r = (rq_block1Size r, rq_block1Offset r, rq_payload r)"

definition client_block1_ok :: "'m coap_client \<Rightarrow> bool" where
  "client_block1_ok c \<longleftrightarrow> (\<forall>a \<in> set (cc_requests c). block1_ok (cc_request c a))"

lemma block1_ok_part: "block1_part r' = block1_part r \<Longrightarrow> block1_ok r' = block1_ok r"
  by (simp add: block1_part_def block1_ok_def)

lemma client_block1_same:
  assumes "client_block1_ok c" "set (cc_requests c') \<subseteq> set (cc_requests c)"
    "\<And>a. block1_part (cc_request c' a) = block1_part (cc_request c a)"
  shows "client_block1_ok c'"
  using assms block1_ok_part unfolding client_block1_ok_def by blast

lemma client_block1_set:
  "client_block1_ok c \<Longrightarrow> (a \<in> set (cc_requests c) \<Longrightarrow> block1_ok (cc_request c a) \<Longrightarrow> block1_ok (f (cc_request c a))) \<Longrightarrow>
   client_block1_ok (set_request a f c)"
  by (simp add: client_block1_ok_def)

lemma block1_part_set [simp]:
  "block1_part (f (cc_request c a)) = block1_part (cc_request c a) \<Longrightarrow>
   block1_part (cc_request (set_request a f c) b) = block1_part (cc_request c b)"
  by simp

lemma set_response_simps [simp]:
  "cc_requests (set_response a f c) = cc_requests c" "block1_part (cc_request (set_response a f c) b) = block1_part (cc_request c b)"
  by (simp_all add: set_response_def block1_part_def)

lemma memory_requests [simp]:
  "cc_requests (client_free p c) = cc_requests c" "cc_requests (free_owned pl c) = cc_requests c"
  "cc_requests (client_notify c) = cc_requests c" "cc_request (client_notify c) = cc_request c"
  by (simp_all add: client_free_def free_owned_def client_notify_def split: option.split)

lemma calloc_requests:
  "client_calloc n c = (p, c') \<Longrightarrow> cc_requests c' = cc_requests c \<and> cc_request c' = cc_request c"
  by (auto simp: client_calloc_def split: prod.splits)

text \<open>Everything before the Block1 option leaves the progress of the bodies alone.\<close>

definition same_block1 :: "'m coap_client \<Rightarrow> 'm coap_client \<Rightarrow> bool" where
  "same_block1 c c' \<longleftrightarrow> cc_requests c' = cc_requests c \<and> (\<forall>a. block1_part (cc_request c' a) = block1_part (cc_request c a))"

lemma same_block1_refl [simp]: "same_block1 c c"
  by (simp add: same_block1_def)

lemma same_block1_trans: "same_block1 c c' \<Longrightarrow> same_block1 c' c'' \<Longrightarrow> same_block1 c c''"
  by (simp add: same_block1_def)

lemma same_block1_ok: "same_block1 c c' \<Longrightarrow> client_block1_ok c' = client_block1_ok c"
  using block1_ok_part unfolding same_block1_def client_block1_ok_def by metis

lemma same_block1_ops:
  "same_block1 c (ack_confirmable message k c)" "same_block1 c (nabto_coap_client_response_free response c)"
  "same_block1 c (nabto_coap_client_request_drop_response a c)" "same_block1 c (nabto_coap_client_request_send_again a c)"
  "same_block1 c (copy_options a message c)" "same_block1 c (free_owned pl c)" "same_block1 c (set_response a f c)"
  by (auto simp: same_block1_def ack_confirmable_def nabto_coap_client_send_ack_def nabto_coap_client_response_free_def
      nabto_coap_client_request_drop_response_def nabto_coap_client_request_send_again_def Let_def
      nabto_coap_client_next_message_id_def copy_options_def block1_part_def set_response_def split: option.split)

lemma same_block1_calloc: "client_calloc n c = (p, c') \<Longrightarrow> same_block1 c c'"
  by (auto simp: client_calloc_def same_block1_def split: prod.splits)

lemma same_block1_prepare: "prepare_response a message c = (s, c') \<Longrightarrow> same_block1 c c'"
  by (auto simp: prepare_response_def same_block1_def Let_def block1_part_def set_response_def
      dest: calloc_requests split: option.splits prod.splits if_splits)

lemma same_block1_added: "same_block1 c (block2_added a message pl q c)"
  by (auto simp: same_block1_def block2_added_def set_response_def block1_part_def)

lemma same_block1_drop: "drop_with_error a c = (s, c') \<Longrightarrow> same_block1 c c'"
  by (auto simp: drop_with_error_def same_block1_ops)

lemma same_block1_store_block2: "store_block2 a message pl c = (s, c') \<Longrightarrow> same_block1 c c'"
  by (rule store_block2_cases [of a message pl c])
    (metis same_block1_drop, metis same_block1_drop same_block1_calloc same_block1_trans,
     metis same_block1_added same_block1_calloc same_block1_trans snd_conv)

lemma same_block1_store_whole: "store_whole a message c = (s, c') \<Longrightarrow> same_block1 c c'"
  by (auto simp: store_whole_def split: if_splits prod.splits option.splits)
    (metis same_block1_drop same_block1_calloc same_block1_trans same_block1_ops(7),
     metis same_block1_calloc same_block1_trans same_block1_ops(7))

lemma same_block1_store_body: "store_body a message k c = (s, c') \<Longrightarrow> same_block1 c c'"
  using same_block1_drop [of a c s c'] same_block1_store_whole [of a message c s c'] same_block1_ops(1) [of c message k]
    same_block1_store_block2 [of a message "rp_payload (the (rq_response (cc_request c a)))" c s c']
  by (auto simp: store_body_def Let_def split: if_splits)

lemma block1_handle_block1:
  assumes "handle_block1 a message c = (s, c')" "client_block1_ok c" "a \<in> set (cc_requests c)"
  shows "client_block1_ok c'"
proof (cases "im_hasBlock1 message")
  case False
  then show ?thesis using assms by (simp add: handle_block1_def)
next
  case True
  let ?r = "cc_request c a"
  have ok: "block1_ok ?r" using assms(2,3) by (simp add: client_block1_ok_def)
  obtain adopted r where ar: "(if im_code message = REQUEST_ENTITY_TOO_LARGE \<and> \<not> rq_block1Restarted ?r
      then nabto_coap_client_block1_adopt_size ?r (NABTO_COAP_BLOCK_SIZE (im_block1 message)) else (False, ?r)) =
      (adopted, r)" by (metis surj_pair)
  have r: "block1_ok r" using ar adopt_size [OF _ ok] ok by (auto split: if_splits)
  let ?c = "set_request a (\<lambda>_. r) c"
  have c: "client_block1_ok ?c" using assms(2) r by (simp add: client_block1_set)
  obtain res r' where adv: "nabto_coap_client_block1_advance r (im_block1 message) = (res, r')" by (metis surj_pair)
  have c2: "client_block1_ok (set_request a (\<lambda>_. r') ?c)"
    using block1_advance [OF adv r] c by (simp add: client_block1_set)
  have "block1_ok (r\<lparr>rq_block1Restarted := True, rq_block1Offset := 0\<rparr>)" using r by (simp add: block1_ok_def)
  then have c1: "client_block1_ok (set_request a (\<lambda>r. r\<lparr>rq_block1Restarted := True, rq_block1Offset := 0\<rparr>) ?c)"
    by (intro client_block1_set [OF c]) simp
  show ?thesis
    using assms(1) True ar adv c c1 c2 same_block1_ok [OF same_block1_ops(4)] same_block1_ok [OF same_block1_drop [of a ?c s c']]
    by (auto simp: handle_block1_def Let_def split: if_splits client_block1_result.splits)
qed

lemma same_block1_finish: "same_block1 c (finish_response a message k c)"
proof -
  have "same_block1 d (set_request a (\<lambda>r. r\<lparr>rq_state := REQUEST_DONE_CALLBACK\<rparr>) d)" for d :: "'a coap_client"
    by (simp add: same_block1_def block1_part_def)
  then show ?thesis
    using same_block1_ops(1,4) same_block1_trans unfolding finish_response_def by (metis (full_types))
qed

lemma block1_handle_response:
  assumes "client_block1_ok c" "a \<in> set (cc_requests c)"
  shows "client_block1_ok (snd (nabto_coap_client_parse_and_handle_response a message k c))"
proof -
  obtain s1 c1 where p: "prepare_response a message c = (s1, c1)" by (metis surj_pair)
  obtain s2 c2 where b: "store_body a message k (copy_options a message c1) = (s2, c2)" by (metis surj_pair)
  obtain s3 c3 where h: "handle_block1 a message c2 = (s3, c3)" by (metis surj_pair)
  have 1: "same_block1 c c1" by (rule same_block1_prepare [OF p])
  have 2: "same_block1 c c2"
    by (rule same_block1_trans [OF same_block1_trans [OF 1 same_block1_ops(5)] same_block1_store_body [OF b]])
  then have "client_block1_ok c2" "a \<in> set (cc_requests c2)"
    using same_block1_ok assms unfolding same_block1_def by auto
  then have 3: "client_block1_ok c3" by (rule block1_handle_block1 [OF h])
  have 4: "client_block1_ok (finish_response a message k c3)" using 3 same_block1_ok [OF same_block1_finish] by blast
  have "snd (nabto_coap_client_parse_and_handle_response a message k c) =
      (if s1 \<noteq> None then c1 else if s2 \<noteq> None then c2 else if s3 \<noteq> None then c3 else finish_response a message k c3)"
    using p b h by (cases s1; cases s2; cases s3) (simp_all add: nabto_coap_client_parse_and_handle_response_def)
  then show ?thesis using 1 2 3 4 same_block1_ok assms(1) by auto
qed

lemma same_block1_loops:
  "same_block1 c (handle_ack_loop as m k now c)" "same_block1 c (handle_rst_loop as m k c)"
  "same_block1 c (snd (handle_callback_loop as c))"
  by (induction as, auto simp: Let_def same_block1_def block1_part_def)+

lemma same_block1_fold:
  assumes "\<And>r. block1_part (f r) = block1_part r"
  shows "same_block1 c (fold (\<lambda>a c. if P c a then set_request a f c else c) as c)"
  using assms by (induction as arbitrary: c) (auto simp: same_block1_def)

lemma same_block1_timeout: "same_block1 c (handle_timeout_loop as now c)"
proof (induction as arbitrary: c)
  case (Cons a as)
  have "same_block1 c (set_request a (timeout_request (cs_maxRetransmits (cc_settings c)) now) c)"
    by (auto simp: same_block1_def timeout_request_def block1_part_def)
  then show ?case using Cons.IH same_block1_trans by fastforce
qed simp

lemma same_block1_packet:
  assumes "client_block1_ok c"
  shows "client_block1_ok (snd (nabto_coap_client_handle_packet now packet k c))"
proof -
  have rst: "client_block1_ok (client_send_rst m k c)" for m k
    using assms by (simp add: client_send_rst_def client_block1_ok_def)
  have "client_block1_ok (snd (nabto_coap_client_handle_request_response a message k c))"
    if "nabto_coap_client_find_request message k c = Some a" for a message
  proof -
    have "a \<in> set (cc_requests c)"
      using that unfolding nabto_coap_client_find_request_def by (auto simp: find_Some_iff)
    then show ?thesis
      using rst assms block1_handle_response by (auto simp: nabto_coap_client_handle_request_response_def)
  qed
  then show ?thesis
    using assms rst
    by (auto simp: nabto_coap_client_handle_packet_def nabto_coap_client_handle_ack_def nabto_coap_client_handle_rst_def
        same_block1_ok [OF same_block1_loops(1)] same_block1_ok [OF same_block1_loops(2)] split: option.split)
qed

lemma client_reach_block1:
  "client_reach little allocator notifyEvent m size_max c \<Longrightarrow> client_block1_ok c"
proof (induction rule: client_reach.induct)
  case (init c)
  then show ?case by (auto simp: nabto_coap_client_init_def client_block1_ok_def Let_def split: prod.splits)
next
  case (limit c n)
  then show ?case by (simp add: nabto_coap_client_limit_response_size_def client_block1_ok_def)
next
  case (new_request c code path handler userData k)
  obtain p c1 where p: "client_calloc sizeof_client_request c = (p, c1)" by (metis surj_pair)
  show ?case
    using new_request.IH p calloc_requests [OF p]
    by (cases p) (simp_all add: nabto_coap_client_request_new_def client_block1_ok_def Let_def
        nabto_coap_client_next_token_def nabto_coap_client_next_message_id_def block1_ok_def
        nabto_coap_client_insert_request_into_list_def zero_client_request_def)
next
  case (set_payload c a payload)
  obtain p c1 where p: "client_calloc (length payload) c = (p, c1)" by (metis surj_pair)
  have "rq_payloadLength (cc_request c a) = 0 \<longrightarrow> rq_block1Offset (cc_request c a) = 0"
    using set_payload.IH set_payload.hyps(2) by (auto simp: client_block1_ok_def block1_ok_def)
  then show ?case
    using set_payload.IH p calloc_requests [OF p]
    by (cases p) (simp_all add: nabto_coap_client_request_set_payload_def client_block1_ok_def block1_ok_def)
next
  case (configure c a op format timeout)
  then have "same_block1 c (op c)"
    by (auto simp: same_block1_def block1_part_def nabto_coap_client_request_set_content_format_def Let_def
        nabto_coap_client_request_set_timeout_def nabto_coap_client_request_set_nonconfirmable_def
        nabto_coap_client_request_observe_def)
  then show ?case using configure.IH same_block1_ok by blast
next
  case (send c a)
  have "same_block1 c (nabto_coap_client_request_send a c)"
    by (simp add: nabto_coap_client_request_send_def same_block1_def block1_part_def)
  then show ?case using send.IH same_block1_ok by blast
next
  case (cancel c a op)
  have "same_block1 c (nabto_coap_client_request_cancel a c)" "same_block1 c (nabto_coap_client_request_observe_deregister a c)"
    by (auto simp: same_block1_def block1_part_def nabto_coap_client_request_cancel_def Let_def
        nabto_coap_client_request_observe_deregister_def nabto_coap_client_next_message_id_def)
  moreover have "client_block1_ok (nabto_coap_client_request_free a c)"
    using cancel.IH set_remove1_subset [of a "cc_requests c"]
    by (auto simp: nabto_coap_client_request_free_def nabto_coap_client_remove_request_from_list_def Let_def
        client_block1_ok_def nabto_coap_client_response_free_def split: option.split)
  ultimately show ?case using cancel same_block1_ok by blast
next
  case (integrator c op k now)
  have "block1_part (stop_request r) = block1_part r" for r by (simp add: stop_request_def block1_part_def)
  note f = same_block1_fold [OF this]
  have n: "same_block1 c (client_notify d)" if "same_block1 c d" for d
    using that by (simp add: same_block1_def)
  have "same_block1 c (nabto_coap_client_stop c)"
    unfolding nabto_coap_client_stop_def stop_loop_fold by (rule f)
  moreover have "same_block1 c (nabto_coap_client_remove_connection k c)"
    unfolding nabto_coap_client_remove_connection_def remove_connection_loop_fold by (rule n, rule f)
  ultimately have "same_block1 c (op c)"
    using integrator.hyps(2) same_block1_timeout by (auto simp: nabto_coap_client_handle_timeout_def)
  then show ?case using integrator.IH same_block1_ok by blast
next
  case (callback c)
  then show ?case by (simp add: nabto_coap_client_handle_callback_def same_block1_ok [OF same_block1_loops(3)])
next
  case (packet c now packet k)
  from packet.IH show ?case by (rule same_block1_packet)
next
  case (create c now room)
  have "same_block1 c (snd (nabto_coap_client_request_create_packet a now room c))" for a
    by (auto simp: nabto_coap_client_request_create_packet_def request_sent_def same_block1_def block1_part_def
        split: option.split)
  then have "same_block1 c (snd (snd (nabto_coap_client_create_packet now room c)))"
    by (auto simp: nabto_coap_client_create_packet_def same_block1_def split: option.split prod.split)
      (metis snd_conv)+
  then show ?case using create same_block1_ok by blast
qed

text \<open>C20: Request bodies.  In every state a client can be in, the block size of a request is at most 512 bytes, and the
  offset of its body is a multiple of the block size unless the body has been sent: the block
  number that is put into the next packet is exact, also after the server asked for smaller blocks.\<close>

theorem block1_offset_exact:
  assumes "client_reach little allocator notifyEvent m size_max c" "a \<in> set (cc_requests c)"
  defines "r \<equiv> cc_request c a"
  shows "nabto_coap_block_size_from_szx (rq_block1Size r) \<in> {16, 32, 64, 128, 256, 512} \<and>
    rq_block1Offset r \<le> rq_payloadLength r \<and>
    (rq_block1Offset r < rq_payloadLength r \<longrightarrow>
      rq_block1Offset r div nabto_coap_block_size_from_szx (rq_block1Size r) *
        nabto_coap_block_size_from_szx (rq_block1Size r) = rq_block1Offset r)"
proof -
  have ok: "block1_ok r" using client_reach_block1 [OF assms(1)] assms(2) by (simp add: client_block1_ok_def r_def)
  have "unat (rq_block1Size r) \<in> {0, 1, 2, 3, 4, 5}" using ok by (auto simp: block1_ok_def)
  then have "nabto_coap_block_size_from_szx (rq_block1Size r) \<in> {16, 32, 64, 128, 256, 512}"
    by (auto simp: block_size_value)
  then show ?thesis using ok unfolding block1_ok_def by auto
qed

theorem block1_offset_exact_witness:
  "rq_block1Size (cc_request sample_requested 4) = 5 \<and> rq_block1Offset (cc_request sample_requested 4) \<le> 0"
proof -
  have "cc_requests sample_requested = [4]" "cc_request sample_requested 4 = zero_client_request
      \<lparr>rq_method := 1, rq_pathSegments := [[97]], rq_configuredTimeoutMilliseconds := 120000,
       rq_token := [1, 0, 0, 0, 0, 0, 0, 0], rq_messageId := 1, rq_block1Size := 5, rq_connection := 5\<rparr>"
    by (simp_all add: sample_requested_def sample_coap_client_def nabto_coap_client_init_def nabto_coap_client_request_new_def
        client_calloc_def Let_def nabto_coap_client_next_token_def nabto_coap_client_next_message_id_def
        nabto_coap_client_insert_request_into_list_def set_request_def zero_client_request_def be64_def host_bytes_def
        byte_at_def)
  then show ?thesis
    using block1_offset_exact [OF sample_coap_client_reach(2), of 4] by (simp add: zero_client_request_def)
qed

end
