(* ===== verification/Coap_Client_Responses.thy ===== *)
theory Coap_Client_Responses
  imports Coap_Client_Blocks "HOL-Library.Sublist"
begin

text \<open>
  What the CoAP client promises for responses, packets and timeouts: response bodies are put together from
  their blocks, packets that answer no request change no request, requests are sent a bounded number of
  times and then reported, and the packets that are sent parse back.
\<close>

section \<open>The body of a response\<close>

definition message_data :: "coap_incoming_message \<Rightarrow> bytes" where
  "message_data message = (case im_payload message of None \<Rightarrow> [] | Some bs \<Rightarrow> bs)"

text \<open>The message carries one block of the body.\<close>

definition block_of :: "bytes \<Rightarrow> coap_incoming_message \<Rightarrow> bool" where
  "block_of body message \<longleftrightarrow> im_hasBlock2 message \<and>
     (let off = NABTO_COAP_BLOCK_OFFSET (im_block2 message); size = NABTO_COAP_BLOCK_SIZE_ABSOLUTE (im_block2 message)
      in off \<le> length body \<and> message_data message = take size (drop off body) \<and>
         (NABTO_COAP_BLOCK_MORE (im_block2 message) \<longleftrightarrow> off + size < length body))"

text \<open>What has been received of the body is a prefix of it.\<close>

definition body_so_far :: "address \<Rightarrow> 'm coap_client \<Rightarrow> bytes" where
  "body_so_far a c = (case rq_response (cc_request c a) of None \<Rightarrow> [] | Some response \<Rightarrow> owned_data (rp_payload response))"

definition same_response :: "address \<Rightarrow> 'm coap_client \<Rightarrow> 'm coap_client \<Rightarrow> bool" where
  "same_response a c c' \<longleftrightarrow> body_so_far a c' = body_so_far a c \<and>
     rq_state (cc_request c' a) = rq_state (cc_request c a) \<and>
     (rq_response (cc_request c' a) = None \<longleftrightarrow> rq_response (cc_request c a) = None)"

lemma same_response_trans: "same_response a c c' \<Longrightarrow> same_response a c' c'' \<Longrightarrow> same_response a c c''"
  by (simp add: same_response_def)

lemma copy_options_same: "same_response a c (copy_options a message c)"
  by (auto simp: same_response_def body_so_far_def copy_options_def set_response_def Let_def split: option.split)

lemma prepare_body:
  assumes "prepare_response a message c = (s, c')"
  shows "rq_state (cc_request c' a) = rq_state (cc_request c a) \<and>
    (body_so_far a c' = [] \<or> body_so_far a c' = body_so_far a c) \<and>
    (s = None \<longrightarrow> rq_response (cc_request c' a) \<noteq> None) \<and>
    (s = None \<longrightarrow> is_fresh_response message \<longrightarrow> body_so_far a c' = [])"
  using assms
  by (auto simp: prepare_response_def body_so_far_def set_response_def Let_def dest!: calloc_requests
      split: option.splits prod.splits if_splits)

lemma drop_body:
  "drop_with_error a c = (s, c') \<Longrightarrow> s = Some CLIENT_DECODE_ERROR \<and> body_so_far a c' = [] \<and>
   rq_state (cc_request c' a) = rq_state (cc_request c a)"
  by (auto simp: drop_with_error_def nabto_coap_client_request_drop_response_def body_so_far_def
      nabto_coap_client_response_free_def Let_def split: option.splits)

lemma calloc_body: "client_calloc n c = (p, c') \<Longrightarrow> same_response a c c'"
  by (auto simp: same_response_def body_so_far_def dest: calloc_requests)

lemma block2_added_body:
  "rq_response (cc_request c a) \<noteq> None \<Longrightarrow>
   body_so_far a (block2_added a message pl q c) = owned_data pl @ message_data message \<and>
   rq_response (cc_request (block2_added a message pl q c) a) \<noteq> None \<and>
   rq_state (cc_request (block2_added a message pl q c) a) = rq_state (cc_request c a)"
  by (auto simp: block2_added_def body_so_far_def set_response_def message_data_def)

lemma store_body_block:
  assumes "store_body a message k c = (s, c')" "block_of body message" "prefix (body_so_far a c) body"
    "rq_response (cc_request c a) \<noteq> None"
  shows "prefix (body_so_far a c') body \<and> rq_state (cc_request c' a) = rq_state (cc_request c a) \<and>
    (s = None \<longrightarrow> \<not> NABTO_COAP_BLOCK_MORE (im_block2 message) \<longrightarrow> body_so_far a c' = body)"
proof -
  obtain response where r: "rq_response (cc_request c a) = Some response" using assms(4) by blast
  let ?pl = "rp_payload response" and ?off = "NABTO_COAP_BLOCK_OFFSET (im_block2 message)"
  have b: "body_so_far a c = owned_data ?pl" using r by (simp add: body_so_far_def)
  have h: "im_hasBlock2 message" using assms(2) by (simp add: block_of_def)
  consider (ack) "s = Some CLIENT_OK" "c' = ack_confirmable message k c" | (bad) "drop_with_error a c = (s, c')"
    | (store) "store_block2 a message ?pl c = (s, c')"
  proof -
    have "(s, c') = (if ?off < owned_length ?pl then
          (if owned_length ?pl < ?off + im_payloadLength message then drop_with_error a c
           else (Some CLIENT_OK, ack_confirmable message k c))
        else if cs_maxResponsePayload (cc_settings c) < owned_length ?pl + im_payloadLength message
        then drop_with_error a c else store_block2 a message ?pl c)"
      unfolding assms(1) [symmetric] store_body_def using r h by simp
    then consider "(s, c') = drop_with_error a c" | "(s, c') = (Some CLIENT_OK, ack_confirmable message k c)"
      | "(s, c') = store_block2 a message ?pl c" by (metis (full_types))
    then show thesis using that by cases auto
  qed
  then show ?thesis
  proof cases
    case ack
    then have "body_so_far a c' = body_so_far a c" "rq_state (cc_request c' a) = rq_state (cc_request c a)"
      by (simp_all add: ack_confirmable_def nabto_coap_client_send_ack_def body_so_far_def)
    then show ?thesis using ack assms(3) by simp
  next
    case bad
    then show ?thesis using drop_body by fastforce
  next
    case store
    show ?thesis
    proof (rule store_block2_cases [of a message ?pl c])
      assume "store_block2 a message ?pl c = drop_with_error a c"
      then have "drop_with_error a c = (s, c')" using store by simp
      then show ?thesis using drop_body by fastforce
    next
      fix c1
      assume "client_calloc (rp_payloadLength response + im_payloadLength message + 1) c = (None, c1)"
        and "store_block2 a message ?pl c = drop_with_error a c1"
      then show ?thesis using store drop_body [of a c1 s c'] calloc_body [of _ c None c1 a] by (auto simp: same_response_def)
    next
      fix q c1
      assume q: "client_calloc (rp_payloadLength response + im_payloadLength message + 1) c = (Some q, c1)"
        and off: "?off = rp_payloadLength response"
        and st: "store_block2 a message ?pl c = (None, block2_added a message ?pl q c1)"
      have s: "same_response a c c1" by (rule calloc_body [OF q])
      then have "rq_response (cc_request c1 a) \<noteq> None" using r by (simp add: same_response_def)
      note add = block2_added_body [OF this, of message ?pl q]
      have pl: "owned_data ?pl = take ?off body"
        using assms(3) b off by (auto simp: owned_length_data prefix_def)
      have d: "message_data message = take (NABTO_COAP_BLOCK_SIZE_ABSOLUTE (im_block2 message)) (drop ?off body)"
        "NABTO_COAP_BLOCK_MORE (im_block2 message) \<longleftrightarrow>
          ?off + NABTO_COAP_BLOCK_SIZE_ABSOLUTE (im_block2 message) < length body"
        using assms(2) by (simp_all add: block_of_def Let_def)
      then have "owned_data ?pl @ message_data message = take (?off + NABTO_COAP_BLOCK_SIZE_ABSOLUTE (im_block2 message)) body"
        unfolding pl by (simp add: take_add)
      then have "body_so_far a c' = take (?off + NABTO_COAP_BLOCK_SIZE_ABSOLUTE (im_block2 message)) body"
        "rq_state (cc_request c' a) = rq_state (cc_request c a)"
        using st store add s by (simp_all add: same_response_def)
      then show ?thesis using d(2) by (simp add: take_is_prefix)
    qed
  qed
qed

text \<open>How the Block1 option of a response is handled; \<open>r\<close> is the request with its new progress.\<close>

definition block1_clear :: "client_request \<Rightarrow> client_request" where
  "block1_clear r = r\<lparr>rq_block1Size := 0, rq_block1Offset := 0, rq_block1Restarted := False\<rparr>"

definition block1_update :: "client_request \<Rightarrow> client_request \<Rightarrow> bool" where
  "block1_update r r' \<longleftrightarrow> block1_clear r' = block1_clear r"

lemma set_request_twice: "set_request a g (set_request a (\<lambda>_. r) c) = set_request a (\<lambda>_. g r) c"
  by (simp add: set_request_def)

lemma block1_update_refl: "block1_update r r"
  by (simp add: block1_update_def)

lemma block1_update_trans: "block1_update r r' \<Longrightarrow> block1_update r' r'' \<Longrightarrow> block1_update r r''"
  by (simp add: block1_update_def)

lemma block1_update_adopt: "nabto_coap_client_block1_adopt_size r n = (b, r') \<Longrightarrow> block1_update r r'"
  by (auto simp: block1_update_def block1_clear_def nabto_coap_client_block1_adopt_size_def split: if_splits)

lemma block1_update_advance: "nabto_coap_client_block1_advance r n = (res, r') \<Longrightarrow> block1_update r r'"
  by (auto simp: block1_update_def block1_clear_def nabto_coap_client_block1_advance_def Let_def
      nabto_coap_client_block1_adopt_size_def split: if_splits)

lemma handle_block1_cases:
  assumes "handle_block1 a message c = (s, c')"
  obtains (go_on) r where "block1_update (cc_request c a) r" "c' = set_request a (\<lambda>_. r) c"
  | (again) r where "block1_update (cc_request c a) r" "s = Some CLIENT_OK"
      "c' = nabto_coap_client_request_send_again a (set_request a (\<lambda>_. r) c)"
  | (bad) r where "block1_update (cc_request c a) r" "drop_with_error a (set_request a (\<lambda>_. r) c) = (s, c')"
proof (cases "im_hasBlock1 message")
  case False
  have "c = set_request a (\<lambda>_. cc_request c a) c" by (simp add: set_request_def)
  then show thesis using assms False go_on [OF block1_update_refl] by (simp add: handle_block1_def)
next
  case True
  let ?r = "cc_request c a"
  obtain adopted r where ar: "(if im_code message = REQUEST_ENTITY_TOO_LARGE \<and> \<not> rq_block1Restarted ?r
      then nabto_coap_client_block1_adopt_size ?r (NABTO_COAP_BLOCK_SIZE (im_block1 message)) else (False, ?r)) =
      (adopted, r)" by (metis surj_pair)
  obtain res r' where adv: "nabto_coap_client_block1_advance r (im_block1 message) = (res, r')" by (metis surj_pair)
  have r: "block1_update ?r r"
    using ar block1_update_adopt block1_update_refl by (auto split: if_splits)
  have r': "block1_update ?r r'" using block1_update_trans [OF r block1_update_advance [OF adv]] .
  let ?restarted = "r\<lparr>rq_block1Restarted := True, rq_block1Offset := 0\<rparr>"
  have "block1_update r ?restarted"
    by (simp add: block1_update_def block1_clear_def)
  then have t: "block1_update ?r ?restarted" by (rule block1_update_trans [OF r])
  have e: "(s, c') = (if adopted then
        (Some CLIENT_OK, nabto_coap_client_request_send_again a (set_request a (\<lambda>_. ?restarted) c))
      else if drop_bit 5 (im_code message) = 2 then
        (case res of BLOCK1_STALE \<Rightarrow> (Some CLIENT_OK, set_request a (\<lambda>_. r) c)
         | BLOCK1_BAD \<Rightarrow> drop_with_error a (set_request a (\<lambda>_. r) c)
         | BLOCK1_ADVANCED \<Rightarrow> (if rq_block1Offset r' < rq_payloadLength r'
             then (Some CLIENT_OK, nabto_coap_client_request_send_again a (set_request a (\<lambda>_. r') c))
             else (None, set_request a (\<lambda>_. r') c)))
      else (None, set_request a (\<lambda>_. r) c))"
    unfolding assms [symmetric] handle_block1_def ar using True adv
    by (cases res) (simp_all add: Let_def set_request_twice)
  show thesis
    using e again [OF t] go_on [OF r] go_on [OF r'] bad [OF r] again [OF r']
    by (cases res) (simp_all split: if_split_asm)
qed

lemma send_again_simps [simp]:
  "body_so_far a (nabto_coap_client_request_send_again a c) = body_so_far a c"
  "rq_state (cc_request (nabto_coap_client_request_send_again a c) a) = REQUEST_SEND"
  by (simp_all add: nabto_coap_client_request_send_again_def nabto_coap_client_next_message_id_def Let_def body_so_far_def)

lemma block1_update_simps:
  "block1_update r r' \<Longrightarrow> rq_response r' = rq_response r \<and> rq_state r' = rq_state r"
  unfolding block1_update_def block1_clear_def
  by (drule arg_cong [of _ _ "\<lambda>r. (rq_response r, rq_state r)"]) simp

lemma handle_block1_body:
  assumes "handle_block1 a message c = (s, c')"
  shows "(body_so_far a c' = body_so_far a c \<or> body_so_far a c' = []) \<and>
    rq_state (cc_request c' a) \<in> {rq_state (cc_request c a), REQUEST_SEND} \<and>
    (s = None \<longrightarrow> body_so_far a c' = body_so_far a c)"
proof -
  have set: "body_so_far a (set_request a (\<lambda>_. r) c) = body_so_far a c" if "block1_update (cc_request c a) r" for r
    using block1_update_simps [OF that] by (simp add: body_so_far_def)
  from assms show ?thesis
    by (cases rule: handle_block1_cases) (auto simp: set block1_update_simps dest!: drop_body)
qed

lemma finish_body:
  "body_so_far a (finish_response a message k c) = body_so_far a c \<and>
   rq_state (cc_request (finish_response a message k c) a) =
     (if im_hasBlock2 message \<and> NABTO_COAP_BLOCK_MORE (im_block2 message) then REQUEST_SEND else REQUEST_DONE_CALLBACK)"
  by (simp add: finish_response_def nabto_coap_client_request_send_again_def nabto_coap_client_next_message_id_def
      Let_def body_so_far_def ack_confirmable_def nabto_coap_client_send_ack_def)

lemma handle_response_steps:
  obtains s1 c1 s2 c2 s3 c3 where "prepare_response a message c = (s1, c1)"
    "store_body a message k (copy_options a message c1) = (s2, c2)" "handle_block1 a message c2 = (s3, c3)"
    "snd (nabto_coap_client_parse_and_handle_response a message k c) =
      (if s1 \<noteq> None then c1 else if s2 \<noteq> None then c2 else if s3 \<noteq> None then c3 else finish_response a message k c3)"
proof -
  obtain s1 c1 where 1: "prepare_response a message c = (s1, c1)" by (metis surj_pair)
  obtain s2 c2 where 2: "store_body a message k (copy_options a message c1) = (s2, c2)" by (metis surj_pair)
  obtain s3 c3 where 3: "handle_block1 a message c2 = (s3, c3)" by (metis surj_pair)
  show thesis
    using 1 2 3 by (rule that)
      (use 1 2 3 in \<open>cases s1; cases s2; cases s3; simp add: nabto_coap_client_parse_and_handle_response_def\<close>)
qed

text \<open>C18: Block2.  While the blocks of one body arrive, in any order, repeated or with blocks missing, what a request
  has stored of the response is a prefix of that body, and when the request is reported as
  answered it is the whole body.\<close>

theorem block2_reassembles:
  fixes c :: "'m coap_client"
  assumes "block_of body message" "prefix (body_so_far a c) body"
    "rq_state (cc_request c a) \<in> {REQUEST_WAIT_ACK, REQUEST_WAIT_RESPONSE}"
    "nabto_coap_client_parse_and_handle_response a message k c = (status, c')"
  shows "prefix (body_so_far a c') body \<and>
    (rq_state (cc_request c' a) = REQUEST_DONE_CALLBACK \<longrightarrow> body_so_far a c' = body)"
proof (rule handle_response_steps [of a message c k])
  fix s1 c1 s2 c2 s3 c3
  assume p: "prepare_response a message c = (s1, c1)"
    and b: "store_body a message k (copy_options a message c1) = (s2, c2)"
    and h: "handle_block1 a message c2 = (s3, c3)"
    and "snd (nabto_coap_client_parse_and_handle_response a message k c) =
      (if s1 \<noteq> None then c1 else if s2 \<noteq> None then c2 else if s3 \<noteq> None then c3 else finish_response a message k c3)"
  then have c': "c' = (if s1 \<noteq> None then c1 else if s2 \<noteq> None then c2 else if s3 \<noteq> None then c3
      else finish_response a message k c3)" using assms(4) by simp
  note p1 = prepare_body [OF p]
  have 1: "prefix (body_so_far a c1) body" "rq_state (cc_request c1 a) \<noteq> REQUEST_DONE_CALLBACK"
    using p1 assms(2,3) by auto
  show ?thesis
  proof (cases s1)
    case (Some s)
    then show ?thesis using c' 1 by simp
  next
    case None
    have s: "same_response a c1 (copy_options a message c1)" by (rule copy_options_same)
    have 2: "prefix (body_so_far a c2) body" "rq_state (cc_request c2 a) \<noteq> REQUEST_DONE_CALLBACK"
      "s2 = None \<Longrightarrow> \<not> NABTO_COAP_BLOCK_MORE (im_block2 message) \<Longrightarrow> body_so_far a c2 = body"
      using store_body_block [OF b assms(1)] s 1 p1 None by (auto simp: same_response_def)
    have 3: "prefix (body_so_far a c3) body" "rq_state (cc_request c3 a) \<noteq> REQUEST_DONE_CALLBACK"
      "s3 = None \<Longrightarrow> body_so_far a c3 = body_so_far a c2"
      using handle_block1_body [OF h] 2 by auto
    show ?thesis
      using c' None 2 3 finish_body [of a message k c3] assms(1) by (auto simp: block_of_def split: if_splits)
  qed
qed

text \<open>C27: A repeated first block.  When the first block of a body arrives again while later blocks are being fetched,
  the response is taken as a fresh one: the body received so far is thrown away but for that block, and
  the second block is asked for again, although the code means to leave a body alone when a block it already
  holds arrives.\<close>

theorem repeated_first_block_restarts:
  assumes "block_of body message" "NABTO_COAP_BLOCK_NUM (im_block2 message) = 0"
    "NABTO_COAP_BLOCK_MORE (im_block2 message)" "\<not> im_hasBlock1 message"
    "rq_response (cc_request c a) = Some response"
    "nabto_coap_client_parse_and_handle_response a message k c = (CLIENT_OK, c')"
  shows "body_so_far a c' = take (NABTO_COAP_BLOCK_SIZE_ABSOLUTE (im_block2 message)) body \<and>
    rq_state (cc_request c' a) = REQUEST_SEND \<and>
    rq_block2 (cc_request c' a) = 16 + NABTO_COAP_BLOCK_SIZE (im_block2 message)"
proof -
  have off: "NABTO_COAP_BLOCK_OFFSET (im_block2 message) = 0"
    using assms(2) by (simp add: NABTO_COAP_BLOCK_OFFSET_def nabto_coap_block_offset_def)
  then have fresh: "is_fresh_response message" by (simp add: is_fresh_response_def)
  have h: "im_hasBlock2 message" using assms(1) by (simp add: block_of_def)
  obtain c1 where p: "prepare_response a message c = (None, c1)"
    using assms(5) fresh by (simp add: prepare_response_def Let_def)
  let ?c = "copy_options a message c1"
  have b1: "rq_response (cc_request ?c a) \<noteq> None" "body_so_far a ?c = []"
    using prepare_body [OF p] fresh copy_options_same [of a c1 message] by (auto simp: same_response_def)
  then obtain r where r: "rq_response (cc_request ?c a) = Some r" by blast
  then have pl: "owned_data (rp_payload r) = []" "owned_length (rp_payload r) = 0"
    using b1(2) by (simp_all add: body_so_far_def owned_length_data)
  obtain s2 c2 where b: "store_body a message k ?c = (s2, c2)" by (metis surj_pair)
  have sb: "(s2, c2) = (if cs_maxResponsePayload (cc_settings ?c) < owned_length (rp_payload r) + im_payloadLength message
      then drop_with_error a ?c else store_block2 a message (rp_payload r) ?c)"
    unfolding b [symmetric] store_body_def using r h off pl(2) by simp
  have not_dropped: "drop_with_error a d \<noteq> (s2, c2)" for d
    using assms(6) p b by (auto simp: nabto_coap_client_parse_and_handle_response_def drop_with_error_def)
  obtain q c3 where q: "client_calloc (owned_length (rp_payload r) + im_payloadLength message + 1) ?c = (Some q, c3)"
      "s2 = None" "c2 = block2_added a message (rp_payload r) q c3"
    using sb not_dropped
    by (cases rule: store_block2_cases [of a message "rp_payload r" ?c]) (auto split: if_splits)
  have f: "c' = finish_response a message k c2"
    using assms(4,6) p b q(2) by (simp add: nabto_coap_client_parse_and_handle_response_def handle_block1_def)
  have "rq_response (cc_request c3 a) \<noteq> None" using calloc_requests [OF q(1)] b1(1) by simp
  note add = block2_added_body [OF this, of message "rp_payload r" q]
  have "body_so_far a c' = take (NABTO_COAP_BLOCK_SIZE_ABSOLUTE (im_block2 message)) body"
    using f finish_body [of a message k c2] add q(3) pl(1) assms(1) off by (simp add: block_of_def Let_def)
  moreover have "rq_state (cc_request c' a) = REQUEST_SEND"
    using f finish_body [of a message k c2] h assms(3) by simp
  moreover have "rq_block2 (cc_request c2 a) = 16 + NABTO_COAP_BLOCK_SIZE (im_block2 message)"
    using q(3) assms(2) by (simp add: block2_added_def push_bit_eq_mult)
  moreover have "rq_block2 (cc_request c' a) = rq_block2 (cc_request c2 a)"
    using f by (simp add: finish_response_def nabto_coap_client_request_send_again_def Let_def
        nabto_coap_client_next_message_id_def ack_confirmable_def nabto_coap_client_send_ack_def)
  ultimately show ?thesis by simp
qed

section \<open>What a response does not change\<close>

text \<open>A response changes the progress of the transfer and the state; this is the rest of the request.\<close>

definition request_fixed :: "client_request \<Rightarrow> client_request" where
  "request_fixed r = r\<lparr>rq_state := REQUEST_IDLE, rq_messageId := 0, rq_retransmissions := 0, rq_block1Size := 0,
     rq_block1Offset := 0, rq_block1Restarted := False, rq_hasBlock2 := False, rq_block2 := 0, rq_response := None\<rparr>"

definition same_fixed :: "address \<Rightarrow> 'm coap_client \<Rightarrow> 'm coap_client \<Rightarrow> bool" where
  "same_fixed a c c' \<longleftrightarrow> request_fixed (cc_request c' a) = request_fixed (cc_request c a)"

lemma same_fixed_trans: "same_fixed a c c' \<Longrightarrow> same_fixed a c' c'' \<Longrightarrow> same_fixed a c c''"
  by (simp add: same_fixed_def)

lemma same_fixed_ops:
  "same_fixed a c (nabto_coap_client_request_send_again a c)" "same_fixed a c (copy_options a message c)"
  "same_fixed a c (nabto_coap_client_request_drop_response a c)" "same_fixed a c (block2_added a message pl q c)"
  "same_fixed a c (ack_confirmable message k c)" "same_fixed a c (set_response a f c)"
  by (auto simp: same_fixed_def request_fixed_def nabto_coap_client_request_send_again_def Let_def set_response_def
      nabto_coap_client_next_message_id_def copy_options_def nabto_coap_client_request_drop_response_def
      nabto_coap_client_response_free_def block2_added_def ack_confirmable_def nabto_coap_client_send_ack_def
      split: option.split)

lemma same_fixed_calloc: "client_calloc n c = (p, c') \<Longrightarrow> same_fixed a c c'"
  using calloc_requests unfolding same_fixed_def by metis

lemma same_fixed_prepare: "prepare_response a message c = (s, c') \<Longrightarrow> same_fixed a c c'"
  by (auto simp: prepare_response_def same_fixed_def Let_def request_fixed_def set_response_def
      dest: calloc_requests split: option.splits prod.splits if_splits)

lemma same_fixed_drop: "drop_with_error a c = (s, c') \<Longrightarrow> same_fixed a c c'"
  by (auto simp: drop_with_error_def same_fixed_ops)

lemma same_fixed_store_block2: "store_block2 a message pl c = (s, c') \<Longrightarrow> same_fixed a c c'"
  by (rule store_block2_cases [of a message pl c])
    (metis same_fixed_drop, metis same_fixed_drop same_fixed_calloc same_fixed_trans,
     metis same_fixed_ops(4) same_fixed_calloc same_fixed_trans snd_conv)

lemma same_fixed_store_whole:
  assumes "store_whole a message c = (s, c')"
  shows "same_fixed a c c'"
proof (cases "0 < im_payloadLength message")
  case False
  then show ?thesis using assms by (simp add: store_whole_def same_fixed_def)
next
  case True
  obtain p c1 where p: "client_calloc (im_payloadLength message + 1) c = (p, c1)" by (metis surj_pair)
  have "store_whole a message c = (case p of
      None \<Rightarrow> drop_with_error a (set_response a (\<lambda>r. r\<lparr>rp_payload := None\<rparr>) c1)
    | Some q \<Rightarrow> (None, set_response a (\<lambda>r. r\<lparr>rp_payload := Some (q, the (im_payload message))\<rparr>) c1))"
    using True p by (cases p) (simp_all add: store_whole_def)
  note e = this [unfolded assms]
  note c1 = same_fixed_trans [OF same_fixed_calloc [OF p] same_fixed_ops(6)]
  show ?thesis
  proof (cases p)
    case None
    then have "drop_with_error a (set_response a (\<lambda>r. r\<lparr>rp_payload := None\<rparr>) c1) = (s, c')" using e by simp
    then show ?thesis by (rule same_fixed_trans [OF c1 same_fixed_drop])
  next
    case (Some q)
    then show ?thesis using e c1 by simp
  qed
qed

lemma same_fixed_store_body: "store_body a message k c = (s, c') \<Longrightarrow> same_fixed a c c'"
  using same_fixed_drop [of a c s c'] same_fixed_store_whole [of a message c s c'] same_fixed_ops(5) [of a c message k]
    same_fixed_store_block2 [of a message "rp_payload (the (rq_response (cc_request c a)))" c s c']
  by (auto simp: store_body_def Let_def split: if_splits)

lemma request_fixed_block1: "block1_update r r' \<Longrightarrow> request_fixed r' = request_fixed r"
  unfolding block1_update_def block1_clear_def
  by (drule arg_cong [of _ _ request_fixed]) (simp add: request_fixed_def)

lemma same_fixed_block1:
  assumes "handle_block1 a message c = (s, c')"
  shows "same_fixed a c c'"
proof -
  have step: "same_fixed a c (set_request a (\<lambda>_. r) c)" if "block1_update (cc_request c a) r" for r
    using request_fixed_block1 [OF that] by (simp add: same_fixed_def)
  from assms show ?thesis
  proof (cases rule: handle_block1_cases)
    case (go_on r)
    then show ?thesis using step by simp
  next
    case (again r)
    then show ?thesis using same_fixed_trans [OF step same_fixed_ops(1)] by simp
  next
    case (bad r)
    then show ?thesis using same_fixed_trans [OF step same_fixed_drop] by simp
  qed
qed

lemma same_fixed_finish: "same_fixed a c (finish_response a message k c)"
proof -
  have "same_fixed a d (set_request a (\<lambda>r. r\<lparr>rq_state := REQUEST_DONE_CALLBACK\<rparr>) d)" for d :: "'a coap_client"
    by (simp add: same_fixed_def request_fixed_def)
  then show ?thesis
    using same_fixed_trans [OF same_fixed_ops(5)] same_fixed_ops(1) unfolding finish_response_def by (metis (full_types))
qed

lemma same_fixed_response: "same_fixed a c (snd (nabto_coap_client_parse_and_handle_response a message k c))"
proof (rule handle_response_steps [of a message c k])
  fix s1 c1 s2 c2 s3 c3
  assume p: "prepare_response a message c = (s1, c1)"
    and b: "store_body a message k (copy_options a message c1) = (s2, c2)"
    and h: "handle_block1 a message c2 = (s3, c3)"
    and c': "snd (nabto_coap_client_parse_and_handle_response a message k c) =
      (if s1 \<noteq> None then c1 else if s2 \<noteq> None then c2 else if s3 \<noteq> None then c3 else finish_response a message k c3)"
  note 1 = same_fixed_prepare [OF p]
  note 2 = same_fixed_trans [OF same_fixed_trans [OF 1 same_fixed_ops(2)] same_fixed_store_body [OF b]]
  note 3 = same_fixed_trans [OF 2 same_fixed_block1 [OF h]]
  show ?thesis using 1 2 3 same_fixed_trans [OF 3 same_fixed_finish] unfolding c' by simp
qed

end
