(* ===== verification/Coap_Client_Timing.thy ===== *)
theory Coap_Client_Timing
  imports Coap_Client_Responses
begin

text \<open>
  The timeouts of the CoAP client: how the ack timeout doubles, how often a request is sent that nobody
  answers, and when it is reported.
\<close>

section \<open>The ack timeout\<close>

lemma max_timeout [simp]: "unat NABTO_COAP_CLIENT_MAX_TIMEOUT = 1073741824"
  by (simp add: NABTO_COAP_CLIENT_MAX_TIMEOUT_def push_bit_eq_mult)

lemma ack_timeout_loop_value:
  assumes "unat t < 2147483648"
  shows "\<exists>k \<le> n. unat (ack_timeout_loop n t) = unat t * 2 ^ k \<and> unat (ack_timeout_loop n t) < 2147483648 \<and>
    (k = n \<or> 1073741824 \<le> unat (ack_timeout_loop n t))"
  using assms
proof (induction n arbitrary: t)
  case (Suc n)
  show ?case
  proof (cases "t < NABTO_COAP_CLIENT_MAX_TIMEOUT")
    case True
    then have t: "unat t < 1073741824" by (simp add: word_less_nat_alt)
    then have d: "unat (t * 2) = unat t * 2" by (simp add: unat_word_ariths)
    with t have "unat (t * 2) < 2147483648" by simp
    then obtain k where "k \<le> n" "unat (ack_timeout_loop n (t * 2)) = unat (t * 2) * 2 ^ k"
      "unat (ack_timeout_loop n (t * 2)) < 2147483648"
      "k = n \<or> 1073741824 \<le> unat (ack_timeout_loop n (t * 2))" using Suc.IH by blast
    then show ?thesis using True d by (intro exI [of _ "Suc k"]) simp
  next
    case False
    then show ?thesis using Suc.prems by (intro exI [of _ 0]) (simp add: word_less_nat_alt)
  qed
qed simp

lemma ack_timeout_value:
  defines "base s \<equiv> min (unat (cs_ackTimeoutMilliseconds s)) 1073741824"
  shows "\<exists>k \<le> unat n. unat (nabto_coap_client_ack_timeout s n) = base s * 2 ^ k \<and>
    unat (nabto_coap_client_ack_timeout s n) < 2147483648 \<and>
    (k = unat n \<or> 1073741824 \<le> unat (nabto_coap_client_ack_timeout s n))"
proof -
  let ?t = "if NABTO_COAP_CLIENT_MAX_TIMEOUT < cs_ackTimeoutMilliseconds s then NABTO_COAP_CLIENT_MAX_TIMEOUT
    else cs_ackTimeoutMilliseconds s"
  have t: "unat ?t = base s" "unat ?t < 2147483648"
    by (auto simp: base_def min_def word_less_nat_alt)
  show ?thesis
    using ack_timeout_loop_value [OF t(2), of "unat n"]
    unfolding nabto_coap_client_ack_timeout_def Let_def t(1) .
qed

text \<open>The ack timeout doubles with every retransmission until it reaches a maximum, and whatever the
  integrator configures it stays below half of the range of the time stamps, so that the deadline of a
  packet that is sent is in the future.  It is not kept within \<open>NABTO_COAP_CLIENT_MAX_TIMEOUT\<close>: the last
  doubling may pass it.\<close>

theorem ack_timeout_bounded:
  fixes n :: u8
  assumes "0 < cs_ackTimeoutMilliseconds s"
  defines "t \<equiv> nabto_coap_client_ack_timeout s n" and "base \<equiv> min (unat (cs_ackTimeoutMilliseconds s)) 1073741824"
  shows "(base * 2 ^ unat n \<le> 1073741824 \<longrightarrow> unat t = base * 2 ^ unat n) \<and> base \<le> unat t \<and> unat t < 2 ^ 31 \<and>
    nabto_coap_is_stamp_less now (now + t) \<and>
    NABTO_COAP_CLIENT_MAX_TIMEOUT < nabto_coap_client_ack_timeout (s\<lparr>cs_ackTimeoutMilliseconds := 2000\<rparr>) 20"
proof -
  obtain k where k: "k \<le> unat n" "unat t = base * 2 ^ k" "unat t < 2147483648"
      "k = unat n \<or> 1073741824 \<le> unat t"
    using ack_timeout_value [of n s] unfolding t_def base_def by blast
  have b: "0 < base" using assms(1) by (simp add: base_def word_less_nat_alt)
  have 1: "unat t = base * 2 ^ unat n" if "base * 2 ^ unat n \<le> 1073741824"
  proof (cases "k = unat n")
    case True
    then show ?thesis using k(2) by simp
  next
    case False
    then have "(2::nat) ^ Suc k \<le> 2 ^ unat n" using k(1) by (intro power_increasing) auto
    then have "2 * (base * 2 ^ k) \<le> base * 2 ^ unat n" by simp
    then show ?thesis using that k(2,4) False by linarith
  qed
  have 2: "base \<le> unat t" using k(2) by simp
  have "t \<noteq> 0" using b 2 by auto
  then have 3: "nabto_coap_is_stamp_less now (now + t)" using k(3) by (rule coap_stamp.less_add)
  obtain j where j: "unat (nabto_coap_client_ack_timeout (s\<lparr>cs_ackTimeoutMilliseconds := 2000\<rparr>) 20) = 2000 * 2 ^ j"
      "j = 20 \<or> 1073741824 \<le> unat (nabto_coap_client_ack_timeout (s\<lparr>cs_ackTimeoutMilliseconds := 2000\<rparr>) 20)"
    using ack_timeout_value [of 20 "s\<lparr>cs_ackTimeoutMilliseconds := 2000\<rparr>"] by auto
  have "2000 * 2 ^ j \<noteq> (1073741824::nat)"
  proof
    assume "2000 * 2 ^ j = (1073741824::nat)"
    then have "125 * (16 * 2 ^ j) = (1073741824::nat)" by simp
    then have "125 dvd (1073741824::nat)" by (metis dvd_triv_left)
    then show False by simp
  qed
  then have "1073741824 < unat (nabto_coap_client_ack_timeout (s\<lparr>cs_ackTimeoutMilliseconds := 2000\<rparr>) 20)"
    using j by auto
  then show ?thesis using 1 2 3 k(3) by (simp add: word_less_nat_alt)
qed

theorem ack_timeout_bounded_witness:
  "unat (nabto_coap_client_ack_timeout
     \<lparr>cs_ackTimeoutMilliseconds = 2000, cs_maxRetransmits = 4, cs_maxResponsePayload = 0\<rparr> 4) = 32000"
  using ack_timeout_bounded [of "\<lparr>cs_ackTimeoutMilliseconds = 2000, cs_maxRetransmits = 4, cs_maxResponsePayload = 0\<rparr>" 4]
  by simp

section \<open>Requests that nobody answers\<close>

text \<open>Nothing arrives: the integrator sends packets and lets timeouts pass, in any order and at any time.\<close>

datatype quiet_event = Quiet_send u32 nat | Quiet_timeout u32

fun quiet_step :: "quiet_event \<Rightarrow> 'm coap_client \<Rightarrow> 'm coap_client" where
  "quiet_step (Quiet_send now room) c = snd (snd (nabto_coap_client_create_packet now room c))"
| "quiet_step (Quiet_timeout now) c = nabto_coap_client_handle_timeout now c"

text \<open>The times the request has been sent: its state goes from sending to waiting.\<close>

fun times_sent :: "address \<Rightarrow> quiet_event list \<Rightarrow> 'm coap_client \<Rightarrow> nat" where
  "times_sent a [] c = 0"
| "times_sent a (e # es) c =
     (if rq_state (cc_request c a) = REQUEST_SEND \<and>
         rq_state (cc_request (quiet_step e c) a) \<in> {REQUEST_WAIT_ACK, REQUEST_WAIT_RESPONSE} then 1 else 0) +
     times_sent a es (quiet_step e c)"

definition request_sends_left :: "u8 \<Rightarrow> client_request \<Rightarrow> nat" where
  "request_sends_left maxRetransmits r =
     (if rq_state r = REQUEST_SEND then unat maxRetransmits - unat (rq_retransmissions r) + 1
      else if rq_state r = REQUEST_WAIT_ACK then unat maxRetransmits - unat (rq_retransmissions r)
      else 0)"

lemma timeout_twice: "timeout_request n now (timeout_request n now r) = timeout_request n now r"
  by (auto simp: timeout_request_def nabto_coap_client_request_need_wait_def)

lemma handle_timeout_request:
  "cc_request (handle_timeout_loop as now c) a =
     (if a \<in> set as then timeout_request (cs_maxRetransmits (cc_settings c)) now (cc_request c a) else cc_request c a)"
  "cc_settings (handle_timeout_loop as now c) = cc_settings c" "cc_requests (handle_timeout_loop as now c) = cc_requests c"
  "cc_needSendRst (handle_timeout_loop as now c) = cc_needSendRst c"
  "cc_needSendAck (handle_timeout_loop as now c) = cc_needSendAck c"
  by (induction as arbitrary: c) (auto simp: timeout_twice set_request_def)

lemma retransmissions_next: "\<not> m \<le> (n::u8) \<Longrightarrow> unat (n + 1) = unat n + 1 \<and> unat n < unat m"
  using unat_u8_less [of m] by (simp add: word_le_nat_alt unat_word_ariths del: unat_u8_less)

lemma request_sends_left_timeout: "request_sends_left m (timeout_request m now r) \<le> request_sends_left m r"
  using retransmissions_next [of m "rq_retransmissions r"] 
  by (auto simp: request_sends_left_def timeout_request_def nabto_coap_client_request_need_wait_def)

lemma request_sends_left_sent: "rq_state r = REQUEST_SEND \<Longrightarrow> request_sends_left m (request_sent s now r) + 1 \<le> request_sends_left m r"
  by (simp add: request_sends_left_def request_sent_def)

lemma create_packet_request:
  obtains "cc_request (snd (snd (nabto_coap_client_create_packet now room c))) a = cc_request c a"
  | "rq_state (cc_request c a) = REQUEST_SEND"
    "cc_request (snd (snd (nabto_coap_client_create_packet now room c))) a = request_sent (cc_settings c) now (cc_request c a)"
  | "rq_state (cc_request c a) = REQUEST_SEND"
    "rq_state (cc_request (snd (snd (nabto_coap_client_create_packet now room c))) a) = REQUEST_DONE_CALLBACK"
proof (cases "cc_needSendRst c \<or> cc_needSendAck c \<or>
    find (\<lambda>a. nabto_coap_client_request_need_send (cc_request c a) now) (cc_requests c) \<noteq> Some a")
  case True
  then show thesis
    using that(1)
    by (auto simp: nabto_coap_client_create_packet_def nabto_coap_client_request_create_packet_def
        split: option.split prod.split if_splits)
next
  case False
  then have "rq_state (cc_request c a) = REQUEST_SEND"
    by (auto simp: find_Some_iff nabto_coap_client_request_need_send_def split: if_splits)
  then show thesis
    using that(2,3) False
    by (cases "request_packet (cc_request c a) room")
      (auto simp: nabto_coap_client_create_packet_def nabto_coap_client_request_create_packet_def)
qed

lemma create_packet_settings [simp]:
  "cc_settings (snd (snd (nabto_coap_client_create_packet now room c))) = cc_settings c"
  by (auto simp: nabto_coap_client_create_packet_def nabto_coap_client_request_create_packet_def split: option.split prod.split)
    (metis snd_conv set_request_simps)?

lemma quiet_step_settings [simp]: "cc_settings (quiet_step e c) = cc_settings c"
  by (cases e) (simp_all add: nabto_coap_client_handle_timeout_def handle_timeout_request)

lemma quiet_step_sends:
  "(if rq_state (cc_request c a) = REQUEST_SEND \<and>
       rq_state (cc_request (quiet_step e c) a) \<in> {REQUEST_WAIT_ACK, REQUEST_WAIT_RESPONSE} then 1 else 0) +
    request_sends_left (cs_maxRetransmits (cc_settings c)) (cc_request (quiet_step e c) a)
   \<le> request_sends_left (cs_maxRetransmits (cc_settings c)) (cc_request c a)"
proof (cases e)
  case (Quiet_send now room)
  show ?thesis
    by (rule create_packet_request [of now room c a]) (auto simp: request_sends_left_def request_sent_def Quiet_send)
next
  case (Quiet_timeout now)
  have "rq_state (cc_request c a) = REQUEST_SEND \<Longrightarrow> timeout_request m now (cc_request c a) = cc_request c a" for m
    by (simp add: timeout_request_def nabto_coap_client_request_need_wait_def)
  then show ?thesis
    using Quiet_timeout request_sends_left_timeout by (auto simp: nabto_coap_client_handle_timeout_def handle_timeout_request)
qed

text \<open>While nothing arrives, a request is sent at most once more than it may still be retransmitted,
  whatever the integrator does and whatever times it passes: no request is retransmitted forever.\<close>

theorem retransmissions_bounded:
  "times_sent a es c \<le> request_sends_left (cs_maxRetransmits (cc_settings c)) (cc_request c a)"
proof (induction es arbitrary: c)
  case (Cons e es)
  then show ?case using quiet_step_sends [of c a e] Cons.IH [of "quiet_step e c"] by simp
qed simp

section \<open>A request that is never answered\<close>

text \<open>
  An integrator that follows the events of the client: it sends packets when there is something to send,
  waits until the next timeout when there is something to wait for, and stops for a callback.  The result
  is the number of packets and the client; \<open>None\<close> when the fuel is used up.
\<close>

fun quiet_serve :: "nat \<Rightarrow> nat \<Rightarrow> u32 \<Rightarrow> 'm coap_client \<Rightarrow> (nat \<times> 'm coap_client) option" where
  "quiet_serve 0 room now c = None"
| "quiet_serve (Suc fuel) room now c =
     (case nabto_coap_client_get_next_event now c of
        CLIENT_SEND \<Rightarrow> map_option (\<lambda>(n, c'). (Suc n, c'))
          (quiet_serve fuel room now (snd (snd (nabto_coap_client_create_packet now room c))))
      | CLIENT_WAIT \<Rightarrow>
          (let now' = nabto_coap_client_get_next_timeout now c
           in quiet_serve fuel room now' (nabto_coap_client_handle_timeout now' c))
      | _ \<Rightarrow> Some (0, c))"

text \<open>A client with one request that waits for its ack, and the same client with another request there.\<close>

definition one_request :: "address \<Rightarrow> client_settings \<Rightarrow> client_request \<Rightarrow> 'm coap_client \<Rightarrow> bool" where
  "one_request a s r c \<longleftrightarrow> cc_requests c = [a] \<and> cc_request c a = r \<and> cc_settings c = s \<and>
     \<not> cc_needSendRst c \<and> \<not> cc_needSendAck c"

lemma serve_callback:
  "one_request a s r c \<Longrightarrow> rq_state r = REQUEST_DONE_CALLBACK \<Longrightarrow> quiet_serve (Suc fuel) room now c = Some (0, c)"
  by (simp add: one_request_def nabto_coap_client_get_next_event_def)

lemma serve_send:
  assumes "one_request a s r c" "rq_state r = REQUEST_SEND" "request_packet r room \<noteq> None"
  shows "one_request a s (request_sent s now r) (snd (snd (nabto_coap_client_create_packet now room c)))"
    and "quiet_serve (Suc fuel) room now c = map_option (\<lambda>(n, c'). (Suc n, c'))
      (quiet_serve fuel room now (snd (snd (nabto_coap_client_create_packet now room c))))"
proof -
  obtain p where "request_packet r room = Some p" using assms(3) by blast
  then show "one_request a s (request_sent s now r) (snd (snd (nabto_coap_client_create_packet now room c)))"
    using assms by (simp add: one_request_def nabto_coap_client_create_packet_def nabto_coap_client_request_create_packet_def
        nabto_coap_client_request_need_send_def set_request_def)
  show "quiet_serve (Suc fuel) room now c = map_option (\<lambda>(n, c'). (Suc n, c'))
      (quiet_serve fuel room now (snd (snd (nabto_coap_client_create_packet now room c))))"
    using assms by (simp add: one_request_def nabto_coap_client_get_next_event_def nabto_coap_client_request_need_send_def)
qed

lemma serve_wait:
  assumes "one_request a s r c" "rq_state r = REQUEST_WAIT_ACK" "unat (rq_timeoutStamp r - now) < 2147483648"
  obtains n c' where "n \<le> unat (rq_timeoutStamp r - now) div 42424242 + 1"
    "one_request a s (timeout_request (cs_maxRetransmits s) (rq_timeoutStamp r) r) c'"
    "\<And>fuel. quiet_serve (n + fuel) room now c = quiet_serve fuel room (rq_timeoutStamp r) c'"
  using assms
proof (induction "unat (rq_timeoutStamp r - now)" arbitrary: now c thesis rule: less_induct)
  case less
  let ?d = "rq_timeoutStamp r" and ?m = "cs_maxRetransmits s"
  let ?step = "\<lambda>now'. nabto_coap_client_handle_timeout now' c"
  have after: "one_request a s (timeout_request ?m now' r) (?step now')" for now'
    using less.prems(2) by (simp add: one_request_def nabto_coap_client_handle_timeout_def set_request_def)
  have event: "quiet_serve (Suc fuel) room now c =
      quiet_serve fuel room (nabto_coap_client_get_next_timeout now c) (?step (nabto_coap_client_get_next_timeout now c))" for fuel
    using less.prems(2,3) by (simp add: one_request_def nabto_coap_client_get_next_event_def Let_def
        nabto_coap_client_request_need_send_def nabto_coap_client_request_need_wait_def)
  have timeout: "nabto_coap_client_get_next_timeout now c =
      (if nabto_coap_is_stamp_less ?d (now + 42424242) then ?d else now + 42424242)"
    using less.prems(2,3) by (simp add: one_request_def nabto_coap_client_get_next_timeout_def
        nabto_coap_client_request_need_wait_def)
  have less_iff: "nabto_coap_is_stamp_less ?d (now + 42424242) \<longleftrightarrow> unat (?d - now) < 42424242"
    using coap_stamp.less_window [of ?d now "now + 42424242"] less.prems(4) by simp
  show ?case
  proof (cases "unat (?d - now) \<le> 42424242")
    case True
    have "unat (?d - now) = unat (42424242 :: u32) \<Longrightarrow> ?d = now + 42424242"
      by (drule unsigned_word_eqI) (simp add: algebra_simps)
    then have "nabto_coap_client_get_next_timeout now c = ?d"
      using timeout less_iff True by (cases "unat (?d - now) = 42424242") auto
    then show ?thesis using less.prems(1) [of 1 "?step ?d"] after event by simp
  next
    case False
    let ?now = "now + 42424242"
    have n: "nabto_coap_client_get_next_timeout now c = ?now" using timeout less_iff False by simp
    have e: "?d - ?now = (?d - now) - 42424242" by simp
    have u: "unat (?d - ?now) = unat (?d - now) - 42424242"
      unfolding e using False by (subst unat_diff_u32) auto
    have "\<not> nabto_coap_is_stamp_less_equal ?d ?now"
    proof -
      have "?d \<noteq> ?now" using False u less.prems(4) by auto
      then show ?thesis using less_iff False by (simp add: stamp_less_equal_iff)
    qed
    then have "timeout_request ?m ?now r = r" using less.prems(3) by (simp add: timeout_request_def)
    then have one: "one_request a s r (?step ?now)" using after [of ?now] by simp
    have small: "unat (?d - ?now) < unat (?d - now)" "unat (?d - ?now) < 2147483648" using u False less.prems(4) by auto
    obtain k c' where k: "k \<le> unat (?d - ?now) div 42424242 + 1"
      "one_request a s (timeout_request ?m ?d r) c'"
      "\<And>fuel. quiet_serve (k + fuel) room ?now (?step ?now) = quiet_serve fuel room ?d c'"
      using less.hyps [OF small(1) _ one less.prems(3) small(2)] by blast
    have "Suc k \<le> unat (?d - now) div 42424242 + 1" using k(1) u False by (simp add: div_if)
    then show ?thesis using less.prems(1) [of "Suc k" c'] k(2,3) event n by simp
  qed
qed

text \<open>A packet is the same each time it is sent.\<close>

lemma request_packet_again:
  "request_packet (r\<lparr>rq_state := st, rq_timeoutStamp := t, rq_retransmissions := n, rq_status := u\<rparr>) room =
   request_packet r room"
  unfolding request_packet_def fetching_further_block2_def
  by (cases r) (simp only: client_request.select_convs client_request.update_convs)

text \<open>One round: the packet is sent, and its timeout passes.\<close>

definition timed_out :: "u8 \<Rightarrow> client_request \<Rightarrow> client_request" where
  "timed_out m r =
     (if m \<le> rq_retransmissions r then r\<lparr>rq_status := CLIENT_TIMEOUT, rq_state := REQUEST_DONE_CALLBACK\<rparr>
      else r\<lparr>rq_retransmissions := rq_retransmissions r + 1, rq_state := REQUEST_SEND\<rparr>)"

lemma serve_round:
  fixes c :: "'m coap_client"
  assumes "one_request a s r c" "rq_state r = REQUEST_SEND" "rq_type r \<noteq> NON" "request_packet r room \<noteq> None"
  obtains n d and c' :: "'m coap_client" where "n \<le> 52"
    "one_request a s (timed_out (cs_maxRetransmits s) (r\<lparr>rq_timeoutStamp := d\<rparr>)) c'"
    "\<And>fuel. quiet_serve (n + fuel) room now c = map_option (\<lambda>(k, c'). (Suc k, c')) (quiet_serve fuel room d c')"
proof -
  let ?r = "request_sent s now r" and ?t = "nabto_coap_client_ack_timeout s (rq_retransmissions r)"
  let ?d = "rq_timeoutStamp ?r"
  let ?c = "snd (snd (nabto_coap_client_create_packet now room c)) :: 'm coap_client"
  have r: "?r = r\<lparr>rq_state := REQUEST_WAIT_ACK, rq_timeoutStamp := now + ?t\<rparr>"
    using assms(3) by (simp add: request_sent_def)
  note sent = serve_send [OF assms(1,2,4)]
  have "unat ?t < 2147483648" using ack_timeout_value [of "rq_retransmissions r" s] by blast
  then have d: "unat (?d - now) < 2147483648" by (simp add: r)
  have w: "rq_state ?r = REQUEST_WAIT_ACK" by (simp add: r)
  obtain n c2 where n: "n \<le> unat (?d - now) div 42424242 + 1"
    "one_request a s (timeout_request (cs_maxRetransmits s) ?d ?r) c2"
    "\<And>fuel. quiet_serve (n + fuel) room now ?c = quiet_serve fuel room ?d c2"
    using serve_wait [OF sent(1) w d] by blast
  have "unat (?d - now) div 42424242 \<le> 2147483647 div 42424242" using d by (intro div_le_mono) simp
  then have m: "Suc n \<le> 52" using n(1) by simp
  have "timeout_request (cs_maxRetransmits s) ?d ?r = timed_out (cs_maxRetransmits s) (r\<lparr>rq_timeoutStamp := ?d\<rparr>)"
    by (simp add: r timeout_request_def timed_out_def nabto_coap_client_request_need_wait_def
        nabto_coap_is_stamp_less_equal_def)
  then have o: "one_request a s (timed_out (cs_maxRetransmits s) (r\<lparr>rq_timeoutStamp := ?d\<rparr>)) c2" using n(2) by simp
  show thesis
    by (rule that [OF m o]) (use sent(2) n(3) in simp)
qed

lemma serve_all:
  fixes c :: "'m coap_client"
  assumes "one_request a s r c" "rq_state r = REQUEST_SEND" "rq_type r \<noteq> NON" "request_packet r room \<noteq> None"
    "k = unat (cs_maxRetransmits s) - unat (rq_retransmissions r)"
  shows "\<exists>c' :: 'm coap_client. quiet_serve (52 * (k + 1) + 1 + extra) room now c = Some (k + 1, c') \<and>
    rq_state (cc_request c' a) = REQUEST_DONE_CALLBACK \<and> rq_status (cc_request c' a) = CLIENT_TIMEOUT"
  using assms
proof (induction k arbitrary: r c now extra)
  case 0
  then have q: "cs_maxRetransmits s \<le> rq_retransmissions r" by (simp add: word_le_nat_alt)
  obtain n d and c' :: "'m coap_client" where n: "n \<le> 52"
    "one_request a s (timed_out (cs_maxRetransmits s) (r\<lparr>rq_timeoutStamp := d\<rparr>)) c'"
    "\<And>fuel. quiet_serve (n + fuel) room now c = map_option (\<lambda>(k, c'). (Suc k, c')) (quiet_serve fuel room d c')"
    using serve_round [OF 0(1-4), of now] by metis
  have e: "52 * (0 + 1) + 1 + extra = n + Suc (52 - n + extra)" using n(1) by simp
  have "quiet_serve (Suc (52 - n + extra)) room d c' = Some (0, c')"
    by (rule serve_callback [OF n(2)]) (simp add: timed_out_def q)
  then have "quiet_serve (52 * (0 + 1) + 1 + extra) room now c = Some (0 + 1, c')"
    unfolding e n(3) by (simp del: quiet_serve.simps)
  then show ?case using n(2) q by (auto simp: one_request_def timed_out_def)
next
  case (Suc k)
  then have q: "\<not> cs_maxRetransmits s \<le> rq_retransmissions r" by (simp add: word_le_nat_alt)
  obtain n d and c1 :: "'m coap_client" where n: "n \<le> 52"
    "one_request a s (timed_out (cs_maxRetransmits s) (r\<lparr>rq_timeoutStamp := d\<rparr>)) c1"
    "\<And>fuel. quiet_serve (n + fuel) room now c = map_option (\<lambda>(k, c'). (Suc k, c')) (quiet_serve fuel room d c1)"
    using serve_round [OF Suc.prems(1-4), of now] by metis
  let ?r = "timed_out (cs_maxRetransmits s) (r\<lparr>rq_timeoutStamp := d\<rparr>)"
  have r: "?r = r\<lparr>rq_state := REQUEST_SEND, rq_timeoutStamp := d, rq_retransmissions := rq_retransmissions r + 1,
      rq_status := rq_status r\<rparr>"
    using q by (simp add: timed_out_def)
  have k: "k = unat (cs_maxRetransmits s) - unat (rq_retransmissions ?r)"
    using Suc.prems(5) retransmissions_next [OF q] r by simp
  have p: "rq_state ?r = REQUEST_SEND" "rq_type ?r \<noteq> NON" "request_packet ?r room \<noteq> None"
    using Suc.prems(3,4) unfolding r request_packet_again by simp_all
  obtain c' where c': "quiet_serve (52 * (k + 1) + 1 + (52 - n + extra)) room d c1 = Some (k + 1, c')"
    "rq_state (cc_request c' a) = REQUEST_DONE_CALLBACK" "rq_status (cc_request c' a) = CLIENT_TIMEOUT"
    using Suc.IH [OF n(2) p k] by blast
  have e: "52 * (Suc k + 1) + 1 + extra = n + (52 * (k + 1) + 1 + (52 - n + extra))" using n(1) by simp
  have "quiet_serve (52 * (Suc k + 1) + 1 + extra) room now c = Some (Suc k + 1, c')"
    unfolding e n(3) c'(1) by simp
  then show ?case using c' by blast
qed

text \<open>C21: An unanswered request is given up.  An integrator that follows the events of a client with one confirmable
  request that nobody answers comes to its callback: the request has then been sent once and \<open>maxRetransmits\<close>
  times again, and is reported as timed out.  The number of events handled is at most 52 for each packet and
  one for the callback, because the longest timeout is covered by 51 waits.\<close>

theorem request_times_out:
  fixes c :: "'m coap_client"
  assumes "one_request a (cc_settings c) (cc_request c a) c" "rq_state (cc_request c a) = REQUEST_SEND"
    "rq_type (cc_request c a) = CON" "rq_retransmissions (cc_request c a) = 0"
    "request_packet (cc_request c a) room \<noteq> None"
    "52 * (unat (cs_maxRetransmits (cc_settings c)) + 1) + 1 \<le> fuel"
  shows "\<exists>c' :: 'm coap_client. quiet_serve fuel room now c = Some (unat (cs_maxRetransmits (cc_settings c)) + 1, c') \<and>
    rq_state (cc_request c' a) = REQUEST_DONE_CALLBACK \<and> rq_status (cc_request c' a) = CLIENT_TIMEOUT"
proof -
  obtain extra where "fuel = 52 * (unat (cs_maxRetransmits (cc_settings c)) + 1) + 1 + extra"
    using assms(6) le_Suc_ex by blast
  then show ?thesis
    using serve_all [OF assms(1,2) _ assms(5), of "unat (cs_maxRetransmits (cc_settings c))" extra now] assms(3,4) by simp
qed

section \<open>An example\<close>

definition sample_coap_sent :: "counting coap_client" where
  "sample_coap_sent = nabto_coap_client_request_send 4 sample_requested"

definition sample_request :: client_request where
  "sample_request = zero_client_request
     \<lparr>rq_state := REQUEST_SEND, rq_method := 1, rq_pathSegments := [[97]], rq_configuredTimeoutMilliseconds := 120000,
      rq_token := [1, 0, 0, 0, 0, 0, 0, 0], rq_messageId := 1, rq_block1Size := 5, rq_connection := 5\<rparr>"

lemma sample_coap_sent_one:
  "one_request 4 (cc_settings sample_coap_sent) sample_request sample_coap_sent"
  "cc_settings sample_coap_sent = \<lparr>cs_ackTimeoutMilliseconds = 2000, cs_maxRetransmits = 4, cs_maxResponsePayload = 100000\<rparr>"
  by (simp_all add: one_request_def sample_request_def sample_coap_sent_def sample_requested_def sample_coap_client_def
      nabto_coap_client_init_def nabto_coap_client_request_new_def nabto_coap_client_request_send_def client_notify_def
      client_calloc_def Let_def nabto_coap_client_next_token_def nabto_coap_client_next_message_id_def
      nabto_coap_client_insert_request_into_list_def set_request_def zero_client_request_def be64_def host_bytes_def
      byte_at_def NABTO_COAP_ACK_TIMEOUT_def NABTO_COAP_MAX_RETRANSMITS_def)

lemma sample_request_packet:
  "request_packet sample_request 100 =
     Some ([0x48, 1, 0, 1, 1, 0, 0, 0, 0, 0, 0, 0, 0xB1, 97], 86)"
  by (simp add: request_packet_def sample_request_def zero_client_request_def nabto_coap_encode_header_def Let_def
      nabto_coap_encode_option_def encode_option_field_def byte_at_def fetching_further_block2_def)

theorem request_times_out_witness:
  "\<exists>c'. quiet_serve 261 100 0 sample_coap_sent = Some (5, c') \<and>
    rq_state (cc_request c' 4) = REQUEST_DONE_CALLBACK \<and> rq_status (cc_request c' 4) = CLIENT_TIMEOUT"
proof -
  have r: "cc_request sample_coap_sent 4 = sample_request" using sample_coap_sent_one(1) by (simp add: one_request_def)
  have one: "one_request 4 (cc_settings sample_coap_sent) (cc_request sample_coap_sent 4) sample_coap_sent"
    unfolding r by (rule sample_coap_sent_one(1))
  show ?thesis
    using request_times_out [OF one, of 100 261 0] unfolding r sample_request_packet sample_coap_sent_one(2)
    by (simp add: sample_request_def zero_client_request_def)
qed

end
