(* ===== verification/Coap_Client_Packets.thy ===== *)
theory Coap_Client_Packets
  imports Coap_Client_Timing
begin

text \<open>
  The packets of the CoAP client: the packet of a request is a message that says what the request says, and a
  packet that arrives changes the request it belongs to and no other.
\<close>

section \<open>The packet of a request\<close>

definition varint_bytes :: "u32 \<Rightarrow> bytes" where
  "varint_bytes v = (case nabto_coap_encode_variable_int [0, 0, 0, 0] 4 v of None \<Rightarrow> [] | Some (bs, n) \<Rightarrow> take n bs)"

lemma encode_varint_bytes: "nabto_coap_encode_varint_option delta v p = nabto_coap_encode_option delta (varint_bytes v) p"
  "length (varint_bytes v) = digits256 (unat v)"
proof -
  note n = encode_variable_int_length [of v, THEN conjunct2]
  obtain bs where e: "nabto_coap_encode_variable_int [0, 0, 0, 0] 4 v = Some (bs, digits256 (unat v))"
    "bs = variable_fill v (digits256 (unat v)) [0, 0, 0, 0]"
    using digits256_u32 [of v] by (simp add: nabto_coap_encode_variable_int_def Let_def word_less_nat_alt not_less n)
  have "length bs = 4" using e(2) variable_fill_value(1) [of v "digits256 (unat v)" "[0, 0, 0, 0]"] digits256_u32 [of v] by simp
  then show "nabto_coap_encode_varint_option delta v p = nabto_coap_encode_option delta (varint_bytes v) p"
    "length (varint_bytes v) = digits256 (unat v)"
    using e(1) digits256_u32 [of v] by (simp_all add: nabto_coap_encode_varint_option_def varint_bytes_def)
qed

text \<open>The body or a chunk of it goes into the packet, unless a further block of the response is asked for.\<close>

definition sends_body :: "client_request \<Rightarrow> bool" where
  "sends_body r \<longleftrightarrow> \<not> fetching_further_block2 r \<and> rq_block1Offset r < rq_payloadLength r"

definition request_block1 :: "client_request \<Rightarrow> u32" where
  "request_block1 r =
     push_bit 4 (of_nat (rq_block1Offset r div nabto_coap_block_size_from_szx (rq_block1Size r))) +
     push_bit 3 (if rq_payloadLength r - rq_block1Offset r \<le> nabto_coap_block_size_from_szx (rq_block1Size r) then 0 else 1) +
     rq_block1Size r"

definition request_options :: "client_request \<Rightarrow> (u16 \<times> bytes) list" where
  "request_options r =
     (if rq_isObserve r then [(OPTION_OBSERVE, varint_bytes (if rq_observeDeregister r then 1 else 0))] else []) @
     List.map (Pair OPTION_URI_PATH) (rq_pathSegments r) @
     (if rq_hasContentFormat r then [(OPTION_CONTENT_FORMAT, varint_bytes (ucast (rq_contentFormat r)))] else []) @
     (if rq_hasBlock2 r then [(OPTION_BLOCK2, varint_bytes (rq_block2 r))] else []) @
     (if sends_body r \<and> nabto_coap_block_size_from_szx (rq_block1Size r) < rq_payloadLength r
      then [(OPTION_BLOCK1, varint_bytes (request_block1 r))] else [])"

definition last_option :: "u16 \<Rightarrow> (u16 \<times> bytes) list \<Rightarrow> u16" where
  "last_option n opts = (if opts = [] then n else fst (last opts))"

lemma encode_options_append:
  "encode_options n (xs @ ys) p = encode_options (last_option n xs) ys (encode_options n xs p)"
  by (induction xs arbitrary: n p) (auto simp: last_option_def)

lemma last_option_append: "last_option n (xs @ ys) = last_option (last_option n xs) ys"
  by (auto simp: last_option_def)

lemma encode_path_options:
  "encode_path_segments n segs p =
     (last_option n (List.map (Pair OPTION_URI_PATH) segs), encode_options n (List.map (Pair OPTION_URI_PATH) segs) p)"
  by (induction segs arbitrary: n p) (auto simp: last_option_def)

lemma request_packet_options:
  "request_packet r room =
     nabto_coap_encode_payload (if sends_body r then Some (block1_chunk r) else None)
       (encode_options 0 (request_options r)
         (nabto_coap_encode_header \<lparr>mh_type = rq_type r, mh_code = rq_method r, mh_messageId = rq_messageId r,
            mh_token = rq_token r\<rparr> (Some ([], room))))"
proof -
  let ?bs = "nabto_coap_block_size_from_szx (rq_block1Size r)"
  let ?rest = "rq_payloadLength r - rq_block1Offset r"
  have chunk: "take (if ?bs < ?rest then ?bs else ?rest) (drop (rq_block1Offset r) (owned_data (rq_payload r))) = block1_chunk r"
    by (auto simp: block1_chunk_def owned_length_data)
  show ?thesis
    unfolding request_packet_def request_options_def encode_options_append encode_path_options encode_varint_bytes(1) Let_def
      sends_body_def [symmetric] chunk
    by (cases "sends_body r") (simp_all add: last_option_def request_block1_def nabto_coap_encode_payload_def [of None])
qed

lemma request_options_sorted: "sorted (List.map (unat \<circ> fst) (request_options r))"
proof -
  have "sorted (List.map (\<lambda>x. 11 :: nat) xs)" for xs :: "bytes list" by (induction xs) auto
  then show ?thesis by (auto simp: request_options_def sorted_append comp_def List.map_map)
qed

lemma digits_24: "unat (v :: u32) < 16777216 \<Longrightarrow> digits256 (unat v) \<le> 3"
  by (rule digits256_le) simp

lemma varint_16: "length (varint_bytes (ucast (v :: u16))) \<le> 2"
  unfolding encode_varint_bytes(2) using unat_u16_less [of v] by (intro digits256_le) (simp del: unat_u16_less)

lemma request_block1_small:
  assumes "unat (rq_block1Size r) \<le> 5"
    "rq_block1Offset r div nabto_coap_block_size_from_szx (rq_block1Size r) \<le> NABTO_COAP_BLOCK_NUM_MAX"
  shows "unat (request_block1 r) < 16777216"
proof -
  let ?n = "rq_block1Offset r div nabto_coap_block_size_from_szx (rq_block1Size r)"
  let ?m = "if rq_payloadLength r - rq_block1Offset r \<le> nabto_coap_block_size_from_szx (rq_block1Size r) then 0 else 1 :: u32"
  have "request_block1 r = of_nat (16 * ?n + (if ?m = 0 then 0 else 8) + unat (rq_block1Size r))"
    by (simp add: request_block1_def push_bit_eq_mult)
  moreover have "16 * ?n + (if ?m = 0 then 0 else 8) + unat (rq_block1Size r) < 16777216"
    using assms by (auto simp: NABTO_COAP_BLOCK_NUM_MAX_def)
  moreover have "unat (of_nat k :: u32) = k" if "k < 16777216" for k
    using that by (simp add: unat_of_nat)
  ultimately show ?thesis by metis
qed

lemma request_options_ok:
  assumes "unat (rq_block1Size r) \<le> 5"
    "rq_block1Offset r div nabto_coap_block_size_from_szx (rq_block1Size r) \<le> NABTO_COAP_BLOCK_NUM_MAX"
    "unat (rq_block2 r) < 16777216"
  shows "\<forall>opt \<in> set (request_options r). option_ok opt"
proof -
  have "length (varint_bytes 1) \<le> 3" "length (varint_bytes 0) \<le> 3" "length (varint_bytes (rq_block2 r)) \<le> 3"
    "length (varint_bytes (request_block1 r)) \<le> 3"
    unfolding encode_varint_bytes(2)
    by (rule digits_24, use assms(3) request_block1_small [OF assms(1,2)] in simp)+
  then show ?thesis using varint_16 by (auto simp: request_options_def option_ok_def)
qed

text \<open>C22: The packet of a request parses back: the server gets the type, the method, the message id, the token, the
  options that the request asks for in the order of their numbers, and the chunk of the body at the offset
  of the transfer, or no payload when there is nothing left to send or a further block of the response is
  asked for.\<close>

theorem request_packet_parses:
  assumes "request_packet r room = Some (packet, left)" "length (rq_token r) \<le> 8" "unat (rq_method r) < 256"
    "unat (rq_block1Size r) \<le> 5"
    "rq_block1Offset r div nabto_coap_block_size_from_szx (rq_block1Size r) \<le> NABTO_COAP_BLOCK_NUM_MAX"
    "unat (rq_block2 r) < 2 ^ 24"
  shows "\<exists>m. nabto_coap_parse_message packet = Some m \<and>
    im_type m = rq_type r \<and> im_code m = rq_method r \<and> im_messageId m = rq_messageId r \<and> im_token m = rq_token r \<and>
    options_of (nabto_coap_option_iterator_init (im_options m)) = request_options r \<and>
    im_payload m = (if sends_body r then Some (block1_chunk r) else None) \<and> length packet + left = room"
proof -
  let ?h = "\<lparr>mh_type = rq_type r, mh_code = rq_method r, mh_messageId = rq_messageId r, mh_token = rq_token r\<rparr>"
  have "nabto_coap_block_size_from_szx (rq_block1Size r) \<noteq> 0" using assms(4) by (simp add: block_size_value)
  then have chunk: "block1_chunk r \<noteq> []" if "sends_body r"
    using that by (simp add: sends_body_def block1_chunk_def owned_length_data)
  have "\<forall>opt \<in> set (request_options r). option_ok opt" using request_options_ok assms(4-6) by simp
  from encoded_message_parses [OF assms(1) [unfolded request_packet_options], simplified, OF assms(2,3) _ this]
  show ?thesis using request_options_sorted chunk by (auto simp: comp_def)
qed

section \<open>What a packet changes\<close>

lemma ack_loop_cases:
  "handle_ack_loop as m k now c = c \<or> (\<exists>d \<in> set as. (rq_state (cc_request c d) = REQUEST_WAIT_ACK \<and> rq_messageId (cc_request c d) = m \<and> rq_connection (cc_request c d) = k) \<and>
     handle_ack_loop as m k now c = set_request d (\<lambda>r. r\<lparr>rq_state := REQUEST_WAIT_RESPONSE, rq_timeoutStamp := now + rq_configuredTimeoutMilliseconds r\<rparr>) c)"
proof (induction as)
  case (Cons d as)
  show ?case
  proof (cases "(rq_state (cc_request c d) = REQUEST_WAIT_ACK \<and> rq_messageId (cc_request c d) = m \<and> rq_connection (cc_request c d) = k)")
    case True
    then show ?thesis by (intro disjI2 bexI [of _ d]) (simp_all add: Let_def)
  next
    case False
    then have "handle_ack_loop (d # as) m k now c = handle_ack_loop as m k now c"
      by (simp add: Let_def) blast
    then show ?thesis using Cons.IH by auto
  qed
qed simp

lemma ack_loop_changes:
  assumes "cc_request (handle_ack_loop as m k now c) a \<noteq> cc_request c a"
  shows "a \<in> set as \<and> (rq_state (cc_request c a) = REQUEST_WAIT_ACK \<and> rq_messageId (cc_request c a) = m \<and> rq_connection (cc_request c a) = k) \<and>
    (\<forall>b. b \<noteq> a \<longrightarrow> cc_request (handle_ack_loop as m k now c) b = cc_request c b)"
proof -
  obtain d where d: "d \<in> set as" "(rq_state (cc_request c d) = REQUEST_WAIT_ACK \<and> rq_messageId (cc_request c d) = m \<and> rq_connection (cc_request c d) = k)"
    "handle_ack_loop as m k now c = set_request d (\<lambda>r. r\<lparr>rq_state := REQUEST_WAIT_RESPONSE, rq_timeoutStamp := now + rq_configuredTimeoutMilliseconds r\<rparr>) c"
  proof -
    have "handle_ack_loop as m k now c \<noteq> c" using assms by auto
    then show thesis using that ack_loop_cases [of as m k now c] by blast
  qed
  have "d = a" using assms unfolding d(3) by (simp split: if_split_asm)
  then show ?thesis using d by simp
qed

lemma rst_loop_cases:
  "handle_rst_loop as m k c = c \<or> (\<exists>d \<in> set as. ((rq_state (cc_request c d) = REQUEST_WAIT_ACK \<or> (rq_state (cc_request c d) = REQUEST_WAIT_RESPONSE \<and> rq_type (cc_request c d) = NON)) \<and> rq_messageId (cc_request c d) = m \<and> rq_connection (cc_request c d) = k) \<and>
     handle_rst_loop as m k c = set_request d (\<lambda>r. r\<lparr>rq_status := CLIENT_RESET, rq_state := REQUEST_DONE_CALLBACK\<rparr>) c)"
proof (induction as)
  case (Cons d as)
  show ?case
  proof (cases "((rq_state (cc_request c d) = REQUEST_WAIT_ACK \<or> (rq_state (cc_request c d) = REQUEST_WAIT_RESPONSE \<and> rq_type (cc_request c d) = NON)) \<and> rq_messageId (cc_request c d) = m \<and> rq_connection (cc_request c d) = k)")
    case True
    then show ?thesis by (intro disjI2 bexI [of _ d]) (simp_all add: Let_def)
  next
    case False
    then have "handle_rst_loop (d # as) m k c = handle_rst_loop as m k c"
      by (simp add: Let_def) blast
    then show ?thesis using Cons.IH by auto
  qed
qed simp

lemma rst_loop_changes:
  assumes "cc_request (handle_rst_loop as m k c) a \<noteq> cc_request c a"
  shows "a \<in> set as \<and> ((rq_state (cc_request c a) = REQUEST_WAIT_ACK \<or> (rq_state (cc_request c a) = REQUEST_WAIT_RESPONSE \<and> rq_type (cc_request c a) = NON)) \<and> rq_messageId (cc_request c a) = m \<and> rq_connection (cc_request c a) = k) \<and>
    (\<forall>b. b \<noteq> a \<longrightarrow> cc_request (handle_rst_loop as m k c) b = cc_request c b)"
proof -
  obtain d where d: "d \<in> set as" "((rq_state (cc_request c d) = REQUEST_WAIT_ACK \<or> (rq_state (cc_request c d) = REQUEST_WAIT_RESPONSE \<and> rq_type (cc_request c d) = NON)) \<and> rq_messageId (cc_request c d) = m \<and> rq_connection (cc_request c d) = k)"
    "handle_rst_loop as m k c = set_request d (\<lambda>r. r\<lparr>rq_status := CLIENT_RESET, rq_state := REQUEST_DONE_CALLBACK\<rparr>) c"
  proof -
    have "handle_rst_loop as m k c \<noteq> c" using assms by auto
    then show thesis using that rst_loop_cases [of as m k c] by blast
  qed
  have "d = a" using assms unfolding d(3) by (simp split: if_split_asm)
  then show ?thesis using d by simp
qed

lemma response_changes:
  assumes "b \<noteq> a"
  shows "cc_request (snd (nabto_coap_client_parse_and_handle_response a message k c)) b = cc_request c b"
proof -
  obtain s c' where "nabto_coap_client_parse_and_handle_response a message k c = (s, c')" by (metis surj_pair)
  from keeps_handle_response [OF this, of "\<lambda>_. {}"] this show ?thesis
    using assms by (auto simp: keeps_def client_frame_def dest!: fun_cong [of _ _ b])
qed

definition packet_matches :: "coap_incoming_message \<Rightarrow> client_request \<Rightarrow> bool" where
  "packet_matches message r \<longleftrightarrow>
     (if im_type message = RST \<or> (im_type message = ACK \<and> im_code message = NABTO_COAP_CODE_EMPTY)
      then rq_messageId r = im_messageId message else rq_token r = im_token message)"

text \<open>A packet changes at most one request, and only one that is on the connection the packet came from, that is
  waiting for an ack or a response, and that has the message id of an empty ack or a reset, or the token of a
  response: a peer cannot answer or end the request of someone else.\<close>

theorem packet_changes_own_request:
  assumes "cc_request (snd (nabto_coap_client_handle_packet now packet k c)) a \<noteq> cc_request c a"
  shows "a \<in> set (cc_requests c) \<and> rq_connection (cc_request c a) = k \<and>
    rq_state (cc_request c a) \<in> {REQUEST_WAIT_ACK, REQUEST_WAIT_RESPONSE} \<and>
    (\<exists>m. nabto_coap_parse_message packet = Some m \<and> packet_matches m (cc_request c a)) \<and>
    (\<forall>b. b \<noteq> a \<longrightarrow> cc_request (snd (nabto_coap_client_handle_packet now packet k c)) b = cc_request c b)"
proof -
  obtain m where m: "nabto_coap_parse_message packet = Some m"
    using assms by (cases "nabto_coap_parse_message packet") (auto simp: nabto_coap_client_handle_packet_def)
  have rst: "cc_request (client_send_rst i k d) = cc_request d" for i k and d :: "'a coap_client"
    by (simp add: client_send_rst_def)
  let ?c = "snd (nabto_coap_client_handle_packet now packet k c)"
  let ?ack = "im_type m = ACK \<and> im_code m = NABTO_COAP_CODE_EMPTY" and ?find = "nabto_coap_client_find_request m k c"
  have "cc_request ?c = cc_request c \<or>
      (if ?ack then ?c = handle_ack_loop (cc_requests c) (im_messageId m) k now c
       else if im_type m = RST then ?c = handle_rst_loop (cc_requests c) (im_messageId m) k c
       else case ?find of None \<Rightarrow> cc_request ?c = cc_request c
         | Some d \<Rightarrow> ?c = snd (nabto_coap_client_handle_request_response d m k c))"
    by (simp add: nabto_coap_client_handle_packet_def m nabto_coap_client_handle_ack_def nabto_coap_client_handle_rst_def rst
        split: option.split)
  moreover have "cc_request (snd (nabto_coap_client_handle_request_response d m k c)) = cc_request c \<or>
      rq_state (cc_request c d) \<in> {REQUEST_WAIT_ACK, REQUEST_WAIT_RESPONSE} \<and>
      snd (nabto_coap_client_handle_request_response d m k c) = snd (nabto_coap_client_parse_and_handle_response d m k c)" for d
    by (simp add: nabto_coap_client_handle_request_response_def rst)
  ultimately consider (same) "cc_request ?c = cc_request c"
    | (ack) ?ack "?c = handle_ack_loop (cc_requests c) (im_messageId m) k now c"
    | (rst) "im_type m = RST" "?c = handle_rst_loop (cc_requests c) (im_messageId m) k c"
    | (response) d where "\<not> (im_type m = RST \<or> ?ack)" "?find = Some d"
      "rq_state (cc_request c d) \<in> {REQUEST_WAIT_ACK, REQUEST_WAIT_RESPONSE}"
      "?c = snd (nabto_coap_client_parse_and_handle_response d m k c)"
    by (cases ?find) (simp_all split: if_split_asm, metis+)
  then show ?thesis
  proof cases
    case same
    then show ?thesis using assms by simp
  next
    case ack
    have ch: "a \<in> set (cc_requests c) \<and> (rq_state (cc_request c a) = REQUEST_WAIT_ACK \<and>
        rq_messageId (cc_request c a) = im_messageId m \<and> rq_connection (cc_request c a) = k) \<and>
        (\<forall>b. b \<noteq> a \<longrightarrow> cc_request (handle_ack_loop (cc_requests c) (im_messageId m) k now c) b = cc_request c b)"
      by (rule ack_loop_changes) (use assms ack(2) in metis)
    then have "rq_messageId (cc_request c a) = im_messageId m" by blast
    then have "packet_matches m (cc_request c a)" using ack(1) by (simp add: packet_matches_def)
    then show ?thesis unfolding ack(2) using m ch by blast
  next
    case rst
    have ch: "a \<in> set (cc_requests c) \<and> ((rq_state (cc_request c a) = REQUEST_WAIT_ACK \<or>
          (rq_state (cc_request c a) = REQUEST_WAIT_RESPONSE \<and> rq_type (cc_request c a) = NON)) \<and>
        rq_messageId (cc_request c a) = im_messageId m \<and> rq_connection (cc_request c a) = k) \<and>
        (\<forall>b. b \<noteq> a \<longrightarrow> cc_request (handle_rst_loop (cc_requests c) (im_messageId m) k c) b = cc_request c b)"
      by (rule rst_loop_changes) (use assms rst(2) in metis)
    then have "rq_messageId (cc_request c a) = im_messageId m" by blast
    then have "packet_matches m (cc_request c a)" using rst(1) by (simp add: packet_matches_def)
    then show ?thesis unfolding rst(2) using m ch by blast
  next
    case (response d)
    have d: "d \<in> set (cc_requests c)" "rq_connection (cc_request c d) = k" "rq_token (cc_request c d) = im_token m"
      using response(2) by (auto simp: nabto_coap_client_find_request_def find_Some_iff)
    have "d = a" using assms response(4) response_changes [of a d m k c] by auto
    then show ?thesis
      using d response response_changes [of _ d m k c] m by (auto simp: packet_matches_def)
  qed
qed

section \<open>The end of an observation\<close>

text \<open>The handler of a request that observes a resource is called with the status of a notification also when the
  request has been deregistered and its last response has arrived, although the header says that it is
  called one final time with the status OK.\<close>

theorem deregister_reports_notification:
  assumes "rq_status (cc_request c a) = CLIENT_OBSERVE_NOTIFICATION" "rq_observeDeregister (cc_request c a)"
    "c' = snd (nabto_coap_client_parse_and_handle_response a message k c)"
    "rq_state (cc_request c' a) = REQUEST_DONE_CALLBACK" "nabto_coap_client_handle_callback c' = (Some a, c'')"
  shows "rq_state (cc_request c'' a) = REQUEST_DONE \<and>
    nabto_coap_client_request_get_status (cc_request c'' a) = CLIENT_OBSERVE_NOTIFICATION"
proof -
  have f: "request_fixed (cc_request c' a) = request_fixed (cc_request c a)"
    using same_fixed_response [of a c message k] assms(3) by (simp add: same_fixed_def)
  have "rq_status (request_fixed r) = rq_status r" "rq_observeDeregister (request_fixed r) = rq_observeDeregister r" for r
    by (simp_all add: request_fixed_def)
  then have r: "rq_status (cc_request c' a) = CLIENT_OBSERVE_NOTIFICATION" "rq_observeDeregister (cc_request c' a)"
    using f assms(1,2) by metis+
  have "cc_request c2 a = (cc_request c' a)\<lparr>rq_state := REQUEST_DONE\<rparr>"
    if "handle_callback_loop as c' = (Some a, c2)" for as c2
    using that
  proof (induction as)
    case (Cons b as)
    show ?case
    proof (cases "rq_state (cc_request c' b) = REQUEST_DONE_CALLBACK")
      case True
      then have "b = a" using Cons.prems True by (simp add: Let_def split: if_split_asm)
      have "c2 = set_request a (\<lambda>r. r\<lparr>rq_state := REQUEST_DONE\<rparr>) c'"
        using Cons.prems True r(2) unfolding \<open>b = a\<close> by (simp add: Let_def)
      then show ?thesis by simp
    next
      case False
      then show ?thesis using Cons by (simp add: Let_def)
    qed
  qed simp
  from this [OF assms(5) [unfolded nabto_coap_client_handle_callback_def]]
  have "cc_request c'' a = (cc_request c' a)\<lparr>rq_state := REQUEST_DONE\<rparr>" .
  then show ?thesis using r by (simp add: nabto_coap_client_request_get_status_def)
qed

section \<open>Examples\<close>

definition sample_body :: bytes where
  "sample_body = replicate 16 1 @ replicate 16 2 @ replicate 8 3"

definition sample_upload :: client_request where
  "sample_upload = zero_client_request\<lparr>rq_payload := Some (9, sample_body)\<rparr>"

text \<open>The acknowledgement of the first block comes twice.\<close>

theorem block1_delivers_body_witness:
  "concat (fst (acked_chunks [0, 0, 16, 32] sample_upload)) = sample_body"
proof -
  obtain chunks r' where a: "acked_chunks [0, 0, 16, 32] sample_upload = (chunks, r')" by (metis surj_pair)
  have ok: "block1_ok sample_upload" "rq_block1Offset sample_upload = 0"
    "rq_payloadLength sample_upload div nabto_coap_block_size_from_szx (rq_block1Size sample_upload) \<le> NABTO_COAP_BLOCK_NUM_MAX"
    by (simp_all add: block1_ok_def sample_upload_def sample_body_def zero_client_request_def nabto_coap_block_size_from_szx_def
        NABTO_COAP_BLOCK_NUM_MAX_def)
  have "rq_block1Offset r' = rq_payloadLength r'"
    using a by (simp add: sample_upload_def sample_body_def zero_client_request_def nabto_coap_client_block1_advance_def Let_def
        nabto_coap_block_size_from_szx_def NABTO_COAP_BLOCK_NUM_def NABTO_COAP_BLOCK_SIZE_def nabto_coap_client_block1_adopt_size_def)
      auto
  then have "concat chunks = owned_data (rq_payload sample_upload)" using block1_delivers_body [OF a ok] by blast
  then show ?thesis unfolding a by (simp add: sample_upload_def)
qed

text \<open>A client that waits for a response, with some blocks of it already there.\<close>

definition sample_waiting :: "owned_bytes option \<Rightarrow> client_status \<Rightarrow> bool \<Rightarrow> counting coap_client" where
  "sample_waiting response status deregister = set_request 4 (\<lambda>r. sample_request
     \<lparr>rq_state := REQUEST_WAIT_RESPONSE, rq_status := status, rq_isObserve := deregister, rq_observeDeregister := deregister,
      rq_response := map_option (\<lambda>p. \<lparr>rp_address = 6, rp_code = 69, rp_hasContentFormat = False, rp_contentFormat = 0,
        rp_payload = p, rp_messageId = 7, rp_hasObserve = False, rp_observe = 0\<rparr>) response\<rparr>) sample_requested"

definition sample_block :: "u32 \<Rightarrow> bytes \<Rightarrow> coap_incoming_message" where
  "sample_block block2 data = empty_message\<lparr>im_code := 69, im_messageId := 8, im_token := [1, 0, 0, 0, 0, 0, 0, 0],
     im_hasBlock2 := True, im_block2 := block2, im_payload := Some data\<rparr>"

lemmas sample_defs = sample_waiting_def sample_block_def sample_request_def zero_client_request_def empty_message_def
  set_request_def Let_def

lemmas block_defs = NABTO_COAP_BLOCK_NUM_def NABTO_COAP_BLOCK_SIZE_def NABTO_COAP_BLOCK_MORE_def
  NABTO_COAP_BLOCK_OFFSET_def nabto_coap_block_offset_def NABTO_COAP_BLOCK_SIZE_ABSOLUTE_def nabto_coap_block_size_from_szx_def

lemma sample_block_of: "block_of sample_body (sample_block 8 (replicate 16 1))"
  by (simp add: block_of_def sample_defs block_defs message_data_def sample_body_def)

theorem block2_reassembles_witness:
  "prefix (body_so_far 4 (snd (nabto_coap_client_parse_and_handle_response 4 (sample_block 8 (replicate 16 1)) 5
     (sample_waiting None CLIENT_OK False)))) sample_body"
proof -
  obtain status c' where r: "nabto_coap_client_parse_and_handle_response 4 (sample_block 8 (replicate 16 1)) 5
     (sample_waiting None CLIENT_OK False) = (status, c')" by (metis surj_pair)
  have "prefix (body_so_far 4 (sample_waiting None CLIENT_OK False)) sample_body"
    "rq_state (cc_request (sample_waiting None CLIENT_OK False) 4) \<in> {REQUEST_WAIT_ACK, REQUEST_WAIT_RESPONSE}"
    by (simp_all add: body_so_far_def sample_defs)
  from block2_reassembles [OF sample_block_of this r] show ?thesis using r by simp
qed

lemmas client_defs = sample_defs sample_requested_def sample_coap_client_def nabto_coap_client_init_def nabto_coap_client_request_new_def
  client_calloc_def nabto_coap_client_next_token_def nabto_coap_client_next_message_id_def
  nabto_coap_client_insert_request_into_list_def be64_def host_bytes_def byte_at_def

lemmas response_defs = nabto_coap_client_parse_and_handle_response_def prepare_response_def copy_options_def store_body_def
  store_block2_def store_whole_def handle_block1_def is_fresh_response_def set_response_def free_owned_def client_free_def
  im_payloadLength_def

text \<open>Two blocks are there when the first one arrives again.\<close>

theorem repeated_first_block_restarts_witness:
  "body_so_far 4 (snd (nabto_coap_client_parse_and_handle_response 4 (sample_block 8 (replicate 16 1)) 5
     (sample_waiting (Some (Some (8, take 32 sample_body))) CLIENT_OK False))) = replicate 16 1"
proof -
  let ?c = "sample_waiting (Some (Some (8, take 32 sample_body))) CLIENT_OK False"
  let ?r = "nabto_coap_client_parse_and_handle_response 4 (sample_block 8 (replicate 16 1)) 5 ?c"
  have "fst ?r = CLIENT_OK"
    by (simp add: response_defs client_defs block_defs)
  then have r: "?r = (CLIENT_OK, snd ?r)" by (metis prod.collapse)
  have q: "rq_response (cc_request ?c 4) = Some \<lparr>rp_address = 6, rp_code = 69, rp_hasContentFormat = False, rp_contentFormat = 0,
      rp_payload = Some (8, take 32 sample_body), rp_messageId = 7, rp_hasObserve = False, rp_observe = 0\<rparr>"
    by (simp add: sample_defs)
  from repeated_first_block_restarts [OF sample_block_of _ _ _ q r]
  have "body_so_far 4 (snd ?r) = take (NABTO_COAP_BLOCK_SIZE_ABSOLUTE (im_block2 (sample_block 8 (replicate 16 1)))) sample_body"
    by (simp add: sample_block_def empty_message_def block_defs)
  then show ?thesis by (simp add: sample_block_def empty_message_def block_defs sample_body_def)
qed

text \<open>An empty ack for the request that waits for it.\<close>

definition sample_unacked :: "counting coap_client" where
  "sample_unacked = set_request 4 (\<lambda>r. r\<lparr>rq_state := REQUEST_WAIT_ACK\<rparr>) (sample_waiting None CLIENT_OK False)"

theorem packet_changes_own_request_witness:
  "\<exists>m. nabto_coap_parse_message [0x60, 0, 0, 1] = Some m \<and> packet_matches m (cc_request sample_unacked 4) \<and>
    cc_request (snd (nabto_coap_client_handle_packet 10 [0x60, 0, 0, 1] 5 sample_unacked)) 4 \<noteq> cc_request sample_unacked 4"
proof -
  have p: "nabto_coap_parse_message [0x60, 0, 0, 1] = Some (empty_message\<lparr>im_type := ACK, im_messageId := 1\<rparr>)"
    by (simp add: nabto_coap_parse_message_def parse_message_tail_def coap_type_of_bits_def empty_message_def)
  have "rq_state (cc_request (snd (nabto_coap_client_handle_packet 10 [0x60, 0, 0, 1] 5 sample_unacked)) 4) = REQUEST_WAIT_RESPONSE"
    by (simp add: nabto_coap_client_handle_packet_def p nabto_coap_client_handle_ack_def sample_unacked_def client_defs)
  moreover have "rq_state (cc_request sample_unacked 4) = REQUEST_WAIT_ACK" by (simp add: sample_unacked_def)
  ultimately have "cc_request (snd (nabto_coap_client_handle_packet 10 [0x60, 0, 0, 1] 5 sample_unacked)) 4 \<noteq> cc_request sample_unacked 4"
    by auto
  from packet_changes_own_request [OF this] this show ?thesis by blast
qed

theorem deregister_reports_notification_witness:
  "\<exists>c''. nabto_coap_client_handle_callback (snd (nabto_coap_client_parse_and_handle_response 4
       (empty_message\<lparr>im_code := 69, im_token := [1, 0, 0, 0, 0, 0, 0, 0]\<rparr>) 5
       (sample_waiting None CLIENT_OBSERVE_NOTIFICATION True))) = (Some 4, c'') \<and>
     nabto_coap_client_request_get_status (cc_request c'' 4) = CLIENT_OBSERVE_NOTIFICATION"
proof -
  let ?c = "sample_waiting None CLIENT_OBSERVE_NOTIFICATION True"
  let ?m = "empty_message\<lparr>im_code := 69, im_token := [1, 0, 0, 0, 0, 0, 0, 0]\<rparr>"
  let ?c' = "snd (nabto_coap_client_parse_and_handle_response 4 ?m 5 ?c)"
  have s: "rq_state (cc_request ?c' 4) = REQUEST_DONE_CALLBACK" "cc_requests ?c' = [4]"
    by (simp_all add: response_defs client_defs finish_response_def ack_confirmable_def nabto_coap_client_send_ack_def)
  have "fst (nabto_coap_client_handle_callback ?c') = Some 4"
    using s by (simp add: nabto_coap_client_handle_callback_def Let_def)
  then have "nabto_coap_client_handle_callback ?c' = (Some 4, snd (nabto_coap_client_handle_callback ?c'))"
    by (metis prod.collapse)
  from deregister_reports_notification [OF _ _ refl s(1) this] this show ?thesis
    by (intro exI conjI) (auto simp: sample_defs)
qed

theorem request_packet_parses_witness:
  "\<exists>m. nabto_coap_parse_message [0x48, 1, 0, 1, 1, 0, 0, 0, 0, 0, 0, 0, 0xB1, 97] = Some m \<and>
    im_code m = 1 \<and> options_of (nabto_coap_option_iterator_init (im_options m)) = [(11, [97])]"
proof -
  have o: "request_options sample_request = [(11, [97])]"
    by (simp add: request_options_def sample_request_def zero_client_request_def sends_body_def)
  show ?thesis
    using request_packet_parses [OF sample_request_packet] o
    by (auto simp: sample_request_def zero_client_request_def NABTO_COAP_BLOCK_NUM_MAX_def)
qed

end
