(* ===== verification/Nn_Map.thy ===== *)
theory Nn_Map
  imports Nn_Memory
begin

text \<open>
  The two maps from strings of src/components/nn: string_map.c, which owns copies of the key and of
  the value, and string_int_map.c.  The items are in an intrusive list; \<open>Nn_Llist\<close> shows that such a
  list is the list of its items, which is how the maps hold them here.  An item carries the address
  of its block, of which its list node is a part, and an iterator is such an address, or \<open>None\<close> for
  the sentinel.  The locale \<open>map_interface\<close> is the contract of a map and is interpreted on both.
\<close>

section \<open>The interface of a map\<close>

locale map_interface =
  fixes inv :: "'s \<Rightarrow> bool" and view :: "'s \<Rightarrow> 'k \<Rightarrow> 'v option"
    and ins :: "'k \<Rightarrow> 'v \<Rightarrow> 's \<Rightarrow> bool \<times> 's" and del :: "'k \<Rightarrow> 's \<Rightarrow> 's" and get :: "'s \<Rightarrow> 'k \<Rightarrow> 'v option"
  assumes get_view: "inv s \<Longrightarrow> get s k = view s k"
    and ins_view: "inv s \<Longrightarrow> ins k v s = (ok, s') \<Longrightarrow>
      inv s' \<and> (view s k \<noteq> None \<longrightarrow> ok) \<and>
      view s' = (if ok \<and> view s k = None then (view s)(k \<mapsto> v) else view s)"
    and del_view: "inv s \<Longrightarrow> inv (del k s) \<and> view (del k s) = (view s)(k := None)"
begin

lemma get_after_ins:
  "inv s \<Longrightarrow> ins k v s = (True, s') \<Longrightarrow>
   get s' j = (if j = k \<and> get s k = None then Some v else get s j)"
  using ins_view [of s k v True s'] get_view [of s] get_view [of s'] by auto

lemma get_after_failed_ins: "inv s \<Longrightarrow> ins k v s = (False, s') \<Longrightarrow> get s' j = get s j \<and> get s k = None"
  using ins_view [of s k v False s'] get_view [of s] get_view [of s'] by auto

lemma get_after_del: "inv s \<Longrightarrow> get (del k s) j = (if j = k then None else get s j)"
  using del_view [of s k] get_view [of s] get_view [of "del k s"] by simp

text \<open>To change a value a client erases the key first.\<close>

lemma replace_value:
  "inv s \<Longrightarrow> ins k v (del k s) = (True, s') \<Longrightarrow> get s' j = (if j = k then Some v else get s j)"
  using get_after_ins [of "del k s" k v s' j] get_after_del [of s k] del_view [of s k] by auto

end

section \<open>Entries\<close>

text \<open>What the two maps share: an item gives its key, its value and the blocks it owns.\<close>

type_synonym 'v entry = "bytes \<times> 'v \<times> address list"

definition entry_blocks :: "'v entry list \<Rightarrow> address list" where
  "entry_blocks es = concat (map (\<lambda>(k, v, bs). bs) es)"

definition entries_ok :: "'v entry list \<Rightarrow> address set \<Rightarrow> bool" where
  "entries_ok es used \<longleftrightarrow> distinct (map fst es) \<and> distinct (entry_blocks es) \<and> set (entry_blocks es) \<subseteq> used"

definition entries_map :: "'v entry list \<Rightarrow> bytes \<Rightarrow> 'v option" where
  "entries_map es = map_of (map (\<lambda>(k, v, bs). (k, v)) es)"

lemma entry_blocks_simps [simp]:
  "entry_blocks [] = []" "entry_blocks ((k, v, bs) # es) = bs @ entry_blocks es"
  "entry_blocks (es @ fs) = entry_blocks es @ entry_blocks fs"
  by (simp_all add: entry_blocks_def)

lemma entries_map_simps [simp]:
  "entries_map [] = Map.empty" "entries_map ((k, v, bs) # es) = (entries_map es)(k \<mapsto> v)"
  "entries_map (es @ fs) = entries_map fs ++ entries_map es"
  by (simp_all add: entries_map_def)

lemma entries_map_None: "entries_map es k = None \<longleftrightarrow> k \<notin> fst ` set es"
  by (simp add: entries_map_def map_of_eq_None_iff image_image split_def)

lemma entries_append:
  assumes "entries_ok es used" "k \<notin> fst ` set es" "distinct bs" "set bs \<inter> used = {}"
  shows "entries_ok (es @ [(k, v, bs)]) (used \<union> set bs)" "entries_map (es @ [(k, v, bs)]) = (entries_map es)(k \<mapsto> v)"
proof -
  show "entries_ok (es @ [(k, v, bs)]) (used \<union> set bs)" using assms by (auto simp: entries_ok_def)
  have "entries_map es k = None" using assms(2) by (simp add: entries_map_None)
  then show "entries_map (es @ [(k, v, bs)]) = (entries_map es)(k \<mapsto> v)"
    by (auto simp: map_add_def fun_eq_iff split: option.splits)
qed

lemma entries_remove:
  assumes "entries_ok (xs @ (k, v, bs) # ys) used"
  shows "entries_ok (xs @ ys) (used - set bs)"
    "entries_map (xs @ ys) = (entries_map (xs @ (k, v, bs) # ys))(k := None)"
proof -
  show "entries_ok (xs @ ys) (used - set bs)" using assms by (auto simp: entries_ok_def)
  have "k \<notin> fst ` set xs" "k \<notin> fst ` set ys" using assms by (auto simp: entries_ok_def)
  then have "entries_map xs k = None" "entries_map ys k = None" by (simp_all add: entries_map_None)
  then show "entries_map (xs @ ys) = (entries_map (xs @ (k, v, bs) # ys))(k := None)"
    by (auto simp: map_add_def fun_eq_iff split: option.splits)
qed

lemma filter_other: "c \<notin> f ` set xs \<Longrightarrow> filter (\<lambda>j. f j \<noteq> c) xs = xs"
  by (induction xs) auto

section \<open>Items found by node and by key\<close>

text \<open>The facts about a list of items that lookup and erasure in both maps rest on.\<close>

locale keyed_items =
  fixes node :: "'i \<Rightarrow> address" and key_of :: "'i \<Rightarrow> bytes" and val_of :: "'i \<Rightarrow> 'v"
    and strs :: "'i \<Rightarrow> address list" and entry_of :: "'i \<Rightarrow> 'v entry"
  assumes entry_parts: "entry_of i = (key_of i, val_of i, node i # strs i)"
begin

lemma node_found:
  assumes "entries_ok (map entry_of (xs @ i # ys)) used"
  shows "find (\<lambda>j. Some (node j) = Some (node i)) (xs @ i # ys) = Some i"
    and "filter (\<lambda>j. node j \<noteq> node i) (xs @ i # ys) = xs @ ys"
proof -
  have n: "node i \<notin> node ` set xs" "node i \<notin> node ` set ys"
    using assms by (force simp: entries_ok_def entry_blocks_def entry_parts)+
  from n(1) show "find (\<lambda>j. Some (node j) = Some (node i)) (xs @ i # ys) = Some i"
    by (induction xs) auto
  show "filter (\<lambda>j. node j \<noteq> node i) (xs @ i # ys) = xs @ ys"
    using n by (simp add: filter_other)
qed

lemma key_found:
  "entries_map (map entry_of items) k = map_option val_of (find (\<lambda>i. key_of i = k) items)"
  by (induction items) (auto simp: entry_parts)

lemma find_split: "find P items = Some i \<Longrightarrow> \<exists>xs ys. items = xs @ i # ys \<and> P i"
  by (metis find_Some_iff id_take_nth_drop)

lemma remove_entry:
  assumes "entries_ok (map entry_of (xs @ i # ys)) used"
  shows "entries_ok (map entry_of (xs @ ys)) (used - set (node i # strs i))"
    and "entries_map (map entry_of (xs @ ys)) = (entries_map (map entry_of (xs @ i # ys)))(key_of i := None)"
    and "distinct (node i # strs i)" "set (node i # strs i) \<subseteq> used"
proof -
  have ok: "entries_ok (map entry_of xs @ (key_of i, val_of i, node i # strs i) # map entry_of ys) used"
    using assms entry_parts [of i] by simp
  from entries_remove [OF ok]
  show "entries_ok (map entry_of (xs @ ys)) (used - set (node i # strs i))"
    and "entries_map (map entry_of (xs @ ys)) = (entries_map (map entry_of (xs @ i # ys)))(key_of i := None)"
    by (simp_all add: entry_parts [of i])
  show "distinct (node i # strs i)" "set (node i # strs i) \<subseteq> used"
    using ok by (simp_all add: entries_ok_def)
qed

end

section \<open>The map from strings to strings\<close>

record string_map_item =
  smi_node :: address
  smi_key :: cstring
  smi_value :: cstring

record 'm nn_string_map =
  smap_items :: "string_map_item list"
  smap_allocator :: "'m nn_allocator"

type_synonym map_iterator = "address option"

definition nn_string_map_init :: "'m nn_allocator \<Rightarrow> 'm nn_string_map" where
  "nn_string_map_init al = \<lparr>smap_items = [], smap_allocator = al\<rparr>"

definition nn_string_map_end :: map_iterator where
  "nn_string_map_end = None"

definition nn_string_map_is_end :: "map_iterator \<Rightarrow> bool" where
  "nn_string_map_is_end it \<longleftrightarrow> it = None"

definition nn_string_map_begin :: "'m nn_string_map \<Rightarrow> map_iterator" where
  "nn_string_map_begin mp = (case smap_items mp of [] \<Rightarrow> None | item # items \<Rightarrow> Some (smi_node item))"

text \<open>The node after the one the iterator is at.\<close>

fun item_after :: "('i \<Rightarrow> address) \<Rightarrow> address \<Rightarrow> 'i list \<Rightarrow> address option" where
  "item_after node a [] = None"
| "item_after node a (x # xs) =
     (if node x = a then (case xs of [] \<Rightarrow> None | y # ys \<Rightarrow> Some (node y)) else item_after node a xs)"

definition nn_string_map_next :: "'m nn_string_map \<Rightarrow> map_iterator \<Rightarrow> map_iterator" where
  "nn_string_map_next mp it =
     (case it of None \<Rightarrow> nn_string_map_begin mp | Some a \<Rightarrow> item_after smi_node a (smap_items mp))"

definition string_map_item_at :: "'m nn_string_map \<Rightarrow> map_iterator \<Rightarrow> string_map_item option" where
  "string_map_item_at mp it = find (\<lambda>item. Some (smi_node item) = it) (smap_items mp)"

definition nn_string_map_key :: "'m nn_string_map \<Rightarrow> map_iterator \<Rightarrow> bytes option" where
  "nn_string_map_key mp it = map_option (\<lambda>item. snd (smi_key item)) (string_map_item_at mp it)"

definition nn_string_map_value :: "'m nn_string_map \<Rightarrow> map_iterator \<Rightarrow> bytes option" where
  "nn_string_map_value mp it = map_option (\<lambda>item. snd (smi_value item)) (string_map_item_at mp it)"

definition nn_string_map_empty :: "'m nn_string_map \<Rightarrow> bool" where
  "nn_string_map_empty mp \<longleftrightarrow> smap_items mp = []"

definition nn_string_map_size :: "'m nn_string_map \<Rightarrow> nat" where
  "nn_string_map_size mp = length (smap_items mp)"

fun string_map_find :: "bytes \<Rightarrow> string_map_item list \<Rightarrow> map_iterator" where
  "string_map_find key [] = nn_string_map_end"
| "string_map_find key (item # items) =
     (if snd (smi_key item) = key then Some (smi_node item) else string_map_find key items)"

definition nn_string_map_get :: "'m nn_string_map \<Rightarrow> bytes \<Rightarrow> map_iterator" where
  "nn_string_map_get mp key = string_map_find key (smap_items mp)"

text \<open>
  The C function strncmp on the bytes at two pointers, as far as it decides equality; \<open>None\<close> is a
  read past the bytes that are there.
\<close>

fun strncmp_equal :: "bytes \<Rightarrow> bytes \<Rightarrow> nat \<Rightarrow> bool option" where
  "strncmp_equal xs ys 0 = Some True"
| "strncmp_equal (x # xs) (y # ys) (Suc n) =
     (if x \<noteq> y then Some False else if x = 0 then Some True else strncmp_equal xs ys n)"
| "strncmp_equal xs ys (Suc n) = None"

text \<open>The lookup by a key of given length: the outer \<open>None\<close> is a read outside a string.\<close>

fun string_map_findn :: "bytes \<Rightarrow> nat \<Rightarrow> string_map_item list \<Rightarrow> map_iterator option" where
  "string_map_findn key keyLength [] = Some nn_string_map_end"
| "string_map_findn key keyLength (item # items) =
     (let stored = snd (smi_key item) @ [0]
      in case strncmp_equal stored key keyLength of
           None \<Rightarrow> None
         | Some False \<Rightarrow> string_map_findn key keyLength items
         | Some True \<Rightarrow>
             if length stored \<le> keyLength then None
             else if stored ! keyLength = 0 then Some (Some (smi_node item))
             else string_map_findn key keyLength items)"

definition nn_string_map_getn :: "'m nn_string_map \<Rightarrow> bytes \<Rightarrow> nat \<Rightarrow> map_iterator option" where
  "nn_string_map_getn mp key keyLength = string_map_findn key keyLength (smap_items mp)"

definition nn_string_map_destroy_item ::
  "'m nn_string_map \<Rightarrow> string_map_item \<Rightarrow> 'm \<Rightarrow> 'm nn_string_map \<times> 'm" where
  "nn_string_map_destroy_item mp item m =
     (let mp = mp\<lparr>smap_items := filter (\<lambda>i. smi_node i \<noteq> smi_node item) (smap_items mp)\<rparr>;
          m = nn_allocator_free (smap_allocator mp) (Some (fst (smi_key item))) m;
          m = nn_allocator_free (smap_allocator mp) (Some (fst (smi_value item))) m;
          m = nn_allocator_free (smap_allocator mp) (Some (smi_node item)) m
      in (mp, m))"

lemma destroy_item_shorter:
  "smap_items mp = item # items \<Longrightarrow>
   length (smap_items (fst (nn_string_map_destroy_item mp item m))) < Suc (length items)"
  by (auto simp: nn_string_map_destroy_item_def Let_def le_imp_less_Suc)

function nn_string_map_deinit :: "'m nn_string_map \<Rightarrow> 'm \<Rightarrow> 'm nn_string_map \<times> 'm" where
  "nn_string_map_deinit mp m =
     (case smap_items mp of
        [] \<Rightarrow> (mp, m)
      | item # items \<Rightarrow>
          nn_string_map_deinit (fst (nn_string_map_destroy_item mp item m))
            (snd (nn_string_map_destroy_item mp item m)))"
  by pat_completeness auto
termination by (relation "measure (\<lambda>x. length (smap_items (fst x)))") (auto dest: destroy_item_shorter)

declare nn_string_map_deinit.simps [simp del]

text \<open>The size of an item on a 64 bit platform: three pointers of the node and two strings.\<close>

definition sizeof_string_map_item :: nat where
  "sizeof_string_map_item = 40"

definition nn_string_map_insert ::
  "bytes \<Rightarrow> bytes \<Rightarrow> 'm nn_string_map \<Rightarrow> 'm \<Rightarrow> map_iterator \<times> 'm nn_string_map \<times> 'm" where
  "nn_string_map_insert key val mp m =
     (let it = nn_string_map_get mp key in
      if \<not> nn_string_map_is_end it then (it, mp, m)
      else
       (let al = smap_allocator mp;
            (item, m) = nn_allocator_calloc al 1 sizeof_string_map_item m;
            (keyDup, m) = nn_strdup key al m;
            (valueDup, m) = nn_strdup val al m
        in case (item, keyDup, valueDup) of
             (Some a, Some k, Some v) \<Rightarrow>
               (Some a, mp\<lparr>smap_items := smap_items mp @ [\<lparr>smi_node = a, smi_key = k, smi_value = v\<rparr>]\<rparr>, m)
           | _ \<Rightarrow>
              (let m = nn_allocator_free al item m;
                   m = nn_allocator_free al (cstring_ptr keyDup) m;
                   m = nn_allocator_free al (cstring_ptr valueDup) m
               in (nn_string_map_end, mp, m))))"

definition nn_string_map_erase_iterator ::
  "'m nn_string_map \<Rightarrow> map_iterator \<Rightarrow> 'm \<Rightarrow> 'm nn_string_map \<times> 'm" where
  "nn_string_map_erase_iterator mp it m =
     (case string_map_item_at mp it of None \<Rightarrow> (mp, m) | Some item \<Rightarrow> nn_string_map_destroy_item mp item m)"

definition nn_string_map_erase :: "bytes \<Rightarrow> 'm nn_string_map \<Rightarrow> 'm \<Rightarrow> 'm nn_string_map \<times> 'm" where
  "nn_string_map_erase key mp m =
     (let it = nn_string_map_get mp key
      in if \<not> nn_string_map_is_end it then nn_string_map_erase_iterator mp it m else (mp, m))"


section \<open>The string map as a map\<close>

definition smap_entry :: "string_map_item \<Rightarrow> bytes entry" where
  "smap_entry i = (snd (smi_key i), snd (smi_value i), [smi_node i, fst (smi_key i), fst (smi_value i)])"

abbreviation smap_entries :: "'m nn_string_map \<Rightarrow> bytes entry list" where
  "smap_entries mp \<equiv> map smap_entry (smap_items mp)"

definition string_map_inv :: "('m \<Rightarrow> address set) \<Rightarrow> 'm nn_string_map \<times> 'm \<Rightarrow> bool" where
  "string_map_inv live sx = (case sx of (mp, m) \<Rightarrow>
     allocator_ok (smap_allocator mp) live \<and> entries_ok (smap_entries mp) (live m))"

definition string_map_view :: "'m nn_string_map \<times> 'm \<Rightarrow> bytes \<Rightarrow> bytes option" where
  "string_map_view sx = entries_map (smap_entries (fst sx))"

definition string_map_lookup :: "'m nn_string_map \<Rightarrow> bytes \<Rightarrow> bytes option" where
  "string_map_lookup mp key = nn_string_map_value mp (nn_string_map_get mp key)"

interpretation smap: keyed_items smi_node "\<lambda>i. snd (smi_key i)" "\<lambda>i. snd (smi_value i)"
  "\<lambda>i. [fst (smi_key i), fst (smi_value i)]" smap_entry
  by unfold_locales (simp add: smap_entry_def)

lemma string_map_find_eq:
  "string_map_find key items = map_option smi_node (find (\<lambda>i. snd (smi_key i) = key) items)"
  by (induction items) (auto simp: nn_string_map_end_def)

lemma string_map_find_append:
  "string_map_find key (xs @ ys) = (case string_map_find key xs of None \<Rightarrow> string_map_find key ys | Some a \<Rightarrow> Some a)"
  by (induction xs) (auto simp: nn_string_map_end_def)

lemma destroy_item_live:
  assumes i: "string_map_inv live (mp, m)" and items: "smap_items mp = xs @ i # ys"
    and e: "nn_string_map_destroy_item mp i m = (mp', m')"
  shows "string_map_inv live (mp', m')" "smap_items mp' = xs @ ys"
    "string_map_view (mp', m') = (string_map_view (mp, m))(snd (smi_key i) := None)"
    "live m' = live m - {smi_node i, fst (smi_key i), fst (smi_value i)}"
proof -
  have ok: "allocator_ok (smap_allocator mp) live" "entries_ok (map smap_entry (xs @ i # ys)) (live m)"
    using i items by (auto simp: string_map_inv_def)
  note r = smap.remove_entry [OF ok(2)]
  have mp': "mp' = mp\<lparr>smap_items := xs @ ys\<rparr>"
    using e smap.node_found(2) [OF ok(2)] by (auto simp: nn_string_map_destroy_item_def Let_def items)
  then show "smap_items mp' = xs @ ys" by simp
  have m': "m' = fold (\<lambda>p. nn_allocator_free (smap_allocator mp) (Some p))
      [fst (smi_key i), fst (smi_value i), smi_node i] m"
    using e by (simp add: nn_string_map_destroy_item_def Let_def)
  show l: "live m' = live m - {smi_node i, fst (smi_key i), fst (smi_value i)}"
    unfolding m' using free_all_live [OF ok(1), of "[fst (smi_key i), fst (smi_value i), smi_node i]" m] r(3,4)
    by auto
  show "string_map_inv live (mp', m')"
    using r(1) ok(1) l by (simp add: string_map_inv_def mp')
  show "string_map_view (mp', m') = (string_map_view (mp, m))(snd (smi_key i) := None)"
    using r(2) by (simp add: string_map_view_def mp' items)
qed

lemma string_map_get_view:
  assumes i: "string_map_inv live (mp, m)"
  shows "string_map_lookup mp key = string_map_view (mp, m) key"
    "nn_string_map_get mp key = None \<longleftrightarrow> string_map_view (mp, m) key = None"
proof -
  note k = smap.key_found [of "smap_items mp" key]
  show "nn_string_map_get mp key = None \<longleftrightarrow> string_map_view (mp, m) key = None"
    by (simp add: nn_string_map_get_def string_map_find_eq string_map_view_def k)
  show "string_map_lookup mp key = string_map_view (mp, m) key"
  proof (cases "find (\<lambda>i. snd (smi_key i) = key) (smap_items mp)")
    case None
    have "find (\<lambda>i. False) (smap_items mp) = None" by (simp add: find_None_iff)
    then show ?thesis
      using None by (simp add: k string_map_view_def string_map_lookup_def nn_string_map_get_def
          string_map_find_eq nn_string_map_value_def string_map_item_at_def)
  next
    case (Some j)
    then obtain xs ys where j: "smap_items mp = xs @ j # ys" using smap.find_split [OF Some] by blast
    then have ok: "entries_ok (map smap_entry (xs @ j # ys)) (live m)"
      using i by (simp add: string_map_inv_def)
    have "find (\<lambda>i. Some (smi_node i) = Some (smi_node j)) (smap_items mp) = Some j"
      unfolding j by (rule smap.node_found(1) [OF ok])
    then show ?thesis
      using Some k
      by (simp add: string_map_view_def string_map_lookup_def nn_string_map_get_def string_map_find_eq
          nn_string_map_value_def string_map_item_at_def)
  qed
qed

lemma string_map_insert_step:
  assumes i: "string_map_inv live (mp, m)" and e: "nn_string_map_insert k v mp m = (it, mp', m')"
  shows "string_map_inv live (mp', m') \<and>
    (it = None \<longrightarrow> string_map_view (mp, m) k = None \<and> mp' = mp \<and> live m' = live m) \<and>
    (it \<noteq> None \<longrightarrow> it = nn_string_map_get mp' k) \<and>
    string_map_view (mp', m') = (if it \<noteq> None \<and> string_map_view (mp, m) k = None
      then (string_map_view (mp, m))(k \<mapsto> v) else string_map_view (mp, m)) \<and>
    live m' = (live m - set (entry_blocks (smap_entries mp))) \<union> set (entry_blocks (smap_entries mp'))"
proof -
  note g = string_map_get_view(2) [OF i, of k]
  have ok: "allocator_ok (smap_allocator mp) live" "entries_ok (smap_entries mp) (live m)"
    using i by (auto simp: string_map_inv_def)
  have used: "set (entry_blocks (smap_entries mp)) \<subseteq> live m" using ok(2) by (simp add: entries_ok_def)
  show ?thesis
  proof (cases "nn_string_map_get mp k")
    case (Some a)
    then show ?thesis
      using e i g used by (auto simp: nn_string_map_insert_def nn_string_map_is_end_def)
  next
    case None
    obtain p m1 where p: "nn_allocator_calloc (smap_allocator mp) 1 sizeof_string_map_item m = (p, m1)" by fastforce
    obtain kd m2 where kd: "nn_strdup k (smap_allocator mp) m1 = (kd, m2)" by fastforce
    obtain vd m3 where vd: "nn_strdup v (smap_allocator mp) m2 = (vd, m3)" by fastforce
    have l1: "live m1 = live m \<union> set_option p" "set_option p \<inter> live m = {}"
      using calloc_Some [OF ok(1)] calloc_None [OF ok(1)] p by (cases p; fastforce)+
    have l2: "live m2 = live m1 \<union> set_option (cstring_ptr kd)" "set_option (cstring_ptr kd) \<inter> live m1 = {}"
        "kd = Some c \<Longrightarrow> snd c = k" for c
      using strdup_Some [OF ok(1)] strdup_None [OF ok(1)] kd by (cases kd; fastforce)+
    have l3: "live m3 = live m2 \<union> set_option (cstring_ptr vd)" "set_option (cstring_ptr vd) \<inter> live m2 = {}"
        "vd = Some c \<Longrightarrow> snd c = v" for c
      using strdup_Some [OF ok(1)] strdup_None [OF ok(1)] vd by (cases vd; fastforce)+
    show ?thesis
    proof (cases "p \<noteq> None \<and> kd \<noteq> None \<and> vd \<noteq> None")
      case True
      then obtain a c d where acd: "p = Some a" "kd = Some c" "vd = Some d" by auto
      let ?i = "\<lparr>smi_node = a, smi_key = c, smi_value = d\<rparr>"
      have e': "it = Some a" "mp' = mp\<lparr>smap_items := smap_items mp @ [?i]\<rparr>" "m' = m3"
        using e None p kd vd acd
        by (auto simp: nn_string_map_insert_def nn_string_map_is_end_def)
      have kv: "snd c = k" "snd d = v" using l2(3) l3(3) acd by auto
      have new: "k \<notin> fst ` set (smap_entries mp)"
        using g None by (simp add: string_map_view_def entries_map_None)
      have bs: "distinct [a, fst c, fst d]" "set [a, fst c, fst d] \<inter> live m = {}"
          "live m3 = live m \<union> set [a, fst c, fst d]"
        using l1 l2(1,2) l3(1,2) by (auto simp: acd)
      note ap = entries_append [OF ok(2) new bs(1,2), of v]
      have ent: "smap_entries mp' = smap_entries mp @ [(k, v, [a, fst c, fst d])]"
        by (simp add: e' smap_entry_def kv)
      have "string_map_find k (smap_items mp @ [?i]) = Some a"
        using None kv by (simp add: nn_string_map_get_def string_map_find_append)
      then have "nn_string_map_get mp' k = Some a" by (simp add: nn_string_map_get_def e')
      moreover have "string_map_inv live (mp', m')"
        using ap(1) ok(1) bs(3) unfolding string_map_inv_def prod.case ent e'(3) by (simp add: e'(2))
      moreover have "string_map_view (mp', m') = (string_map_view (mp, m))(k \<mapsto> v)"
        using ap(2) by (simp add: string_map_view_def ent)
      ultimately show ?thesis
        using g None e'(1) ap(1) bs(3) used by (auto simp: ent e'(3))
    next
      case False
      have e': "it = None" "mp' = mp" "m' = nn_allocator_free (smap_allocator mp) (cstring_ptr vd)
          (nn_allocator_free (smap_allocator mp) (cstring_ptr kd) (nn_allocator_free (smap_allocator mp) p m3))"
        using e None p kd vd False
        by (auto simp: nn_string_map_insert_def nn_string_map_is_end_def nn_string_map_end_def Let_def
            split: option.splits)
      have "live m' = live m"
        unfolding e'(3) using ok(1) l1 l2(1,2) l3(1,2)
        by (cases p; cases kd; cases vd) auto
      then show ?thesis
        using g None e'(1,2) i used by (auto simp: string_map_inv_def string_map_view_def)
    qed
  qed
qed

lemma string_map_erase_step:
  assumes i: "string_map_inv live (mp, m)" and e: "nn_string_map_erase k mp m = (mp', m')"
  shows "string_map_inv live (mp', m') \<and> string_map_view (mp', m') = (string_map_view (mp, m))(k := None) \<and>
    live m' = (live m - set (entry_blocks (smap_entries mp))) \<union> set (entry_blocks (smap_entries mp'))"
proof (cases "nn_string_map_get mp k")
  case None
  then have "string_map_view (mp, m) k = None" using string_map_get_view(2) [OF i] by simp
  moreover have "set (entry_blocks (smap_entries mp)) \<subseteq> live m"
    using i by (simp add: string_map_inv_def entries_ok_def)
  ultimately show ?thesis
    using None e i by (auto simp: nn_string_map_erase_def nn_string_map_is_end_def)
next
  case (Some a)
  then obtain j where f: "find (\<lambda>i. snd (smi_key i) = k) (smap_items mp) = Some j" and a: "smi_node j = a"
    by (auto simp: nn_string_map_get_def string_map_find_eq)
  obtain xs ys where j: "smap_items mp = xs @ j # ys" "smi_node j = a" "snd (smi_key j) = k"
    using smap.find_split [OF f] a by blast
  have ok: "entries_ok (map smap_entry (xs @ j # ys)) (live m)"
    using i j by (simp add: string_map_inv_def)
  have d: "nn_string_map_destroy_item mp j m = (mp', m')"
    using e Some smap.node_found(1) [OF ok] j(1,2)
    by (simp add: nn_string_map_erase_def nn_string_map_is_end_def nn_string_map_erase_iterator_def
        string_map_item_at_def)
  note s = destroy_item_live [OF i j(1) d]
  have "smap_entry j = (k, snd (smi_value j), [smi_node j, fst (smi_key j), fst (smi_value j)])"
    by (simp add: smap_entry_def j)
  then show ?thesis
    using s ok unfolding j(3) by (auto simp: entries_ok_def j(1))
qed

lemma string_map_deinit_live:
  "string_map_inv live (mp, m) \<Longrightarrow> nn_string_map_deinit mp m = (mp', m') \<Longrightarrow>
   smap_items mp' = [] \<and> live m' = live m - set (entry_blocks (smap_entries mp))"
proof (induction mp m rule: nn_string_map_deinit.induct)
  case (1 mp m)
  show ?case
  proof (cases "smap_items mp")
    case Nil
    then show ?thesis using "1.prems" by (simp add: nn_string_map_deinit.simps [of mp])
  next
    case (Cons i items)
    obtain mp1 m1 where d: "nn_string_map_destroy_item mp i m = (mp1, m1)" by fastforce
    have "smap_items mp = [] @ i # items" using Cons by simp
    note s = destroy_item_live [OF "1.prems"(1) this d]
    have "nn_string_map_deinit mp1 m1 = (mp', m')"
      using "1.prems"(2) Cons d by (simp add: nn_string_map_deinit.simps [of mp])
    then have "smap_items mp' = [] \<and> live m' = live m1 - set (entry_blocks (smap_entries mp1))"
      using "1.IH" [OF Cons] d s(1) by simp
    then show ?thesis
      unfolding Cons list.map smap_entry_def [of i] entry_blocks_simps s(2,4) append_Nil set_append by auto
  qed
qed

interpretation string_map: map_interface "string_map_inv live" string_map_view
  "\<lambda>k v (mp, m). case nn_string_map_insert k v mp m of (it, s) \<Rightarrow> (it \<noteq> None, s)"
  "\<lambda>k (mp, m). nn_string_map_erase k mp m" "\<lambda>(mp, m). string_map_lookup mp"
  for live :: "'m \<Rightarrow> address set"
proof
  fix sx :: "'m nn_string_map \<times> 'm" and k v ok s'
  assume i: "string_map_inv live sx"
  obtain mp m where sx: "sx = (mp, m)" by fastforce
  show "(case sx of (mp, m) \<Rightarrow> string_map_lookup mp) k = string_map_view sx k"
    using string_map_get_view(1) i by (simp add: sx)
  show "string_map_inv live s' \<and> (string_map_view sx k \<noteq> None \<longrightarrow> ok) \<and>
      string_map_view s' = (if ok \<and> string_map_view sx k = None then (string_map_view sx)(k \<mapsto> v) else string_map_view sx)"
    if "(case sx of (mp, m) \<Rightarrow> case nn_string_map_insert k v mp m of (it, s) \<Rightarrow> (it \<noteq> None, s)) = (ok, s')"
  proof -
    obtain it mp' m' where e: "nn_string_map_insert k v mp m = (it, mp', m')" by (metis prod_cases3)
    then have "ok \<longleftrightarrow> it \<noteq> None" "s' = (mp', m')" using that by (auto simp: sx)
    then show ?thesis using string_map_insert_step [OF i [unfolded sx] e] by (auto simp: sx)
  qed
  show "string_map_inv live (case sx of (mp, m) \<Rightarrow> nn_string_map_erase k mp m) \<and>
    string_map_view (case sx of (mp, m) \<Rightarrow> nn_string_map_erase k mp m) = (string_map_view sx)(k := None)"
    using string_map_erase_step [OF i [unfolded sx], of k] by (cases "nn_string_map_erase k mp m") (simp add: sx)
qed

section \<open>The map from strings to integers\<close>

record string_int_map_item =
  simi_node :: address
  simi_key :: cstring
  simi_value :: int

record 'm nn_string_int_map =
  simap_items :: "string_int_map_item list"
  simap_allocator :: "'m nn_allocator"

definition nn_string_int_map_init :: "'m nn_allocator \<Rightarrow> 'm nn_string_int_map" where
  "nn_string_int_map_init al = \<lparr>simap_items = [], simap_allocator = al\<rparr>"

definition nn_string_int_map_end :: map_iterator where
  "nn_string_int_map_end = None"

definition nn_string_int_map_is_end :: "map_iterator \<Rightarrow> bool" where
  "nn_string_int_map_is_end it \<longleftrightarrow> it = None"

definition nn_string_int_map_begin :: "'m nn_string_int_map \<Rightarrow> map_iterator" where
  "nn_string_int_map_begin mp = (case simap_items mp of [] \<Rightarrow> None | item # items \<Rightarrow> Some (simi_node item))"

definition string_int_map_item_at :: "'m nn_string_int_map \<Rightarrow> map_iterator \<Rightarrow> string_int_map_item option" where
  "string_int_map_item_at mp it = find (\<lambda>item. Some (simi_node item) = it) (simap_items mp)"

definition nn_string_int_map_key :: "'m nn_string_int_map \<Rightarrow> map_iterator \<Rightarrow> bytes option" where
  "nn_string_int_map_key mp it = map_option (\<lambda>item. snd (simi_key item)) (string_int_map_item_at mp it)"

definition nn_string_int_map_value :: "'m nn_string_int_map \<Rightarrow> map_iterator \<Rightarrow> int option" where
  "nn_string_int_map_value mp it = map_option simi_value (string_int_map_item_at mp it)"

fun string_int_map_find :: "bytes \<Rightarrow> string_int_map_item list \<Rightarrow> map_iterator" where
  "string_int_map_find key [] = nn_string_int_map_end"
| "string_int_map_find key (item # items) =
     (if snd (simi_key item) = key then Some (simi_node item) else string_int_map_find key items)"

definition nn_string_int_map_get :: "'m nn_string_int_map \<Rightarrow> bytes \<Rightarrow> map_iterator" where
  "nn_string_int_map_get mp key = string_int_map_find key (simap_items mp)"

definition nn_string_int_map_destroy_item ::
  "'m nn_string_int_map \<Rightarrow> string_int_map_item \<Rightarrow> 'm \<Rightarrow> 'm nn_string_int_map \<times> 'm" where
  "nn_string_int_map_destroy_item mp item m =
     (let mp = mp\<lparr>simap_items := filter (\<lambda>i. simi_node i \<noteq> simi_node item) (simap_items mp)\<rparr>;
          m = nn_allocator_free (simap_allocator mp) (Some (fst (simi_key item))) m;
          m = nn_allocator_free (simap_allocator mp) (Some (simi_node item)) m
      in (mp, m))"

lemma destroy_int_item_shorter:
  "simap_items mp = item # items \<Longrightarrow>
   length (simap_items (fst (nn_string_int_map_destroy_item mp item m))) < Suc (length items)"
  by (auto simp: nn_string_int_map_destroy_item_def Let_def le_imp_less_Suc)

function nn_string_int_map_deinit :: "'m nn_string_int_map \<Rightarrow> 'm \<Rightarrow> 'm nn_string_int_map \<times> 'm" where
  "nn_string_int_map_deinit mp m =
     (case simap_items mp of
        [] \<Rightarrow> (mp, m)
      | item # items \<Rightarrow>
          nn_string_int_map_deinit (fst (nn_string_int_map_destroy_item mp item m))
            (snd (nn_string_int_map_destroy_item mp item m)))"
  by pat_completeness auto
termination by (relation "measure (\<lambda>x. length (simap_items (fst x)))") (auto dest: destroy_int_item_shorter)

declare nn_string_int_map_deinit.simps [simp del]

text \<open>The size of an item on a 64 bit platform: three pointers of the node, a string and a padded int.\<close>

definition sizeof_string_int_map_item :: nat where
  "sizeof_string_int_map_item = 40"

definition nn_string_int_map_insert ::
  "bytes \<Rightarrow> int \<Rightarrow> 'm nn_string_int_map \<Rightarrow> 'm \<Rightarrow> map_iterator \<times> 'm nn_string_int_map \<times> 'm" where
  "nn_string_int_map_insert key val mp m =
     (let it = nn_string_int_map_get mp key in
      if \<not> nn_string_int_map_is_end it then (it, mp, m)
      else
       (let al = simap_allocator mp;
            (item, m) = nn_allocator_calloc al 1 sizeof_string_int_map_item m;
            (keyDup, m) = nn_strdup key al m
        in case (item, keyDup) of
             (Some a, Some k) \<Rightarrow>
               (Some a, mp\<lparr>simap_items := simap_items mp @ [\<lparr>simi_node = a, simi_key = k, simi_value = val\<rparr>]\<rparr>, m)
           | _ \<Rightarrow>
              (let m = nn_allocator_free al item m;
                   m = nn_allocator_free al (cstring_ptr keyDup) m
               in (nn_string_int_map_end, mp, m))))"

definition nn_string_int_map_erase_iterator ::
  "'m nn_string_int_map \<Rightarrow> map_iterator \<Rightarrow> 'm \<Rightarrow> 'm nn_string_int_map \<times> 'm" where
  "nn_string_int_map_erase_iterator mp it m =
     (case string_int_map_item_at mp it of None \<Rightarrow> (mp, m) | Some item \<Rightarrow> nn_string_int_map_destroy_item mp item m)"

definition nn_string_int_map_erase :: "bytes \<Rightarrow> 'm nn_string_int_map \<Rightarrow> 'm \<Rightarrow> 'm nn_string_int_map \<times> 'm" where
  "nn_string_int_map_erase key mp m =
     (let it = nn_string_int_map_get mp key
      in if \<not> nn_string_int_map_is_end it then nn_string_int_map_erase_iterator mp it m else (mp, m))"

definition simap_entry :: "string_int_map_item \<Rightarrow> int entry" where
  "simap_entry i = (snd (simi_key i), simi_value i, [simi_node i, fst (simi_key i)])"

abbreviation simap_entries :: "'m nn_string_int_map \<Rightarrow> int entry list" where
  "simap_entries mp \<equiv> map simap_entry (simap_items mp)"

definition string_int_map_inv :: "('m \<Rightarrow> address set) \<Rightarrow> 'm nn_string_int_map \<times> 'm \<Rightarrow> bool" where
  "string_int_map_inv live sx = (case sx of (mp, m) \<Rightarrow>
     allocator_ok (simap_allocator mp) live \<and> entries_ok (simap_entries mp) (live m))"

definition string_int_map_view :: "'m nn_string_int_map \<times> 'm \<Rightarrow> bytes \<Rightarrow> int option" where
  "string_int_map_view sx = entries_map (simap_entries (fst sx))"

definition string_int_map_lookup :: "'m nn_string_int_map \<Rightarrow> bytes \<Rightarrow> int option" where
  "string_int_map_lookup mp key = nn_string_int_map_value mp (nn_string_int_map_get mp key)"

interpretation simap: keyed_items simi_node "\<lambda>i. snd (simi_key i)" simi_value
  "\<lambda>i. [fst (simi_key i)]" simap_entry
  by unfold_locales (simp add: simap_entry_def)

lemma string_int_map_find_eq:
  "string_int_map_find key items = map_option simi_node (find (\<lambda>i. snd (simi_key i) = key) items)"
  by (induction items) (auto simp: nn_string_int_map_end_def)

lemma string_int_map_find_append:
  "string_int_map_find key (xs @ ys) = (case string_int_map_find key xs of None \<Rightarrow> string_int_map_find key ys | Some a \<Rightarrow> Some a)"
  by (induction xs) (auto simp: nn_string_int_map_end_def)

lemma destroy_int_item_live:
  assumes i: "string_int_map_inv live (mp, m)" and items: "simap_items mp = xs @ i # ys"
    and e: "nn_string_int_map_destroy_item mp i m = (mp', m')"
  shows "string_int_map_inv live (mp', m')" "simap_items mp' = xs @ ys"
    "string_int_map_view (mp', m') = (string_int_map_view (mp, m))(snd (simi_key i) := None)"
    "live m' = live m - {simi_node i, fst (simi_key i)}"
proof -
  have ok: "allocator_ok (simap_allocator mp) live" "entries_ok (map simap_entry (xs @ i # ys)) (live m)"
    using i items by (auto simp: string_int_map_inv_def)
  note r = simap.remove_entry [OF ok(2)]
  have mp': "mp' = mp\<lparr>simap_items := xs @ ys\<rparr>"
    using e simap.node_found(2) [OF ok(2)] by (auto simp: nn_string_int_map_destroy_item_def Let_def items)
  then show "simap_items mp' = xs @ ys" by simp
  have m': "m' = fold (\<lambda>p. nn_allocator_free (simap_allocator mp) (Some p))
      [fst (simi_key i), simi_node i] m"
    using e by (simp add: nn_string_int_map_destroy_item_def Let_def)
  show l: "live m' = live m - {simi_node i, fst (simi_key i)}"
    unfolding m' using free_all_live [OF ok(1), of "[fst (simi_key i), simi_node i]" m] r(3,4)
    by auto
  show "string_int_map_inv live (mp', m')"
    using r(1) ok(1) l by (simp add: string_int_map_inv_def mp')
  show "string_int_map_view (mp', m') = (string_int_map_view (mp, m))(snd (simi_key i) := None)"
    using r(2) by (simp add: string_int_map_view_def mp' items)
qed

lemma string_int_map_get_view:
  assumes i: "string_int_map_inv live (mp, m)"
  shows "string_int_map_lookup mp key = string_int_map_view (mp, m) key"
    "nn_string_int_map_get mp key = None \<longleftrightarrow> string_int_map_view (mp, m) key = None"
proof -
  note k = simap.key_found [of "simap_items mp" key]
  show "nn_string_int_map_get mp key = None \<longleftrightarrow> string_int_map_view (mp, m) key = None"
    by (simp add: nn_string_int_map_get_def string_int_map_find_eq string_int_map_view_def k)
  show "string_int_map_lookup mp key = string_int_map_view (mp, m) key"
  proof (cases "find (\<lambda>i. snd (simi_key i) = key) (simap_items mp)")
    case None
    have "find (\<lambda>i. False) (simap_items mp) = None" by (simp add: find_None_iff)
    then show ?thesis
      using None by (simp add: k string_int_map_view_def string_int_map_lookup_def nn_string_int_map_get_def
          string_int_map_find_eq nn_string_int_map_value_def string_int_map_item_at_def)
  next
    case (Some j)
    then obtain xs ys where j: "simap_items mp = xs @ j # ys" using simap.find_split [OF Some] by blast
    then have ok: "entries_ok (map simap_entry (xs @ j # ys)) (live m)"
      using i by (simp add: string_int_map_inv_def)
    have "find (\<lambda>i. Some (simi_node i) = Some (simi_node j)) (simap_items mp) = Some j"
      unfolding j by (rule simap.node_found(1) [OF ok])
    then show ?thesis
      using Some k
      by (simp add: string_int_map_view_def string_int_map_lookup_def nn_string_int_map_get_def string_int_map_find_eq
          nn_string_int_map_value_def string_int_map_item_at_def)
  qed
qed

lemma string_int_map_insert_step:
  assumes i: "string_int_map_inv live (mp, m)" and e: "nn_string_int_map_insert k v mp m = (it, mp', m')"
  shows "string_int_map_inv live (mp', m') \<and>
    (it = None \<longrightarrow> string_int_map_view (mp, m) k = None \<and> mp' = mp \<and> live m' = live m) \<and>
    (it \<noteq> None \<longrightarrow> it = nn_string_int_map_get mp' k) \<and>
    string_int_map_view (mp', m') = (if it \<noteq> None \<and> string_int_map_view (mp, m) k = None
      then (string_int_map_view (mp, m))(k \<mapsto> v) else string_int_map_view (mp, m)) \<and>
    live m' = (live m - set (entry_blocks (simap_entries mp))) \<union> set (entry_blocks (simap_entries mp'))"
proof -
  note g = string_int_map_get_view(2) [OF i, of k]
  have ok: "allocator_ok (simap_allocator mp) live" "entries_ok (simap_entries mp) (live m)"
    using i by (auto simp: string_int_map_inv_def)
  have used: "set (entry_blocks (simap_entries mp)) \<subseteq> live m" using ok(2) by (simp add: entries_ok_def)
  show ?thesis
  proof (cases "nn_string_int_map_get mp k")
    case (Some a)
    then show ?thesis
      using e i g used by (auto simp: nn_string_int_map_insert_def nn_string_int_map_is_end_def)
  next
    case None
    obtain p m1 where p: "nn_allocator_calloc (simap_allocator mp) 1 sizeof_string_int_map_item m = (p, m1)" by fastforce
    obtain kd m2 where kd: "nn_strdup k (simap_allocator mp) m1 = (kd, m2)" by fastforce
    have l1: "live m1 = live m \<union> set_option p" "set_option p \<inter> live m = {}"
      using calloc_Some [OF ok(1)] calloc_None [OF ok(1)] p by (cases p; fastforce)+
    have l2: "live m2 = live m1 \<union> set_option (cstring_ptr kd)" "set_option (cstring_ptr kd) \<inter> live m1 = {}"
        "kd = Some c \<Longrightarrow> snd c = k" for c
      using strdup_Some [OF ok(1)] strdup_None [OF ok(1)] kd by (cases kd; fastforce)+
    show ?thesis
    proof (cases "p \<noteq> None \<and> kd \<noteq> None")
      case True
      then obtain a c where acd: "p = Some a" "kd = Some c" by auto
      let ?i = "\<lparr>simi_node = a, simi_key = c, simi_value = v\<rparr>"
      have e': "it = Some a" "mp' = mp\<lparr>simap_items := simap_items mp @ [?i]\<rparr>" "m' = m2"
        using e None p kd acd
        by (auto simp: nn_string_int_map_insert_def nn_string_int_map_is_end_def)
      have kv: "snd c = k" using l2(3) acd by auto
      have new: "k \<notin> fst ` set (simap_entries mp)"
        using g None by (simp add: string_int_map_view_def entries_map_None)
      have bs: "distinct [a, fst c]" "set [a, fst c] \<inter> live m = {}"
          "live m2 = live m \<union> set [a, fst c]"
        using l1 l2(1,2) by (auto simp: acd)
      note ap = entries_append [OF ok(2) new bs(1,2), of v]
      have ent: "simap_entries mp' = simap_entries mp @ [(k, v, [a, fst c])]"
        by (simp add: e' simap_entry_def kv)
      have "string_int_map_find k (simap_items mp @ [?i]) = Some a"
        using None kv by (simp add: nn_string_int_map_get_def string_int_map_find_append)
      then have "nn_string_int_map_get mp' k = Some a" by (simp add: nn_string_int_map_get_def e')
      moreover have "string_int_map_inv live (mp', m')"
        using ap(1) ok(1) bs(3) unfolding string_int_map_inv_def prod.case ent e'(3) by (simp add: e'(2))
      moreover have "string_int_map_view (mp', m') = (string_int_map_view (mp, m))(k \<mapsto> v)"
        using ap(2) by (simp add: string_int_map_view_def ent)
      ultimately show ?thesis
        using g None e'(1) ap(1) bs(3) used by (auto simp: ent e'(3))
    next
      case False
      have e': "it = None" "mp' = mp" "m' = nn_allocator_free (simap_allocator mp) (cstring_ptr kd)
          (nn_allocator_free (simap_allocator mp) p m2)"
        using e None p kd False
        by (auto simp: nn_string_int_map_insert_def nn_string_int_map_is_end_def nn_string_int_map_end_def Let_def
            split: option.splits)
      have "live m' = live m"
        unfolding e'(3) using ok(1) l1 l2(1,2)
        by (cases p; cases kd) auto
      then show ?thesis
        using g None e'(1,2) i used by (auto simp: string_int_map_inv_def string_int_map_view_def)
    qed
  qed
qed

lemma string_int_map_erase_step:
  assumes i: "string_int_map_inv live (mp, m)" and e: "nn_string_int_map_erase k mp m = (mp', m')"
  shows "string_int_map_inv live (mp', m') \<and> string_int_map_view (mp', m') = (string_int_map_view (mp, m))(k := None) \<and>
    live m' = (live m - set (entry_blocks (simap_entries mp))) \<union> set (entry_blocks (simap_entries mp'))"
proof (cases "nn_string_int_map_get mp k")
  case None
  then have "string_int_map_view (mp, m) k = None" using string_int_map_get_view(2) [OF i] by simp
  moreover have "set (entry_blocks (simap_entries mp)) \<subseteq> live m"
    using i by (simp add: string_int_map_inv_def entries_ok_def)
  ultimately show ?thesis
    using None e i by (auto simp: nn_string_int_map_erase_def nn_string_int_map_is_end_def)
next
  case (Some a)
  then obtain j where f: "find (\<lambda>i. snd (simi_key i) = k) (simap_items mp) = Some j" and a: "simi_node j = a"
    by (auto simp: nn_string_int_map_get_def string_int_map_find_eq)
  obtain xs ys where j: "simap_items mp = xs @ j # ys" "simi_node j = a" "snd (simi_key j) = k"
    using simap.find_split [OF f] a by blast
  have ok: "entries_ok (map simap_entry (xs @ j # ys)) (live m)"
    using i j by (simp add: string_int_map_inv_def)
  have d: "nn_string_int_map_destroy_item mp j m = (mp', m')"
    using e Some simap.node_found(1) [OF ok] j(1,2)
    by (simp add: nn_string_int_map_erase_def nn_string_int_map_is_end_def nn_string_int_map_erase_iterator_def
        string_int_map_item_at_def)
  note s = destroy_int_item_live [OF i j(1) d]
  have "simap_entry j = (k, simi_value j, [simi_node j, fst (simi_key j)])"
    by (simp add: simap_entry_def j)
  then show ?thesis
    using s ok unfolding j(3) by (auto simp: entries_ok_def j(1))
qed

lemma string_int_map_deinit_live:
  "string_int_map_inv live (mp, m) \<Longrightarrow> nn_string_int_map_deinit mp m = (mp', m') \<Longrightarrow>
   simap_items mp' = [] \<and> live m' = live m - set (entry_blocks (simap_entries mp))"
proof (induction mp m rule: nn_string_int_map_deinit.induct)
  case (1 mp m)
  show ?case
  proof (cases "simap_items mp")
    case Nil
    then show ?thesis using "1.prems" by (simp add: nn_string_int_map_deinit.simps [of mp])
  next
    case (Cons i items)
    obtain mp1 m1 where d: "nn_string_int_map_destroy_item mp i m = (mp1, m1)" by fastforce
    have "simap_items mp = [] @ i # items" using Cons by simp
    note s = destroy_int_item_live [OF "1.prems"(1) this d]
    have "nn_string_int_map_deinit mp1 m1 = (mp', m')"
      using "1.prems"(2) Cons d by (simp add: nn_string_int_map_deinit.simps [of mp])
    then have "simap_items mp' = [] \<and> live m' = live m1 - set (entry_blocks (simap_entries mp1))"
      using "1.IH" [OF Cons] d s(1) by simp
    then show ?thesis
      unfolding Cons list.map simap_entry_def [of i] entry_blocks_simps s(2,4) append_Nil set_append by auto
  qed
qed

interpretation string_int_map: map_interface "string_int_map_inv live" string_int_map_view
  "\<lambda>k v (mp, m). case nn_string_int_map_insert k v mp m of (it, s) \<Rightarrow> (it \<noteq> None, s)"
  "\<lambda>k (mp, m). nn_string_int_map_erase k mp m" "\<lambda>(mp, m). string_int_map_lookup mp"
  for live :: "'m \<Rightarrow> address set"
proof
  fix sx :: "'m nn_string_int_map \<times> 'm" and k v ok s'
  assume i: "string_int_map_inv live sx"
  obtain mp m where sx: "sx = (mp, m)" by fastforce
  show "(case sx of (mp, m) \<Rightarrow> string_int_map_lookup mp) k = string_int_map_view sx k"
    using string_int_map_get_view(1) i by (simp add: sx)
  show "string_int_map_inv live s' \<and> (string_int_map_view sx k \<noteq> None \<longrightarrow> ok) \<and>
      string_int_map_view s' = (if ok \<and> string_int_map_view sx k = None then (string_int_map_view sx)(k \<mapsto> v) else string_int_map_view sx)"
    if "(case sx of (mp, m) \<Rightarrow> case nn_string_int_map_insert k v mp m of (it, s) \<Rightarrow> (it \<noteq> None, s)) = (ok, s')"
  proof -
    obtain it mp' m' where e: "nn_string_int_map_insert k v mp m = (it, mp', m')" by (metis prod_cases3)
    then have "ok \<longleftrightarrow> it \<noteq> None" "s' = (mp', m')" using that by (auto simp: sx)
    then show ?thesis using string_int_map_insert_step [OF i [unfolded sx] e] by (auto simp: sx)
  qed
  show "string_int_map_inv live (case sx of (mp, m) \<Rightarrow> nn_string_int_map_erase k mp m) \<and>
    string_int_map_view (case sx of (mp, m) \<Rightarrow> nn_string_int_map_erase k mp m) = (string_int_map_view sx)(k := None)"
    using string_int_map_erase_step [OF i [unfolded sx], of k] by (cases "nn_string_int_map_erase k mp m") (simp add: sx)
qed

section \<open>Lookup by a key of given length\<close>

lemma strncmp_terminated:
  assumes "0 \<notin> set k" "0 \<notin> set (take n key)" "n \<le> length key"
  shows "strncmp_equal (k @ [0]) key n = Some (take n (k @ [0]) = take n key \<and> n \<le> length k)"
  using assms
proof (induction k arbitrary: key n)
  case Nil
  then show ?case by (cases n; cases key) auto
next
  case (Cons x k)
  show ?case
  proof (cases n)
    case (Suc m)
    then obtain y ys where "key = y # ys" using Cons.prems by (cases key) auto
    then show ?thesis using Cons Suc by auto
  qed simp
qed

lemma string_map_findn_eq:
  assumes "\<forall>i\<in>set items. 0 \<notin> set (snd (smi_key i))" "0 \<notin> set (take n key)" "n \<le> length key"
  shows "string_map_findn key n items = Some (string_map_find (take n key) items)"
  using assms(1)
proof (induction items)
  case (Cons i items)
  let ?k = "snd (smi_key i)"
  have s: "strncmp_equal (?k @ [0]) key n = Some (take n (?k @ [0]) = take n key \<and> n \<le> length ?k)"
    using Cons.prems assms by (intro strncmp_terminated) auto
  show ?case
  proof (cases "take n ?k = take n key \<and> n \<le> length ?k")
    case False
    then have "?k \<noteq> take n key" using assms(3) by auto
    then show ?thesis using False s Cons by (auto simp: Let_def)
  next
    case True
    have "(?k @ [0]) ! n = 0 \<longleftrightarrow> n = length ?k"
      using True Cons.prems by (cases "n = length ?k") (auto simp: nth_append in_set_conv_nth)
    moreover have "?k = take n key \<longleftrightarrow> n = length ?k"
      using True assms(3) by (metis length_take min.absorb2 order_refl take_all)
    ultimately show ?thesis using True s Cons by (simp add: Let_def)
  qed
qed simp

section \<open>Properties\<close>

text \<open>C32: the string map owns its strings and its first insertion wins.  Inserting returns an iterator at
  the entry with the key: an earlier entry is kept with its value, otherwise the entry is new; it is
  the end only when an allocation failed, and then the map is as before and all that had been
  allocated is given back.  Erasing removes the entry.  In every case the blocks in use are those of
  the rest of the program and those of the map.\<close>

theorem string_map_insert_owns:
  assumes "string_map_inv live (mp, m)" "nn_string_map_insert k v mp m = (it, mp1, m1)"
    "nn_string_map_erase k mp m = (mp2, m2)"
  shows "string_map_inv live (mp1, m1) \<and> string_map_inv live (mp2, m2) \<and>
    (it = None \<longrightarrow> string_map_lookup mp k = None \<and> mp1 = mp \<and> live m1 = live m) \<and>
    (it \<noteq> None \<longrightarrow> it = nn_string_map_get mp1 k) \<and>
    (it \<noteq> None \<longrightarrow> string_map_lookup mp1 j =
       (if j = k \<and> string_map_lookup mp k = None then Some v else string_map_lookup mp j)) \<and>
    string_map_lookup mp2 j = (if j = k then None else string_map_lookup mp j) \<and>
    live m1 = (live m - set (entry_blocks (smap_entries mp))) \<union> set (entry_blocks (smap_entries mp1)) \<and>
    live m2 = (live m - set (entry_blocks (smap_entries mp))) \<union> set (entry_blocks (smap_entries mp2))"
proof -
  note a = string_map_insert_step [OF assms(1,2)] and b = string_map_erase_step [OF assms(1,3)]
  have v: "string_map_view (mp, m) k = string_map_lookup mp k" using string_map_get_view(1) [OF assms(1)] by simp
  have "string_map_lookup mp1 j = (if j = k \<and> string_map_lookup mp k = None then Some v else string_map_lookup mp j)"
    if "it \<noteq> None"
    using string_map.get_after_ins [OF assms(1), of k v "(mp1, m1)" j] assms(2) that by simp
  moreover have "string_map_lookup mp2 j = (if j = k then None else string_map_lookup mp j)"
    using string_map.get_after_del [OF assms(1), of k j] assms(3) by simp
  ultimately show ?thesis using a [unfolded v] b by blast
qed

definition sample_map :: "counting nn_string_map" where
  "sample_map = \<lparr>smap_items = [\<lparr>smi_node = 1, smi_key = (2, [97, 98]), smi_value = (3, [99])\<rparr>],
     smap_allocator = counting_allocator\<rparr>"

lemma sample_map_inv: "string_map_inv counting_live (sample_map, (2, [1, 2, 3]))"
  using counting_allocator_ok
  by (auto simp: string_map_inv_def sample_map_def entries_ok_def smap_entry_def counting_live_def)

text \<open>The third of the three allocations fails, and the other two are undone.\<close>

theorem string_map_insert_owns_witness:
  "case nn_string_map_insert [100] [101] sample_map (2, [1, 2, 3]) of (it, mp1, m1) \<Rightarrow>
     it = None \<and> mp1 = sample_map \<and> counting_live m1 = {1, 2, 3}"
proof -
  have p: "nn_string_map_insert [100] [101] sample_map (2, [1, 2, 3]) = (None, sample_map, (2, [1, 2, 3]))"
    by (simp add: nn_string_map_insert_def nn_string_map_get_def nn_string_map_is_end_def
        nn_string_map_end_def nn_strdup_def sample_map_def Let_def)
  obtain mp2 m2 where q: "nn_string_map_erase [100] sample_map (2, [1, 2, 3]) = (mp2, m2)"
    by (metis surj_pair)
  show ?thesis
    using string_map_insert_owns [OF sample_map_inv p q] p by (simp add: counting_live_def)
qed

text \<open>The lookup by a key of given length finds the entry whose whole key is the first bytes of the
  argument, never one that merely starts with them, and reads no byte outside a string, when those
  bytes hold no zero.\<close>

theorem string_map_getn_get:
  assumes "\<forall>i\<in>set (smap_items mp). 0 \<notin> set (snd (smi_key i))" "keyLength \<le> length key"
    "0 \<notin> set (take keyLength key)"
  shows "nn_string_map_getn mp key keyLength = Some (nn_string_map_get mp (take keyLength key))"
  using string_map_findn_eq [OF assms(1,3,2)] by (simp add: nn_string_map_getn_def nn_string_map_get_def)

theorem string_map_getn_get_witness:
  "nn_string_map_getn sample_map [97, 98, 99] 2 = Some (Some 1) \<and> nn_string_map_getn sample_map [97, 98, 99] 1 = Some None"
  using string_map_getn_get [of sample_map 2 "[97, 98, 99]"] string_map_getn_get [of sample_map 1 "[97, 98, 99]"]
  by (simp add: sample_map_def nn_string_map_get_def nn_string_map_end_def)

text \<open>C33: a key of given length with a zero in it makes the lookup read past the end of a stored key: the
  comparison stops at the zero that ends the stored key, and the byte at the given length is then
  looked at, however far outside the stored key it is.\<close>

theorem string_map_getn_reads_outside:
  "nn_string_map_getn (mp\<lparr>smap_items := item # items\<rparr>) (snd (smi_key item) @ 0 # rest)
     (Suc (length (snd (smi_key item)) + length rest)) = None"
proof -
  have "strncmp_equal (k @ [0]) (k @ 0 # rest) (Suc (length k + n)) = Some True" for k n
    by (induction k) auto
  then show ?thesis by (simp add: nn_string_map_getn_def Let_def)
qed

end
