(* ===== verification/Coap_Router.thy ===== *)
theory Coap_Router
  imports Coap_Payload Nn_Map
begin

text \<open>
  The resources of the CoAP server of src/components/coap/src/nabto_coap_server_impl.c: the tree of path
  segments and parameters, how resources are added to it and how the resource of a path is found.  A node
  of the tree carries its address; a pointer to a resource is the address of its node and one of its
  four handlers.
\<close>

section \<open>The tree\<close>

record server_resource =
  re_handler :: "address option"
  re_handlerUserData :: "address option"

definition zero_resource :: server_resource where
  "zero_resource = \<lparr>re_handler = None, re_handlerUserData = None\<rparr>"

datatype resource_slot = GET_HANDLER | POST_HANDLER | PUT_HANDLER | DELETE_HANDLER

type_synonym resource = "address \<times> resource_slot"

definition NABTO_COAP_CODE_GET :: coap_code where "NABTO_COAP_CODE_GET = NABTO_COAP_CODE 0 1"
definition NABTO_COAP_CODE_POST :: coap_code where "NABTO_COAP_CODE_POST = NABTO_COAP_CODE 0 2"
definition NABTO_COAP_CODE_PUT :: coap_code where "NABTO_COAP_CODE_PUT = NABTO_COAP_CODE 0 3"
definition NABTO_COAP_CODE_DELETE :: coap_code where "NABTO_COAP_CODE_DELETE = NABTO_COAP_CODE 0 4"

text \<open>A path segment has the address of its struct, its string and its node.\<close>

datatype router_node = Router_node
  (rn_address: address)
  (rn_pathSegments: "(address \<times> cstring \<times> router_node) list")
  (rn_parameter: "(cstring \<times> router_node) option")
  (rn_handlers: "resource_slot \<Rightarrow> server_resource")

text \<open>A parameter of a request: its struct, the name, which belongs to the tree, and the value.\<close>

record request_parameter =
  pm_address :: address
  pm_name :: bytes
  pm_value :: cstring

text \<open>Sizes of the structs on a 64 bit host; the allocator is the only one who looks at them.\<close>

definition sizeof_router_node :: nat where "sizeof_router_node = 112"
definition sizeof_path_segment :: nat where "sizeof_path_segment = 32"
definition sizeof_request_parameter :: nat where "sizeof_request_parameter = 32"

definition nabto_coap_router_node_new :: "'m nn_allocator \<Rightarrow> 'm \<Rightarrow> router_node option \<times> 'm" where
  "nabto_coap_router_node_new al m =
     (case nn_allocator_calloc al 1 sizeof_router_node m of
        (None, m) \<Rightarrow> (None, m)
      | (Some a, m) \<Rightarrow> (Some (Router_node a [] None (\<lambda>slot. zero_resource)), m))"

function nabto_coap_router_node_free :: "'m nn_allocator \<Rightarrow> router_node \<Rightarrow> 'm \<Rightarrow> 'm"
  and free_parameter :: "'m nn_allocator \<Rightarrow> (cstring \<times> router_node) option \<Rightarrow> 'm \<Rightarrow> 'm"
  and free_segments_loop :: "'m nn_allocator \<Rightarrow> (address \<times> cstring \<times> router_node) list \<Rightarrow> 'm \<Rightarrow> 'm" where
  "nabto_coap_router_node_free al (Router_node a segments parameter handlers) m =
     nn_allocator_free al (Some a) (free_segments_loop al segments (free_parameter al parameter m))"
| "free_parameter al None m = m"
| "free_parameter al (Some (name, node)) m =
     nn_allocator_free al (Some (fst name)) (nabto_coap_router_node_free al node m)"
| "free_segments_loop al [] m = m"
| "free_segments_loop al ((s, segment, node) # segments) m =
     free_segments_loop al segments
       (nn_allocator_free al (Some s) (nn_allocator_free al (Some (fst segment)) (nabto_coap_router_node_free al node m)))"
  by pat_completeness auto
termination by (relation "measure (\<lambda>x. case x of Inl (al, node, m) \<Rightarrow> size node
   | Inr (Inl (al, p, m)) \<Rightarrow> size_option (size_prod (\<lambda>_. 0) size) p
   | Inr (Inr (al, ss, m)) \<Rightarrow> size_list (size_prod (\<lambda>_. 0) (size_prod (\<lambda>_. 0) size)) ss)") auto

definition nabto_coap_router_path_segment_new :: "'m nn_allocator \<Rightarrow> 'm \<Rightarrow> address option \<times> 'm" where
  "nabto_coap_router_path_segment_new al m = nn_allocator_calloc al 1 sizeof_path_segment m"

definition nabto_coap_router_path_segment_free :: "'m nn_allocator \<Rightarrow> address \<Rightarrow> 'm \<Rightarrow> 'm" where
  "nabto_coap_router_path_segment_free al s m = nn_allocator_free al (Some s) m"

definition nabto_coap_server_find_path_segment ::
  "router_node \<Rightarrow> bytes \<Rightarrow> (address \<times> cstring \<times> router_node) option" where
  "nabto_coap_server_find_path_segment node segment =
     find (\<lambda>(s, str, child). length (snd str) = length segment \<and> snd str = segment) (rn_pathSegments node)"

text \<open>The insertion before the sentinel, the only one in the code.\<close>

definition nabto_coap_router_insert_path_segment ::
  "address \<times> cstring \<times> router_node \<Rightarrow> (address \<times> cstring \<times> router_node) list \<Rightarrow> (address \<times> cstring \<times> router_node) list" where
  "nabto_coap_router_insert_path_segment segment segments = segments @ [segment]"

definition nabto_coap_server_parameter_name_length :: "bytes \<Rightarrow> nat option" where
  "nabto_coap_server_parameter_name_length segment =
     (if length segment < 3 \<or> segment ! 0 \<noteq> 0x7B \<or> segment ! (length segment - 1) \<noteq> 0x7D then None
      else Some (length segment - 2))"

section \<open>Adding resources\<close>

definition method_slot :: "coap_code \<Rightarrow> resource_slot option" where
  "method_slot method =
     (if method = NABTO_COAP_CODE_GET then Some GET_HANDLER
      else if method = NABTO_COAP_CODE_POST then Some POST_HANDLER
      else if method = NABTO_COAP_CODE_PUT then Some PUT_HANDLER
      else if method = NABTO_COAP_CODE_DELETE then Some DELETE_HANDLER
      else None)"

definition set_handler :: "resource_slot \<Rightarrow> server_resource \<Rightarrow> router_node \<Rightarrow> router_node" where
  "set_handler slot r node =
     Router_node (rn_address node) (rn_pathSegments node) (rn_parameter node) ((rn_handlers node)(slot := r))"

definition set_segments :: "(address \<times> cstring \<times> router_node) list \<Rightarrow> router_node \<Rightarrow> router_node" where
  "set_segments segments node = Router_node (rn_address node) segments (rn_parameter node) (rn_handlers node)"

definition set_parameter :: "(cstring \<times> router_node) option \<Rightarrow> router_node \<Rightarrow> router_node" where
  "set_parameter parameter node = Router_node (rn_address node) (rn_pathSegments node) parameter (rn_handlers node)"

text \<open>The node of the first path segment with the string changes.\<close>

fun put_segment :: "bytes \<Rightarrow> router_node \<Rightarrow> (address \<times> cstring \<times> router_node) list \<Rightarrow> (address \<times> cstring \<times> router_node) list" where
  "put_segment segment child [] = []"
| "put_segment segment child ((s, str, node) # segments) =
     (if snd str = segment then (s, str, child) # segments else (s, str, node) # put_segment segment child segments)"

text \<open>
  The child that a path segment leads to, made when it is missing: the error, the child and the
  parent that has it.
\<close>

definition parameter_child ::
  "'m nn_allocator \<Rightarrow> router_node \<Rightarrow> bytes \<Rightarrow> 'm \<Rightarrow> (coap_error + router_node) \<times> router_node \<times> 'm" where
  "parameter_child al parent segment m =
     (case nabto_coap_server_parameter_name_length segment of
        None \<Rightarrow> (Inl COAP_INVALID_PARAMETER, parent, m)
      | Some nameLength \<Rightarrow>
         (case rn_parameter parent of
            None \<Rightarrow>
             (case nn_allocator_calloc al (nameLength + 1) 1 m of
                (None, m) \<Rightarrow> (Inl COAP_OUT_OF_MEMORY, parent, m)
              | (Some p, m) \<Rightarrow>
                 (case nabto_coap_router_node_new al m of
                    (None, m) \<Rightarrow> (Inl COAP_OUT_OF_MEMORY, parent, nn_allocator_free al (Some p) m)
                  | (Some child, m) \<Rightarrow>
                     (Inr child, set_parameter (Some ((p, take nameLength (drop 1 segment)), child)) parent, m)))
          | Some (name, child) \<Rightarrow>
             (if length (snd name) \<noteq> nameLength \<or> snd name \<noteq> take nameLength (drop 1 segment)
              then (Inl COAP_INVALID_PARAMETER, parent, m)
              else (Inr child, parent, m))))"

definition segment_child ::
  "'m nn_allocator \<Rightarrow> router_node \<Rightarrow> bytes \<Rightarrow> 'm \<Rightarrow> (coap_error + router_node) \<times> router_node \<times> 'm" where
  "segment_child al parent segment m =
     (case nabto_coap_server_find_path_segment parent segment of
        Some (s, str, child) \<Rightarrow> (Inr child, parent, m)
      | None \<Rightarrow>
         (case nabto_coap_router_path_segment_new al m of
            (None, m) \<Rightarrow> (Inl COAP_OUT_OF_MEMORY, parent, m)
          | (Some s, m) \<Rightarrow>
             (case nn_strdup segment al m of
                (None, m) \<Rightarrow> (Inl COAP_OUT_OF_MEMORY, parent, nn_allocator_free al (Some s) m)
              | (Some str, m) \<Rightarrow>
                 (case nabto_coap_router_node_new al m of
                    (None, m) \<Rightarrow>
                     (let m = nn_allocator_free al (Some (fst str)) m
                      in (Inl COAP_OUT_OF_MEMORY, parent, nn_allocator_free al (Some s) m))
                  | (Some child, m) \<Rightarrow>
                     (Inr child,
                      set_segments (nabto_coap_router_insert_path_segment (s, str, child) (rn_pathSegments parent)) parent,
                      m)))))"

text \<open>The error, the resource unless the method is unknown or an error occurred, the tree and the memory.\<close>

fun nabto_coap_server_add_resource_into_tree ::
  "'m nn_allocator \<Rightarrow> router_node \<Rightarrow> coap_code \<Rightarrow> bytes list \<Rightarrow> address option \<Rightarrow> address option \<Rightarrow> 'm \<Rightarrow>
   coap_error \<times> resource option \<times> router_node \<times> 'm" where
  "nabto_coap_server_add_resource_into_tree al parent method [] handler userData m =
     (case method_slot method of
        None \<Rightarrow> (COAP_OK, None, parent, m)
      | Some slot \<Rightarrow> (COAP_OK, Some (rn_address parent, slot),
          set_handler slot \<lparr>re_handler = handler, re_handlerUserData = userData\<rparr> parent, m))"
| "nabto_coap_server_add_resource_into_tree al parent method (segment # path) handler userData m =
     (if segment \<noteq> [] \<and> segment ! 0 = 0x7B then
       (case parameter_child al parent segment m of
          (Inl err, parent, m) \<Rightarrow> (err, None, parent, m)
        | (Inr child, parent, m) \<Rightarrow>
           (case nabto_coap_server_add_resource_into_tree al child method path handler userData m of
              (err, res, child, m) \<Rightarrow> (err, res, set_parameter (map_option (\<lambda>(name, _). (name, child)) (rn_parameter parent)) parent, m)))
      else
       (case segment_child al parent segment m of
          (Inl err, parent, m) \<Rightarrow> (err, None, parent, m)
        | (Inr child, parent, m) \<Rightarrow>
           (case nabto_coap_server_add_resource_into_tree al child method path handler userData m of
              (err, res, child, m) \<Rightarrow> (err, res, set_segments (put_segment segment child (rn_pathSegments parent)) parent, m))))"

section \<open>Pointers to resources\<close>

fun router_nodes :: "router_node \<Rightarrow> router_node list" where
  "router_nodes (Router_node a segments parameter handlers) =
     Router_node a segments parameter handlers #
     (case parameter of None \<Rightarrow> [] | Some (name, node) \<Rightarrow> router_nodes node) @
     concat (map (\<lambda>(s, str, node). router_nodes node) segments)"

definition resource_at :: "router_node \<Rightarrow> resource \<Rightarrow> server_resource" where
  "resource_at rootNode r =
     (case find (\<lambda>node. rn_address node = fst r) (router_nodes rootNode) of
        None \<Rightarrow> zero_resource
      | Some node \<Rightarrow> rn_handlers node (snd r))"

fun write_resource :: "resource \<Rightarrow> server_resource \<Rightarrow> router_node \<Rightarrow> router_node" where
  "write_resource r v (Router_node a segments parameter handlers) =
     Router_node a (map (\<lambda>(s, str, node). (s, str, write_resource r v node)) segments)
       (map_option (\<lambda>(name, node). (name, write_resource r v node)) parameter)
       (if a = fst r then handlers(snd r := v) else handlers)"

section \<open>Finding resources\<close>

text \<open>The handler of a node for a method, when it is set.\<close>

definition node_resource :: "router_node \<Rightarrow> coap_code \<Rightarrow> resource option" where
  "node_resource node method =
     (case method_slot method of
        None \<Rightarrow> None
      | Some slot \<Rightarrow> if re_handler (rn_handlers node slot) \<noteq> None then Some (rn_address node, slot) else None)"

text \<open>
  The walk along the path options of a message.  \<open>parameters\<close> is the list that gets the values of
  parameters, or the null pointer.  The result is the last node, unless there is none or an allocation failed.
\<close>

lemma get_option_left [simp]:
  "nabto_coap_get_option n it = Some it' \<Longrightarrow> it_left it' < it_left it"
proof (induction n it rule: nabto_coap_get_option.induct)
  case (1 n it)
  obtain it1 where it1: "nabto_coap_get_next_option it = Some it1"
    "it' = it1 \<or> (it_option it1 \<noteq> n \<and> nabto_coap_get_option n it1 = Some it')"
    using 1(2) by (subst (asm) nabto_coap_get_option.simps) (auto split: option.splits if_splits)
  note less = get_next_option_left [OF it1(1)]
  from it1(2) show ?case
  proof
    assume "it_option it1 \<noteq> n \<and> nabto_coap_get_option n it1 = Some it'"
    then have "it_left it' < it_left it1" using 1(1) it1(1) by blast
    then show ?case using less by (rule less_trans)
  qed (use less in simp)
qed

function find_resource_loop ::
  "'m nn_allocator \<Rightarrow> router_node \<Rightarrow> option_iterator \<Rightarrow> request_parameter list option \<Rightarrow> 'm \<Rightarrow>
   router_node option \<times> request_parameter list option \<times> 'm" where
  "find_resource_loop al node it parameters m =
     (case nabto_coap_get_option OPTION_URI_PATH it of
        None \<Rightarrow> (Some node, parameters, m)
      | Some it \<Rightarrow>
         (case nabto_coap_server_find_path_segment node (it_data it) of
            Some (s, str, child) \<Rightarrow> find_resource_loop al child it parameters m
          | None \<Rightarrow>
             (case rn_parameter node of
                None \<Rightarrow> (None, parameters, m)
              | Some (name, child) \<Rightarrow>
                 (case parameters of
                    None \<Rightarrow> find_resource_loop al child it parameters m
                  | Some params \<Rightarrow>
                     (case nn_allocator_calloc al 1 sizeof_request_parameter m of
                        (None, m) \<Rightarrow> (None, parameters, m)
                      | (Some p, m) \<Rightarrow>
                         (case nn_allocator_calloc al 1 (length (it_data it) + 1) m of
                            (None, m) \<Rightarrow> (None, parameters, nn_allocator_free al (Some p) m)
                          | (Some v, m) \<Rightarrow>
                             find_resource_loop al child it
                               (Some (params @ [\<lparr>pm_address = p, pm_name = snd name, pm_value = (v, it_data it)\<rparr>])) m))))))"
  by pat_completeness auto
termination by (relation "measure (\<lambda>(al, node, it, parameters, m). it_left it)") auto

declare find_resource_loop.simps [simp del]

definition nabto_coap_server_find_resource ::
  "'m nn_allocator \<Rightarrow> router_node \<Rightarrow> coap_incoming_message \<Rightarrow> request_parameter list option \<Rightarrow> 'm \<Rightarrow>
   resource option \<times> request_parameter list option \<times> 'm" where
  "nabto_coap_server_find_resource al rootNode msg parameters m =
     (case find_resource_loop al rootNode (nabto_coap_option_iterator_init (im_options msg)) parameters m of
        (None, parameters, m) \<Rightarrow> (None, parameters, m)
      | (Some node, parameters, m) \<Rightarrow> (node_resource node (im_code msg), parameters, m))"

text \<open>The same walk along the segments of an application, with the values in a string map.\<close>

fun find_resource_data_loop ::
  "router_node \<Rightarrow> bytes list \<Rightarrow> 'm nn_string_map option \<Rightarrow> 'm \<Rightarrow> router_node option \<times> 'm nn_string_map option \<times> 'm" where
  "find_resource_data_loop node [] parameters m = (Some node, parameters, m)"
| "find_resource_data_loop node (segment # segments) parameters m =
     (case nabto_coap_server_find_path_segment node segment of
        Some (s, str, child) \<Rightarrow> find_resource_data_loop child segments parameters m
      | None \<Rightarrow>
         (case rn_parameter node of
            None \<Rightarrow> (None, parameters, m)
          | Some (name, child) \<Rightarrow>
             (case parameters of
                None \<Rightarrow> find_resource_data_loop child segments parameters m
              | Some params \<Rightarrow>
                 (case nn_string_map_insert (snd name) segment params m of
                    (it, params, m) \<Rightarrow>
                      if nn_string_map_is_end it then (None, Some params, m)
                      else find_resource_data_loop child segments (Some params) m))))"

definition nabto_coap_server_find_resource_data ::
  "router_node \<Rightarrow> coap_code \<Rightarrow> bytes list \<Rightarrow> 'm nn_string_map option \<Rightarrow> 'm \<Rightarrow>
   address option \<times> 'm nn_string_map option \<times> 'm" where
  "nabto_coap_server_find_resource_data rootNode method segments parameters m =
     (case find_resource_data_loop rootNode segments parameters m of
        (None, parameters, m) \<Rightarrow> (None, parameters, m)
      | (Some node, parameters, m) \<Rightarrow>
         (case node_resource node method of
            None \<Rightarrow> (None, parameters, m)
          | Some (a, slot) \<Rightarrow> (re_handlerUserData (rn_handlers node slot), parameters, m)))"

end
