(* ===== verification/Coap_Router_Table.thy ===== *)
theory Coap_Router_Table
  imports Coap_Router
begin

text \<open>
  The tree of resources as a table from routes to handlers.  A route is the list of segments a
  resource was added with; adding a resource is an update of the table, and finding one gives the handler of a
  route that the path of the message matches.
\<close>

section \<open>The table\<close>

definition is_parameter :: "bytes \<Rightarrow> bool" where
  "is_parameter segment \<longleftrightarrow> segment \<noteq> [] \<and> segment ! 0 = 0x7B"

definition parameter_segment :: "bytes \<Rightarrow> bytes" where
  "parameter_segment name = 0x7B # name @ [0x7D]"

fun route_node :: "router_node \<Rightarrow> bytes list \<Rightarrow> router_node option" where
  "route_node node [] = Some node"
| "route_node node (segment # route) =
     (if is_parameter segment then
       (case rn_parameter node of
          None \<Rightarrow> None
        | Some (name, child) \<Rightarrow> if segment = parameter_segment (snd name) then route_node child route else None)
      else
       (case nabto_coap_server_find_path_segment node segment of
          None \<Rightarrow> None
        | Some (s, str, child) \<Rightarrow> route_node child route))"

definition route_table :: "router_node \<Rightarrow> bytes list \<Rightarrow> resource_slot \<Rightarrow> server_resource" where
  "route_table node route slot =
     (case route_node node route of None \<Rightarrow> zero_resource | Some n \<Rightarrow> rn_handlers n slot)"

lemma route_table_Nil [simp]: "route_table node [] = rn_handlers node"
  by (auto simp: route_table_def)

lemma route_table_parameter:
  "is_parameter segment \<Longrightarrow> route_table node (segment # route) =
     (case rn_parameter node of None \<Rightarrow> (\<lambda>_. zero_resource)
      | Some (name, child) \<Rightarrow> if segment = parameter_segment (snd name) then route_table child route else (\<lambda>_. zero_resource))"
  by (auto simp: route_table_def fun_eq_iff split: option.splits)

lemma route_table_segment:
  "\<not> is_parameter segment \<Longrightarrow> route_table node (segment # route) =
     (case nabto_coap_server_find_path_segment node segment of None \<Rightarrow> (\<lambda>_. zero_resource)
      | Some (s, str, child) \<Rightarrow> route_table child route)"
  by (auto simp: route_table_def fun_eq_iff split: option.splits)

lemma find_path_segment_iff:
  "nabto_coap_server_find_path_segment node segment = find (\<lambda>(s, str, child). snd str = segment) (rn_pathSegments node)"
proof -
  have "(\<lambda>(s, str, child). length (snd str) = length segment \<and> snd str = segment) =
      (\<lambda>(s::address, str::cstring, child::router_node). snd str = segment)" by auto
  then show ?thesis unfolding nabto_coap_server_find_path_segment_def by simp
qed

lemma node_fields [simp]:
  "rn_address (set_segments segments node) = rn_address node"
  "rn_pathSegments (set_segments segments node) = segments"
  "rn_parameter (set_segments segments node) = rn_parameter node"
  "rn_handlers (set_segments segments node) = rn_handlers node"
  "rn_address (set_parameter parameter node) = rn_address node"
  "rn_pathSegments (set_parameter parameter node) = rn_pathSegments node"
  "rn_parameter (set_parameter parameter node) = parameter"
  "rn_handlers (set_parameter parameter node) = rn_handlers node"
  "rn_address (set_handler slot r node) = rn_address node"
  "rn_pathSegments (set_handler slot r node) = rn_pathSegments node"
  "rn_parameter (set_handler slot r node) = rn_parameter node"
  "rn_handlers (set_handler slot r node) = (rn_handlers node)(slot := r)"
  by (simp_all add: set_segments_def set_parameter_def set_handler_def)

lemma find_path_segment_fields [simp]:
  "nabto_coap_server_find_path_segment (set_parameter parameter node) = nabto_coap_server_find_path_segment node"
  "nabto_coap_server_find_path_segment (set_handler slot r node) = nabto_coap_server_find_path_segment node"
  by (simp_all add: fun_eq_iff find_path_segment_iff)

lemma find_put_segment:
  "find (\<lambda>(s, str, child). snd str = segment') (put_segment segment child segments) =
     (case find (\<lambda>(s, str, child). snd str = segment') segments of
        None \<Rightarrow> None
      | Some (s, str, node) \<Rightarrow> Some (s, str, if segment' = segment then child else node))"
  by (induction segments) (auto split: option.splits)

lemma find_append: "find P (xs @ ys) = (case find P xs of None \<Rightarrow> find P ys | Some x \<Rightarrow> Some x)"
  by (induction xs) auto

lemma parameter_name_iff:
  assumes "is_parameter segment"
  shows "nabto_coap_server_parameter_name_length segment = Some n \<longleftrightarrow>
    0 < n \<and> segment = parameter_segment (take n (drop 1 segment)) \<and> length segment = n + 2"
proof -
  obtain xs where xs: "segment = 0x7B # xs" using assms unfolding is_parameter_def by (cases segment) auto
  show ?thesis
  proof (cases xs rule: rev_cases)
    case Nil
    then show ?thesis using xs by (auto simp: nabto_coap_server_parameter_name_length_def parameter_segment_def)
  next
    case (snoc ys y)
    then show ?thesis using xs
      by (auto simp: nabto_coap_server_parameter_name_length_def parameter_segment_def nth_append)
  qed
qed

lemma new_node_table:
  "nabto_coap_router_node_new al m = (Some node, m') \<Longrightarrow>
     rn_handlers node = (\<lambda>_. zero_resource) \<and> rn_pathSegments node = [] \<and> rn_parameter node = None"
  by (auto simp: nabto_coap_router_node_new_def split: prod.splits option.splits)

lemma empty_node_table:
  assumes "rn_handlers node = (\<lambda>_. zero_resource)" "rn_pathSegments node = []" "rn_parameter node = None"
  shows "route_table node route = (\<lambda>_. zero_resource)"
  using assms by (cases route) (auto simp: route_table_def find_path_segment_iff fun_eq_iff)

section \<open>Adding a resource updates the table\<close>

lemma parameter_child_error:
  "parameter_child al parent segment m = (Inl err, parent', m') \<Longrightarrow> parent' = parent \<and> err \<noteq> COAP_OK"
  by (auto simp: parameter_child_def split: option.splits prod.splits if_splits)

lemma parameter_child_ok:
  assumes "is_parameter segment" "parameter_child al parent segment m = (Inr child, parent', m')"
  obtains name where "snd name \<noteq> []" "segment = parameter_segment (snd name)" "rn_parameter parent' = Some (name, child)"
    "rn_pathSegments parent' = rn_pathSegments parent" "rn_handlers parent' = rn_handlers parent"
    "rn_address parent' = rn_address parent"
    "route_table child = (case rn_parameter parent of None \<Rightarrow> (\<lambda>_ _. zero_resource) | Some (n, c) \<Rightarrow> route_table c)"
    "\<And>n c. rn_parameter parent = Some (n, c) \<Longrightarrow> snd n = snd name \<and> c = child"
proof -
  obtain n where n: "nabto_coap_server_parameter_name_length segment = Some n"
    using assms(2) by (auto simp: parameter_child_def split: option.splits)
  note n' = n [unfolded parameter_name_iff [OF assms(1)]]
  show ?thesis
  proof (cases "rn_parameter parent")
    case None
    from assms(2) n None obtain p m1 m2 where
      c: "nabto_coap_router_node_new al m1 = (Some child, m2)"
      "parent' = set_parameter (Some ((p, take n (drop 1 segment)), child)) parent"
      by (auto simp: parameter_child_def split: option.splits prod.splits if_splits)
    note e = empty_node_table [of child] and z = new_node_table [OF c(1)]
    show ?thesis
      by (rule that [of "(p, take n (drop 1 segment))"])
        (use c(2) n' None e z in \<open>auto simp: fun_eq_iff\<close>)
  next
    case (Some nc)
    obtain name c where nc: "nc = (name, c)" by (cases nc)
    have "snd name = take n (drop 1 segment)" "c = child" "parent' = parent"
      using assms(2) n Some nc by (auto simp: parameter_child_def split: option.splits prod.splits if_splits)
    then show ?thesis
      by (intro that [of name]) (use n' Some nc in \<open>auto simp: parameter_segment_def\<close>)
  qed
qed

lemma segment_child_error:
  "segment_child al parent segment m = (Inl err, parent', m') \<Longrightarrow> parent' = parent \<and> err \<noteq> COAP_OK"
  by (auto simp: segment_child_def Let_def split: option.splits prod.splits if_splits)

lemma segment_child_ok:
  assumes "segment_child al parent segment m = (Inr child, parent', m')"
  obtains s str where "snd str = segment" "nabto_coap_server_find_path_segment parent' segment = Some (s, str, child)"
    "\<And>x. x \<noteq> segment \<Longrightarrow> nabto_coap_server_find_path_segment parent' x = nabto_coap_server_find_path_segment parent x"
    "rn_parameter parent' = rn_parameter parent" "rn_handlers parent' = rn_handlers parent"
    "rn_address parent' = rn_address parent"
    "route_table child = (case nabto_coap_server_find_path_segment parent segment of
       None \<Rightarrow> (\<lambda>_ _. zero_resource) | Some (s, str, c) \<Rightarrow> route_table c)"
proof (cases "nabto_coap_server_find_path_segment parent segment")
  case None
  from assms None obtain s str m1 m2 m3 m4 where
    c: "nabto_coap_router_node_new al m1 = (Some child, m2)" "nn_strdup segment al m3 = (Some str, m4)"
    "parent' = set_segments (nabto_coap_router_insert_path_segment (s, str, child) (rn_pathSegments parent)) parent"
    by (auto simp: segment_child_def Let_def split: option.splits prod.splits if_splits)
  have str: "snd str = segment" using c(2) by (auto simp: nn_strdup_def split: prod.splits option.splits)
  note e = empty_node_table [of child] and z = new_node_table [OF c(1)]
  show ?thesis
    by (rule that [of str s])
      (use str c(3) None e z in \<open>auto simp: find_path_segment_iff nabto_coap_router_insert_path_segment_def find_append fun_eq_iff split: option.splits\<close>)
next
  case (Some x)
  obtain s str c where x: "x = (s, str, c)" by (cases x)
  have "snd str = segment" using Some x by (auto simp: find_path_segment_iff find_Some_iff)
  then show ?thesis using assms Some x by (intro that [of str s]) (auto simp: segment_child_def)
qed

lemma add_resource_table:
  assumes "nabto_coap_server_add_resource_into_tree al parent mcode path handler userData m = (err, res, parent', m')"
  shows "route_table parent' = (\<lambda>route slot.
      if err = COAP_OK \<and> route = path \<and> method_slot mcode = Some slot
      then \<lparr>re_handler = handler, re_handlerUserData = userData\<rparr> else route_table parent route slot)"
  using assms
proof (induction al parent mcode path handler userData m arbitrary: err res parent' m'
    rule: nabto_coap_server_add_resource_into_tree.induct)
  case (1 al parent mcode handler userData m)
  show ?case
  proof (intro ext)
    fix route slot
    show "route_table parent' route slot = (if err = COAP_OK \<and> route = [] \<and> method_slot mcode = Some slot
      then \<lparr>re_handler = handler, re_handlerUserData = userData\<rparr> else route_table parent route slot)"
      using 1 by (cases route) (auto simp: route_table_def split: option.splits)
  qed
next
  case (2 al parent mcode segment path handler userData m)
  show ?case
  proof (cases "is_parameter segment")
    case True
    note par = True
    obtain c p1 m1 where c: "parameter_child al parent segment m = (c, p1, m1)" by (metis prod.exhaust)
    show ?thesis
    proof (cases c)
      case (Inl e)
      with 2(3) c par parameter_child_error [OF c [unfolded Inl]] show ?thesis
        by (auto simp: is_parameter_def fun_eq_iff)
    next
      case (Inr child)
      obtain name where n: "segment = parameter_segment (snd name)" "rn_parameter p1 = Some (name, child)"
        "rn_pathSegments p1 = rn_pathSegments parent" "rn_handlers p1 = rn_handlers parent"
        "route_table child = (case rn_parameter parent of None \<Rightarrow> (\<lambda>_ _. zero_resource) | Some (n, c) \<Rightarrow> route_table c)"
        "\<And>n c. rn_parameter parent = Some (n, c) \<Longrightarrow> snd n = snd name \<and> c = child"
        using parameter_child_ok [OF par c [unfolded Inr]] by blast
      obtain err1 res1 child1 m2 where a:
        "nabto_coap_server_add_resource_into_tree al child mcode path handler userData m1 = (err1, res1, child1, m2)"
        by (metis prod.exhaust)
      have e: "err = err1" "parent' = set_parameter (Some (name, child1)) p1"
        using 2(3) c par a Inr n(2) by (auto simp: is_parameter_def)
      have ih: "route_table child1 = (\<lambda>route slot.
          if err1 = COAP_OK \<and> route = path \<and> method_slot mcode = Some slot
          then \<lparr>re_handler = handler, re_handlerUserData = userData\<rparr> else route_table child route slot)"
        by (rule 2(1) [OF _ _ _ _ a]) (use c par Inr in \<open>auto simp: is_parameter_def\<close>)
      show ?thesis
      proof (intro ext)
        fix route slot
        show "route_table parent' route slot = (if err = COAP_OK \<and> route = segment # path \<and> method_slot mcode = Some slot
          then \<lparr>re_handler = handler, re_handlerUserData = userData\<rparr> else route_table parent route slot)"
        proof (cases route)
          case Nil
          then show ?thesis using e n by simp
        next
          case (Cons s r)
          show ?thesis
          proof (cases "is_parameter s")
            case True
            then show ?thesis
              unfolding Cons route_table_parameter [OF True] e using ih n(1,5) n(6)
              by (auto simp: parameter_segment_def split: option.splits)
          next
            case False
            then show ?thesis using par e n(3)
              by (auto simp: Cons route_table_segment find_path_segment_iff split: option.splits)
          qed
        qed
      qed
    qed
  next
    case False
    note seg = False
    obtain c p1 m1 where c: "segment_child al parent segment m = (c, p1, m1)" by (metis prod.exhaust)
    show ?thesis
    proof (cases c)
      case (Inl e)
      with 2(3) c seg segment_child_error [OF c [unfolded Inl]] show ?thesis
        by (auto simp: is_parameter_def fun_eq_iff)
    next
      case (Inr child)
      obtain s str where n: "snd str = segment" "nabto_coap_server_find_path_segment p1 segment = Some (s, str, child)"
        "\<And>x. x \<noteq> segment \<Longrightarrow> nabto_coap_server_find_path_segment p1 x = nabto_coap_server_find_path_segment parent x"
        "rn_parameter p1 = rn_parameter parent" "rn_handlers p1 = rn_handlers parent"
        "route_table child = (case nabto_coap_server_find_path_segment parent segment of
           None \<Rightarrow> (\<lambda>_ _. zero_resource) | Some (s, str, c) \<Rightarrow> route_table c)"
        using segment_child_ok [OF c [unfolded Inr]] by blast
      obtain err1 res1 child1 m2 where a:
        "nabto_coap_server_add_resource_into_tree al child mcode path handler userData m1 = (err1, res1, child1, m2)"
        by (metis prod.exhaust)
      have e: "err = err1" "parent' = set_segments (put_segment segment child1 (rn_pathSegments p1)) p1"
        using 2(3) c seg a Inr n(2) by (auto simp: is_parameter_def)
      have ih: "route_table child1 = (\<lambda>route slot.
          if err1 = COAP_OK \<and> route = path \<and> method_slot mcode = Some slot
          then \<lparr>re_handler = handler, re_handlerUserData = userData\<rparr> else route_table child route slot)"
        by (rule 2(2) [OF _ _ _ _ a]) (use c seg Inr in \<open>auto simp: is_parameter_def\<close>)
      have f: "nabto_coap_server_find_path_segment parent' x =
          (if x = segment then Some (s, str, child1) else nabto_coap_server_find_path_segment parent x)" for x
        using n(2) n(3) [of x] by (auto simp: e find_path_segment_iff find_put_segment split: option.splits)
      show ?thesis
      proof (intro ext)
        fix route slot
        show "route_table parent' route slot = (if err = COAP_OK \<and> route = segment # path \<and> method_slot mcode = Some slot
          then \<lparr>re_handler = handler, re_handlerUserData = userData\<rparr> else route_table parent route slot)"
        proof (cases route)
          case Nil
          then show ?thesis using e n by simp
        next
          case (Cons x r)
          show ?thesis
          proof (cases "is_parameter x")
            case True
            then show ?thesis using seg e n(4) by (auto simp: Cons route_table_parameter split: option.splits)
          next
            case False
            then show ?thesis
              unfolding Cons route_table_segment [OF False] f using ih n(6) e(1)
              by (auto split: option.splits)
          qed
        qed
      qed
    qed
  qed
qed

text \<open>C16: The tree is a table.  Adding a resource changes one entry of the table, the one of its route and method, and
  nothing else; an error, also one in the middle of the route, leaves the table as it is, and so does a method
  the server does not know, although it is no error.\<close>

theorem router_refines_table:
  "case nabto_coap_server_add_resource_into_tree al parent mcode path handler userData m of
     (err, res, parent', m') \<Rightarrow>
       route_table parent' = (\<lambda>route slot.
         if err = COAP_OK \<and> route = path \<and> method_slot mcode = Some slot
         then \<lparr>re_handler = handler, re_handlerUserData = userData\<rparr> else route_table parent route slot)"
  using add_resource_table [of al parent mcode path handler userData m] by (auto split: prod.splits)

section \<open>Finding a resource\<close>

text \<open>The path of a message, and of an iterator over its options.\<close>

definition path_options :: "option_iterator \<Rightarrow> bytes list" where
  "path_options it = map snd (filter (\<lambda>opt. fst opt = OPTION_URI_PATH) (options_of it))"

definition uri_path :: "coap_incoming_message \<Rightarrow> bytes list" where
  "uri_path msg = path_options (nabto_coap_option_iterator_init (im_options msg))"

lemma path_options_step:
  "path_options it = (case nabto_coap_get_option OPTION_URI_PATH it of
     None \<Rightarrow> [] | Some it' \<Rightarrow> it_data it' # path_options it')"
proof (induction "OPTION_URI_PATH" it rule: nabto_coap_get_option.induct)
  case (1 it)
  show ?case
  proof (cases "nabto_coap_get_next_option it")
    case None
    then show ?thesis by (simp add: path_options_def options_of.simps [of it] nabto_coap_get_option.simps [of _ it])
  next
    case (Some it')
    then have "path_options it = (if it_option it' = OPTION_URI_PATH then [it_data it'] else []) @ path_options it'"
      by (simp add: path_options_def options_of.simps [of it])
    then show ?thesis using Some 1 [OF Some]
      by (subst nabto_coap_get_option.simps) (simp split: option.splits)
  qed
qed

text \<open>A path matches a route when they are equal outside the parameters, which take any value.\<close>

definition segment_matches :: "bytes \<Rightarrow> bytes \<Rightarrow> bool" where
  "segment_matches segment value \<longleftrightarrow> is_parameter segment \<or> segment = value"

lemma segment_matches_simps [simp]:
  "segment_matches segment segment"
  "is_parameter segment \<Longrightarrow> segment_matches segment value"
  by (simp_all add: segment_matches_def)

definition route_values :: "bytes list \<Rightarrow> bytes list \<Rightarrow> (bytes \<times> bytes) list" where
  "route_values route path =
     filter (\<lambda>(segment, value). is_parameter segment) (zip route path)"

lemma route_values_simps [simp]:
  "route_values [] path = []"
  "route_values (segment # route) (value # path) =
     (if is_parameter segment then [(segment, value)] else []) @ route_values route path"
  by (simp_all add: route_values_def)

text \<open>What a parameter of a request stands for: the segment of the route and the value in the path.\<close>

definition parameter_entry :: "request_parameter \<Rightarrow> bytes \<times> bytes" where
  "parameter_entry p = (parameter_segment (pm_name p), snd (pm_value p))"

text \<open>A tree that was made by additions: no segment of a path looks like a parameter.\<close>

fun tree_ok :: "router_node \<Rightarrow> bool" where
  "tree_ok (Router_node a segments parameter handlers) \<longleftrightarrow>
     (case parameter of None \<Rightarrow> True | Some (name, node) \<Rightarrow> tree_ok node) \<and>
     (\<forall>(s, str, node) \<in> set segments. \<not> is_parameter (snd str) \<and> tree_ok node)"

lemma tree_ok_iff:
  "tree_ok node \<longleftrightarrow> (\<forall>name child. rn_parameter node = Some (name, child) \<longrightarrow> tree_ok child) \<and>
     (\<forall>s str child. (s, str, child) \<in> set (rn_pathSegments node) \<longrightarrow> \<not> is_parameter (snd str) \<and> tree_ok child)"
  by (cases node) (fastforce split: option.splits)

lemma find_path_segment_in:
  "nabto_coap_server_find_path_segment node segment = Some (s, str, child) \<Longrightarrow>
     snd str = segment \<and> (s, str, child) \<in> set (rn_pathSegments node)"
  by (auto simp: find_path_segment_iff find_Some_iff) (metis nth_mem)

lemma find_resource_loop_route:
  assumes "find_resource_loop al node it parameters m = (Some n, parameters', m')" "tree_ok node"
  shows "\<exists>route. route_node node route = Some n \<and> list_all2 segment_matches route (path_options it) \<and>
    (case parameters of
       None \<Rightarrow> parameters' = None \<and> m' = m
     | Some ps \<Rightarrow> \<exists>qs. parameters' = Some (ps @ qs) \<and> map parameter_entry qs = route_values route (path_options it))"
  using assms
proof (induction al node it parameters m rule: find_resource_loop.induct)
  case (1 al node it parameters m)
  show ?case
  proof (cases "nabto_coap_get_option OPTION_URI_PATH it")
    case None
    with 1(4) show ?thesis
      by (intro exI [of _ "[]"]) (auto simp: find_resource_loop.simps [of _ _ it] path_options_step [of it] split: option.splits)
  next
    case (Some it')
    have path: "path_options it = it_data it' # path_options it'" using Some path_options_step [of it] by simp
    show ?thesis
    proof (cases "nabto_coap_server_find_path_segment node (it_data it')")
      case (Some x)
      obtain s str child where x: "x = (s, str, child)" by (cases x)
      note f = find_path_segment_in [OF Some [unfolded x]]
      have t: "tree_ok child" "\<not> is_parameter (it_data it')" using f 1(5) [unfolded tree_ok_iff [of node]] by metis+
      have r: "find_resource_loop al child it' parameters m = (Some n, parameters', m')"
        using 1(4) Some x \<open>nabto_coap_get_option OPTION_URI_PATH it = Some it'\<close>
        by (simp add: find_resource_loop.simps [of _ _ it])
      obtain route where "route_node child route = Some n" "list_all2 segment_matches route (path_options it')"
        "case parameters of None \<Rightarrow> parameters' = None \<and> m' = m
         | Some ps \<Rightarrow> \<exists>qs. parameters' = Some (ps @ qs) \<and> map parameter_entry qs = route_values route (path_options it')"
        using 1(3) [OF \<open>nabto_coap_get_option OPTION_URI_PATH it = Some it'\<close> Some x [symmetric] refl r t(1)] by blast
      then show ?thesis using t Some x path
        by (intro exI [of _ "it_data it' # route"]) (auto split: option.splits)
    next
      case None
      show ?thesis
      proof (cases "rn_parameter node")
        case rp: None
        then show ?thesis using 1(4) None \<open>nabto_coap_get_option OPTION_URI_PATH it = Some it'\<close>
          by (simp add: find_resource_loop.simps [of _ _ it])
      next
        case (Some nc)
        obtain name child where nc: "nc = (name, child)" by (cases nc)
        have t: "tree_ok child" using Some nc 1(5) tree_ok_iff [of node] by blast
        have ip: "is_parameter (parameter_segment (snd name))" by (simp add: is_parameter_def parameter_segment_def)
        show ?thesis
        proof (cases parameters)
          case pn: None
          have r: "find_resource_loop al child it' None m = (Some n, parameters', m')"
            using 1(4) None Some nc pn \<open>nabto_coap_get_option OPTION_URI_PATH it = Some it'\<close>
            by (simp add: find_resource_loop.simps [of _ _ it])
          obtain route where "route_node child route = Some n" "list_all2 segment_matches route (path_options it')"
            "parameters' = None" "m' = m"
            using 1(1) [OF \<open>nabto_coap_get_option OPTION_URI_PATH it = Some it'\<close> None Some nc [symmetric] pn r [folded pn] t] pn by auto
          then show ?thesis using Some nc path pn ip
            by (intro exI [of _ "parameter_segment (snd name) # route"]) auto
        next
          case (Some params)
          obtain p m1 where p: "nn_allocator_calloc al 1 sizeof_request_parameter m = (p, m1)" by fastforce
          then obtain p1 where p1: "p = Some p1"
            using 1(4) None \<open>rn_parameter node = Some nc\<close> nc Some \<open>nabto_coap_get_option OPTION_URI_PATH it = Some it'\<close>
            by (cases p) (simp_all add: find_resource_loop.simps [of _ _ it])
          obtain v m2 where v: "nn_allocator_calloc al 1 (length (it_data it') + 1) m1 = (v, m2)" by fastforce
          then obtain v1 where v1: "v = Some v1"
            using 1(4) None \<open>rn_parameter node = Some nc\<close> nc Some p p1 \<open>nabto_coap_get_option OPTION_URI_PATH it = Some it'\<close>
            by (cases v) (simp_all add: find_resource_loop.simps [of _ _ it])
          let ?q = "\<lparr>pm_address = p1, pm_name = snd name, pm_value = (v1, it_data it')\<rparr>"
          have r: "find_resource_loop al child it' (Some (params @ [?q])) m2 = (Some n, parameters', m')"
            using 1(4) None \<open>rn_parameter node = Some nc\<close> nc Some p p1 v v1 \<open>nabto_coap_get_option OPTION_URI_PATH it = Some it'\<close>
            by (simp add: find_resource_loop.simps [of _ _ it])
          obtain route qs where "route_node child route = Some n" "list_all2 segment_matches route (path_options it')"
            "parameters' = Some ((params @ [?q]) @ qs)" "map parameter_entry qs = route_values route (path_options it')"
            using 1(2) [OF \<open>nabto_coap_get_option OPTION_URI_PATH it = Some it'\<close> None \<open>rn_parameter node = Some nc\<close> nc [symmetric]
              Some p [symmetric] p1 v [symmetric] v1 r t] by auto
          then show ?thesis using \<open>rn_parameter node = Some nc\<close> nc path Some ip
            by (intro exI [of _ "parameter_segment (snd name) # route"])
              (auto simp: parameter_entry_def)
        qed
      qed
    qed
  qed
qed

end
