(* ===== verification/Coap_Router_Memory.thy ===== *)
theory Coap_Router_Memory
  imports Coap_Router_Table
begin

text \<open>
  The blocks of the tree of resources: adding a resource keeps them apart from each other and from the blocks of
  others, and freeing the tree gives all of them back.  Then the theorem on what a lookup finds.
\<close>

section \<open>The blocks of a tree\<close>

fun router_blocks :: "router_node \<Rightarrow> address list" where
  "router_blocks (Router_node a segments parameter handlers) =
     a # (case parameter of None \<Rightarrow> [] | Some (name, node) \<Rightarrow> fst name # router_blocks node) @
     concat (map (\<lambda>(s, str, node). s # fst str # router_blocks node) segments)"

definition parameter_blocks :: "(cstring \<times> router_node) option \<Rightarrow> address list" where
  "parameter_blocks parameter = (case parameter of None \<Rightarrow> [] | Some (name, node) \<Rightarrow> fst name # router_blocks node)"

definition segments_blocks :: "(address \<times> cstring \<times> router_node) list \<Rightarrow> address list" where
  "segments_blocks segments = concat (map (\<lambda>(s, str, node). s # fst str # router_blocks node) segments)"

lemma blocks_simps [simp]:
  "parameter_blocks None = []"
  "parameter_blocks (Some (name, node)) = fst name # router_blocks node"
  "segments_blocks [] = []"
  "segments_blocks ((s, str, node) # segments) = s # fst str # router_blocks node @ segments_blocks segments"
  "segments_blocks (xs @ ys) = segments_blocks xs @ segments_blocks ys"
  by (simp_all add: parameter_blocks_def segments_blocks_def)

lemma router_blocks_fields:
  "router_blocks node = rn_address node # parameter_blocks (rn_parameter node) @ segments_blocks (rn_pathSegments node)"
  by (cases node) (simp add: parameter_blocks_def segments_blocks_def)

lemma router_blocks_set [simp]:
  "router_blocks (set_handler slot r node) = router_blocks node"
  "router_blocks (set_parameter parameter node) =
     rn_address node # parameter_blocks parameter @ segments_blocks (rn_pathSegments node)"
  "router_blocks (set_segments segments node) =
     rn_address node # parameter_blocks (rn_parameter node) @ segments_blocks segments"
  by (simp_all only: router_blocks_fields node_fields)

lemma owned_perm: "owned live F bs m \<Longrightarrow> mset bs = mset bs' \<Longrightarrow> owned live F bs' m"
  by (metis owned_mset)

lemma owned_free_cons:
  "allocator_ok al live \<Longrightarrow> owned live F bs m \<Longrightarrow> mset bs = mset (p # bs') \<Longrightarrow>
     owned live F bs' (nn_allocator_free al (Some p) m)"
  by (blast intro: owned_free owned_perm)

lemma router_free_owned:
  assumes "allocator_ok al live"
  shows "owned live F (router_blocks node @ bs) m \<Longrightarrow> owned live F bs (nabto_coap_router_node_free al node m)"
    and "owned live F (parameter_blocks parameter @ bs) m \<Longrightarrow> owned live F bs (free_parameter al parameter m)"
    and "owned live F (segments_blocks segments @ bs) m \<Longrightarrow> owned live F bs (free_segments_loop al segments m)"
  using assms
proof (induction al node m and al parameter m and al segments m arbitrary: bs and bs and bs
    rule: nabto_coap_router_node_free_free_parameter_free_segments_loop.induct)
  case (1 al a segments parameter handlers m)
  have "owned live F (parameter_blocks parameter @ segments_blocks segments @ a # bs) m"
    by (rule owned_perm [OF 1(3)]) (simp add: router_blocks_fields)
  from 1(2) [OF 1(1) [OF this 1(4)] 1(4)]
  have "owned live F (a # bs) (free_segments_loop al segments (free_parameter al parameter m))" .
  then show ?case using 1(4) by (auto intro: owned_free)
next
  case (3 al name node m)
  have "owned live F (router_blocks node @ fst name # bs) m"
    by (rule owned_perm [OF 3(2)]) simp
  from 3(1) [OF this 3(3)] show ?case using 3(3) by (auto intro: owned_free)
next
  case (5 al s segment node segments m)
  have "owned live F (router_blocks node @ fst segment # s # segments_blocks segments @ bs) m"
    by (rule owned_perm [OF 5(3)]) simp
  from owned_free [OF 5(4) owned_free [OF 5(4) 5(1) [OF this 5(4)]]] show ?case using 5(2,4) by simp
qed simp_all

lemma new_node_owned:
  assumes "allocator_ok al live" "owned live F bs m" "nabto_coap_router_node_new al m = (p, m')"
  shows "owned live F (case p of None \<Rightarrow> bs | Some node \<Rightarrow> router_blocks node @ bs) m'"
proof -
  obtain q m1 where q: "nn_allocator_calloc al 1 sizeof_router_node m = (q, m1)" by fastforce
  show ?thesis using owned_calloc [OF assms(1,2) q] assms(3) q
    by (cases q) (auto simp: nabto_coap_router_node_new_def)
qed

lemma strdup_owned:
  assumes "allocator_ok al live" "owned live F bs m" "nn_strdup str al m = (p, m')"
  shows "owned live F (case p of None \<Rightarrow> bs | Some s \<Rightarrow> fst s # bs) m'"
proof -
  obtain q m1 where q: "nn_allocator_calloc al 1 (length str + 1) m = (q, m1)" by fastforce
  show ?thesis using owned_calloc [OF assms(1,2) q] assms(3) q
    by (cases q) (auto simp: nn_strdup_def)
qed

text \<open>The child that a segment leads to, cut out of the blocks of its parent.\<close>

lemma put_segment_split:
  assumes "find (\<lambda>(s, str, child). snd str = segment) segments = Some (s, str, child)"
  shows "\<exists>xs ys. segments = xs @ (s, str, child) # ys \<and>
    (\<forall>child'. put_segment segment child' segments = xs @ (s, str, child') # ys)"
  using assms
proof (induction segments)
  case (Cons x segments)
  obtain s' str' node where x: "x = (s', str', node)" by (cases x)
  show ?case
  proof (cases "snd str' = segment")
    case True
    then show ?thesis using Cons(2) x by (intro exI [of _ "[]"] exI [of _ segments]) auto
  next
    case False
    then obtain xs ys where "segments = xs @ (s, str, child) # ys"
      "\<forall>child'. put_segment segment child' segments = xs @ (s, str, child') # ys"
      using Cons x by auto
    then show ?thesis using False x by (intro exI [of _ "x # xs"] exI [of _ ys]) auto
  qed
qed simp

lemma parameter_child_owned:
  assumes "allocator_ok al live" "owned live F (router_blocks parent @ bs) m"
    "parameter_child al parent segment m = (c, parent', m')"
  shows "owned live F (router_blocks parent' @ bs) m'"
proof (cases "nabto_coap_server_parameter_name_length segment")
  case None
  then show ?thesis using assms(2,3) by (simp add: parameter_child_def)
next
  case (Some n)
  show ?thesis
  proof (cases "rn_parameter parent")
    case rp: None
    obtain p m1 where p: "nn_allocator_calloc al (n + 1) 1 m = (p, m1)" by fastforce
    note o1 = owned_calloc [OF assms(1,2) p]
    show ?thesis
    proof (cases p)
      case None
      then show ?thesis using assms(3) p Some rp o1 by (simp add: parameter_child_def)
    next
      case (Some a)
      obtain q m2 where q: "nabto_coap_router_node_new al m1 = (q, m2)" by fastforce
      note o2 = new_node_owned [OF assms(1) o1 q]
      show ?thesis
      proof (cases q)
        case None
        then show ?thesis
          using assms(3) p Some rp q o2 \<open>nabto_coap_server_parameter_name_length segment = Some n\<close>
            owned_free [OF assms(1), of F a]
          by (auto simp: parameter_child_def)
      next
        case q1: (Some child)
        have "owned live F (router_blocks (set_parameter (Some ((a, take n (drop 1 segment)), child)) parent) @ bs) m2"
          by (rule owned_perm [OF o2]) (use Some q1 rp in \<open>simp add: router_blocks_fields [of parent]\<close>)
        then show ?thesis
          using assms(3) p Some rp q q1 \<open>nabto_coap_server_parameter_name_length segment = Some n\<close>
          by (auto simp: parameter_child_def)
      qed
    qed
  next
    case rp: (Some nc)
    then show ?thesis using assms(2,3) Some by (auto simp: parameter_child_def split: prod.splits if_splits)
  qed
qed

lemma segment_child_owned:
  assumes "allocator_ok al live" "owned live F (router_blocks parent @ bs) m"
    "segment_child al parent segment m = (c, parent', m')"
  shows "owned live F (router_blocks parent' @ bs) m'"
proof (cases "nabto_coap_server_find_path_segment parent segment")
  case fs: None
  obtain p m1 where p: "nabto_coap_router_path_segment_new al m = (p, m1)" by fastforce
  note o1 = owned_calloc [OF assms(1,2) p [unfolded nabto_coap_router_path_segment_new_def]]
  show ?thesis
  proof (cases p)
    case None
    then show ?thesis using assms(3) p fs o1 by (simp add: segment_child_def)
  next
    case ps: (Some s)
    obtain q m2 where q: "nn_strdup segment al m1 = (q, m2)" by fastforce
    note o2 = strdup_owned [OF assms(1) o1 q]
    show ?thesis
    proof (cases q)
      case None
      then show ?thesis using assms(3) p ps fs q o2 owned_free [OF assms(1), of F s]
        by (auto simp: segment_child_def)
    next
      case qs: (Some str)
      obtain r m3 where r: "nabto_coap_router_node_new al m2 = (r, m3)" by fastforce
      note o3 = new_node_owned [OF assms(1) o2 r]
      show ?thesis
      proof (cases r)
        case None
        then show ?thesis using assms(3) p ps fs q qs r o3
            owned_free [OF assms(1), of F s] owned_free [OF assms(1), of F "fst str"]
          by (auto simp: segment_child_def Let_def)
      next
        case rs: (Some child)
        have "owned live F (router_blocks (set_segments
            (nabto_coap_router_insert_path_segment (s, str, child) (rn_pathSegments parent)) parent) @ bs) m3"
          by (rule owned_perm [OF o3])
            (use ps qs rs in \<open>simp add: router_blocks_fields [of parent] nabto_coap_router_insert_path_segment_def\<close>)
        then show ?thesis using assms(3) p ps fs q qs r rs by (auto simp: segment_child_def)
      qed
    qed
  qed
next
  case (Some x)
  then show ?thesis using assms(2,3) by (cases x) (auto simp: segment_child_def)
qed

lemma add_resource_owned:
  assumes "nabto_coap_server_add_resource_into_tree al parent mcode path handler userData m = (err, res, parent', m')"
    "allocator_ok al live" "owned live F (router_blocks parent @ bs) m"
  shows "owned live F (router_blocks parent' @ bs) m'"
  using assms
proof (induction al parent mcode path handler userData m arbitrary: err res parent' m' bs
    rule: nabto_coap_server_add_resource_into_tree.induct)
  case (1 al parent mcode handler userData m)
  then show ?case by (auto split: option.splits)
next
  case (2 al parent mcode segment path handler userData m)
  show ?case
  proof (cases "is_parameter segment")
    case True
    note par = True
    obtain c p1 m1 where c: "parameter_child al parent segment m = (c, p1, m1)" by (metis prod.exhaust)
    note o1 = parameter_child_owned [OF 2(4,5) c]
    show ?thesis
    proof (cases c)
      case (Inl e)
      with 2(3) c par o1 show ?thesis by (auto simp: is_parameter_def)
    next
      case (Inr child)
      obtain name where n: "rn_parameter p1 = Some (name, child)"
        using parameter_child_ok [OF par c [unfolded Inr]] by blast
      obtain err1 res1 child1 m2 where a:
        "nabto_coap_server_add_resource_into_tree al child mcode path handler userData m1 = (err1, res1, child1, m2)"
        by (metis prod.exhaust)
      have e: "parent' = set_parameter (Some (name, child1)) p1" "m' = m2"
        using 2(3) c par a Inr n by (auto simp: is_parameter_def)
      let ?rest = "rn_address p1 # fst name # segments_blocks (rn_pathSegments p1) @ bs"
      have "owned live F (router_blocks child @ ?rest) m1"
        by (rule owned_perm [OF o1]) (simp add: n router_blocks_fields [of p1])
      then have "owned live F (router_blocks child1 @ ?rest) m2"
        by (intro 2(1) [OF _ _ _ _ a 2(4)]) (use c par Inr in \<open>auto simp: is_parameter_def\<close>)
      then show ?thesis unfolding e by (rule owned_perm) simp
    qed
  next
    case False
    note seg = False
    obtain c p1 m1 where c: "segment_child al parent segment m = (c, p1, m1)" by (metis prod.exhaust)
    note o1 = segment_child_owned [OF 2(4,5) c]
    show ?thesis
    proof (cases c)
      case (Inl e)
      with 2(3) c seg o1 show ?thesis by (auto simp: is_parameter_def)
    next
      case (Inr child)
      obtain s str where n: "nabto_coap_server_find_path_segment p1 segment = Some (s, str, child)"
        using segment_child_ok [OF c [unfolded Inr]] by blast
      obtain xs ys where xy: "rn_pathSegments p1 = xs @ (s, str, child) # ys"
        "\<And>child'. put_segment segment child' (rn_pathSegments p1) = xs @ (s, str, child') # ys"
        using put_segment_split [OF n [unfolded find_path_segment_iff]] by blast
      obtain err1 res1 child1 m2 where a:
        "nabto_coap_server_add_resource_into_tree al child mcode path handler userData m1 = (err1, res1, child1, m2)"
        by (metis prod.exhaust)
      have e: "parent' = set_segments (put_segment segment child1 (rn_pathSegments p1)) p1" "m' = m2"
        using 2(3) c seg a Inr n by (auto simp: is_parameter_def)
      let ?rest = "rn_address p1 # s # fst str # parameter_blocks (rn_parameter p1) @ segments_blocks xs @ segments_blocks ys @ bs"
      have "owned live F (router_blocks child @ ?rest) m1"
        by (rule owned_perm [OF o1]) (simp add: xy router_blocks_fields [of p1])
      then have "owned live F (router_blocks child1 @ ?rest) m2"
        by (intro 2(2) [OF _ _ _ _ a 2(4)]) (use c seg Inr in \<open>auto simp: is_parameter_def\<close>)
      then show ?thesis unfolding e by (rule owned_perm) (simp add: xy(2))
    qed
  qed
qed

lemma write_resource_blocks [simp]: "router_blocks (write_resource r v node) = router_blocks node"
proof (induction r v node rule: write_resource.induct)
  case (1 r v a segments parameter handlers)
  have "router_blocks (write_resource r v node) = router_blocks node" if "(s, str, node) \<in> set segments" for s str node
    using 1(1) [OF that refl refl] .
  then have "concat (map (\<lambda>(s, str, node). s # fst str # router_blocks node)
      (map (\<lambda>(s, str, node). (s, str, write_resource r v node)) segments)) =
      concat (map (\<lambda>(s, str, node). s # fst str # router_blocks node) segments)"
    unfolding map_map by (intro arg_cong [where f = concat] map_cong) (auto split: prod.splits)
  moreover have "(case map_option (\<lambda>(name, node). (name, write_resource r v node)) parameter of None \<Rightarrow> []
      | Some (name, node) \<Rightarrow> fst name # router_blocks node) =
      (case parameter of None \<Rightarrow> [] | Some (name, node) \<Rightarrow> fst name # router_blocks node)"
    using 1(2) by (cases parameter) auto
  ultimately show ?case by (simp only: write_resource.simps router_blocks.simps)
qed

section \<open>Trees made by additions\<close>

lemma new_node_ok: "nabto_coap_router_node_new al m = (Some node, m') \<Longrightarrow> tree_ok node"
  by (auto simp: nabto_coap_router_node_new_def split: prod.splits option.splits)

lemma tree_ok_set_handler [simp]: "tree_ok (set_handler slot r node) = tree_ok node"
  by (simp add: tree_ok_iff [of node] tree_ok_iff [of "set_handler slot r node"])

lemma parameter_child_tree:
  assumes "tree_ok parent" "is_parameter segment" "parameter_child al parent segment m = (Inr child, parent', m')"
  shows "tree_ok child" "tree_ok (set_parameter p parent') = (\<forall>name c. p = Some (name, c) \<longrightarrow> tree_ok c)"
proof -
  obtain name where n: "rn_parameter parent' = Some (name, child)" "rn_pathSegments parent' = rn_pathSegments parent"
    using parameter_child_ok [OF assms(2,3)] by metis
  have s: "\<forall>s str c. (s, str, c) \<in> set (rn_pathSegments parent) \<longrightarrow> \<not> is_parameter (snd str) \<and> tree_ok c"
    using assms(1) unfolding tree_ok_iff [of parent] by blast
  then show "tree_ok (set_parameter p parent') = (\<forall>name c. p = Some (name, c) \<longrightarrow> tree_ok c)"
    by (simp add: tree_ok_iff [of "set_parameter p parent'"] n)
  show "tree_ok child"
  proof (cases "rn_parameter parent")
    case None
    then show ?thesis using assms(3) by (auto simp: parameter_child_def dest: new_node_ok split: option.splits prod.splits)
  next
    case (Some nc)
    then have "child = snd nc" using parameter_child_ok [OF assms(2,3)] by (metis prod.collapse)
    then show ?thesis using Some assms(1) unfolding tree_ok_iff [of parent] by (metis prod.collapse)
  qed
qed

lemma segment_child_tree:
  assumes "tree_ok parent" "\<not> is_parameter segment" "segment_child al parent segment m = (Inr child, parent', m')"
  shows "tree_ok child" "tree_ok parent'"
proof -
  have "tree_ok child \<and> tree_ok parent'"
  proof (cases "nabto_coap_server_find_path_segment parent segment")
    case None
    from assms(3) None obtain s str m1 m2 m3 m4 where
      c: "nabto_coap_router_node_new al m1 = (Some child, m2)" "nn_strdup segment al m3 = (Some str, m4)"
      "parent' = set_segments (nabto_coap_router_insert_path_segment (s, str, child) (rn_pathSegments parent)) parent"
      by (auto simp: segment_child_def Let_def split: option.splits prod.splits if_splits)
    have str: "snd str = segment" using c(2) by (auto simp: nn_strdup_def split: prod.splits option.splits)
    have "tree_ok parent'"
      using assms(1,2) str new_node_ok [OF c(1)] unfolding c(3) tree_ok_iff [of parent] tree_ok_iff [of "set_segments _ parent"]
      by (auto simp: nabto_coap_router_insert_path_segment_def)
    then show ?thesis using new_node_ok [OF c(1)] by simp
  next
    case (Some x)
    obtain s str c where x: "x = (s, str, c)" by (cases x)
    then have "c = child" "parent' = parent" using assms(3) Some by (auto simp: segment_child_def)
    then show ?thesis using assms(1) assms(1) [unfolded tree_ok_iff [of parent]] find_path_segment_in [OF Some [unfolded x]]
      by blast
  qed
  then show "tree_ok child" "tree_ok parent'" by auto
qed

lemma put_segment_tree:
  assumes "tree_ok parent" "tree_ok child" "\<not> is_parameter segment"
  shows "tree_ok (set_segments (put_segment segment child (rn_pathSegments parent)) parent)"
proof -
  have "\<not> is_parameter (snd str) \<and> tree_ok c"
    if "(s, str, c) \<in> set (put_segment segment child segments)"
      "\<forall>s str c. (s, str, c) \<in> set segments \<longrightarrow> \<not> is_parameter (snd str) \<and> tree_ok c" for s str c segments
  proof -
    have "(s, str, c) \<in> set segments \<or> (c = child \<and> snd str = segment)"
      using that(1) by (induction segments) (auto split: if_splits)
    then show ?thesis using that(2) assms(2,3) by blast
  qed
  then show ?thesis using assms(1) unfolding tree_ok_iff [of parent] tree_ok_iff [of "set_segments _ parent"] node_fields
    by blast
qed

lemma add_resource_tree:
  assumes "nabto_coap_server_add_resource_into_tree al parent mcode path handler userData m = (err, res, parent', m')"
    "tree_ok parent"
  shows "tree_ok parent'"
  using assms
proof (induction al parent mcode path handler userData m arbitrary: err res parent' m'
    rule: nabto_coap_server_add_resource_into_tree.induct)
  case (1 al parent mcode handler userData m)
  then show ?case by (auto split: option.splits)
next
  case (2 al parent mcode segment path handler userData m)
  show ?case
  proof (cases "is_parameter segment")
    case True
    note par = True
    obtain c p1 m1 where c: "parameter_child al parent segment m = (c, p1, m1)" by (metis prod.exhaust)
    show ?thesis
    proof (cases c)
      case (Inl e)
      with 2(3,4) c par parameter_child_error [OF c [unfolded Inl]] show ?thesis by (auto simp: is_parameter_def)
    next
      case (Inr child)
      note t = parameter_child_tree [OF 2(4) par c [unfolded Inr]]
      obtain err1 res1 child1 m2 where a:
        "nabto_coap_server_add_resource_into_tree al child mcode path handler userData m1 = (err1, res1, child1, m2)"
        by (metis prod.exhaust)
      have e: "parent' = set_parameter (map_option (\<lambda>(name, _). (name, child1)) (rn_parameter p1)) p1"
        using 2(3) c par a Inr by (auto simp: is_parameter_def)
      have "tree_ok child1"
        by (rule 2(1) [OF _ _ _ _ a t(1)]) (use c par Inr in \<open>auto simp: is_parameter_def\<close>)
      then show ?thesis unfolding e t(2) by auto
    qed
  next
    case False
    note seg = False
    obtain c p1 m1 where c: "segment_child al parent segment m = (c, p1, m1)" by (metis prod.exhaust)
    show ?thesis
    proof (cases c)
      case (Inl e)
      with 2(3,4) c seg segment_child_error [OF c [unfolded Inl]] show ?thesis by (auto simp: is_parameter_def)
    next
      case (Inr child)
      note t = segment_child_tree [OF 2(4) seg c [unfolded Inr]]
      obtain err1 res1 child1 m2 where a:
        "nabto_coap_server_add_resource_into_tree al child mcode path handler userData m1 = (err1, res1, child1, m2)"
        by (metis prod.exhaust)
      have e: "parent' = set_segments (put_segment segment child1 (rn_pathSegments p1)) p1"
        using 2(3) c seg a Inr by (auto simp: is_parameter_def)
      have "tree_ok child1"
        by (rule 2(2) [OF _ _ _ _ a t(1)]) (use c seg Inr in \<open>auto simp: is_parameter_def\<close>)
      then show ?thesis unfolding e using put_segment_tree [OF t(2) _ seg] by blast
    qed
  qed
qed

lemma write_resource_tree [simp]: "tree_ok (write_resource r v node) = tree_ok node"
proof (induction r v node rule: write_resource.induct)
  case (1 r v a segments parameter handlers)
  have "tree_ok (write_resource r v node) = tree_ok node" if "(s, str, node) \<in> set segments" for s str node
    using 1(1) [OF that refl refl] .
  moreover have "tree_ok (write_resource r v node) = tree_ok node" if "parameter = Some (name, node)" for name node
    using 1(2) [of "(name, node)"] that by auto
  ultimately show ?case by (fastforce split: option.splits)
qed

section \<open>Addresses\<close>

lemma router_addresses: "mset (map rn_address (router_nodes node)) \<subseteq># mset (router_blocks node)"
proof (induction node rule: router_nodes.induct)
  case (1 a segments parameter handlers)
  have "mset (map rn_address (concat (map (\<lambda>(s, str, node). router_nodes node) ss))) \<subseteq># mset (segments_blocks ss)"
    if "set ss \<subseteq> set segments" for ss
    using that
  proof (induction ss)
    case (Cons x ss)
    obtain s str node where x: "x = (s, str, node)" by (cases x)
    have "mset (map rn_address (router_nodes node)) \<subseteq># mset (router_blocks node)"
      by (rule 1(2) [of x s "(str, node)" str node]) (use Cons(2) x in simp_all)
    moreover have "mset (map rn_address (concat (map (\<lambda>(s, str, node). router_nodes node) ss))) \<subseteq># mset (segments_blocks ss)"
      by (rule Cons(1)) (use Cons(2) in simp)
    ultimately have "mset (map rn_address (router_nodes node)) +
        mset (map rn_address (concat (map (\<lambda>(s, str, node). router_nodes node) ss)))
        \<subseteq># mset (router_blocks node) + mset (segments_blocks ss)" by (rule subset_mset.add_mono)
    then show ?case unfolding x by (simp add: subseteq_mset_def) (meson le_SucI)
  qed simp
  from this [OF subset_refl]
  have "mset (map rn_address (concat (map (\<lambda>(s, str, node). router_nodes node) segments))) \<subseteq># mset (segments_blocks segments)" .
  moreover have "mset (map rn_address (case parameter of None \<Rightarrow> [] | Some (name, node) \<Rightarrow> router_nodes node))
      \<subseteq># mset (parameter_blocks parameter)"
  proof (cases parameter)
    case (Some nc)
    obtain name node where nc: "nc = (name, node)" by (cases nc)
    have "mset (map rn_address (router_nodes node)) \<subseteq># mset (router_blocks node)" 
      by (rule 1(1) [of nc name node]) (use Some nc in simp_all)
    then show ?thesis using Some nc by (auto simp: subseteq_mset_def intro: le_SucI)
  qed simp
  ultimately show ?case
    by (simp add: router_blocks_fields subset_mset.add_mono)
qed

lemma distinct_mset_subset:
  assumes "mset xs \<subseteq># mset ys" "distinct ys"
  shows "distinct xs"
  unfolding distinct_count_atmost_1
proof
  fix a
  have "count (mset ys) a = (if a \<in> set ys then 1 else 0)"
    using assms(2) unfolding distinct_count_atmost_1 by (rule spec)
  then have "count (mset ys) a \<le> 1" by simp
  then have "count (mset xs) a \<le> 1" by (rule le_trans [OF mset_subset_eq_count [OF assms(1)]])
  then show "count (mset xs) a = (if a \<in> set xs then 1 else 0)"
    by (cases "a \<in> set xs") (auto simp: le_Suc_eq count_eq_zero_iff)
qed

lemma route_node_in: "route_node node route = Some n \<Longrightarrow> n \<in> set (router_nodes node)"
proof (induction node route rule: route_node.induct)
  case (1 node)
  then show ?case by (cases node) auto
next
  case (2 node segment route)
  then show ?case
    by (cases node) (auto split: if_splits option.splits dest!: find_path_segment_in intro: bexI [rotated])
qed

lemma find_distinct:
  assumes "distinct (map f xs)" "x \<in> set xs"
  shows "find (\<lambda>y. f y = f x) xs = Some x"
  using assms by (induction xs) force+

lemma resource_at_route:
  assumes "distinct (router_blocks rootNode)" "route_node rootNode route = Some n"
  shows "resource_at rootNode (rn_address n, slot) = rn_handlers n slot"
  using find_distinct [OF distinct_mset_subset [OF router_addresses assms(1)] route_node_in [OF assms(2)]]
  by (simp add: resource_at_def)

section \<open>The blocks of the parameters\<close>

definition parameters_blocks :: "request_parameter list \<Rightarrow> address list" where
  "parameters_blocks ps = concat (map (\<lambda>p. [pm_address p, fst (pm_value p)]) ps)"

lemma parameters_blocks_simps [simp]:
  "parameters_blocks [] = []"
  "parameters_blocks (p # ps) = pm_address p # fst (pm_value p) # parameters_blocks ps"
  "parameters_blocks (ps @ qs) = parameters_blocks ps @ parameters_blocks qs"
  by (simp_all add: parameters_blocks_def)

lemma find_resource_loop_None:
  "find_resource_loop al node it None m = (found, ps, m') \<Longrightarrow> ps = None \<and> m' = m"
proof (induction al node it "None :: request_parameter list option" m rule: find_resource_loop.induct)
  case (1 al node it m)
  show ?case
    using 1(3) unfolding find_resource_loop.simps [of _ _ it]
    by (auto split: option.splits prod.splits dest: 1(1) 1(2))
qed

lemma find_resource_loop_owned:
  assumes "find_resource_loop al node it (Some ps) m = (found, ps', m')"
    "allocator_ok al live" "owned live F (parameters_blocks ps @ bs) m"
  shows "\<exists>qs. ps' = Some qs \<and> owned live F (parameters_blocks qs @ bs) m'"
  using assms
proof (induction al node it "Some ps" m arbitrary: ps rule: find_resource_loop.induct)
  case (1 al node it m)
  show ?case
  proof (cases "nabto_coap_get_option OPTION_URI_PATH it")
    case None
    then show ?thesis using 1(4,6) by (auto simp: find_resource_loop.simps [of _ _ it])
  next
    case it: (Some it')
    show ?thesis
    proof (cases "nabto_coap_server_find_path_segment node (it_data it')")
      case (Some x)
      obtain s str child where x: "x = (s, str, child)" by (cases x)
      have r: "find_resource_loop al child it' (Some ps) m = (found, ps', m')"
        using 1(4) Some x it by (simp add: find_resource_loop.simps [of _ _ it])
      show ?thesis by (rule 1(3) [OF it Some x [symmetric] refl r 1(5,6)])
    next
      case fs: None
      show ?thesis
      proof (cases "rn_parameter node")
        case None
        then show ?thesis using 1(4,6) fs it by (auto simp: find_resource_loop.simps [of _ _ it])
      next
        case rp: (Some nc)
        obtain name child where nc: "nc = (name, child)" by (cases nc)
        obtain p m1 where p: "nn_allocator_calloc al 1 sizeof_request_parameter m = (p, m1)" by fastforce
        note o1 = owned_calloc [OF 1(5,6) p]
        show ?thesis
        proof (cases p)
          case None
          then show ?thesis using 1(4) fs it rp nc p o1 by (auto simp: find_resource_loop.simps [of _ _ it])
        next
          case p1: (Some a)
          obtain v m2 where v: "nn_allocator_calloc al 1 (length (it_data it') + 1) m1 = (v, m2)" by fastforce
          note o2 = owned_calloc [OF 1(5) o1 v]
          show ?thesis
          proof (cases v)
            case None
            then show ?thesis using 1(4) fs it rp nc p p1 v o2 owned_free [OF 1(5), of F a]
              by (auto simp: find_resource_loop.simps [of _ _ it])
          next
            case v1: (Some b)
            let ?q = "\<lparr>pm_address = a, pm_name = snd name, pm_value = (b, it_data it')\<rparr>"
            have r: "find_resource_loop al child it' (Some (ps @ [?q])) m2 = (found, ps', m')"
              using 1(4) fs it rp nc p p1 v v1 by (simp add: find_resource_loop.simps [of _ _ it])
            have "owned live F (parameters_blocks (ps @ [?q]) @ bs) m2"
              by (rule owned_perm [OF o2]) (simp add: v1 p1)
            from 1(2) [OF it fs rp nc [symmetric] refl p [symmetric] p1 v [symmetric] v1 r 1(5) this]
            show ?thesis .
          qed
        qed
      qed
    qed
  qed
qed

section \<open>What a lookup finds\<close>

lemma find_resource_loop_literal:
  assumes "route_node node (path_options it) = Some n" "\<forall>segment\<in>set (path_options it). \<not> is_parameter segment"
  shows "find_resource_loop al node it parameters m = (Some n, parameters, m)"
  using assms
proof (induction al node it parameters m rule: find_resource_loop.induct)
  case (1 al node it parameters m)
  show ?case
  proof (cases "nabto_coap_get_option OPTION_URI_PATH it")
    case None
    then show ?thesis using 1(4) path_options_step [of it] by (simp add: find_resource_loop.simps [of _ _ it])
  next
    case it: (Some it')
    have path: "path_options it = it_data it' # path_options it'" using it path_options_step [of it] by simp
    obtain s str child where f: "nabto_coap_server_find_path_segment node (it_data it') = Some (s, str, child)"
      "route_node child (path_options it') = Some n"
      using 1(4,5) path by (auto split: option.splits)
    show ?thesis using 1(3) [OF it f(1) refl refl f(2)] 1(5) path it f(1)
      by (simp add: find_resource_loop.simps [of _ _ it])
  qed
qed

text \<open>C17: Routing.  In a tree made by additions a request is given the handler of a route that its path
  matches: the segments of the route are those of the path, except that a parameter takes any value, and the
  values are kept, in order, as the parameters of the request.  A route without parameters is always found.\<close>

theorem router_finds_route:
  assumes "tree_ok rootNode" "distinct (router_blocks rootNode)" "method_slot (im_code msg) = Some slot"
    and "nabto_coap_server_find_resource al rootNode msg parameters m = (found, parameters', m')"
  shows "(\<forall>r. found = Some r \<longrightarrow> (\<exists>route. list_all2 segment_matches route (uri_path msg) \<and>
      re_handler (route_table rootNode route slot) \<noteq> None \<and>
      resource_at rootNode r = route_table rootNode route slot \<and>
      (case parameters of None \<Rightarrow> parameters' = None
       | Some ps \<Rightarrow> \<exists>qs. parameters' = Some (ps @ qs) \<and> map parameter_entry qs = route_values route (uri_path msg)))) \<and>
    ((\<forall>segment\<in>set (uri_path msg). \<not> is_parameter segment) \<and> re_handler (route_table rootNode (uri_path msg) slot) \<noteq> None \<longrightarrow>
      (\<exists>r. found = Some r \<and> resource_at rootNode r = route_table rootNode (uri_path msg) slot))"
proof (intro conjI allI impI)
  let ?it = "nabto_coap_option_iterator_init (im_options msg)"
  fix r
  assume r: "found = Some r"
  then obtain n where n: "find_resource_loop al rootNode ?it parameters m = (Some n, parameters', m')"
    "node_resource n (im_code msg) = Some r"
    using assms(4) by (auto simp: nabto_coap_server_find_resource_def split: prod.splits option.splits)
  have h: "r = (rn_address n, slot)" "re_handler (rn_handlers n slot) \<noteq> None"
    using n(2) assms(3) by (auto simp: node_resource_def split: if_splits)
  obtain route where route: "route_node rootNode route = Some n"
    "list_all2 segment_matches route (path_options ?it)"
    "case parameters of None \<Rightarrow> parameters' = None \<and> m' = m
     | Some ps \<Rightarrow> \<exists>qs. parameters' = Some (ps @ qs) \<and> map parameter_entry qs = route_values route (path_options ?it)"
    using find_resource_loop_route [OF n(1) assms(1)] by blast
  show "\<exists>route. list_all2 segment_matches route (uri_path msg) \<and>
      re_handler (route_table rootNode route slot) \<noteq> None \<and>
      resource_at rootNode r = route_table rootNode route slot \<and>
      (case parameters of None \<Rightarrow> parameters' = None
       | Some ps \<Rightarrow> \<exists>qs. parameters' = Some (ps @ qs) \<and> map parameter_entry qs = route_values route (uri_path msg))"
    by (rule exI [of _ route])
      (use route h resource_at_route [OF assms(2) route(1)] in \<open>auto simp: route_table_def uri_path_def split: option.splits\<close>)
next
  assume a: "(\<forall>segment\<in>set (uri_path msg). \<not> is_parameter segment) \<and> re_handler (route_table rootNode (uri_path msg) slot) \<noteq> None"
  then obtain n where n: "route_node rootNode (uri_path msg) = Some n" "re_handler (rn_handlers n slot) \<noteq> None"
    by (auto simp: route_table_def zero_resource_def split: option.splits)
  have "find_resource_loop al rootNode (nabto_coap_option_iterator_init (im_options msg)) parameters m = (Some n, parameters, m)"
    by (rule find_resource_loop_literal [OF n(1) [unfolded uri_path_def]]) (use a in \<open>auto simp: uri_path_def\<close>)
  then have "found = Some (rn_address n, slot)"
    using assms(3,4) n(2) by (simp add: nabto_coap_server_find_resource_def node_resource_def)
  then show "\<exists>r. found = Some r \<and> resource_at rootNode r = route_table rootNode (uri_path msg) slot"
    using resource_at_route [OF assms(2) n(1)] n(1) by (simp add: route_table_def)
qed

section \<open>A tree with a parameter\<close>

text \<open>The resource \<open>GET /a/{id}\<close>, and a request for \<open>/a/7\<close>.\<close>

definition sample_tree :: router_node where
  "sample_tree = Router_node 1
     [(2, (3, [97]), Router_node 4 []
        (Some ((5, [105, 100]), Router_node 6 [] None ((\<lambda>_. zero_resource)(GET_HANDLER := \<lparr>re_handler = Some 9, re_handlerUserData = None\<rparr>))))
        (\<lambda>_. zero_resource))] None (\<lambda>_. zero_resource)"

definition sample_get :: coap_incoming_message where
  "sample_get = empty_message\<lparr>im_code := NABTO_COAP_CODE_GET, im_options := Some [0xB1, 0x61, 0x01, 0x37]\<rparr>"

lemma sample_get_options: "options_of (nabto_coap_option_iterator_init (im_options sample_get)) = [(11, [0x61]), (11, [0x37])]"
  by (simp add: sample_get_def nabto_coap_option_iterator_init_def options_of.simps nabto_coap_get_next_option_def
      decode_option_field_def)

lemma method_slot_get [simp]: "method_slot NABTO_COAP_CODE_GET = Some GET_HANDLER"
  by (simp add: method_slot_def)

lemma sample_get_found:
  "nabto_coap_server_find_resource counting_allocator sample_tree sample_get (Some []) (2, []) =
     (Some (6, GET_HANDLER), Some [\<lparr>pm_address = 1, pm_name = [105, 100], pm_value = (2, [0x37])\<rparr>], (0, [2, 1]))"
  by (simp add: nabto_coap_server_find_resource_def sample_get_def sample_tree_def nabto_coap_option_iterator_init_def
      find_resource_loop.simps nabto_coap_get_option.simps nabto_coap_get_next_option_def decode_option_field_def
      find_path_segment_iff node_resource_def)

theorem router_finds_route_witness:
  "\<exists>route. list_all2 segment_matches route (uri_path sample_get) \<and>
     re_handler (route_table sample_tree route GET_HANDLER) \<noteq> None \<and>
     resource_at sample_tree (6, GET_HANDLER) = route_table sample_tree route GET_HANDLER \<and>
     route_values route (uri_path sample_get) = [(parameter_segment [105, 100], [0x37])]"
proof -
  have "tree_ok sample_tree" "distinct (router_blocks sample_tree)"
    by (simp_all add: sample_tree_def is_parameter_def)
  from router_finds_route [OF this _ sample_get_found, of GET_HANDLER]
  show ?thesis by (auto simp: sample_get_def parameter_entry_def)
qed

end
