(* ===== verification/Coap_Server.thy ===== *)
theory Coap_Server
  imports Coap_Router
begin

text \<open>
  The CoAP server of src/components/coap/src/nabto_coap_server_impl.c: the state of a requests context and what
  the application and the integrator call, apart from the packets that arrive.  Requests and observers are
  stores from addresses to records, and the linked lists through them, apart from their sentinels, are
  the lists of their addresses.  A request points to its resource by the node of the tree and the
  method.  A null pointer that is followed ends the program; \<open>sr_nullAccess\<close> records that it
  happened.
\<close>

section \<open>Data\<close>

datatype server_next_event = SERVER_SEND | SERVER_WAIT | SERVER_NOTHING

datatype server_request_state = STATE_REQUEST | STATE_USER | STATE_RESPONSE | STATE_DONE

record server_observer =
  ob_resource :: "resource option"
  ob_connection :: "connection option"
  ob_token :: coap_token
  ob_sequenceNumber :: u32
  ob_sendNow :: bool
  ob_waitingForAck :: bool
  ob_retransmissions :: u8
  ob_timeout :: u32
  ob_messageId :: u16
  ob_code :: coap_code
  ob_hasContentFormat :: bool
  ob_contentFormat :: u16
  ob_payload :: owned_bytes
  ob_notificationType :: coap_type
  ob_pendingValid :: bool
  ob_pendingCode :: coap_code
  ob_pendingHasContentFormat :: bool
  ob_pendingContentFormat :: u16
  ob_pendingPayload :: owned_bytes

record server_response =
  sp_sendNow :: bool
  sp_waitingForAck :: bool
  sp_retransmissions :: u8
  sp_timeout :: u32
  sp_messageId :: u16
  sp_code :: coap_code
  sp_hasContentFormat :: bool
  sp_contentFormat :: u16
  sp_payload :: owned_bytes
  sp_staticPayload :: bool
  sp_block2Size :: u32
  sp_block2Current :: u32

record server_request =
  sq_state :: server_request_state
  sq_messageId :: u16
  sq_token :: coap_token
  sq_type :: coap_type
  sq_method :: coap_code
  sq_connection :: "connection option"
  sq_hasContentFormat :: bool
  sq_contentFormat :: u16
  sq_payload :: owned_bytes
  sq_hasBlock1 :: bool
  sq_hasBlock1Ack :: bool
  sq_block1Ack :: u32
  sq_hasBlock2Request :: bool
  sq_block2Request :: u32
  sq_timeout :: u32
  sq_isFreed :: bool
  sq_isObserveRegister :: bool
  sq_observer :: "address option"
  sq_response :: server_response
  sq_resource :: "resource option"
  sq_parameters :: "request_parameter list"

abbreviation sp_payloadLength :: "server_response \<Rightarrow> nat" where
  "sp_payloadLength response \<equiv> owned_length (sp_payload response)"

abbreviation sq_payloadLength :: "server_request \<Rightarrow> nat" where
  "sq_payloadLength request \<equiv> owned_length (sq_payload request)"

record 'm coap_server =
  sv_allocator :: "'m nn_allocator"
  sv_root :: "router_node option"
  sv_ackTimeout :: u32

record 'm server_requests =
  sr_server :: "'m coap_server"
  sr_requestsSentinel :: "address option"
  sr_requests :: "address list"
  sr_request :: "address \<Rightarrow> server_request"
  sr_getStamp :: "'m \<Rightarrow> u32"
  sr_notifyEvent :: "'m \<Rightarrow> 'm"
  sr_messageId :: u16
  sr_errorConnection :: "connection option"
  sr_errorType :: coap_type
  sr_errorCode :: u8
  sr_errorToken :: coap_token
  sr_errorMessageId :: u16
  sr_errorPayload :: "bytes option"
  sr_ackMessageId :: u16
  sr_ackConnection :: "connection option"
  sr_rstMessageId :: u16
  sr_rstConnection :: "connection option"
  sr_maxRequests :: nat
  sr_activeRequests :: nat
  sr_maxRequestPayload :: nat
  sr_maxObservers :: nat
  sr_activeObservers :: nat
  sr_observersSentinel :: "address option"
  sr_observers :: "address list"
  sr_observer :: "address \<Rightarrow> server_observer"
  sr_memory :: 'm
  sr_nullAccess :: bool

definition zero_server_response :: server_response where
  "zero_server_response = \<lparr>sp_sendNow = False, sp_waitingForAck = False, sp_retransmissions = 0, sp_timeout = 0,
     sp_messageId = 0, sp_code = 0, sp_hasContentFormat = False, sp_contentFormat = 0, sp_payload = None,
     sp_staticPayload = False, sp_block2Size = 0, sp_block2Current = 0\<rparr>"

definition zero_server_request :: server_request where
  "zero_server_request = \<lparr>sq_state = STATE_REQUEST, sq_messageId = 0, sq_token = [], sq_type = CON, sq_method = 0,
     sq_connection = None, sq_hasContentFormat = False, sq_contentFormat = 0, sq_payload = None,
     sq_hasBlock1 = False, sq_hasBlock1Ack = False, sq_block1Ack = 0, sq_hasBlock2Request = False,
     sq_block2Request = 0, sq_timeout = 0, sq_isFreed = False, sq_isObserveRegister = False, sq_observer = None,
     sq_response = zero_server_response, sq_resource = None, sq_parameters = []\<rparr>"

definition zero_server_observer :: server_observer where
  "zero_server_observer = \<lparr>ob_resource = None, ob_connection = None, ob_token = [], ob_sequenceNumber = 0,
     ob_sendNow = False, ob_waitingForAck = False, ob_retransmissions = 0, ob_timeout = 0, ob_messageId = 0,
     ob_code = 0, ob_hasContentFormat = False, ob_contentFormat = 0, ob_payload = None, ob_notificationType = CON,
     ob_pendingValid = False, ob_pendingCode = 0, ob_pendingHasContentFormat = False, ob_pendingContentFormat = 0,
     ob_pendingPayload = None\<rparr>"

text \<open>Sizes of the structs on a 64 bit host; the allocator is the only one who looks at them.\<close>

definition sizeof_server_request :: nat where "sizeof_server_request = 256"
definition sizeof_server_observer :: nat where "sizeof_server_observer = 128"

text \<open>A string in the program, which is not in a block of the allocator.\<close>

definition static_text :: "string \<Rightarrow> bytes" where
  "static_text s = List.map (\<lambda>c. word_of_nat (of_char c)) s"

definition static_payload :: "bytes \<Rightarrow> owned_bytes" where
  "static_payload bs = Some (0, bs)"

definition unhandledRequest :: bytes where "unhandledRequest = static_text ''Request unhandled''"
definition badBlockOption :: bytes where "badBlockOption = static_text ''Bad block option''"

definition CODE_CONTINUE :: coap_code where "CODE_CONTINUE = NABTO_COAP_CODE 2 31"
definition CODE_BAD_REQUEST :: coap_code where "CODE_BAD_REQUEST = NABTO_COAP_CODE 4 0"
definition CODE_BAD_OPTION :: coap_code where "CODE_BAD_OPTION = NABTO_COAP_CODE 4 2"
definition CODE_NOT_FOUND :: coap_code where "CODE_NOT_FOUND = NABTO_COAP_CODE 4 4"
definition CODE_REQUEST_ENTITY_INCOMPLETE :: coap_code where "CODE_REQUEST_ENTITY_INCOMPLETE = NABTO_COAP_CODE 4 8"
definition CODE_INTERNAL_SERVER_ERROR :: coap_code where "CODE_INTERNAL_SERVER_ERROR = NABTO_COAP_CODE 5 0"
definition CODE_SERVICE_UNAVAILABLE :: coap_code where "CODE_SERVICE_UNAVAILABLE = NABTO_COAP_CODE 5 3"

section \<open>Access\<close>

definition update_request :: "address \<Rightarrow> (server_request \<Rightarrow> server_request) \<Rightarrow> 'm server_requests \<Rightarrow> 'm server_requests" where
  "update_request a f sr = sr\<lparr>sr_request := (sr_request sr)(a := f (sr_request sr a))\<rparr>"

definition update_response :: "address \<Rightarrow> (server_response \<Rightarrow> server_response) \<Rightarrow> 'm server_requests \<Rightarrow> 'm server_requests" where
  "update_response a f = update_request a (\<lambda>r. r\<lparr>sq_response := f (sq_response r)\<rparr>)"

definition update_observer :: "address \<Rightarrow> (server_observer \<Rightarrow> server_observer) \<Rightarrow> 'm server_requests \<Rightarrow> 'm server_requests" where
  "update_observer o' f sr = sr\<lparr>sr_observer := (sr_observer sr)(o' := f (sr_observer sr o'))\<rparr>"

text \<open>The functions of the table of the server, which are not null.\<close>

definition server_calloc :: "nat \<Rightarrow> 'm server_requests \<Rightarrow> address option \<times> 'm server_requests" where
  "server_calloc sz sr =
     (case nn_allocator_calloc (sv_allocator (sr_server sr)) 1 sz (sr_memory sr) of (p, m) \<Rightarrow> (p, sr\<lparr>sr_memory := m\<rparr>))"

definition server_free :: "address \<Rightarrow> 'm server_requests \<Rightarrow> 'm server_requests" where
  "server_free p sr = sr\<lparr>sr_memory := nn_allocator_free (sv_allocator (sr_server sr)) (Some p) (sr_memory sr)\<rparr>"

definition server_free_owned :: "owned_bytes \<Rightarrow> 'm server_requests \<Rightarrow> 'm server_requests" where
  "server_free_owned payload sr = (case payload of None \<Rightarrow> sr | Some (p, bs) \<Rightarrow> server_free p sr)"

definition server_notify :: "'m server_requests \<Rightarrow> 'm server_requests" where
  "server_notify sr = sr\<lparr>sr_memory := sr_notifyEvent sr (sr_memory sr)\<rparr>"

definition nabto_coap_server_stamp_now :: "'m server_requests \<Rightarrow> u32" where
  "nabto_coap_server_stamp_now sr = sr_getStamp sr (sr_memory sr)"

definition nabto_coap_server_next_message_id :: "'m server_requests \<Rightarrow> u16 \<times> 'm server_requests" where
  "nabto_coap_server_next_message_id sr =
     (let sr = sr\<lparr>sr_messageId := sr_messageId sr + 1\<rparr> in (sr_messageId sr, sr))"

definition nabto_coap_server_response_release_payload :: "address \<Rightarrow> 'm server_requests \<Rightarrow> 'm server_requests" where
  "nabto_coap_server_response_release_payload a sr =
     (let response = sq_response (sr_request sr a);
          sr = (if \<not> sp_staticPayload response \<and> sp_payload response \<noteq> None
                then server_free_owned (sp_payload response) sr else sr)
      in update_response a (\<lambda>p. p\<lparr>sp_payload := None, sp_staticPayload := False\<rparr>) sr)"

section \<open>Servers and requests contexts\<close>

text \<open>The memory is the state of the integrator's functions.\<close>

definition nabto_coap_server_init :: "'m nn_allocator \<Rightarrow> 'm \<Rightarrow> coap_error \<times> 'm coap_server \<times> 'm" where
  "nabto_coap_server_init allocator m =
     (case nabto_coap_router_node_new allocator m of
        (rootNode, m) \<Rightarrow>
          (if rootNode = None then COAP_OUT_OF_MEMORY else COAP_OK,
           \<lparr>sv_allocator = allocator, sv_root = rootNode, sv_ackTimeout = NABTO_COAP_ACK_TIMEOUT\<rparr>, m))"

text \<open>A server that could not be made has no root; \<open>None\<close> says that its null pointer was followed.\<close>

definition nabto_coap_server_destroy :: "'m coap_server \<Rightarrow> 'm \<Rightarrow> 'm option" where
  "nabto_coap_server_destroy server m =
     map_option (\<lambda>rootNode. nabto_coap_router_node_free (sv_allocator server) rootNode m) (sv_root server)"

definition nabto_coap_server_requests_init ::
  "'m coap_server \<Rightarrow> ('m \<Rightarrow> u32) \<Rightarrow> ('m \<Rightarrow> 'm) \<Rightarrow> 'm \<Rightarrow> nat \<Rightarrow> coap_error \<times> 'm server_requests" where
  "nabto_coap_server_requests_init server getStamp notifyEvent m size_max =
     (let sr = \<lparr>sr_server = server, sr_requestsSentinel = None, sr_requests = [], sr_request = (\<lambda>a. zero_server_request),
            sr_getStamp = getStamp, sr_notifyEvent = notifyEvent, sr_messageId = 0, sr_errorConnection = None,
            sr_errorType = CON, sr_errorCode = 0, sr_errorToken = [], sr_errorMessageId = 0, sr_errorPayload = None,
            sr_ackMessageId = 0, sr_ackConnection = None, sr_rstMessageId = 0, sr_rstConnection = None,
            sr_maxRequests = size_max, sr_activeRequests = 0, sr_maxRequestPayload = size_max,
            sr_maxObservers = size_max, sr_activeObservers = 0, sr_observersSentinel = None, sr_observers = [],
            sr_observer = (\<lambda>a. zero_server_observer), sr_memory = m, sr_nullAccess = False\<rparr>
      in case server_calloc sizeof_server_request sr of
           (None, sr) \<Rightarrow> (COAP_OUT_OF_MEMORY, sr)
         | (Some s, sr) \<Rightarrow>
            (case server_calloc sizeof_server_observer (sr\<lparr>sr_requestsSentinel := Some s\<rparr>) of
               (None, sr) \<Rightarrow> (COAP_OUT_OF_MEMORY, (server_free s sr)\<lparr>sr_requestsSentinel := None\<rparr>)
             | (Some t, sr) \<Rightarrow> (COAP_OK, sr\<lparr>sr_observersSentinel := Some t\<rparr>)))"

definition nabto_coap_server_limit_requests :: "nat \<Rightarrow> 'm server_requests \<Rightarrow> 'm server_requests" where
  "nabto_coap_server_limit_requests limit sr = sr\<lparr>sr_maxRequests := limit\<rparr>"

definition nabto_coap_server_limit_request_size :: "nat \<Rightarrow> 'm server_requests \<Rightarrow> 'm server_requests" where
  "nabto_coap_server_limit_request_size limit sr = sr\<lparr>sr_maxRequestPayload := limit\<rparr>"

definition nabto_coap_server_limit_observers :: "nat \<Rightarrow> 'm server_requests \<Rightarrow> 'm server_requests" where
  "nabto_coap_server_limit_observers limit sr = sr\<lparr>sr_maxObservers := limit\<rparr>"

text \<open>The insertion after the sentinel, the only one in the code.\<close>

definition nabto_coap_server_insert_request_into_list :: "address \<Rightarrow> 'm server_requests \<Rightarrow> 'm server_requests" where
  "nabto_coap_server_insert_request_into_list a sr = sr\<lparr>sr_requests := a # sr_requests sr\<rparr>"

text \<open>A request that was never inserted has null links, which the removal follows.\<close>

definition nabto_coap_server_remove_request_from_list :: "address \<Rightarrow> 'm server_requests \<Rightarrow> 'm server_requests" where
  "nabto_coap_server_remove_request_from_list a sr =
     (if a \<in> set (sr_requests sr) then sr\<lparr>sr_requests := remove1 a (sr_requests sr)\<rparr>
      else sr\<lparr>sr_nullAccess := True\<rparr>)"

fun free_parameters_loop :: "request_parameter list \<Rightarrow> 'm server_requests \<Rightarrow> 'm server_requests" where
  "free_parameters_loop [] sr = sr"
| "free_parameters_loop (p # ps) sr =
     free_parameters_loop ps (server_free (pm_address p) (server_free (fst (pm_value p)) sr))"

definition nabto_coap_server_free_request :: "address \<Rightarrow> 'm server_requests \<Rightarrow> 'm server_requests" where
  "nabto_coap_server_free_request a sr =
     (let r = sr_request sr a
      in if \<not> sq_isFreed r \<or> sq_state r \<noteq> STATE_DONE then sr
         else
          (let sr = nabto_coap_server_remove_request_from_list a sr;
               sr = server_free_owned (sq_payload r) sr;
               sr = nabto_coap_server_response_release_payload a sr;
               sr = free_parameters_loop (sq_parameters r) sr;
               sr = server_free a sr
           in sr\<lparr>sr_activeRequests := sr_activeRequests sr - 1\<rparr>))"

text \<open>The states in which the server frees a request on its own.\<close>

definition done_request :: "address \<Rightarrow> 'm server_requests \<Rightarrow> 'm server_requests" where
  "done_request a sr = nabto_coap_server_free_request a (update_request a (\<lambda>r. r\<lparr>sq_state := STATE_DONE\<rparr>) sr)"

definition discard_request :: "address \<Rightarrow> 'm server_requests \<Rightarrow> 'm server_requests" where
  "discard_request a sr =
     nabto_coap_server_free_request a (update_request a (\<lambda>r. r\<lparr>sq_isFreed := True, sq_state := STATE_DONE\<rparr>) sr)"

section \<open>Observers\<close>

definition nabto_coap_server_observer_remove_from_list :: "address \<Rightarrow> 'm server_requests \<Rightarrow> 'm server_requests" where
  "nabto_coap_server_observer_remove_from_list o' sr = sr\<lparr>sr_observers := remove1 o' (sr_observers sr)\<rparr>"

fun forget_observer_loop :: "address list \<Rightarrow> address \<Rightarrow> 'm server_requests \<Rightarrow> 'm server_requests" where
  "forget_observer_loop [] o' sr = sr"
| "forget_observer_loop (a # as) o' sr =
     forget_observer_loop as o'
       (if sq_observer (sr_request sr a) = Some o' then update_request a (\<lambda>r. r\<lparr>sq_observer := None\<rparr>) sr else sr)"

definition nabto_coap_server_observer_free :: "address \<Rightarrow> 'm server_requests \<Rightarrow> 'm server_requests" where
  "nabto_coap_server_observer_free o' sr =
     (let sr = nabto_coap_server_observer_remove_from_list o' sr;
          sr = sr\<lparr>sr_activeObservers := sr_activeObservers sr - 1\<rparr>;
          sr = forget_observer_loop (sr_requests sr) o' sr;
          sr = server_free_owned (ob_payload (sr_observer sr o')) sr;
          sr = server_free_owned (ob_pendingPayload (sr_observer sr o')) sr
      in server_free o' sr)"

definition nabto_coap_server_remove_observer :: "address \<Rightarrow> 'm server_requests \<Rightarrow> 'm server_requests" where
  "nabto_coap_server_remove_observer o' = nabto_coap_server_observer_free o'"

definition nabto_coap_server_observer_promote_pending :: "address \<Rightarrow> 'm server_requests \<Rightarrow> 'm server_requests" where
  "nabto_coap_server_observer_promote_pending o' sr =
     (if \<not> ob_pendingValid (sr_observer sr o') then sr
      else
       (let sr = server_free_owned (ob_payload (sr_observer sr o')) sr;
            sr = update_observer o' (\<lambda>ob. ob\<lparr>ob_code := ob_pendingCode ob, ob_hasContentFormat := ob_pendingHasContentFormat ob,
              ob_contentFormat := ob_pendingContentFormat ob, ob_payload := ob_pendingPayload ob,
              ob_sequenceNumber := ob_sequenceNumber ob + 1\<rparr>) sr;
            (messageId, sr) = nabto_coap_server_next_message_id sr
        in update_observer o' (\<lambda>ob. ob\<lparr>ob_messageId := messageId, ob_retransmissions := 0, ob_sendNow := True,
             ob_waitingForAck := False, ob_pendingValid := False, ob_pendingPayload := None,
             ob_pendingHasContentFormat := False\<rparr>) sr))"

definition nabto_coap_server_request_is_observe :: "server_request \<Rightarrow> bool" where
  "nabto_coap_server_request_is_observe r = sq_isObserveRegister r"

definition nabto_coap_server_request_get_observer :: "server_request \<Rightarrow> address option" where
  "nabto_coap_server_request_get_observer r = sq_observer r"

definition nabto_coap_server_request_accept_observe :: "address \<Rightarrow> 'm server_requests \<Rightarrow> coap_error \<times> 'm server_requests" where
  "nabto_coap_server_request_accept_observe a sr =
     (let r = sr_request sr a
      in if \<not> sq_isObserveRegister r then (COAP_INVALID_PARAMETER, sr)
         else
          (let existing = find (\<lambda>o'. ob_connection (sr_observer sr o') = sq_connection r \<and>
                  nabto_coap_token_equal (ob_token (sr_observer sr o')) (sq_token r)) (sr_observers sr)
           in if existing = None \<and> sr_maxObservers sr \<le> sr_activeObservers sr then (COAP_OUT_OF_MEMORY, sr)
              else
               (case server_calloc sizeof_server_observer sr of
                  (None, sr) \<Rightarrow> (COAP_OUT_OF_MEMORY, sr)
                | (Some o', sr) \<Rightarrow>
                   (let sr = (case existing of None \<Rightarrow> sr | Some e \<Rightarrow> nabto_coap_server_observer_free e sr);
                        sr = update_observer o' (\<lambda>_. zero_server_observer\<lparr>ob_resource := sq_resource r,
                          ob_connection := sq_connection r, ob_token := sq_token r, ob_sequenceNumber := 0,
                          ob_notificationType := CON\<rparr>) sr;
                        sr = sr\<lparr>sr_observers := o' # sr_observers sr, sr_activeObservers := sr_activeObservers sr + 1\<rparr>
                    in (COAP_OK, update_request a (\<lambda>r. r\<lparr>sq_observer := Some o'\<rparr>) sr)))))"

text \<open>A notification for one observer; the flag says that it is to be sent now.\<close>

definition notify_observer ::
  "address \<Rightarrow> coap_code \<Rightarrow> u16 \<Rightarrow> owned_bytes \<Rightarrow> 'm server_requests \<Rightarrow> bool \<times> 'm server_requests" where
  "notify_observer o' code contentFormat newPayload sr =
     (if ob_waitingForAck (sr_observer sr o') then
       (let sr = server_free_owned (ob_pendingPayload (sr_observer sr o')) sr
        in (False, update_observer o' (\<lambda>ob. ob\<lparr>ob_pendingValid := True, ob_pendingCode := code,
             ob_pendingHasContentFormat := True, ob_pendingContentFormat := contentFormat,
             ob_pendingPayload := newPayload\<rparr>) sr))
      else
       (let sr = server_free_owned (ob_payload (sr_observer sr o')) sr;
            sr = update_observer o' (\<lambda>ob. ob\<lparr>ob_sequenceNumber := ob_sequenceNumber ob + 1, ob_code := code,
              ob_hasContentFormat := True, ob_contentFormat := contentFormat, ob_payload := newPayload\<rparr>) sr;
            (messageId, sr) = nabto_coap_server_next_message_id sr
        in (True, update_observer o' (\<lambda>ob. ob\<lparr>ob_messageId := messageId, ob_retransmissions := 0,
             ob_sendNow := True\<rparr>) sr)))"

fun notify_loop ::
  "address list \<Rightarrow> resource option \<Rightarrow> coap_code \<Rightarrow> u16 \<Rightarrow> bytes option \<Rightarrow> coap_error \<Rightarrow> bool \<Rightarrow> 'm server_requests \<Rightarrow>
   coap_error \<times> bool \<times> 'm server_requests" where
  "notify_loop [] resource code contentFormat payload result marked sr = (result, marked, sr)"
| "notify_loop (o' # os) resource code contentFormat payload result marked sr =
     (if ob_resource (sr_observer sr o') = resource then
       (case payload of
          Some (b # bs) \<Rightarrow>
           (case server_calloc (length (b # bs) + 1) sr of
              (None, sr) \<Rightarrow> notify_loop os resource code contentFormat payload COAP_OUT_OF_MEMORY marked sr
            | (Some p, sr) \<Rightarrow>
               (case notify_observer o' code contentFormat (Some (p, b # bs)) sr of
                  (now, sr) \<Rightarrow> notify_loop os resource code contentFormat payload result (marked \<or> now) sr))
        | _ \<Rightarrow>
           (case notify_observer o' code contentFormat None sr of
              (now, sr) \<Rightarrow> notify_loop os resource code contentFormat payload result (marked \<or> now) sr))
      else notify_loop os resource code contentFormat payload result marked sr)"

definition nabto_coap_server_resource_notify ::
  "resource option \<Rightarrow> coap_code \<Rightarrow> u16 \<Rightarrow> bytes option \<Rightarrow> 'm server_requests \<Rightarrow> coap_error \<times> 'm server_requests" where
  "nabto_coap_server_resource_notify resource code contentFormat payload sr =
     (case notify_loop (sr_observers sr) resource code contentFormat payload COAP_OK False sr of
        (result, marked, sr) \<Rightarrow> (result, if marked then server_notify sr else sr))"

section \<open>Requests and responses\<close>

definition nabto_coap_server_response_set_code :: "address \<Rightarrow> coap_code \<Rightarrow> 'm server_requests \<Rightarrow> 'm server_requests" where
  "nabto_coap_server_response_set_code a code = update_response a (\<lambda>p. p\<lparr>sp_code := code\<rparr>)"

definition nabto_coap_server_response_set_code_human :: "address \<Rightarrow> u16 \<Rightarrow> 'm server_requests \<Rightarrow> 'm server_requests" where
  "nabto_coap_server_response_set_code_human a humanCode =
     (let code = humanCode mod 100; klass = humanCode div 100
      in nabto_coap_server_response_set_code a (NABTO_COAP_CODE (ucast klass) (ucast code)))"

definition nabto_coap_server_response_set_payload ::
  "address \<Rightarrow> bytes \<Rightarrow> 'm server_requests \<Rightarrow> coap_error \<times> 'm server_requests" where
  "nabto_coap_server_response_set_payload a payload sr =
     (let sr = nabto_coap_server_response_release_payload a sr
      in case server_calloc (length payload + 1) sr of
           (None, sr) \<Rightarrow> (COAP_OUT_OF_MEMORY, update_response a (\<lambda>p. p\<lparr>sp_payload := None\<rparr>) sr)
         | (Some q, sr) \<Rightarrow> (COAP_OK, update_response a (\<lambda>p. p\<lparr>sp_payload := Some (q, payload)\<rparr>) sr))"

definition nabto_coap_server_response_set_content_format :: "address \<Rightarrow> u16 \<Rightarrow> 'm server_requests \<Rightarrow> 'm server_requests" where
  "nabto_coap_server_response_set_content_format a format =
     update_response a (\<lambda>p. p\<lparr>sp_hasContentFormat := True, sp_contentFormat := format\<rparr>)"

definition nabto_coap_server_apply_block2_request :: "address \<Rightarrow> 'm server_requests \<Rightarrow> 'm server_requests" where
  "nabto_coap_server_apply_block2_request a sr =
     (if \<not> sq_hasBlock2Request (sr_request sr a) then sr
      else
       (let sr = update_request a (\<lambda>r. r\<lparr>sq_hasBlock2Request := False\<rparr>) sr;
            block2 = sq_block2Request (sr_request sr a);
            szx = NABTO_COAP_BLOCK_SIZE block2;
            sr = update_response a (\<lambda>p. if szx < sp_block2Size p then p\<lparr>sp_block2Size := szx\<rparr> else p) sr;
            offset = NABTO_COAP_BLOCK_OFFSET block2
        in if offset \<noteq> 0 \<and> sp_payloadLength (sq_response (sr_request sr a)) \<le> offset then
            (let sr = nabto_coap_server_response_release_payload a sr;
                 sr = update_response a (\<lambda>p. p\<lparr>sp_staticPayload := True, sp_payload := static_payload badBlockOption,
                   sp_hasContentFormat := False, sp_block2Current := 0\<rparr>) sr
             in nabto_coap_server_response_set_code a CODE_BAD_REQUEST sr)
           else update_response a (\<lambda>p. p\<lparr>sp_block2Current :=
                  of_nat (offset div nabto_coap_block_size_from_szx (sp_block2Size p))\<rparr>) sr))"

definition nabto_coap_server_response_ready :: "address \<Rightarrow> 'm server_requests \<Rightarrow> coap_error \<times> 'm server_requests" where
  "nabto_coap_server_response_ready a sr =
     (if sq_connection (sr_request sr a) = None
      then (COAP_NO_CONNECTION, update_request a (\<lambda>r. r\<lparr>sq_state := STATE_DONE\<rparr>) sr)
      else
       (let sr = nabto_coap_server_apply_block2_request a sr;
            sr = update_request a (\<lambda>r. r\<lparr>sq_state := STATE_RESPONSE\<rparr>) sr;
            sr = update_response a (\<lambda>p. p\<lparr>sp_sendNow := True\<rparr>) sr
        in (COAP_OK, server_notify sr)))"

definition nabto_coap_server_send_error_response ::
  "address \<Rightarrow> coap_code \<Rightarrow> bytes option \<Rightarrow> 'm server_requests \<Rightarrow> coap_error \<times> 'm server_requests" where
  "nabto_coap_server_send_error_response a status description sr =
     (let sr = nabto_coap_server_response_set_code a status sr
      in case description of
           None \<Rightarrow> nabto_coap_server_response_ready a sr
         | Some text \<Rightarrow>
            (case nabto_coap_server_response_set_payload a text sr of
               (err, sr) \<Rightarrow> if err \<noteq> COAP_OK then (err, sr) else nabto_coap_server_response_ready a sr))"

definition nabto_coap_server_request_free :: "address \<Rightarrow> 'm server_requests \<Rightarrow> 'm server_requests" where
  "nabto_coap_server_request_free a sr =
     (let sr = (if sq_state (sr_request sr a) = STATE_REQUEST \<or> sq_state (sr_request sr a) = STATE_USER then
                 (let sr = nabto_coap_server_response_release_payload a sr;
                      sr = update_response a (\<lambda>p. p\<lparr>sp_staticPayload := True\<rparr>) sr;
                      sr = update_request a (\<lambda>r. r\<lparr>sq_hasBlock2Request := False\<rparr>) sr;
                      sr = nabto_coap_server_response_set_code a CODE_INTERNAL_SERVER_ERROR sr;
                      sr = update_response a (\<lambda>p. p\<lparr>sp_payload := static_payload unhandledRequest\<rparr>) sr
                  in snd (nabto_coap_server_response_ready a sr))
                else sr);
          sr = update_request a (\<lambda>r. r\<lparr>sq_isFreed := True\<rparr>) sr
      in nabto_coap_server_free_request a sr)"

definition nabto_coap_server_request_get_content_format :: "server_request \<Rightarrow> int" where
  "nabto_coap_server_request_get_content_format r = (if sq_hasContentFormat r then uint (sq_contentFormat r) else -1)"

definition nabto_coap_server_request_get_payload :: "server_request \<Rightarrow> bool \<times> bytes" where
  "nabto_coap_server_request_get_payload r = (0 < sq_payloadLength r, owned_data (sq_payload r))"

definition nabto_coap_server_request_get_connection :: "server_request \<Rightarrow> connection option" where
  "nabto_coap_server_request_get_connection r = sq_connection r"

definition nabto_coap_server_request_get_parameter :: "server_request \<Rightarrow> bytes \<Rightarrow> cstring option" where
  "nabto_coap_server_request_get_parameter r parameter =
     map_option pm_value (find (\<lambda>p. pm_name p = parameter) (sq_parameters r))"

text \<open>The resource a request or an application points to.\<close>

definition server_resource_at :: "'m server_requests \<Rightarrow> resource \<Rightarrow> server_resource" where
  "server_resource_at sr r =
     (case sv_root (sr_server sr) of None \<Rightarrow> zero_resource | Some rootNode \<Rightarrow> resource_at rootNode r)"

definition nabto_coap_server_remove_resource :: "resource \<Rightarrow> 'm coap_server \<Rightarrow> 'm coap_server" where
  "nabto_coap_server_remove_resource r server =
     server\<lparr>sv_root := map_option (write_resource r \<lparr>re_handler = None, re_handlerUserData = None\<rparr>) (sv_root server)\<rparr>"

definition nabto_coap_server_add_resource ::
  "coap_code \<Rightarrow> bytes list \<Rightarrow> address option \<Rightarrow> address option \<Rightarrow> 'm coap_server \<Rightarrow> 'm \<Rightarrow>
   (coap_error \<times> resource option \<times> 'm coap_server \<times> 'm) option" where
  "nabto_coap_server_add_resource method segments handler userData server m =
     (case sv_root server of
        None \<Rightarrow> None
      | Some rootNode \<Rightarrow>
         (case nabto_coap_server_add_resource_into_tree (sv_allocator server) rootNode method segments handler userData m of
            (err, res, rootNode, m) \<Rightarrow> Some (err, res, server\<lparr>sv_root := Some rootNode\<rparr>, m)))"

section \<open>Timeouts\<close>

definition timeout_one_request :: "u32 \<Rightarrow> address \<Rightarrow> 'm server_requests \<Rightarrow> 'm server_requests" where
  "timeout_one_request now a sr =
     (let r = sr_request sr a; response = sq_response r
      in if sq_state r = STATE_REQUEST \<and> nabto_coap_is_stamp_less_equal (sq_timeout r) now then discard_request a sr
         else if sq_state r = STATE_RESPONSE \<and> nabto_coap_is_stamp_less_equal (sp_timeout response) now then
           (if sp_waitingForAck response then
              (if NABTO_COAP_MAX_RETRANSMITS < sp_retransmissions response then done_request a sr
               else update_response a (\<lambda>p. p\<lparr>sp_sendNow := True\<rparr>) sr)
            else if \<not> sp_sendNow response then done_request a sr
            else sr)
         else sr)"

fun timeout_requests_loop :: "address list \<Rightarrow> u32 \<Rightarrow> 'm server_requests \<Rightarrow> 'm server_requests" where
  "timeout_requests_loop [] now sr = sr"
| "timeout_requests_loop (a # as) now sr = timeout_requests_loop as now (timeout_one_request now a sr)"

definition timeout_one_observer :: "u32 \<Rightarrow> address \<Rightarrow> 'm server_requests \<Rightarrow> 'm server_requests" where
  "timeout_one_observer now o' sr =
     (let ob = sr_observer sr o'
      in if ob_waitingForAck ob \<and> nabto_coap_is_stamp_less_equal (ob_timeout ob) now then
           (if NABTO_COAP_MAX_RETRANSMITS < ob_retransmissions ob then nabto_coap_server_observer_free o' sr
            else update_observer o' (\<lambda>ob. ob\<lparr>ob_waitingForAck := False, ob_sendNow := True\<rparr>) sr)
         else sr)"

fun timeout_observers_loop :: "address list \<Rightarrow> u32 \<Rightarrow> 'm server_requests \<Rightarrow> 'm server_requests" where
  "timeout_observers_loop [] now sr = sr"
| "timeout_observers_loop (o' # os) now sr = timeout_observers_loop os now (timeout_one_observer now o' sr)"

definition nabto_coap_server_handle_timeout :: "'m server_requests \<Rightarrow> 'm server_requests" where
  "nabto_coap_server_handle_timeout sr =
     (let now = nabto_coap_server_stamp_now sr;
          sr = timeout_requests_loop (sr_requests sr) now sr
      in timeout_observers_loop (sr_observers sr) now sr)"

section \<open>Events\<close>

text \<open>A request with something to send.\<close>

definition request_sends :: "server_request \<Rightarrow> bool" where
  "request_sends r \<longleftrightarrow> ((sq_state r = STATE_REQUEST \<or> sq_state r = STATE_USER) \<and> sq_hasBlock1Ack r) \<or>
     (sq_state r = STATE_RESPONSE \<and> sp_sendNow (sq_response r))"

definition nabto_coap_server_next_event :: "'m server_requests \<Rightarrow> server_next_event" where
  "nabto_coap_server_next_event sr =
     (if sr_errorConnection sr \<noteq> None \<or> sr_ackConnection sr \<noteq> None \<or> sr_rstConnection sr \<noteq> None then SERVER_SEND
      else if list_ex (\<lambda>a. request_sends (sr_request sr a)) (sr_requests sr) then SERVER_SEND
      else if list_ex (\<lambda>o'. ob_sendNow (sr_observer sr o')) (sr_observers sr) then SERVER_SEND
      else if list_ex (\<lambda>a. sq_state (sr_request sr a) = STATE_REQUEST \<or> sq_state (sr_request sr a) = STATE_RESPONSE)
        (sr_requests sr) then SERVER_WAIT
      else if list_ex (\<lambda>o'. ob_waitingForAck (sr_observer sr o')) (sr_observers sr) then SERVER_WAIT
      else SERVER_NOTHING)"

text \<open>The earlier of a timeout and the one found so far.\<close>

definition min_timeout :: "u32 option \<Rightarrow> u32 \<Rightarrow> u32 option" where
  "min_timeout found timeout =
     Some (case found of None \<Rightarrow> timeout | Some nextTimeout \<Rightarrow> nabto_coap_stamp_min nextTimeout timeout)"

fun request_timeouts_loop :: "address list \<Rightarrow> u32 option \<Rightarrow> 'm server_requests \<Rightarrow> u32 option" where
  "request_timeouts_loop [] found sr = found"
| "request_timeouts_loop (a # as) found sr =
     (let r = sr_request sr a
      in request_timeouts_loop as
          (if sq_state r = STATE_REQUEST \<or> sq_state r = STATE_RESPONSE then
             min_timeout found (if sq_state r = STATE_REQUEST then sq_timeout r else sp_timeout (sq_response r))
           else found) sr)"

fun observer_timeouts_loop :: "address list \<Rightarrow> u32 option \<Rightarrow> 'm server_requests \<Rightarrow> u32 option" where
  "observer_timeouts_loop [] found sr = found"
| "observer_timeouts_loop (o' # os) found sr =
     observer_timeouts_loop os
       (if ob_waitingForAck (sr_observer sr o') then min_timeout found (ob_timeout (sr_observer sr o')) else found) sr"

definition nabto_coap_server_get_next_timeout :: "'m server_requests \<Rightarrow> u32 option" where
  "nabto_coap_server_get_next_timeout sr =
     observer_timeouts_loop (sr_observers sr) (request_timeouts_loop (sr_requests sr) None sr) sr"

definition nabto_coap_server_get_connection_send :: "'m server_requests \<Rightarrow> connection option" where
  "nabto_coap_server_get_connection_send sr =
     (if sr_errorConnection sr \<noteq> None then sr_errorConnection sr
      else if sr_ackConnection sr \<noteq> None then sr_ackConnection sr
      else if sr_rstConnection sr \<noteq> None then sr_rstConnection sr
      else (case find (\<lambda>a. request_sends (sr_request sr a)) (sr_requests sr) of
              Some a \<Rightarrow> sq_connection (sr_request sr a)
            | None \<Rightarrow>
               (case find (\<lambda>o'. ob_sendNow (sr_observer sr o')) (sr_observers sr) of
                  Some o' \<Rightarrow> ob_connection (sr_observer sr o')
                | None \<Rightarrow> None)))"

section \<open>Packets\<close>

definition nabto_coap_server_send_ack :: "nat \<Rightarrow> 'm server_requests \<Rightarrow> wptr \<times> 'm server_requests" where
  "nabto_coap_server_send_ack room sr =
     (case nabto_coap_encode_header \<lparr>mh_type = ACK, mh_code = NABTO_COAP_CODE_EMPTY, mh_messageId = sr_ackMessageId sr,
          mh_token = []\<rparr> (Some ([], room)) of
        None \<Rightarrow> (None, sr)
      | Some p \<Rightarrow> (Some p, sr\<lparr>sr_ackConnection := None\<rparr>))"

definition nabto_coap_server_send_rst :: "nat \<Rightarrow> 'm server_requests \<Rightarrow> wptr \<times> 'm server_requests" where
  "nabto_coap_server_send_rst room sr =
     (case nabto_coap_encode_header \<lparr>mh_type = RST, mh_code = NABTO_COAP_CODE_EMPTY, mh_messageId = sr_rstMessageId sr,
          mh_token = []\<rparr> (Some ([], room)) of
        None \<Rightarrow> (None, sr)
      | Some p \<Rightarrow> (Some p, sr\<lparr>sr_rstConnection := None\<rparr>))"

definition nabto_coap_server_send_error :: "nat \<Rightarrow> 'm server_requests \<Rightarrow> wptr \<times> 'm server_requests" where
  "nabto_coap_server_send_error room sr =
     (let ptr = nabto_coap_encode_header \<lparr>mh_type = sr_errorType sr, mh_code = ucast (sr_errorCode sr),
            mh_messageId = sr_errorMessageId sr, mh_token = sr_errorToken sr\<rparr> (Some ([], room));
          ptr = nabto_coap_encode_payload (sr_errorPayload sr) ptr
      in case ptr of
           None \<Rightarrow> (None, sr)
         | Some p \<Rightarrow> (Some p, sr\<lparr>sr_errorConnection := None, sr_errorCode := 0, sr_errorMessageId := 0,
             sr_errorPayload := None\<rparr>))"

definition nabto_coap_server_send_in_request_state :: "address \<Rightarrow> nat \<Rightarrow> 'm server_requests \<Rightarrow> wptr \<times> 'm server_requests" where
  "nabto_coap_server_send_in_request_state a room sr =
     (let r = sr_request sr a
      in if sq_hasBlock1Ack r then
          (let ptr = nabto_coap_encode_header \<lparr>mh_type = ACK, mh_code = CODE_CONTINUE, mh_messageId = sq_messageId r,
                 mh_token = sq_token r\<rparr> (Some ([], room));
               ptr = nabto_coap_encode_varint_option OPTION_BLOCK1 (sq_block1Ack r) ptr
           in (ptr, update_request a (\<lambda>r. r\<lparr>sq_hasBlock1Ack := False\<rparr>) sr))
         else (None, sr))"

text \<open>The bytes of a response; \<open>observe\<close> is the sequence number of the observer of the request.\<close>

definition response_packet :: "server_request \<Rightarrow> u32 option \<Rightarrow> nat \<Rightarrow> wptr" where
  "response_packet r observe room =
     (let response = sq_response r;
          ptr = nabto_coap_encode_header \<lparr>mh_type = sq_type r, mh_code = sp_code response,
            mh_messageId = sp_messageId response, mh_token = sq_token r\<rparr> (Some ([], room));
          currentOption = 0;
          (currentOption, ptr) =
            (case observe of
               Some sequenceNumber \<Rightarrow> (OPTION_OBSERVE,
                 nabto_coap_encode_varint_option (OPTION_OBSERVE - currentOption) sequenceNumber ptr)
             | None \<Rightarrow> (currentOption, ptr));
          (currentOption, ptr) =
            (if sp_hasContentFormat response
             then (OPTION_CONTENT_FORMAT, nabto_coap_encode_varint_option (OPTION_CONTENT_FORMAT - currentOption)
                     (ucast (sp_contentFormat response)) ptr)
             else (currentOption, ptr));
          blockSize = nabto_coap_block_size_from_szx (sp_block2Size response);
          payloadOffset = unat (sp_block2Current response) * blockSize;
          payloadRestLength = (if payloadOffset < sp_payloadLength response then sp_payloadLength response - payloadOffset else 0);
          (currentOption, ptr) =
            (if blockSize < sp_payloadLength response then
              (let blockMore = (if payloadRestLength \<le> blockSize then 0 else 1);
                   blockOption = push_bit 4 (sp_block2Current response) + push_bit 3 blockMore + sp_block2Size response
               in (OPTION_BLOCK2, nabto_coap_encode_varint_option (OPTION_BLOCK2 - currentOption) blockOption ptr))
             else (currentOption, ptr));
          (currentOption, ptr) =
            (if sq_hasBlock1 r \<and> payloadOffset = 0
             then (OPTION_BLOCK1, nabto_coap_encode_varint_option (OPTION_BLOCK1 - currentOption) (sq_block1Ack r) ptr)
             else (currentOption, ptr));
          payloadRestLength = (if blockSize < payloadRestLength then blockSize else payloadRestLength)
      in nabto_coap_encode_payload
           (if payloadOffset < sp_payloadLength response
            then Some (take payloadRestLength (drop payloadOffset (owned_data (sp_payload response)))) else None) ptr)"

text \<open>A response after its packet was made.\<close>

definition response_sent :: "coap_type \<Rightarrow> u32 \<Rightarrow> u32 \<Rightarrow> server_response \<Rightarrow> server_response" where
  "response_sent type now ackTimeout p =
     (let p = p\<lparr>sp_waitingForAck := True\<rparr>
      in if type = NON
         then p\<lparr>sp_retransmissions := sp_retransmissions p + (NABTO_COAP_MAX_RETRANSMITS + 2), sp_timeout := now,
                sp_sendNow := False\<rparr>
         else p\<lparr>sp_sendNow := False, sp_timeout := now + push_bit (unat (sp_retransmissions p)) ackTimeout,
                sp_retransmissions := sp_retransmissions p + 1\<rparr>)"

definition nabto_coap_server_send_in_response_state :: "address \<Rightarrow> nat \<Rightarrow> 'm server_requests \<Rightarrow> wptr \<times> 'm server_requests" where
  "nabto_coap_server_send_in_response_state a room sr =
     (let r = sr_request sr a;
          observe = map_option (\<lambda>o'. ob_sequenceNumber (sr_observer sr o')) (sq_observer r)
      in (response_packet r observe room,
          update_response a (response_sent (sq_type r) (nabto_coap_server_stamp_now sr) (sv_ackTimeout (sr_server sr))) sr))"

definition notification_packet :: "server_observer \<Rightarrow> nat \<Rightarrow> wptr" where
  "notification_packet ob room =
     (let ptr = nabto_coap_encode_header \<lparr>mh_type = ob_notificationType ob, mh_code = ob_code ob,
            mh_messageId = ob_messageId ob, mh_token = ob_token ob\<rparr> (Some ([], room));
          currentOption = 0;
          ptr = nabto_coap_encode_varint_option (OPTION_OBSERVE - currentOption) (ob_sequenceNumber ob) ptr;
          currentOption = OPTION_OBSERVE;
          ptr = (if ob_hasContentFormat ob
                 then nabto_coap_encode_varint_option (OPTION_CONTENT_FORMAT - currentOption) (ucast (ob_contentFormat ob)) ptr
                 else ptr)
      in nabto_coap_encode_payload (map_option snd (ob_payload ob)) ptr)"

definition nabto_coap_server_send_observer_notification :: "address \<Rightarrow> nat \<Rightarrow> 'm server_requests \<Rightarrow> wptr \<times> 'm server_requests" where
  "nabto_coap_server_send_observer_notification o' room sr =
     (case notification_packet (sr_observer sr o') room of
        None \<Rightarrow> (None, sr)
      | Some p \<Rightarrow>
         (Some p,
          if ob_notificationType (sr_observer sr o') = CON then
            update_observer o' (\<lambda>ob. ob\<lparr>ob_sendNow := False, ob_waitingForAck := True,
              ob_timeout := nabto_coap_server_stamp_now sr +
                push_bit (unat (ob_retransmissions ob)) (sv_ackTimeout (sr_server sr)),
              ob_retransmissions := ob_retransmissions ob + 1\<rparr>) sr
          else
            update_observer o' (\<lambda>ob. ob\<lparr>ob_payload := None\<rparr>)
              (server_free_owned (ob_payload (sr_observer sr o'))
                (update_observer o' (\<lambda>ob. ob\<lparr>ob_sendNow := False\<rparr>) sr))))"

definition nabto_coap_server_handle_send :: "nat \<Rightarrow> 'm server_requests \<Rightarrow> wptr \<times> 'm server_requests" where
  "nabto_coap_server_handle_send room sr =
     (if sr_errorConnection sr \<noteq> None then nabto_coap_server_send_error room sr
      else if sr_ackConnection sr \<noteq> None then nabto_coap_server_send_ack room sr
      else if sr_rstConnection sr \<noteq> None then nabto_coap_server_send_rst room sr
      else (case find (\<lambda>a. request_sends (sr_request sr a)) (sr_requests sr) of
              Some a \<Rightarrow>
                if sq_state (sr_request sr a) = STATE_RESPONSE then nabto_coap_server_send_in_response_state a room sr
                else nabto_coap_server_send_in_request_state a room sr
            | None \<Rightarrow>
               (case find (\<lambda>o'. ob_sendNow (sr_observer sr o')) (sr_observers sr) of
                  Some o' \<Rightarrow> nabto_coap_server_send_observer_notification o' room sr
                | None \<Rightarrow> (None, sr))))"

section \<open>The end\<close>

text \<open>Connections that are gone and contexts that are given back.\<close>

fun remove_observers_loop :: "address list \<Rightarrow> connection option \<Rightarrow> 'm server_requests \<Rightarrow> 'm server_requests" where
  "remove_observers_loop [] connection sr = sr"
| "remove_observers_loop (o' # os) connection sr =
     remove_observers_loop os connection
       (if ob_connection (sr_observer sr o') = connection then nabto_coap_server_observer_free o' sr else sr)"

fun remove_requests_loop :: "address list \<Rightarrow> connection option \<Rightarrow> 'm server_requests \<Rightarrow> 'm server_requests" where
  "remove_requests_loop [] connection sr = sr"
| "remove_requests_loop (a # as) connection sr =
     remove_requests_loop as connection
       (if sq_connection (sr_request sr a) = connection then
          (if sq_state (sr_request sr a) = STATE_REQUEST then discard_request a sr
           else if sq_state (sr_request sr a) = STATE_RESPONSE then done_request a sr
           else update_request a (\<lambda>r. r\<lparr>sq_connection := None\<rparr>) sr)
        else sr)"

definition nabto_coap_server_remove_connection :: "connection option \<Rightarrow> 'm server_requests \<Rightarrow> 'm server_requests" where
  "nabto_coap_server_remove_connection connection sr =
     (let sr = remove_observers_loop (sr_observers sr) connection sr;
          sr = remove_requests_loop (sr_requests sr) connection sr;
          sr = (if sr_ackConnection sr = connection then sr\<lparr>sr_ackConnection := None\<rparr> else sr);
          sr = (if sr_rstConnection sr = connection then sr\<lparr>sr_rstConnection := None\<rparr> else sr)
      in if sr_errorConnection sr = connection then sr\<lparr>sr_errorConnection := None\<rparr> else sr)"

fun free_observers_loop :: "address list \<Rightarrow> 'm server_requests \<Rightarrow> 'm server_requests" where
  "free_observers_loop [] sr = sr"
| "free_observers_loop (o' # os) sr = free_observers_loop os (nabto_coap_server_observer_free o' sr)"

fun destroy_requests_loop :: "address list \<Rightarrow> 'm server_requests \<Rightarrow> 'm server_requests" where
  "destroy_requests_loop [] sr = sr"
| "destroy_requests_loop (a # as) sr =
     destroy_requests_loop as
       (if sq_state (sr_request sr a) = STATE_REQUEST then discard_request a sr else done_request a sr)"

definition free_sentinel :: "address option \<Rightarrow> 'm server_requests \<Rightarrow> 'm server_requests" where
  "free_sentinel p sr = sr\<lparr>sr_memory := nn_allocator_free (sv_allocator (sr_server sr)) p (sr_memory sr)\<rparr>"

definition nabto_coap_server_requests_destroy :: "'m server_requests \<Rightarrow> 'm server_requests" where
  "nabto_coap_server_requests_destroy sr =
     (let sr = (if sr_observersSentinel sr \<noteq> None then
                 (let sr = free_observers_loop (sr_observers sr) sr;
                      sr = free_sentinel (sr_observersSentinel sr) sr
                  in sr\<lparr>sr_observersSentinel := None\<rparr>)
                else sr);
          sr = (if sr_requestsSentinel sr = None then sr\<lparr>sr_nullAccess := True\<rparr> else sr);
          sr = destroy_requests_loop (sr_requests sr) sr;
          sr = free_sentinel (sr_requestsSentinel sr) sr
      in sr\<lparr>sr_requestsSentinel := None\<rparr>)"

end
