(* ===== verification/Coap_Server_Incoming.thy ===== *)
theory Coap_Server_Incoming
  imports Coap_Server
begin

text \<open>
  The packets that arrive at the CoAP server, src/components/coap/src/nabto_coap_server_impl_incoming.c.  The last
  thing a packet does is to call the handler of a resource; the call is a result of the model, so
  that the handler, which is the application, can go on with the operations of Coap_Server.
\<close>

section \<open>What a packet gets for an answer\<close>

definition unsupportedCriticalOption :: bytes where
  "unsupportedCriticalOption = static_text ''Unsupported critical option''"
definition outOfResources :: bytes where "outOfResources = static_text ''Out of resources''"
definition wrongPayloadLength :: bytes where "wrongPayloadLength = static_text ''Wrong payload length''"
definition requestTooLarge :: bytes where "requestTooLarge = static_text ''Request entity too large''"
definition contentFormatChanged :: bytes where "contentFormatChanged = static_text ''Content-Format changed''"

text \<open>A handler with its request and its user data.\<close>

type_synonym handler_call = "address \<times> address \<times> address option"

definition nabto_coap_server_observer_notification_in_flight :: "server_observer \<Rightarrow> bool" where
  "nabto_coap_server_observer_notification_in_flight ob \<longleftrightarrow>
     ob_waitingForAck ob \<or> (ob_sendNow ob \<and> 0 < ob_retransmissions ob)"

definition nabto_coap_server_response_in_flight :: "server_request \<Rightarrow> bool" where
  "nabto_coap_server_response_in_flight r \<longleftrightarrow> sq_state r = STATE_RESPONSE \<and> sp_waitingForAck (sq_response r)"

definition transfer_deadline :: "'m server_requests \<Rightarrow> u32" where
  "transfer_deadline sr = nabto_coap_server_stamp_now sr +
     push_bit (unat NABTO_COAP_MAX_RETRANSMITS + 1) (sv_ackTimeout (sr_server sr))"

definition nabto_coap_server_request_arm_timeout :: "address \<Rightarrow> 'm server_requests \<Rightarrow> 'm server_requests" where
  "nabto_coap_server_request_arm_timeout a sr = update_request a (\<lambda>r. r\<lparr>sq_timeout := transfer_deadline sr\<rparr>) sr"

abbreviation (input) OPTION_URI_HOST :: u16 where "OPTION_URI_HOST \<equiv> 3"
abbreviation (input) OPTION_URI_PORT :: u16 where "OPTION_URI_PORT \<equiv> 7"

text \<open>The options that are handled or ignored; every other odd number is critical and unknown.\<close>

function critical_options_loop :: "option_iterator option \<Rightarrow> bool" where
  "critical_options_loop None = True"
| "critical_options_loop (Some it) =
     (if odd (unat (it_option it)) \<and>
         it_option it \<notin> {OPTION_URI_PATH, OPTION_BLOCK1, OPTION_BLOCK2, OPTION_URI_HOST, OPTION_URI_PORT} then False
      else critical_options_loop (nabto_coap_get_next_option it))"
  by pat_completeness auto
termination by (relation "measure (\<lambda>it. case it of None \<Rightarrow> 0 | Some it \<Rightarrow> Suc (it_left it))")
  (auto split: option.splits dest: get_next_option_left)

declare critical_options_loop.simps(2) [simp del]

definition nabto_coap_server_validate_critical_options :: "coap_incoming_message \<Rightarrow> bool" where
  "nabto_coap_server_validate_critical_options msg =
     (if im_hasRepeatedBlockOption msg then False
      else critical_options_loop (nabto_coap_get_next_option (nabto_coap_option_iterator_init (im_options msg))))"

definition nabto_coap_server_make_error_response ::
  "connection option \<Rightarrow> coap_incoming_message \<Rightarrow> coap_code \<Rightarrow> bytes option \<Rightarrow> 'm server_requests \<Rightarrow> 'm server_requests" where
  "nabto_coap_server_make_error_response connection msg code description sr =
     (if sr_errorConnection sr \<noteq> None then sr
      else
       (let sr = sr\<lparr>sr_errorConnection := connection, sr_errorCode := ucast code, sr_errorToken := im_token msg\<rparr>;
            sr = (if im_type msg = CON
                  then sr\<lparr>sr_errorType := ACK, sr_errorMessageId := im_messageId msg\<rparr>
                  else
                   (case nabto_coap_server_next_message_id (sr\<lparr>sr_errorType := NON\<rparr>) of
                      (messageId, sr) \<Rightarrow> sr\<lparr>sr_errorMessageId := messageId\<rparr>))
        in sr\<lparr>sr_errorPayload := description\<rparr>))"

definition nabto_coap_server_queue_ack :: "connection option \<Rightarrow> u16 \<Rightarrow> 'm server_requests \<Rightarrow> 'm server_requests" where
  "nabto_coap_server_queue_ack connection messageId sr =
     (if sr_ackConnection sr \<noteq> None then sr
      else sr\<lparr>sr_ackConnection := connection, sr_ackMessageId := messageId\<rparr>)"

definition nabto_coap_server_queue_rst :: "connection option \<Rightarrow> u16 \<Rightarrow> 'm server_requests \<Rightarrow> 'm server_requests" where
  "nabto_coap_server_queue_rst connection messageId sr =
     (if sr_rstConnection sr \<noteq> None then sr
      else sr\<lparr>sr_rstConnection := connection, sr_rstMessageId := messageId\<rparr>)"

section \<open>Chunks of a request\<close>

text \<open>The end of a request that the user never sees.\<close>

definition refuse_request ::
  "address \<Rightarrow> coap_incoming_message \<Rightarrow> coap_code \<Rightarrow> bytes option \<Rightarrow> 'm server_requests \<Rightarrow> 'm server_requests" where
  "refuse_request a msg code description sr =
     discard_request a (nabto_coap_server_make_error_response (sq_connection (sr_request sr a)) msg code description sr)"

definition im_data :: "coap_incoming_message \<Rightarrow> bytes" where
  "im_data msg = (case im_payload msg of None \<Rightarrow> [] | Some bs \<Rightarrow> bs)"

text \<open>The chunk is appended in a new block.  The flag says that the request is still there.\<close>

definition append_block1 :: "address \<Rightarrow> coap_incoming_message \<Rightarrow> 'm server_requests \<Rightarrow> bool \<times> 'm server_requests" where
  "append_block1 a msg sr =
     (let sr = update_request a (\<lambda>r. r\<lparr>sq_hasBlock1 := True\<rparr>) sr;
          r = sr_request sr a;
          more = NABTO_COAP_BLOCK_MORE (im_block1 msg)
      in if sq_payloadLength r \<noteq> NABTO_COAP_BLOCK_OFFSET (im_block1 msg)
         then (False, refuse_request a msg CODE_REQUEST_ENTITY_INCOMPLETE None sr)
         else if more \<and> im_payloadLength msg \<noteq> NABTO_COAP_BLOCK_SIZE_ABSOLUTE (im_block1 msg)
         then (False, refuse_request a msg CODE_BAD_REQUEST (Some wrongPayloadLength) sr)
         else
          (case server_calloc (sq_payloadLength r + im_payloadLength msg + 1) sr of
             (None, sr) \<Rightarrow> (False, refuse_request a msg CODE_SERVICE_UNAVAILABLE (Some outOfResources) sr)
           | (Some p, sr) \<Rightarrow>
              (let sr = (if 0 < sq_payloadLength r then server_free_owned (sq_payload r) sr else sr);
                   sr = update_request a (\<lambda>r. r\<lparr>sq_payload := Some (p, owned_data (sq_payload r) @ im_data msg),
                     sq_messageId := im_messageId msg,
                     sq_block1Ack := push_bit 4 (NABTO_COAP_BLOCK_NUM (im_block1 msg)) + NABTO_COAP_BLOCK_SIZE (im_block1 msg)\<rparr>) sr
               in (True,
                   if more
                   then nabto_coap_server_request_arm_timeout a
                     (update_request a (\<lambda>r. r\<lparr>sq_block1Ack := sq_block1Ack r + push_bit 3 1, sq_hasBlock1Ack := True\<rparr>) sr)
                   else sr))))"

text \<open>The payload of a request in one message.\<close>

definition whole_payload :: "address \<Rightarrow> coap_incoming_message \<Rightarrow> 'm server_requests \<Rightarrow> bool \<times> 'm server_requests" where
  "whole_payload a msg sr =
     (if im_payloadLength msg = 0 then (True, sr)
      else
       (let sr = server_free_owned (sq_payload (sr_request sr a)) sr
        in case server_calloc (im_payloadLength msg + 1) sr of
             (None, sr) \<Rightarrow> (False, discard_request a (update_request a (\<lambda>r. r\<lparr>sq_payload := None\<rparr>) sr))
           | (Some p, sr) \<Rightarrow> (True, update_request a (\<lambda>r. r\<lparr>sq_payload := Some (p, im_data msg)\<rparr>) sr)))"

text \<open>The options of a chunk that are kept, and its acknowledgement unless a 2.31 Continue is to be sent.\<close>

definition chunk_options :: "address \<Rightarrow> coap_incoming_message \<Rightarrow> 'm server_requests \<Rightarrow> 'm server_requests" where
  "chunk_options a msg sr =
     (let sr = (if im_hasContentFormat msg then
                 update_request a (\<lambda>r. r\<lparr>sq_hasContentFormat := True, sq_contentFormat := im_contentFormat msg\<rparr>) sr
                else sr)
      in if im_hasBlock2 msg then
          update_request a (\<lambda>r. r\<lparr>sq_hasBlock2Request := True, sq_block2Request := im_block2 msg\<rparr>) sr
         else sr)"

definition acknowledge_chunk :: "address \<Rightarrow> coap_incoming_message \<Rightarrow> 'm server_requests \<Rightarrow> 'm server_requests" where
  "acknowledge_chunk a msg sr =
     (if im_type msg = CON \<and> \<not> sq_hasBlock1Ack (sr_request sr a)
      then nabto_coap_server_queue_ack (sq_connection (sr_request sr a)) (im_messageId msg) sr else sr)"

text \<open>The request goes to the application.\<close>

definition call_handler :: "address \<Rightarrow> 'm server_requests \<Rightarrow> handler_call option \<times> 'm server_requests" where
  "call_handler a sr =
     (let sr = update_request a (\<lambda>r. r\<lparr>sq_state := STATE_USER\<rparr>) sr;
          res = (case sq_resource (sr_request sr a) of None \<Rightarrow> zero_resource | Some r \<Rightarrow> server_resource_at sr r)
      in case re_handler res of
           None \<Rightarrow> (None, sr\<lparr>sr_nullAccess := True\<rparr>)
         | Some h \<Rightarrow> (Some (h, a, re_handlerUserData res), sr))"

definition nabto_coap_server_handle_data_for_request ::
  "address \<Rightarrow> coap_incoming_message \<Rightarrow> 'm server_requests \<Rightarrow> handler_call option \<times> 'm server_requests" where
  "nabto_coap_server_handle_data_for_request a msg sr =
     (if (im_hasBlock1 msg \<and> NABTO_COAP_BLOCK_SIZE (im_block1 msg) = 7) \<or>
         (im_hasBlock2 msg \<and> NABTO_COAP_BLOCK_SIZE (im_block2 msg) = 7)
      then (None, refuse_request a msg CODE_BAD_REQUEST (Some badBlockOption) sr)
      else if im_hasContentFormat msg \<and> sq_hasContentFormat (sr_request sr a) \<and>
         sq_contentFormat (sr_request sr a) \<noteq> im_contentFormat msg
      then (None, refuse_request a msg CODE_REQUEST_ENTITY_INCOMPLETE (Some contentFormatChanged) sr)
      else
       (let sr = chunk_options a msg sr
        in if sr_maxRequestPayload sr < sq_payloadLength (sr_request sr a) + im_payloadLength msg
           then (None, refuse_request a msg REQUEST_ENTITY_TOO_LARGE (Some requestTooLarge) sr)
           else
            (case (if im_hasBlock1 msg then append_block1 a msg sr else whole_payload a msg sr) of
               (False, sr) \<Rightarrow> (None, sr)
             | (True, sr) \<Rightarrow>
                (let sr = acknowledge_chunk a msg sr
                 in if im_hasBlock1 msg \<and> NABTO_COAP_BLOCK_MORE (im_block1 msg) then (None, sr)
                    else call_handler a sr))))"

section \<open>Requests for blocks of a response\<close>

definition nabto_coap_server_handle_data_for_response ::
  "address \<Rightarrow> coap_incoming_message \<Rightarrow> 'm server_requests \<Rightarrow> 'm server_requests" where
  "nabto_coap_server_handle_data_for_response a msg sr =
     (if \<not> im_hasBlock2 msg then sr
      else
       (let offset = NABTO_COAP_BLOCK_OFFSET (im_block2 msg)
        in if NABTO_COAP_BLOCK_SIZE (im_block2 msg) = 7 \<or>
             (offset \<noteq> 0 \<and> sp_payloadLength (sq_response (sr_request sr a)) \<le> offset)
           then done_request a (nabto_coap_server_make_error_response (sq_connection (sr_request sr a)) msg
                  CODE_BAD_REQUEST (Some badBlockOption) sr)
           else
            (let sr = update_request a (\<lambda>r. r\<lparr>sq_messageId := im_messageId msg\<rparr>) sr;
                 sr = (if im_type msg = CON
                       then nabto_coap_server_queue_ack (sq_connection (sr_request sr a)) (im_messageId msg) sr else sr);
                 (messageId, sr) = nabto_coap_server_next_message_id sr
             in update_response a (\<lambda>p. p\<lparr>sp_block2Current := NABTO_COAP_BLOCK_NUM (im_block2 msg),
                  sp_block2Size := NABTO_COAP_BLOCK_SIZE (im_block2 msg), sp_messageId := messageId,
                  sp_sendNow := True, sp_waitingForAck := False, sp_retransmissions := 0\<rparr>) sr)))"

section \<open>New requests\<close>

definition nabto_coap_server_request_new :: "'m server_requests \<Rightarrow> address option \<times> 'm server_requests" where
  "nabto_coap_server_request_new sr =
     (case server_calloc sizeof_server_request sr of
        (None, sr) \<Rightarrow> (None, sr)
      | (Some a, sr) \<Rightarrow>
         (case nabto_coap_server_next_message_id sr of
            (messageId, sr) \<Rightarrow>
              (Some a, update_request a (\<lambda>_. zero_server_request\<lparr>sq_response :=
                 zero_server_response\<lparr>sp_messageId := messageId, sp_block2Size := 5\<rparr>\<rparr>) sr)))"

text \<open>The resource of a message; the memory changes when the values of parameters are kept.  A server that was made has a root.\<close>

definition server_find_resource ::
  "coap_incoming_message \<Rightarrow> request_parameter list option \<Rightarrow> 'm server_requests \<Rightarrow>
   resource option \<times> request_parameter list option \<times> 'm server_requests" where
  "server_find_resource msg parameters sr =
     (case sv_root (sr_server sr) of
        None \<Rightarrow> (None, parameters, sr\<lparr>sr_nullAccess := True\<rparr>)
      | Some rootNode \<Rightarrow>
         (case nabto_coap_server_find_resource (sv_allocator (sr_server sr)) rootNode msg parameters (sr_memory sr) of
            (res, parameters, m) \<Rightarrow> (res, parameters, sr\<lparr>sr_memory := m\<rparr>)))"

definition deregister_observer :: "connection option \<Rightarrow> coap_token \<Rightarrow> 'm server_requests \<Rightarrow> 'm server_requests" where
  "deregister_observer connection token sr =
     (case find (\<lambda>o'. ob_connection (sr_observer sr o') = connection \<and>
          nabto_coap_token_equal (ob_token (sr_observer sr o')) token) (sr_observers sr) of
        None \<Rightarrow> sr
      | Some o' \<Rightarrow> nabto_coap_server_observer_free o' sr)"

definition nabto_coap_server_handle_new_request ::
  "coap_incoming_message \<Rightarrow> connection option \<Rightarrow> 'm server_requests \<Rightarrow> address option \<times> 'm server_requests" where
  "nabto_coap_server_handle_new_request msg connection sr =
     (case server_find_resource msg None sr of
        (None, _, sr) \<Rightarrow> (None, nabto_coap_server_make_error_response connection msg CODE_NOT_FOUND None sr)
      | (Some _, _, sr) \<Rightarrow>
         if sr_maxRequests sr \<le> sr_activeRequests sr
         then (None, nabto_coap_server_make_error_response connection msg CODE_SERVICE_UNAVAILABLE (Some outOfResources) sr)
         else
          (case nabto_coap_server_request_new sr of
             (None, sr) \<Rightarrow>
               (None, nabto_coap_server_make_error_response connection msg CODE_SERVICE_UNAVAILABLE (Some outOfResources) sr)
           | (Some a, sr) \<Rightarrow>
              (case server_find_resource msg (Some []) (sr\<lparr>sr_activeRequests := sr_activeRequests sr + 1\<rparr>) of
                 (found, parameters, sr) \<Rightarrow>
                  (let sr = update_request a (\<lambda>r. r\<lparr>sq_parameters := the parameters\<rparr>) sr
                   in case found of
                        None \<Rightarrow> (None, discard_request a (nabto_coap_server_make_error_response connection msg
                          CODE_SERVICE_UNAVAILABLE (Some outOfResources) sr))
                      | Some res \<Rightarrow>
                         (let sr = update_request a (\<lambda>r. r\<lparr>sq_connection := connection, sq_type := im_type msg,
                                sq_method := im_code msg, sq_token := im_token msg, sq_messageId := im_messageId msg,
                                sq_resource := Some res\<rparr>) sr;
                              sr = nabto_coap_server_request_arm_timeout a sr;
                              sr = (if im_hasObserve msg \<and> im_observe msg = 0 \<and> im_code msg = NABTO_COAP_CODE_GET
                                    then update_request a (\<lambda>r. r\<lparr>sq_isObserveRegister := True\<rparr>) sr else sr);
                              sr = (if im_hasObserve msg \<and> im_observe msg = 1 \<and> im_code msg = NABTO_COAP_CODE_GET
                                    then deregister_observer connection (im_token msg) sr else sr)
                          in (Some a, nabto_coap_server_insert_request_into_list a sr))))))"

section \<open>Acknowledgements and resets\<close>

definition nabto_coap_server_handle_ack :: "address \<Rightarrow> coap_incoming_message \<Rightarrow> 'm server_requests \<Rightarrow> 'm server_requests" where
  "nabto_coap_server_handle_ack a msg sr =
     (let response = sq_response (sr_request sr a)
      in if sp_messageId response \<noteq> im_messageId msg then sr
         else
          (let sr = update_response a (\<lambda>p. p\<lparr>sp_waitingForAck := False\<rparr>) sr
           in if sp_payloadLength response
                  \<le> unat (sp_block2Current response + 1) * nabto_coap_block_size_from_szx (sp_block2Size response)
              then done_request a sr
              else update_response a (\<lambda>p. p\<lparr>sp_retransmissions := 0, sp_timeout := transfer_deadline sr\<rparr>) sr))"

definition response_matches :: "u16 \<Rightarrow> connection option \<Rightarrow> server_request \<Rightarrow> bool" where
  "response_matches messageId connection r \<longleftrightarrow> nabto_coap_server_response_in_flight r \<and>
     sq_connection r = connection \<and> sp_messageId (sq_response r) = messageId"

definition notification_matches :: "u16 \<Rightarrow> connection option \<Rightarrow> server_observer \<Rightarrow> bool" where
  "notification_matches messageId connection ob \<longleftrightarrow> nabto_coap_server_observer_notification_in_flight ob \<and>
     ob_connection ob = connection \<and> ob_messageId ob = messageId"

definition nabto_coap_server_handle_rst :: "u16 \<Rightarrow> connection option \<Rightarrow> 'm server_requests \<Rightarrow> 'm server_requests" where
  "nabto_coap_server_handle_rst messageId connection sr =
     (case find (\<lambda>a. response_matches messageId connection (sr_request sr a)) (sr_requests sr) of
        Some a \<Rightarrow> done_request a sr
      | None \<Rightarrow>
         (case find (\<lambda>o'. notification_matches messageId connection (sr_observer sr o')) (sr_observers sr) of
            Some o' \<Rightarrow> nabto_coap_server_observer_free o' sr
          | None \<Rightarrow> sr))"

definition nabto_coap_server_find_request :: "coap_token \<Rightarrow> connection option \<Rightarrow> 'm server_requests \<Rightarrow> address option" where
  "nabto_coap_server_find_request token connection sr =
     find (\<lambda>a. nabto_coap_token_equal (sq_token (sr_request sr a)) token \<and> connection = sq_connection (sr_request sr a))
       (sr_requests sr)"

definition nabto_coap_server_find_response :: "u16 \<Rightarrow> connection option \<Rightarrow> 'm server_requests \<Rightarrow> address option" where
  "nabto_coap_server_find_response messageId connection sr =
     find (\<lambda>a. response_matches messageId connection (sr_request sr a)) (sr_requests sr)"

text \<open>The acknowledgement of a notification.\<close>

definition notification_acked :: "address \<Rightarrow> 'm server_requests \<Rightarrow> 'm server_requests" where
  "notification_acked o' sr =
     (let sr = server_free_owned (ob_payload (sr_observer sr o')) sr;
          sr = update_observer o' (\<lambda>ob. ob\<lparr>ob_payload := None, ob_sendNow := False, ob_waitingForAck := False\<rparr>) sr
      in if ob_pendingValid (sr_observer sr o')
         then server_notify (nabto_coap_server_observer_promote_pending o' sr) else sr)"

section \<open>Packets\<close>

text \<open>A message of a request that was seen before is acknowledged again.\<close>

definition duplicate_request :: "address \<Rightarrow> coap_incoming_message \<Rightarrow> connection option \<Rightarrow> 'm server_requests \<Rightarrow> 'm server_requests" where
  "duplicate_request a msg connection sr =
     (if im_type msg \<noteq> CON then sr
      else if sq_state (sr_request sr a) = STATE_REQUEST \<and> NABTO_COAP_BLOCK_MORE (sq_block1Ack (sr_request sr a))
      then nabto_coap_server_request_arm_timeout a (update_request a (\<lambda>r. r\<lparr>sq_hasBlock1Ack := True\<rparr>) sr)
      else nabto_coap_server_queue_ack connection (im_messageId msg) sr)"

definition handle_data ::
  "address \<Rightarrow> coap_incoming_message \<Rightarrow> 'm server_requests \<Rightarrow> handler_call option \<times> 'm server_requests" where
  "handle_data a msg sr =
     (if sq_state (sr_request sr a) = STATE_REQUEST then nabto_coap_server_handle_data_for_request a msg sr
      else if sq_state (sr_request sr a) = STATE_RESPONSE then (None, nabto_coap_server_handle_data_for_response a msg sr)
      else (None, sr))"

definition handle_request_message ::
  "coap_incoming_message \<Rightarrow> connection option \<Rightarrow> 'm server_requests \<Rightarrow> handler_call option \<times> 'm server_requests" where
  "handle_request_message msg connection sr =
     (case nabto_coap_server_find_request (im_token msg) connection sr of
        Some a \<Rightarrow>
          if sq_messageId (sr_request sr a) = im_messageId msg then (None, duplicate_request a msg connection sr)
          else handle_data a msg sr
      | None \<Rightarrow>
         (case nabto_coap_server_handle_new_request msg connection sr of
            (None, sr) \<Rightarrow> (None, sr)
          | (Some a, sr) \<Rightarrow> handle_data a msg sr))"

definition handle_ack_message :: "coap_incoming_message \<Rightarrow> connection option \<Rightarrow> 'm server_requests \<Rightarrow> 'm server_requests" where
  "handle_ack_message msg connection sr =
     (case nabto_coap_server_find_response (im_messageId msg) connection sr of
        Some a \<Rightarrow> nabto_coap_server_handle_ack a msg sr
      | None \<Rightarrow>
         (case find (\<lambda>o'. notification_matches (im_messageId msg) connection (sr_observer sr o')) (sr_observers sr) of
            Some o' \<Rightarrow> notification_acked o' sr
          | None \<Rightarrow> sr))"

definition nabto_coap_server_handle_packet ::
  "connection option \<Rightarrow> bytes \<Rightarrow> 'm server_requests \<Rightarrow> handler_call option \<times> 'm server_requests" where
  "nabto_coap_server_handle_packet connection packet sr =
     (case nabto_coap_parse_message packet of
        None \<Rightarrow> (None, sr)
      | Some msg \<Rightarrow>
         if im_type msg = CON \<or> im_type msg = NON then
          (if \<not> nabto_coap_server_validate_critical_options msg then
            (None,
             if im_type msg = CON
             then nabto_coap_server_make_error_response connection msg CODE_BAD_OPTION (Some unsupportedCriticalOption) sr
             else nabto_coap_server_queue_rst connection (im_messageId msg) sr)
           else handle_request_message msg connection sr)
         else if im_type msg = ACK then (None, handle_ack_message msg connection sr)
         else (None, nabto_coap_server_handle_rst (im_messageId msg) connection sr))"

end
