(* ===== verification/Coap_Server_Blocks.thy ===== *)
theory Coap_Server_Blocks
  imports Coap_Router_Memory Coap_Server_Incoming
begin

text \<open>
  The memory of the CoAP server.  A requests context owns its two sentinels, its requests and observers with
  the blocks of their payloads and parameters, and the tree of resources.  In the middle of an operation there are
  blocks that no object has yet, or has no longer; every step is an exchange between these and the objects.
\<close>

section \<open>Blocks\<close>

definition opt_block :: "address option \<Rightarrow> address list" where
  "opt_block p = (case p of None \<Rightarrow> [] | Some a \<Rightarrow> [a])"

lemma opt_block_simps [simp]: "opt_block None = []" "opt_block (Some a) = [a]"
  by (simp_all add: opt_block_def)

lemma owned_blocks_simps [simp]: "owned_blocks None = []" "owned_blocks (Some (p, bs)) = [p]"
  by (simp_all add: owned_blocks_def)

definition server_response_blocks :: "server_response \<Rightarrow> address list" where
  "server_response_blocks p = (if sp_staticPayload p then [] else owned_blocks (sp_payload p))"

definition server_request_blocks :: "server_request \<Rightarrow> address list" where
  "server_request_blocks r = owned_blocks (sq_payload r) @ server_response_blocks (sq_response r) @ parameters_blocks (sq_parameters r)"

definition observer_blocks :: "server_observer \<Rightarrow> address list" where
  "observer_blocks ob = owned_blocks (ob_payload ob) @ owned_blocks (ob_pendingPayload ob)"

definition root_blocks :: "router_node option \<Rightarrow> address list" where
  "root_blocks rootNode = (case rootNode of None \<Rightarrow> [] | Some node \<Rightarrow> router_blocks node)"

definition server_blocks :: "'m server_requests \<Rightarrow> address list" where
  "server_blocks sr = opt_block (sr_requestsSentinel sr) @ opt_block (sr_observersSentinel sr) @
     root_blocks (sv_root (sr_server sr)) @ sr_requests sr @ sr_observers sr @
     concat (map (\<lambda>a. server_request_blocks (sr_request sr a)) (sr_requests sr)) @
     concat (map (\<lambda>o'. observer_blocks (sr_observer sr o')) (sr_observers sr))"

text \<open>\<open>extra\<close> are the blocks in the hands of the operation.\<close>

definition server_holds :: "('m \<Rightarrow> address set) \<Rightarrow> address set \<Rightarrow> address list \<Rightarrow> 'm server_requests \<Rightarrow> bool" where
  "server_holds live F extra sr \<longleftrightarrow> owned live F (extra @ server_blocks sr) (sr_memory sr) \<and>
     allocator_ok (sv_allocator (sr_server sr)) live \<and> (\<forall>m. live (sr_notifyEvent sr m) = live m)"

text \<open>The counters, the pointers to observers and the partial bodies; \<open>k\<close> requests are being made.\<close>

definition server_shape :: "nat \<Rightarrow> 'm server_requests \<Rightarrow> bool" where
  "server_shape k sr \<longleftrightarrow> sr_activeRequests sr = length (sr_requests sr) + k \<and>
     sr_activeObservers sr = length (sr_observers sr) \<and>
     (\<forall>a\<in>set (sr_requests sr). (\<forall>o'. sq_observer (sr_request sr a) = Some o' \<longrightarrow> o' \<in> set (sr_observers sr)) \<and>
        (sq_state (sr_request sr a) = STATE_REQUEST \<longrightarrow> 0 < sq_payloadLength (sr_request sr a) \<or> sq_payload (sr_request sr a) = None)) \<and>
     (\<forall>node. sv_root (sr_server sr) = Some node \<longrightarrow> tree_ok node)"

definition server_ok :: "('m \<Rightarrow> address set) \<Rightarrow> address set \<Rightarrow> nat \<Rightarrow> address list \<Rightarrow> 'm server_requests \<Rightarrow> bool" where
  "server_ok live F k extra sr \<longleftrightarrow> server_holds live F extra sr \<and> server_shape k sr"

lemma server_ok_perm: "server_ok live F k extra sr \<Longrightarrow> mset extra = mset extra' \<Longrightarrow> server_ok live F k extra' sr"
  unfolding server_ok_def server_holds_def
  using owned_perm [of live F "extra @ server_blocks sr" "sr_memory sr" "extra' @ server_blocks sr"] by auto

lemma server_ok_distinct:
  assumes "server_ok live F k extra sr"
  shows "distinct (sr_requests sr)" "distinct (sr_observers sr)"
    "p \<in> set extra \<Longrightarrow> p \<notin> set (sr_requests sr) \<and> p \<notin> set (sr_observers sr)"
  using assms by (auto simp: server_ok_def server_holds_def owned_def server_blocks_def)

section \<open>Steps\<close>

lemma server_ok_free:
  assumes "server_ok live F k (p # extra) sr"
  shows "server_ok live F k extra (server_free p sr)"
proof -
  have "owned live F (extra @ server_blocks sr) (sr_memory (server_free p sr))"
    using assms owned_free [of "sv_allocator (sr_server sr)" live F p "extra @ server_blocks sr" "sr_memory sr"]
    by (simp add: server_ok_def server_holds_def server_free_def)
  then show ?thesis using assms
    by (simp add: server_ok_def server_holds_def server_free_def server_shape_def server_blocks_def)
qed

lemma server_ok_free_owned:
  "server_ok live F k (owned_blocks payload @ extra) sr \<Longrightarrow> server_ok live F k extra (server_free_owned payload sr)"
  by (auto simp: server_free_owned_def intro: server_ok_free split: option.splits)

lemma server_ok_calloc:
  assumes "server_ok live F k extra sr" "server_calloc sz sr = (q, sr')"
  shows "server_ok live F k (opt_block q @ extra) sr'" "sr' = sr\<lparr>sr_memory := sr_memory sr'\<rparr>"
proof -
  obtain m where m: "nn_allocator_calloc (sv_allocator (sr_server sr)) 1 sz (sr_memory sr) = (q, m)" "sr' = sr\<lparr>sr_memory := m\<rparr>"
    using assms(2) by (auto simp: server_calloc_def split: prod.splits)
  show "sr' = sr\<lparr>sr_memory := sr_memory sr'\<rparr>" by (simp add: m(2))
  have "owned live F (opt_block q @ extra @ server_blocks sr) m"
    using assms(1) owned_calloc [OF _ _ m(1), of live F "extra @ server_blocks sr"]
    by (cases q) (auto simp: server_ok_def server_holds_def)
  then show "server_ok live F k (opt_block q @ extra) sr'" using assms(1)
    by (simp add: m(2) server_ok_def server_holds_def server_shape_def server_blocks_def)
qed

lemma server_ok_notify: "server_ok live F k extra sr \<Longrightarrow> server_ok live F k extra (server_notify sr)"
  by (simp add: server_ok_def server_holds_def server_shape_def server_notify_def server_blocks_def owned_def)

lemma concat_map_upd:
  assumes "distinct as" "a \<in> set as" "mset (e' @ g (h a)) = mset (e @ g (s a))"
  shows "mset (e' @ concat (map (\<lambda>x. g ((s(a := h a)) x)) as)) = mset (e @ concat (map (\<lambda>x. g (s x)) as))"
proof -
  obtain xs ys where as: "as = xs @ a # ys" "a \<notin> set xs" "a \<notin> set ys"
    using assms(1,2) by (metis distinct.simps(2) distinct_append not_distinct_conv_prefix split_list disjoint_insert(1) list.simps(15))
  have "map (\<lambda>x. g ((s(a := h a)) x)) xs = map (\<lambda>x. g (s x)) xs" "map (\<lambda>x. g ((s(a := h a)) x)) ys = map (\<lambda>x. g (s x)) ys"
    using as(2,3) by auto
  then have "concat (map (\<lambda>x. g ((s(a := h a)) x)) (xs @ a # ys)) =
      concat (map (\<lambda>x. g (s x)) xs) @ g (h a) @ concat (map (\<lambda>x. g (s x)) ys)"
    by (simp only: map_append list.map concat_append concat.simps fun_upd_same)
  moreover have "mset e' + mset (g (h a)) + (X + Y) = mset e + mset (g (s a)) + (X + Y)" for X Y
    using assms(3) by (simp only: mset_append)
  ultimately show ?thesis unfolding as(1) by (simp add: ac_simps del: fun_upd_apply)
qed

lemma server_ok_request:
  assumes "server_ok live F k extra sr" "a \<in> set (sr_requests sr)"
    "mset (extra' @ server_request_blocks (f (sr_request sr a))) = mset (extra @ server_request_blocks (sr_request sr a))"
    "\<And>o'. sq_observer (f (sr_request sr a)) = Some o' \<Longrightarrow> sq_observer (sr_request sr a) = Some o' \<or> o' \<in> set (sr_observers sr)"
    "sq_state (f (sr_request sr a)) = STATE_REQUEST \<Longrightarrow>
       0 < sq_payloadLength (f (sr_request sr a)) \<or> sq_payload (f (sr_request sr a)) = None"
  shows "server_ok live F k extra' (update_request a f sr)"
proof -
  have "mset (extra' @ server_blocks (update_request a f sr)) = mset (extra @ server_blocks sr)"
    using concat_map_upd [OF server_ok_distinct(1) [OF assms(1)] assms(2),
        of extra' server_request_blocks "\<lambda>a. f (sr_request sr a)" extra "sr_request sr"] assms(3)
    by (simp add: server_blocks_def update_request_def ac_simps)
  then have "owned live F (extra' @ server_blocks (update_request a f sr)) (sr_memory sr)"
    using assms(1) owned_perm unfolding server_ok_def server_holds_def by metis
  moreover have "server_shape k (update_request a f sr)"
    using assms(1,2,4,5) by (auto simp: server_ok_def server_shape_def update_request_def)
  ultimately show ?thesis using assms(1)
    by (simp add: server_ok_def server_holds_def update_request_def)
qed

lemma server_ok_request_same:
  assumes "server_ok live F k extra sr" "a \<in> set (sr_requests sr)"
    "server_request_blocks (f (sr_request sr a)) = server_request_blocks (sr_request sr a)"
    "sq_observer (f (sr_request sr a)) = sq_observer (sr_request sr a)"
    "sq_state (f (sr_request sr a)) = STATE_REQUEST \<Longrightarrow> sq_state (sr_request sr a) = STATE_REQUEST"
    "sq_payload (f (sr_request sr a)) = sq_payload (sr_request sr a)"
  shows "server_ok live F k extra (update_request a f sr)"
proof (rule server_ok_request [OF assms(1,2)])
  show "mset (extra @ server_request_blocks (f (sr_request sr a))) = mset (extra @ server_request_blocks (sr_request sr a))"
    using assms(3) by simp
qed (use assms in \<open>auto simp: server_ok_def server_shape_def\<close>)

lemma server_ok_other_request:
  assumes "a \<notin> set (sr_requests sr)"
  shows "server_ok live F k extra (update_request a f sr) = server_ok live F k extra sr"
proof -
  have "concat (map (\<lambda>x. server_request_blocks (if x = a then f (sr_request sr a) else sr_request sr x)) (sr_requests sr)) =
      concat (map (\<lambda>x. server_request_blocks (sr_request sr x)) (sr_requests sr))"
    using assms by (intro arg_cong [where f = concat] map_cong) auto
  then have "server_blocks (update_request a f sr) = server_blocks sr"
    by (simp add: server_blocks_def update_request_def)
  moreover have "server_shape k (update_request a f sr) = server_shape k sr"
    using assms by (auto simp: server_shape_def update_request_def)
  ultimately show ?thesis by (simp add: server_ok_def server_holds_def update_request_def)
qed

lemma server_ok_observer:
  assumes "server_ok live F k extra sr" "o' \<in> set (sr_observers sr)"
    "mset (extra' @ observer_blocks (f (sr_observer sr o'))) = mset (extra @ observer_blocks (sr_observer sr o'))"
  shows "server_ok live F k extra' (update_observer o' f sr)"
proof -
  have "mset (extra' @ server_blocks (update_observer o' f sr)) = mset (extra @ server_blocks sr)"
    using concat_map_upd [OF server_ok_distinct(2) [OF assms(1)] assms(2),
        of extra' observer_blocks "\<lambda>a. f (sr_observer sr a)" extra "sr_observer sr"] assms(3)
    by (simp add: server_blocks_def update_observer_def ac_simps)
  then have "owned live F (extra' @ server_blocks (update_observer o' f sr)) (sr_memory sr)"
    using assms(1) owned_perm unfolding server_ok_def server_holds_def by metis
  moreover have "server_shape k (update_observer o' f sr)"
    using assms(1) by (auto simp: server_ok_def server_shape_def update_observer_def)
  ultimately show ?thesis using assms(1)
    by (simp add: server_ok_def server_holds_def update_observer_def)
qed

lemma server_ok_other_observer:
  assumes "o' \<notin> set (sr_observers sr)"
  shows "server_ok live F k extra (update_observer o' f sr) = server_ok live F k extra sr"
proof -
  have "concat (map (\<lambda>x. observer_blocks (if x = o' then f (sr_observer sr o') else sr_observer sr x)) (sr_observers sr)) =
      concat (map (\<lambda>x. observer_blocks (sr_observer sr x)) (sr_observers sr))"
    using assms by (intro arg_cong [where f = concat] map_cong) auto
  then have "server_blocks (update_observer o' f sr) = server_blocks sr"
    by (simp add: server_blocks_def update_observer_def)
  moreover have "server_shape k (update_observer o' f sr) = server_shape k sr"
    by (auto simp: server_shape_def update_observer_def)
  ultimately show ?thesis by (simp add: server_ok_def server_holds_def update_observer_def)
qed

text \<open>Fields that have nothing to do with memory.\<close>

lemma server_ok_fields [simp]:
  "server_ok live F k extra (sr\<lparr>sr_messageId := v1\<rparr>) = server_ok live F k extra sr"
  "server_ok live F k extra (sr\<lparr>sr_errorConnection := v2\<rparr>) = server_ok live F k extra sr"
  "server_ok live F k extra (sr\<lparr>sr_errorType := v3\<rparr>) = server_ok live F k extra sr"
  "server_ok live F k extra (sr\<lparr>sr_errorCode := v4\<rparr>) = server_ok live F k extra sr"
  "server_ok live F k extra (sr\<lparr>sr_errorToken := v5\<rparr>) = server_ok live F k extra sr"
  "server_ok live F k extra (sr\<lparr>sr_errorMessageId := v6\<rparr>) = server_ok live F k extra sr"
  "server_ok live F k extra (sr\<lparr>sr_errorPayload := v7\<rparr>) = server_ok live F k extra sr"
  "server_ok live F k extra (sr\<lparr>sr_ackMessageId := v8\<rparr>) = server_ok live F k extra sr"
  "server_ok live F k extra (sr\<lparr>sr_ackConnection := v9\<rparr>) = server_ok live F k extra sr"
  "server_ok live F k extra (sr\<lparr>sr_rstMessageId := v10\<rparr>) = server_ok live F k extra sr"
  "server_ok live F k extra (sr\<lparr>sr_rstConnection := v11\<rparr>) = server_ok live F k extra sr"
  "server_ok live F k extra (sr\<lparr>sr_maxRequests := v12\<rparr>) = server_ok live F k extra sr"
  "server_ok live F k extra (sr\<lparr>sr_maxRequestPayload := v13\<rparr>) = server_ok live F k extra sr"
  "server_ok live F k extra (sr\<lparr>sr_maxObservers := v14\<rparr>) = server_ok live F k extra sr"
  "server_ok live F k extra (sr\<lparr>sr_nullAccess := v15\<rparr>) = server_ok live F k extra sr"
  by (simp_all add: server_ok_def server_holds_def server_shape_def server_blocks_def)

lemma server_ok_active:
  "server_ok live F (Suc k) extra sr \<Longrightarrow> server_ok live F k extra (sr\<lparr>sr_activeRequests := sr_activeRequests sr - 1\<rparr>)"
  "server_ok live F k extra sr \<Longrightarrow> server_ok live F (Suc k) extra (sr\<lparr>sr_activeRequests := sr_activeRequests sr + 1\<rparr>)"
  by (auto simp: server_ok_def server_holds_def server_shape_def server_blocks_def)

end
