(* ===== verification/Coap_Server_Memory.thy ===== *)
theory Coap_Server_Memory
  imports Coap_Server_Blocks
begin

text \<open>
  Every operation of the CoAP server keeps its objects and its memory together.
\<close>

section \<open>What an operation leaves alone\<close>

lemma server_free_fields [simp]:
  "sr_server (server_free p sr) = sr_server sr"
  "sr_requests (server_free p sr) = sr_requests sr"
  "sr_request (server_free p sr) = sr_request sr"
  "sr_observers (server_free p sr) = sr_observers sr"
  "sr_observer (server_free p sr) = sr_observer sr"
  "sr_maxObservers (server_free p sr) = sr_maxObservers sr"
  "sr_activeObservers (server_free p sr) = sr_activeObservers sr"
  "sr_activeRequests (server_free p sr) = sr_activeRequests sr"
  "sr_nullAccess (server_free p sr) = sr_nullAccess sr"
  by (simp_all add: server_free_def)

lemma server_free_owned_fields [simp]:
  "sr_server (server_free_owned payload sr) = sr_server sr"
  "sr_requests (server_free_owned payload sr) = sr_requests sr"
  "sr_request (server_free_owned payload sr) = sr_request sr"
  "sr_observers (server_free_owned payload sr) = sr_observers sr"
  "sr_observer (server_free_owned payload sr) = sr_observer sr"
  "sr_activeObservers (server_free_owned payload sr) = sr_activeObservers sr"
  "sr_activeRequests (server_free_owned payload sr) = sr_activeRequests sr"
  "sr_nullAccess (server_free_owned payload sr) = sr_nullAccess sr"
  by (simp_all add: server_free_owned_def split: option.splits)

lemma server_notify_fields [simp]:
  "sr_server (server_notify sr) = sr_server sr"
  "sr_requests (server_notify sr) = sr_requests sr"
  "sr_request (server_notify sr) = sr_request sr"
  "sr_observers (server_notify sr) = sr_observers sr"
  "sr_observer (server_notify sr) = sr_observer sr"
  by (simp_all add: server_notify_def)

lemma update_request_fields [simp]:
  "sr_server (update_request a f sr) = sr_server sr"
  "sr_requests (update_request a f sr) = sr_requests sr"
  "sr_request (update_request a f sr) = (sr_request sr)(a := f (sr_request sr a))"
  "sr_observers (update_request a f sr) = sr_observers sr"
  "sr_observer (update_request a f sr) = sr_observer sr"
  "sr_messageId (update_request a f sr) = sr_messageId sr"
  "sr_maxRequestPayload (update_request a f sr) = sr_maxRequestPayload sr"
  "sr_activeRequests (update_request a f sr) = sr_activeRequests sr"
  "sr_nullAccess (update_request a f sr) = sr_nullAccess sr"
  by (simp_all add: update_request_def)

lemma update_response_fields [simp]:
  "sr_server (update_response a g sr) = sr_server sr"
  "sr_requests (update_response a g sr) = sr_requests sr"
  "sr_request (update_response a g sr) =
     (sr_request sr)(a := (sr_request sr a)\<lparr>sq_response := g (sq_response (sr_request sr a))\<rparr>)"
  "sr_observers (update_response a g sr) = sr_observers sr"
  "sr_observer (update_response a g sr) = sr_observer sr"
  "sr_nullAccess (update_response a g sr) = sr_nullAccess sr"
  by (simp_all add: update_response_def)

lemma update_observer_fields [simp]:
  "sr_server (update_observer o' f sr) = sr_server sr"
  "sr_requests (update_observer o' f sr) = sr_requests sr"
  "sr_request (update_observer o' f sr) = sr_request sr"
  "sr_observers (update_observer o' f sr) = sr_observers sr"
  "sr_observer (update_observer o' f sr) = (sr_observer sr)(o' := f (sr_observer sr o'))"
  "sr_messageId (update_observer o' f sr) = sr_messageId sr"
  by (simp_all add: update_observer_def)

lemma free_commutes:
  "update_request a f (server_free_owned payload sr) = server_free_owned payload (update_request a f sr)"
  "update_response a g (server_free_owned payload sr) = server_free_owned payload (update_response a g sr)"
  "update_observer o' h (server_free_owned payload sr) = server_free_owned payload (update_observer o' h sr)"
  by (simp_all add: server_free_owned_def server_free_def update_request_def update_response_def update_observer_def
      split: option.splits)

lemma next_message_id_eq: "nabto_coap_server_next_message_id sr = (sr_messageId sr + 1, sr\<lparr>sr_messageId := sr_messageId sr + 1\<rparr>)"
  by (simp add: nabto_coap_server_next_message_id_def)

section \<open>Requests\<close>

lemma server_ok_response_same:
  assumes "server_ok live F k extra sr" "a \<in> set (sr_requests sr)"
    "server_response_blocks (g (sq_response (sr_request sr a))) = server_response_blocks (sq_response (sr_request sr a))"
  shows "server_ok live F k extra (update_response a g sr)"
  unfolding update_response_def
  by (rule server_ok_request_same [OF assms(1,2)]) (use assms(3) in \<open>simp_all add: server_request_blocks_def\<close>)

lemma release_eq:
  "nabto_coap_server_response_release_payload a sr =
     server_free_owned (if sp_staticPayload (sq_response (sr_request sr a)) then None else sp_payload (sq_response (sr_request sr a)))
       (update_response a (\<lambda>p. p\<lparr>sp_payload := None, sp_staticPayload := False\<rparr>) sr)"
  by (auto simp: nabto_coap_server_response_release_payload_def Let_def free_commutes)
    (auto simp: server_free_owned_def split: option.splits)

lemma release_fields [simp]:
  "sr_server (nabto_coap_server_response_release_payload a sr) = sr_server sr"
  "sr_nullAccess (nabto_coap_server_response_release_payload a sr) = sr_nullAccess sr"
  "sr_requests (nabto_coap_server_response_release_payload a sr) = sr_requests sr"
  "sr_observers (nabto_coap_server_response_release_payload a sr) = sr_observers sr"
  "sr_observer (nabto_coap_server_response_release_payload a sr) = sr_observer sr"
  "sr_request (nabto_coap_server_response_release_payload a sr) =
     (sr_request sr)(a := (sr_request sr a)\<lparr>sq_response := (sq_response (sr_request sr a))\<lparr>sp_payload := None, sp_staticPayload := False\<rparr>\<rparr>)"
  by (simp_all add: release_eq)

lemma server_ok_release:
  assumes "server_ok live F k extra sr" "a \<in> set (sr_requests sr)"
  shows "server_ok live F k extra (nabto_coap_server_response_release_payload a sr)"
proof -
  let ?p = "sq_response (sr_request sr a)"
  have "server_ok live F k (owned_blocks (if sp_staticPayload ?p then None else sp_payload ?p) @ extra)
      (update_response a (\<lambda>p. p\<lparr>sp_payload := None, sp_staticPayload := False\<rparr>) sr)"
    unfolding update_response_def
    by (rule server_ok_request [OF assms])
      (use assms in \<open>auto simp: server_request_blocks_def server_response_blocks_def server_ok_def server_shape_def\<close>)
  then show ?thesis unfolding release_eq by (rule server_ok_free_owned)
qed

lemma server_ok_release_other:
  assumes "server_ok live F k (server_response_blocks (sq_response (sr_request sr a)) @ extra) sr" "a \<notin> set (sr_requests sr)"
  shows "server_ok live F k extra (nabto_coap_server_response_release_payload a sr)"
proof -
  let ?p = "sq_response (sr_request sr a)"
  have "server_ok live F k (owned_blocks (if sp_staticPayload ?p then None else sp_payload ?p) @ extra)
      (update_response a (\<lambda>p. p\<lparr>sp_payload := None, sp_staticPayload := False\<rparr>) sr)"
    using assms unfolding update_response_def
    by (cases "sp_staticPayload ?p") (auto simp: server_ok_other_request server_response_blocks_def)
  then show ?thesis unfolding release_eq by (rule server_ok_free_owned)
qed

lemma server_ok_free_parameters:
  "server_ok live F k (parameters_blocks ps @ extra) sr \<Longrightarrow> server_ok live F k extra (free_parameters_loop ps sr)"
proof (induction ps arbitrary: sr)
  case (Cons p ps)
  have "server_ok live F k (fst (pm_value p) # pm_address p # parameters_blocks ps @ extra) sr"
    by (rule server_ok_perm [OF Cons(2)]) simp
  from Cons(1) [OF server_ok_free [OF server_ok_free [OF this]]] show ?case by simp
qed simp

lemma free_parameters_fields [simp]:
  "sr_requests (free_parameters_loop ps sr) = sr_requests sr"
  "sr_request (free_parameters_loop ps sr) = sr_request sr"
  "sr_observers (free_parameters_loop ps sr) = sr_observers sr"
  "sr_observer (free_parameters_loop ps sr) = sr_observer sr"
  "sr_server (free_parameters_loop ps sr) = sr_server sr"
  "sr_nullAccess (free_parameters_loop ps sr) = sr_nullAccess sr"
  by (induction ps arbitrary: sr) auto

lemma concat_map_remove:
  "a \<in> set as \<Longrightarrow> mset (concat (map g as)) = mset (g a @ concat (map g (remove1 a as)))"
  by (induction as) auto

lemma server_ok_remove:
  assumes "server_ok live F k extra sr" "a \<in> set (sr_requests sr)"
  shows "server_ok live F (Suc k) (a # server_request_blocks (sr_request sr a) @ extra)
    (nabto_coap_server_remove_request_from_list a sr)"
proof -
  let ?sr = "sr\<lparr>sr_requests := remove1 a (sr_requests sr)\<rparr>"
  have "mset (extra @ server_blocks sr) = mset ((a # server_request_blocks (sr_request sr a) @ extra) @ server_blocks ?sr)"
    using assms(2) concat_map_remove [OF assms(2), of "\<lambda>a. server_request_blocks (sr_request sr a)"]
    by (simp add: server_blocks_def ac_simps)
  moreover have "server_shape (Suc k) ?sr"
    using assms set_remove1_subset [of a "sr_requests sr"] length_pos_if_in_set [OF assms(2)]
    unfolding server_ok_def server_shape_def by (simp add: length_remove1 subset_iff) blast
  moreover have "owned live F (extra @ server_blocks sr) (sr_memory sr)"
    using assms(1) by (simp add: server_ok_def server_holds_def)
  ultimately have "owned live F ((a # server_request_blocks (sr_request sr a) @ extra) @ server_blocks ?sr) (sr_memory sr)"
    and "server_shape (Suc k) ?sr" by (blast intro: owned_perm)+
  then show ?thesis using assms
    by (simp add: server_ok_def server_holds_def nabto_coap_server_remove_request_from_list_def)
qed

lemma server_ok_insert:
  assumes "server_ok live F (Suc k) (a # server_request_blocks (sr_request sr a) @ extra) sr"
    "\<And>o'. sq_observer (sr_request sr a) = Some o' \<Longrightarrow> o' \<in> set (sr_observers sr)"
    "0 < sq_payloadLength (sr_request sr a) \<or> sq_payload (sr_request sr a) = None"
  shows "server_ok live F k extra (nabto_coap_server_insert_request_into_list a sr)"
proof -
  let ?sr = "sr\<lparr>sr_requests := a # sr_requests sr\<rparr>"
  have "mset ((a # server_request_blocks (sr_request sr a) @ extra) @ server_blocks sr) = mset (extra @ server_blocks ?sr)"
    by (simp add: server_blocks_def ac_simps)
  moreover have "server_shape k ?sr" using assms by (auto simp: server_ok_def server_shape_def)
  moreover have "owned live F ((a # server_request_blocks (sr_request sr a) @ extra) @ server_blocks sr) (sr_memory sr)"
    using assms(1) by (simp add: server_ok_def server_holds_def)
  ultimately have "owned live F (extra @ server_blocks ?sr) (sr_memory sr)" and "server_shape k ?sr"
    by (blast intro: owned_perm)+
  then show ?thesis using assms(1)
    by (simp add: server_ok_def server_holds_def nabto_coap_server_insert_request_into_list_def)
qed

lemma free_tail:
  assumes "server_ok live F (Suc k) (a # server_request_blocks r @ extra) sr" "r = sr_request sr a"
  shows "server_ok live F k extra
    (let sr = server_free_owned (sq_payload r) sr;
         sr = nabto_coap_server_response_release_payload a sr;
         sr = free_parameters_loop (sq_parameters r) sr;
         sr = server_free a sr
     in sr\<lparr>sr_activeRequests := sr_activeRequests sr - 1\<rparr>)"
proof -
  have out: "a \<notin> set (sr_requests sr)" using server_ok_distinct(3) [OF assms(1), of a] by simp
  have "server_ok live F (Suc k) (owned_blocks (sq_payload r) @ server_response_blocks (sq_response r) @ parameters_blocks (sq_parameters r) @ a # extra) sr"
    by (rule server_ok_perm [OF assms(1)]) (simp add: server_request_blocks_def)
  from server_ok_free_owned [OF this]
  have "server_ok live F (Suc k) (parameters_blocks (sq_parameters r) @ a # extra)
      (nabto_coap_server_response_release_payload a (server_free_owned (sq_payload r) sr))"
    using out assms(2) by (intro server_ok_release_other) auto
  from server_ok_active(1) [OF server_ok_free [OF server_ok_free_parameters [OF this]]]
  show ?thesis by (simp add: Let_def)
qed

lemma server_ok_free_request:
  assumes "server_ok live F k extra sr" "a \<in> set (sr_requests sr)"
  shows "server_ok live F k extra (nabto_coap_server_free_request a sr)"
proof (cases "\<not> sq_isFreed (sr_request sr a) \<or> sq_state (sr_request sr a) \<noteq> STATE_DONE")
  case True
  then show ?thesis using assms(1) by (simp add: nabto_coap_server_free_request_def)
next
  case False
  have "sr_request (nabto_coap_server_remove_request_from_list a sr) a = sr_request sr a"
    by (simp add: nabto_coap_server_remove_request_from_list_def)
  from free_tail [OF server_ok_remove [OF assms], OF this [symmetric]] False show ?thesis
    by (simp add: nabto_coap_server_free_request_def Let_def)
qed

lemma server_ok_free_unlisted:
  assumes "server_ok live F (Suc k) (a # server_request_blocks (sr_request sr a) @ extra) sr"
    "sq_isFreed (sr_request sr a)" "sq_state (sr_request sr a) = STATE_DONE"
  shows "server_ok live F k extra (nabto_coap_server_free_request a sr)"
    "sr_nullAccess (nabto_coap_server_free_request a sr)"
proof -
  have out: "a \<notin> set (sr_requests sr)" using server_ok_distinct(3) [OF assms(1), of a] by simp
  have e: "nabto_coap_server_remove_request_from_list a sr = sr\<lparr>sr_nullAccess := True\<rparr>"
    using out by (simp add: nabto_coap_server_remove_request_from_list_def)
  show "server_ok live F k extra (nabto_coap_server_free_request a sr)"
  proof -
    have n: "server_ok live F (Suc k) (a # server_request_blocks (sr_request sr a) @ extra) (sr\<lparr>sr_nullAccess := True\<rparr>)"
      using assms(1) by simp
    have "sr_request sr a = sr_request (sr\<lparr>sr_nullAccess := True\<rparr>) a" by simp
    from free_tail [OF n this] show ?thesis
      unfolding nabto_coap_server_free_request_def Let_def e using assms(2,3) by simp
  qed
  show "sr_nullAccess (nabto_coap_server_free_request a sr)"
    using assms(2,3) by (simp add: nabto_coap_server_free_request_def Let_def e)
qed

lemma server_ok_done_request:
  assumes "server_ok live F k extra sr" "a \<in> set (sr_requests sr)"
  shows "server_ok live F k extra (done_request a sr)"
  unfolding done_request_def
  by (intro server_ok_free_request server_ok_request_same)
    (use assms in \<open>auto simp: server_request_blocks_def\<close>)

lemma server_ok_discard_request:
  assumes "server_ok live F k extra sr" "a \<in> set (sr_requests sr)"
  shows "server_ok live F k extra (discard_request a sr)"
  unfolding discard_request_def
  by (intro server_ok_free_request server_ok_request_same)
    (use assms in \<open>auto simp: server_request_blocks_def\<close>)

lemma remove_request_fields [simp]:
  "sr_observers (nabto_coap_server_remove_request_from_list a sr) = sr_observers sr"
  "sr_observer (nabto_coap_server_remove_request_from_list a sr) = sr_observer sr"
  "sr_server (nabto_coap_server_remove_request_from_list a sr) = sr_server sr"
  "sr_request (nabto_coap_server_remove_request_from_list a sr) = sr_request sr"
  by (simp_all add: nabto_coap_server_remove_request_from_list_def)

lemma free_request_fields [simp]:
  "sr_observers (nabto_coap_server_free_request a sr) = sr_observers sr"
  "sr_observer (nabto_coap_server_free_request a sr) = sr_observer sr"
  "sr_server (nabto_coap_server_free_request a sr) = sr_server sr"
  by (simp_all add: nabto_coap_server_free_request_def Let_def)

text \<open>The list of requests loses at most the request of the operation.\<close>

definition drops :: "address \<Rightarrow> 'm server_requests \<Rightarrow> 'm server_requests \<Rightarrow> bool" where
  "drops a sr sr' \<longleftrightarrow> sr_requests sr' = sr_requests sr \<or> sr_requests sr' = remove1 a (sr_requests sr)"

lemma drops_in: "drops a sr sr' \<Longrightarrow> b \<in> set (sr_requests sr) \<Longrightarrow> b \<noteq> a \<Longrightarrow> b \<in> set (sr_requests sr')"
  by (auto simp: drops_def)

lemma free_request_drops: "drops a sr (nabto_coap_server_free_request a sr)"
  by (auto simp: drops_def nabto_coap_server_free_request_def Let_def nabto_coap_server_remove_request_from_list_def
      remove1_idem)

lemma done_request_drops: "drops a sr (done_request a sr)" "drops a sr (discard_request a sr)"
  using free_request_drops [of a "update_request a (\<lambda>r. r\<lparr>sq_state := STATE_DONE\<rparr>) sr"]
    free_request_drops [of a "update_request a (\<lambda>r. r\<lparr>sq_isFreed := True, sq_state := STATE_DONE\<rparr>) sr"]
  by (simp_all add: done_request_def discard_request_def drops_def)

lemma done_request_fields [simp]:
  "sr_observers (done_request a sr) = sr_observers sr" "sr_observers (discard_request a sr) = sr_observers sr"
  "sr_observer (done_request a sr) = sr_observer sr" "sr_observer (discard_request a sr) = sr_observer sr"
  "sr_server (done_request a sr) = sr_server sr" "sr_server (discard_request a sr) = sr_server sr"
  by (simp_all add: done_request_def discard_request_def)

section \<open>Observers\<close>

lemma forget_observer_loop_eq:
  "forget_observer_loop as o' sr = sr\<lparr>sr_request := \<lambda>a. if a \<in> set as \<and> sq_observer (sr_request sr a) = Some o'
     then (sr_request sr a)\<lparr>sq_observer := None\<rparr> else sr_request sr a\<rparr>"
proof (induction as arbitrary: sr)
  case (Cons a as)
  show ?case unfolding forget_observer_loop.simps Cons
    by (rule server_requests.equality) (auto simp: update_request_def)
qed simp

lemma server_ok_observer_free:
  assumes "server_ok live F k extra sr" "o' \<in> set (sr_observers sr)"
  shows "server_ok live F k extra (nabto_coap_server_observer_free o' sr)"
proof -
  define sr0 where "sr0 = (nabto_coap_server_observer_remove_from_list o' sr)
    \<lparr>sr_activeObservers := sr_activeObservers (nabto_coap_server_observer_remove_from_list o' sr) - 1\<rparr>"
  define sr1 where "sr1 = forget_observer_loop (sr_requests sr0) o' sr0"
  have sr0: "sr_requestsSentinel sr0 = sr_requestsSentinel sr" "sr_observersSentinel sr0 = sr_observersSentinel sr"
    "sr_server sr0 = sr_server sr" "sr_requests sr0 = sr_requests sr" "sr_observers sr0 = remove1 o' (sr_observers sr)"
    "sr_observer sr0 = sr_observer sr" "sr_request sr0 = sr_request sr" "sr_memory sr0 = sr_memory sr"
    "sr_activeObservers sr0 = sr_activeObservers sr - 1" "sr_activeRequests sr0 = sr_activeRequests sr"
    "sr_notifyEvent sr0 = sr_notifyEvent sr"
    by (simp_all add: sr0_def nabto_coap_server_observer_remove_from_list_def)
  have b: "server_request_blocks (sr_request sr1 x) = server_request_blocks (sr_request sr x)" for x
    by (simp add: server_request_blocks_def sr1_def forget_observer_loop_eq sr0)
  have f: "sr_requestsSentinel sr1 = sr_requestsSentinel sr" "sr_observersSentinel sr1 = sr_observersSentinel sr"
    "sr_server sr1 = sr_server sr" "sr_requests sr1 = sr_requests sr" "sr_observers sr1 = remove1 o' (sr_observers sr)"
    "sr_observer sr1 = sr_observer sr"
    by (simp_all add: sr1_def forget_observer_loop_eq sr0)
  have perm: "mset (extra @ server_blocks sr) = mset ((o' # observer_blocks (sr_observer sr o') @ extra) @ server_blocks sr1)"
    using assms(2) concat_map_remove [OF assms(2), of "\<lambda>o'. observer_blocks (sr_observer sr o')"]
    by (simp add: server_blocks_def ac_simps b f)
  have "owned live F (extra @ server_blocks sr) (sr_memory sr)"
    using assms(1) by (simp add: server_ok_def server_holds_def)
  from owned_perm [OF this perm]
  have own: "owned live F ((o' # observer_blocks (sr_observer sr o') @ extra) @ server_blocks sr1) (sr_memory sr)" .
  have shape: "server_shape k sr1"
    unfolding server_shape_def
  proof (intro conjI ballI)
    show "sr_activeRequests sr1 = length (sr_requests sr1) + k" "sr_activeObservers sr1 = length (sr_observers sr1)"
      "\<forall>node. sv_root (sr_server sr1) = Some node \<longrightarrow> tree_ok node"
      using assms by (auto simp: sr1_def forget_observer_loop_eq sr0 server_ok_def server_shape_def length_remove1)
    fix a assume a: "a \<in> set (sr_requests sr1)"
    then have a': "a \<in> set (sr_requests sr)" by (simp add: sr1_def forget_observer_loop_eq sr0)
    have "x \<in> set (sr_observers sr1)" if "sq_observer (sr_request sr1 a) = Some x" for x
    proof -
      have "x \<noteq> o'" "sq_observer (sr_request sr a) = Some x"
        using that a' by (auto simp: sr1_def forget_observer_loop_eq sr0 split: if_splits)
      then show ?thesis using assms(1) a' by (auto simp: server_ok_def server_shape_def sr1_def forget_observer_loop_eq sr0)
    qed
    then show "\<forall>x. sq_observer (sr_request sr1 a) = Some x \<longrightarrow> x \<in> set (sr_observers sr1)" by blast
    show "sq_state (sr_request sr1 a) = STATE_REQUEST \<longrightarrow>
        0 < sq_payloadLength (sr_request sr1 a) \<or> sq_payload (sr_request sr1 a) = None"
      using assms(1) a' by (auto simp: server_ok_def server_shape_def sr1_def forget_observer_loop_eq sr0)
  qed
  have "server_ok live F k (o' # observer_blocks (sr_observer sr o') @ extra) sr1"
    using own shape assms(1) by (simp add: server_ok_def server_holds_def sr1_def forget_observer_loop_eq sr0)
  then have "server_ok live F k (owned_blocks (ob_payload (sr_observer sr o')) @ owned_blocks (ob_pendingPayload (sr_observer sr o')) @ o' # extra) sr1"
    by (rule server_ok_perm) (simp add: observer_blocks_def)
  from server_ok_free [OF server_ok_free_owned [OF server_ok_free_owned [OF this]]]
  show ?thesis
    unfolding nabto_coap_server_observer_free_def Let_def sr0_def [symmetric] sr1_def [symmetric] by (simp add: f)
qed

lemma observer_free_fields [simp]:
  "sr_requests (nabto_coap_server_observer_free o' sr) = sr_requests sr"
  "sr_observers (nabto_coap_server_observer_free o' sr) = remove1 o' (sr_observers sr)"
  "sr_observer (nabto_coap_server_observer_free o' sr) = sr_observer sr"
  "sr_server (nabto_coap_server_observer_free o' sr) = sr_server sr"
  by (simp_all add: nabto_coap_server_observer_free_def Let_def nabto_coap_server_observer_remove_from_list_def
      forget_observer_loop_eq)

lemma server_ok_insert_observer:
  assumes "server_ok live F k (o' # observer_blocks (sr_observer sr o') @ extra) sr"
  shows "server_ok live F k extra (sr\<lparr>sr_observers := o' # sr_observers sr, sr_activeObservers := sr_activeObservers sr + 1\<rparr>)"
proof -
  let ?sr = "sr\<lparr>sr_observers := o' # sr_observers sr, sr_activeObservers := sr_activeObservers sr + 1\<rparr>"
  have "mset ((o' # observer_blocks (sr_observer sr o') @ extra) @ server_blocks sr) = mset (extra @ server_blocks ?sr)"
    by (simp add: server_blocks_def ac_simps)
  moreover have "server_shape k ?sr" using assms by (auto simp: server_ok_def server_shape_def)
  moreover have "owned live F ((o' # observer_blocks (sr_observer sr o') @ extra) @ server_blocks sr) (sr_memory sr)"
    using assms(1) by (simp add: server_ok_def server_holds_def)
  ultimately have "owned live F (extra @ server_blocks ?sr) (sr_memory sr)" and "server_shape k ?sr"
    by (blast intro: owned_perm)+
  then show ?thesis using assms(1) by (simp add: server_ok_def server_holds_def)
qed

lemma server_ok_accept:
  assumes "server_ok live F k extra sr" "a \<in> set (sr_requests sr)"
    "nabto_coap_server_request_accept_observe a sr = (err, sr')"
  shows "server_ok live F k extra sr'"
proof (cases "sq_isObserveRegister (sr_request sr a)")
  case False
  then show ?thesis using assms by (simp add: nabto_coap_server_request_accept_observe_def)
next
  case True
  let ?r = "sr_request sr a"
  define existing where "existing = find (\<lambda>o'. ob_connection (sr_observer sr o') = sq_connection ?r \<and>
      nabto_coap_token_equal (ob_token (sr_observer sr o')) (sq_token ?r)) (sr_observers sr)"
  show ?thesis
  proof (cases "existing = None \<and> sr_maxObservers sr \<le> sr_activeObservers sr")
    case True
    then show ?thesis using assms \<open>sq_isObserveRegister ?r\<close>
      by (simp add: nabto_coap_server_request_accept_observe_def existing_def)
  next
    case room: False
    obtain q sr1 where q: "server_calloc sizeof_server_observer sr = (q, sr1)" by fastforce
    note c = server_ok_calloc [OF assms(1) q]
    have f: "sr_requests sr1 = sr_requests sr" "sr_observers sr1 = sr_observers sr" "sr_observer sr1 = sr_observer sr"
      by (subst c(2); simp)+
    show ?thesis
    proof (cases q)
      case None
      then show ?thesis using assms(3) True room q c(1)
        unfolding nabto_coap_server_request_accept_observe_def Let_def existing_def [symmetric] by auto
    next
      case (Some o')
      have new: "o' \<notin> set (sr_observers sr)" using server_ok_distinct(3) [OF c(1), of o'] Some f by simp
      define sr2 where "sr2 = (case existing of None \<Rightarrow> sr1 | Some e \<Rightarrow> nabto_coap_server_observer_free e sr1)"
      have ex: "e \<in> set (sr_observers sr)" if "existing = Some e" for e
        using that by (auto simp: existing_def find_Some_iff)
      have sr2: "server_ok live F k (o' # extra) sr2" "sr_requests sr2 = sr_requests sr" "o' \<notin> set (sr_observers sr2)"
        using c(1) Some ex f new server_ok_observer_free [of live F k "o' # extra" sr1] notin_set_remove1
        by (auto simp: sr2_def split: option.splits)
      let ?ob = "zero_server_observer\<lparr>ob_resource := sq_resource ?r, ob_connection := sq_connection ?r,
        ob_token := sq_token ?r, ob_sequenceNumber := 0, ob_notificationType := CON\<rparr>"
      define sr3 where "sr3 = update_observer o' (\<lambda>_. ?ob) sr2"
      have "server_ok live F k (o' # extra) sr3" using sr2 by (simp add: sr3_def server_ok_other_observer)
      then have "server_ok live F k extra (sr3\<lparr>sr_observers := o' # sr_observers sr3, sr_activeObservers := sr_activeObservers sr3 + 1\<rparr>)"
        by (intro server_ok_insert_observer) (simp add: sr3_def observer_blocks_def zero_server_observer_def)
      then have "server_ok live F k extra (update_request a (\<lambda>r. r\<lparr>sq_observer := Some o'\<rparr>)
          (sr3\<lparr>sr_observers := o' # sr_observers sr3, sr_activeObservers := sr_activeObservers sr3 + 1\<rparr>))"
        by (rule server_ok_request)
          (use assms(2) sr2(1,2) in \<open>auto simp: sr3_def server_request_blocks_def server_ok_def server_shape_def\<close>)
      then show ?thesis using assms(3) True room q Some
        unfolding nabto_coap_server_request_accept_observe_def Let_def existing_def [symmetric]
        by (auto simp: sr2_def sr3_def)
    qed
  qed
qed

end
