(* ===== verification/Coap_Server_Ops.thy ===== *)
theory Coap_Server_Ops
  imports Coap_Server_Memory
begin

text \<open>
  The operations of the application and of the integrator keep the objects of the CoAP server and its memory
  together: notifications, responses, timeouts, packets that are sent and connections that go away.
\<close>

section \<open>Notifications\<close>

lemma server_ok_observer_same:
  "server_ok live F k extra sr \<Longrightarrow> o' \<in> set (sr_observers sr) \<Longrightarrow>
   observer_blocks (f (sr_observer sr o')) = observer_blocks (sr_observer sr o') \<Longrightarrow>
   server_ok live F k extra (update_observer o' f sr)"
  by (rule server_ok_observer) simp_all

text \<open>A new payload takes the place of an old one.\<close>

lemma server_ok_swap:
  assumes "server_ok live F k (owned_blocks new @ extra) sr" "o' \<in> set (sr_observers sr)"
    "mset (owned_blocks old @ observer_blocks (f (sr_observer sr o'))) = mset (owned_blocks new @ observer_blocks (sr_observer sr o'))"
  shows "server_ok live F k extra (update_observer o' f (server_free_owned old sr))"
  unfolding free_commutes
  by (rule server_ok_free_owned, rule server_ok_observer [OF assms(1,2)])
    (use assms(3) in \<open>simp add: ac_simps\<close>)

lemma notify_observer_ok:
  assumes "server_ok live F k (owned_blocks payload @ extra) sr" "o' \<in> set (sr_observers sr)"
    "notify_observer o' code contentFormat payload sr = (now, sr')"
  shows "server_ok live F k extra sr'" "sr_observers sr' = sr_observers sr" "sr_requests sr' = sr_requests sr"
proof -
  have "server_ok live F k extra sr' \<and> sr_observers sr' = sr_observers sr \<and> sr_requests sr' = sr_requests sr"
  proof (cases "ob_waitingForAck (sr_observer sr o')")
    case True
    have "server_ok live F k extra (update_observer o' (\<lambda>ob. ob\<lparr>ob_pendingValid := True, ob_pendingCode := code,
        ob_pendingHasContentFormat := True, ob_pendingContentFormat := contentFormat,
        ob_pendingPayload := payload\<rparr>) (server_free_owned (ob_pendingPayload (sr_observer sr o')) sr))"
      by (rule server_ok_swap [OF assms(1,2)]) (simp add: observer_blocks_def ac_simps)
    then show ?thesis using assms(3) True by (auto simp: notify_observer_def Let_def)
  next
    case False
    have "server_ok live F k extra (update_observer o' (\<lambda>ob. ob\<lparr>ob_sequenceNumber := ob_sequenceNumber ob + 1, ob_code := code,
        ob_hasContentFormat := True, ob_contentFormat := contentFormat, ob_payload := payload\<rparr>)
        (server_free_owned (ob_payload (sr_observer sr o')) sr))" (is "server_ok live F k extra ?sr1")
      by (rule server_ok_swap [OF assms(1,2)]) (simp add: observer_blocks_def ac_simps)
    then have "server_ok live F k extra (update_observer o' (\<lambda>ob. ob\<lparr>ob_messageId := sr_messageId ?sr1 + 1,
        ob_retransmissions := 0, ob_sendNow := True\<rparr>) (?sr1\<lparr>sr_messageId := sr_messageId ?sr1 + 1\<rparr>))"
      by (intro server_ok_observer_same) (use assms(2) in \<open>simp_all add: observer_blocks_def\<close>)
    then show ?thesis using assms(3) False by (auto simp: notify_observer_def Let_def next_message_id_eq)
  qed
  then show "server_ok live F k extra sr'" "sr_observers sr' = sr_observers sr" "sr_requests sr' = sr_requests sr" by auto
qed

lemma notify_loop_ok:
  "notify_loop os resource code contentFormat payload result marked sr = (result', marked', sr') \<Longrightarrow>
     server_ok live F k [] sr \<Longrightarrow> set os \<subseteq> set (sr_observers sr) \<Longrightarrow>
     server_ok live F k [] sr' \<and> sr_requests sr' = sr_requests sr"
proof (induction os arbitrary: result marked sr)
  case (Cons o' os)
  show ?case
  proof (cases "ob_resource (sr_observer sr o') = resource")
    case False
    then show ?thesis using Cons by simp
  next
    case True
    show ?thesis
    proof (cases "payload \<noteq> None \<and> payload \<noteq> Some []")
      case False
      obtain now sr1 where n: "notify_observer o' code contentFormat None sr = (now, sr1)" by fastforce
      note ok = notify_observer_ok [OF _ _ n, of live F k "[]"]
      have "notify_loop os resource code contentFormat payload result (marked \<or> now) sr1 = (result', marked', sr')"
        using Cons(2) True n False by (auto split: option.splits list.splits)
      from Cons(1) [OF this] show ?thesis using ok Cons(3,4) by auto
    next
      case p: True
      then obtain b bs where b: "payload = Some (b # bs)" by (metis neq_Nil_conv option.exhaust)
      obtain q sr1 where q: "server_calloc (length (b # bs) + 1) sr = (q, sr1)" by fastforce
      note c = server_ok_calloc [OF Cons(3) q]
      have f: "sr_observers sr1 = sr_observers sr" "sr_requests sr1 = sr_requests sr" by (subst c(2); simp)+
      show ?thesis
      proof (cases q)
        case None
        have "notify_loop os resource code contentFormat payload COAP_OUT_OF_MEMORY marked sr1 = (result', marked', sr')"
          using Cons(2) True b q None by simp
        from Cons(1) [OF this] show ?thesis using c(1) None f Cons(4) by auto
      next
        case (Some a)
        obtain now sr2 where n: "notify_observer o' code contentFormat (Some (a, b # bs)) sr1 = (now, sr2)" by fastforce
        note ok = notify_observer_ok [OF _ _ n, of live F k "[]"]
        have "notify_loop os resource code contentFormat payload result (marked \<or> now) sr2 = (result', marked', sr')"
          using Cons(2) True b q Some n by simp
        from Cons(1) [OF this] show ?thesis using ok c(1) Some f Cons(4) by auto
      qed
    qed
  qed
qed simp

lemma server_ok_resource_notify:
  assumes "server_ok live F k [] sr" "nabto_coap_server_resource_notify resource code contentFormat payload sr = (err, sr')"
  shows "server_ok live F k [] sr'"
proof -
  obtain r m sr1 where n: "notify_loop (sr_observers sr) resource code contentFormat payload COAP_OK False sr = (r, m, sr1)"
    by (metis prod.exhaust)
  have "server_ok live F k [] sr1" using notify_loop_ok [OF n assms(1)] by simp
  then show ?thesis using assms(2) n server_ok_notify by (auto simp: nabto_coap_server_resource_notify_def)
qed

lemma server_ok_promote:
  assumes "server_ok live F k extra sr" "o' \<in> set (sr_observers sr)"
  shows "server_ok live F k extra (nabto_coap_server_observer_promote_pending o' sr)"
proof (cases "ob_pendingValid (sr_observer sr o')")
  case False
  then show ?thesis using assms by (simp add: nabto_coap_server_observer_promote_pending_def)
next
  case True
  let ?f = "\<lambda>ob. ob\<lparr>ob_code := ob_pendingCode ob, ob_hasContentFormat := ob_pendingHasContentFormat ob,
      ob_contentFormat := ob_pendingContentFormat ob, ob_payload := ob_pendingPayload ob,
      ob_sequenceNumber := ob_sequenceNumber ob + 1\<rparr>"
  let ?g = "\<lambda>ob. ob\<lparr>ob_messageId := sr_messageId sr + 1, ob_retransmissions := 0, ob_sendNow := True,
      ob_waitingForAck := False, ob_pendingValid := False, ob_pendingPayload := None, ob_pendingHasContentFormat := False\<rparr>"
  have e: "update_observer o' ?g ((update_observer o' ?f (server_free_owned (ob_payload (sr_observer sr o')) sr))\<lparr>sr_messageId := m\<rparr>)
      = update_observer o' (?g \<circ> ?f) (server_free_owned (ob_payload (sr_observer sr o')) (sr\<lparr>sr_messageId := m\<rparr>))" for m
    by (simp add: update_observer_def server_free_owned_def server_free_def split: option.splits)
  have m: "sr_messageId (server_free_owned pl sr) = sr_messageId sr" for pl and sr :: "'a server_requests"
    by (simp add: server_free_owned_def server_free_def split: option.splits)
  have "server_ok live F k extra (update_observer o' (?g \<circ> ?f)
      (server_free_owned (ob_payload (sr_observer sr o')) (sr\<lparr>sr_messageId := sr_messageId sr + 1\<rparr>)))"
    by (rule server_ok_swap [where new = None]) (use assms in \<open>simp_all add: observer_blocks_def\<close>)
  then show ?thesis using True
    by (simp add: nabto_coap_server_observer_promote_pending_def Let_def next_message_id_eq e m)
qed

lemma promote_fields [simp]:
  "sr_requests (nabto_coap_server_observer_promote_pending o' sr) = sr_requests sr"
  "sr_request (nabto_coap_server_observer_promote_pending o' sr) = sr_request sr"
  "sr_observers (nabto_coap_server_observer_promote_pending o' sr) = sr_observers sr"
  by (simp_all add: nabto_coap_server_observer_promote_pending_def Let_def next_message_id_eq)

lemma server_ok_notification_acked:
  assumes "server_ok live F k extra sr" "o' \<in> set (sr_observers sr)"
  shows "server_ok live F k extra (notification_acked o' sr)"
proof -
  let ?sr = "update_observer o' (\<lambda>ob. ob\<lparr>ob_payload := None, ob_sendNow := False, ob_waitingForAck := False\<rparr>)
     (server_free_owned (ob_payload (sr_observer sr o')) sr)"
  have "server_ok live F k extra ?sr"
    by (rule server_ok_swap [where new = None]) (use assms in \<open>simp_all add: observer_blocks_def\<close>)
  then show ?thesis using assms(2)
    by (auto simp: notification_acked_def Let_def intro!: server_ok_notify server_ok_promote)
qed

section \<open>Responses\<close>

lemma server_ok_set_payload:
  assumes "server_ok live F k [] sr" "a \<in> set (sr_requests sr)"
    "nabto_coap_server_response_set_payload a payload sr = (err, sr')"
  shows "server_ok live F k [] sr'" "sr_requests sr' = sr_requests sr"
proof -
  let ?sr = "nabto_coap_server_response_release_payload a sr"
  have r: "server_ok live F k [] ?sr" by (rule server_ok_release [OF assms(1,2)])
  obtain q sr1 where q: "server_calloc (length payload + 1) ?sr = (q, sr1)" by fastforce
  note c = server_ok_calloc [OF r q]
  have f: "sr_requests sr1 = sr_requests sr" "sr_request sr1 = sr_request ?sr" by (subst c(2); simp)+
  have "server_ok live F k [] sr' \<and> sr_requests sr' = sr_requests sr"
  proof (cases q)
    case None
    have "server_ok live F k [] (update_response a (\<lambda>p. p\<lparr>sp_payload := None\<rparr>) sr1)"
      by (rule server_ok_response_same) (use c(1) None f assms(2) in \<open>simp_all add: server_response_blocks_def\<close>)
    then show ?thesis using assms(3) q None f by (auto simp: nabto_coap_server_response_set_payload_def Let_def)
  next
    case (Some p)
    have "server_ok live F k [] (update_response a (\<lambda>r. r\<lparr>sp_payload := Some (p, payload)\<rparr>) sr1)"
      unfolding update_response_def
      by (rule server_ok_request [where extra = "[p]"])
        (use c(1) Some f assms(2) in \<open>auto simp: server_request_blocks_def server_response_blocks_def server_ok_def server_shape_def\<close>)
    then show ?thesis using assms(3) q Some f by (auto simp: nabto_coap_server_response_set_payload_def Let_def)
  qed
  then show "server_ok live F k [] sr'" "sr_requests sr' = sr_requests sr" by auto
qed

lemma server_ok_apply_block2:
  assumes "server_ok live F k extra sr" "a \<in> set (sr_requests sr)"
  shows "server_ok live F k extra (nabto_coap_server_apply_block2_request a sr)"
proof -
  have s: "server_response_blocks (p\<lparr>sp_block2Size := x\<rparr>) = server_response_blocks p"
    "server_response_blocks (p\<lparr>sp_block2Current := y\<rparr>) = server_response_blocks p"
    "server_response_blocks (p\<lparr>sp_code := c\<rparr>) = server_response_blocks p"
    "server_response_blocks (p\<lparr>sp_staticPayload := True, sp_payload := z, sp_hasContentFormat := False, sp_block2Current := y\<rparr>) = []"
    for p x y c z by (simp_all add: server_response_blocks_def)
  have h: "server_ok live F k extra (update_request a (\<lambda>r. r\<lparr>sq_hasBlock2Request := False\<rparr>) sr)"
    by (rule server_ok_request_same) (use assms in \<open>simp_all add: server_request_blocks_def\<close>)
  show ?thesis
    unfolding nabto_coap_server_apply_block2_request_def Let_def nabto_coap_server_response_set_code_def
    by (auto intro!: server_ok_response_same server_ok_release h simp: assms s)
      (simp_all add: server_response_blocks_def)
qed

lemma apply_block2_fields [simp]:
  "sr_requests (nabto_coap_server_apply_block2_request a sr) = sr_requests sr"
  "sr_observers (nabto_coap_server_apply_block2_request a sr) = sr_observers sr"
  by (simp_all add: nabto_coap_server_apply_block2_request_def Let_def nabto_coap_server_response_set_code_def)

lemma server_ok_response_ready:
  assumes "server_ok live F k extra sr" "a \<in> set (sr_requests sr)" "nabto_coap_server_response_ready a sr = (err, sr')"
  shows "server_ok live F k extra sr'" "sr_requests sr' = sr_requests sr"
proof -
  have "server_ok live F k extra (update_request a (\<lambda>r. r\<lparr>sq_state := STATE_DONE\<rparr>) sr)"
    by (rule server_ok_request_same) (use assms in \<open>simp_all add: server_request_blocks_def\<close>)
  moreover have "server_ok live F k extra (server_notify (update_response a (\<lambda>p. p\<lparr>sp_sendNow := True\<rparr>)
      (update_request a (\<lambda>r. r\<lparr>sq_state := STATE_RESPONSE\<rparr>) (nabto_coap_server_apply_block2_request a sr))))"
    by (intro server_ok_notify server_ok_response_same server_ok_request_same server_ok_apply_block2)
      (use assms in \<open>simp_all add: server_request_blocks_def server_response_blocks_def\<close>)
  ultimately have "server_ok live F k extra sr' \<and> sr_requests sr' = sr_requests sr"
    using assms(3) by (auto simp: nabto_coap_server_response_ready_def Let_def split: if_splits)
  then show "server_ok live F k extra sr'" "sr_requests sr' = sr_requests sr" by auto
qed

lemma server_ok_set_code:
  "server_ok live F k extra sr \<Longrightarrow> a \<in> set (sr_requests sr) \<Longrightarrow> server_ok live F k extra (nabto_coap_server_response_set_code a code sr)"
  unfolding nabto_coap_server_response_set_code_def
  by (rule server_ok_response_same) (simp_all add: server_response_blocks_def)

lemma server_ok_content_format:
  "server_ok live F k extra sr \<Longrightarrow> a \<in> set (sr_requests sr) \<Longrightarrow> server_ok live F k extra (nabto_coap_server_response_set_content_format a format sr)"
  unfolding nabto_coap_server_response_set_content_format_def
  by (rule server_ok_response_same) (simp_all add: server_response_blocks_def)

lemma set_code_fields [simp]: "sr_requests (nabto_coap_server_response_set_code a code sr) = sr_requests sr"
  by (simp add: nabto_coap_server_response_set_code_def)

lemma server_ok_send_error:
  assumes "server_ok live F k [] sr" "a \<in> set (sr_requests sr)"
    "nabto_coap_server_send_error_response a status description sr = (err, sr')"
  shows "server_ok live F k [] sr'"
proof -
  let ?sr = "nabto_coap_server_response_set_code a status sr"
  have c: "server_ok live F k [] ?sr" "a \<in> set (sr_requests ?sr)" using server_ok_set_code assms(1,2) by auto
  show ?thesis
  proof (cases description)
    case None
    then show ?thesis using server_ok_response_ready(1) [OF c] assms(3) by (simp add: nabto_coap_server_send_error_response_def)
  next
    case (Some t)
    obtain e sr1 where p: "nabto_coap_server_response_set_payload a t ?sr = (e, sr1)" by fastforce
    note o = server_ok_set_payload [OF c p]
    have "a \<in> set (sr_requests sr1)" using o(2) assms(2) by simp
    from server_ok_response_ready(1) [OF o(1) this] show ?thesis using o(1) assms(3) p Some
      by (auto simp: nabto_coap_server_send_error_response_def split: if_splits)
  qed
qed

lemma server_ok_request_free:
  assumes "server_ok live F k extra sr" "a \<in> set (sr_requests sr)"
  shows "server_ok live F k extra (nabto_coap_server_request_free a sr)"
proof -
  define sr1 where "sr1 = update_response a (\<lambda>p. p\<lparr>sp_payload := static_payload unhandledRequest\<rparr>)
      (nabto_coap_server_response_set_code a CODE_INTERNAL_SERVER_ERROR
        (update_request a (\<lambda>r. r\<lparr>sq_hasBlock2Request := False\<rparr>)
          (update_response a (\<lambda>p. p\<lparr>sp_staticPayload := True\<rparr>) (nabto_coap_server_response_release_payload a sr))))"
  have "server_ok live F k extra sr1" "a \<in> set (sr_requests sr1)"
    unfolding sr1_def
    by (intro server_ok_response_same server_ok_set_code server_ok_request_same server_ok_release)
      (use assms in \<open>simp_all add: server_request_blocks_def server_response_blocks_def nabto_coap_server_response_set_code_def\<close>)
  then have r: "server_ok live F k extra (snd (nabto_coap_server_response_ready a sr1))"
    "a \<in> set (sr_requests (snd (nabto_coap_server_response_ready a sr1)))"
    using server_ok_response_ready [of live F k extra sr1 a] by (metis prod.collapse)+
  have fin: "server_ok live F k extra (nabto_coap_server_free_request a (update_request a (\<lambda>r. r\<lparr>sq_isFreed := True\<rparr>) s))"
    if "server_ok live F k extra s" "a \<in> set (sr_requests s)" for s
    by (intro server_ok_free_request server_ok_request_same) (use that in \<open>simp_all add: server_request_blocks_def\<close>)
  show ?thesis
    using fin [OF r] fin [OF assms] by (simp add: nabto_coap_server_request_free_def Let_def sr1_def)
qed

section \<open>Timeouts\<close>

lemma timeout_one_request_ok:
  assumes "server_ok live F k extra sr" "a \<in> set (sr_requests sr)"
  shows "server_ok live F k extra (timeout_one_request now a sr)" "drops a sr (timeout_one_request now a sr)"
proof -
  have s: "server_response_blocks (p\<lparr>sp_sendNow := True\<rparr>) = server_response_blocks p" for p
    by (simp add: server_response_blocks_def)
  show "server_ok live F k extra (timeout_one_request now a sr)"
    using assms by (auto simp: timeout_one_request_def Let_def s intro!: server_ok_discard_request server_ok_done_request server_ok_response_same)
  show "drops a sr (timeout_one_request now a sr)"
    using done_request_drops [of a sr] by (auto simp: timeout_one_request_def Let_def drops_def)
qed

lemma timeout_requests_loop_ok:
  "server_ok live F k extra sr \<Longrightarrow> distinct as \<Longrightarrow> set as \<subseteq> set (sr_requests sr) \<Longrightarrow>
     server_ok live F k extra (timeout_requests_loop as now sr)"
proof (induction as arbitrary: sr)
  case (Cons a as)
  note o = timeout_one_request_ok [OF Cons(2), of a now]
  have "set as \<subseteq> set (sr_requests (timeout_one_request now a sr))" using Cons(3,4) drops_in [OF o(2)] by auto
  then show ?case using Cons o by simp
qed simp

lemma timeout_one_observer_ok:
  assumes "server_ok live F k extra sr" "o' \<in> set (sr_observers sr)"
  shows "server_ok live F k extra (timeout_one_observer now o' sr)"
    "x \<in> set (sr_observers sr) \<Longrightarrow> x \<noteq> o' \<Longrightarrow> x \<in> set (sr_observers (timeout_one_observer now o' sr))"
proof -
  show "server_ok live F k extra (timeout_one_observer now o' sr)"
    using assms by (auto simp: timeout_one_observer_def Let_def observer_blocks_def intro!: server_ok_observer_free server_ok_observer_same)
  show "x \<in> set (sr_observers sr) \<Longrightarrow> x \<noteq> o' \<Longrightarrow> x \<in> set (sr_observers (timeout_one_observer now o' sr))"
    by (auto simp: timeout_one_observer_def Let_def)
qed

lemma timeout_observers_loop_ok:
  "server_ok live F k extra sr \<Longrightarrow> distinct os \<Longrightarrow> set os \<subseteq> set (sr_observers sr) \<Longrightarrow>
     server_ok live F k extra (timeout_observers_loop os now sr)"
proof (induction os arbitrary: sr)
  case (Cons o' os)
  note ok = timeout_one_observer_ok [OF Cons(2), of o']
  have "set os \<subseteq> set (sr_observers (timeout_one_observer now o' sr))" using Cons(3,4) ok(2) by auto
  then show ?case using Cons ok(1) by simp
qed simp

lemma server_ok_handle_timeout:
  "server_ok live F k extra sr \<Longrightarrow> server_ok live F k extra (nabto_coap_server_handle_timeout sr)"
  unfolding nabto_coap_server_handle_timeout_def Let_def
  by (intro timeout_observers_loop_ok timeout_requests_loop_ok) (auto dest: server_ok_distinct intro: server_ok_distinct timeout_requests_loop_ok)

section \<open>Packets that are sent\<close>

lemma send_slot_ok:
  assumes "server_ok live F k extra sr"
  shows "nabto_coap_server_send_ack room sr = (p, sr') \<Longrightarrow> server_ok live F k extra sr'"
    "nabto_coap_server_send_rst room sr = (p, sr') \<Longrightarrow> server_ok live F k extra sr'"
    "nabto_coap_server_send_error room sr = (p, sr') \<Longrightarrow> server_ok live F k extra sr'"
  using assms by (auto simp: nabto_coap_server_send_ack_def nabto_coap_server_send_rst_def nabto_coap_server_send_error_def Let_def
      split: option.splits)

lemma response_sent_blocks: "server_response_blocks (response_sent t now ack p) = server_response_blocks p"
  by (simp add: response_sent_def Let_def server_response_blocks_def)

lemma send_request_ok:
  assumes "server_ok live F k extra sr" "a \<in> set (sr_requests sr)"
  shows "nabto_coap_server_send_in_request_state a room sr = (p, sr') \<Longrightarrow> server_ok live F k extra sr'"
    "nabto_coap_server_send_in_response_state a room sr = (p, sr') \<Longrightarrow> server_ok live F k extra sr'"
  using assms
  by (auto simp: nabto_coap_server_send_in_request_state_def nabto_coap_server_send_in_response_state_def Let_def
      server_request_blocks_def response_sent_blocks split: if_splits intro!: server_ok_request_same server_ok_response_same)

lemma send_observer_ok:
  assumes "server_ok live F k extra sr" "o' \<in> set (sr_observers sr)"
    "nabto_coap_server_send_observer_notification o' room sr = (p, sr')"
  shows "server_ok live F k extra sr'"
proof (cases "notification_packet (sr_observer sr o') room")
  case None
  then show ?thesis using assms by (simp add: nabto_coap_server_send_observer_notification_def)
next
  case (Some w)
  have s: "observer_blocks (ob\<lparr>ob_sendNow := False, ob_waitingForAck := True, ob_timeout := x, ob_retransmissions := y\<rparr>) = observer_blocks ob"
    for ob x y by (simp add: observer_blocks_def)
  have "server_ok live F k extra (update_observer o' (\<lambda>ob. ob\<lparr>ob_payload := None\<rparr>)
      (server_free_owned (ob_payload (sr_observer sr o')) (update_observer o' (\<lambda>ob. ob\<lparr>ob_sendNow := False\<rparr>) sr)))"
    by (rule server_ok_swap [where new = None], simp_all, rule server_ok_observer_same)
      (use assms in \<open>simp_all add: observer_blocks_def\<close>)
  moreover have "server_ok live F k extra (update_observer o' (\<lambda>ob. ob\<lparr>ob_sendNow := False, ob_waitingForAck := True,
      ob_timeout := t ob, ob_retransmissions := n ob\<rparr>) sr)" for t n
    by (rule server_ok_observer_same) (use assms s in simp_all)
  ultimately show ?thesis using assms(3) Some
    by (auto simp: nabto_coap_server_send_observer_notification_def split: if_splits)
qed

lemma server_ok_handle_send:
  assumes "server_ok live F k extra sr" "nabto_coap_server_handle_send room sr = (p, sr')"
  shows "server_ok live F k extra sr'"
proof -
  have f: "x \<in> set xs" if "find P xs = Some x" for P xs and x :: address using that by (auto simp: find_Some_iff)
  show ?thesis
    using assms(2) send_slot_ok [OF assms(1)] send_request_ok [OF assms(1)] send_observer_ok [OF assms(1)] assms(1) f
    unfolding nabto_coap_server_handle_send_def by (fastforce split: if_splits option.splits)
qed

section \<open>Connections that go away\<close>

lemma remove_observers_loop_ok:
  "server_ok live F k extra sr \<Longrightarrow> distinct os \<Longrightarrow> set os \<subseteq> set (sr_observers sr) \<Longrightarrow>
     server_ok live F k extra (remove_observers_loop os connection sr)"
proof (induction os arbitrary: sr)
  case (Cons o' os)
  have "set os \<subseteq> set (sr_observers (nabto_coap_server_observer_free o' sr))" 
  proof
    fix x assume "x \<in> set os"
    then have "x \<noteq> o'" "x \<in> set (sr_observers sr)" using Cons(3,4) by auto
    then show "x \<in> set (sr_observers (nabto_coap_server_observer_free o' sr))" by (simp add: in_set_remove1)
  qed
  then show ?case using Cons server_ok_observer_free [OF Cons(2), of o'] by simp
qed simp

lemma remove_requests_loop_ok:
  "server_ok live F k extra sr \<Longrightarrow> distinct as \<Longrightarrow> set as \<subseteq> set (sr_requests sr) \<Longrightarrow>
     server_ok live F k extra (remove_requests_loop as connection sr)"
proof (induction as arbitrary: sr)
  case (Cons a as)
  have a: "a \<in> set (sr_requests sr)" using Cons(4) by simp
  define sr1 where "sr1 = (if sq_connection (sr_request sr a) = connection then
          (if sq_state (sr_request sr a) = STATE_REQUEST then discard_request a sr
           else if sq_state (sr_request sr a) = STATE_RESPONSE then done_request a sr
           else update_request a (\<lambda>r. r\<lparr>sq_connection := None\<rparr>) sr)
        else sr)"
  have "server_ok live F k extra (update_request a (\<lambda>r. r\<lparr>sq_connection := None\<rparr>) sr)"
    by (rule server_ok_request_same) (use Cons a in \<open>simp_all add: server_request_blocks_def\<close>)
  then have "server_ok live F k extra sr1"
    using Cons(2) a by (simp add: sr1_def server_ok_discard_request server_ok_done_request)
  moreover have "drops a sr sr1" using done_request_drops [of a sr] by (auto simp: sr1_def drops_def)
  then have "set as \<subseteq> set (sr_requests sr1)" using Cons(3,4) drops_in [of a sr sr1] by auto
  ultimately show ?case using Cons(1) [of sr1] Cons(3) by (simp add: sr1_def)
qed simp

lemma remove_observers_loop_fields [simp]:
  "sr_requests (remove_observers_loop os connection sr) = sr_requests sr"
  by (induction os arbitrary: sr) simp_all

lemma server_ok_remove_connection:
  assumes "server_ok live F k extra sr"
  shows "server_ok live F k extra (nabto_coap_server_remove_connection connection sr)"
proof -
  have "server_ok live F k extra (remove_requests_loop (sr_requests (remove_observers_loop (sr_observers sr) connection sr)) connection
      (remove_observers_loop (sr_observers sr) connection sr))"
    by (intro remove_requests_loop_ok remove_observers_loop_ok) (use assms server_ok_distinct [OF assms] in auto)
  then show ?thesis by (simp add: nabto_coap_server_remove_connection_def Let_def)
qed

section \<open>Resources\<close>

lemma server_ok_root:
  assumes "server_ok live F k extra sr" "\<And>node. rootNode = Some node \<Longrightarrow> tree_ok node"
    "owned live F (extra @ root_blocks rootNode @ opt_block (sr_requestsSentinel sr) @ opt_block (sr_observersSentinel sr) @
       sr_requests sr @ sr_observers sr @
       concat (map (\<lambda>a. server_request_blocks (sr_request sr a)) (sr_requests sr)) @
       concat (map (\<lambda>o'. observer_blocks (sr_observer sr o')) (sr_observers sr))) m"
  shows "server_ok live F k extra (sr\<lparr>sr_server := (sr_server sr)\<lparr>sv_root := rootNode\<rparr>, sr_memory := m\<rparr>)"
proof -
  have "owned live F (extra @ server_blocks (sr\<lparr>sr_server := (sr_server sr)\<lparr>sv_root := rootNode\<rparr>, sr_memory := m\<rparr>)) m"
    by (rule owned_perm [OF assms(3)]) (simp add: server_blocks_def)
  then show ?thesis using assms(1,2)
    by (auto simp: server_ok_def server_holds_def server_shape_def)
qed

lemma server_ok_add_resource:
  assumes "server_ok live F k extra sr"
    "nabto_coap_server_add_resource code segments handler userData (sr_server sr) (sr_memory sr) = Some (err, res, server, m)"
  shows "server_ok live F k extra (sr\<lparr>sr_server := server, sr_memory := m\<rparr>)"
proof -
  obtain rootNode where root: "sv_root (sr_server sr) = Some rootNode"
    using assms(2) by (auto simp: nabto_coap_server_add_resource_def split: option.splits)
  obtain rootNode' where a: "nabto_coap_server_add_resource_into_tree (sv_allocator (sr_server sr)) rootNode code segments handler userData
      (sr_memory sr) = (err, res, rootNode', m)" "server = (sr_server sr)\<lparr>sv_root := Some rootNode'\<rparr>"
    using assms(2) root by (auto simp: nabto_coap_server_add_resource_def split: prod.splits)
  let ?rest = "extra @ opt_block (sr_requestsSentinel sr) @ opt_block (sr_observersSentinel sr) @ sr_requests sr @ sr_observers sr @
       concat (map (\<lambda>a. server_request_blocks (sr_request sr a)) (sr_requests sr)) @
       concat (map (\<lambda>o'. observer_blocks (sr_observer sr o')) (sr_observers sr))"
  have al: "allocator_ok (sv_allocator (sr_server sr)) live" and own: "owned live F (extra @ server_blocks sr) (sr_memory sr)"
    and t: "tree_ok rootNode" using assms(1) root by (auto simp: server_ok_def server_holds_def server_shape_def)
  have "owned live F (router_blocks rootNode @ ?rest) (sr_memory sr)"
    by (rule owned_perm [OF own]) (simp add: server_blocks_def root root_blocks_def)
  from add_resource_owned [OF a(1) al this] have "owned live F (router_blocks rootNode' @ ?rest) m" .
  then have "owned live F (extra @ root_blocks (Some rootNode') @ opt_block (sr_requestsSentinel sr) @ opt_block (sr_observersSentinel sr) @
       sr_requests sr @ sr_observers sr @ concat (map (\<lambda>a. server_request_blocks (sr_request sr a)) (sr_requests sr)) @
       concat (map (\<lambda>o'. observer_blocks (sr_observer sr o')) (sr_observers sr))) m"
    by (rule owned_perm) (simp add: root_blocks_def)
  from server_ok_root [OF assms(1) _ this] add_resource_tree [OF a(1) t] show ?thesis by (simp add: a(2))
qed

lemma server_ok_remove_resource:
  assumes "server_ok live F k extra sr"
  shows "server_ok live F k extra (sr\<lparr>sr_server := nabto_coap_server_remove_resource r (sr_server sr)\<rparr>)"
proof -
  have "root_blocks (map_option (write_resource r v) x) = root_blocks x" for v x
    by (cases x) (simp_all add: root_blocks_def)
  then have "server_blocks (sr\<lparr>sr_server := nabto_coap_server_remove_resource r (sr_server sr)\<rparr>) = server_blocks sr"
    by (simp add: server_blocks_def nabto_coap_server_remove_resource_def)
  then show ?thesis using assms
    by (auto simp: server_ok_def server_holds_def server_shape_def nabto_coap_server_remove_resource_def)
qed

end
