(* ===== verification/Coap_Server_Packets.thy ===== *)
theory Coap_Server_Packets
  imports Coap_Server_Ops
begin

text \<open>
  The packets that arrive keep the objects of the CoAP server and its memory together.
\<close>

section \<open>Slots\<close>

lemma make_error_same:
  "nabto_coap_server_make_error_response connection msg code description sr =
     sr\<lparr>sr_errorConnection := sr_errorConnection sr', sr_errorCode := sr_errorCode sr', sr_errorToken := sr_errorToken sr',
        sr_errorType := sr_errorType sr', sr_errorMessageId := sr_errorMessageId sr', sr_errorPayload := sr_errorPayload sr',
        sr_messageId := sr_messageId sr'\<rparr>"
  if "sr' = nabto_coap_server_make_error_response connection msg code description sr"
  unfolding that by (simp add: nabto_coap_server_make_error_response_def Let_def next_message_id_eq)

lemma server_ok_make_error [simp]:
  "server_ok live F k extra (nabto_coap_server_make_error_response connection msg code description sr) = server_ok live F k extra sr"
  by (subst make_error_same [OF refl]) simp

lemma make_error_fields [simp]:
  "sr_requests (nabto_coap_server_make_error_response connection msg code description sr) = sr_requests sr"
  "sr_request (nabto_coap_server_make_error_response connection msg code description sr) = sr_request sr"
  "sr_observers (nabto_coap_server_make_error_response connection msg code description sr) = sr_observers sr"
  "sr_observer (nabto_coap_server_make_error_response connection msg code description sr) = sr_observer sr"
  "sr_server (nabto_coap_server_make_error_response connection msg code description sr) = sr_server sr"
  "sr_nullAccess (nabto_coap_server_make_error_response connection msg code description sr) = sr_nullAccess sr"
  by (subst make_error_same [OF refl]; simp)+

lemma server_ok_queue [simp]:
  "server_ok live F k extra (nabto_coap_server_queue_ack connection m sr) = server_ok live F k extra sr"
  "server_ok live F k extra (nabto_coap_server_queue_rst connection m sr) = server_ok live F k extra sr"
  by (simp_all add: nabto_coap_server_queue_ack_def nabto_coap_server_queue_rst_def)

lemma queue_fields [simp]:
  "sr_requests (nabto_coap_server_queue_ack connection m sr) = sr_requests sr"
  "sr_request (nabto_coap_server_queue_ack connection m sr) = sr_request sr"
  "sr_observers (nabto_coap_server_queue_ack connection m sr) = sr_observers sr"
  "sr_observer (nabto_coap_server_queue_ack connection m sr) = sr_observer sr"
  "sr_server (nabto_coap_server_queue_ack connection m sr) = sr_server sr"
  "sr_nullAccess (nabto_coap_server_queue_ack connection m sr) = sr_nullAccess sr"
  by (simp_all add: nabto_coap_server_queue_ack_def)

lemma update_queue:
  "update_request a f (nabto_coap_server_queue_ack connection m sr) = nabto_coap_server_queue_ack connection m (update_request a f sr)"
  by (simp add: nabto_coap_server_queue_ack_def update_request_def)

section \<open>Chunks of a request\<close>

lemma server_ok_refuse:
  "server_ok live F k extra sr \<Longrightarrow> a \<in> set (sr_requests sr) \<Longrightarrow>
     server_ok live F k extra (refuse_request a msg code description sr)"
  unfolding refuse_request_def by (intro server_ok_discard_request) simp_all

abbreviation to_user :: "address \<Rightarrow> 'm server_requests \<Rightarrow> 'm server_requests" where
  "to_user a \<equiv> update_request a (\<lambda>r. r\<lparr>sq_state := STATE_USER\<rparr>)"

lemma server_ok_to_user:
  "server_ok live F k extra sr \<Longrightarrow> a \<in> set (sr_requests sr) \<Longrightarrow> server_ok live F k extra (to_user a sr)"
  by (rule server_ok_request_same) (simp_all add: server_request_blocks_def)

lemma server_ok_arm:
  "server_ok live F k extra sr \<Longrightarrow> a \<in> set (sr_requests sr) \<Longrightarrow> server_ok live F k extra (nabto_coap_server_request_arm_timeout a sr)"
  unfolding nabto_coap_server_request_arm_timeout_def
  by (rule server_ok_request_same) (simp_all add: server_request_blocks_def)

lemma arm_fields [simp]:
  "sr_requests (nabto_coap_server_request_arm_timeout a sr) = sr_requests sr"
  "sr_observers (nabto_coap_server_request_arm_timeout a sr) = sr_observers sr"
  "sr_server (nabto_coap_server_request_arm_timeout a sr) = sr_server sr"
  by (simp_all add: nabto_coap_server_request_arm_timeout_def)

lemma update_request_twice:
  "update_request a g (update_request a f sr) = update_request a (g \<circ> f) sr"
  by (simp add: update_request_def)

lemma block_absolute_pos: "0 < NABTO_COAP_BLOCK_SIZE_ABSOLUTE b"
  by (simp add: NABTO_COAP_BLOCK_SIZE_ABSOLUTE_def nabto_coap_block_size_from_szx_def push_bit_eq_mult)

lemma im_payload_data: "im_payloadLength msg = length (im_data msg)"
  by (simp add: im_payloadLength_def im_data_def split: option.splits)

text \<open>A payload of the request takes the place of the old one, which is freed unless it was empty.\<close>

lemma server_ok_new_body:
  assumes "server_ok live F k [] sr" "a \<in> set (sr_requests sr)" "server_calloc n sr = (Some p, sr1)"
    "sq_payload (f (sr_request sr a)) = Some (p, bs)"
    "sq_response (f (sr_request sr a)) = sq_response (sr_request sr a)"
    "sq_parameters (f (sr_request sr a)) = sq_parameters (sr_request sr a)"
    "sq_observer (f (sr_request sr a)) = sq_observer (sr_request sr a)"
    "sq_state (f (sr_request sr a)) = STATE_REQUEST \<Longrightarrow> bs \<noteq> []"
  shows "server_ok live F k [] (update_request a f (server_free_owned (sq_payload (sr_request sr a)) sr1))"
proof -
  note c = server_ok_calloc [OF assms(1,3)]
  have r: "sr_request sr1 = sr_request sr" "sr_requests sr1 = sr_requests sr" "sr_observers sr1 = sr_observers sr"
    by (subst c(2); simp)+
  have "server_ok live F k (owned_blocks (sq_payload (sr_request sr a)) @ []) (update_request a f sr1)"
    by (rule server_ok_request [where extra = "[p]"])
      (use c(1) assms r in \<open>auto simp: server_request_blocks_def\<close>)
  then show ?thesis unfolding free_commutes by (rule server_ok_free_owned)
qed

lemma append_block1_ok:
  assumes "server_ok live F k [] sr" "a \<in> set (sr_requests sr)" "sq_state (sr_request sr a) = STATE_REQUEST"
    "append_block1 a msg sr = (done, sr')"
  shows "\<not> done \<Longrightarrow> server_ok live F k [] sr'"
    "done \<Longrightarrow> NABTO_COAP_BLOCK_MORE (im_block1 msg) \<Longrightarrow> server_ok live F k [] sr'"
    "done \<Longrightarrow> server_ok live F k [] (to_user a sr')"
    "done \<Longrightarrow> sr_requests sr' = sr_requests sr"
proof -
  let ?sr = "update_request a (\<lambda>r. r\<lparr>sq_hasBlock1 := True\<rparr>) sr"
  let ?r = "sr_request ?sr a"
  let ?more = "NABTO_COAP_BLOCK_MORE (im_block1 msg)"
  have ok: "server_ok live F k [] ?sr"
    by (rule server_ok_request_same) (use assms in \<open>simp_all add: server_request_blocks_def\<close>)
  have a: "a \<in> set (sr_requests ?sr)" using assms(2) by simp
  have shape: "0 < sq_payloadLength ?r \<or> sq_payload ?r = None"
    using assms(1-3) by (auto simp: server_ok_def server_shape_def)
  have *: "(\<not> done \<longrightarrow> server_ok live F k [] sr') \<and> (done \<longrightarrow> (?more \<longrightarrow> server_ok live F k [] sr') \<and>
      server_ok live F k [] (to_user a sr') \<and> sr_requests sr' = sr_requests sr)"
  proof (cases "sq_payloadLength ?r \<noteq> NABTO_COAP_BLOCK_OFFSET (im_block1 msg) \<or>
      ?more \<and> im_payloadLength msg \<noteq> NABTO_COAP_BLOCK_SIZE_ABSOLUTE (im_block1 msg)")
    case True
    then have "\<not> done \<and> (\<exists>c d. sr' = refuse_request a msg c d ?sr)"
      using assms(4) unfolding append_block1_def Let_def by (auto split: if_splits)
    then show ?thesis using server_ok_refuse [OF ok a] by auto
  next
    case False
    obtain q sr1 where q: "server_calloc (sq_payloadLength ?r + im_payloadLength msg + 1) ?sr = (q, sr1)" by fastforce
    note c = server_ok_calloc [OF ok q]
    have f: "sr_requests sr1 = sr_requests sr" "sr_request sr1 = sr_request ?sr" by (subst c(2); simp)+
    show ?thesis
    proof (cases q)
      case None
      then have "\<not> done \<and> sr' = refuse_request a msg CODE_SERVICE_UNAVAILABLE (Some outOfResources) sr1"
        using assms(4) False q unfolding append_block1_def Let_def by (auto split: if_splits)
      then show ?thesis using server_ok_refuse [of live F k "[]" sr1 a] c(1) None f assms(2) by auto
    next
      case (Some p)
      let ?f = "\<lambda>r. r\<lparr>sq_payload := Some (p, owned_data (sq_payload r) @ im_data msg), sq_messageId := im_messageId msg,
          sq_block1Ack := push_bit 4 (NABTO_COAP_BLOCK_NUM (im_block1 msg)) + NABTO_COAP_BLOCK_SIZE (im_block1 msg)\<rparr>"
      define sr2 where "sr2 = update_request a ?f (server_free_owned (sq_payload (sr_request ?sr a)) sr1)"
      have e: "(if 0 < sq_payloadLength (sr_request sr1 a) then server_free_owned (sq_payload (sr_request sr1 a)) sr1 else sr1) =
          server_free_owned (sq_payload (sr_request ?sr a)) sr1"
        using shape f by (auto simp: server_free_owned_def)
      have d: "done" "sr' = (if ?more then nabto_coap_server_request_arm_timeout a
          (update_request a (\<lambda>r. r\<lparr>sq_block1Ack := sq_block1Ack r + push_bit 3 1, sq_hasBlock1Ack := True\<rparr>) sr2) else sr2)"
        using assms(4) False q Some e f unfolding append_block1_def Let_def sr2_def by (auto split: if_splits)
      have reqs: "sr_requests sr2 = sr_requests sr" by (simp add: sr2_def f)
      have user: "server_ok live F k [] (to_user a sr2)"
        unfolding sr2_def update_request_twice
        by (rule server_ok_new_body [OF ok a q [unfolded Some]]) simp_all
      show ?thesis
      proof (cases ?more)
        case True
        have pos: "0 < im_payloadLength msg" using False True block_absolute_pos [of "im_block1 msg"] by auto
        have ok2: "server_ok live F k [] sr2"
          unfolding sr2_def
          by (rule server_ok_new_body [OF ok a q [unfolded Some], where bs = "owned_data (sq_payload ?r) @ im_data msg"])
            (use pos in \<open>simp_all add: im_payload_data\<close>)
        have ok3: "server_ok live F k [] sr'"
          unfolding d(2) using True
          by (simp, intro server_ok_arm server_ok_request_same) (use ok2 reqs assms(2) in \<open>simp_all add: server_request_blocks_def\<close>)
        moreover have "sr_requests sr' = sr_requests sr" using d(2) reqs True by simp
        ultimately show ?thesis using d(1) server_ok_to_user [OF ok3] assms(2) by auto
      next
        case False
        then show ?thesis using d user reqs by simp
      qed
    qed
  qed
  show "\<not> done \<Longrightarrow> server_ok live F k [] sr'"
    "done \<Longrightarrow> NABTO_COAP_BLOCK_MORE (im_block1 msg) \<Longrightarrow> server_ok live F k [] sr'"
    "done \<Longrightarrow> server_ok live F k [] (to_user a sr')" "done \<Longrightarrow> sr_requests sr' = sr_requests sr"
    using * by auto
qed

lemma whole_payload_ok:
  assumes "server_ok live F k [] sr" "a \<in> set (sr_requests sr)" "whole_payload a msg sr = (done, sr')"
  shows "server_ok live F k [] sr'" "done \<Longrightarrow> sr_requests sr' = sr_requests sr"
proof -
  have "server_ok live F k [] sr' \<and> (done \<longrightarrow> sr_requests sr' = sr_requests sr)"
  proof (cases "im_payloadLength msg = 0")
    case True
    then show ?thesis using assms by (simp add: whole_payload_def)
  next
    case False
    let ?pl = "sq_payload (sr_request sr a)"
    let ?n = "\<lambda>r. r\<lparr>sq_payload := None\<rparr>"
    let ?sr = "server_free_owned ?pl sr"
    have ok: "server_ok live F k [] (update_request a ?n ?sr)"
      unfolding free_commutes
      by (rule server_ok_free_owned, rule server_ok_request [where extra = "[]"])
        (use assms(1,2) in \<open>auto simp: server_request_blocks_def server_ok_def server_shape_def\<close>)
    have cal: "server_calloc sz (update_request a f s) = (q, update_request a f s')" if "server_calloc sz s = (q, s')"
      for sz f q and s s' :: "'a server_requests"
      using that by (auto simp: server_calloc_def update_request_def split: prod.splits)
    obtain q sr1 where q: "server_calloc (im_payloadLength msg + 1) ?sr = (q, sr1)" by fastforce
    note c = server_ok_calloc [OF ok cal [OF q]]
    have f: "sr_requests sr1 = sr_requests sr" "sr_request sr1 = sr_request sr" "sr_observers sr1 = sr_observers sr"
      using q by (auto simp: server_calloc_def split: prod.splits)
    show ?thesis
    proof (cases q)
      case None
      then have "\<not> done \<and> sr' = discard_request a (update_request a ?n sr1)"
        using assms(3) False q by (simp add: whole_payload_def)
      moreover have "server_ok live F k [] (discard_request a (update_request a ?n sr1))"
        by (rule server_ok_discard_request) (use c(1) None f assms(2) in simp_all)
      ultimately show ?thesis by simp
    next
      case (Some p)
      have sr': "done" "sr' = update_request a (\<lambda>r. r\<lparr>sq_payload := Some (p, im_data msg)\<rparr>) sr1"
        using assms(3) False q Some by (simp_all add: whole_payload_def)
      have "server_ok live F k [] (update_request a (\<lambda>r. r\<lparr>sq_payload := Some (p, im_data msg)\<rparr>) (update_request a ?n sr1))"
        by (rule server_ok_request [where extra = "[p]"])
          (use c(1) Some f assms(1,2) False in \<open>auto simp: server_request_blocks_def server_ok_def server_shape_def im_payload_data\<close>)
      moreover have "update_request a (\<lambda>r. r\<lparr>sq_payload := Some (p, im_data msg)\<rparr>) (update_request a ?n sr1) = sr'"
        unfolding sr'(2) update_request_twice by (simp add: comp_def)
      ultimately show ?thesis using f sr' by simp
    qed
  qed
  then show "server_ok live F k [] sr'" "done \<Longrightarrow> sr_requests sr' = sr_requests sr" by auto
qed

lemma call_handler_ok:
  assumes "server_ok live F k extra (to_user a sr)" "call_handler a sr = (call, sr')"
  shows "server_ok live F k extra sr'"
proof -
  have "sr' = to_user a sr \<or> sr' = (to_user a sr)\<lparr>sr_nullAccess := True\<rparr>"
    using assms(2) unfolding call_handler_def Let_def by (auto split: option.splits)
  then show ?thesis using assms(1) by auto
qed

text \<open>The ways a chunk can end.\<close>

lemma data_for_request_cases:
  assumes "nabto_coap_server_handle_data_for_request a msg sr = (call, sr')"
  obtains c d where "call = None" "sr' = refuse_request a msg c d sr"
  | c d where "call = None" "sr' = refuse_request a msg c d (chunk_options a msg sr)"
  | "call = None" "(if im_hasBlock1 msg then append_block1 a msg (chunk_options a msg sr)
      else whole_payload a msg (chunk_options a msg sr)) = (False, sr')"
  | sr3 where "call = None" "im_hasBlock1 msg" "NABTO_COAP_BLOCK_MORE (im_block1 msg)"
      "append_block1 a msg (chunk_options a msg sr) = (True, sr3)" "sr' = acknowledge_chunk a msg sr3"
  | sr3 where "\<not> (im_hasBlock1 msg \<and> NABTO_COAP_BLOCK_MORE (im_block1 msg))"
      "(if im_hasBlock1 msg then append_block1 a msg (chunk_options a msg sr)
        else whole_payload a msg (chunk_options a msg sr)) = (True, sr3)"
      "call_handler a (acknowledge_chunk a msg sr3) = (call, sr')"
  using assms unfolding nabto_coap_server_handle_data_for_request_def Let_def
  by (auto split: if_splits prod.splits bool.splits)

lemma chunk_options_fields [simp]:
  "sr_requests (chunk_options a msg sr) = sr_requests sr"
  "sr_observers (chunk_options a msg sr) = sr_observers sr"
  "sr_server (chunk_options a msg sr) = sr_server sr"
  "sq_state (sr_request (chunk_options a msg sr) b) = sq_state (sr_request sr b)"
  "sq_isFreed (sr_request (chunk_options a msg sr) b) = sq_isFreed (sr_request sr b)"
  by (simp_all add: chunk_options_def Let_def)

lemma chunk_options_ok:
  "server_ok live F k extra sr \<Longrightarrow> a \<in> set (sr_requests sr) \<Longrightarrow> server_ok live F k extra (chunk_options a msg sr)"
  by (auto simp: chunk_options_def Let_def server_request_blocks_def intro!: server_ok_request_same)

lemma acknowledge_chunk_ok [simp]:
  "server_ok live F k extra (acknowledge_chunk a msg sr) = server_ok live F k extra sr"
  "server_ok live F k extra (to_user a (acknowledge_chunk b msg sr)) = server_ok live F k extra (to_user a sr)"
  by (simp_all add: acknowledge_chunk_def update_queue)

lemma data_for_request_ok:
  assumes "server_ok live F k [] sr" "a \<in> set (sr_requests sr)" "sq_state (sr_request sr a) = STATE_REQUEST"
    "nabto_coap_server_handle_data_for_request a msg sr = (call, sr')"
  shows "server_ok live F k [] sr'"
proof -
  let ?sr = "chunk_options a msg sr"
  have o: "server_ok live F k [] ?sr" "a \<in> set (sr_requests ?sr)" "sq_state (sr_request ?sr a) = STATE_REQUEST"
    using assms(1-3) chunk_options_ok by auto
  note b = append_block1_ok [OF o] and w = whole_payload_ok [OF o(1,2)]
  from assms(4) show ?thesis
  proof (cases rule: data_for_request_cases)
    case (5 sr3)
    have "server_ok live F k [] (to_user a sr3)"
    proof (cases "im_hasBlock1 msg")
      case True
      then show ?thesis using b(3) 5(2) by auto
    next
      case False
      then show ?thesis using w 5(2) o(2) by (auto intro!: server_ok_to_user)
    qed
    then show ?thesis using call_handler_ok 5(3) by (metis acknowledge_chunk_ok(2))
  qed (use b w assms(1,2) o in \<open>auto intro: server_ok_refuse split: if_splits\<close>)
qed

section \<open>Further blocks and new requests\<close>

lemma data_for_response_ok:
  assumes "server_ok live F k [] sr" "a \<in> set (sr_requests sr)"
  shows "server_ok live F k [] (nabto_coap_server_handle_data_for_response a msg sr)"
proof -
  let ?f = "update_request a (\<lambda>r. r\<lparr>sq_messageId := im_messageId msg\<rparr>) sr"
  have ok: "server_ok live F k [] ?f"
    by (rule server_ok_request_same) (use assms in \<open>simp_all add: server_request_blocks_def\<close>)
  have "server_ok live F k [] (update_response a (\<lambda>p. p\<lparr>sp_block2Current := n, sp_block2Size := m,
      sp_messageId := sr_messageId s + 1, sp_sendNow := True, sp_waitingForAck := False, sp_retransmissions := 0\<rparr>)
      (s\<lparr>sr_messageId := sr_messageId s + 1\<rparr>))"
    if "server_ok live F k [] s" "a \<in> set (sr_requests s)" for n m s
    by (rule server_ok_response_same) (use that in \<open>simp_all add: server_response_blocks_def\<close>)
  from this [OF ok] this [of "nabto_coap_server_queue_ack c i ?f" for c i] ok assms show ?thesis
    unfolding nabto_coap_server_handle_data_for_response_def Let_def next_message_id_eq
    by (auto intro!: server_ok_done_request)
qed

lemma server_find_resource_ok:
  assumes "server_ok live F k extra sr" "server_find_resource msg (Some []) sr = (found, ps, sr')"
  shows "\<exists>qs. ps = Some qs \<and> server_ok live F k (parameters_blocks qs @ extra) sr'"
    "sr_requests sr' = sr_requests sr" "sr_request sr' = sr_request sr" "sr_observers sr' = sr_observers sr"
proof -
  have "(\<exists>qs. ps = Some qs \<and> server_ok live F k (parameters_blocks qs @ extra) sr') \<and>
    sr_requests sr' = sr_requests sr \<and> sr_request sr' = sr_request sr \<and> sr_observers sr' = sr_observers sr"
  proof (cases "sv_root (sr_server sr)")
    case None
    then show ?thesis using assms by (auto simp: server_find_resource_def)
  next
    case (Some rootNode)
    obtain m where f: "nabto_coap_server_find_resource (sv_allocator (sr_server sr)) rootNode msg (Some []) (sr_memory sr) = (found, ps, m)"
      "sr' = sr\<lparr>sr_memory := m\<rparr>"
      using assms(2) Some by (auto simp: server_find_resource_def split: prod.splits)
    obtain n where l: "find_resource_loop (sv_allocator (sr_server sr)) rootNode (nabto_coap_option_iterator_init (im_options msg))
        (Some []) (sr_memory sr) = (n, ps, m)"
      using f(1) by (auto simp: nabto_coap_server_find_resource_def split: prod.splits option.splits)
    have "owned live F (parameters_blocks [] @ extra @ server_blocks sr) (sr_memory sr)"
      "allocator_ok (sv_allocator (sr_server sr)) live"
      using assms(1) by (auto simp: server_ok_def server_holds_def)
    from find_resource_loop_owned [OF l this(2,1)] obtain qs where
      q: "ps = Some qs" "owned live F (parameters_blocks qs @ extra @ server_blocks sr) m" by blast
    have "server_blocks sr' = server_blocks sr" by (simp add: f(2) server_blocks_def)
    then show ?thesis using q assms(1) by (auto simp: f(2) server_ok_def server_holds_def server_shape_def)
  qed
  then show "\<exists>qs. ps = Some qs \<and> server_ok live F k (parameters_blocks qs @ extra) sr'"
    "sr_requests sr' = sr_requests sr" "sr_request sr' = sr_request sr" "sr_observers sr' = sr_observers sr" by auto
qed

lemma server_find_resource_None:
  assumes "server_find_resource msg None sr = (found, ps, sr')"
  shows "sr' = sr \<or> sr' = sr\<lparr>sr_nullAccess := True\<rparr>"
proof (cases "sv_root (sr_server sr)")
  case None
  then show ?thesis using assms by (simp add: server_find_resource_def)
next
  case (Some rootNode)
  then show ?thesis using assms
    by (auto simp: server_find_resource_def nabto_coap_server_find_resource_def dest: find_resource_loop_None
        split: prod.splits option.splits)
qed

lemma request_new_ok:
  assumes "server_ok live F k extra sr" "nabto_coap_server_request_new sr = (Some a, sr')"
  shows "server_ok live F k (a # extra) sr'" "sr_requests sr' = sr_requests sr" "sr_observers sr' = sr_observers sr"
    "server_request_blocks (sr_request sr' a) = []" "sq_observer (sr_request sr' a) = None" "sq_payload (sr_request sr' a) = None"
proof -
  obtain sr1 where q: "server_calloc sizeof_server_request sr = (Some a, sr1)"
    using assms(2) by (auto simp: nabto_coap_server_request_new_def split: prod.splits option.splits)
  note c = server_ok_calloc [OF assms(1) q]
  have f: "sr_requests sr1 = sr_requests sr" "sr_observers sr1 = sr_observers sr" by (subst c(2); simp)+
  have s: "sr' = update_request a (\<lambda>_. zero_server_request\<lparr>sq_response :=
      zero_server_response\<lparr>sp_messageId := sr_messageId sr1 + 1, sp_block2Size := 5\<rparr>\<rparr>) (sr1\<lparr>sr_messageId := sr_messageId sr1 + 1\<rparr>)"
    using assms(2) q by (simp add: nabto_coap_server_request_new_def next_message_id_eq)
  have "a \<notin> set (sr_requests sr1)" using server_ok_distinct(3) [OF c(1)] by simp
  then show "server_ok live F k (a # extra) sr'" using c(1) by (simp add: s server_ok_other_request)
  show "sr_requests sr' = sr_requests sr" "sr_observers sr' = sr_observers sr"
    "server_request_blocks (sr_request sr' a) = []" "sq_observer (sr_request sr' a) = None" "sq_payload (sr_request sr' a) = None"
    by (simp_all add: s f server_request_blocks_def server_response_blocks_def zero_server_request_def zero_server_response_def)
qed

lemma request_new_None:
  "server_ok live F k extra sr \<Longrightarrow> nabto_coap_server_request_new sr = (None, sr') \<Longrightarrow>
     server_ok live F k extra sr' \<and> sr_requests sr' = sr_requests sr"
  using server_ok_calloc [of live F k extra sr sizeof_server_request None]
  by (auto simp: nabto_coap_server_request_new_def next_message_id_eq server_calloc_def split: prod.splits option.splits)

lemma deregister_ok:
  assumes "server_ok live F k extra sr"
  shows "server_ok live F k extra (deregister_observer connection token sr)"
    "sr_requests (deregister_observer connection token sr) = sr_requests sr"
proof -
  show "server_ok live F k extra (deregister_observer connection token sr)"
    using assms by (auto simp: deregister_observer_def find_Some_iff intro!: server_ok_observer_free split: option.splits)
  show "sr_requests (deregister_observer connection token sr) = sr_requests sr"
    by (simp add: deregister_observer_def split: option.splits)
qed

text \<open>A request that is being made, with its blocks still in the hands of the operation.\<close>

definition in_making :: "('m \<Rightarrow> address set) \<Rightarrow> address set \<Rightarrow> nat \<Rightarrow> address \<Rightarrow> 'm server_requests \<Rightarrow> bool" where
  "in_making live F k a sr \<longleftrightarrow> server_ok live F (Suc k) (a # server_request_blocks (sr_request sr a)) sr \<and>
     sq_observer (sr_request sr a) = None \<and> sq_payload (sr_request sr a) = None"

lemma in_making_update:
  assumes "in_making live F k a sr" "server_request_blocks (f (sr_request sr a)) = server_request_blocks (sr_request sr a)"
    "sq_observer (f (sr_request sr a)) = None" "sq_payload (f (sr_request sr a)) = None"
  shows "in_making live F k a (update_request a f sr)"
proof -
  have "a \<notin> set (sr_requests sr)"
    using assms(1) server_ok_distinct(3) [of live F "Suc k" "a # server_request_blocks (sr_request sr a)" sr a] by (simp add: in_making_def)
  then show ?thesis using assms by (simp add: in_making_def server_ok_other_request)
qed

lemma in_making_deregister:
  assumes "in_making live F k a sr"
  shows "in_making live F k a (deregister_observer connection token sr)"
proof -
  have out: "a \<notin> set (sr_requests sr)"
    using assms server_ok_distinct(3) [of live F "Suc k" "a # server_request_blocks (sr_request sr a)" sr a] by (simp add: in_making_def)
  have "sr_request (nabto_coap_server_observer_free o' sr) a = sr_request sr a" for o'
    using out by (simp add: nabto_coap_server_observer_free_def Let_def nabto_coap_server_observer_remove_from_list_def
        forget_observer_loop_eq)
  then have e: "sr_request (deregister_observer connection token sr) a = sr_request sr a"
    by (simp add: deregister_observer_def split: option.splits)
  show ?thesis using assms deregister_ok(1) unfolding in_making_def e by blast
qed

lemma new_request_ok:
  assumes "server_ok live F k [] sr" "nabto_coap_server_handle_new_request msg connection sr = (new, sr')"
  shows "server_ok live F k [] sr'" "new = Some a \<Longrightarrow> a \<in> set (sr_requests sr')"
proof -
  obtain found ps sr1 where f: "server_find_resource msg None sr = (found, ps, sr1)" by (metis prod.exhaust)
  have ok1: "server_ok live F k [] sr1" using server_find_resource_None [OF f] assms(1) by auto
  have "server_ok live F k [] sr' \<and> (new = Some a \<longrightarrow> a \<in> set (sr_requests sr'))"
  proof (cases "found = None \<or> sr_maxRequests sr1 \<le> sr_activeRequests sr1")
    case True
    then show ?thesis using assms(2) f ok1
      by (auto simp: nabto_coap_server_handle_new_request_def split: option.splits if_splits)
  next
    case False
    obtain p sr2 where p: "nabto_coap_server_request_new sr1 = (p, sr2)" by fastforce
    show ?thesis
    proof (cases p)
      case None
      then show ?thesis using assms(2) f False p request_new_None [OF ok1 p [unfolded None]]
        by (auto simp: nabto_coap_server_handle_new_request_def)
    next
      case (Some b)
      note n = request_new_ok [OF ok1 p [unfolded Some]]
      define sr3 where "sr3 = sr2\<lparr>sr_activeRequests := sr_activeRequests sr2 + 1\<rparr>"
      have ok3: "server_ok live F (Suc k) [b] sr3" unfolding sr3_def by (rule server_ok_active(2) [OF n(1)])
      obtain found2 ps2 sr4 where f2: "server_find_resource msg (Some []) sr3 = (found2, ps2, sr4)" by (metis prod.exhaust)
      note r = server_find_resource_ok [OF ok3 f2]
      obtain qs where q: "ps2 = Some qs" "server_ok live F (Suc k) (parameters_blocks qs @ [b]) sr4" using r(1) by blast
      define sr5 where "sr5 = update_request b (\<lambda>r. r\<lparr>sq_parameters := qs\<rparr>) sr4"
      have out: "b \<notin> set (sr_requests sr4)" using server_ok_distinct(3) [OF q(2)] by simp
      have z: "sr_request sr4 b = sr_request sr2 b" using r(3) by (simp add: sr3_def)
      have bl: "server_request_blocks (sr_request sr5 b) = parameters_blocks qs"
        using n(4) by (simp add: sr5_def z server_request_blocks_def)
      have "server_ok live F (Suc k) (parameters_blocks qs @ [b]) sr5"
        using q(2) out by (simp add: sr5_def server_ok_other_request)
      then have "server_ok live F (Suc k) (b # parameters_blocks qs) sr5" by (rule server_ok_perm) simp
      then have mk: "in_making live F k b sr5" using bl n(5,6) by (simp add: in_making_def sr5_def z)
      show ?thesis
      proof (cases found2)
        case None
        let ?sr6 = "nabto_coap_server_make_error_response connection msg CODE_SERVICE_UNAVAILABLE (Some outOfResources) sr5"
        let ?sr7 = "update_request b (\<lambda>r. r\<lparr>sq_isFreed := True, sq_state := STATE_DONE\<rparr>) ?sr6"
        have "in_making live F k b ?sr6" using mk by (simp add: in_making_def)
        then have "in_making live F k b ?sr7"
          by (rule in_making_update) (use n(5,6) in \<open>simp_all add: server_request_blocks_def sr5_def z\<close>)
        then have "server_ok live F k [] (nabto_coap_server_free_request b ?sr7)"
          unfolding in_making_def by (intro server_ok_free_unlisted(1)) simp_all
        moreover have "new = None" "sr' = discard_request b ?sr6"
          using assms(2) f False p Some f2 None q(1)
          by (auto simp: nabto_coap_server_handle_new_request_def sr3_def sr5_def Let_def)
        ultimately show ?thesis by (simp add: discard_request_def)
      next
        case res: (Some res)
        define sr6 where "sr6 = update_request b (\<lambda>r. r\<lparr>sq_connection := connection, sq_type := im_type msg,
            sq_method := im_code msg, sq_token := im_token msg, sq_messageId := im_messageId msg, sq_resource := Some res\<rparr>) sr5"
        define sr7 where "sr7 = nabto_coap_server_request_arm_timeout b sr6"
        define sr8 where "sr8 = (if im_hasObserve msg \<and> im_observe msg = 0 \<and> im_code msg = NABTO_COAP_CODE_GET
            then update_request b (\<lambda>r. r\<lparr>sq_isObserveRegister := True\<rparr>) sr7 else sr7)"
        define sr9 where "sr9 = (if im_hasObserve msg \<and> im_observe msg = 1 \<and> im_code msg = NABTO_COAP_CODE_GET
            then deregister_observer connection (im_token msg) sr8 else sr8)"
        have o: "new = Some b" "sr' = nabto_coap_server_insert_request_into_list b sr9"
          using assms(2) f False p Some f2 res q(1)
          by (auto simp: nabto_coap_server_handle_new_request_def sr3_def sr5_def sr6_def sr7_def sr8_def sr9_def Let_def)
        have m6: "in_making live F k b sr6" unfolding sr6_def
          by (rule in_making_update [OF mk]) (use mk in \<open>simp_all add: in_making_def server_request_blocks_def\<close>)
        have m7: "in_making live F k b sr7" unfolding sr7_def nabto_coap_server_request_arm_timeout_def
          by (rule in_making_update [OF m6]) (use m6 in \<open>simp_all add: in_making_def server_request_blocks_def\<close>)
        have "in_making live F k b (update_request b (\<lambda>r. r\<lparr>sq_isObserveRegister := True\<rparr>) sr7)"
          by (rule in_making_update [OF m7]) (use m7 in \<open>simp_all add: in_making_def server_request_blocks_def\<close>)
        then have m8: "in_making live F k b sr8" unfolding sr8_def using m7 by simp
        have m9: "in_making live F k b sr9" unfolding sr9_def using in_making_deregister [OF m8] m8 by simp
        then have "server_ok live F k [] (nabto_coap_server_insert_request_into_list b sr9)"
          unfolding in_making_def by (intro server_ok_insert) auto
        then show ?thesis using o by (auto simp: nabto_coap_server_insert_request_into_list_def)
      qed
    qed
  qed
  then show "server_ok live F k [] sr'" "new = Some a \<Longrightarrow> a \<in> set (sr_requests sr')" by auto
qed

section \<open>Packets\<close>

lemma handle_ack_ok:
  assumes "server_ok live F k extra sr" "a \<in> set (sr_requests sr)"
  shows "server_ok live F k extra (nabto_coap_server_handle_ack a msg sr)"
proof -
  have w: "server_ok live F k extra (update_response a (\<lambda>p. p\<lparr>sp_waitingForAck := False\<rparr>) sr)"
    by (rule server_ok_response_same) (use assms in \<open>simp_all add: server_response_blocks_def\<close>)
  have "server_ok live F k extra (update_response a (\<lambda>p. p\<lparr>sp_retransmissions := 0, sp_timeout := t\<rparr>)
      (update_response a (\<lambda>p. p\<lparr>sp_waitingForAck := False\<rparr>) sr))" for t
    by (rule server_ok_response_same) (use w assms in \<open>simp_all add: server_response_blocks_def\<close>)
  then show ?thesis using assms w
    by (auto simp: nabto_coap_server_handle_ack_def Let_def intro!: server_ok_done_request)
qed

lemma find_in: "find P xs = Some x \<Longrightarrow> x \<in> set xs"
  by (auto simp: find_Some_iff)

lemma handle_rst_ok:
  "server_ok live F k extra sr \<Longrightarrow> server_ok live F k extra (nabto_coap_server_handle_rst messageId connection sr)"
  by (auto simp: nabto_coap_server_handle_rst_def dest!: find_in intro!: server_ok_done_request server_ok_observer_free
      split: option.splits)

lemma handle_data_ok:
  assumes "server_ok live F k [] sr" "a \<in> set (sr_requests sr)" "handle_data a msg sr = (call, sr')"
  shows "server_ok live F k [] sr'"
  using assms data_for_request_ok [OF assms(1,2)] data_for_response_ok [OF assms(1,2)]
  by (auto simp: handle_data_def split: if_splits)

lemma duplicate_ok:
  assumes "server_ok live F k extra sr" "a \<in> set (sr_requests sr)"
  shows "server_ok live F k extra (duplicate_request a msg connection sr)"
  using assms by (auto simp: duplicate_request_def server_request_blocks_def intro!: server_ok_arm server_ok_request_same)

theorem server_ok_handle_packet:
  assumes "server_ok live F k [] sr" "nabto_coap_server_handle_packet connection packet sr = (call, sr')"
  shows "server_ok live F k [] sr'"
proof -
  have req: "server_ok live F k [] s" if "handle_request_message msg connection sr = (c, s)" for msg c s
  proof (cases "nabto_coap_server_find_request (im_token msg) connection sr")
    case (Some a)
    then have "a \<in> set (sr_requests sr)" by (auto simp: nabto_coap_server_find_request_def dest: find_in)
    then show ?thesis using that Some duplicate_ok [OF assms(1)] handle_data_ok [OF assms(1)]
      by (auto simp: handle_request_message_def split: if_splits)
  next
    case None
    obtain new sr1 where n: "nabto_coap_server_handle_new_request msg connection sr = (new, sr1)" by fastforce
    note o = new_request_ok [OF assms(1) n]
    show ?thesis using that None n o handle_data_ok [OF o(1)]
      by (auto simp: handle_request_message_def split: option.splits)
  qed
  have ack: "server_ok live F k [] (handle_ack_message msg connection sr)" for msg
    using assms(1) by (auto simp: handle_ack_message_def nabto_coap_server_find_response_def dest!: find_in
        intro!: handle_ack_ok server_ok_notification_acked split: option.splits)
  show ?thesis
    using assms req ack handle_rst_ok [OF assms(1)]
    by (auto simp: nabto_coap_server_handle_packet_def split: option.splits if_splits)
qed

end
