(* ===== verification/Coap_Server_End.thy ===== *)
theory Coap_Server_End
  imports Coap_Server_Packets
begin

text \<open>
  The end of a CoAP server: a requests context and a server give back all their memory.
\<close>

section \<open>Sentinels\<close>

lemma server_ok_null [simp]: "server_ok live F k extra (sr\<lparr>sr_nullAccess := b\<rparr>) = server_ok live F k extra sr"
  by (simp add: server_ok_def server_holds_def server_shape_def server_blocks_def)

lemma free_sentinel_simps: "free_sentinel None sr = sr\<lparr>sr_memory := nn_allocator_free (sv_allocator (sr_server sr)) None (sr_memory sr)\<rparr>"
  "free_sentinel (Some p) sr = server_free p sr"
  by (simp_all add: free_sentinel_def server_free_def)

lemma server_ok_requests_sentinel:
  assumes "server_ok live F k [] sr"
  shows "server_ok live F k [] ((free_sentinel (sr_requestsSentinel sr) sr)\<lparr>sr_requestsSentinel := None\<rparr>)"
proof (cases "sr_requestsSentinel sr")
  case None
  then show ?thesis using assms
    by (auto simp: free_sentinel_simps server_ok_def server_holds_def server_shape_def server_blocks_def owned_def)
next
  case (Some p)
  have "server_ok live F k [p] (sr\<lparr>sr_requestsSentinel := None\<rparr>)"
    using assms Some by (auto simp: server_ok_def server_holds_def server_shape_def server_blocks_def)
  then have "server_ok live F k [] (server_free p (sr\<lparr>sr_requestsSentinel := None\<rparr>))" by (rule server_ok_free)
  moreover have "(free_sentinel (sr_requestsSentinel sr) sr)\<lparr>sr_requestsSentinel := None\<rparr> = server_free p (sr\<lparr>sr_requestsSentinel := None\<rparr>)"
    by (simp add: Some free_sentinel_simps server_free_def)
  ultimately show ?thesis by simp
qed

lemma server_ok_observers_sentinel:
  assumes "server_ok live F k [] sr" "sr_observersSentinel sr = Some p"
  shows "server_ok live F k [] ((free_sentinel (sr_observersSentinel sr) sr)\<lparr>sr_observersSentinel := None\<rparr>)"
proof -
  have "owned live F ([] @ server_blocks sr) (sr_memory sr)" using assms(1) by (simp add: server_ok_def server_holds_def)
  then have "owned live F ([p] @ server_blocks (sr\<lparr>sr_observersSentinel := None\<rparr>)) (sr_memory sr)"
    by (rule owned_perm) (use assms(2) in \<open>simp add: server_blocks_def\<close>)
  then have "server_ok live F k [p] (sr\<lparr>sr_observersSentinel := None\<rparr>)"
    using assms(1) by (simp add: server_ok_def server_holds_def server_shape_def)
  then have "server_ok live F k [] (server_free p (sr\<lparr>sr_observersSentinel := None\<rparr>))" by (rule server_ok_free)
  moreover have "(free_sentinel (sr_observersSentinel sr) sr)\<lparr>sr_observersSentinel := None\<rparr> = server_free p (sr\<lparr>sr_observersSentinel := None\<rparr>)"
    by (simp add: assms(2) free_sentinel_simps server_free_def)
  ultimately show ?thesis by simp
qed

lemma observers_sentinel_fields [simp]:
  "sr_observersSentinel (server_free p sr) = sr_observersSentinel sr"
  "sr_observersSentinel (server_free_owned pl sr) = sr_observersSentinel sr"
  "sr_observersSentinel (update_request a f sr) = sr_observersSentinel sr"
  "sr_observersSentinel (update_response a g sr) = sr_observersSentinel sr"
  "sr_observersSentinel (nabto_coap_server_remove_request_from_list a sr) = sr_observersSentinel sr"
  by (simp_all add: server_free_def server_free_owned_def update_request_def update_response_def
      nabto_coap_server_remove_request_from_list_def split: option.split)

lemma observers_sentinel_free_request [simp]:
  "sr_observersSentinel (nabto_coap_server_response_release_payload a sr) = sr_observersSentinel sr"
  "sr_observersSentinel (free_parameters_loop ps sr) = sr_observersSentinel sr"
  "sr_observersSentinel (nabto_coap_server_free_request a sr) = sr_observersSentinel sr"
proof -
  show 1: "sr_observersSentinel (nabto_coap_server_response_release_payload a sr) = sr_observersSentinel sr" for sr :: "'a server_requests"
    by (simp add: nabto_coap_server_response_release_payload_def Let_def)
  show 2: "sr_observersSentinel (free_parameters_loop ps sr) = sr_observersSentinel sr" for ps and sr :: "'a server_requests"
    by (induction ps sr rule: free_parameters_loop.induct) simp_all
  show "sr_observersSentinel (nabto_coap_server_free_request a sr) = sr_observersSentinel sr"
    by (simp add: nabto_coap_server_free_request_def Let_def 1 2)
qed

section \<open>Observers and requests\<close>

text \<open>No request is with the application.\<close>

definition none_held :: "'m server_requests \<Rightarrow> bool" where
  "none_held sr \<longleftrightarrow> (\<forall>a\<in>set (sr_requests sr). sq_state (sr_request sr a) = STATE_REQUEST \<or> sq_isFreed (sr_request sr a))"

lemma none_held_observer: "none_held (nabto_coap_server_observer_free o' sr) = none_held sr"
  by (auto simp: none_held_def nabto_coap_server_observer_free_def Let_def nabto_coap_server_observer_remove_from_list_def
      forget_observer_loop_eq)

lemma free_observers_loop_ok:
  assumes "server_ok live F k [] sr" "none_held sr"
  shows "server_ok live F k [] (free_observers_loop (sr_observers sr) sr) \<and> none_held (free_observers_loop (sr_observers sr) sr) \<and>
    sr_observers (free_observers_loop (sr_observers sr) sr) = [] \<and>
    sr_server (free_observers_loop (sr_observers sr) sr) = sr_server sr \<and>
    sr_observersSentinel (free_observers_loop (sr_observers sr) sr) = sr_observersSentinel sr"
  using assms
proof (induction "sr_observers sr" arbitrary: sr)
  case (Cons o' os)
  let ?sr = "nabto_coap_server_observer_free o' sr"
  have "sr_observers ?sr = os" using Cons(2) [symmetric] by simp
  moreover have "server_ok live F k [] ?sr" by (intro server_ok_observer_free Cons(3)) (simp flip: Cons(2))
  moreover have "none_held ?sr" using Cons(4) by (simp add: none_held_observer)
  moreover have "sr_observersSentinel ?sr = sr_observersSentinel sr"
    by (simp add: nabto_coap_server_observer_free_def Let_def nabto_coap_server_observer_remove_from_list_def forget_observer_loop_eq
        server_free_def server_free_owned_def split: option.split)
  ultimately show ?case using Cons(1) [of ?sr] Cons(2) [symmetric] by simp
qed simp

lemma destroy_requests_loop_ok:
  assumes "server_ok live F k [] sr" "none_held sr"
  shows "server_ok live F k [] (destroy_requests_loop (sr_requests sr) sr) \<and>
    sr_requests (destroy_requests_loop (sr_requests sr) sr) = [] \<and>
    sr_observers (destroy_requests_loop (sr_requests sr) sr) = sr_observers sr \<and>
    sr_server (destroy_requests_loop (sr_requests sr) sr) = sr_server sr \<and>
    sr_observersSentinel (destroy_requests_loop (sr_requests sr) sr) = sr_observersSentinel sr"
  using assms
proof (induction "sr_requests sr" arbitrary: sr)
  case (Cons a as)
  let ?sr = "if sq_state (sr_request sr a) = STATE_REQUEST then discard_request a sr else done_request a sr"
  have a: "sr_requests sr = a # as" "a \<notin> set as" using Cons(2) [symmetric] server_ok_distinct(1) [OF Cons(3)] by auto
  have ok: "server_ok live F k [] ?sr" using Cons(3) a by (auto intro: server_ok_discard_request server_ok_done_request)
  have held: "sq_state (sr_request sr a) = STATE_REQUEST \<or> sq_isFreed (sr_request sr a)" using Cons(4) a by (simp add: none_held_def)
  have rq: "sr_requests ?sr = as" using held a
    by (auto simp: discard_request_def done_request_def nabto_coap_server_free_request_def Let_def nabto_coap_server_remove_request_from_list_def)
  have same: "sr_request ?sr b = sr_request sr b" if "b \<noteq> a" for b
    using that by (simp add: discard_request_def done_request_def nabto_coap_server_free_request_def Let_def)
  have "none_held ?sr" using Cons(4) a same unfolding none_held_def rq by (metis list.set_intros(2))
  moreover have "sr_observersSentinel ?sr = sr_observersSentinel sr"
    by (simp add: discard_request_def done_request_def)
  ultimately show ?case using Cons(1) [of ?sr] ok rq a by simp
qed simp

lemma server_ok_requests_destroy:
  assumes "server_ok live F k [] sr" "none_held sr" "sr_observersSentinel sr \<noteq> None"
  shows "server_ok live F k [] (nabto_coap_server_requests_destroy sr)"
    "server_blocks (nabto_coap_server_requests_destroy sr) = root_blocks (sv_root (sr_server sr))"
    "sr_server (nabto_coap_server_requests_destroy sr) = sr_server sr"
proof -
  define sr1 where "sr1 = free_observers_loop (sr_observers sr) sr"
  note 1 = free_observers_loop_ok [OF assms(1,2), folded sr1_def]
  define sr2 where "sr2 = (free_sentinel (sr_observersSentinel sr1) sr1)\<lparr>sr_observersSentinel := None\<rparr>"
  obtain p where p: "sr_observersSentinel sr1 = Some p" using 1 assms(3) by auto
  have ok2: "server_ok live F k [] sr2" unfolding sr2_def by (rule server_ok_observers_sentinel [OF _ p]) (use 1 in simp)
  have f2: "sr_observers sr2 = []" "none_held sr2" "sr_server sr2 = sr_server sr" "sr_observersSentinel sr2 = None"
    using 1 unfolding sr2_def p free_sentinel_simps by (simp_all add: none_held_def)
  define sr3 where "sr3 = (if sr_requestsSentinel sr2 = None then sr2\<lparr>sr_nullAccess := True\<rparr> else sr2)"
  have 3: "server_ok live F k [] sr3" "none_held sr3" "sr_observers sr3 = []" "sr_server sr3 = sr_server sr" "sr_observersSentinel sr3 = None"
    using ok2 f2 by (simp_all add: sr3_def none_held_def)
  define sr4 where "sr4 = destroy_requests_loop (sr_requests sr3) sr3"
  note 4 = destroy_requests_loop_ok [OF 3(1,2), folded sr4_def]
  define sr5 where "sr5 = (free_sentinel (sr_requestsSentinel sr4) sr4)\<lparr>sr_requestsSentinel := None\<rparr>"
  have e: "nabto_coap_server_requests_destroy sr = sr5"
    unfolding nabto_coap_server_requests_destroy_def Let_def sr5_def sr4_def sr3_def sr2_def sr1_def using assms(3) by simp
  show "server_ok live F k [] (nabto_coap_server_requests_destroy sr)"
    unfolding e sr5_def by (rule server_ok_requests_sentinel) (use 4 in simp)
  have "sr_requests sr5 = []" "sr_observers sr5 = []" "sr_server sr5 = sr_server sr" "sr_observersSentinel sr5 = None" "sr_requestsSentinel sr5 = None"
    using 3 4 by (simp_all add: sr5_def free_sentinel_def)
  then show "server_blocks (nabto_coap_server_requests_destroy sr) = root_blocks (sv_root (sr_server sr))"
    "sr_server (nabto_coap_server_requests_destroy sr) = sr_server sr"
    unfolding e by (simp_all add: server_blocks_def)
qed

text \<open>Then the server gives back its tree.\<close>

lemma server_destroy_live:
  assumes "server_ok live F k [] sr" "server_blocks sr = root_blocks (sv_root (sr_server sr))" "sv_root (sr_server sr) = Some rootNode"
  shows "\<exists>m. nabto_coap_server_destroy (sr_server sr) (sr_memory sr) = Some m \<and> live m = F"
proof -
  have "allocator_ok (sv_allocator (sr_server sr)) live" "owned live F (router_blocks rootNode @ []) (sr_memory sr)"
    using assms by (auto simp: server_ok_def server_holds_def root_blocks_def)
  then have "owned live F [] (nabto_coap_router_node_free (sv_allocator (sr_server sr)) rootNode (sr_memory sr))"
    by (rule router_free_owned(1))
  then show ?thesis using assms(3) by (simp add: nabto_coap_server_destroy_def owned_def)
qed

text \<open>Destroying the server releases all that was taken since before it was made.\<close>

definition gives_back :: "('m \<Rightarrow> address set) \<Rightarrow> address set \<Rightarrow> 'm server_requests \<Rightarrow> bool" where
  "gives_back live F sr \<longleftrightarrow>
     (case nabto_coap_server_destroy (sr_server sr) (sr_memory sr) of None \<Rightarrow> False | Some m \<Rightarrow> live m = F)"

lemma server_ok_gives_back:
  assumes "server_ok live F k [] sr" "none_held sr" "sr_observersSentinel sr \<noteq> None" "sv_root (sr_server sr) = Some rootNode"
  shows "gives_back live F (nabto_coap_server_requests_destroy sr)"
proof -
  note d = server_ok_requests_destroy [OF assms(1-3)]
  show ?thesis using server_destroy_live [OF d(1)] d(2,3) assms(4) by (auto simp: gives_back_def)
qed

end
