(* ===== verification/Coap_Server_Reach.thy ===== *)
theory Coap_Server_Reach
  imports Coap_Server_End
begin

text \<open>
  The states that a CoAP server can reach, what holds in all of them, and that a request the application
  holds stays until the application frees it.
\<close>

section \<open>Steps\<close>

text \<open>The requests that the application has: their handler was called and they were not freed.\<close>

definition held :: "address \<Rightarrow> 'm server_requests \<Rightarrow> bool" where
  "held a sr \<longleftrightarrow> a \<in> set (sr_requests sr) \<and> sq_state (sr_request sr a) \<noteq> STATE_REQUEST \<and> \<not> sq_isFreed (sr_request sr a)"

text \<open>One call of the integrator or the application; the label names the request it frees.\<close>

inductive server_step :: "address option \<Rightarrow> 'm server_requests \<Rightarrow> 'm server_requests \<Rightarrow> bool" where
  packet: "nabto_coap_server_handle_packet (Some c) bytes sr = (call, sr') \<Longrightarrow> server_step None sr sr'"
| send: "nabto_coap_server_handle_send room sr = (p, sr') \<Longrightarrow> server_step None sr sr'"
| timeout: "server_step None sr (nabto_coap_server_handle_timeout sr)"
| gone: "server_step None sr (nabto_coap_server_remove_connection (Some c) sr)"
| limit_requests: "server_step None sr (nabto_coap_server_limit_requests n sr)"
| limit_size: "server_step None sr (nabto_coap_server_limit_request_size n sr)"
| limit_observers: "server_step None sr (nabto_coap_server_limit_observers n sr)"
| add: "nabto_coap_server_add_resource code segments handler userData (sr_server sr) (sr_memory sr) = Some (err, res, server, m)
    \<Longrightarrow> server_step None sr (sr\<lparr>sr_server := server, sr_memory := m\<rparr>)"
| remove: "server_step None sr (sr\<lparr>sr_server := nabto_coap_server_remove_resource r (sr_server sr)\<rparr>)"
| notify: "nabto_coap_server_resource_notify res code format payload sr = (err, sr') \<Longrightarrow> server_step None sr sr'"
| remove_observer: "o' \<in> set (sr_observers sr) \<Longrightarrow> server_step None sr (nabto_coap_server_remove_observer o' sr)"
| code: "held a sr \<Longrightarrow> server_step None sr (nabto_coap_server_response_set_code a code sr)"
| code_human: "held a sr \<Longrightarrow> server_step None sr (nabto_coap_server_response_set_code_human a human sr)"
| format: "held a sr \<Longrightarrow> server_step None sr (nabto_coap_server_response_set_content_format a format sr)"
| payload: "held a sr \<Longrightarrow> nabto_coap_server_response_set_payload a bytes sr = (err, sr') \<Longrightarrow> server_step None sr sr'"
| ready: "held a sr \<Longrightarrow> nabto_coap_server_response_ready a sr = (err, sr') \<Longrightarrow> server_step None sr sr'"
| error: "held a sr \<Longrightarrow> nabto_coap_server_send_error_response a status description sr = (err, sr') \<Longrightarrow> server_step None sr sr'"
| accept: "held a sr \<Longrightarrow> nabto_coap_server_request_accept_observe a sr = (err, sr') \<Longrightarrow> server_step None sr sr'"
| free: "held a sr \<Longrightarrow> server_step (Some a) sr (nabto_coap_server_request_free a sr)"

text \<open>A context is made on a server that was made with an allocator of the documented kind; \<open>F\<close> are the blocks in
  use before.\<close>

inductive server_reach :: "('m \<Rightarrow> address set) \<Rightarrow> address set \<Rightarrow> 'm server_requests \<Rightarrow> bool" for live F where
  init: "allocator_ok al live \<Longrightarrow> \<forall>m. live (notifyEvent m) = live m \<Longrightarrow> live m = F \<Longrightarrow>
     nabto_coap_server_init al m = (COAP_OK, server, m1) \<Longrightarrow>
     nabto_coap_server_requests_init server getStamp notifyEvent m1 size_max = (COAP_OK, sr) \<Longrightarrow> server_reach live F sr"
| step: "server_reach live F sr \<Longrightarrow> server_step lbl sr sr' \<Longrightarrow> server_reach live F sr'"

section \<open>Memory\<close>

lemma server_ok_init:
  assumes "allocator_ok al live" "\<forall>m. live (notifyEvent m) = live m" "live m = F"
    "nabto_coap_server_init al m = (COAP_OK, server, m1)"
    "nabto_coap_server_requests_init server getStamp notifyEvent m1 size_max = (COAP_OK, sr)"
  shows "server_ok live F 0 [] sr"
proof -
  obtain node where n: "nabto_coap_router_node_new al m = (Some node, m1)"
    "server = \<lparr>sv_allocator = al, sv_root = Some node, sv_ackTimeout = NABTO_COAP_ACK_TIMEOUT\<rparr>"
    using assms(4) by (auto simp: nabto_coap_server_init_def split: prod.splits if_splits)
  have "owned live F [] m" using assms(3) by (simp add: owned_def)
  from new_node_owned [OF assms(1) this n(1)] have own: "owned live F (router_blocks node) m1" by simp
  define sr0 where "sr0 = \<lparr>sr_server = server, sr_requestsSentinel = None, sr_requests = [], sr_request = (\<lambda>a. zero_server_request),
            sr_getStamp = getStamp, sr_notifyEvent = notifyEvent, sr_messageId = 0, sr_errorConnection = None,
            sr_errorType = CON, sr_errorCode = 0, sr_errorToken = [], sr_errorMessageId = 0, sr_errorPayload = None,
            sr_ackMessageId = 0, sr_ackConnection = None, sr_rstMessageId = 0, sr_rstConnection = None,
            sr_maxRequests = size_max, sr_activeRequests = 0, sr_maxRequestPayload = size_max,
            sr_maxObservers = size_max, sr_activeObservers = 0, sr_observersSentinel = None, sr_observers = [],
            sr_observer = (\<lambda>a. zero_server_observer), sr_memory = m1, sr_nullAccess = False\<rparr>"
  have ok0: "server_ok live F 0 [] sr0"
    using own assms(1,2) new_node_ok [OF n(1)]
    by (simp add: sr0_def n(2) server_ok_def server_holds_def server_shape_def server_blocks_def root_blocks_def)
  have sent: "server_ok live F 0 [] (s\<lparr>sr_requestsSentinel := Some p\<rparr>)"
    if "server_ok live F 0 [p] s" "sr_requestsSentinel s = None" for p and s :: "'a server_requests"
    using that by (auto simp: server_ok_def server_holds_def server_shape_def server_blocks_def)
  have sento: "server_ok live F 0 [] (s\<lparr>sr_observersSentinel := Some p\<rparr>)"
    if "server_ok live F 0 [p] s" "sr_observersSentinel s = None" for p and s :: "'a server_requests"
  proof -
    have "owned live F ([p] @ server_blocks s) (sr_memory s)" using that(1) by (simp add: server_ok_def server_holds_def)
    then have "owned live F ([] @ server_blocks (s\<lparr>sr_observersSentinel := Some p\<rparr>)) (sr_memory s)"
      by (rule owned_perm) (use that(2) in \<open>simp add: server_blocks_def\<close>)
    then show ?thesis using that(1) by (simp add: server_ok_def server_holds_def server_shape_def)
  qed
  obtain q sr1 where q: "server_calloc sizeof_server_request sr0 = (q, sr1)" by fastforce
  obtain s where s: "q = Some s" using assms(5) q
    by (cases q) (auto simp: nabto_coap_server_requests_init_def sr0_def Let_def)
  note c = server_ok_calloc [OF ok0 q]
  have f1: "sr_requestsSentinel sr1 = None" "sr_observersSentinel sr1 = None" by (subst c(2); simp add: sr0_def)+
  have ok1: "server_ok live F 0 [] (sr1\<lparr>sr_requestsSentinel := Some s\<rparr>)" by (rule sent) (use c(1) s f1 in simp_all)
  obtain q2 sr2 where q2: "server_calloc sizeof_server_observer (sr1\<lparr>sr_requestsSentinel := Some s\<rparr>) = (q2, sr2)" by fastforce
  obtain t where t: "q2 = Some t" using assms(5) q s q2
    by (cases q2) (auto simp: nabto_coap_server_requests_init_def sr0_def Let_def)
  note c2 = server_ok_calloc [OF ok1 q2]
  have f2: "sr_observersSentinel sr2 = None" by (subst c2(2)) (simp add: f1)
  have "sr = sr2\<lparr>sr_observersSentinel := Some t\<rparr>"
    using assms(5) q s q2 t by (auto simp: nabto_coap_server_requests_init_def sr0_def Let_def)
  then show ?thesis using sento [of t sr2] c2(1) t f2 by simp
qed

lemma server_ok_step:
  assumes "server_step lbl sr sr'" "server_ok live F 0 [] sr"
  shows "server_ok live F 0 [] sr'"
  using assms
proof (induction rule: server_step.induct)
  case (packet c bytes sr call sr')
  then show ?case by (blast intro: server_ok_handle_packet)
next
  case (send room sr p sr')
  then show ?case by (blast intro: server_ok_handle_send)
next
  case (add code segments handler userData sr err res server m)
  then show ?case by (blast intro: server_ok_add_resource)
next
  case (notify res code format payload sr err sr')
  then show ?case by (blast intro: server_ok_resource_notify)
next
  case (payload a sr bytes err sr')
  then show ?case using server_ok_set_payload(1) by (fastforce simp: held_def)
next
  case (ready a sr err sr')
  then show ?case using server_ok_response_ready(1) by (fastforce simp: held_def)
next
  case (error a sr status description err sr')
  then show ?case using server_ok_send_error by (fastforce simp: held_def)
next
  case (accept a sr err sr')
  then show ?case using server_ok_accept by (fastforce simp: held_def)
qed (simp_all add: server_ok_handle_timeout server_ok_remove_connection nabto_coap_server_limit_requests_def
    nabto_coap_server_limit_request_size_def nabto_coap_server_limit_observers_def server_ok_remove_resource
    nabto_coap_server_remove_observer_def server_ok_observer_free server_ok_set_code held_def
    nabto_coap_server_response_set_code_human_def Let_def server_ok_content_format server_ok_request_free)

lemma server_reach_ok: "server_reach live F sr \<Longrightarrow> server_ok live F 0 [] sr"
  by (induction rule: server_reach.induct) (blast intro: server_ok_init, blast intro: server_ok_step)

text \<open>C10: Memory safety of the server.  Whatever packets arrive and whatever the application and the integrator
  call, also when allocations fail, the blocks of the sentinels, the tree of resources, the requests, the observers, their
  payloads and parameters are different from each other, and together with the blocks of others they are
  the blocks in use: nothing is freed twice, used after it was freed or lost.  The counters are the lengths of the
  lists, and a request points only to an observer that is there.  When no request is with the application,
  destroying the requests and then the server leaves exactly the blocks that were in use before.\<close>

theorem server_memory_safe:
  assumes "server_reach live F sr"
  shows "distinct (server_blocks sr) \<and> set (server_blocks sr) \<inter> F = {} \<and>
    live (sr_memory sr) = F \<union> set (server_blocks sr) \<and>
    sr_activeRequests sr = length (sr_requests sr) \<and> sr_activeObservers sr = length (sr_observers sr) \<and>
    (\<forall>a\<in>set (sr_requests sr). \<forall>o'. sq_observer (sr_request sr a) = Some o' \<longrightarrow> o' \<in> set (sr_observers sr)) \<and>
    (none_held sr \<and> sr_observersSentinel sr \<noteq> None \<and> sv_root (sr_server sr) = Some rootNode \<longrightarrow>
      gives_back live F (nabto_coap_server_requests_destroy sr))"
  using server_reach_ok [OF assms] server_ok_gives_back [OF server_reach_ok [OF assms], of rootNode]
  by (auto simp: server_ok_def server_holds_def server_shape_def owned_def)

section \<open>Requests the application holds\<close>

definition kept :: "address \<Rightarrow> 'm server_requests \<Rightarrow> 'm server_requests \<Rightarrow> bool" where
  "kept a sr sr' \<longleftrightarrow> (held a sr \<longrightarrow> held a sr')"

lemma kept_refl [simp]: "kept a sr sr"
  by (simp add: kept_def)

lemma kept_trans: "kept a sr sr1 \<Longrightarrow> kept a sr1 sr2 \<Longrightarrow> kept a sr sr2"
  by (simp add: kept_def)

lemma kept_same:
  "sr_requests sr' = sr_requests sr \<Longrightarrow> sr_request sr' = sr_request sr \<Longrightarrow> kept a sr sr'"
  by (simp add: kept_def held_def)

lemma kept_request:
  assumes "sq_state (f (sr_request sr b)) = STATE_REQUEST \<Longrightarrow> sq_state (sr_request sr b) = STATE_REQUEST"
    "sq_isFreed (f (sr_request sr b)) = sq_isFreed (sr_request sr b)"
  shows "kept a sr (update_request b f sr)"
  using assms by (auto simp: kept_def held_def)

lemma kept_response: "kept a sr (update_response b g sr)"
  unfolding update_response_def by (rule kept_request) simp_all

lemma kept_observer: "kept a sr (update_observer o' f sr)"
  by (rule kept_same) simp_all

lemma kept_other_request: "b \<noteq> a \<Longrightarrow> kept a sr (update_request b f sr)"
  by (simp add: kept_def held_def)

lemma free_request_store:
  "b \<noteq> a \<Longrightarrow> sr_request (nabto_coap_server_free_request b sr) a = sr_request sr a"
  by (simp add: nabto_coap_server_free_request_def Let_def)

lemma kept_free_request:
  assumes "b \<noteq> a \<or> \<not> sq_isFreed (sr_request sr b)"
  shows "kept a sr (nabto_coap_server_free_request b sr)"
proof (cases "sq_isFreed (sr_request sr b)")
  case False
  then show ?thesis by (simp add: nabto_coap_server_free_request_def)
next
  case True
  then have ne: "b \<noteq> a" using assms by simp
  show ?thesis using drops_in [OF free_request_drops] ne free_request_store [OF ne]
    unfolding kept_def held_def by metis
qed

lemma kept_discard:
  assumes "sq_state (sr_request sr b) = STATE_REQUEST"
  shows "kept a sr (discard_request b sr)"
proof (cases "b = a")
  case True
  then show ?thesis using assms by (simp add: kept_def held_def)
next
  case False
  show ?thesis unfolding discard_request_def
    by (rule kept_trans [OF kept_other_request kept_free_request]) (use False in simp_all)
qed

lemma kept_done: "kept a sr (done_request b sr)"
proof (cases "b = a \<and> sq_isFreed (sr_request sr b)")
  case True
  then show ?thesis by (auto simp: kept_def held_def)
next
  case False
  show ?thesis unfolding done_request_def
    by (rule kept_trans [OF kept_request kept_free_request]) (use False in auto)
qed

lemma kept_observer_free: "kept a sr (nabto_coap_server_observer_free o' sr)"
  by (simp add: kept_def held_def nabto_coap_server_observer_free_def Let_def nabto_coap_server_observer_remove_from_list_def
      forget_observer_loop_eq)

lemma kept_release: "kept a sr (nabto_coap_server_response_release_payload b sr)"
  by (simp add: kept_def held_def)

lemma kept_calloc: "server_calloc n sr = (q, sr') \<Longrightarrow> kept a sr sr'"
  by (rule kept_same) (auto simp: server_calloc_def split: prod.splits)

lemma kept_if: "(P \<Longrightarrow> kept a sr sr1) \<Longrightarrow> (\<not> P \<Longrightarrow> kept a sr sr2) \<Longrightarrow> kept a sr (if P then sr1 else sr2)"
  by simp

lemma kept_fields [simp]:
  "kept a sr (server_free_owned pl sr) = True"
  "kept a sr (server_notify sr) = True"
  "kept a sr (nabto_coap_server_make_error_response connection msg code description sr) = True"
  "kept a sr (nabto_coap_server_queue_ack connection m sr) = True"
  "kept a sr (nabto_coap_server_queue_rst connection m sr) = True"
  "kept a sr (sr\<lparr>sr_messageId := i\<rparr>) = True"
  by (simp_all add: kept_same nabto_coap_server_queue_rst_def)

lemma kept_timeout: "kept a sr (nabto_coap_server_handle_timeout sr)"
proof -
  have r: "kept a sr (timeout_requests_loop as now sr)" for as now and sr :: "'a server_requests"
  proof (induction as arbitrary: sr)
    case (Cons b as)
    have "kept a sr (timeout_one_request now b sr)"
      by (auto simp: timeout_one_request_def Let_def intro: kept_discard kept_done kept_response)
    then show ?case using Cons [of "timeout_one_request now b sr"] kept_trans by auto
  qed simp
  have o: "kept a sr (timeout_observers_loop os now sr)" for os now and sr :: "'a server_requests"
  proof (induction os arbitrary: sr)
    case (Cons o' os)
    have "kept a sr (timeout_one_observer now o' sr)"
      by (auto simp: timeout_one_observer_def Let_def intro: kept_observer_free kept_observer)
    then show ?case using Cons [of "timeout_one_observer now o' sr"] kept_trans by auto
  qed simp
  show ?thesis unfolding nabto_coap_server_handle_timeout_def Let_def by (rule kept_trans [OF r o])
qed

lemma kept_send: "nabto_coap_server_handle_send room sr = (p, sr') \<Longrightarrow> kept a sr sr'"
proof -
  assume s: "nabto_coap_server_handle_send room sr = (p, sr')"
  have "kept a sr (snd (nabto_coap_server_send_observer_notification o' room sr))" for o'
    unfolding nabto_coap_server_send_observer_notification_def
    by (auto split: option.splits intro!: kept_same)
  moreover have "kept a sr (snd (nabto_coap_server_send_in_request_state b room sr))"
    "kept a sr (snd (nabto_coap_server_send_in_response_state b room sr))" for b
    unfolding nabto_coap_server_send_in_request_state_def nabto_coap_server_send_in_response_state_def
    by (auto simp: Let_def intro!: kept_request kept_response)
  moreover have "kept a sr (snd (nabto_coap_server_send_ack room sr))" "kept a sr (snd (nabto_coap_server_send_rst room sr))"
    "kept a sr (snd (nabto_coap_server_send_error room sr))"
    unfolding nabto_coap_server_send_ack_def nabto_coap_server_send_rst_def nabto_coap_server_send_error_def
    by (auto simp: Let_def split: option.splits intro!: kept_same)
  ultimately have "kept a sr (snd (nabto_coap_server_handle_send room sr))"
    unfolding nabto_coap_server_handle_send_def by (auto split: option.splits)
  then show ?thesis using s by simp
qed

lemma kept_remove_connection: "kept a sr (nabto_coap_server_remove_connection connection sr)"
proof -
  have o: "kept a sr (remove_observers_loop os connection sr)" for os and sr :: "'a server_requests"
  proof (induction os arbitrary: sr)
    case (Cons o' os)
    show ?case by (simp add: kept_trans [OF kept_observer_free Cons] Cons)
  qed simp
  have r: "kept a sr (remove_requests_loop as connection sr)" for as and sr :: "'a server_requests"
  proof (induction as arbitrary: sr)
    case (Cons b as)
    have "kept a sr (if sq_connection (sr_request sr b) = connection then
          (if sq_state (sr_request sr b) = STATE_REQUEST then discard_request b sr
           else if sq_state (sr_request sr b) = STATE_RESPONSE then done_request b sr
           else update_request b (\<lambda>r. r\<lparr>sq_connection := None\<rparr>) sr) else sr)"
      by (intro kept_if) (auto intro: kept_discard kept_done kept_request)
    then show ?case unfolding remove_requests_loop.simps by (rule kept_trans [OF _ Cons])
  qed simp
  have "kept a sr (remove_requests_loop (sr_requests (remove_observers_loop (sr_observers sr) connection sr)) connection
      (remove_observers_loop (sr_observers sr) connection sr))" (is "kept a sr ?s")
    by (rule kept_trans [OF o r])
  then show ?thesis unfolding nabto_coap_server_remove_connection_def Let_def
    by (rule kept_trans) (auto intro!: kept_same)
qed

lemma kept_notify_observer: "notify_observer o' code format pl sr = (now, sr') \<Longrightarrow> kept a sr sr'"
  by (rule kept_same) (auto simp: notify_observer_def Let_def next_message_id_eq split: if_splits)

lemma kept_notify:
  assumes "nabto_coap_server_resource_notify res code format payload sr = (err, sr')"
  shows "kept a sr sr'"
proof -
  have l: "kept a sr s" if "notify_loop os res code format payload r m sr = (r', m', s)" for os r m r' m' s and sr :: "'a server_requests"
    using that
  proof (induction os arbitrary: sr r m)
    case (Cons o' os)
    show ?case
    proof (cases "ob_resource (sr_observer sr o') = res")
      case False
      then show ?thesis using Cons by simp
    next
      case True
      then show ?thesis using Cons(2)
        by (auto split: option.splits list.splits prod.splits intro: kept_trans [OF kept_notify_observer Cons(1)]
            kept_trans [OF kept_calloc Cons(1)] kept_trans [OF kept_calloc kept_trans [OF kept_notify_observer Cons(1)]])
    qed
  qed simp
  show ?thesis using assms unfolding nabto_coap_server_resource_notify_def
    by (auto split: prod.splits dest!: l intro: kept_trans)
qed

section \<open>Packets and held requests\<close>

lemma kept_refuse:
  assumes "sq_state (sr_request sr b) = STATE_REQUEST"
  shows "kept a sr (refuse_request b msg code description sr)"
  unfolding refuse_request_def by (rule kept_trans [OF _ kept_discard]) (use assms in simp_all)

lemma kept_arm: "kept a sr (nabto_coap_server_request_arm_timeout b sr)"
  unfolding nabto_coap_server_request_arm_timeout_def by (rule kept_request) simp_all

lemma calloc_requests_store: "server_calloc n sr = (q, s) \<Longrightarrow> sr_request s = sr_request sr"
  by (auto simp: server_calloc_def split: prod.splits)

lemma kept_append_block1:
  assumes "append_block1 b msg sr = (done, sr')" "sq_state (sr_request sr b) = STATE_REQUEST"
  shows "kept a sr sr'"
proof -
  let ?sr = "update_request b (\<lambda>r. r\<lparr>sq_hasBlock1 := True\<rparr>) sr"
  have k0: "kept a sr ?sr" by (rule kept_request) simp_all
  have st: "sq_state (sr_request ?sr b) = STATE_REQUEST" using assms(2) by simp
  obtain q s where q: "server_calloc (sq_payloadLength (sr_request ?sr b) + im_payloadLength msg + 1) ?sr = (q, s)" by fastforce
  have k1: "kept a sr s" by (rule kept_trans [OF k0 kept_calloc [OF q]])
  have st1: "sq_state (sr_request s b) = STATE_REQUEST" using calloc_requests_store [OF q] st by simp
  note ref = kept_trans [OF k0 kept_refuse [OF st]] and ref1 = kept_trans [OF k1 kept_refuse [OF st1]]
  let ?f = "\<lambda>p r. r\<lparr>sq_payload := Some (p, owned_data (sq_payload r) @ im_data msg), sq_messageId := im_messageId msg,
      sq_block1Ack := push_bit 4 (NABTO_COAP_BLOCK_NUM (im_block1 msg)) + NABTO_COAP_BLOCK_SIZE (im_block1 msg)\<rparr>"
  have f: "kept a t (update_request b (?f p) t)" for p and t :: "'a server_requests" by (rule kept_request) simp_all
  have new: "kept a sr (update_request b (?f p) (if c then server_free_owned pl s else s))" for p c pl
    by (rule kept_trans [OF k1], rule kept_trans [OF _ f]) simp
  have more: "kept a t (nabto_coap_server_request_arm_timeout b
      (update_request b (\<lambda>r. r\<lparr>sq_block1Ack := sq_block1Ack r + push_bit 3 1, sq_hasBlock1Ack := True\<rparr>) t))" for t :: "'a server_requests"
    by (rule kept_trans [OF kept_request kept_arm]) simp_all
  consider c d where "sr' = refuse_request b msg c d ?sr" | c d where "sr' = refuse_request b msg c d s"
    | p where "sr' = update_request b (?f p) (if 0 < sq_payloadLength (sr_request s b) then server_free_owned (sq_payload (sr_request s b)) s else s)"
    | p where "sr' = nabto_coap_server_request_arm_timeout b
      (update_request b (\<lambda>r. r\<lparr>sq_block1Ack := sq_block1Ack r + push_bit 3 1, sq_hasBlock1Ack := True\<rparr>)
        (update_request b (?f p) (if 0 < sq_payloadLength (sr_request s b) then server_free_owned (sq_payload (sr_request s b)) s else s)))"
    using assms(1) q calloc_requests_store [OF q] unfolding append_block1_def Let_def
    by (auto split: if_splits option.splits)
  then show ?thesis by cases (use ref ref1 new kept_trans [OF new more] in simp_all)
qed

lemma kept_whole_payload:
  assumes "whole_payload b msg sr = (done, sr')" "sq_state (sr_request sr b) = STATE_REQUEST"
  shows "kept a sr sr'"
proof (cases "im_payloadLength msg = 0")
  case True
  then show ?thesis using assms(1) by (simp add: whole_payload_def)
next
  case False
  obtain q s where q: "server_calloc (im_payloadLength msg + 1) (server_free_owned (sq_payload (sr_request sr b)) sr) = (q, s)" by fastforce
  have k: "kept a sr s" by (rule kept_trans [OF _ kept_calloc [OF q]]) simp
  have st: "sq_state (sr_request (update_request b (\<lambda>r. r\<lparr>sq_payload := None\<rparr>) s) b) = STATE_REQUEST"
    using calloc_requests_store [OF q] assms(2) by simp
  have "kept a s (update_request b (\<lambda>r. r\<lparr>sq_payload := P\<rparr>) s)" for P by (rule kept_request) simp_all
  then have u: "kept a sr (update_request b (\<lambda>r. r\<lparr>sq_payload := P\<rparr>) s)" for P by (rule kept_trans [OF k])
  show ?thesis using assms(1) q False u kept_trans [OF u kept_discard [OF st]]
    by (auto simp: whole_payload_def split: option.splits)
qed

lemma kept_call_handler: "call_handler b sr = (call, sr') \<Longrightarrow> kept a sr sr'"
proof -
  assume "call_handler b sr = (call, sr')"
  moreover have "kept a sr (to_user b sr)" by (rule kept_request) simp_all
  ultimately show ?thesis unfolding call_handler_def Let_def
    by (auto split: option.splits intro: kept_trans [OF _ kept_same])
qed

lemma kept_chunk_options: "kept a sr (chunk_options b msg sr)"
  by (simp add: kept_def held_def)

lemma kept_acknowledge: "kept a sr (acknowledge_chunk b msg sr)"
  by (simp add: acknowledge_chunk_def)

lemma kept_data_for_request:
  assumes "nabto_coap_server_handle_data_for_request b msg sr = (call, sr')" "sq_state (sr_request sr b) = STATE_REQUEST"
  shows "kept a sr sr'"
proof -
  let ?sr = "chunk_options b msg sr"
  have st: "sq_state (sr_request ?sr b) = STATE_REQUEST" using assms(2) by simp
  have d: "kept a ?sr sr3"
    if "(if im_hasBlock1 msg then append_block1 b msg ?sr else whole_payload b msg ?sr) = (d, sr3)" for d sr3
    using that kept_append_block1 [OF _ st] kept_whole_payload [OF _ st] by (auto split: if_splits)
  note k = kept_chunk_options [of a sr b msg]
  from assms(1) show ?thesis
  proof (cases rule: data_for_request_cases)
    case (1 c d)
    then show ?thesis using kept_refuse [OF assms(2)] by simp
  next
    case (2 c d)
    then show ?thesis using kept_trans [OF k kept_refuse [OF st]] by simp
  next
    case 3
    then show ?thesis using kept_trans [OF k d [OF 3(2)]] by simp
  next
    case (4 sr3)
    have "kept a ?sr sr3" by (rule d) (use 4 in simp)
    then show ?thesis unfolding 4(5) using kept_trans [OF k] kept_trans [OF _ kept_acknowledge] by blast
  next
    case (5 sr3)
    show ?thesis
      by (rule kept_trans [OF k kept_trans [OF d [OF 5(2)] kept_trans [OF kept_acknowledge kept_call_handler [OF 5(3)]]]])
  qed
qed

lemma kept_data_for_response: "kept a sr (nabto_coap_server_handle_data_for_response b msg sr)"
proof -
  have e: "kept a sr (done_request b (nabto_coap_server_make_error_response c m x d sr))" for c m x d
    by (rule kept_trans [OF _ kept_done]) simp
  have f: "kept a sr (update_request b (\<lambda>r. r\<lparr>sq_messageId := i\<rparr>) sr)" for i by (rule kept_request) simp_all
  have g: "kept a t (update_response b h (t\<lparr>sr_messageId := i\<rparr>))" for h i and t :: "'a server_requests"
    by (rule kept_trans [OF _ kept_response]) simp
  have q: "kept a t (nabto_coap_server_queue_ack c i t)" for c i and t :: "'a server_requests" by simp
  show ?thesis
    using e f kept_trans [OF f g] kept_trans [OF f kept_trans [OF q g]]
    unfolding nabto_coap_server_handle_data_for_response_def Let_def next_message_id_eq by simp
qed

lemma kept_handle_data: "handle_data b msg sr = (call, sr') \<Longrightarrow> kept a sr sr'"
  using kept_data_for_request [of b msg sr call sr' a] kept_data_for_response [of a sr b msg]
  by (auto simp: handle_data_def split: if_splits)

lemma find_resource_same:
  assumes "server_find_resource msg ps sr = (found, ps', sr')"
  shows "sr_requests sr' = sr_requests sr" "sr_request sr' = sr_request sr" "sr_observers sr' = sr_observers sr" "sr_observer sr' = sr_observer sr"
  using assms by (auto simp: server_find_resource_def split: option.splits prod.splits)

lemma kept_new_request:
  assumes "server_ok live F k [] sr" "nabto_coap_server_handle_new_request msg connection sr = (new, sr')"
  shows "kept a sr sr'"
proof -
  obtain found ps sr1 where f: "server_find_resource msg None sr = (found, ps, sr1)" by (metis prod.exhaust)
  have ok1: "server_ok live F k [] sr1" using server_find_resource_None [OF f] assms(1) by auto
  have k1: "kept a sr sr1" by (rule kept_same) (use find_resource_same [OF f] in simp_all)
  have err: "kept a t (nabto_coap_server_make_error_response c m x d t)" for c m x d and t :: "'a server_requests" by simp
  show ?thesis
  proof (cases "found = None \<or> sr_maxRequests sr1 \<le> sr_activeRequests sr1")
    case True
    then show ?thesis using assms(2) f kept_trans [OF k1 err]
      by (auto simp: nabto_coap_server_handle_new_request_def split: option.splits if_splits)
  next
    case False
    obtain p sr2 where p: "nabto_coap_server_request_new sr1 = (p, sr2)" by fastforce
    obtain q s where q: "server_calloc sizeof_server_request sr1 = (q, s)" by fastforce
    note kq = kept_trans [OF k1 kept_calloc [OF q]]
    show ?thesis
    proof (cases p)
      case None
      have "sr2 = s" using p q None by (auto simp: nabto_coap_server_request_new_def next_message_id_eq split: option.splits)
      then show ?thesis using assms(2) f False p None kept_trans [OF kq err]
        by (auto simp: nabto_coap_server_handle_new_request_def)
    next
      case (Some b)
      show ?thesis
      proof (cases "a \<in> set (sr_requests sr)")
        case out: False
        then show ?thesis by (simp add: kept_def held_def)
      next
        case inn: True
        have "b \<notin> set (sr_requests sr2)" using server_ok_distinct(3) [OF request_new_ok(1) [OF ok1 p [unfolded Some]], of b] by simp
        then have ne: "b \<noteq> a" using inn request_new_ok(2) [OF ok1 p [unfolded Some]] find_resource_same(1) [OF f] by auto
        have upd: "kept a t (update_request b h t)" for h and t :: "'a server_requests" by (rule kept_other_request [OF ne])
        have X: "kept a s (s\<lparr>sr_messageId := i\<rparr>)" for i by simp
        have k2: "kept a sr sr2"
          using p q Some kept_trans [OF kept_trans [OF kq X] upd]
          by (auto simp: nabto_coap_server_request_new_def next_message_id_eq split: option.splits)
        define sr3 where "sr3 = sr2\<lparr>sr_activeRequests := sr_activeRequests sr2 + 1\<rparr>"
        obtain found2 ps2 sr4 where f2: "server_find_resource msg (Some []) sr3 = (found2, ps2, sr4)" by (metis prod.exhaust)
        have k4: "kept a sr sr4"
          by (rule kept_trans [OF k2 kept_same]) (use find_resource_same [OF f2] in \<open>simp_all add: sr3_def\<close>)
        define sr5 where "sr5 = update_request b (\<lambda>r. r\<lparr>sq_parameters := the ps2\<rparr>) sr4"
        have k5: "kept a sr sr5" unfolding sr5_def by (rule kept_trans [OF k4 upd])
        show ?thesis
        proof (cases found2)
          case None
          have "sr' = discard_request b (nabto_coap_server_make_error_response connection msg CODE_SERVICE_UNAVAILABLE (Some outOfResources) sr5)"
            using assms(2) f False p Some f2 None
            by (auto simp: nabto_coap_server_handle_new_request_def sr3_def sr5_def Let_def)
          then show ?thesis unfolding discard_request_def
            using kept_trans [OF k5 kept_trans [OF err kept_trans [OF upd kept_free_request]]] ne by simp
        next
          case res: (Some res)
          have ins: "kept a t (nabto_coap_server_insert_request_into_list b t)" for t :: "'a server_requests"
            by (simp add: kept_def held_def nabto_coap_server_insert_request_into_list_def)
          have dereg: "kept a t (deregister_observer c tok t)" for c tok and t :: "'a server_requests"
            by (simp add: deregister_observer_def kept_observer_free split: option.splits)
          define sr7 where "sr7 = nabto_coap_server_request_arm_timeout b (update_request b (\<lambda>r. r\<lparr>sq_connection := connection, sq_type := im_type msg,
              sq_method := im_code msg, sq_token := im_token msg, sq_messageId := im_messageId msg, sq_resource := Some res\<rparr>) sr5)"
          have k7: "kept a sr sr7" unfolding sr7_def by (rule kept_trans [OF k5 kept_trans [OF upd kept_arm]])
          define sr8 where "sr8 = (if im_hasObserve msg \<and> im_observe msg = 0 \<and> im_code msg = NABTO_COAP_CODE_GET
              then update_request b (\<lambda>r. r\<lparr>sq_isObserveRegister := True\<rparr>) sr7 else sr7)"
          have k8: "kept a sr sr8" unfolding sr8_def using k7 kept_trans [OF k7 upd] by simp
          define sr9 where "sr9 = (if im_hasObserve msg \<and> im_observe msg = 1 \<and> im_code msg = NABTO_COAP_CODE_GET
              then deregister_observer connection (im_token msg) sr8 else sr8)"
          have k9: "kept a sr sr9" unfolding sr9_def using k8 kept_trans [OF k8 dereg] by simp
          have "sr' = nabto_coap_server_insert_request_into_list b sr9"
            using assms(2) f False p Some f2 res
            by (auto simp: nabto_coap_server_handle_new_request_def sr3_def sr5_def sr7_def sr8_def sr9_def Let_def)
          then show ?thesis using kept_trans [OF k9 ins] by simp
        qed
      qed
    qed
  qed
qed

lemma kept_handle_ack: "kept a sr (nabto_coap_server_handle_ack b msg sr)"
  unfolding nabto_coap_server_handle_ack_def Let_def
  by (auto intro: kept_trans [OF kept_response kept_done] kept_trans [OF kept_response kept_response])

lemma kept_promote: "kept a sr (nabto_coap_server_observer_promote_pending o' sr)"
  by (rule kept_same) simp_all

lemma kept_notification_acked: "kept a sr (notification_acked o' sr)"
  by (rule kept_same) (simp_all add: notification_acked_def Let_def)

lemma kept_packet:
  assumes "server_ok live F k [] sr" "nabto_coap_server_handle_packet connection bytes sr = (call, sr')"
  shows "kept a sr sr'"
proof -
  have req: "kept a sr s" if "handle_request_message msg connection sr = (c, s)" for msg c s
  proof (cases "nabto_coap_server_find_request (im_token msg) connection sr")
    case (Some b)
    have "kept a sr (duplicate_request b msg connection sr)"
      unfolding duplicate_request_def by (auto intro: kept_trans [OF kept_request kept_arm])
    then show ?thesis using that Some kept_handle_data [of b msg sr c s a] by (auto simp: handle_request_message_def split: if_splits)
  next
    case None
    obtain new sr1 where n: "nabto_coap_server_handle_new_request msg connection sr = (new, sr1)" by fastforce
    note k = kept_new_request [OF assms(1) n]
    show ?thesis using that None n k kept_trans [OF k kept_handle_data]
      by (auto simp: handle_request_message_def split: option.splits)
  qed
  have ack: "kept a sr (handle_ack_message msg connection sr)" for msg
    by (auto simp: handle_ack_message_def kept_handle_ack kept_notification_acked split: option.splits)
  have rst: "kept a sr (nabto_coap_server_handle_rst i connection sr)" for i
    by (auto simp: nabto_coap_server_handle_rst_def kept_done kept_observer_free split: option.splits)
  show ?thesis
    using assms(2) req ack rst
    by (auto simp: nabto_coap_server_handle_packet_def split: option.splits if_splits)
qed

section \<open>Calls of the application and held requests\<close>

lemma kept_set_code: "kept a sr (nabto_coap_server_response_set_code b code sr)"
  unfolding nabto_coap_server_response_set_code_def by (rule kept_response)

lemma kept_apply_block2: "kept a sr (nabto_coap_server_apply_block2_request b sr)"
proof -
  have f: "kept a t (update_request b (\<lambda>r. r\<lparr>sq_hasBlock2Request := False\<rparr>) t)" for t :: "'a server_requests" by (rule kept_request) simp_all
  show ?thesis unfolding nabto_coap_server_apply_block2_request_def Let_def
    by (auto intro: kept_trans [OF f kept_trans [OF kept_response kept_trans [OF kept_release kept_trans [OF kept_response kept_set_code]]]]
        kept_trans [OF f kept_trans [OF kept_response kept_response]])
qed

lemma kept_ready: "nabto_coap_server_response_ready b sr = (err, sr') \<Longrightarrow> kept a sr sr'"
proof -
  have d: "kept a sr (update_request b (\<lambda>r. r\<lparr>sq_state := STATE_DONE\<rparr>) sr)"
    by (rule kept_request) simp_all
  have g: "kept a t (server_notify (update_response b (\<lambda>p. p\<lparr>sp_sendNow := True\<rparr>) (update_request b (\<lambda>r. r\<lparr>sq_state := STATE_RESPONSE\<rparr>) t)))"
    for t :: "'a server_requests"
  proof -
    have r: "kept a t (update_request b (\<lambda>r. r\<lparr>sq_state := STATE_RESPONSE\<rparr>) t)" by (rule kept_request) simp_all
    have n: "kept a u (server_notify u)" for u :: "'a server_requests" by simp
    show ?thesis by (rule kept_trans [OF kept_trans [OF r kept_response] n])
  qed
  assume "nabto_coap_server_response_ready b sr = (err, sr')"
  then show ?thesis using d kept_trans [OF kept_apply_block2 g]
    by (auto simp: nabto_coap_server_response_ready_def Let_def split: if_splits)
qed

lemma kept_set_payload: "nabto_coap_server_response_set_payload b payload sr = (err, sr') \<Longrightarrow> kept a sr sr'"
  unfolding nabto_coap_server_response_set_payload_def Let_def
  by (auto split: prod.splits option.splits intro: kept_trans [OF kept_release kept_trans [OF kept_calloc kept_response]])

lemma kept_send_error: "nabto_coap_server_send_error_response b status description sr = (err, sr') \<Longrightarrow> kept a sr sr'"
  unfolding nabto_coap_server_send_error_response_def Let_def
  by (auto split: option.splits prod.splits if_splits
      intro: kept_trans [OF kept_set_code kept_ready] kept_trans [OF kept_set_code kept_set_payload]
        kept_trans [OF kept_set_code kept_trans [OF kept_set_payload kept_ready]])

lemma kept_accept:
  assumes "nabto_coap_server_request_accept_observe b sr = (err, sr')"
  shows "kept a sr sr'"
proof -
  have u: "kept a t (update_request b (\<lambda>r. r\<lparr>sq_observer := Some o'\<rparr>)
      (update_observer o' f t\<lparr>sr_observers := os, sr_activeObservers := n\<rparr>))" for o' f os n and t :: "'a server_requests"
    by (rule kept_trans [OF kept_same kept_request]) simp_all
  show ?thesis using assms
    unfolding nabto_coap_server_request_accept_observe_def Let_def
    by (auto split: if_splits prod.splits option.splits
        intro: kept_calloc kept_trans [OF kept_calloc u] kept_trans [OF kept_calloc kept_trans [OF kept_observer_free u]])
qed

lemma kept_request_free:
  assumes "b \<noteq> a"
  shows "kept a sr (nabto_coap_server_request_free b sr)"
proof -
  have u: "kept a t (update_request b f t)" for f and t :: "'a server_requests" by (rule kept_other_request [OF assms])
  have r: "kept a t (snd (nabto_coap_server_response_ready b t))" for t :: "'a server_requests"
    using kept_ready [of b t] by (metis prod.collapse)
  have g: "kept a t (nabto_coap_server_free_request b t)" for t :: "'a server_requests" by (rule kept_free_request) (use assms in simp)
  show ?thesis unfolding nabto_coap_server_request_free_def Let_def
    by (auto intro: kept_trans [OF u g] kept_trans [OF kept_release kept_trans [OF kept_response kept_trans [OF u
      kept_trans [OF kept_set_code kept_trans [OF kept_response kept_trans [OF r kept_trans [OF u g]]]]]]])
qed

text \<open>C11: Requests the application holds.  From the call of its handler until the application frees it a request
  stays in the list of the server, whatever happens in between: no timeout, packet, reset, lost connection or
  call for another request takes it away, so that the pointer the application was given stays valid.\<close>

theorem held_request_stays:
  assumes "server_reach live F sr" "server_step lbl sr sr'" "held a sr" "lbl \<noteq> Some a"
  shows "held a sr'"
proof -
  have "kept a sr sr'"
    using assms(2) server_reach_ok [OF assms(1)] assms(4)
  proof (induction rule: server_step.induct)
    case (packet c bytes sr call sr')
    then show ?case by (blast intro: kept_packet)
  next
    case (add code segments handler userData sr err res server m)
    show ?case by (rule kept_same) simp_all
  qed (auto simp: nabto_coap_server_limit_requests_def nabto_coap_server_limit_request_size_def nabto_coap_server_limit_observers_def
      nabto_coap_server_remove_observer_def nabto_coap_server_response_set_code_human_def Let_def
      nabto_coap_server_response_set_content_format_def
      intro: kept_send kept_timeout kept_remove_connection kept_notify kept_observer_free kept_set_code kept_response
        kept_set_payload kept_ready kept_send_error kept_accept kept_request_free kept_same)
  then show ?thesis using assms(3) by (simp add: kept_def)
qed

section \<open>A server with a request\<close>

text \<open>A server with one resource and a request for it: a get of path a with token 5.\<close>

definition sample_server :: "counting coap_server" where
  "sample_server = fst (snd (nabto_coap_server_init counting_allocator (100, [])))"

definition sample_context :: "counting server_requests" where
  "sample_context = snd (nabto_coap_server_requests_init sample_server (\<lambda>m. 7) (\<lambda>m. m) (99, [1]) 100000)"

definition sample_routed :: "counting server_requests" where
  "sample_routed = (case nabto_coap_server_add_resource NABTO_COAP_CODE_GET [[0x61]] (Some 70) None
       (sr_server sample_context) (sr_memory sample_context) of
     Some (err, res, server, m) \<Rightarrow> sample_context\<lparr>sr_server := server, sr_memory := m\<rparr>)"

definition sample_get_packet :: bytes where
  "sample_get_packet = [0x41, 0x01, 0x12, 0x34, 0x05, 0xB1, 0x61]"

definition sample_serving :: "counting server_requests" where
  "sample_serving = snd (nabto_coap_server_handle_packet (Some 9) sample_get_packet sample_routed)"

lemma sample_server_eq: "nabto_coap_server_init counting_allocator (100, []) = (COAP_OK, sample_server, (99, [1]))"
  "sv_root sample_server = Some (Router_node 1 [] None (\<lambda>_. zero_resource))"
  "sv_allocator sample_server = counting_allocator" "sv_ackTimeout sample_server = NABTO_COAP_ACK_TIMEOUT"
  by (simp_all add: sample_server_def nabto_coap_server_init_def nabto_coap_router_node_new_def)

lemma sample_context_eq: 
  "nabto_coap_server_requests_init sample_server (\<lambda>m. 7) (\<lambda>m. m) (99, [1]) 100000 = (COAP_OK, sample_context)"
  "sr_memory sample_context = (97, [4, 2, 1])" "sr_server sample_context = sample_server"
  "sr_requests sample_context = []" "sr_errorConnection sample_context = None"
   "sr_maxRequests sample_context = 100000" "sr_activeRequests sample_context = 0" "sr_observers sample_context = []"
   "sr_maxRequestPayload sample_context = 100000"
  by (simp_all add: sample_context_def nabto_coap_server_requests_init_def Let_def server_calloc_def sample_server_eq)


lemma sample_routed_step:
  "\<exists>server. nabto_coap_server_add_resource NABTO_COAP_CODE_GET [[0x61]] (Some 70) None (sr_server sample_context)
     (sr_memory sample_context) = Some (COAP_OK, Some (32, GET_HANDLER), server, (94, [32, 16, 8, 4, 2, 1])) \<and>
   sample_routed = sample_context\<lparr>sr_server := server, sr_memory := (94, [32, 16, 8, 4, 2, 1])\<rparr> \<and>
   sv_allocator server = counting_allocator \<and> sv_ackTimeout server = NABTO_COAP_ACK_TIMEOUT \<and>
   sv_root server = Some (Router_node 1 [(8, (16, [0x61]), Router_node 32 [] None
     ((\<lambda>_. zero_resource)(GET_HANDLER := \<lparr>re_handler = Some 70, re_handlerUserData = None\<rparr>)))] None (\<lambda>_. zero_resource))"
  by (simp add: sample_routed_def nabto_coap_server_add_resource_def sample_context_eq sample_server_eq segment_child_def
      nabto_coap_server_find_path_segment_def nabto_coap_router_path_segment_new_def nn_strdup_def nabto_coap_router_node_new_def
      set_segments_def nabto_coap_router_insert_path_segment_def set_handler_def)



definition sample_get_message :: coap_incoming_message where
  "sample_get_message = empty_message\<lparr>im_code := NABTO_COAP_CODE_GET, im_messageId := 0x1234, im_token := [5],
     im_options := Some [0xB1, 0x61]\<rparr>"

lemma sample_get_parses: "nabto_coap_parse_message sample_get_packet = Some sample_get_message"
  by (simp add: sample_get_packet_def sample_get_message_def nabto_coap_parse_message_def parse_message_tail_def
    parse_message_options.simps nabto_coap_option_iterator_init_def nabto_coap_get_next_option_def decode_option_field_def
    parse_message_option_def coap_type_of_bits_def) (simp add: empty_message_def NABTO_COAP_CODE_GET_def NABTO_COAP_CODE_def)

lemma sample_serving_step:
  "nabto_coap_server_handle_packet (Some 9) sample_get_packet sample_routed = (Some (70, 64, None), sample_serving)"
  "sr_requests sample_serving = [64]" "sq_state (sr_request sample_serving 64) = STATE_USER"
  "\<not> sq_isFreed (sr_request sample_serving 64)" "sr_memory sample_serving = (93, [64, 32, 16, 8, 4, 2, 1])"
proof -
  obtain server where r: "sample_routed = sample_context\<lparr>sr_server := server, sr_memory := (94, [32, 16, 8, 4, 2, 1])\<rparr>"
    "sv_allocator server = counting_allocator"
    "sv_root server = Some (Router_node 1 [(8, (16, [0x61]), Router_node 32 [] None
     ((\<lambda>_. zero_resource)(GET_HANDLER := \<lparr>re_handler = Some 70, re_handlerUserData = None\<rparr>)))] None (\<lambda>_. zero_resource))"
    using sample_routed_step by blast
  have f: "server_find_resource sample_get_message ps s = (Some (32, GET_HANDLER), ps, s)"
    if "sr_server s = server" for ps and s :: "counting server_requests"
    using that by (simp add: server_find_resource_def r nabto_coap_server_find_resource_def sample_get_message_def
        nabto_coap_option_iterator_init_def find_resource_loop.simps nabto_coap_get_option.simps nabto_coap_get_next_option_def
        decode_option_field_def find_path_segment_iff node_resource_def nabto_coap_server_find_path_segment_def)
  have v: "nabto_coap_server_validate_critical_options sample_get_message" 
    by (simp add: nabto_coap_server_validate_critical_options_def sample_get_message_def critical_options_loop.simps(2)
        nabto_coap_option_iterator_init_def nabto_coap_get_next_option_def decode_option_field_def empty_message_def)
  note [simp] = r sample_context_eq f v
  have m: "im_type sample_get_message = CON" "im_token sample_get_message = [5]" "im_messageId sample_get_message = 0x1234"
    "\<not> im_hasObserve sample_get_message" "\<not> im_hasBlock1 sample_get_message" "\<not> im_hasBlock2 sample_get_message"
    "\<not> im_hasContentFormat sample_get_message" "im_payloadLength sample_get_message = 0" "im_code sample_get_message = NABTO_COAP_CODE_GET"
    by (simp_all add: sample_get_message_def empty_message_def im_payloadLength_def)
  have h: "\<exists>sr'. nabto_coap_server_handle_packet (Some 9) sample_get_packet sample_routed = (Some (70, 64, None), sr') \<and>
    sr_requests sr' = [64] \<and> sq_state (sr_request sr' 64) = STATE_USER \<and>
    \<not> sq_isFreed (sr_request sr' 64) \<and> sr_memory sr' = (93, [64, 32, 16, 8, 4, 2, 1])"
    by (simp add: nabto_coap_server_handle_packet_def sample_get_parses m handle_request_message_def nabto_coap_server_find_request_def
      nabto_coap_server_handle_new_request_def nabto_coap_server_request_new_def server_calloc_def next_message_id_eq
      Let_def nabto_coap_server_request_arm_timeout_def nabto_coap_server_insert_request_into_list_def handle_data_def
      nabto_coap_server_handle_data_for_request_def chunk_options_def acknowledge_chunk_def whole_payload_def call_handler_def update_request_def
      zero_server_request_def nabto_coap_server_queue_ack_def server_resource_at_def resource_at_def)
  show "nabto_coap_server_handle_packet (Some 9) sample_get_packet sample_routed = (Some (70, 64, None), sample_serving)"
    "sr_requests sample_serving = [64]" "sq_state (sr_request sample_serving 64) = STATE_USER"
    "\<not> sq_isFreed (sr_request sample_serving 64)" "sr_memory sample_serving = (93, [64, 32, 16, 8, 4, 2, 1])"
    using h by (auto simp: sample_serving_def)
qed

lemma sample_routed_reach: "server_reach counting_live {} sample_routed" "sr_requests sample_routed = []"
proof -
  have "server_reach counting_live {} sample_context"
    by (rule server_reach.init [OF counting_allocator_ok _ _ sample_server_eq(1) sample_context_eq(1)]) (simp_all add: counting_live_def)
  then show "server_reach counting_live {} sample_routed"
    using sample_routed_step server_reach.step [OF _ server_step.add] by fastforce
  obtain server where r: "sample_routed = sample_context\<lparr>sr_server := server, sr_memory := (94, [32, 16, 8, 4, 2, 1])\<rparr>"
    using sample_routed_step by blast
  show "sr_requests sample_routed = []" unfolding r by (simp add: sample_context_eq)
qed

lemma sample_serving_reach: "server_reach counting_live {} sample_serving"
  by (rule server_reach.step [OF sample_routed_reach(1)]) (rule server_step.packet [OF sample_serving_step(1)])

lemma sample_routed_end:
  "sr_observersSentinel sample_routed \<noteq> None" "none_held sample_routed"
  "\<exists>r. sv_root (sr_server sample_routed) = Some r"
proof -
  obtain server r where r: "sample_routed = sample_context\<lparr>sr_server := server, sr_memory := (94, [32, 16, 8, 4, 2, 1])\<rparr>"
    "sv_root server = Some r"
    using sample_routed_step by blast
  have "sr_observersSentinel sample_context \<noteq> None"
    by (simp add: sample_context_def nabto_coap_server_requests_init_def Let_def server_calloc_def sample_server_eq)
  then show "sr_observersSentinel sample_routed \<noteq> None" "\<exists>r. sv_root (sr_server sample_routed) = Some r"
    unfolding r(1) using r(2) by simp_all
  show "none_held sample_routed" by (simp add: none_held_def sample_routed_reach(2))
qed

theorem server_memory_safe_witness:
  "distinct (server_blocks sample_serving) \<and> set (server_blocks sample_serving) = {64, 32, 16, 8, 4, 2, 1} \<and>
   gives_back counting_live {} (nabto_coap_server_requests_destroy sample_routed)"
proof -
  obtain r where "sv_root (sr_server sample_routed) = Some r" using sample_routed_end(3) by blast
  then have "gives_back counting_live {} (nabto_coap_server_requests_destroy sample_routed)"
    using server_memory_safe [OF sample_routed_reach(1), of r] sample_routed_end(1,2) by blast
  then show ?thesis
    using server_memory_safe [OF sample_serving_reach] sample_serving_step(5) by (simp add: counting_live_def)
qed

theorem held_request_stays_witness:
  "held 64 (nabto_coap_server_remove_connection (Some 9) sample_serving)"
  by (rule held_request_stays [OF sample_serving_reach server_step.gone])
    (simp_all add: held_def sample_serving_step)

end
