(* ===== verification/Coap_Server_Notify.thy ===== *)
theory Coap_Server_Notify
  imports Coap_Server_Reach
begin

text \<open>
  The notifications of the CoAP server, and one that is overtaken by an older one, in a state that packets and calls lead to.
\<close>

section \<open>Notifications\<close>

lemma notify_observer_now:
  assumes "\<not> ob_waitingForAck (sr_observer sr o')" "notify_observer o' code contentFormat pl sr = (now, sr1)"
  shows "\<exists>i. sr_observer sr1 o' = (sr_observer sr o')\<lparr>ob_sequenceNumber := ob_sequenceNumber (sr_observer sr o') + 1, ob_code := code,
      ob_hasContentFormat := True, ob_contentFormat := contentFormat, ob_payload := pl,
      ob_messageId := i, ob_retransmissions := 0, ob_sendNow := True\<rparr>"
  using assms by (auto simp: notify_observer_def Let_def next_message_id_eq)

lemma notify_one:
  fixes sr :: "'m server_requests"
  assumes "sr_observers sr = [o']" "nabto_coap_server_resource_notify (ob_resource (sr_observer sr o')) code contentFormat payload sr = (COAP_OK, sr1)"
  obtains pl now s t where "owned_data pl = (case payload of None \<Rightarrow> [] | Some bs \<Rightarrow> bs)" "sr_observer s = sr_observer sr"
    "notify_observer o' code contentFormat pl (s :: 'm server_requests) = (now, t)" "sr_observer sr1 = sr_observer t"
proof -
  note outer = that
  have n: thesis if "owned_data pl = (case payload of None \<Rightarrow> [] | Some bs \<Rightarrow> bs)" "sr_observer s = sr_observer sr"
    "notify_loop [o'] (ob_resource (sr_observer sr o')) code contentFormat payload COAP_OK False sr =
      (case notify_observer o' code contentFormat pl s of (now, t) \<Rightarrow> (COAP_OK, False \<or> now, t))" for pl s
  proof -
    obtain now t where nt: "notify_observer o' code contentFormat pl s = (now, t)" by fastforce
    then have "sr_observer sr1 = sr_observer t"
      using assms that(3) by (auto simp: nabto_coap_server_resource_notify_def)
    with that(1,2) nt show thesis by (rule outer)
  qed
  show thesis
  proof (cases "payload = None \<or> payload = Some []")
    case True
    then show thesis by (intro n [of None sr]) (auto split: prod.splits)
  next
    case False
    then obtain b bs where p: "payload = Some (b # bs)" by (metis list.exhaust option.exhaust)
    obtain q s where q: "server_calloc (length (b # bs) + 1) sr = (q, s)" by fastforce
    have "q \<noteq> None" using assms p q by (cases q) (auto simp: nabto_coap_server_resource_notify_def)
    then obtain x where "q = Some x" by auto
    moreover have "sr_observer s = sr_observer sr" using q by (auto simp: server_calloc_def split: prod.splits)
    ultimately show thesis using q p by (intro n [of "Some (x, b # bs)" s]) (auto split: prod.splits)
  qed
qed

text \<open>C23: A notification that is overtaken.  When an application notifies while the last notification is
  being sent again after a timeout, and another is pending, the new state goes out first; its
  acknowledgement promotes the pending one, so that the older state reaches the observer last, with the larger
  sequence number.\<close>

theorem notification_overtaken:
  fixes sr :: "'m server_requests"
  assumes "sr_observers sr = [o']" "ob_pendingValid (sr_observer sr o')" "\<not> ob_waitingForAck (sr_observer sr o')"
    "nabto_coap_server_resource_notify (ob_resource (sr_observer sr o')) code contentFormat payload sr = (COAP_OK, sr1)"
    "nabto_coap_server_send_observer_notification o' room sr1 = (Some p, sr2)"
  shows "let ob = sr_observer sr o'; ob1 = sr_observer sr1 o'; ob3 = sr_observer (notification_acked o' sr2) o' in
    ob_code ob1 = code \<and> owned_data (ob_payload ob1) = (case payload of None \<Rightarrow> [] | Some bs \<Rightarrow> bs) \<and>
    ob_sequenceNumber ob1 = ob_sequenceNumber ob + 1 \<and> ob_sendNow ob1 \<and>
    ob_code ob3 = ob_pendingCode ob \<and> ob_payload ob3 = ob_pendingPayload ob \<and>
    ob_sequenceNumber ob3 = ob_sequenceNumber ob + 2 \<and> ob_sendNow ob3"
proof -
  let ?ob = "sr_observer sr o'"
  obtain pl now s u where n: "owned_data pl = (case payload of None \<Rightarrow> [] | Some bs \<Rightarrow> bs)" "sr_observer s = sr_observer sr"
    "notify_observer o' code contentFormat pl (s :: 'm server_requests) = (now, u)" "sr_observer sr1 = sr_observer u"
    by (rule notify_one [OF assms(1,4)])
  obtain i where 1: "sr_observer sr1 o' = ?ob\<lparr>ob_sequenceNumber := ob_sequenceNumber ?ob + 1, ob_code := code,
      ob_hasContentFormat := True, ob_contentFormat := contentFormat, ob_payload := pl,
      ob_messageId := i, ob_retransmissions := 0, ob_sendNow := True\<rparr>"
    using notify_observer_now [OF _ n(3)] assms(3) n(2,4) by auto
  have 2: "ob_pendingValid (sr_observer sr2 o')" "ob_pendingCode (sr_observer sr2 o') = ob_pendingCode ?ob"
    "ob_pendingPayload (sr_observer sr2 o') = ob_pendingPayload ?ob"
    "ob_sequenceNumber (sr_observer sr2 o') = ob_sequenceNumber ?ob + 1"
    using assms(2,5) by (auto simp: nabto_coap_server_send_observer_notification_def 1 split: option.splits if_splits)
  show ?thesis
    using 1 2 n(1) by (simp add: notification_acked_def Let_def nabto_coap_server_observer_promote_pending_def next_message_id_eq)
qed

section \<open>An observer that waits\<close>

definition watch_server :: "counting coap_server" where
  "watch_server = \<lparr>sv_allocator = counting_allocator, sv_root = Some (Router_node 1 [(8, (16, [0x61]), Router_node 32 [] None
     ((\<lambda>_. zero_resource)(GET_HANDLER := \<lparr>re_handler = Some 70, re_handlerUserData = None\<rparr>)))] None (\<lambda>_. zero_resource)),
     sv_ackTimeout = NABTO_COAP_ACK_TIMEOUT\<rparr>"

definition watch_clock :: "counting \<Rightarrow> u32" where
  "watch_clock m = 10000 * word_of_nat (length (snd m))"

definition watch0 :: "counting server_requests" where
  "watch0 = (snd (nabto_coap_server_requests_init sample_server watch_clock (\<lambda>m. m) (99, [1]) 100000))
     \<lparr>sr_server := watch_server, sr_memory := (94, [32, 16, 8, 4, 2, 1])\<rparr>"

definition watch_message :: coap_incoming_message where
  "watch_message = empty_message\<lparr>im_code := NABTO_COAP_CODE_GET, im_messageId := 0x1234, im_token := [5],
     im_hasObserve := True, im_observe := 0, im_options := Some [0x60, 0x51, 0x61]\<rparr>"

lemma watch_parses: "nabto_coap_parse_message [0x41, 0x01, 0x12, 0x34, 0x05, 0x60, 0x51, 0x61] = Some watch_message"
  by (simp add: watch_message_def nabto_coap_parse_message_def parse_message_tail_def
    parse_message_options.simps nabto_coap_option_iterator_init_def nabto_coap_get_next_option_def decode_option_field_def
    parse_message_option_def coap_type_of_bits_def nabto_coap_parse_variable_int_def) (simp add: empty_message_def NABTO_COAP_CODE_GET_def NABTO_COAP_CODE_def)

definition watch_request :: server_request where
  "watch_request = zero_server_request\<lparr>sq_response := zero_server_response\<lparr>sp_messageId := 1, sp_block2Size := 5\<rparr>,
     sq_connection := Some 9, sq_type := CON, sq_method := NABTO_COAP_CODE_GET, sq_token := [5], sq_messageId := 0x1234,
     sq_resource := Some (32, GET_HANDLER), sq_timeout := 70000 + push_bit (unat NABTO_COAP_MAX_RETRANSMITS + 1) NABTO_COAP_ACK_TIMEOUT, sq_isObserveRegister := True, sq_state := STATE_USER\<rparr>"


definition watch1 :: "counting server_requests" where
  "watch1 = watch0\<lparr>sr_requests := [64], sr_request := (\<lambda>_. zero_server_request)(64 := watch_request), sr_messageId := 1,
     sr_activeRequests := 1, sr_ackConnection := Some 9, sr_ackMessageId := 0x1234, sr_memory := (93, [64, 32, 16, 8, 4, 2, 1])\<rparr>"

lemma watch_fields: "watch_message = w \<Longrightarrow> im_type w = CON" "im_token watch_message = [5]" "im_messageId watch_message = 0x1234"
    "im_hasObserve watch_message" "im_observe watch_message = 0" "\<not> im_hasBlock1 watch_message" "\<not> im_hasBlock2 watch_message"
    "\<not> im_hasContentFormat watch_message" "im_payloadLength watch_message = 0" "im_code watch_message = NABTO_COAP_CODE_GET"
    "im_type watch_message = CON"
  by (auto simp: watch_message_def empty_message_def im_payloadLength_def)

lemma watch_find:
  "sr_server s = watch_server \<Longrightarrow> server_find_resource watch_message ps s = (Some (32, GET_HANDLER), ps, s)"
  by (simp add: watch_server_def server_find_resource_def nabto_coap_server_find_resource_def watch_message_def
        nabto_coap_option_iterator_init_def find_resource_loop.simps nabto_coap_get_option.simps nabto_coap_get_next_option_def
        decode_option_field_def find_path_segment_iff node_resource_def nabto_coap_server_find_path_segment_def)

lemma watch_critical: "nabto_coap_server_validate_critical_options watch_message"
  by (simp add: nabto_coap_server_validate_critical_options_def watch_message_def critical_options_loop.simps
        nabto_coap_option_iterator_init_def nabto_coap_get_next_option_def decode_option_field_def empty_message_def)

lemma watch0_eq: "watch0 = \<lparr>sr_server = watch_server, sr_requestsSentinel = Some 2, sr_requests = [], sr_request = (\<lambda>a. zero_server_request),
            sr_getStamp = watch_clock, sr_notifyEvent = (\<lambda>m. m), sr_messageId = 0, sr_errorConnection = None,
            sr_errorType = CON, sr_errorCode = 0, sr_errorToken = [], sr_errorMessageId = 0, sr_errorPayload = None,
            sr_ackMessageId = 0, sr_ackConnection = None, sr_rstMessageId = 0, sr_rstConnection = None,
            sr_maxRequests = 100000, sr_activeRequests = 0, sr_maxRequestPayload = 100000,
            sr_maxObservers = 100000, sr_activeObservers = 0, sr_observersSentinel = Some 4, sr_observers = [],
            sr_observer = (\<lambda>a. zero_server_observer), sr_memory = (94, [32, 16, 8, 4, 2, 1]), sr_nullAccess = False\<rparr>"
  by (simp add: watch0_def nabto_coap_server_requests_init_def Let_def server_calloc_def sample_server_eq)


lemma watch_server_fields [simp]: "sv_allocator watch_server = counting_allocator" "sv_ackTimeout watch_server = NABTO_COAP_ACK_TIMEOUT"
   "sr_server s = watch_server \<Longrightarrow> server_resource_at s (32, GET_HANDLER) = \<lparr>re_handler = Some 70, re_handlerUserData = None\<rparr>"
  by (simp_all add: watch_server_def server_resource_at_def resource_at_def)

lemma watch1_step:
  "nabto_coap_server_handle_packet (Some 9) [0x41, 0x01, 0x12, 0x34, 0x05, 0x60, 0x51, 0x61] watch0 = (Some (70, 64, None), watch1)"
  by (simp add: nabto_coap_server_handle_packet_def watch_parses watch_fields(2-) watch_critical handle_request_message_def nabto_coap_server_find_request_def
      nabto_coap_server_handle_new_request_def nabto_coap_server_request_new_def server_calloc_def next_message_id_eq watch_find watch0_eq
      Let_def nabto_coap_server_request_arm_timeout_def nabto_coap_server_insert_request_into_list_def handle_data_def
      nabto_coap_server_handle_data_for_request_def chunk_options_def acknowledge_chunk_def whole_payload_def call_handler_def update_request_def
       nabto_coap_server_queue_ack_def transfer_deadline_def watch_clock_def nabto_coap_server_stamp_now_def
      watch1_def watch0_eq watch_request_def zero_server_request_def)

definition watch_observer :: server_observer where
  "watch_observer = zero_server_observer\<lparr>ob_resource := Some (32, GET_HANDLER), ob_connection := Some 9, ob_token := [5]\<rparr>"

text \<open>The observer is accepted and notified; the acknowledgement and the notification go out.\<close>

definition watch2 :: "counting server_requests" where
  "watch2 = watch1\<lparr>sr_request := (sr_request watch1)(64 := watch_request\<lparr>sq_observer := Some 128\<rparr>), sr_observers := [128],
     sr_observer := (\<lambda>_. zero_server_observer)(128 := watch_observer), sr_activeObservers := 1,
     sr_memory := (92, [128, 64, 32, 16, 8, 4, 2, 1])\<rparr>"

lemma watch2_step: "nabto_coap_server_request_accept_observe 64 watch1 = (COAP_OK, watch2)"
  by (simp add: nabto_coap_server_request_accept_observe_def Let_def watch1_def watch2_def watch0_eq server_calloc_def watch_request_def
      update_observer_def update_request_def watch_observer_def zero_server_observer_def)

definition watch3 :: "counting server_requests" where
  "watch3 = watch2\<lparr>sr_observer := (sr_observer watch2)(128 := watch_observer\<lparr>ob_sequenceNumber := 1, ob_code := 69,
     ob_hasContentFormat := True, ob_payload := Some (256, [1]), ob_messageId := 2, ob_sendNow := True\<rparr>), sr_messageId := 2,
     sr_memory := (91, [256, 128, 64, 32, 16, 8, 4, 2, 1])\<rparr>"

lemma watch3_step: "nabto_coap_server_resource_notify (Some (32, GET_HANDLER)) 69 0 (Some [1]) watch2 = (COAP_OK, watch3)"
  by (simp add: nabto_coap_server_resource_notify_def Let_def watch3_def watch2_def watch1_def watch0_eq server_calloc_def
      update_observer_def watch_observer_def notify_observer_def next_message_id_eq zero_server_observer_def server_notify_def server_free_owned_def)

definition watch4 :: "counting server_requests" where
  "watch4 = watch3\<lparr>sr_ackConnection := None\<rparr>"

lemma watch4_step: "nabto_coap_server_handle_send 100 watch3 = (Some ([0x60, 0x00, 0x12, 0x34], 96), watch4)"
  by (simp add: nabto_coap_server_handle_send_def watch4_def watch3_def watch2_def watch1_def watch0_eq nabto_coap_server_send_ack_def
      nabto_coap_encode_header_def Let_def byte_at_def NABTO_COAP_CODE_def)


definition watch5 :: "counting server_requests" where
  "watch5 = watch4\<lparr>sr_observer := (sr_observer watch4)(128 := (sr_observer watch4 128)\<lparr>ob_sendNow := False, ob_waitingForAck := True,
     ob_timeout := 90000 + NABTO_COAP_ACK_TIMEOUT, ob_retransmissions := 1\<rparr>)\<rparr>"

lemma watch5_packet: "\<exists>p. notification_packet (sr_observer watch4 128) 100 = Some p"
  by (simp add: watch4_def watch3_def watch2_def watch1_def watch0_eq watch_observer_def zero_server_observer_def
      notification_packet_def nabto_coap_encode_header_def Let_def nabto_coap_encode_varint_option_def
      nabto_coap_encode_option_def nabto_coap_encode_payload_def nabto_coap_encode_variable_int_def encode_option_field_def variable_length_bytes.simps variable_fill.simps byte_at_def)

lemma watch5_step: "\<exists>p. nabto_coap_server_handle_send 100 watch4 = (Some p, watch5)"
proof -
  obtain p where p: "notification_packet (sr_observer watch4 128) 100 = Some p" using watch5_packet by auto
  have "find (\<lambda>a. request_sends (sr_request watch4 a)) (sr_requests watch4) = None"
    "find (\<lambda>o'. ob_sendNow (sr_observer watch4 o')) (sr_observers watch4) = Some 128"
    "sr_errorConnection watch4 = None" "sr_ackConnection watch4 = None" "sr_rstConnection watch4 = None"
    by (simp_all add: watch4_def watch3_def watch2_def watch1_def watch0_eq watch_request_def request_sends_def zero_server_request_def)
  moreover have "nabto_coap_server_send_observer_notification 128 100 watch4 = (Some p, watch5)"
    by (simp add: nabto_coap_server_send_observer_notification_def p watch5_def)
      (simp add: watch4_def watch3_def watch2_def watch1_def watch0_eq watch_observer_def
        zero_server_observer_def update_observer_def watch_clock_def nabto_coap_server_stamp_now_def watch_server_def)
  ultimately show ?thesis by (simp add: nabto_coap_server_handle_send_def)
qed

definition watch6 :: "counting server_requests" where
  "watch6 = watch5\<lparr>sr_observer := (sr_observer watch5)(128 := (sr_observer watch5 128)\<lparr>ob_pendingValid := True, ob_pendingCode := 69,
     ob_pendingHasContentFormat := True, ob_pendingContentFormat := 0, ob_pendingPayload := Some (512, [2])\<rparr>),
     sr_memory := (90, [512, 256, 128, 64, 32, 16, 8, 4, 2, 1])\<rparr>"

lemma watch6_step: "nabto_coap_server_resource_notify (Some (32, GET_HANDLER)) 69 0 (Some [2]) watch5 = (COAP_OK, watch6)"
  by (simp add: nabto_coap_server_resource_notify_def Let_def watch6_def watch5_def watch4_def watch3_def watch2_def watch1_def watch0_eq
      server_calloc_def update_observer_def watch_observer_def notify_observer_def zero_server_observer_def server_free_owned_def)

definition watch7 :: "counting server_requests" where
  "watch7 = watch6\<lparr>sr_observer := (sr_observer watch6)(128 := (sr_observer watch6 128)\<lparr>ob_waitingForAck := False, ob_sendNow := True\<rparr>)\<rparr>"

lemma watch_late: "nabto_coap_is_stamp_less_equal 92000 100000"
  by (simp add: nabto_coap_is_stamp_less_equal_def)

lemma watch7_step: "nabto_coap_server_handle_timeout watch6 = watch7"
proof -
  have "sr_requests watch6 = [64]" "sr_observers watch6 = [128]" "nabto_coap_server_stamp_now watch6 = 100000"
    "sq_state (sr_request watch6 64) = STATE_USER" "ob_waitingForAck (sr_observer watch6 128)" "ob_timeout (sr_observer watch6 128) = 92000"
    "ob_retransmissions (sr_observer watch6 128) = 1"
    by (simp_all add: watch6_def watch5_def watch4_def watch3_def watch2_def watch1_def watch0_eq
       watch_observer_def zero_server_observer_def watch_request_def zero_server_request_def
       watch_clock_def nabto_coap_server_stamp_now_def NABTO_COAP_ACK_TIMEOUT_def)
  then show ?thesis
   by (simp add: nabto_coap_server_handle_timeout_def Let_def timeout_one_request_def timeout_one_observer_def watch_late watch7_def
       update_observer_def NABTO_COAP_MAX_RETRANSMITS_def)
qed


lemma watch_add:
  "nabto_coap_server_add_resource NABTO_COAP_CODE_GET [[0x61]] (Some 70) None sample_server (97, [4, 2, 1]) =
     Some (COAP_OK, Some (32, GET_HANDLER), watch_server, (94, [32, 16, 8, 4, 2, 1]))"
  by (simp add: nabto_coap_server_add_resource_def sample_server_def nabto_coap_server_init_def nabto_coap_router_node_new_def watch_server_def segment_child_def
      nabto_coap_server_find_path_segment_def nabto_coap_router_path_segment_new_def nn_strdup_def
      set_segments_def nabto_coap_router_insert_path_segment_def set_handler_def)

lemma watch_reach: "server_reach counting_live {} watch7"
proof -
  let ?R = "server_reach counting_live {}"
  obtain sr where i: "nabto_coap_server_requests_init sample_server watch_clock (\<lambda>m. m) (99, [1]) 100000 = (COAP_OK, sr)"
    "sr_server sr = sample_server" "sr_memory sr = (97, [4, 2, 1])"
    by (simp add: nabto_coap_server_requests_init_def Let_def server_calloc_def sample_server_eq)
  have w0: "watch0 = sr\<lparr>sr_server := watch_server, sr_memory := (94, [32, 16, 8, 4, 2, 1])\<rparr>" using i(1) by (simp add: watch0_def)
  have "?R sr" by (rule server_reach.init [OF counting_allocator_ok _ _ sample_server_eq(1) i(1)]) (simp_all add: counting_live_def)
  then have "?R watch0" unfolding w0 by (rule server_reach.step) (rule server_step.add, use watch_add i in simp)
  then have "?R watch1" by (rule server_reach.step) (rule server_step.packet [OF watch1_step])
  then have "?R watch2" by (rule server_reach.step) (rule server_step.accept [OF _ watch2_step],
    simp add: held_def watch1_def watch0_eq watch_request_def zero_server_request_def)
  then have "?R watch3" by (rule server_reach.step) (rule server_step.notify [OF watch3_step])
  then have "?R watch4" by (rule server_reach.step) (rule server_step.send [OF watch4_step])
  then have "?R watch5" using watch5_step by (blast intro: server_reach.step server_step.send)
  then have "?R watch6" by (rule server_reach.step) (rule server_step.notify [OF watch6_step])
  then have "?R (nabto_coap_server_handle_timeout watch6)" by (rule server_reach.step) (rule server_step.timeout)
  then show "?R watch7" by (simp add: watch7_step)
qed

text \<open>In the state reached the observer is sent the first notification again, and the second is pending.\<close>

definition watch8 :: "counting server_requests" where
  "watch8 = watch7\<lparr>sr_observer := (sr_observer watch7)(128 := (sr_observer watch7 128)\<lparr>ob_payload := Some (1024, [3]), ob_messageId := 3,
     ob_sequenceNumber := 2, ob_retransmissions := 0\<rparr>), sr_messageId := 3, sr_memory := (90, [1024, 512, 128, 64, 32, 16, 8, 4, 2, 1])\<rparr>"

lemma watch8_step: "nabto_coap_server_resource_notify (Some (32, GET_HANDLER)) 69 0 (Some [3]) watch7 = (COAP_OK, watch8)"
  by (simp add: nabto_coap_server_resource_notify_def Let_def watch8_def watch7_def watch6_def watch5_def watch4_def watch3_def watch2_def
      watch1_def watch0_eq server_calloc_def update_observer_def watch_observer_def notify_observer_def zero_server_observer_def
      server_free_owned_def server_free_def next_message_id_eq server_notify_def)


lemma watch8_packet: "\<exists>p. notification_packet (sr_observer watch8 128) 100 = Some p"
  by (simp add: watch8_def watch7_def watch6_def watch5_def watch4_def watch3_def watch2_def watch1_def watch0_eq watch_observer_def
      zero_server_observer_def notification_packet_def nabto_coap_encode_header_def Let_def nabto_coap_encode_varint_option_def
      nabto_coap_encode_option_def nabto_coap_encode_payload_def nabto_coap_encode_variable_int_def encode_option_field_def
      variable_length_bytes.simps variable_fill.simps byte_at_def)

lemma watch7_facts: "sr_observers watch7 = [128]" "ob_resource (sr_observer watch7 128) = Some (32, GET_HANDLER)"
  "ob_pendingValid (sr_observer watch7 128)" "\<not> ob_waitingForAck (sr_observer watch7 128)"
  "ob_pendingPayload (sr_observer watch7 128) = Some (512, [2])" "ob_sequenceNumber (sr_observer watch7 128) = 1"
  by (simp_all add: watch7_def watch6_def watch5_def watch4_def watch3_def watch2_def watch1_def watch0_eq watch_observer_def
      zero_server_observer_def)

theorem notification_overtaken_witness:
  "server_reach counting_live {} watch7 \<and>
   (\<exists>p sr2. nabto_coap_server_send_observer_notification 128 100 watch8 = (Some p, sr2) \<and>
     owned_data (ob_payload (sr_observer watch8 128)) = [3] \<and> ob_sequenceNumber (sr_observer watch8 128) = 2 \<and>
     ob_payload (sr_observer (notification_acked 128 sr2) 128) = Some (512, [2]) \<and>
     ob_sequenceNumber (sr_observer (notification_acked 128 sr2) 128) = 3)"
proof -
  obtain p sr2 where s: "nabto_coap_server_send_observer_notification 128 100 watch8 = (Some p, sr2)"
    using watch8_packet by (auto simp: nabto_coap_server_send_observer_notification_def)
  have n: "nabto_coap_server_resource_notify (ob_resource (sr_observer watch7 128)) 69 0 (Some [3]) watch7 = (COAP_OK, watch8)"
    using watch8_step by (simp add: watch7_facts)
  show ?thesis using notification_overtaken [OF watch7_facts(1,3,4) n s] s watch_reach by (simp add: watch7_facts Let_def)
qed

end
