(* ===== verification/Coap_Server_Handlers.thy ===== *)
theory Coap_Server_Handlers
  imports Coap_Server_Reach
begin

text \<open>
  The handlers of the CoAP server: when they are called, with which body, and two ways in which a null pointer is
  followed on the way to them.
\<close>

section \<open>Handlers\<close>

lemma call_handler_call:
  assumes "call_handler a sr = (Some (h, b, ud), sr')"
  shows "b = a" "sr_requests sr' = sr_requests sr" "sq_state (sr_request sr' a) = STATE_USER"
    "\<exists>res. sq_resource (sr_request sr' a) = Some res \<and> re_handler (server_resource_at sr' res) = Some h"
  using assms unfolding call_handler_def Let_def
  by (auto simp: server_resource_at_def zero_resource_def split: option.splits)

lemma data_for_request_call:
  assumes "nabto_coap_server_handle_data_for_request a msg sr = (Some (h, b, ud), sr')"
    "server_ok live F k [] sr" "a \<in> set (sr_requests sr)" "sq_state (sr_request sr a) = STATE_REQUEST"
  shows "b = a" "sr_requests sr' = sr_requests sr" "sq_state (sr_request sr' a) = STATE_USER"
    "\<exists>res. sq_resource (sr_request sr' a) = Some res \<and> re_handler (server_resource_at sr' res) = Some h"
proof -
  let ?sr = "chunk_options a msg sr"
  have o: "server_ok live F k [] ?sr" "a \<in> set (sr_requests ?sr)" "sq_state (sr_request ?sr a) = STATE_REQUEST"
    using assms chunk_options_ok by auto
  obtain sr3 where d: "(if im_hasBlock1 msg then append_block1 a msg ?sr else whole_payload a msg ?sr) = (True, sr3)"
    "call_handler a (acknowledge_chunk a msg sr3) = (Some (h, b, ud), sr')"
    using assms(1) by (cases rule: data_for_request_cases) auto
  have "sr_requests sr3 = sr_requests sr"
    using d(1) append_block1_ok(4) [OF o] whole_payload_ok(2) [OF o(1,2)] by (auto split: if_splits)
  then show "b = a" "sr_requests sr' = sr_requests sr" "sq_state (sr_request sr' a) = STATE_USER"
    "\<exists>res. sq_resource (sr_request sr' a) = Some res \<and> re_handler (server_resource_at sr' res) = Some h"
    using call_handler_call [OF d(2)] by (auto simp: acknowledge_chunk_def)
qed

lemma find_resource_requests:
  "server_find_resource msg ps sr = (found, qs, sr') \<Longrightarrow> sr_requests sr' = sr_requests sr"
  by (rule find_resource_same)

lemma new_request_fresh:
  assumes "server_ok live F k [] sr" "nabto_coap_server_handle_new_request msg connection sr = (Some a, sr')"
  shows "a \<notin> set (sr_requests sr)"
proof -
  obtain found ps sr1 where f: "server_find_resource msg None sr = (found, ps, sr1)" by (metis prod.exhaust)
  have ok1: "server_ok live F k [] sr1" using server_find_resource_None [OF f] assms(1) by auto
  obtain p sr2 where p: "nabto_coap_server_request_new sr1 = (p, sr2)" by fastforce
  have "p = Some a"
    using assms(2) f p by (auto simp: nabto_coap_server_handle_new_request_def Let_def split: option.splits if_splits prod.splits)
  then show ?thesis
    using request_new_ok(1,2) [OF ok1 p [unfolded \<open>p = Some a\<close>]] server_ok_distinct(3) [of live F k "[a]" sr2 a]
      find_resource_requests [OF f] by simp
qed

text \<open>C12: A handler is called once for a request.  When a packet ends with the call of a handler, the request is new or
  was still being received, so that no handler was called for it before; it is in the list, with the application from
  then on, and the handler is the one of the resource of the request.\<close>

theorem handler_called_once:
  assumes "server_reach live F sr" "nabto_coap_server_handle_packet connection packet sr = (Some (h, a, ud), sr')"
  shows "(a \<notin> set (sr_requests sr) \<or> sq_state (sr_request sr a) = STATE_REQUEST) \<and>
    a \<in> set (sr_requests sr') \<and> sq_state (sr_request sr' a) = STATE_USER \<and>
    (\<exists>res. sq_resource (sr_request sr' a) = Some res \<and> re_handler (server_resource_at sr' res) = Some h)"
proof -
  note ok = server_reach_ok [OF assms(1)]
  have data: "a = b \<and> sq_state (sr_request s b) = STATE_REQUEST \<and> a \<in> set (sr_requests sr') \<and>
      sq_state (sr_request sr' a) = STATE_USER \<and>
      (\<exists>res. sq_resource (sr_request sr' a) = Some res \<and> re_handler (server_resource_at sr' res) = Some h)"
    if "handle_data b msg s = (Some (h, a, ud), sr')" "server_ok live F 0 [] s" "b \<in> set (sr_requests s)" for b msg s
  proof -
    have "sq_state (sr_request s b) = STATE_REQUEST" "nabto_coap_server_handle_data_for_request b msg s = (Some (h, a, ud), sr')"
      using that(1) by (auto simp: handle_data_def split: if_splits)
    with data_for_request_call [OF this(2) that(2,3)] that(3) show ?thesis by auto
  qed
  obtain msg where m: "handle_request_message msg connection sr = (Some (h, a, ud), sr')"
    using assms(2) by (auto simp: nabto_coap_server_handle_packet_def split: option.splits if_splits)
  show ?thesis
  proof (cases "nabto_coap_server_find_request (im_token msg) connection sr")
    case (Some b)
    then have "b \<in> set (sr_requests sr)" by (auto simp: nabto_coap_server_find_request_def dest: find_in)
    then show ?thesis using m Some data [OF _ ok] by (auto simp: handle_request_message_def split: if_splits)
  next
    case None
    then obtain b s where n: "nabto_coap_server_handle_new_request msg connection sr = (Some b, s)" "handle_data b msg s = (Some (h, a, ud), sr')"
      using m by (auto simp: handle_request_message_def split: option.splits prod.splits)
    then show ?thesis using data [OF n(2) new_request_ok(1) [OF ok n(1)] new_request_ok(2) [OF ok n(1)]] new_request_fresh [OF ok n(1)]
      by auto
  qed
qed

theorem handler_called_once_witness:
  "64 \<notin> set (sr_requests sample_routed) \<and> sq_state (sr_request sample_serving 64) = STATE_USER"
  using handler_called_once [OF sample_routed_reach(1) sample_serving_step(1)] by (simp add: sample_routed_reach)

section \<open>Bodies\<close>

abbreviation body_at :: "address \<Rightarrow> 'm server_requests \<Rightarrow> bytes" where
  "body_at a sr \<equiv> owned_data (sq_payload (sr_request sr a))"

lemma refuse_state: "sq_state (sr_request (refuse_request a msg c d sr) a) = STATE_DONE"
  by (simp add: refuse_request_def discard_request_def nabto_coap_server_free_request_def Let_def)

lemma calloc_same: "server_calloc n sr = (q, s) \<Longrightarrow> sr_request s = sr_request sr \<and> sr_server s = sr_server sr \<and> sr_requests s = sr_requests sr"
  by (auto simp: server_calloc_def split: prod.splits)

text \<open>What is the same before and after a chunk.\<close>

definition same_exchange :: "address \<Rightarrow> 'm server_requests \<Rightarrow> 'm server_requests \<Rightarrow> bool" where
  "same_exchange a sr sr' \<longleftrightarrow> sr_server sr' = sr_server sr \<and> sq_resource (sr_request sr' a) = sq_resource (sr_request sr a) \<and>
     sq_state (sr_request sr' a) = sq_state (sr_request sr a) \<and> sr_requests sr' = sr_requests sr \<and>
     sr_maxRequestPayload sr' = sr_maxRequestPayload sr"

lemma free_owned_limit [simp]: "sr_maxRequestPayload (server_free_owned pl sr) = sr_maxRequestPayload sr"
  by (simp add: server_free_owned_def server_free_def split: option.splits prod.splits)

lemma append_block1_done:
  assumes "append_block1 a msg sr = (True, sr')"
  shows "length (body_at a sr) = NABTO_COAP_BLOCK_OFFSET (im_block1 msg)"
    "NABTO_COAP_BLOCK_MORE (im_block1 msg) \<longrightarrow> length (im_data msg) = NABTO_COAP_BLOCK_SIZE_ABSOLUTE (im_block1 msg)"
    "body_at a sr' = body_at a sr @ im_data msg" "same_exchange a sr sr'"
proof -
  let ?sr = "update_request a (\<lambda>r. r\<lparr>sq_hasBlock1 := True\<rparr>) sr"
  obtain q s where q: "server_calloc (sq_payloadLength (sr_request ?sr a) + im_payloadLength msg + 1) ?sr = (q, s)" by fastforce
  note c = calloc_same [OF q]
  have "sr_maxRequestPayload s = sr_maxRequestPayload sr" using q by (auto simp: server_calloc_def update_request_def split: prod.splits)
  then show "length (body_at a sr) = NABTO_COAP_BLOCK_OFFSET (im_block1 msg)"
    "NABTO_COAP_BLOCK_MORE (im_block1 msg) \<longrightarrow> length (im_data msg) = NABTO_COAP_BLOCK_SIZE_ABSOLUTE (im_block1 msg)"
    "body_at a sr' = body_at a sr @ im_data msg" "same_exchange a sr sr'"
    using assms q c unfolding append_block1_def Let_def
    by (auto simp: owned_length_data im_payload_data same_exchange_def nabto_coap_server_request_arm_timeout_def split: if_splits option.splits)
qed

lemma append_block1_refused:
  assumes "append_block1 a msg sr = (False, sr')"
  shows "sq_state (sr_request sr' a) = STATE_DONE"
  using assms refuse_state unfolding append_block1_def Let_def
  by (auto split: if_splits option.splits prod.splits)

lemma whole_payload_done:
  assumes "whole_payload a msg sr = (done, sr')"
  shows "done \<Longrightarrow> body_at a sr' = (if im_data msg = [] then body_at a sr else im_data msg)"
    "done \<Longrightarrow> same_exchange a sr sr'" "\<not> done \<Longrightarrow> sq_state (sr_request sr' a) = STATE_DONE"
proof -
  obtain q s where q: "server_calloc (im_payloadLength msg + 1) (server_free_owned (sq_payload (sr_request sr a)) sr) = (q, s)" by fastforce
  note c = calloc_same [OF q]
  have d: "sq_state (sr_request (discard_request a t) a) = STATE_DONE" for t :: "'a server_requests"
    by (simp add: discard_request_def nabto_coap_server_free_request_def Let_def)
  have "sr_maxRequestPayload s = sr_maxRequestPayload sr" using q by (auto simp: server_calloc_def server_free_owned_def server_free_def split: prod.splits option.splits)
  then show "done \<Longrightarrow> body_at a sr' = (if im_data msg = [] then body_at a sr else im_data msg)"
    "done \<Longrightarrow> same_exchange a sr sr'" "\<not> done \<Longrightarrow> sq_state (sr_request sr' a) = STATE_DONE"
    using assms q c d unfolding whole_payload_def Let_def
    by (auto simp: im_payload_data same_exchange_def split: if_splits option.splits)
qed

lemma chunk_options_same: "same_exchange a sr (chunk_options a msg sr)" "body_at a (chunk_options a msg sr) = body_at a sr"
  by (simp_all add: same_exchange_def chunk_options_def Let_def)

lemma acknowledge_same: "same_exchange a sr (acknowledge_chunk a msg sr)" "body_at a (acknowledge_chunk a msg sr) = body_at a sr"
  by (simp_all add: same_exchange_def acknowledge_chunk_def nabto_coap_server_queue_ack_def)

lemma same_exchange_trans: "same_exchange a sr sr1 \<Longrightarrow> same_exchange a sr1 sr2 \<Longrightarrow> same_exchange a sr sr2"
  by (simp add: same_exchange_def)

text \<open>The handler is called with the body so far and the last chunk.\<close>

lemma data_for_request_user:
  assumes "nabto_coap_server_handle_data_for_request a msg sr = (call, sr')" "sq_state (sr_request sr a) = STATE_REQUEST"
    "sq_state (sr_request sr' a) = STATE_USER"
  obtains sr3 where "same_exchange a sr sr3" "call_handler a sr3 = (call, sr')"
    "body_at a sr3 = (if im_hasBlock1 msg then body_at a sr @ im_data msg else if im_data msg = [] then body_at a sr else im_data msg)"
    "im_hasBlock1 msg \<Longrightarrow> length (body_at a sr) = NABTO_COAP_BLOCK_OFFSET (im_block1 msg) \<and> \<not> NABTO_COAP_BLOCK_MORE (im_block1 msg)"
  using assms(1)
proof (cases rule: data_for_request_cases)
  case (5 sr3)
  let ?sr = "chunk_options a msg sr"
  have "same_exchange a ?sr sr3 \<and>
    body_at a sr3 = (if im_hasBlock1 msg then body_at a sr @ im_data msg else if im_data msg = [] then body_at a sr else im_data msg) \<and>
    (im_hasBlock1 msg \<longrightarrow> length (body_at a sr) = NABTO_COAP_BLOCK_OFFSET (im_block1 msg))"
    using 5(2) append_block1_done [of a msg ?sr sr3] whole_payload_done(1,2) [of a msg ?sr True sr3] chunk_options_same(2) [of a msg sr]
    by (auto split: if_splits)
  then show thesis using 5(1,3) that [of "acknowledge_chunk a msg sr3"]
      same_exchange_trans [OF chunk_options_same(1) same_exchange_trans [OF _ acknowledge_same(1)]] acknowledge_same(2) by metis
next
  case (4 sr3)
  then have "sq_state (sr_request sr3 a) = STATE_REQUEST"
    using append_block1_done(4) [OF 4(4)] chunk_options_same(1) [of a sr msg] assms(2) by (simp add: same_exchange_def)
  then show thesis using 4(5) assms(3) acknowledge_same(1) [of a sr3 msg] by (simp add: same_exchange_def)
next
  case 3
  then have "sq_state (sr_request sr' a) = STATE_DONE"
    using append_block1_refused whole_payload_done(3) by (auto split: if_splits)
  then show thesis using assms(3) by simp
qed (use refuse_state assms(3) in \<open>auto simp: refuse_state\<close>)

section \<open>Block-wise requests\<close>

text \<open>The chunks of a request that arrive one after the other, until the request is no longer being received.\<close>

fun upload :: "address \<Rightarrow> coap_incoming_message list \<Rightarrow> 'm server_requests \<Rightarrow> handler_call option \<times> 'm server_requests" where
  "upload a [] sr = (None, sr)"
| "upload a (msg # msgs) sr =
     (case nabto_coap_server_handle_data_for_request a msg sr of
        (call, sr') \<Rightarrow> if sq_state (sr_request sr' a) = STATE_REQUEST then upload a msgs sr' else (call, sr'))"

lemma data_for_request_receiving:
  assumes "nabto_coap_server_handle_data_for_request a msg sr = (call, sr')" "im_hasBlock1 msg"
    "sq_state (sr_request sr' a) = STATE_REQUEST"
  shows "body_at a sr' = body_at a sr @ im_data msg" "same_exchange a sr sr'"
    "length (body_at a sr) = NABTO_COAP_BLOCK_OFFSET (im_block1 msg)" "NABTO_COAP_BLOCK_MORE (im_block1 msg)"
proof -
  let ?sr = "chunk_options a msg sr"
  have "body_at a sr' = body_at a sr @ im_data msg \<and> same_exchange a sr sr' \<and>
    length (body_at a sr) = NABTO_COAP_BLOCK_OFFSET (im_block1 msg) \<and> NABTO_COAP_BLOCK_MORE (im_block1 msg)"
    using assms(1)
  proof (cases rule: data_for_request_cases)
    case (4 sr3)
    note d = append_block1_done [OF 4(4)]
    show ?thesis using d(1,3) 4(3) acknowledge_same(2) [of a msg sr3] chunk_options_same(2) [of a msg sr]
        same_exchange_trans [OF chunk_options_same(1) same_exchange_trans [OF d(4) acknowledge_same(1)]]
      by (auto simp: 4(5))
  next
    case (5 sr3)
    then have "sq_state (sr_request sr' a) = STATE_USER"
      unfolding call_handler_def Let_def by (auto split: option.splits)
    then show ?thesis using assms(3) by simp
  next
    case 3
    then have "sq_state (sr_request sr' a) = STATE_DONE" using append_block1_refused assms(2) by auto
    then show ?thesis using assms(3) by simp
  qed (use assms(3) in \<open>auto simp: refuse_state\<close>)
  then show "body_at a sr' = body_at a sr @ im_data msg" "same_exchange a sr sr'"
    "length (body_at a sr) = NABTO_COAP_BLOCK_OFFSET (im_block1 msg)" "NABTO_COAP_BLOCK_MORE (im_block1 msg)" by auto
qed

text \<open>C13: No chunk is lost, doubled or out of its place.  When the chunks that arrive for a request, whatever they are,
  end with the request going to the application, then its body is the data of all of them up to the last, each
  at the offset that its Block1 option says, and the last is the first that says that no more follows.\<close>

theorem block1_upload_exact:
  assumes "upload a msgs sr = (call, sr')" "sq_state (sr_request sr a) = STATE_REQUEST"
    "sq_state (sr_request sr' a) = STATE_USER" "\<forall>msg\<in>set msgs. im_hasBlock1 msg"
  shows "\<exists>n<length msgs. body_at a sr' = body_at a sr @ concat (map im_data (take (Suc n) msgs)) \<and>
    (\<forall>i\<le>n. NABTO_COAP_BLOCK_OFFSET (im_block1 (msgs ! i)) = length (body_at a sr) + length (concat (map im_data (take i msgs))) \<and>
      (NABTO_COAP_BLOCK_MORE (im_block1 (msgs ! i)) \<longleftrightarrow> i < n))"
  using assms
proof (induction msgs arbitrary: sr)
  case (Cons msg msgs)
  obtain c sr1 where h: "nabto_coap_server_handle_data_for_request a msg sr = (c, sr1)" by fastforce
  show ?case
  proof (cases "sq_state (sr_request sr1 a) = STATE_REQUEST")
    case True
    note r = data_for_request_receiving [OF h _ True]
    have b1: "im_hasBlock1 msg" using Cons.prems(4) by simp
    obtain n where n: "n < length msgs" "body_at a sr' = body_at a sr1 @ concat (map im_data (take (Suc n) msgs))"
      "\<forall>i\<le>n. NABTO_COAP_BLOCK_OFFSET (im_block1 (msgs ! i)) = length (body_at a sr1) + length (concat (map im_data (take i msgs))) \<and>
        (NABTO_COAP_BLOCK_MORE (im_block1 (msgs ! i)) \<longleftrightarrow> i < n)"
      using Cons.IH [of sr1] Cons.prems h True by auto
    have "NABTO_COAP_BLOCK_OFFSET (im_block1 ((msg # msgs) ! i)) = length (body_at a sr) + length (concat (map im_data (take i (msg # msgs)))) \<and>
        (NABTO_COAP_BLOCK_MORE (im_block1 ((msg # msgs) ! i)) \<longleftrightarrow> i < Suc n)" if "i \<le> Suc n" for i
      using that n(3) r b1 by (cases i) (auto simp: algebra_simps)
    then show ?thesis using n(1,2) r(1) b1 by (intro exI [of _ "Suc n"]) auto
  next
    case False
    then have e: "c = call" "sr1 = sr'" using Cons.prems(1) h by auto
    obtain sr3 where u: "call_handler a sr3 = (call, sr')" "body_at a sr3 = body_at a sr @ im_data msg"
      "length (body_at a sr) = NABTO_COAP_BLOCK_OFFSET (im_block1 msg) \<and> \<not> NABTO_COAP_BLOCK_MORE (im_block1 msg)"
      using data_for_request_user [OF h [unfolded e] Cons.prems(2,3)] Cons.prems(4) by auto
    have "body_at a sr' = body_at a sr3" using u(1) unfolding call_handler_def Let_def by (auto split: option.splits)
    then show ?thesis using u by (intro exI [of _ 0]) auto
  qed
qed simp

text \<open>A chunk that is what it should be is accepted unless an allocation fails.\<close>

definition chunk_fits :: "address \<Rightarrow> coap_incoming_message \<Rightarrow> 'm server_requests \<Rightarrow> bool" where
  "chunk_fits a msg sr \<longleftrightarrow> im_hasBlock1 msg \<and> NABTO_COAP_BLOCK_SIZE (im_block1 msg) \<noteq> 7 \<and>
     \<not> (im_hasBlock2 msg \<and> NABTO_COAP_BLOCK_SIZE (im_block2 msg) = 7) \<and>
     \<not> (im_hasContentFormat msg \<and> sq_hasContentFormat (sr_request sr a) \<and> sq_contentFormat (sr_request sr a) \<noteq> im_contentFormat msg) \<and>
     length (body_at a sr) + length (im_data msg) \<le> sr_maxRequestPayload sr \<and>
     length (body_at a sr) = NABTO_COAP_BLOCK_OFFSET (im_block1 msg) \<and>
     (NABTO_COAP_BLOCK_MORE (im_block1 msg) \<longrightarrow> length (im_data msg) = NABTO_COAP_BLOCK_SIZE_ABSOLUTE (im_block1 msg))"

definition never_fails :: "'m nn_allocator \<Rightarrow> bool" where
  "never_fails al \<longleftrightarrow> (\<forall>n sz m. fst (nn_allocator_calloc al n sz m) \<noteq> None)"

lemma append_block1_accepts:
  assumes "length (body_at a sr) = NABTO_COAP_BLOCK_OFFSET (im_block1 msg)" "never_fails (sv_allocator (sr_server sr))"
    "NABTO_COAP_BLOCK_MORE (im_block1 msg) \<longrightarrow> length (im_data msg) = NABTO_COAP_BLOCK_SIZE_ABSOLUTE (im_block1 msg)"
  shows "\<exists>sr'. append_block1 a msg sr = (True, sr')"
proof -
  let ?sr = "update_request a (\<lambda>r. r\<lparr>sq_hasBlock1 := True\<rparr>) sr"
  obtain q s where q: "server_calloc (sq_payloadLength (sr_request ?sr a) + im_payloadLength msg + 1) ?sr = (q, s)" by fastforce
  have "q \<noteq> None" using q assms(2) unfolding server_calloc_def never_fails_def by (auto split: prod.splits) (metis fst_conv update_request_fields)
  then show ?thesis using q assms(1,3) unfolding append_block1_def Let_def
    by (auto simp: owned_length_data im_payload_data)
qed

lemma chunk_accepted:
  assumes "chunk_fits a msg sr" "never_fails (sv_allocator (sr_server sr))"
  obtains sr3 where "nabto_coap_server_handle_data_for_request a msg sr =
      (if NABTO_COAP_BLOCK_MORE (im_block1 msg) then (None, sr3) else call_handler a sr3)"
    "same_exchange a sr sr3" "body_at a sr3 = body_at a sr @ im_data msg"
    "sq_hasContentFormat (sr_request sr3 a) = (sq_hasContentFormat (sr_request sr a) \<or> im_hasContentFormat msg)"
    "sq_contentFormat (sr_request sr3 a) = (if im_hasContentFormat msg then im_contentFormat msg else sq_contentFormat (sr_request sr a))"
proof -
  let ?sr = "chunk_options a msg sr"
  have o: "sr_server ?sr = sr_server sr" "body_at a ?sr = body_at a sr" using chunk_options_same(1) [where a = a and sr = sr and msg = msg] chunk_options_same(2) [of a msg sr] by (auto simp: same_exchange_def)
  obtain sr3 where b: "append_block1 a msg ?sr = (True, sr3)"
    using append_block1_accepts [where a = a and sr = ?sr and msg = msg] assms unfolding o chunk_fits_def by auto
  note d = append_block1_done [OF b]
  have cf: "sq_hasContentFormat (sr_request sr3 a) = sq_hasContentFormat (sr_request ?sr a) \<and>
      sq_contentFormat (sr_request sr3 a) = sq_contentFormat (sr_request ?sr a)"
  proof -
    let ?sr0 = "update_request a (\<lambda>r. r\<lparr>sq_hasBlock1 := True\<rparr>) ?sr"
    obtain q s where q: "server_calloc (sq_payloadLength (sr_request ?sr0 a) + im_payloadLength msg + 1) ?sr0 = (q, s)" by fastforce
    show ?thesis using b q calloc_same [OF q] unfolding append_block1_def Let_def
      by (auto simp: nabto_coap_server_request_arm_timeout_def split: if_splits option.splits)
  qed
  have n: "((im_hasBlock1 msg \<and> NABTO_COAP_BLOCK_SIZE (im_block1 msg) = 7) \<or> (im_hasBlock2 msg \<and> NABTO_COAP_BLOCK_SIZE (im_block2 msg) = 7)) = False"
    "(im_hasContentFormat msg \<and> sq_hasContentFormat (sr_request sr a) \<and> sq_contentFormat (sr_request sr a) \<noteq> im_contentFormat msg) = False"
    "im_hasBlock1 msg = True"
    using assms(1) by (auto simp: chunk_fits_def)
  have limit: "(sr_maxRequestPayload ?sr < sq_payloadLength (sr_request ?sr a) + im_payloadLength msg) = False"
    using assms(1) o chunk_options_same(1) [where a = a and sr = sr and msg = msg]
    by (simp add: chunk_fits_def same_exchange_def owned_length_data im_payload_data)
  have h: "nabto_coap_server_handle_data_for_request a msg sr =
      (if NABTO_COAP_BLOCK_MORE (im_block1 msg) then (None, acknowledge_chunk a msg sr3) else call_handler a (acknowledge_chunk a msg sr3))"
    unfolding nabto_coap_server_handle_data_for_request_def n(1,2) limit Let_def by (simp add: n(3) b)
  have co: "sq_hasContentFormat (sr_request ?sr a) = (sq_hasContentFormat (sr_request sr a) \<or> im_hasContentFormat msg)"
    "sq_contentFormat (sr_request ?sr a) = (if im_hasContentFormat msg then im_contentFormat msg else sq_contentFormat (sr_request sr a))"
    by (auto simp: chunk_options_def Let_def)
  show thesis
    by (rule that [OF h same_exchange_trans [OF chunk_options_same(1) same_exchange_trans [OF d(4) acknowledge_same(1)]]])
      (use d(3) o cf co in \<open>simp_all add: acknowledge_same(2) acknowledge_chunk_def\<close>)
qed

text \<open>The chunks of a body: numbers in order, all but the last full, one content format.\<close>

definition chunks_of_body :: "u16 \<Rightarrow> coap_incoming_message list \<Rightarrow> bool" where
  "chunks_of_body fmt msgs \<longleftrightarrow> msgs \<noteq> [] \<and>
     (\<forall>i<length msgs. let msg = msgs ! i in im_hasBlock1 msg \<and> NABTO_COAP_BLOCK_SIZE (im_block1 msg) \<noteq> 7 \<and>
        \<not> (im_hasBlock2 msg \<and> NABTO_COAP_BLOCK_SIZE (im_block2 msg) = 7) \<and>
        (im_hasContentFormat msg \<longrightarrow> im_contentFormat msg = fmt) \<and>
        NABTO_COAP_BLOCK_OFFSET (im_block1 msg) = length (concat (map im_data (take i msgs))) \<and>
        (NABTO_COAP_BLOCK_MORE (im_block1 msg) \<longleftrightarrow> Suc i < length msgs) \<and>
        (Suc i < length msgs \<longrightarrow> length (im_data msg) = NABTO_COAP_BLOCK_SIZE_ABSOLUTE (im_block1 msg)))"

lemma upload_chunks:
  assumes "chunks_of_body fmt (before @ msgs)" "msgs \<noteq> []" "never_fails (sv_allocator (sr_server sr))"
    "body_at a sr = concat (map im_data before)" "sq_state (sr_request sr a) = STATE_REQUEST"
    "sq_hasContentFormat (sr_request sr a) \<longrightarrow> sq_contentFormat (sr_request sr a) = fmt"
    "length (concat (map im_data (before @ msgs))) \<le> sr_maxRequestPayload sr"
    "sq_resource (sr_request sr a) = Some r" "re_handler (server_resource_at sr r) = Some h"
  shows "\<exists>sr'. upload a msgs sr = (Some (h, a, re_handlerUserData (server_resource_at sr r)), sr') \<and>
    body_at a sr' = concat (map im_data (before @ msgs)) \<and> sq_state (sr_request sr' a) = STATE_USER"
  using assms
proof (induction msgs arbitrary: before sr)
  case (Cons msg msgs)
  have at: "(before @ msg # msgs) ! length before = msg" by simp
  have c: "im_hasBlock1 msg" "NABTO_COAP_BLOCK_SIZE (im_block1 msg) \<noteq> 7" "\<not> (im_hasBlock2 msg \<and> NABTO_COAP_BLOCK_SIZE (im_block2 msg) = 7)"
    "im_hasContentFormat msg \<longrightarrow> im_contentFormat msg = fmt"
    "NABTO_COAP_BLOCK_OFFSET (im_block1 msg) = length (concat (map im_data before))"
    "NABTO_COAP_BLOCK_MORE (im_block1 msg) \<longleftrightarrow> msgs \<noteq> []"
    "msgs \<noteq> [] \<longrightarrow> length (im_data msg) = NABTO_COAP_BLOCK_SIZE_ABSOLUTE (im_block1 msg)"
    using Cons.prems(1) at unfolding chunks_of_body_def Let_def by (auto dest!: spec [of _ "length before"])
  have "chunk_fits a msg sr" using c Cons.prems(4,6,7) by (auto simp: chunk_fits_def)
  then obtain sr3 where s: "nabto_coap_server_handle_data_for_request a msg sr =
      (if NABTO_COAP_BLOCK_MORE (im_block1 msg) then (None, sr3) else call_handler a sr3)"
    "same_exchange a sr sr3" "body_at a sr3 = body_at a sr @ im_data msg"
    "sq_hasContentFormat (sr_request sr3 a) = (sq_hasContentFormat (sr_request sr a) \<or> im_hasContentFormat msg)"
    "sq_contentFormat (sr_request sr3 a) = (if im_hasContentFormat msg then im_contentFormat msg else sq_contentFormat (sr_request sr a))"
    using chunk_accepted Cons.prems(3) by blast
  have x: "sr_server sr3 = sr_server sr" "sq_resource (sr_request sr3 a) = Some r" "sq_state (sr_request sr3 a) = STATE_REQUEST"
    "server_resource_at sr3 r = server_resource_at sr r" "sr_maxRequestPayload sr3 = sr_maxRequestPayload sr"
    using s(2) Cons.prems(5,8) by (simp_all add: same_exchange_def server_resource_at_def)
  show ?case
  proof (cases "msgs = []")
    case True
    then have "nabto_coap_server_handle_data_for_request a msg sr = call_handler a sr3" using s(1) c(6) by simp
    moreover obtain sr' where h: "call_handler a sr3 = (Some (h, a, re_handlerUserData (server_resource_at sr r)), sr')"
      "sq_state (sr_request sr' a) = STATE_USER" "body_at a sr' = body_at a sr3"
      using x Cons.prems(9) by (auto simp: call_handler_def Let_def server_resource_at_def)
    ultimately show ?thesis using True s(3) Cons.prems(4) by simp
  next
    case False
    have "\<exists>sr'. upload a msgs sr3 = (Some (h, a, re_handlerUserData (server_resource_at sr3 r)), sr') \<and>
      body_at a sr' = concat (map im_data ((before @ [msg]) @ msgs)) \<and> sq_state (sr_request sr' a) = STATE_USER"
      by (rule Cons.IH) (use Cons.prems s x c(4) False in auto)
    then show ?thesis using s(1) x c(6) False by simp
  qed
qed simp

text \<open>C14: A body that is sent in chunks reaches its handler.  When the numbers of the chunks follow each other, all but the
  last are full, the body is not larger than the limit, and the allocator has memory, the handler of the resource is
  called after the last chunk, and the payload of the request is the body.\<close>

theorem block1_body_delivered:
  assumes "chunks_of_body fmt msgs" "never_fails (sv_allocator (sr_server sr))"
    "sq_payload (sr_request sr a) = None" "sq_state (sr_request sr a) = STATE_REQUEST" "\<not> sq_hasContentFormat (sr_request sr a)"
    "length (concat (map im_data msgs)) \<le> sr_maxRequestPayload sr"
    "sq_resource (sr_request sr a) = Some r" "re_handler (server_resource_at sr r) = Some h"
  shows "\<exists>sr'. upload a msgs sr = (Some (h, a, re_handlerUserData (server_resource_at sr r)), sr') \<and>
    body_at a sr' = concat (map im_data msgs) \<and> sq_state (sr_request sr' a) = STATE_USER"
  using upload_chunks [of fmt "[]" msgs sr a r h] assms by (auto simp: chunks_of_body_def)

section \<open>Removed resources\<close>

lemma router_nodes_write: "router_nodes (write_resource r v node) = map (write_resource r v) (router_nodes node)"
proof (induction r v node rule: write_resource.induct)
  case (1 r v a segments parameter handlers)
  have "router_nodes (write_resource r v node) = map (write_resource r v) (router_nodes node)" if "(s, str, node) \<in> set segments" for s str node
    using 1(1) that by simp
  then have "map (\<lambda>(s, str, node). router_nodes node) (map (\<lambda>(s, str, node). (s, str, write_resource r v node)) segments) =
    map (map (write_resource r v)) (map (\<lambda>(s, str, node). router_nodes node) segments)"
    by auto
  then have "concat (map (\<lambda>(s, str, node). router_nodes node) (map (\<lambda>(s, str, node). (s, str, write_resource r v node)) segments)) =
    map (write_resource r v) (concat (map (\<lambda>(s, str, node). router_nodes node) segments))"
    by (simp only: map_concat)
  moreover have "router_nodes (write_resource r v node) = map (write_resource r v) (router_nodes node)" if "parameter = Some (name, node)" for name node
    using 1(2) that by simp
  ultimately show ?case by (auto split: option.splits)
qed

lemma removed_resource: "re_handler (resource_at (write_resource r \<lparr>re_handler = None, re_handlerUserData = u\<rparr> node) r) = None"
proof -
  have a: "rn_address (write_resource r v m) = rn_address m" for v m by (cases m) simp
  have h: "rn_address m = fst r \<Longrightarrow> rn_handlers (write_resource r v m) (snd r) = v" for v m by (cases m) simp
  have "find (\<lambda>m. rn_address m = fst r) (map (write_resource r v) ms) = map_option (write_resource r v) (find (\<lambda>m. rn_address m = fst r) ms)" for v ms
    by (induction ms) (simp_all add: a)
  then show ?thesis
    by (auto simp: resource_at_def router_nodes_write zero_resource_def h find_Some_iff split: option.splits)
qed

text \<open>C25: A resource that is removed while the body of a request is arriving.  The request keeps its pointer to the
  resource, which is cleared but not checked again: when the last chunk arrives, the null handler is called.\<close>

theorem removed_resource_follows_null:
  assumes "sr = sr0\<lparr>sr_server := nabto_coap_server_remove_resource r (sr_server sr0)\<rparr>"
    "sq_resource (sr_request sr0 a) = Some r" "sq_state (sr_request sr0 a) = STATE_REQUEST"
    "nabto_coap_server_handle_data_for_request a msg sr = (call, sr')" "sq_state (sr_request sr' a) = STATE_USER"
  shows "call = None \<and> sr_nullAccess sr'"
proof -
  obtain sr3 where c: "same_exchange a sr sr3" "call_handler a sr3 = (call, sr')"
    using data_for_request_user [OF assms(4) _ assms(5)] assms(1,3) by auto
  have "re_handler (server_resource_at sr r) = None"
    by (simp add: assms(1) nabto_coap_server_remove_resource_def server_resource_at_def removed_resource zero_resource_def split: option.splits)
  then have "sq_resource (sr_request sr3 a) = Some r" "re_handler (server_resource_at sr3 r) = None"
    using c(1) assms(1,2) by (simp_all add: same_exchange_def server_resource_at_def)
  then show ?thesis using c(2) unfolding call_handler_def Let_def
    by (auto simp: server_resource_at_def split: option.splits)
qed

section \<open>Requests without parameters\<close>

lemma upd_null [simp]: "sr_nullAccess (update_request a f sr) = sr_nullAccess sr"
  by (simp add: update_request_def)

text \<open>C26: A request whose parameters cannot be stored.  The request was not inserted into the list when an allocation for
  its parameters fails, but it is taken out of it: its links are null, and they are followed.\<close>

theorem parameter_failure_follows_null:
  assumes "server_find_resource msg None sr = (Some r, ps, sr1)" "sr_activeRequests sr < sr_maxRequests sr"
    "server_reach live F sr"
    "nabto_coap_server_request_new sr1 = (Some a, sr2)"
    "fst (server_find_resource msg (Some []) (sr2\<lparr>sr_activeRequests := sr_activeRequests sr2 + 1\<rparr>)) = None"
    "nabto_coap_server_handle_new_request msg connection sr = (new, sr')"
  shows "new = None \<and> sr_nullAccess sr'"
proof -
  have ok1: "server_ok live F 0 [] sr1" using server_find_resource_None [OF assms(1)] server_reach_ok [OF assms(3)] by auto
  have c1: "sr_activeRequests sr1 = sr_activeRequests sr" "sr_maxRequests sr1 = sr_maxRequests sr"
    using assms(1) by (auto simp: server_find_resource_def split: option.splits prod.splits)
  note n = request_new_ok [OF ok1 assms(4)]
  define sr3 where "sr3 = sr2\<lparr>sr_activeRequests := sr_activeRequests sr2 + 1\<rparr>"
  have ok3: "server_ok live F (Suc 0) [a] sr3" unfolding sr3_def by (rule server_ok_active(2) [OF n(1)])
  obtain qs sr4 where f2: "server_find_resource msg (Some []) sr3 = (None, qs, sr4)" using assms(5) by (metis fst_conv prod.exhaust sr3_def)
  have rq: "sr_requests sr4 = sr_requests sr3" "a \<notin> set (sr_requests sr3)" 
    using find_resource_same [OF f2] server_ok_distinct(3) [OF ok3] by auto
  define sr6 where "sr6 = nabto_coap_server_make_error_response connection msg CODE_SERVICE_UNAVAILABLE (Some outOfResources)
     (update_request a (\<lambda>r. r\<lparr>sq_parameters := the qs\<rparr>) sr4)"
  have "new = None" "sr' = discard_request a sr6"
    using assms(6,1,2,4) f2 c1 by (auto simp: nabto_coap_server_handle_new_request_def sr3_def sr6_def Let_def)
  moreover have "sr_nullAccess (discard_request a sr6)"
    using rq by (simp add: discard_request_def nabto_coap_server_free_request_def Let_def nabto_coap_server_remove_request_from_list_def sr6_def)
  ultimately show ?thesis by simp
qed

section \<open>Samples\<close>

text \<open>An allocator that has always memory, and a server on it that waits for the chunks of a body.\<close>

definition endless_allocator :: "address list nn_allocator" where
  "endless_allocator = \<lparr>al_calloc = Some (\<lambda>blocks n sz. (Some (Suc (sum_list blocks)), Suc (sum_list blocks) # blocks)),
     al_free = Some (\<lambda>blocks p. case p of None \<Rightarrow> blocks | Some a \<Rightarrow> removeAll a blocks)\<rparr>"

lemma endless_never_fails: "never_fails endless_allocator"
  by (simp add: never_fails_def endless_allocator_def nn_allocator_calloc_def)

definition sample_receiving :: "address list server_requests" where
  "sample_receiving = \<lparr>sr_server = \<lparr>sv_allocator = endless_allocator, sv_root = Some (Router_node 3 [] None
       ((\<lambda>_. zero_resource)(POST_HANDLER := \<lparr>re_handler = Some 70, re_handlerUserData = None\<rparr>))), sv_ackTimeout = NABTO_COAP_ACK_TIMEOUT\<rparr>,
     sr_requestsSentinel = Some 2, sr_requests = [8],
     sr_request = (\<lambda>_. zero_server_request)(8 := zero_server_request\<lparr>sq_connection := Some 9, sq_method := NABTO_COAP_CODE_POST,
       sq_resource := Some (3, POST_HANDLER)\<rparr>),
     sr_getStamp = (\<lambda>m. 7), sr_notifyEvent = (\<lambda>m. m), sr_messageId = 1, sr_errorConnection = None,
     sr_errorType = CON, sr_errorCode = 0, sr_errorToken = [], sr_errorMessageId = 0, sr_errorPayload = None,
     sr_ackMessageId = 0, sr_ackConnection = None, sr_rstMessageId = 0, sr_rstConnection = None,
     sr_maxRequests = 10, sr_activeRequests = 1, sr_maxRequestPayload = 1000,
     sr_maxObservers = 10, sr_activeObservers = 0, sr_observersSentinel = Some 4, sr_observers = [],
     sr_observer = (\<lambda>a. zero_server_observer), sr_memory = [8, 4, 3, 2], sr_nullAccess = False\<rparr>"

definition sample_chunk :: "u32 \<Rightarrow> bytes \<Rightarrow> coap_incoming_message" where
  "sample_chunk block1 bs = empty_message\<lparr>im_code := NABTO_COAP_CODE_POST, im_hasBlock1 := True, im_block1 := block1, im_payload := Some bs\<rparr>"

definition sample_chunks :: "coap_incoming_message list" where
  "sample_chunks = [sample_chunk 0x08 (replicate 16 5), sample_chunk 0x10 [6]]"

lemma block_1: "NABTO_COAP_BLOCK_SIZE 8 = 0" "NABTO_COAP_BLOCK_MORE 8" "NABTO_COAP_BLOCK_OFFSET 8 = 0" "NABTO_COAP_BLOCK_SIZE_ABSOLUTE 8 = 16"
  "NABTO_COAP_BLOCK_SIZE 16 = 0" "\<not> NABTO_COAP_BLOCK_MORE 16" "NABTO_COAP_BLOCK_OFFSET 16 = 16"
  by (simp_all add: NABTO_COAP_BLOCK_SIZE_def NABTO_COAP_BLOCK_MORE_def NABTO_COAP_BLOCK_OFFSET_def NABTO_COAP_BLOCK_NUM_def
      NABTO_COAP_BLOCK_SIZE_ABSOLUTE_def nabto_coap_block_offset_def nabto_coap_block_size_from_szx_def)

lemma sample_chunks_ok: "chunks_of_body 0 sample_chunks" "concat (map im_data sample_chunks) = replicate 16 5 @ [6]"
  by (auto simp: chunks_of_body_def sample_chunks_def sample_chunk_def im_data_def empty_message_def block_1 less_Suc_eq Let_def)

lemma sample_receiving_facts:
  "sv_allocator (sr_server sample_receiving) = endless_allocator" "sq_payload (sr_request sample_receiving 8) = None"
  "sq_state (sr_request sample_receiving 8) = STATE_REQUEST" "\<not> sq_hasContentFormat (sr_request sample_receiving 8)"
  "sr_maxRequestPayload sample_receiving = 1000" "sq_resource (sr_request sample_receiving 8) = Some (3, POST_HANDLER)"
  "server_resource_at sample_receiving (3, POST_HANDLER) = \<lparr>re_handler = Some 70, re_handlerUserData = None\<rparr>"
  by (simp_all add: sample_receiving_def zero_server_request_def server_resource_at_def resource_at_def)

theorem block1_body_delivered_witness:
  "\<exists>sr'. upload 8 sample_chunks sample_receiving = (Some (70, 8, None), sr') \<and> body_at 8 sr' = replicate 16 5 @ [6]"
  using block1_body_delivered [OF sample_chunks_ok(1), of sample_receiving 8 "(3, POST_HANDLER)" 70]
  by (simp add: sample_receiving_facts endless_never_fails sample_chunks_ok(2)) blast

theorem block1_upload_exact_witness:
  "\<exists>sr' n. upload 8 sample_chunks sample_receiving = (Some (70, 8, None), sr') \<and>
     body_at 8 sr' = concat (map im_data (take (Suc n) sample_chunks)) \<and> n = 1"
proof -
  obtain sr' where u: "upload 8 sample_chunks sample_receiving = (Some (70, 8, None), sr')" "sq_state (sr_request sr' 8) = STATE_USER"
    using upload_chunks [of 0 "[]" sample_chunks sample_receiving 8 "(3, POST_HANDLER)" 70] sample_chunks_ok
    by (auto simp: sample_receiving_facts endless_never_fails chunks_of_body_def)
  have "\<forall>msg\<in>set sample_chunks. im_hasBlock1 msg" by (simp add: sample_chunks_def sample_chunk_def)
  from block1_upload_exact [OF u(1) sample_receiving_facts(3) u(2) this]
  obtain n where n: "n < length sample_chunks" "body_at 8 sr' = body_at 8 sample_receiving @ concat (map im_data (take (Suc n) sample_chunks))"
    "\<forall>i\<le>n. NABTO_COAP_BLOCK_OFFSET (im_block1 (sample_chunks ! i)) =
        length (body_at 8 sample_receiving) + length (concat (map im_data (take i sample_chunks))) \<and>
      (NABTO_COAP_BLOCK_MORE (im_block1 (sample_chunks ! i)) \<longleftrightarrow> i < n)"
    by blast
  from n(3) have "NABTO_COAP_BLOCK_MORE (im_block1 (sample_chunks ! 0)) \<longleftrightarrow> 0 < n" by blast
  then have "0 < n" by (simp add: sample_chunks_def sample_chunk_def block_1)
  moreover have "n < 2" using n(1) by (simp add: sample_chunks_def)
  ultimately have "n = 1" by simp
  moreover have "body_at 8 sample_receiving = []" by (simp add: sample_receiving_facts)
  ultimately show ?thesis using u(1) n(2) by auto
qed

text \<open>The resource is removed before the only chunk of a body arrives.\<close>

theorem removed_resource_follows_null_witness:
  "\<exists>sr'. nabto_coap_server_handle_data_for_request 8 (sample_chunk 0 [6])
       (sample_receiving\<lparr>sr_server := nabto_coap_server_remove_resource (3, POST_HANDLER) (sr_server sample_receiving)\<rparr>) = (None, sr') \<and>
     sr_nullAccess sr'"
proof -
  let ?sr = "sample_receiving\<lparr>sr_server := nabto_coap_server_remove_resource (3, POST_HANDLER) (sr_server sample_receiving)\<rparr>"
  have b: "NABTO_COAP_BLOCK_SIZE 0 = 0" "\<not> NABTO_COAP_BLOCK_MORE 0" "NABTO_COAP_BLOCK_OFFSET 0 = 0"
    by (simp_all add: NABTO_COAP_BLOCK_SIZE_def NABTO_COAP_BLOCK_MORE_def NABTO_COAP_BLOCK_OFFSET_def NABTO_COAP_BLOCK_NUM_def
      nabto_coap_block_offset_def)
  have "chunk_fits 8 (sample_chunk 0 [6]) ?sr" "never_fails (sv_allocator (sr_server ?sr))"
    using endless_never_fails
    by (simp_all add: chunk_fits_def sample_chunk_def b im_data_def empty_message_def sample_receiving_facts
        nabto_coap_server_remove_resource_def)
  then obtain sr3 where c: "nabto_coap_server_handle_data_for_request 8 (sample_chunk 0 [6]) ?sr = call_handler 8 sr3"
    using b by (elim chunk_accepted) (auto simp: sample_chunk_def)
  obtain call sr' where h: "call_handler 8 sr3 = (call, sr')" by fastforce
  then have "sq_state (sr_request sr' 8) = STATE_USER" by (auto simp: call_handler_def Let_def split: option.splits)
  from removed_resource_follows_null [OF refl sample_receiving_facts(6,3) c [unfolded h] this]
  show ?thesis using c h by auto
qed

text \<open>A server with the resource of path {x} whose allocator has a last block, for a request without its parameter.\<close>

definition narrow_server :: "counting coap_server" where
  "narrow_server = \<lparr>sv_allocator = counting_allocator, sv_root = Some (Router_node 1 [] (Some ((8, [0x78]),
     Router_node 16 [] None ((\<lambda>_. zero_resource)(GET_HANDLER := \<lparr>re_handler = Some 70, re_handlerUserData = None\<rparr>)))) (\<lambda>_. zero_resource)),
     sv_ackTimeout = NABTO_COAP_ACK_TIMEOUT\<rparr>"

definition narrow_init :: "counting server_requests" where
  "narrow_init = snd (nabto_coap_server_requests_init (fst (snd (nabto_coap_server_init counting_allocator (6, []))))
     (\<lambda>m. 7) (\<lambda>m. m) (5, [1]) 100000)"

definition narrow :: "counting server_requests" where
  "narrow = narrow_init\<lparr>sr_server := narrow_server, sr_memory := (1, [16, 8, 4, 2, 1])\<rparr>"

lemma narrow_fields: "sr_activeRequests narrow < sr_maxRequests narrow" "sr_server narrow = narrow_server" "sr_memory narrow = (1, [16, 8, 4, 2, 1])"
  by (simp_all add: narrow_def narrow_init_def nabto_coap_server_init_def nabto_coap_router_node_new_def nabto_coap_server_requests_init_def
      Let_def server_calloc_def)

lemma narrow_reach: "server_reach counting_live {} narrow"
proof -
  have i: "nabto_coap_server_init counting_allocator (6, []) = (COAP_OK, fst (snd (nabto_coap_server_init counting_allocator (6, []))), (5, [1]))"
    "nabto_coap_server_requests_init (fst (snd (nabto_coap_server_init counting_allocator (6, [])))) (\<lambda>m. 7) (\<lambda>m. m) (5, [1]) 100000 =
      (COAP_OK, narrow_init)"
    by (simp_all add: narrow_init_def nabto_coap_server_init_def nabto_coap_router_node_new_def nabto_coap_server_requests_init_def
      Let_def server_calloc_def)
  have "server_reach counting_live {} narrow_init"
    by (rule server_reach.init [OF counting_allocator_ok _ _ i]) (simp_all add: counting_live_def)
  moreover have "nabto_coap_server_add_resource NABTO_COAP_CODE_GET [[0x7B, 0x78, 0x7D]] (Some 70) None (sr_server narrow_init) (sr_memory narrow_init) =
      Some (COAP_OK, Some (16, GET_HANDLER), narrow_server, (1, [16, 8, 4, 2, 1]))"
    by (simp add: narrow_init_def nabto_coap_server_init_def nabto_coap_router_node_new_def nabto_coap_server_requests_init_def
      Let_def server_calloc_def nabto_coap_server_add_resource_def parameter_child_def nabto_coap_server_parameter_name_length_def
      narrow_server_def set_handler_def set_parameter_def)
  ultimately show ?thesis unfolding narrow_def by (blast intro: server_reach.step server_step.add)
qed

definition narrow_get :: coap_incoming_message where
  "narrow_get = empty_message\<lparr>im_code := NABTO_COAP_CODE_GET, im_options := Some [0xB1, 0x37]\<rparr>"

lemma narrow_find:
  "server_find_resource narrow_get None narrow = (Some (16, GET_HANDLER), None, narrow)"
  "sr_server s = narrow_server \<Longrightarrow> sr_memory s = (0, bs) \<Longrightarrow> fst (server_find_resource narrow_get (Some []) s) = None"
  by (simp_all add: server_find_resource_def narrow_fields narrow_server_def nabto_coap_server_find_resource_def narrow_get_def
      nabto_coap_option_iterator_init_def find_resource_loop.simps nabto_coap_get_option.simps nabto_coap_get_next_option_def
      decode_option_field_def nabto_coap_server_find_path_segment_def node_resource_def)

lemma narrow_new: "\<exists>s. nabto_coap_server_request_new narrow = (Some 32, s) \<and> sr_server s = narrow_server \<and> sr_memory s = (0, [32, 16, 8, 4, 2, 1])"
  by (simp add: nabto_coap_server_request_new_def server_calloc_def narrow_fields narrow_server_def next_message_id_eq update_request_def)

theorem parameter_failure_follows_null_witness:
  "server_reach counting_live {} narrow \<and>
    sr_nullAccess (snd (nabto_coap_server_handle_new_request narrow_get (Some 9) narrow))"
proof -
  obtain s where s: "nabto_coap_server_request_new narrow = (Some 32, s)" "sr_server s = narrow_server" "sr_memory s = (0, [32, 16, 8, 4, 2, 1])"
    using narrow_new by blast
  have f: "fst (server_find_resource narrow_get (Some []) (s\<lparr>sr_activeRequests := sr_activeRequests s + 1\<rparr>)) = None"
    by (rule narrow_find(2)) (use s in simp_all)
  show ?thesis
    using parameter_failure_follows_null [OF narrow_find(1) narrow_fields(1) narrow_reach s(1) f prod.collapse [symmetric]] narrow_reach
    by blast
qed

end
