(* ===== verification/Coap_Server_Exchange.thy ===== *)
theory Coap_Server_Exchange
  imports Coap_Server_Handlers Coap_Client_Packets
begin

text \<open>
  What client and server say to each other: the packet of a response is a message with the block that is asked for,
  and the packet of a request of the client makes the server call the handler of its path with its body.
\<close>

section \<open>The fields of an encoded message\<close>

text \<open>What an option does to a message, and the options one after the other.\<close>

definition read_option :: "u16 \<times> bytes \<Rightarrow> coap_incoming_message \<Rightarrow> coap_incoming_message option" where
  "read_option opt msg =
     parse_message_option ((nabto_coap_option_iterator_init None)\<lparr>it_option := fst opt, it_data := snd opt\<rparr>) msg"

fun read_options :: "(u16 \<times> bytes) list \<Rightarrow> coap_incoming_message \<Rightarrow> coap_incoming_message option" where
  "read_options [] msg = Some msg"
| "read_options (opt # opts) msg = Option.bind (read_option opt msg) (read_options opts)"

lemma read_option_eq: "parse_message_option it msg = read_option (it_option it, it_data it) msg"
  by (simp add: read_option_def parse_message_option_def)

lemma read_options_append: "read_options (xs @ ys) msg = Option.bind (read_options xs msg) (read_options ys)"
  by (induction xs arbitrary: msg) (auto split: bind_splits)

lemma parse_message_options_read:
  "parse_message_options it msg = Some (it', msg') \<Longrightarrow> read_options (options_of it) msg = Some msg'"
proof (induction it msg rule: parse_message_options.induct)
  case (1 it msg)
  show ?case
  proof (cases "nabto_coap_get_next_option it")
    case None
    then have "options_of it = []" by (simp add: options_of.simps [of it])
    moreover have "msg' = msg" using None 1(2) by (simp add: parse_message_options.simps [of it])
    ultimately show ?thesis by simp
  next
    case (Some it1)
    then have o: "options_of it = (it_option it1, it_data it1) # options_of it1" by (simp add: options_of.simps [of it])
    obtain msg1 where m: "parse_message_option it1 msg = Some msg1" "parse_message_options it1 msg1 = Some (it', msg')"
      using 1(2) Some by (auto simp: parse_message_options.simps [of it] split: option.splits)
    show ?thesis unfolding o using 1(1) [OF Some m] m(1) by (simp add: read_option_eq)
  qed
qed

definition message_of_header :: "coap_message_header \<Rightarrow> coap_incoming_message" where
  "message_of_header h = empty_message\<lparr>im_type := mh_type h, im_code := mh_code h, im_messageId := mh_messageId h, im_token := mh_token h\<rparr>"

lemma encoded_message_fields:
  assumes "nabto_coap_encode_payload payload
             (encode_options 0 opts (nabto_coap_encode_header h (Some ([], room)))) = Some (packet, left)"
    and "length (mh_token h) \<le> 8" "unat (mh_code h) < 256"
    and "sorted (map (unat \<circ> fst) opts)" and "\<forall>opt\<in>set opts. option_ok opt"
  shows "\<exists>m m'. nabto_coap_parse_message packet = Some m \<and> read_options opts (message_of_header h) = Some m' \<and>
    m = m'\<lparr>im_options := im_options m, im_payload := (if payload = Some [] then None else payload)\<rparr> \<and>
    options_of (nabto_coap_option_iterator_init (im_options m)) = opts"
proof -
  obtain q0 where q0: "nabto_coap_encode_header h (Some ([], room)) = Some q0"
    using assms(1) by (cases "nabto_coap_encode_header h (Some ([], room))")
       (auto simp: nabto_coap_encode_payload_def split: option.splits if_splits)
  then obtain w0 where w0: "q0 = (w0, room - length w0)" "length w0 \<le> room"
    using encode_header_Some by fastforce
  obtain w1 r1 where w1: "encode_options 0 opts (Some (w0, room - length w0)) = Some (w1, r1)"
    using assms(1) q0 w0(1) by (cases "encode_options 0 opts (Some q0)")
       (auto simp: nabto_coap_encode_payload_def split: option.splits if_splits)
  define pl where "pl = (case payload of None \<Rightarrow> [] | Some bs \<Rightarrow> if bs = [] then [] else 0xFF # bs)"
  have pk: "packet = w1 @ pl"
    using assms(1) q0 w1 w0(1) by (auto simp: nabto_coap_encode_payload_def pl_def split: option.splits if_splits)
  have e: "options_end pl" by (auto simp: options_end_def pl_def split: option.splits)
  obtain enc where enc: "w1 = w0 @ enc" "opts \<noteq> [] \<longrightarrow> enc \<noteq> []"
    "\<And>it (msg::coap_incoming_message). it_buffer it = Some (enc @ pl) \<Longrightarrow> it_option it = 0 \<Longrightarrow> options_of it = opts"
    using parse_encoded_options [OF w1 _ assms(5) e] assms(4) by fastforce
  note parse = encode_header_parse [OF q0 [unfolded w0(1)] assms(2,3), of "enc @ pl", folded message_of_header_def]
  obtain m where m: "nabto_coap_parse_message packet = Some m" "options_of (nabto_coap_option_iterator_init (im_options m)) = opts"
    "im_payload m = (if payload = Some [] then None else payload)"
    using encoded_message_parses [OF assms] by blast
  have tail: "parse_message_tail (enc @ pl) (message_of_header h) = Some m" using parse m(1) pk enc(1) by simp
  have z: "im_payload (message_of_header h) = None" by (simp add: message_of_header_def empty_message_def)
  show ?thesis
  proof (cases "enc @ pl = []")
    case True
    then have "opts = []" using enc(2) by auto
    moreover have "m = message_of_header h" using tail True by (simp add: parse_message_tail_def)
    ultimately show ?thesis using m z by (intro exI [of _ m] exI [of _ "message_of_header h"]) simp
  next
    case False
    let ?it = "nabto_coap_option_iterator_init (Some (enc @ pl))"
    obtain it' m' where r: "parse_message_options ?it (message_of_header h) = Some (it', m')"
      "m = m'\<lparr>im_options := im_options m, im_payload := im_payload m\<rparr>"
    proof -
      obtain it' m' where r: "parse_message_options ?it (message_of_header h) = Some (it', m')"
        using tail False by (auto simp: parse_message_tail_def split: option.splits if_splits)
      have p: "im_payload m' = None"
        using parse_message_options_suffix [OF r] z by (auto simp: same_frame_def nabto_coap_option_iterator_init_def)
      have "m = m'\<lparr>im_options := im_options m, im_payload := im_payload m\<rparr>"
        using tail False r p by (auto simp: parse_message_tail_def Let_def split: list.splits if_splits)
      with r show thesis by (rule that)
    qed
    have "options_of ?it = opts" by (rule enc(3)) (simp_all add: nabto_coap_option_iterator_init_def)
    then show ?thesis using parse_message_options_read [OF r(1)] r(2) m by (intro exI [of _ m] exI [of _ m']) simp
  qed
qed


text \<open>The values of options come back.\<close>

lemma parse_varint_bytes:
  assumes "unat v < 256 ^ unat k"
  shows "nabto_coap_parse_variable_int (varint_bytes v) k = Some v"
proof -
  obtain bs n where e: "nabto_coap_encode_variable_int [0, 0, 0, 0] 4 v = Some (bs, n)" "varint_bytes v = take n bs"
  proof -
    have "nabto_coap_encode_variable_int [0, 0, 0, 0] 4 v \<noteq> None"
      using digits256_u32 [of v] encode_variable_int_length [of v, THEN conjunct2]
      by (simp add: nabto_coap_encode_variable_int_def Let_def word_less_nat_alt not_less)
    then show thesis using that by (auto simp: varint_bytes_def)
  qed
  have "nabto_coap_parse_variable_int (varint_bytes v) 4 = Some v"
    using variable_int_roundtrip [OF _ _ e(1)] e(2) by simp
  moreover have "length (varint_bytes v) \<le> unat k" unfolding encode_varint_bytes(2) by (rule digits256_le) (use assms in simp)
  ultimately show ?thesis using assms by (auto simp: nabto_coap_parse_variable_int_def split: if_splits)
qed


lemma read_varint:
  "unat v < 2 ^ 24 \<Longrightarrow> read_option (OPTION_OBSERVE, varint_bytes v) m = Some (m\<lparr>im_hasObserve := True, im_observe := v\<rparr>)"
  "unat v < 2 ^ 24 \<Longrightarrow> \<not> im_hasBlock1 m \<Longrightarrow>
     read_option (OPTION_BLOCK1, varint_bytes v) m = Some (m\<lparr>im_hasBlock1 := True, im_block1 := v\<rparr>)"
  "unat v < 2 ^ 24 \<Longrightarrow> \<not> im_hasBlock2 m \<Longrightarrow>
     read_option (OPTION_BLOCK2, varint_bytes v) m = Some (m\<lparr>im_hasBlock2 := True, im_block2 := v\<rparr>)"
  using parse_varint_bytes [of v 3] by (simp_all add: read_option_def parse_message_option_def)

lemma read_format:
  "read_option (OPTION_CONTENT_FORMAT, varint_bytes (ucast (f :: u16))) m =
     Some (m\<lparr>im_hasContentFormat := True, im_contentFormat := f\<rparr>)"
proof -
  have "nabto_coap_parse_variable_int (varint_bytes (ucast f)) 2 = Some (ucast f)"
    using unat_u16_less [of f] by (intro parse_varint_bytes) (simp del: unat_u16_less)
  moreover have "ucast (ucast f :: u32) = f" by (rule bit_word_eqI) (auto simp: bit_simps)
  ultimately show ?thesis by (simp add: read_option_def parse_message_option_def)
qed

lemma read_path: "read_options (map (Pair OPTION_URI_PATH) segs) m = Some m"
  by (induction segs) (simp_all add: read_option_def parse_message_option_def)

lemma read_options_if: "read_options (if P then [opt] else []) m = (if P then read_option opt m else Some m)"
  by (simp split: bind_splits)

text \<open>The options of a request with its body in one message.\<close>

lemma read_request_options:
  assumes "unat (rq_block2 r) < 2 ^ 24" "\<not> (sends_body r \<and> nabto_coap_block_size_from_szx (rq_block1Size r) < rq_payloadLength r)"
  shows "\<exists>m. read_options (request_options r) (message_of_header h) = Some m \<and> same_frame (message_of_header h) m \<and>
    \<not> im_hasBlock1 m \<and> \<not> im_hasRepeatedBlockOption m \<and> im_hasBlock2 m = rq_hasBlock2 r \<and>
    (rq_hasBlock2 r \<longrightarrow> im_block2 m = rq_block2 r)"
proof -
  have b1: "(if sends_body r \<and> nabto_coap_block_size_from_szx (rq_block1Size r) < rq_payloadLength r
      then [(OPTION_BLOCK1, varint_bytes (request_block1 r))] else []) = []"
    using assms(2) by auto
  have z: "\<not> im_hasBlock1 (message_of_header h)" "\<not> im_hasBlock2 (message_of_header h)" "\<not> im_hasRepeatedBlockOption (message_of_header h)"
    by (simp_all add: message_of_header_def empty_message_def)
  show ?thesis
    unfolding request_options_def b1 using assms(1) z
    by (simp add: read_options_append read_path read_options_if read_format read_varint same_frame_def)
qed


section \<open>The packet of a response\<close>

text \<open>The options of a response, and its block.\<close>

definition response_more :: "server_response \<Rightarrow> bool" where
  "response_more p \<longleftrightarrow> (unat (sp_block2Current p) + 1) * nabto_coap_block_size_from_szx (sp_block2Size p) < sp_payloadLength p"

definition response_block2 :: "server_response \<Rightarrow> u32" where
  "response_block2 p = push_bit 4 (sp_block2Current p) + push_bit 3 (if response_more p then 1 else 0) + sp_block2Size p"

definition response_block :: "server_response \<Rightarrow> bytes" where
  "response_block p = take (nabto_coap_block_size_from_szx (sp_block2Size p))
     (drop (unat (sp_block2Current p) * nabto_coap_block_size_from_szx (sp_block2Size p)) (owned_data (sp_payload p)))"

definition response_options :: "server_request \<Rightarrow> u32 option \<Rightarrow> (u16 \<times> bytes) list" where
  "response_options r observe =
     (let p = sq_response r
      in (case observe of None \<Rightarrow> [] | Some v \<Rightarrow> [(OPTION_OBSERVE, varint_bytes v)]) @
         (if sp_hasContentFormat p then [(OPTION_CONTENT_FORMAT, varint_bytes (ucast (sp_contentFormat p)))] else []) @
         (if nabto_coap_block_size_from_szx (sp_block2Size p) < sp_payloadLength p
          then [(OPTION_BLOCK2, varint_bytes (response_block2 p))] else []) @
         (if sq_hasBlock1 r \<and> sp_block2Current p = 0 then [(OPTION_BLOCK1, varint_bytes (sq_block1Ack r))] else []))"

lemma response_packet_options:
  assumes "unat (sp_block2Size (sq_response r)) \<le> 7"
  shows "response_packet r observe room =
     nabto_coap_encode_payload (Some (response_block (sq_response r)))
       (encode_options 0 (response_options r observe)
         (nabto_coap_encode_header \<lparr>mh_type = sq_type r, mh_code = sp_code (sq_response r),
            mh_messageId = sp_messageId (sq_response r), mh_token = sq_token r\<rparr> (Some ([], room))))"
proof -
  let ?p = "sq_response r"
  let ?bs = "nabto_coap_block_size_from_szx (sp_block2Size ?p)"
  let ?off = "unat (sp_block2Current ?p) * ?bs"
  have bs: "0 < ?bs" using assms by (simp add: block_size_value)
  have zero: "?off = 0 \<longleftrightarrow> sp_block2Current ?p = 0" using bs by (simp add: unat_eq_zero)
  have rest: "(if (if ?off < sp_payloadLength ?p then sp_payloadLength ?p - ?off else 0) \<le> ?bs then 0 else 1) = (if response_more ?p then 1 else 0 :: u32)"
    by (auto simp: response_more_def algebra_simps)
  have block: "(if ?off < sp_payloadLength ?p then Some (take (if ?bs < (if ?off < sp_payloadLength ?p then sp_payloadLength ?p - ?off else 0)
        then ?bs else (if ?off < sp_payloadLength ?p then sp_payloadLength ?p - ?off else 0)) (drop ?off (owned_data (sp_payload ?p)))) else None) =
      (if ?off < sp_payloadLength ?p then Some (response_block ?p) else None)"
    by (auto simp: response_block_def owned_length_data)
  have pay: "nabto_coap_encode_payload (if ?off < sp_payloadLength ?p then Some (response_block ?p) else None) q =
      nabto_coap_encode_payload (Some (response_block ?p)) q" for q
    by (auto simp: nabto_coap_encode_payload_def response_block_def owned_length_data)
  show ?thesis
    unfolding response_packet_def Let_def rest zero block pay encode_varint_bytes(1) response_options_def encode_options_append
    by (auto simp: response_block2_def last_option_def split: option.split)
qed


text \<open>The parts of a Block option.\<close>

lemma block_parts:
  fixes n s :: u32 and m :: bool
  assumes "unat n < 2 ^ 20" "unat s \<le> 7"
  defines "v \<equiv> push_bit 4 n + push_bit 3 (if m then 1 else 0) + s"
  shows "unat v < 2 ^ 24" "NABTO_COAP_BLOCK_NUM v = n" "NABTO_COAP_BLOCK_SIZE v = s" "NABTO_COAP_BLOCK_MORE v = m"
proof -
  let ?k = "16 * unat n + (if m then 8 else 0) + unat s"
  have "v = of_nat ?k" by (simp add: v_def push_bit_eq_mult)
  moreover have k: "?k < 2 ^ 24" using assms(1,2) by auto
  moreover have "unat (of_nat j :: u32) = j" if "j < 2 ^ 24" for j using that by (simp add: unat_of_nat)
  ultimately have u: "unat v = ?k" by metis
  show "unat v < 2 ^ 24" using u k by simp
  have "unat (drop_bit 4 v) = ?k div 16" unfolding unat_drop_bit_eq u by (simp add: drop_bit_eq_div)
  also have "\<dots> = unat n" using assms(2) by auto
  finally show "NABTO_COAP_BLOCK_NUM v = n" by (simp add: NABTO_COAP_BLOCK_NUM_def u32_eq_iff)
  have "(16 * j + k + i) mod 8 = i" if "i \<le> 7" "k = 0 \<or> k = 8" for i j k :: nat
  proof -
    have "(16 * j + k + i) mod 8 = (8 * (2 * j) + (k + i)) mod 8" by (simp add: add.assoc)
    also have "\<dots> = (k + i) mod 8" by (rule mod_mult_self4)
    finally show ?thesis using that by auto
  qed
  then have "unat (v AND 7) = unat s" unfolding and_7 u using assms(2) by auto
  then show "NABTO_COAP_BLOCK_SIZE v = s" by (simp add: NABTO_COAP_BLOCK_SIZE_def u32_eq_iff)
  have "v AND 15 = take_bit 4 v" by (simp add: take_bit_eq_mask mask_eq_exp_minus_1)
  then have "unat (v AND 15) = ?k mod 16" using u by (simp add: take_bit_eq_mod unat_mod)
  also have "\<dots> = (if m then 8 else 0) + unat s"
  proof -
    have "(16 * j + k + i) mod 16 = (k + i) mod 16" for i j k :: nat by (simp add: add.assoc)
    then show ?thesis using assms(2) by simp
  qed
  finally have a: "unat (v AND 15) = (if m then 8 else 0) + unat s" .
  have "unat (drop_bit 3 (v AND 15)) = (if m then 1 else 0)"
    unfolding unat_drop_bit_eq a using assms(2) by (auto simp: drop_bit_eq_div)
  then show "NABTO_COAP_BLOCK_MORE v = m"
    by (auto simp: NABTO_COAP_BLOCK_MORE_def u32_eq_iff split: if_splits)
qed


lemma response_options_ok:
  assumes "unat (sp_block2Size (sq_response r)) \<le> 6" "unat (sp_block2Current (sq_response r)) < 2 ^ 20" "unat (sq_block1Ack r) < 2 ^ 24"
    "\<forall>v. observe = Some v \<longrightarrow> unat v < 2 ^ 24"
  shows "sorted (map (unat \<circ> fst) (response_options r observe))" "\<forall>opt \<in> set (response_options r observe). option_ok opt"
proof -
  have "unat (response_block2 (sq_response r)) < 2 ^ 24"
    unfolding response_block2_def by (rule block_parts(1)) (use assms in simp_all)
  then have l: "length (varint_bytes (response_block2 (sq_response r))) \<le> 3" "length (varint_bytes (sq_block1Ack r)) \<le> 3"
    "\<forall>v. observe = Some v \<longrightarrow> length (varint_bytes v) \<le> 3"
    unfolding encode_varint_bytes(2) using digits_24 assms by auto
  show "sorted (map (unat \<circ> fst) (response_options r observe))"
    by (auto simp: response_options_def Let_def split: option.splits)
  show "\<forall>opt \<in> set (response_options r observe). option_ok opt"
    using l varint_16 by (auto simp: response_options_def Let_def option_ok_def split: option.splits)
qed

lemma read_response_options:
  assumes "unat (sp_block2Size (sq_response r)) \<le> 6" "unat (sp_block2Current (sq_response r)) < 2 ^ 20" "unat (sq_block1Ack r) < 2 ^ 24"
    "\<forall>v. observe = Some v \<longrightarrow> unat v < 2 ^ 24"
  shows "\<exists>m. read_options (response_options r observe) (message_of_header h) = Some m \<and> same_frame (message_of_header h) m \<and>
    im_hasObserve m = (observe \<noteq> None) \<and> (\<forall>v. observe = Some v \<longrightarrow> im_observe m = v) \<and>
    im_hasContentFormat m = sp_hasContentFormat (sq_response r) \<and>
    (sp_hasContentFormat (sq_response r) \<longrightarrow> im_contentFormat m = sp_contentFormat (sq_response r)) \<and>
    im_hasBlock2 m = (nabto_coap_block_size_from_szx (sp_block2Size (sq_response r)) < sp_payloadLength (sq_response r)) \<and>
    (im_hasBlock2 m \<longrightarrow> im_block2 m = response_block2 (sq_response r)) \<and>
    im_hasBlock1 m = (sq_hasBlock1 r \<and> sp_block2Current (sq_response r) = 0) \<and> (im_hasBlock1 m \<longrightarrow> im_block1 m = sq_block1Ack r)"
proof -
  have "unat (response_block2 (sq_response r)) < 2 ^ 24"
    unfolding response_block2_def by (rule block_parts(1)) (use assms in simp_all)
  moreover have "\<not> im_hasBlock1 (message_of_header h)" "\<not> im_hasBlock2 (message_of_header h)" "\<not> im_hasObserve (message_of_header h)"
    "\<not> im_hasContentFormat (message_of_header h)"
    by (simp_all add: message_of_header_def empty_message_def)
  ultimately show ?thesis
    using assms by (cases observe)
      (simp_all add: response_options_def Let_def read_options_append read_options_if read_format read_varint same_frame_def)
qed

text \<open>C15: The packet of a response reads back: a client gets the type, the code, the message id, the token, the
  observation and the content format of the response, the block of the payload that is asked for, and a Block2
  option with its number and size, exactly when the payload does not fit into one block; the option says that more
  follows exactly when this is not the end of the payload.\<close>

theorem response_packet_parses:
  assumes "response_packet r observe room = Some (packet, left)" "length (sq_token r) \<le> 8" "unat (sp_code (sq_response r)) < 256"
    "unat (sp_block2Size (sq_response r)) \<le> 6" "unat (sp_block2Current (sq_response r)) < 2 ^ 20" "unat (sq_block1Ack r) < 2 ^ 24"
    "\<forall>v. observe = Some v \<longrightarrow> unat v < 2 ^ 24"
  shows "\<exists>m. nabto_coap_parse_message packet = Some m \<and>
    im_type m = sq_type r \<and> im_code m = sp_code (sq_response r) \<and> im_messageId m = sp_messageId (sq_response r) \<and>
    im_token m = sq_token r \<and> im_hasObserve m = (observe \<noteq> None) \<and> (\<forall>v. observe = Some v \<longrightarrow> im_observe m = v) \<and>
    im_hasContentFormat m = sp_hasContentFormat (sq_response r) \<and>
    (sp_hasContentFormat (sq_response r) \<longrightarrow> im_contentFormat m = sp_contentFormat (sq_response r)) \<and>
    im_data m = response_block (sq_response r) \<and>
    im_hasBlock2 m = (nabto_coap_block_size_from_szx (sp_block2Size (sq_response r)) < sp_payloadLength (sq_response r)) \<and>
    (im_hasBlock2 m \<longrightarrow> NABTO_COAP_BLOCK_NUM (im_block2 m) = sp_block2Current (sq_response r) \<and>
       NABTO_COAP_BLOCK_SIZE (im_block2 m) = sp_block2Size (sq_response r) \<and>
       NABTO_COAP_BLOCK_MORE (im_block2 m) = response_more (sq_response r))"
proof -
  let ?h = "\<lparr>mh_type = sq_type r, mh_code = sp_code (sq_response r), mh_messageId = sp_messageId (sq_response r), mh_token = sq_token r\<rparr>"
  note o = response_options_ok [OF assms(4-7)]
  have "unat (sp_block2Size (sq_response r)) \<le> 7" using assms(4) by simp
  from encoded_message_fields [OF assms(1) [unfolded response_packet_options [OF this]], simplified, OF assms(2,3) _ o(2)] o(1)
  obtain m m' where m: "nabto_coap_parse_message packet = Some m" "read_options (response_options r observe) (message_of_header ?h) = Some m'"
    "m = m'\<lparr>im_options := im_options m, im_payload := (if response_block (sq_response r) = [] then None else Some (response_block (sq_response r)))\<rparr>"
    by (auto simp: comp_def)
  from read_response_options [OF assms(4-7), of ?h] m(2) have f: "same_frame (message_of_header ?h) m'"
    "im_hasObserve m' = (observe \<noteq> None)" "\<forall>v. observe = Some v \<longrightarrow> im_observe m' = v"
    "im_hasContentFormat m' = sp_hasContentFormat (sq_response r)"
    "sp_hasContentFormat (sq_response r) \<longrightarrow> im_contentFormat m' = sp_contentFormat (sq_response r)"
    "im_hasBlock2 m' = (nabto_coap_block_size_from_szx (sp_block2Size (sq_response r)) < sp_payloadLength (sq_response r))"
    "im_hasBlock2 m' \<longrightarrow> im_block2 m' = response_block2 (sq_response r)"
    by auto
  have b: "NABTO_COAP_BLOCK_NUM (response_block2 (sq_response r)) = sp_block2Current (sq_response r)"
    "NABTO_COAP_BLOCK_SIZE (response_block2 (sq_response r)) = sp_block2Size (sq_response r)"
    "NABTO_COAP_BLOCK_MORE (response_block2 (sq_response r)) = response_more (sq_response r)"
    using assms(4,5) unfolding response_block2_def by (simp_all add: block_parts)
  have g: "im_type m = im_type m'" "im_code m = im_code m'" "im_messageId m = im_messageId m'" "im_token m = im_token m'"
    "im_hasObserve m = im_hasObserve m'" "im_observe m = im_observe m'" "im_hasContentFormat m = im_hasContentFormat m'"
    "im_contentFormat m = im_contentFormat m'" "im_hasBlock2 m = im_hasBlock2 m'" "im_block2 m = im_block2 m'"
    "im_data m = response_block (sq_response r)"
    by (subst m(3); simp add: im_data_def)+
  show ?thesis using m(1) f b by (intro exI [of _ m]) (simp add: g same_frame_def message_of_header_def)
qed


section \<open>The packet of a notification\<close>

definition notification_options :: "server_observer \<Rightarrow> (u16 \<times> bytes) list" where
  "notification_options ob = (OPTION_OBSERVE, varint_bytes (ob_sequenceNumber ob)) #
     (if ob_hasContentFormat ob then [(OPTION_CONTENT_FORMAT, varint_bytes (ucast (ob_contentFormat ob)))] else [])"

definition notification_header :: "server_observer \<Rightarrow> coap_message_header" where
  "notification_header ob = \<lparr>mh_type = ob_notificationType ob, mh_code = ob_code ob, mh_messageId = ob_messageId ob, mh_token = ob_token ob\<rparr>"

lemma notification_packet_options:
  "notification_packet ob room = nabto_coap_encode_payload (map_option snd (ob_payload ob))
     (encode_options 0 (notification_options ob) (nabto_coap_encode_header (notification_header ob) (Some ([], room))))"
  by (simp add: notification_packet_def notification_options_def notification_header_def Let_def encode_varint_bytes(1))

lemma long_first_option:
  assumes "nabto_coap_encode_payload payload (encode_options 0 ((OPTION_OBSERVE, data) # opts)
      (nabto_coap_encode_header h (Some ([], room)))) = Some (packet, left)" "3 < length data"
    "length (mh_token h) \<le> 8" "unat (mh_code h) < 256" "length data \<le> 4"
  shows "nabto_coap_parse_message packet = None"
proof -
  obtain q0 where q0: "nabto_coap_encode_header h (Some ([], room)) = Some q0"
    using assms(1) by (cases "nabto_coap_encode_header h (Some ([], room))")
       (auto simp: nabto_coap_encode_payload_def split: option.splits if_splits)
  then obtain w0 where w0: "q0 = (w0, room - length w0)" using encode_header_Some by fastforce
  obtain q1 where q1: "nabto_coap_encode_option OPTION_OBSERVE data (Some (w0, room - length w0)) = Some q1"
    using assms(1) q0 w0 by (cases "nabto_coap_encode_option OPTION_OBSERVE data (Some (w0, room - length w0))")
       (auto simp: nabto_coap_encode_payload_def split: option.splits if_splits)
  obtain opt k where opt: "q1 = (w0 @ opt, k)" "option_frame OPTION_OBSERVE data opt" by (rule encode_option_frame [OF q1]) blast
  have more: "\<exists>enc. w' = w @ enc" if "encode_options p os (Some (w, k)) = Some (w', k')" for p os w k w' k'
    using that
  proof (induction os arbitrary: p w k)
    case (Cons x os)
    obtain n d where x: "x = (n, d)" by fastforce
    obtain y where y: "nabto_coap_encode_option (n - p) d (Some (w, k)) = Some y"
      using Cons(2) x by (cases "nabto_coap_encode_option (n - p) d (Some (w, k))") auto
    obtain o2 where "y = (w @ o2, k - length o2)" by (rule encode_option_frame [OF y]) blast
    then show ?case using Cons x y by fastforce
  qed simp
  obtain w1 r1 where w1: "encode_options OPTION_OBSERVE opts (Some q1) = Some (w1, r1)"
    using assms(1) q0 w0 q1 by (cases "encode_options OPTION_OBSERVE opts (Some q1)")
       (auto simp: nabto_coap_encode_payload_def split: option.splits if_splits)
  obtain enc where enc: "w1 = (w0 @ opt) @ enc" using more w1 opt(1) by blast
  obtain pl where pl: "packet = w1 @ pl"
    using assms(1) q0 w0 q1 w1 by (auto simp: nabto_coap_encode_payload_def split: option.splits if_splits)
  define rest where "rest = opt @ enc @ pl"
  have "packet = w0 @ rest" by (simp add: pl enc rest_def)
  then have p: "nabto_coap_parse_message packet = parse_message_tail rest (message_of_header h)"
    using encode_header_parse [OF q0 [unfolded w0] assms(3,4), of rest] by (simp add: message_of_header_def)
  have "nabto_coap_get_next_option (nabto_coap_option_iterator_init (Some rest)) =
      Some ((nabto_coap_option_iterator_init (Some rest))\<lparr>it_option := OPTION_OBSERVE, it_data := data, it_buffer := Some (enc @ pl)\<rparr>)"
    using opt(2) by (simp add: option_frame_def rest_def nabto_coap_option_iterator_init_def)
  then have "parse_message_options (nabto_coap_option_iterator_init (Some rest)) m = None" for m
    using assms(2) by (simp add: parse_message_options.simps [of "nabto_coap_option_iterator_init (Some rest)"] parse_message_option_def
        nabto_coap_parse_variable_int_def)
  then show ?thesis using opt(2) by (simp add: p parse_message_tail_def option_frame_def rest_def)
qed

lemma digits256_upper: "n < 256 ^ digits256 n"
proof (induction n rule: digits256.induct)
  case (1 n)
  show ?case
  proof (cases "n = 0")
    case False
    then have "n div 256 < 256 ^ digits256 (n div 256)" by (rule 1)
    then have "n < 256 * 256 ^ digits256 (n div 256)" by (simp add: div_less_iff_less_mult)
    then show ?thesis using False by (subst digits256.simps) simp
  qed (simp add: digits256.simps)
qed

lemma digits256_more: "256 ^ k \<le> n \<Longrightarrow> k < digits256 n"
proof (rule ccontr)
  assume a: "256 ^ k \<le> n" "\<not> k < digits256 n"
  then have "(256 :: nat) ^ digits256 n \<le> 256 ^ k" by (intro power_increasing) simp_all
  then show False using digits256_upper [of n] a(1) by linarith
qed

text \<open>C24: Notifications can be read as long as their sequence number has 24 bits.  The code counts it in 32 bits and
  writes all of them: after 2 to the 24 notifications the Observe option is longer than the three bytes that are
  allowed, and the packet is refused, also by the parser of this library.\<close>

theorem notification_readable:
  assumes "notification_packet ob room = Some (packet, left)" "length (ob_token ob) \<le> 8" "unat (ob_code ob) < 256"
  shows "if unat (ob_sequenceNumber ob) < 2 ^ 24
    then \<exists>m. nabto_coap_parse_message packet = Some m \<and> im_type m = ob_notificationType ob \<and> im_code m = ob_code ob \<and>
      im_messageId m = ob_messageId ob \<and> im_token m = ob_token ob \<and> im_hasObserve m \<and> im_observe m = ob_sequenceNumber ob \<and>
      im_hasContentFormat m = ob_hasContentFormat ob \<and> (ob_hasContentFormat ob \<longrightarrow> im_contentFormat m = ob_contentFormat ob) \<and>
      im_data m = owned_data (ob_payload ob)
    else nabto_coap_parse_message packet = None"
proof (cases "unat (ob_sequenceNumber ob) < 2 ^ 24")
  case True
  let ?opts = "notification_options ob" and ?h = "notification_header ob"
  have l: "length (varint_bytes (ob_sequenceNumber ob)) \<le> 3"
    unfolding encode_varint_bytes(2) using digits_24 True by auto
  have o: "\<forall>opt \<in> set ?opts. option_ok opt" "sorted (map (unat \<circ> fst) ?opts)"
    using l varint_16 by (auto simp: notification_options_def option_ok_def)
  have hd: "mh_token ?h = ob_token ob" "mh_code ?h = ob_code ob" by (simp_all add: notification_header_def)
  obtain m m' where m: "nabto_coap_parse_message packet = Some m" "read_options ?opts (message_of_header ?h) = Some m'"
    "m = m'\<lparr>im_options := im_options m,
       im_payload := (if map_option snd (ob_payload ob) = Some [] then None else map_option snd (ob_payload ob))\<rparr>"
    using encoded_message_fields [OF assms(1) [unfolded notification_packet_options] _ _ o(2,1)] assms(2,3) unfolding hd by blast
  have f: "same_frame (message_of_header ?h) m' \<and> im_hasObserve m' \<and> im_observe m' = ob_sequenceNumber ob \<and>
    im_hasContentFormat m' = ob_hasContentFormat ob \<and> (ob_hasContentFormat ob \<longrightarrow> im_contentFormat m' = ob_contentFormat ob)"
    using m(2) True read_varint(1) [of "ob_sequenceNumber ob"]
    by (auto simp: notification_options_def read_format same_frame_def message_of_header_def empty_message_def split: if_splits)
  have g: "im_type m = im_type m'" "im_code m = im_code m'" "im_messageId m = im_messageId m'" "im_token m = im_token m'"
    "im_hasObserve m = im_hasObserve m'" "im_observe m = im_observe m'" "im_hasContentFormat m = im_hasContentFormat m'"
    "im_contentFormat m = im_contentFormat m'"
    by (subst m(3); simp)+
  have d: "im_data m = owned_data (ob_payload ob)" by (subst m(3)) (auto simp: im_data_def split: option.splits)
  show ?thesis using True m(1) f d by (auto simp: g same_frame_def message_of_header_def notification_header_def)
next
  case False
  have "3 < length (varint_bytes (ob_sequenceNumber ob))" "length (varint_bytes (ob_sequenceNumber ob)) \<le> 4"
    unfolding encode_varint_bytes(2) using False digits256_more [of 3 "unat (ob_sequenceNumber ob)"] digits256_u32 by simp_all
  then show ?thesis using False long_first_option assms unfolding notification_packet_options notification_options_def
    by (auto simp: notification_header_def)
qed


section \<open>From the client to the handler\<close>

lemma critical_options_of: "critical_options_loop (nabto_coap_get_next_option it) \<longleftrightarrow>
   (\<forall>opt\<in>set (options_of it). odd (unat (fst opt)) \<longrightarrow>
      fst opt \<in> {OPTION_URI_PATH, OPTION_BLOCK1, OPTION_BLOCK2, OPTION_URI_HOST, OPTION_URI_PORT})"
proof (induction it rule: options_of.induct)
  case (1 it)
  show ?case
  proof (cases "nabto_coap_get_next_option it")
    case None
    then show ?thesis by (simp add: options_of.simps [of it])
  next
    case (Some it1)
    then show ?thesis using 1 [OF Some] by (simp add: options_of.simps [of it] critical_options_loop.simps(2) [of it1])
  qed
qed

lemma request_options_critical:
  "opt \<in> set (request_options r) \<Longrightarrow> odd (unat (fst opt)) \<Longrightarrow>
     fst opt \<in> {OPTION_URI_PATH, OPTION_BLOCK1, OPTION_BLOCK2, OPTION_URI_HOST, OPTION_URI_PORT}"
  by (auto simp: request_options_def split: if_splits)

lemma request_options_path: "map snd (filter (\<lambda>opt. fst opt = OPTION_URI_PATH) (request_options r)) = rq_pathSegments r"
  by (simp add: request_options_def filter_map comp_def)

lemma find_literal:
  assumes "sv_root (sr_server sr) = Some rootNode" "distinct (router_blocks rootNode)" "method_slot (im_code msg) = Some slot"
    "\<forall>segment\<in>set (uri_path msg). \<not> is_parameter segment" "re_handler (route_table rootNode (uri_path msg) slot) = Some h"
  obtains n where "\<And>ps s. sr_server s = sr_server sr \<Longrightarrow> server_find_resource msg ps s = (Some (rn_address n, slot), ps, s)"
    "server_resource_at sr (rn_address n, slot) = route_table rootNode (uri_path msg) slot"
proof -
  obtain n where n: "route_node rootNode (uri_path msg) = Some n" "re_handler (rn_handlers n slot) \<noteq> None"
    using assms(5) by (auto simp: route_table_def zero_resource_def split: option.splits)
  have "find_resource_loop al rootNode (nabto_coap_option_iterator_init (im_options msg)) ps m = (Some n, ps, m)"
    for al :: "'a nn_allocator" and ps m
    by (rule find_resource_loop_literal [OF n(1) [unfolded uri_path_def]]) (use assms(4) in \<open>auto simp: uri_path_def\<close>)
  then have "server_find_resource msg ps s = (Some (rn_address n, slot), ps, s)" if "sr_server s = sr_server sr" for ps s
    using that assms(1,3) n(2) by (auto simp: server_find_resource_def nabto_coap_server_find_resource_def node_resource_def)
  moreover have "server_resource_at sr (rn_address n, slot) = route_table rootNode (uri_path msg) slot"
    using assms(1) resource_at_route [OF assms(2) n(1)] n(1) by (simp add: server_resource_at_def route_table_def)
  ultimately show thesis by (rule that)
qed

lemma calloc_succeeds: "never_fails (sv_allocator (sr_server sr)) \<Longrightarrow> \<exists>p s. server_calloc n sr = (Some p, s)"
  by (auto simp: server_calloc_def never_fails_def split: prod.splits) (metis fst_conv)


lemma server_free_limit [simp]: "sr_maxRequestPayload (server_free p sr) = sr_maxRequestPayload sr"
  by (simp add: server_free_def)

lemma deregister_fields:
  "sr_server (deregister_observer c tok sr) = sr_server sr"
  "sr_maxRequestPayload (deregister_observer c tok sr) = sr_maxRequestPayload sr"
  "sq_resource (sr_request (deregister_observer c tok sr) a) = sq_resource (sr_request sr a)"
  "sq_state (sr_request (deregister_observer c tok sr) a) = sq_state (sr_request sr a)"
  "sq_payload (sr_request (deregister_observer c tok sr) a) = sq_payload (sr_request sr a)"
  "sq_hasContentFormat (sr_request (deregister_observer c tok sr) a) = sq_hasContentFormat (sr_request sr a)"
  "sq_token (sr_request (deregister_observer c tok sr) a) = sq_token (sr_request sr a)"
  "sq_method (sr_request (deregister_observer c tok sr) a) = sq_method (sr_request sr a)"
  "sq_connection (sr_request (deregister_observer c tok sr) a) = sq_connection (sr_request sr a)"
  by (simp_all add: deregister_observer_def nabto_coap_server_observer_free_def Let_def
      nabto_coap_server_observer_remove_from_list_def forget_observer_loop_eq split: option.split)

text \<open>A new request is put into the list with its fields.\<close>

lemma new_request_made:
  assumes "sv_root (sr_server sr) = Some rootNode" "distinct (router_blocks rootNode)" "method_slot (im_code msg) = Some slot"
    "\<forall>segment\<in>set (uri_path msg). \<not> is_parameter segment" "re_handler (route_table rootNode (uri_path msg) slot) = Some h"
    "never_fails (sv_allocator (sr_server sr))" "sr_activeRequests sr < sr_maxRequests sr"
  obtains a s res where "nabto_coap_server_handle_new_request msg connection sr = (Some a, s)"
    "sr_server s = sr_server sr" "server_resource_at s res = route_table rootNode (uri_path msg) slot"
    "sq_resource (sr_request s a) = Some res" "sq_state (sr_request s a) = STATE_REQUEST" "sq_payload (sr_request s a) = None"
    "\<not> sq_hasContentFormat (sr_request s a)" "sq_token (sr_request s a) = im_token msg" "sq_method (sr_request s a) = im_code msg"
    "sq_connection (sr_request s a) = connection" "sr_maxRequestPayload s = sr_maxRequestPayload sr"
proof -
  obtain n where n: "\<And>ps s. sr_server s = sr_server sr \<Longrightarrow> server_find_resource msg ps s = (Some (rn_address n, slot), ps, s)"
    "server_resource_at sr (rn_address n, slot) = route_table rootNode (uri_path msg) slot"
    using find_literal [OF assms(1-5)] by metis
  obtain a s where q: "server_calloc sizeof_server_request sr = (Some a, s)" using calloc_succeeds [OF assms(6)] by blast
  have s: "sr_server s = sr_server sr" "sr_maxRequestPayload s = sr_maxRequestPayload sr"
    using q by (auto simp: server_calloc_def split: prod.splits)
  let ?f = "\<lambda>_. zero_server_request\<lparr>sq_response := zero_server_response\<lparr>sp_messageId := sr_messageId s + 1, sp_block2Size := 5\<rparr>\<rparr>"
  let ?g = "\<lambda>r. r\<lparr>sq_connection := connection, sq_type := im_type msg, sq_method := im_code msg, sq_token := im_token msg,
      sq_messageId := im_messageId msg, sq_resource := Some (rn_address n, slot)\<rparr>"
  define s2 where "s2 = update_request a ?g (update_request a (\<lambda>r. r\<lparr>sq_parameters := []\<rparr>)
     ((update_request a ?f (s\<lparr>sr_messageId := sr_messageId s + 1\<rparr>))\<lparr>sr_activeRequests := sr_activeRequests s + 1\<rparr>))"
  define s3 where "s3 = nabto_coap_server_request_arm_timeout a s2"
  define s4 where "s4 = (if im_hasObserve msg \<and> im_observe msg = 0 \<and> im_code msg = NABTO_COAP_CODE_GET
      then update_request a (\<lambda>r. r\<lparr>sq_isObserveRegister := True\<rparr>) s3 else s3)"
  define s5 where "s5 = (if im_hasObserve msg \<and> im_observe msg = 1 \<and> im_code msg = NABTO_COAP_CODE_GET
      then deregister_observer connection (im_token msg) s4 else s4)"
  have new: "nabto_coap_server_handle_new_request msg connection sr = (Some a, nabto_coap_server_insert_request_into_list a s5)"
    using q n(1) [OF refl] n(1) s assms(7)
    by (simp add: nabto_coap_server_handle_new_request_def nabto_coap_server_request_new_def next_message_id_eq Let_def
        s2_def s3_def s4_def s5_def)
  have r3: "sr_request s3 a = (sr_request s2 a)\<lparr>sq_timeout := sq_timeout (sr_request s3 a)\<rparr>" "sr_server s3 = sr_server sr"
    "sr_maxRequestPayload s3 = sr_maxRequestPayload sr"
    by (simp_all add: s3_def nabto_coap_server_request_arm_timeout_def s2_def s update_request_def)
  have f3: "sq_resource (sr_request s3 a) = Some (rn_address n, slot)" "sq_state (sr_request s3 a) = STATE_REQUEST"
    "sq_payload (sr_request s3 a) = None" "\<not> sq_hasContentFormat (sr_request s3 a)" "sq_token (sr_request s3 a) = im_token msg"
    "sq_method (sr_request s3 a) = im_code msg" "sq_connection (sr_request s3 a) = connection"
    by (simp_all add: s3_def nabto_coap_server_request_arm_timeout_def s2_def zero_server_request_def)
  let ?same = "\<lambda>s. sr_server s = sr_server sr \<and> sr_maxRequestPayload s = sr_maxRequestPayload sr \<and>
    sq_resource (sr_request s a) = Some (rn_address n, slot) \<and> sq_state (sr_request s a) = STATE_REQUEST \<and>
    sq_payload (sr_request s a) = None \<and> \<not> sq_hasContentFormat (sr_request s a) \<and> sq_token (sr_request s a) = im_token msg \<and>
    sq_method (sr_request s a) = im_code msg \<and> sq_connection (sr_request s a) = connection"
  have "?same s4" using r3 f3 by (simp add: s4_def update_request_def)
  then have "?same s5" by (simp add: s5_def deregister_fields)
  then have 6: "?same (nabto_coap_server_insert_request_into_list a s5)" by (simp add: nabto_coap_server_insert_request_into_list_def)
  show thesis
    by (rule that [OF new, where res = "(rn_address n, slot)"]) (use 6 n(2) in \<open>simp_all add: server_resource_at_def\<close>)
qed

text \<open>A request in one message goes to its handler.\<close>

lemma whole_message_handled:
  assumes "\<not> im_hasBlock1 msg" "\<not> (im_hasBlock2 msg \<and> NABTO_COAP_BLOCK_SIZE (im_block2 msg) = 7)"
    "sq_state (sr_request sr a) = STATE_REQUEST" "sq_payload (sr_request sr a) = None" "\<not> sq_hasContentFormat (sr_request sr a)"
    "never_fails (sv_allocator (sr_server sr))" "length (im_data msg) \<le> sr_maxRequestPayload sr"
    "sq_resource (sr_request sr a) = Some r" "re_handler (server_resource_at sr r) = Some h"
  shows "\<exists>sr'. nabto_coap_server_handle_data_for_request a msg sr = (Some (h, a, re_handlerUserData (server_resource_at sr r)), sr') \<and>
    sq_state (sr_request sr' a) = STATE_USER \<and> body_at a sr' = im_data msg \<and> sq_token (sr_request sr' a) = sq_token (sr_request sr a) \<and>
    sq_method (sr_request sr' a) = sq_method (sr_request sr a) \<and> sq_connection (sr_request sr' a) = sq_connection (sr_request sr a)"
proof -
  let ?keeps = "\<lambda>s. sq_token (sr_request s a) = sq_token (sr_request sr a) \<and>
    sq_method (sr_request s a) = sq_method (sr_request sr a) \<and> sq_connection (sr_request s a) = sq_connection (sr_request sr a)"
  define s where "s = chunk_options a msg sr"
  have s: "sr_server s = sr_server sr" "sr_maxRequestPayload s = sr_maxRequestPayload sr" "sq_payload (sr_request s a) = None" "?keeps s"
    using assms(4) by (simp_all add: s_def chunk_options_def Let_def update_request_def)
  obtain s3 where w: "whole_payload a msg s = (True, s3)" "?keeps s3"
  proof (cases "im_payloadLength msg = 0")
    case True
    then show thesis using s(4) by (intro that [of s]) (simp_all add: whole_payload_def)
  next
    case False
    have "never_fails (sv_allocator (sr_server (server_free_owned (sq_payload (sr_request s a)) s)))" using assms(6) s by simp
    then obtain p t where q: "server_calloc (im_payloadLength msg + 1) (server_free_owned (sq_payload (sr_request s a)) s) = (Some p, t)"
      using calloc_succeeds by blast
    have "sr_request t = sr_request s" using calloc_same [OF q] by simp
    then show thesis using False q s(4)
      by (intro that [of "update_request a (\<lambda>r. r\<lparr>sq_payload := Some (p, im_data msg)\<rparr>) t"]) (simp_all add: whole_payload_def)
  qed
  have body: "body_at a s3 = im_data msg" using whole_payload_done(1) [OF w(1)] s(3) by auto
  define s4 where "s4 = acknowledge_chunk a msg s3"
  have same: "same_exchange a sr s4"
    unfolding s4_def using same_exchange_trans [OF chunk_options_same(1) same_exchange_trans [OF whole_payload_done(2) acknowledge_same(1)]]
      w(1) s_def by blast
  have n: "((im_hasBlock1 msg \<and> NABTO_COAP_BLOCK_SIZE (im_block1 msg) = 7) \<or> (im_hasBlock2 msg \<and> NABTO_COAP_BLOCK_SIZE (im_block2 msg) = 7)) = False"
    "(im_hasContentFormat msg \<and> sq_hasContentFormat (sr_request sr a) \<and> sq_contentFormat (sr_request sr a) \<noteq> im_contentFormat msg) = False"
    "(sr_maxRequestPayload s < sq_payloadLength (sr_request s a) + im_payloadLength msg) = False"
    using assms(1,2,5,7) s by (auto simp: im_payload_data)
  have "nabto_coap_server_handle_data_for_request a msg sr = call_handler a s4"
    unfolding nabto_coap_server_handle_data_for_request_def n(1,2) Let_def s_def [symmetric] n(3)
    using assms(1) w(1) by (simp add: s4_def)
  moreover have "\<exists>sr'. call_handler a s4 = (Some (h, a, re_handlerUserData (server_resource_at sr r)), sr') \<and>
      sq_state (sr_request sr' a) = STATE_USER \<and> body_at a sr' = body_at a s4 \<and> ?keeps sr'"
    using same assms(8,9) w(2) by (auto simp: call_handler_def Let_def server_resource_at_def same_exchange_def s4_def acknowledge_chunk_def)
  moreover have "body_at a s4 = im_data msg" using body by (simp add: s4_def acknowledge_same(2))
  ultimately show ?thesis by auto
qed

text \<open>C8: From the call of the client to the call of the handler.  The packet of a request whose body fits into it makes the
  server call the handler that was registered for the path and the method, for a new request with the token, the method,
  the connection and the body of the client's request, unless the server is at its limits or an allocation fails.\<close>

theorem request_reaches_handler:
  assumes "request_packet r room = Some (packet, left)" "length (rq_token r) \<le> 8" "rq_type r = CON \<or> rq_type r = NON"
    "unat (rq_method r) < 256" "unat (rq_block1Size r) \<le> 5" "rq_block1Offset r = 0"
    "rq_payloadLength r \<le> nabto_coap_block_size_from_szx (rq_block1Size r)"
    "\<not> fetching_further_block2 r" "unat (rq_block2 r) < 2 ^ 24" "rq_hasBlock2 r \<longrightarrow> NABTO_COAP_BLOCK_SIZE (rq_block2 r) \<noteq> 7"
    and "sv_root (sr_server sr) = Some rootNode" "distinct (router_blocks rootNode)" "method_slot (rq_method r) = Some slot"
    "\<forall>segment\<in>set (rq_pathSegments r). \<not> is_parameter segment" "re_handler (route_table rootNode (rq_pathSegments r) slot) = Some h"
    and "never_fails (sv_allocator (sr_server sr))" "sr_activeRequests sr < sr_maxRequests sr" "rq_payloadLength r \<le> sr_maxRequestPayload sr"
    "nabto_coap_server_find_request (rq_token r) connection sr = None"
  shows "\<exists>a sr'. nabto_coap_server_handle_packet connection packet sr =
      (Some (h, a, re_handlerUserData (route_table rootNode (rq_pathSegments r) slot)), sr') \<and>
    sq_state (sr_request sr' a) = STATE_USER \<and> sq_token (sr_request sr' a) = rq_token r \<and> sq_method (sr_request sr' a) = rq_method r \<and>
    sq_connection (sr_request sr' a) = connection \<and> body_at a sr' = owned_data (rq_payload r)"
proof -
  let ?h = "\<lparr>mh_type = rq_type r, mh_code = rq_method r, mh_messageId = rq_messageId r, mh_token = rq_token r\<rparr>"
  have small: "rq_block1Offset r div nabto_coap_block_size_from_szx (rq_block1Size r) \<le> NABTO_COAP_BLOCK_NUM_MAX" using assms(6) by simp
  have one: "\<not> (sends_body r \<and> nabto_coap_block_size_from_szx (rq_block1Size r) < rq_payloadLength r)" using assms(7) by simp
  have o: "\<forall>opt \<in> set (request_options r). option_ok opt" using request_options_ok [OF assms(5) small] assms(9) by simp
  obtain m m' where m: "nabto_coap_parse_message packet = Some m" "read_options (request_options r) (message_of_header ?h) = Some m'"
    "m = m'\<lparr>im_options := im_options m, im_payload := im_payload m\<rparr>"
    "im_payload m = (if sends_body r \<and> block1_chunk r \<noteq> [] then Some (block1_chunk r) else None)"
    "options_of (nabto_coap_option_iterator_init (im_options m)) = request_options r"
  proof -
    have hd: "mh_token ?h = rq_token r" "mh_code ?h = rq_method r" by simp_all
    from encoded_message_fields [OF assms(1) [unfolded request_packet_options] _ _ request_options_sorted o, unfolded hd, OF assms(2,4)]
    obtain m m' where x: "nabto_coap_parse_message packet = Some m" "read_options (request_options r) (message_of_header ?h) = Some m'"
      "options_of (nabto_coap_option_iterator_init (im_options m)) = request_options r"
      and y: "m = m'\<lparr>im_options := im_options m, im_payload := (if (if sends_body r then Some (block1_chunk r) else None) = Some []
        then None else (if sends_body r then Some (block1_chunk r) else None))\<rparr>"
      by blast
    have z: "im_payload m = (if sends_body r \<and> block1_chunk r \<noteq> [] then Some (block1_chunk r) else None)"
      by (subst y) auto
    then have "m = m'\<lparr>im_options := im_options m, im_payload := im_payload m\<rparr>" using y by (auto split: if_splits)
    with x z show thesis by (intro that)
  qed
  have f: "same_frame (message_of_header ?h) m'" "\<not> im_hasBlock1 m'" "\<not> im_hasRepeatedBlockOption m'" "im_hasBlock2 m' = rq_hasBlock2 r"
    "rq_hasBlock2 r \<longrightarrow> im_block2 m' = rq_block2 r"
    using read_request_options [OF assms(9) one, of ?h] m(2) by auto
  have g: "im_type m = rq_type r" "im_code m = rq_method r" "im_token m = rq_token r" "im_messageId m = rq_messageId r"
    "\<not> im_hasBlock1 m" "\<not> im_hasRepeatedBlockOption m" "im_hasBlock2 m = rq_hasBlock2 r" "rq_hasBlock2 r \<longrightarrow> im_block2 m = rq_block2 r"
    using f by (subst m(3); simp add: same_frame_def message_of_header_def)+
  have data: "im_data m = owned_data (rq_payload r)"
    using assms(6,7,8) m(4) by (auto simp: im_data_def sends_body_def block1_chunk_def owned_length_data)
  have path: "uri_path m = rq_pathSegments r" by (simp add: uri_path_def path_options_def m(5) request_options_path)
  have critical: "nabto_coap_server_validate_critical_options m"
    using g(6) request_options_critical [of _ r] by (simp add: nabto_coap_server_validate_critical_options_def critical_options_of m(5))
  obtain a s res where s: "nabto_coap_server_handle_new_request m connection sr = (Some a, s)"
    "sr_server s = sr_server sr" "server_resource_at s res = route_table rootNode (uri_path m) slot"
    "sq_resource (sr_request s a) = Some res" "sq_state (sr_request s a) = STATE_REQUEST" "sq_payload (sr_request s a) = None"
    "\<not> sq_hasContentFormat (sr_request s a)" "sq_token (sr_request s a) = im_token m" "sq_method (sr_request s a) = im_code m"
    "sq_connection (sr_request s a) = connection" "sr_maxRequestPayload s = sr_maxRequestPayload sr"
    by (rule new_request_made [where sr = sr and msg = m and connection = connection and slot = slot and h = h and rootNode = rootNode])
      (use assms(11-17) g path in simp_all)
  have b7: "\<not> (im_hasBlock2 m \<and> NABTO_COAP_BLOCK_SIZE (im_block2 m) = 7)" using g(7,8) assms(10) by auto
  have al: "never_fails (sv_allocator (sr_server s))" using assms(16) s(2) by simp
  have "length (im_data m) \<le> sr_maxRequestPayload s" using assms(18) s(11) by (simp add: data owned_length_data)
  with whole_message_handled [OF g(5) b7 s(5,6,7) al _ s(4), of h] s(3) assms(15) path
  obtain sr' where d: "nabto_coap_server_handle_data_for_request a m s =
      (Some (h, a, re_handlerUserData (route_table rootNode (rq_pathSegments r) slot)), sr')"
    "sq_state (sr_request sr' a) = STATE_USER" "body_at a sr' = im_data m" "sq_token (sr_request sr' a) = sq_token (sr_request s a)"
    "sq_method (sr_request sr' a) = sq_method (sr_request s a)" "sq_connection (sr_request sr' a) = sq_connection (sr_request s a)"
    by auto
  have "nabto_coap_server_handle_packet connection packet sr = handle_data a m s"
    using m(1) g(1) assms(3) critical g(3) assms(19) s(1)
    by (auto simp: nabto_coap_server_handle_packet_def handle_request_message_def)
  then have "nabto_coap_server_handle_packet connection packet sr =
      (Some (h, a, re_handlerUserData (route_table rootNode (rq_pathSegments r) slot)), sr')"
    using d(1) s(5) by (simp add: handle_data_def)
  then show ?thesis using d(2-6) s(8-10) g(2,3) data by (intro exI [of _ a] exI [of _ sr']) simp
qed


section \<open>Samples\<close>

lemmas encoding = nabto_coap_encode_header_def nabto_coap_encode_option_def encode_option_field_def nabto_coap_encode_payload_def
  nabto_coap_encode_varint_option_def nabto_coap_encode_variable_int_def variable_length_bytes.simps variable_fill.simps byte_at_def
  nabto_coap_block_size_from_szx_def

text \<open>The second block of a payload of twenty bytes.\<close>

definition sample_responding :: server_request where
  "sample_responding = zero_server_request\<lparr>sq_token := [5], sq_response := zero_server_response\<lparr>sp_code := 69, sp_messageId := 2,
     sp_payload := Some (3, [1, 2, 3, 4, 5, 6, 7, 8, 9, 10, 11, 12, 13, 14, 15, 16, 17, 18, 19, 20]), sp_block2Current := 1\<rparr>\<rparr>"

lemma sample_responding_packet:
  "response_packet sample_responding None 100 = Some ([0x41, 0x45, 0, 2, 5, 0xD1, 10, 0x10, 0xFF, 17, 18, 19, 20], 87)"
  by (simp add: response_packet_def sample_responding_def zero_server_request_def zero_server_response_def Let_def encoding)

theorem response_packet_parses_witness:
  "\<exists>m. nabto_coap_parse_message [0x41, 0x45, 0, 2, 5, 0xD1, 10, 0x10, 0xFF, 17, 18, 19, 20] = Some m \<and>
    im_data m = [17, 18, 19, 20] \<and> im_hasBlock2 m \<and> NABTO_COAP_BLOCK_NUM (im_block2 m) = 1 \<and> \<not> NABTO_COAP_BLOCK_MORE (im_block2 m)"
  using response_packet_parses [OF sample_responding_packet]
  by (simp add: sample_responding_def zero_server_request_def zero_server_response_def response_block_def response_more_def
      nabto_coap_block_size_from_szx_def) metis

text \<open>A notification with a sequence number that has 25 bits.\<close>

definition sample_notifying :: server_observer where
  "sample_notifying = zero_server_observer\<lparr>ob_sequenceNumber := 0x1000000, ob_code := 69, ob_token := [5]\<rparr>"

lemma long_sequence_number: "nabto_coap_encode_variable_int [0, 0, 0, 0] 4 0x1000000 = Some ([1, 0, 0, 0], 4)"
  by code_simp

lemma sample_notifying_packet:
  "notification_packet sample_notifying 100 = Some ([0x41, 0x45, 0, 0, 5, 0x64, 1, 0, 0, 0], 90)"
  by (simp add: notification_packet_def sample_notifying_def zero_server_observer_def Let_def long_sequence_number
      nabto_coap_encode_header_def nabto_coap_encode_option_def encode_option_field_def nabto_coap_encode_payload_def
      nabto_coap_encode_varint_option_def byte_at_def)

theorem notification_readable_witness:
  "nabto_coap_parse_message [0x41, 0x45, 0, 0, 5, 0x64, 1, 0, 0, 0] = None"
  using notification_readable [OF sample_notifying_packet] by (simp add: sample_notifying_def)

text \<open>A post of the client for path a, and a server that has it.\<close>

definition sample_post :: client_request where
  "sample_post = zero_client_request\<lparr>rq_method := NABTO_COAP_CODE_POST, rq_pathSegments := [[0x61]], rq_token := [5],
     rq_payload := Some (3, [6, 7]), rq_block1Size := 5\<rparr>"

lemma sample_post_packet:
  "request_packet sample_post 100 = Some ([0x41, 0x02, 0, 0, 5, 0xB1, 0x61, 0xFF, 6, 7], 90)"
  by (simp add: request_packet_def sample_post_def zero_client_request_def Let_def encoding fetching_further_block2_def
    NABTO_COAP_CODE_POST_def NABTO_COAP_CODE_def)


definition sample_open_server :: "address list server_requests" where
  "sample_open_server = sample_receiving\<lparr>sr_requests := [], sr_activeRequests := 0, sr_server := (sr_server sample_receiving)
     \<lparr>sv_root := Some (Router_node 3 [(16, (17, [0x61]), Router_node 18 [] None
        ((\<lambda>_. zero_resource)(POST_HANDLER := \<lparr>re_handler = Some 70, re_handlerUserData = None\<rparr>)))] None (\<lambda>_. zero_resource))\<rparr>\<rparr>"

theorem request_reaches_handler_witness:
  "\<exists>a sr'. nabto_coap_server_handle_packet (Some 9) [0x41, 0x02, 0, 0, 5, 0xB1, 0x61, 0xFF, 6, 7] sample_open_server =
      (Some (70, a, None), sr') \<and> body_at a sr' = [6, 7]"
proof -
  let ?root = "the (sv_root (sr_server sample_open_server))"
  have r: "sv_root (sr_server sample_open_server) = Some ?root" "distinct (router_blocks ?root)"
    "route_table ?root [[0x61]] POST_HANDLER = \<lparr>re_handler = Some 70, re_handlerUserData = None\<rparr>"
    by (simp_all add: sample_open_server_def route_table_def find_path_segment_iff nabto_coap_server_find_path_segment_def is_parameter_def)
  have s: "never_fails (sv_allocator (sr_server sample_open_server))" "sr_activeRequests sample_open_server < sr_maxRequests sample_open_server"
    "sr_maxRequestPayload sample_open_server = 1000" "nabto_coap_server_find_request [5] (Some 9) sample_open_server = None"
    using endless_never_fails by (simp_all add: sample_open_server_def sample_receiving_def nabto_coap_server_find_request_def)
  have p: "rq_token sample_post = [5]" "rq_type sample_post = CON" "rq_method sample_post = NABTO_COAP_CODE_POST" "rq_block1Offset sample_post = 0"
    "rq_pathSegments sample_post = [[0x61]]" "rq_payload sample_post = Some (3, [6, 7])" "rq_block1Size sample_post = 5"
    "rq_block2 sample_post = 0" "\<not> rq_hasBlock2 sample_post" "\<not> fetching_further_block2 sample_post"
    by (simp_all add: sample_post_def zero_client_request_def fetching_further_block2_def)
  have "nabto_coap_block_size_from_szx 5 = 512" by (simp add: nabto_coap_block_size_from_szx_def)
  then show ?thesis
    using request_reaches_handler [OF sample_post_packet, of sample_open_server ?root POST_HANDLER 70 "Some 9"] r s
    by (auto simp: p is_parameter_def method_slot_def NABTO_COAP_CODE_POST_def NABTO_COAP_CODE_def NABTO_COAP_CODE_GET_def)
qed

end
