(* ===== verification/Stream_Types.thy ===== *)
theory Stream_Types
  imports Serial
begin

text \<open>
  Data of the streaming component, src/components/streaming: the enumerations, segments, counters
  and the transfer control block of nabto_stream_window.h, and the stamp and sequence functions of
  nabto_stream_util.c.

  A send segment lives in a store \<open>st_segs\<close> from addresses to segments, because it is linked into
  the unacked list and the resend list at the same time; each list is the list of the addresses it
  links, in order, without its sentinel.  The segment embedded in the stream for the fin has the
  address \<open>FIN_SEG\<close>, the others get increasing addresses.  A receive segment is in one list at a time
  and the two receive lists hold the segments themselves.  C doubles are rationals, with the
  rounding of the platform as a function of the module.
\<close>

section \<open>Enumerations\<close>

datatype stream_state = ST_IDLE | ST_ACCEPT | ST_WAIT_ACCEPT | ST_SYN_SENT | ST_SYN_RCVD
  | ST_ESTABLISHED | ST_FIN_WAIT_1 | ST_FIN_WAIT_2 | ST_CLOSING | ST_TIME_WAIT
  | ST_CLOSE_WAIT | ST_LAST_ACK | ST_CLOSED | ST_ABORTED | ST_ABORTED_RST

text \<open>The C code compares states with \<open><\<close> and \<open>\<ge>\<close>: the enumeration order.\<close>

fun state_num :: "stream_state \<Rightarrow> nat" where
  "state_num ST_IDLE = 0" | "state_num ST_ACCEPT = 1" | "state_num ST_WAIT_ACCEPT = 2"
| "state_num ST_SYN_SENT = 3" | "state_num ST_SYN_RCVD = 4" | "state_num ST_ESTABLISHED = 5"
| "state_num ST_FIN_WAIT_1 = 6" | "state_num ST_FIN_WAIT_2 = 7" | "state_num ST_CLOSING = 8"
| "state_num ST_TIME_WAIT = 9" | "state_num ST_CLOSE_WAIT = 10" | "state_num ST_LAST_ACK = 11"
| "state_num ST_CLOSED = 12" | "state_num ST_ABORTED = 13" | "state_num ST_ABORTED_RST = 14"

lemma state_num_inject: "state_num a = state_num b \<longleftrightarrow> a = b"
  by (cases a; cases b) simp_all

instantiation stream_state :: linorder
begin

definition less_eq_stream_state :: "stream_state \<Rightarrow> stream_state \<Rightarrow> bool" where
  "less_eq_stream_state a b \<longleftrightarrow> state_num a \<le> state_num b"

definition less_stream_state :: "stream_state \<Rightarrow> stream_state \<Rightarrow> bool" where
  "less_stream_state a b \<longleftrightarrow> state_num a < state_num b"

instance
  by standard (auto simp: less_eq_stream_state_def less_stream_state_def state_num_inject)

end

lemmas state_order = less_eq_stream_state_def less_stream_state_def

datatype stream_event = ET_ACCEPT | ET_ACK | ET_SYN | ET_SYN_ACK | ET_DATA | ET_TIMEOUT | ET_RST
  | ET_APPLICATION_EVENT | ET_TIME_WAIT | ET_WAIT | ET_NOTHING | ET_CLOSED

datatype application_event = AE_OPENED | AE_DATA_READY | AE_DATA_WRITE | AE_READ_CLOSED
  | AE_WRITE_CLOSED | AE_CLOSED

datatype module_event = ME_DATA_WRITTEN | ME_DATA_READ | ME_CLOSE_CALLED | ME_OPENED | ME_ACCEPTED

datatype stream_status = SS_OK | SS_CLOSED | SS_EOF | SS_ABORTED | SS_INVALID_STATE

datatype recv_buffer_state = RB_IDLE | RB_DATA

datatype send_buffer_state = B_IDLE | B_DATA | B_SENT

datatype stream_stamp = STAMP_NOW | STAMP_INFINITE | STAMP_FUTURE u32

fun is_future :: "stream_stamp \<Rightarrow> bool" where
  "is_future (STAMP_FUTURE _) = True"
| "is_future _ = False"

section \<open>Constants\<close>

abbreviation (input) NABTO_STREAM_DEFAULT_TIMEOUT :: nat where "NABTO_STREAM_DEFAULT_TIMEOUT \<equiv> 1000"
abbreviation (input) NABTO_STREAM_MAX_RETRANSMISSION_TIME :: u32 where
  "NABTO_STREAM_MAX_RETRANSMISSION_TIME \<equiv> 16000"
abbreviation (input) NABTO_STREAM_DEFAULT_MAX_SEGMENT_SIZE :: u16 where
  "NABTO_STREAM_DEFAULT_MAX_SEGMENT_SIZE \<equiv> 256"
abbreviation (input) NABTO_STREAM_SLOW_START_INITIAL_VALUE :: u32 where
  "NABTO_STREAM_SLOW_START_INITIAL_VALUE \<equiv> 0x7fffffff"
abbreviation (input) NABTO_STREAM_SEGMENT_ALLOCATION_RETRY_INTERVAL :: u32 where
  "NABTO_STREAM_SEGMENT_ALLOCATION_RETRY_INTERVAL \<equiv> 20"
abbreviation (input) NABTO_STREAM_MAX_FLIGHT_SIZE :: nat where "NABTO_STREAM_MAX_FLIGHT_SIZE \<equiv> 10000"
abbreviation (input) NABTO_STREAM_MAX_SEND_LIST_SIZE :: nat where "NABTO_STREAM_MAX_SEND_LIST_SIZE \<equiv> 100"
abbreviation (input) NABTO_STREAM_MAX_RECV_SEGMENTS :: u32 where "NABTO_STREAM_MAX_RECV_SEGMENTS \<equiv> 10000"

section \<open>Records\<close>

type_synonym double = rat

record stream_header =
  hd_flags :: u8
  hd_timestampValue :: u32

record syn_request =
  sr_seq :: u32
  sr_contentType :: u32
  sr_maxSendSegmentSize :: u16
  sr_maxRecvSegmentSize :: u16
  sr_hasNonceCapability :: bool

record syn_ack_request =
  sa_seq :: u32
  sa_maxSendSegmentSize :: u16
  sa_maxRecvSegmentSize :: u16
  sa_hasNonce :: bool
  sa_nonce :: bytes

record recv_segment =
  rs_seq :: u32
  rs_state :: recv_buffer_state
  rs_isFin :: bool
  rs_capacity :: nat
  rs_size :: u16
  rs_used :: u16
  rs_buf :: bytes

record send_segment =
  ss_seq :: u32
  ss_used :: u16
  ss_capacity :: nat
  ss_buf :: bytes
  ss_state :: send_buffer_state
  ss_sentStamp :: stream_stamp
  ss_logicalSentStamp :: u32
  ss_packetSeqStamp :: u32
  ss_ackedAfter :: u16

type_synonym seg_addr = nat

abbreviation (input) FIN_SEG :: seg_addr where "FIN_SEG \<equiv> 0"

record stream_stats =
  stat_min :: double
  stat_max :: double
  stat_avg :: double
  stat_count :: double

record congestion_control_stats =
  cs_rtt :: stream_stats
  cs_cwnd :: stream_stats
  cs_ssThreshold :: stream_stats
  cs_flightSize :: stream_stats

record congestion_control =
  cc_srtt :: double
  cc_rttVar :: double
  cc_rto :: u32
  cc_isFirstAck :: bool
  cc_cwnd :: double
  cc_cwndMax :: double
  cc_ssThreshold :: u32
  cc_flightSize :: u32
  cc_lostSegment :: bool
  cc_lostSegmentSeq :: u32

record application_events =
  ae_opened :: bool
  ae_dataReady :: bool
  ae_dataWrite :: bool
  ae_readClosed :: bool
  ae_writeClosed :: bool
  ae_closed :: bool

text \<open>
  The callbacks of the integrator, on the user data \<open>'m\<close> they are called with.  An allocated
  segment is what the allocator left in the memory it returns.  The clock is read from the user
  data: it moves when the integrator changes them between two calls.
\<close>

record 'm stream_module =
  sm_get_stamp :: "'m \<Rightarrow> u32"
  sm_alloc_send_segment :: "nat \<Rightarrow> 'm \<Rightarrow> send_segment option \<times> 'm"
  sm_free_send_segment :: "seg_addr \<Rightarrow> 'm \<Rightarrow> 'm"
  sm_alloc_recv_segment :: "nat \<Rightarrow> 'm \<Rightarrow> recv_segment option \<times> 'm"
  sm_free_recv_segment :: "recv_segment \<Rightarrow> 'm \<Rightarrow> 'm"
  sm_notify_event :: "module_event \<Rightarrow> 'm \<Rightarrow> 'm"
  sm_round :: "rat \<Rightarrow> double"

record 'm stream =
  st_module :: "'m stream_module"
  st_user :: 'm
  st_contentType :: u32
  st_maxSendSegmentSize :: u16
  st_maxRecvSegmentSize :: u16
  st_state :: stream_state
  st_retransCount :: u16
  st_startSequenceNumber :: u32
  st_timeoutStamp :: stream_stamp
  st_segmentSentAfterTimeout :: bool
  st_maxAdvertisedWindow :: u32
  st_timestampToEcho :: u32
  st_windowHasOpened :: bool
  st_sendAck :: bool
  st_imediateAck :: bool
  st_logicalTimestamp :: u32
  st_segs :: "seg_addr \<Rightarrow> send_segment option"
  st_nextSeg :: seg_addr
  st_unacked :: "seg_addr list"
  st_unackedSize :: nat
  st_sendList :: "seg_addr list"
  st_sendListSize :: nat
  st_resendList :: "seg_addr list"
  st_nextUnfilledSendSegment :: "seg_addr option"
  st_sendSegmentAllocationStamp :: stream_stamp
  st_xmitMaxAllocated :: u32
  st_recvRead :: "recv_segment list"
  st_recvWindow :: "recv_segment list"
  st_recvSegmentAllocationStamp :: stream_stamp
  st_recvTop :: u32
  st_recvMax :: u32
  st_recvMaxAllocated :: u32
  st_cc :: congestion_control
  st_ccStats :: congestion_control_stats
  st_events :: application_events
  st_hasCallback :: bool
  st_receivedBytes :: u64
  st_sentBytes :: u64
  st_timeFirstMBReceived :: u32
  st_timeFirstMBSent :: u32
  st_reorderedOrLostSegments :: u32
  st_sentPackets :: u32
  st_receivedPackets :: u32
  st_reorderedOrLostPackets :: u32
  st_lastLostPacketSeq :: u32
  st_timeouts :: u32
  st_streamStart :: stream_stamp
  st_disableReplayProtection :: bool
  st_nonce :: bytes
  st_sendNonce :: bool
  st_nonceValidated :: bool

section \<open>Stamps and sequence numbers\<close>

definition stream_now :: "'m stream \<Rightarrow> u32" where
  "stream_now st = sm_get_stamp (st_module st) (st_user st)"

definition nabto_stream_get_stamp :: "'m stream \<Rightarrow> stream_stamp" where
  "nabto_stream_get_stamp st = STAMP_FUTURE (stream_now st)"

definition nabto_stream_get_future_stamp :: "'m stream \<Rightarrow> u32 \<Rightarrow> stream_stamp" where
  "nabto_stream_get_future_stamp st milliseconds = STAMP_FUTURE (stream_now st + milliseconds)"

fun nabto_stream_stamp_less :: "stream_stamp \<Rightarrow> stream_stamp \<Rightarrow> bool" where
  "nabto_stream_stamp_less STAMP_INFINITE s2 = False"
| "nabto_stream_stamp_less STAMP_NOW s2 = True"
| "nabto_stream_stamp_less (STAMP_FUTURE a) STAMP_INFINITE = True"
| "nabto_stream_stamp_less (STAMP_FUTURE a) STAMP_NOW = False"
| "nabto_stream_stamp_less (STAMP_FUTURE a) (STAMP_FUTURE b) = (sint (a - b) < 0)"

definition nabto_stream_stamp_less_of :: "stream_stamp \<Rightarrow> stream_stamp \<Rightarrow> stream_stamp" where
  "nabto_stream_stamp_less_of s1 s2 = (if nabto_stream_stamp_less s1 s2 then s1 else s2)"

definition nabto_stream_is_stamp_passed :: "'m stream \<Rightarrow> stream_stamp \<Rightarrow> bool" where
  "nabto_stream_is_stamp_passed st s = (case s of
     STAMP_NOW \<Rightarrow> True
   | STAMP_INFINITE \<Rightarrow> False
   | STAMP_FUTURE stamp \<Rightarrow> sint (stamp - stream_now st) \<le> 0)"

definition nabto_stream_stamp_diff_now :: "'m stream \<Rightarrow> stream_stamp \<Rightarrow> int" where
  "nabto_stream_stamp_diff_now st s = (case s of
     STAMP_NOW \<Rightarrow> 0
   | STAMP_INFINITE \<Rightarrow> 2147483647
   | STAMP_FUTURE stamp \<Rightarrow> sint (stamp - stream_now st))"

definition nabto_stream_logical_stamp_get :: "'m stream \<Rightarrow> u32 \<times> 'm stream" where
  "nabto_stream_logical_stamp_get st =
     (st_logicalTimestamp st, st\<lparr>st_logicalTimestamp := st_logicalTimestamp st + 1\<rparr>)"

definition nabto_stream_logical_stamp_less :: "u32 \<Rightarrow> u32 \<Rightarrow> bool" where
  "nabto_stream_logical_stamp_less s1 s2 \<longleftrightarrow> sint (s1 - s2) < 0"

definition nabto_stream_logical_stamp_less_or_equal :: "u32 \<Rightarrow> u32 \<Rightarrow> bool" where
  "nabto_stream_logical_stamp_less_or_equal s1 s2 \<longleftrightarrow> sint (s1 - s2) \<le> 0"

definition nabto_stream_sequence_less :: "u32 \<Rightarrow> u32 \<Rightarrow> bool" where
  "nabto_stream_sequence_less lhs rhs \<longleftrightarrow> sint (lhs - rhs) < 0"

definition nabto_stream_sequence_less_equal :: "u32 \<Rightarrow> u32 \<Rightarrow> bool" where
  "nabto_stream_sequence_less_equal lhs rhs \<longleftrightarrow> nabto_stream_sequence_less lhs rhs \<or> lhs = rhs"

definition nabto_stream_sequence_max :: "u32 \<Rightarrow> u32 \<Rightarrow> u32" where
  "nabto_stream_sequence_max s1 s2 = (if nabto_stream_sequence_less s1 s2 then s2 else s1)"

definition nabto_stream_module_notify_event :: "module_event \<Rightarrow> 'm stream \<Rightarrow> 'm stream" where
  "nabto_stream_module_notify_event event st =
     st\<lparr>st_user := sm_notify_event (st_module st) event (st_user st)\<rparr>"

interpretation stream_seq: serial_order nabto_stream_sequence_less
  by unfold_locales (simp add: nabto_stream_sequence_less_def)

interpretation stream_logical: serial_order nabto_stream_logical_stamp_less
  by unfold_locales (simp add: nabto_stream_logical_stamp_less_def)

end
