(* ===== verification/Stream_Memory.thy ===== *)
theory Stream_Memory
  imports Stream_Types
begin

text \<open>
  The segment lists of nabto_stream_util.c, the segment allocation of nabto_stream_memory.c, the
  congestion control of nabto_stream_congestion_control.c and the flow control of
  nabto_stream_flow_control.c.
\<close>

section \<open>The segment store and the lists\<close>

definition send_seg :: "'m stream \<Rightarrow> seg_addr \<Rightarrow> send_segment" where
  "send_seg st a = the (st_segs st a)"

definition set_seg :: "seg_addr \<Rightarrow> send_segment \<Rightarrow> 'm stream \<Rightarrow> 'm stream" where
  "set_seg a s st = st\<lparr>st_segs := (st_segs st)(a \<mapsto> s)\<rparr>"

definition add_to_send_list_end :: "seg_addr \<Rightarrow> 'm stream \<Rightarrow> 'm stream" where
  "add_to_send_list_end a st =
     st\<lparr>st_sendList := st_sendList st @ [a], st_sendListSize := st_sendListSize st + 1\<rparr>"

definition add_to_send_list_front :: "seg_addr \<Rightarrow> 'm stream \<Rightarrow> 'm stream" where
  "add_to_send_list_front a st =
     st\<lparr>st_sendList := a # st_sendList st, st_sendListSize := st_sendListSize st + 1\<rparr>"

definition nabto_stream_remove_segment_from_send_list :: "seg_addr \<Rightarrow> 'm stream \<Rightarrow> 'm stream" where
  "nabto_stream_remove_segment_from_send_list a st =
     st\<lparr>st_sendList := remove1 a (st_sendList st), st_sendListSize := st_sendListSize st - 1\<rparr>"

definition nabto_stream_remove_segment_from_resend_list :: "seg_addr \<Rightarrow> 'm stream \<Rightarrow> 'm stream" where
  "nabto_stream_remove_segment_from_resend_list a st =
     st\<lparr>st_resendList := remove1 a (st_resendList st)\<rparr>"

definition add_to_unacked_list_end :: "seg_addr \<Rightarrow> 'm stream \<Rightarrow> 'm stream" where
  "add_to_unacked_list_end a st =
     st\<lparr>st_unacked := st_unacked st @ [a], st_unackedSize := st_unackedSize st + 1\<rparr>"

definition nabto_stream_remove_segment_from_unacked_list :: "seg_addr \<Rightarrow> 'm stream \<Rightarrow> 'm stream" where
  "nabto_stream_remove_segment_from_unacked_list a st =
     st\<lparr>st_unacked := remove1 a (st_unacked st), st_unackedSize := st_unackedSize st - 1\<rparr>"

section \<open>Allocation\<close>

definition nabto_stream_free_send_segment :: "seg_addr \<Rightarrow> 'm stream \<Rightarrow> 'm stream" where
  "nabto_stream_free_send_segment a st =
     (if a = FIN_SEG then st
      else st\<lparr>st_segs := (st_segs st)(a := None),
              st_user := sm_free_send_segment (st_module st) a (st_user st)\<rparr>)"

definition nabto_stream_free_recv_segment :: "recv_segment \<Rightarrow> 'm stream \<Rightarrow> 'm stream" where
  "nabto_stream_free_recv_segment s st =
     st\<lparr>st_user := sm_free_recv_segment (st_module st) s (st_user st)\<rparr>"

definition nabto_stream_allocate_next_send_segment :: "'m stream \<Rightarrow> 'm stream" where
  "nabto_stream_allocate_next_send_segment st =
     (if st_nextUnfilledSendSegment st \<noteq> None then st
      else
        (let (r, user) = sm_alloc_send_segment (st_module st)
                           (unat (st_maxSendSegmentSize st)) (st_user st);
             st = st\<lparr>st_user := user\<rparr>
         in case r of
           None \<Rightarrow> st\<lparr>st_sendSegmentAllocationStamp :=
                     nabto_stream_get_future_stamp st NABTO_STREAM_SEGMENT_ALLOCATION_RETRY_INTERVAL\<rparr>
         | Some seg \<Rightarrow>
            (let a = st_nextSeg st;
                 st = (set_seg a seg st)\<lparr>st_nextSeg := a + 1, st_nextUnfilledSendSegment := Some a\<rparr>;
                 st = (if is_future (st_sendSegmentAllocationStamp st)
                       then st\<lparr>st_events := (st_events st)\<lparr>ae_dataWrite := True\<rparr>\<rparr> else st)
             in st\<lparr>st_sendSegmentAllocationStamp := STAMP_INFINITE\<rparr>)))"

definition nabto_stream_allocate_next_recv_segment :: "'m stream \<Rightarrow> bool \<times> 'm stream" where
  "nabto_stream_allocate_next_recv_segment st =
     (let (r, user) = sm_alloc_recv_segment (st_module st)
                        (unat (st_maxRecvSegmentSize st)) (st_user st);
          st = st\<lparr>st_user := user\<rparr>
      in case r of
        None \<Rightarrow> (False, st\<lparr>st_recvSegmentAllocationStamp :=
                  nabto_stream_get_future_stamp st NABTO_STREAM_SEGMENT_ALLOCATION_RETRY_INTERVAL\<rparr>)
      | Some seg \<Rightarrow>
         (let st = (if is_future (st_recvSegmentAllocationStamp st)
                    then st\<lparr>st_imediateAck := True\<rparr> else st);
              st = st\<lparr>st_recvSegmentAllocationStamp := STAMP_INFINITE,
                      st_recvMaxAllocated := st_recvMaxAllocated st + 1\<rparr>;
              seg = seg\<lparr>rs_seq := st_recvMaxAllocated st\<rparr>
          in (True, st\<lparr>st_recvWindow := st_recvWindow st @ [seg]\<rparr>)))"

definition nabto_stream_send_segment_available :: "'m stream \<Rightarrow> 'm stream" where
  "nabto_stream_send_segment_available st =
     (if st_state st > ST_SYN_SENT \<and> st_state st < ST_CLOSED then
        (if st_nextUnfilledSendSegment st \<noteq> None then st
         else nabto_stream_allocate_next_send_segment st)
      else st)"

definition nabto_stream_recv_segment_available :: "'m stream \<Rightarrow> 'm stream" where
  "nabto_stream_recv_segment_available st =
     (if st_state st > ST_SYN_SENT \<and> st_state st < ST_CLOSED then
        (if st_recvMaxAllocated st \<noteq> st_recvMax st then st
         else snd (nabto_stream_allocate_next_recv_segment st))
      else st)"

section \<open>Statistics\<close>

definition nabto_stream_stats_observe :: "(rat \<Rightarrow> double) \<Rightarrow> stream_stats \<Rightarrow> double \<Rightarrow> stream_stats" where
  "nabto_stream_stats_observe rnd stat v =
     (let stat = (if stat_min stat = 0 \<and> stat_max stat = 0
                  then stat\<lparr>stat_min := v, stat_max := v\<rparr> else stat);
          stat = (if v < stat_min stat then stat\<lparr>stat_min := v\<rparr> else stat);
          stat = (if stat_max stat < v then stat\<lparr>stat_max := v\<rparr> else stat);
          stat = stat\<lparr>stat_count := rnd (stat_count stat + 1)\<rparr>
      in stat\<lparr>stat_avg := rnd (stat_avg stat +
                rnd (rnd (v - stat_avg stat) / stat_count stat))\<rparr>)"

definition nabto_stream_get_duration :: "'m stream \<Rightarrow> u32" where
  "nabto_stream_get_duration st =
     word_of_int (nabto_stream_stamp_diff_now st (st_streamStart st))"

section \<open>Congestion control\<close>

abbreviation (input) CWND_INITIAL_VALUE :: double where "CWND_INITIAL_VALUE \<equiv> 8"
abbreviation (input) SLOW_START_MIN_VALUE :: double where "SLOW_START_MIN_VALUE \<equiv> 8"

definition upd_cc :: "(congestion_control \<Rightarrow> congestion_control) \<Rightarrow> 'm stream \<Rightarrow> 'm stream" where
  "upd_cc f st = st\<lparr>st_cc := f (st_cc st)\<rparr>"

definition u32_of_double :: "double \<Rightarrow> u32" where
  "u32_of_double d = word_of_int \<lfloor>d\<rfloor>"

definition double_of_u32 :: "u32 \<Rightarrow> double" where
  "double_of_u32 w = of_nat (unat w)"

definition nabto_stream_congestion_control_init :: "'m stream \<Rightarrow> 'm stream" where
  "nabto_stream_congestion_control_init =
     upd_cc (\<lambda>c. c\<lparr>cc_isFirstAck := True, cc_cwnd := CWND_INITIAL_VALUE,
       cc_cwndMax := CWND_INITIAL_VALUE, cc_srtt := of_nat NABTO_STREAM_DEFAULT_TIMEOUT,
       cc_rto := of_nat NABTO_STREAM_DEFAULT_TIMEOUT,
       cc_ssThreshold := NABTO_STREAM_SLOW_START_INITIAL_VALUE\<rparr>)"

definition congestion_control_adjust_ssthresh_after_triple_ack ::
  "send_segment \<Rightarrow> 'm stream \<Rightarrow> 'm stream" where
  "congestion_control_adjust_ssthresh_after_triple_ack segment st =
     (if cc_lostSegment (st_cc st) then st
      else let
        rnd = sm_round (st_module st);
        half = rnd (double_of_u32 (cc_flightSize (st_cc st)) / 2);
        th = u32_of_double (if half > SLOW_START_MIN_VALUE then half else SLOW_START_MIN_VALUE);
        st = upd_cc (\<lambda>c. c\<lparr>cc_ssThreshold := th, cc_cwndMax := double_of_u32 (th * 2)\<rparr>) st;
        st = st\<lparr>st_ccStats := (st_ccStats st)\<lparr>cs_ssThreshold :=
               nabto_stream_stats_observe rnd (cs_ssThreshold (st_ccStats st)) (double_of_u32 th)\<rparr>\<rparr>
      in upd_cc (\<lambda>c. c\<lparr>cc_lostSegment := True, cc_lostSegmentSeq := ss_seq segment\<rparr>) st)"

definition nabto_stream_congestion_control_timeout :: "'m stream \<Rightarrow> 'm stream" where
  "nabto_stream_congestion_control_timeout st =
     (let st = upd_cc (\<lambda>c. c\<lparr>cc_cwnd := CWND_INITIAL_VALUE, cc_cwndMax := CWND_INITIAL_VALUE,
                 cc_ssThreshold := NABTO_STREAM_SLOW_START_INITIAL_VALUE\<rparr>) st;
          st = upd_cc (\<lambda>c. c\<lparr>cc_rto := cc_rto c + cc_rto c, cc_isFirstAck := True\<rparr>) st;
          st = upd_cc (\<lambda>c. if cc_rto c > NABTO_STREAM_MAX_RETRANSMISSION_TIME
                           then c\<lparr>cc_rto := NABTO_STREAM_MAX_RETRANSMISSION_TIME\<rparr> else c) st
      in st\<lparr>st_timeouts := st_timeouts st + 1\<rparr>)"

definition congestion_control_use_slow_start :: "'m stream \<Rightarrow> bool" where
  "congestion_control_use_slow_start st \<longleftrightarrow> cc_flightSize (st_cc st) < cc_ssThreshold (st_cc st)"

definition nabto_stream_congestion_control_handle_ack :: "send_segment \<Rightarrow> 'm stream \<Rightarrow> 'm stream" where
  "nabto_stream_congestion_control_handle_ack segment st =
     (let rnd = sm_round (st_module st);
          st = (if cc_lostSegment (st_cc st) \<and> ss_seq segment = cc_lostSegmentSeq (st_cc st)
                then upd_cc (\<lambda>c. c\<lparr>cc_lostSegment := False\<rparr>) st else st);
          st = (if congestion_control_use_slow_start st
                then upd_cc (\<lambda>c. c\<lparr>cc_cwnd := rnd (cc_cwnd c + 2)\<rparr>) st
                else upd_cc (\<lambda>c. c\<lparr>cc_cwnd := rnd (cc_cwnd c +
                       rnd (1 + rnd (1 / double_of_u32 (cc_flightSize c))))\<rparr>) st);
          st = upd_cc (\<lambda>c. c\<lparr>cc_cwndMax :=
                 (if double_of_u32 (cc_flightSize c * 2) > cc_cwndMax c
                  then double_of_u32 (cc_flightSize c * 2) else cc_cwndMax c)\<rparr>) st;
          st = upd_cc (\<lambda>c. c\<lparr>cc_flightSize := cc_flightSize c - 1\<rparr>) st
      in st\<lparr>st_ccStats := (st_ccStats st)\<lparr>cs_cwnd :=
            nabto_stream_stats_observe rnd (cs_cwnd (st_ccStats st)) (cc_cwnd (st_cc st))\<rparr>\<rparr>)"

definition nabto_stream_congestion_control_can_send :: "'m stream \<Rightarrow> bool" where
  "nabto_stream_congestion_control_can_send st \<longleftrightarrow> cc_cwnd (st_cc st) > 0"

definition nabto_stream_congestion_control_accept_more_data :: "'m stream \<Rightarrow> bool" where
  "nabto_stream_congestion_control_accept_more_data st \<longleftrightarrow>
     of_nat (st_sendListSize st) \<le> cc_cwnd (st_cc st) \<and>
     of_nat (st_sendListSize st + unat (cc_flightSize (st_cc st))) \<le> cc_cwndMax (st_cc st) \<and>
     st_sendListSize st \<le> NABTO_STREAM_MAX_SEND_LIST_SIZE \<and>
     unat (cc_flightSize (st_cc st)) \<le> NABTO_STREAM_MAX_FLIGHT_SIZE"

definition update_congestion_control_receive_stats ::
  "send_segment \<Rightarrow> u32 \<Rightarrow> 'm stream \<Rightarrow> 'm stream" where
  "update_congestion_control_receive_stats segment timestampEcho st =
     (if nabto_stream_logical_stamp_less_or_equal (ss_logicalSentStamp segment) timestampEcho then
        (let rnd = sm_round (st_module st);
             time = of_int \<bar>nabto_stream_stamp_diff_now st (ss_sentStamp segment)\<bar>;
             st = (if cc_isFirstAck (st_cc st)
                   then upd_cc (\<lambda>c. c\<lparr>cc_srtt := time, cc_rttVar := rnd (time / 2),
                                     cc_isFirstAck := False\<rparr>) st
                   else let
                     alpha = 1 / 8;
                     beta = 1 / 4;
                     st = upd_cc (\<lambda>c. c\<lparr>cc_rttVar := rnd (rnd ((1 - beta) * cc_rttVar c) +
                            rnd (beta * \<bar>rnd (cc_srtt c - time)\<bar>))\<rparr>) st
                   in upd_cc (\<lambda>c. c\<lparr>cc_srtt := rnd (rnd ((1 - alpha) * cc_srtt c) +
                            rnd (alpha * time))\<rparr>) st);
             st = st\<lparr>st_ccStats := (st_ccStats st)\<lparr>cs_rtt :=
                    nabto_stream_stats_observe rnd (cs_rtt (st_ccStats st)) time\<rparr>\<rparr>;
             st = upd_cc (\<lambda>c. c\<lparr>cc_rto :=
                    u32_of_double (rnd (cc_srtt c + rnd (4 * cc_rttVar c)))\<rparr>) st;
             st = upd_cc (\<lambda>c. c\<lparr>cc_rto := cc_rto c + 500\<rparr>) st
         in upd_cc (\<lambda>c. if cc_rto c > NABTO_STREAM_MAX_RETRANSMISSION_TIME
                        then c\<lparr>cc_rto := NABTO_STREAM_MAX_RETRANSMISSION_TIME\<rparr> else c) st)
      else st)"

section \<open>Flow control\<close>

text \<open>
  The loop walks the unacked list from its end; \<open>it\<close> is the reversed list of the segments that are
  left to visit.
\<close>

fun advertised_window_reduced_loop :: "seg_addr list \<Rightarrow> 'm stream \<Rightarrow> 'm stream" where
  "advertised_window_reduced_loop [] st = st"
| "advertised_window_reduced_loop (a # it) st =
     (if nabto_stream_sequence_less (st_maxAdvertisedWindow st) (ss_seq (send_seg st a)) then
        (let st = nabto_stream_remove_segment_from_unacked_list a st;
             st = nabto_stream_remove_segment_from_resend_list a st;
             st = upd_cc (\<lambda>c. c\<lparr>cc_flightSize := cc_flightSize c - 1\<rparr>) st;
             st = add_to_send_list_front a st
         in advertised_window_reduced_loop it st)
      else st)"

definition nabto_stream_flow_control_advertised_window_reduced :: "'m stream \<Rightarrow> 'm stream" where
  "nabto_stream_flow_control_advertised_window_reduced st =
     advertised_window_reduced_loop (rev (st_unacked st)) st"

definition nabto_stream_flow_control_can_send :: "'m stream \<Rightarrow> u32 \<Rightarrow> bool" where
  "nabto_stream_flow_control_can_send st seq =
     (if nabto_stream_sequence_less_equal seq (st_maxAdvertisedWindow st) then True
      else if \<not> st_segmentSentAfterTimeout st then True
      else False)"

end
