(* ===== verification/Stream_Window.thy ===== *)
theory Stream_Window
  imports Stream_Memory
begin

text \<open>
  The transfer control block of src/components/streaming/src/nabto_stream_window.c: state
  transitions, initialisation and destruction, the next event, acknowledgement handling, and the
  handling of syn, syn|ack, fin and data.
\<close>

section \<open>State transitions\<close>

definition upd_events :: "(application_events \<Rightarrow> application_events) \<Rightarrow> 'm stream \<Rightarrow> 'm stream" where
  "upd_events f st = st\<lparr>st_events := f (st_events st)\<rparr>"

definition nabto_stream_state_transition :: "stream_state \<Rightarrow> 'm stream \<Rightarrow> 'm stream" where
  "nabto_stream_state_transition new_state st =
     (let oldState = st_state st in
      if st_state st = new_state then st
      else let st = st\<lparr>st_state := new_state, st_retransCount := 0\<rparr> in
        (case new_state of
           ST_SYN_SENT \<Rightarrow> st\<lparr>st_timeoutStamp := STAMP_NOW\<rparr>
         | ST_ACCEPT \<Rightarrow> st\<lparr>st_timeoutStamp := STAMP_INFINITE\<rparr>
         | ST_WAIT_ACCEPT \<Rightarrow> st\<lparr>st_timeoutStamp := STAMP_INFINITE\<rparr>
         | ST_SYN_RCVD \<Rightarrow> st\<lparr>st_timeoutStamp := STAMP_NOW\<rparr>
         | ST_ESTABLISHED \<Rightarrow>
             (upd_events (\<lambda>e. e\<lparr>ae_opened := True\<rparr>) st)\<lparr>st_timeoutStamp := STAMP_INFINITE\<rparr>
         | ST_FIN_WAIT_2 \<Rightarrow> upd_events (\<lambda>e. e\<lparr>ae_writeClosed := True\<rparr>) st
         | ST_TIME_WAIT \<Rightarrow>
             (if oldState = ST_FIN_WAIT_1 \<or> oldState = ST_CLOSING
              then upd_events (\<lambda>e. e\<lparr>ae_writeClosed := True\<rparr>) st else st)
         | ST_CLOSED \<Rightarrow>
             (let st = (if oldState = ST_LAST_ACK
                        then upd_events (\<lambda>e. e\<lparr>ae_writeClosed := True\<rparr>) st else st)
              in upd_events (\<lambda>e. e\<lparr>ae_closed := True\<rparr>) st)
         | ST_ABORTED \<Rightarrow> upd_events (\<lambda>e. e\<lparr>ae_closed := True\<rparr>) st
         | ST_ABORTED_RST \<Rightarrow> upd_events (\<lambda>e. e\<lparr>ae_closed := True\<rparr>) st
         | _ \<Rightarrow> st))"

text \<open>The macro \<open>SET_STATE\<close>.\<close>

definition SET_STATE :: "stream_state \<Rightarrow> 'm stream \<Rightarrow> 'm stream" where
  "SET_STATE newst st =
     (if st_state st \<noteq> newst then nabto_stream_state_transition newst st else st)"

section \<open>Initialisation and destruction\<close>

definition zero_send_segment :: send_segment where
  "zero_send_segment = \<lparr>ss_seq = 0, ss_used = 0, ss_capacity = 0, ss_buf = [], ss_state = B_IDLE,
     ss_sentStamp = STAMP_NOW, ss_logicalSentStamp = 0, ss_packetSeqStamp = 0, ss_ackedAfter = 0\<rparr>"

definition zero_stats :: stream_stats where
  "zero_stats = \<lparr>stat_min = 0, stat_max = 0, stat_avg = 0, stat_count = 0\<rparr>"

definition zero_cc :: congestion_control where
  "zero_cc = \<lparr>cc_srtt = 0, cc_rttVar = 0, cc_rto = 0, cc_isFirstAck = False, cc_cwnd = 0,
     cc_cwndMax = 0, cc_ssThreshold = 0, cc_flightSize = 0, cc_lostSegment = False,
     cc_lostSegmentSeq = 0\<rparr>"

definition zero_events :: application_events where
  "zero_events = \<lparr>ae_opened = False, ae_dataReady = False, ae_dataWrite = False,
     ae_readClosed = False, ae_writeClosed = False, ae_closed = False\<rparr>"

definition zero_nonce :: bytes where
  "zero_nonce = replicate 8 0"

definition nabto_stream_init :: "'m stream_module \<Rightarrow> 'm \<Rightarrow> 'm stream" where
  "nabto_stream_init md userData =
     nabto_stream_congestion_control_init
      \<lparr>st_module = md, st_user = userData, st_contentType = 0,
       st_maxSendSegmentSize = NABTO_STREAM_DEFAULT_MAX_SEGMENT_SIZE,
       st_maxRecvSegmentSize = NABTO_STREAM_DEFAULT_MAX_SEGMENT_SIZE,
       st_state = ST_IDLE, st_retransCount = 0, st_startSequenceNumber = 0,
       st_timeoutStamp = STAMP_INFINITE, st_segmentSentAfterTimeout = False,
       st_maxAdvertisedWindow = 0, st_timestampToEcho = 0, st_windowHasOpened = False,
       st_sendAck = False, st_imediateAck = False, st_logicalTimestamp = 0,
       st_segs = [FIN_SEG \<mapsto> zero_send_segment], st_nextSeg = 1,
       st_unacked = [], st_unackedSize = 0, st_sendList = [], st_sendListSize = 0,
       st_resendList = [], st_nextUnfilledSendSegment = None,
       st_sendSegmentAllocationStamp = STAMP_INFINITE, st_xmitMaxAllocated = 0,
       st_recvRead = [], st_recvWindow = [], st_recvSegmentAllocationStamp = STAMP_INFINITE,
       st_recvTop = 0, st_recvMax = 0, st_recvMaxAllocated = 0, st_cc = zero_cc,
       st_ccStats = \<lparr>cs_rtt = zero_stats, cs_cwnd = zero_stats, cs_ssThreshold = zero_stats,
                     cs_flightSize = zero_stats\<rparr>,
       st_events = zero_events, st_hasCallback = False, st_receivedBytes = 0, st_sentBytes = 0,
       st_timeFirstMBReceived = 0, st_timeFirstMBSent = 0, st_reorderedOrLostSegments = 0,
       st_sentPackets = 0, st_receivedPackets = 0, st_reorderedOrLostPackets = 0,
       st_lastLostPacketSeq = 0, st_timeouts = 0, st_streamStart = STAMP_NOW,
       st_disableReplayProtection = False, st_nonce = zero_nonce, st_sendNonce = False,
       st_nonceValidated = False\<rparr>"

definition nabto_stream_init_initiator :: "'m stream \<Rightarrow> 'm stream" where
  "nabto_stream_init_initiator st = st\<lparr>st_nonceValidated := True\<rparr>"

definition nabto_stream_init_responder :: "bytes \<Rightarrow> 'm stream \<Rightarrow> 'm stream" where
  "nabto_stream_init_responder nonce st = st\<lparr>st_nonceValidated := False, st_nonce := take 8 nonce\<rparr>"

fun destroy_unacked :: "seg_addr list \<Rightarrow> 'm stream \<Rightarrow> 'm stream" where
  "destroy_unacked [] st = st"
| "destroy_unacked (a # it) st =
     (let st = nabto_stream_remove_segment_from_unacked_list a st;
          st = nabto_stream_remove_segment_from_resend_list a st
      in destroy_unacked it (nabto_stream_free_send_segment a st))"

fun destroy_sendList :: "seg_addr list \<Rightarrow> 'm stream \<Rightarrow> 'm stream" where
  "destroy_sendList [] st = st"
| "destroy_sendList (a # it) st =
     (let st = nabto_stream_remove_segment_from_send_list a st
      in destroy_sendList it (nabto_stream_free_send_segment a st))"

fun destroy_recvRead :: "recv_segment list \<Rightarrow> 'm stream \<Rightarrow> 'm stream" where
  "destroy_recvRead [] st = st"
| "destroy_recvRead (s # it) st =
     destroy_recvRead it (nabto_stream_free_recv_segment s (st\<lparr>st_recvRead := tl (st_recvRead st)\<rparr>))"

fun destroy_recvWindow :: "recv_segment list \<Rightarrow> 'm stream \<Rightarrow> 'm stream" where
  "destroy_recvWindow [] st = st"
| "destroy_recvWindow (s # it) st =
     destroy_recvWindow it (nabto_stream_free_recv_segment s (st\<lparr>st_recvWindow := tl (st_recvWindow st)\<rparr>))"

definition nabto_stream_destroy :: "'m stream \<Rightarrow> 'm stream" where
  "nabto_stream_destroy st =
     (let st = destroy_unacked (st_unacked st) st;
          st = destroy_sendList (st_sendList st) st;
          st = destroy_recvRead (st_recvRead st) st;
          st = destroy_recvWindow (st_recvWindow st) st
      in (case st_nextUnfilledSendSegment st of
            None \<Rightarrow> st
          | Some a \<Rightarrow> (nabto_stream_free_send_segment a st)\<lparr>st_nextUnfilledSendSegment := None\<rparr>))"

definition nabto_stream_set_start_sequence_number :: "u32 \<Rightarrow> 'm stream \<Rightarrow> 'm stream" where
  "nabto_stream_set_start_sequence_number seq st = st\<lparr>st_startSequenceNumber := seq\<rparr>"

section \<open>Events\<close>

definition nabto_stream_can_write :: "'m stream \<Rightarrow> nat" where
  "nabto_stream_can_write st =
     (if st_nextUnfilledSendSegment st = None then 0
      else if nabto_stream_sequence_less_equal (st_xmitMaxAllocated st) (st_maxAdvertisedWindow st) \<and>
              nabto_stream_congestion_control_accept_more_data st
      then unat (st_maxSendSegmentSize st)
      else 0)"

definition can_send_head :: "'m stream \<Rightarrow> seg_addr list \<Rightarrow> bool" where
  "can_send_head st as = (case as of [] \<Rightarrow> False
     | a # _ \<Rightarrow> nabto_stream_congestion_control_can_send st \<and>
                nabto_stream_flow_control_can_send st (ss_seq (send_seg st a)))"

definition any_application_event :: "application_events \<Rightarrow> bool" where
  "any_application_event e \<longleftrightarrow> ae_opened e \<or> ae_dataReady e \<or> ae_dataWrite e \<or> ae_readClosed e \<or>
     ae_writeClosed e \<or> ae_closed e"

definition nabto_stream_next_event_to_handle :: "'m stream \<Rightarrow> stream_event \<times> 'm stream" where
  "nabto_stream_next_event_to_handle st =
     (let st = (if is_future (st_sendSegmentAllocationStamp st)
                then nabto_stream_allocate_next_send_segment st else st);
          st = (if is_future (st_recvSegmentAllocationStamp st)
                then snd (nabto_stream_allocate_next_recv_segment st) else st);
          passed = nabto_stream_is_stamp_passed st (st_timeoutStamp st);
          sending = st_state st \<in> {ST_ESTABLISHED, ST_FIN_WAIT_1, ST_CLOSE_WAIT, ST_LAST_ACK, ST_CLOSING}
      in (
        if st_state st = ST_IDLE then ET_NOTHING
        else if st_state st = ST_ACCEPT then ET_ACCEPT
        else if st_state st = ST_WAIT_ACCEPT then ET_NOTHING
        else if st_state st = ST_SYN_SENT \<and> passed then ET_SYN
        else if st_state st = ST_SYN_RCVD \<and> passed then ET_SYN_ACK
        else if sending \<and> can_send_head st (st_resendList st) then ET_DATA
        else if sending \<and> can_send_head st (st_sendList st) then ET_DATA
        else if sending \<and> st_unacked st \<noteq> [] \<and> passed then ET_TIMEOUT
        else if st_state st \<in> {ST_ESTABLISHED, ST_FIN_WAIT_1, ST_FIN_WAIT_2, ST_CLOSING,
                               ST_TIME_WAIT, ST_CLOSE_WAIT, ST_LAST_ACK} \<and>
                (st_sendAck st \<or> st_windowHasOpened st \<or> st_imediateAck st) then ET_ACK
        else if st_state st = ST_ABORTED then ET_RST
        else if any_application_event (st_events st) then ET_APPLICATION_EVENT
        else if st_state st \<in> {ST_ESTABLISHED, ST_FIN_WAIT_2, ST_CLOSE_WAIT} \<and>
                st_unacked st = [] \<and> st_recvSegmentAllocationStamp st = STAMP_INFINITE \<and>
                st_sendSegmentAllocationStamp st = STAMP_INFINITE then ET_NOTHING
        else if st_state st = ST_TIME_WAIT then ET_TIME_WAIT
        else if st_state st \<ge> ST_CLOSED then ET_CLOSED
        else ET_WAIT, st))"

definition nabto_stream_get_future_stamp_backoff :: "'m stream \<Rightarrow> stream_stamp" where
  "nabto_stream_get_future_stamp_backoff st =
     (let factor = (if st_retransCount st \<le> 4 then push_bit (unat (st_retransCount st)) 1 else 16)
      in nabto_stream_get_future_stamp st (of_nat (NABTO_STREAM_DEFAULT_TIMEOUT * factor)))"

definition nabto_stream_event_handled :: "stream_event \<Rightarrow> 'm stream \<Rightarrow> 'm stream" where
  "nabto_stream_event_handled eventType st = (case eventType of
     ET_ACCEPT \<Rightarrow> (if st_state st = ST_ACCEPT then SET_STATE ST_WAIT_ACCEPT st else st)
   | ET_SYN \<Rightarrow> st\<lparr>st_timeoutStamp := nabto_stream_get_future_stamp_backoff st,
                   st_retransCount := st_retransCount st + 1\<rparr>
   | ET_SYN_ACK \<Rightarrow> st\<lparr>st_timeoutStamp := nabto_stream_get_future_stamp_backoff st,
                       st_retransCount := st_retransCount st + 1\<rparr>
   | ET_ACK \<Rightarrow> st\<lparr>st_imediateAck := False, st_sendAck := False\<rparr>
   | ET_DATA \<Rightarrow> st\<lparr>st_imediateAck := False,
                    st_timeoutStamp := nabto_stream_get_future_stamp st (cc_rto (st_cc st)),
                    st_sendAck := False, st_segmentSentAfterTimeout := True\<rparr>
   | ET_TIMEOUT \<Rightarrow>
       (if st_unacked st \<noteq> []
        then st\<lparr>st_timeoutStamp := nabto_stream_get_future_stamp st (cc_rto (st_cc st))\<rparr>
        else st\<lparr>st_timeoutStamp := STAMP_INFINITE\<rparr>)
   | ET_RST \<Rightarrow> SET_STATE ST_ABORTED_RST st
   | ET_TIME_WAIT \<Rightarrow> SET_STATE ST_CLOSED st
   | _ \<Rightarrow> st)"

section \<open>Retransmission\<close>

text \<open>The insertion loop: before the first segment of the resend list that is not smaller.\<close>

fun resend_insert :: "(seg_addr \<Rightarrow> u32) \<Rightarrow> seg_addr \<Rightarrow> seg_addr list \<Rightarrow> seg_addr list" where
  "resend_insert seq a [] = [a]"
| "resend_insert seq a (b # bs) =
     (if nabto_stream_sequence_less (seq b) (seq a) then b # resend_insert seq a bs
      else a # b # bs)"

definition nabto_stream_mark_segment_for_retransmission :: "seg_addr \<Rightarrow> 'm stream \<Rightarrow> 'm stream" where
  "nabto_stream_mark_segment_for_retransmission a st =
     (if a \<in> set (st_resendList st) then st
      else st\<lparr>st_resendList := resend_insert (\<lambda>b. ss_seq (send_seg st b)) a (st_resendList st)\<rparr>)"

fun clear_resend_loop :: "seg_addr list \<Rightarrow> 'm stream \<Rightarrow> 'm stream" where
  "clear_resend_loop [] st = st"
| "clear_resend_loop (a # it) st =
     clear_resend_loop it (nabto_stream_remove_segment_from_resend_list a st)"

definition nabto_stream_clear_resend_list :: "'m stream \<Rightarrow> 'm stream" where
  "nabto_stream_clear_resend_list st = clear_resend_loop (st_resendList st) st"

fun mark_all :: "seg_addr list \<Rightarrow> 'm stream \<Rightarrow> 'm stream" where
  "mark_all [] st = st"
| "mark_all (a # it) st = mark_all it (nabto_stream_mark_segment_for_retransmission a st)"

definition nabto_stream_handle_timeout :: "'m stream \<Rightarrow> 'm stream" where
  "nabto_stream_handle_timeout st =
     (let st = nabto_stream_clear_resend_list st;
          st = mark_all (st_unacked st) st;
          st = nabto_stream_congestion_control_timeout st
      in st\<lparr>st_segmentSentAfterTimeout := False\<rparr>)"

section \<open>Acknowledgements\<close>

definition nabto_stream_handle_ack_on_syn_ack :: "'m stream \<Rightarrow> 'm stream" where
  "nabto_stream_handle_ack_on_syn_ack st = SET_STATE ST_ESTABLISHED st"

definition nabto_stream_handle_ack_on_fin :: "'m stream \<Rightarrow> 'm stream" where
  "nabto_stream_handle_ack_on_fin st =
     (if st_state st = ST_FIN_WAIT_1 then SET_STATE ST_FIN_WAIT_2 st
      else if st_state st = ST_CLOSING then SET_STATE ST_TIME_WAIT st
      else if st_state st = ST_LAST_ACK then SET_STATE ST_CLOSED st
      else st)"

definition nabto_stream_add_fin_segment_to_send_lists :: "'m stream \<Rightarrow> 'm stream" where
  "nabto_stream_add_fin_segment_to_send_lists st =
     (let st = st\<lparr>st_xmitMaxAllocated := st_xmitMaxAllocated st + 1\<rparr>;
          st = set_seg FIN_SEG ((send_seg st FIN_SEG)
                 \<lparr>ss_seq := st_xmitMaxAllocated st, ss_state := B_DATA\<rparr>) st
      in add_to_send_list_end FIN_SEG st)"

definition nabto_stream_segment_has_been_acked :: "seg_addr \<Rightarrow> 'm stream \<Rightarrow> 'm stream" where
  "nabto_stream_segment_has_been_acked a st =
     nabto_stream_free_send_segment a
       (nabto_stream_remove_segment_from_unacked_list a
         (nabto_stream_remove_segment_from_resend_list a st))"

definition nabto_stream_handle_ack_iterator :: "seg_addr \<Rightarrow> u32 \<Rightarrow> 'm stream \<Rightarrow> 'm stream" where
  "nabto_stream_handle_ack_iterator a timestampEcho st =
     (let st = (if a = FIN_SEG then nabto_stream_handle_ack_on_fin st else st);
          st = update_congestion_control_receive_stats (send_seg st a) timestampEcho st;
          st = nabto_stream_congestion_control_handle_ack (send_seg st a) st;
          st = upd_events (\<lambda>e. e\<lparr>ae_dataWrite := True\<rparr>) st;
          st = nabto_stream_segment_has_been_acked a st
      in if st_unacked st = [] \<and> st_sendList st = [] then
           (if st_state st \<in> {ST_FIN_WAIT_1, ST_LAST_ACK, ST_CLOSING} \<and>
               ss_state (send_seg st FIN_SEG) = B_IDLE
            then nabto_stream_add_fin_segment_to_send_lists st
            else st\<lparr>st_timeoutStamp := STAMP_INFINITE\<rparr>)
         else st)"

definition nabto_stream_handle_nack_iterator :: "seg_addr \<Rightarrow> u32 \<Rightarrow> 'm stream \<Rightarrow> 'm stream" where
  "nabto_stream_handle_nack_iterator a timestampEcho st =
     (if ss_logicalSentStamp (send_seg st a) < timestampEcho then
        (let st = set_seg a ((send_seg st a)\<lparr>ss_ackedAfter := ss_ackedAfter (send_seg st a) + 1\<rparr>) st
         in if ss_ackedAfter (send_seg st a) = 2 then
              (let st = congestion_control_adjust_ssthresh_after_triple_ack (send_seg st a) st;
                   st = st\<lparr>st_reorderedOrLostSegments := st_reorderedOrLostSegments st + 1\<rparr>;
                   st = (if st_lastLostPacketSeq st \<noteq> ss_packetSeqStamp (send_seg st a)
                         then st\<lparr>st_reorderedOrLostPackets := st_reorderedOrLostPackets st + 1,
                                 st_lastLostPacketSeq := ss_packetSeqStamp (send_seg st a)\<rparr>
                         else st)
               in nabto_stream_mark_segment_for_retransmission a st)
            else st)
      else st)"

definition nabto_stream_handle_rst :: "'m stream \<Rightarrow> 'm stream" where
  "nabto_stream_handle_rst st =
     (let state = st_state st in
      if state \<ge> ST_CLOSED then st
      else if (state = ST_LAST_ACK \<or> state = ST_CLOSING) \<and>
              ((st_unacked st = [] \<and> st_sendList st = []) \<or>
               (st_unacked st \<noteq> [] \<and> hd (st_unacked st) = FIN_SEG))
      then SET_STATE ST_CLOSED st
      else if state = ST_TIME_WAIT then SET_STATE ST_CLOSED st
      else SET_STATE ST_ABORTED_RST st)"

definition nabto_stream_is_closed :: "'m stream \<Rightarrow> bool" where
  "nabto_stream_is_closed st \<longleftrightarrow> st_state st = ST_CLOSED \<or> st_state st = ST_ABORTED"

section \<open>Receiving\<close>

definition min16 :: "u16 \<Rightarrow> u16 \<Rightarrow> u16" where
  "min16 x y = (if x < y then x else y)"

definition nabto_stream_handle_syn :: "stream_header \<Rightarrow> syn_request \<Rightarrow> 'm stream \<Rightarrow> 'm stream" where
  "nabto_stream_handle_syn hdr req st =
     (if st_state st = ST_IDLE then
        (let st = SET_STATE ST_ACCEPT st;
             st = st\<lparr>st_contentType := sr_contentType req,
               st_maxSendSegmentSize := min16 (st_maxSendSegmentSize st) (sr_maxRecvSegmentSize req),
               st_maxRecvSegmentSize := min16 (st_maxRecvSegmentSize st) (sr_maxSendSegmentSize req),
               st_recvMax := sr_seq req, st_recvMaxAllocated := sr_seq req, st_recvTop := sr_seq req,
               st_timestampToEcho := hd_timestampValue hdr\<rparr>
         in if \<not> st_disableReplayProtection st then
              (if \<not> sr_hasNonceCapability req then st\<lparr>st_disableReplayProtection := True\<rparr> else st)
            else st)
      else if st_state st = ST_WAIT_ACCEPT then st
      else if st_state st = ST_SYN_RCVD then st\<lparr>st_timeoutStamp := STAMP_NOW\<rparr>
      else st)"

definition nabto_stream_handle_syn_ack ::
  "stream_header \<Rightarrow> syn_ack_request \<Rightarrow> 'm stream \<Rightarrow> 'm stream" where
  "nabto_stream_handle_syn_ack hdr req st =
     (let st = (if \<not> st_disableReplayProtection st then
                  (if \<not> sa_hasNonce req then st\<lparr>st_disableReplayProtection := True\<rparr>
                   else st\<lparr>st_sendNonce := True, st_nonce := sa_nonce req\<rparr>)
                else st)
      in if st_state st = ST_SYN_SENT then
           (let st = SET_STATE ST_ESTABLISHED st;
                st = st\<lparr>
                  st_maxSendSegmentSize := min16 (st_maxSendSegmentSize st) (sa_maxRecvSegmentSize req),
                  st_maxRecvSegmentSize := min16 (st_maxRecvSegmentSize st) (sa_maxSendSegmentSize req),
                  st_imediateAck := True,
                  st_recvMax := sa_seq req, st_recvMaxAllocated := sa_seq req, st_recvTop := sa_seq req,
                  st_timestampToEcho := hd_timestampValue hdr\<rparr>;
                st = nabto_stream_allocate_next_send_segment st
            in snd (nabto_stream_allocate_next_recv_segment st))
         else if st_state st = ST_ESTABLISHED then st\<lparr>st_imediateAck := True\<rparr>
         else st)"

definition nabto_stream_get_recv_window_size :: "'m stream \<Rightarrow> u32" where
  "nabto_stream_get_recv_window_size st =
     (if is_future (st_recvSegmentAllocationStamp st) then 0
      else let used = st_recvMax st - st_recvTop st in
        if used \<ge> NABTO_STREAM_MAX_RECV_SEGMENTS then 0
        else NABTO_STREAM_MAX_RECV_SEGMENTS - used)"

text \<open>
  The allocation loop of \<open>nabto_stream_find_recv_buffer\<close>.  Its distance to \<open>seq\<close> shrinks by one with
  each segment, so it ends.
\<close>

lemma sequence_less_distance:
  assumes "nabto_stream_sequence_less a s"
  shows "unat (s - (a + 1)) < unat (s - a)"
proof -
  have "s - a \<noteq> 0" using assms by auto
  then have "unat (s - a) \<noteq> 0" by (simp add: unat_eq_0)
  moreover have "s - (a + 1) = (s - a) - 1" by simp
  ultimately show ?thesis
    by (simp only: unat_diff_u32) simp
qed

lemma allocate_next_recv_segment_max:
  "nabto_stream_allocate_next_recv_segment st = (True, st') \<Longrightarrow>
   st_recvMaxAllocated st' = st_recvMaxAllocated st + 1"
  by (auto simp: nabto_stream_allocate_next_recv_segment_def Let_def split: prod.splits option.splits)

function find_recv_alloc :: "u32 \<Rightarrow> 'm stream \<Rightarrow> bool \<times> 'm stream" where
  "find_recv_alloc seq st =
     (if nabto_stream_sequence_less (st_recvMaxAllocated st) seq then
        (case nabto_stream_allocate_next_recv_segment st of
           (True, st') \<Rightarrow> find_recv_alloc seq st'
         | (False, st') \<Rightarrow> (False, st'))
      else (True, st))"
  by pat_completeness auto
termination
  by (relation "measure (\<lambda>(seq, st). unat (seq - st_recvMaxAllocated st))")
     (auto simp: sequence_less_distance allocate_next_recv_segment_max [OF sym])

declare find_recv_alloc.simps [simp del]

fun find_seq :: "u32 \<Rightarrow> recv_segment list \<Rightarrow> nat option" where
  "find_seq seq [] = None"
| "find_seq seq (s # ss) =
     (if seq = rs_seq s then Some 0 else map_option Suc (find_seq seq ss))"

text \<open>The segment found is given by its index in \<open>st_recvWindow\<close>.\<close>

definition nabto_stream_find_recv_buffer :: "u32 \<Rightarrow> 'm stream \<Rightarrow> nat option \<times> 'm stream" where
  "nabto_stream_find_recv_buffer seq st =
     (if nabto_stream_sequence_less (st_recvMax st + nabto_stream_get_recv_window_size st) seq
      then (None, st)
      else (case find_recv_alloc seq st of
              (False, st) \<Rightarrow> (None, st)
            | (True, st) \<Rightarrow> (find_seq seq (st_recvWindow st), st)))"

fun move_recv_loop :: "recv_segment list \<Rightarrow> 'm stream \<Rightarrow> 'm stream" where
  "move_recv_loop [] st = st"
| "move_recv_loop (s # it) st =
     (if rs_state s = RB_DATA then
        (let st = st\<lparr>st_recvWindow := tl (st_recvWindow st), st_recvRead := st_recvRead st @ [s],
                    st_recvTop := rs_seq s\<rparr>
         in move_recv_loop it (upd_events (\<lambda>e. e\<lparr>ae_dataReady := True\<rparr>) st))
      else st)"

definition move_segments_from_recv_window_to_recv_read :: "'m stream \<Rightarrow> 'm stream" where
  "move_segments_from_recv_window_to_recv_read st = move_recv_loop (st_recvWindow st) st"

definition nabto_stream_handle_fin :: "u32 \<Rightarrow> 'm stream \<Rightarrow> 'm stream" where
  "nabto_stream_handle_fin seq st =
     (let state = st_state st in
      if state \<in> {ST_ESTABLISHED, ST_FIN_WAIT_1, ST_FIN_WAIT_2} then
        (case nabto_stream_find_recv_buffer seq st of
           (None, st) \<Rightarrow> st
         | (Some i, st) \<Rightarrow>
            (let segment = (st_recvWindow st ! i)\<lparr>rs_isFin := True, rs_state := RB_DATA, rs_used := 0\<rparr>;
                 st = st\<lparr>st_recvWindow := (st_recvWindow st)[i := segment],
                         st_recvMax := nabto_stream_sequence_max (st_recvMax st) seq,
                         st_imediateAck := True\<rparr>;
                 st = move_segments_from_recv_window_to_recv_read st
             in if state = ST_ESTABLISHED then SET_STATE ST_CLOSE_WAIT st
                else if st_state st = ST_FIN_WAIT_1 then SET_STATE ST_CLOSING st
                else if st_state st = ST_FIN_WAIT_2 then SET_STATE ST_TIME_WAIT st
                else st))
      else st\<lparr>st_imediateAck := True\<rparr>)"

definition nabto_stream_handle_data :: "u32 \<Rightarrow> bytes \<Rightarrow> 'm stream \<Rightarrow> 'm stream" where
  "nabto_stream_handle_data seq data st =
     (if unat (st_maxRecvSegmentSize st) < length data then st
      else if st_state st \<in> {ST_ESTABLISHED, ST_CLOSE_WAIT, ST_FIN_WAIT_1, ST_FIN_WAIT_2} then
        (if nabto_stream_sequence_less (st_recvTop st) seq then
           (case nabto_stream_find_recv_buffer seq st of
              (None, st) \<Rightarrow> st\<lparr>st_imediateAck := True\<rparr>
            | (Some i, st) \<Rightarrow>
               (let recvBuffer = st_recvWindow st ! i in
                if rs_state recvBuffer \<noteq> RB_IDLE then st\<lparr>st_imediateAck := True\<rparr>
                else
                 (let recvBuffer = recvBuffer\<lparr>rs_state := RB_DATA, rs_size := of_nat (length data),
                        rs_used := 0, rs_buf := data @ drop (length data) (rs_buf recvBuffer)\<rparr>;
                      st = st\<lparr>st_recvWindow := (st_recvWindow st)[i := recvBuffer],
                              st_receivedBytes := st_receivedBytes st + of_nat (length data)\<rparr>;
                      st = (if st_timeFirstMBReceived st = 0 \<and> 1048576 \<le> st_receivedBytes st
                            then st\<lparr>st_timeFirstMBReceived := nabto_stream_get_duration st\<rparr> else st);
                      st = st\<lparr>st_recvMax := nabto_stream_sequence_max (st_recvMax st) seq,
                              st_imediateAck := True\<rparr>
                  in move_segments_from_recv_window_to_recv_read st)))
         else st\<lparr>st_imediateAck := True\<rparr>)
      else st)"

text \<open>
  The last segment of the receive window that holds data, as the reversed list of the window from
  there on.
\<close>

definition nabto_stream_recv_max_segment :: "'m stream \<Rightarrow> recv_segment list" where
  "nabto_stream_recv_max_segment st = dropWhile (\<lambda>s. rs_state s = RB_IDLE) (rev (st_recvWindow st))"

section \<open>Timers and the application\<close>

definition nabto_stream_next_event :: "'m stream \<Rightarrow> stream_stamp" where
  "nabto_stream_next_event st =
     (let m = STAMP_INFINITE;
          m = nabto_stream_stamp_less_of m (st_timeoutStamp st);
          m = nabto_stream_stamp_less_of m (st_recvSegmentAllocationStamp st)
      in nabto_stream_stamp_less_of m (st_sendSegmentAllocationStamp st))"

text \<open>The event handed to the callback, if any.\<close>

definition nabto_stream_dispatch_event :: "'m stream \<Rightarrow> application_event option \<times> 'm stream" where
  "nabto_stream_dispatch_event st =
     (let e = st_events st in
      if \<not> st_hasCallback st then (None, st)
      else if ae_opened e then (Some AE_OPENED, upd_events (\<lambda>e. e\<lparr>ae_opened := False\<rparr>) st)
      else if ae_dataReady e then (Some AE_DATA_READY, upd_events (\<lambda>e. e\<lparr>ae_dataReady := False\<rparr>) st)
      else if ae_dataWrite e then (Some AE_DATA_WRITE, upd_events (\<lambda>e. e\<lparr>ae_dataWrite := False\<rparr>) st)
      else if ae_readClosed e then (Some AE_READ_CLOSED, upd_events (\<lambda>e. e\<lparr>ae_readClosed := False\<rparr>) st)
      else if ae_writeClosed e then (Some AE_WRITE_CLOSED, upd_events (\<lambda>e. e\<lparr>ae_writeClosed := False\<rparr>) st)
      else if ae_closed e then (Some AE_CLOSED, upd_events (\<lambda>e. e\<lparr>ae_closed := False\<rparr>) st)
      else (None, st))"

definition nabto_stream_connection_died :: "'m stream \<Rightarrow> 'm stream" where
  "nabto_stream_connection_died st =
     (if st_state st = ST_LAST_ACK then SET_STATE ST_CLOSED st
      else if st_state st < ST_CLOSED then SET_STATE ST_ABORTED_RST st
      else st)"

end
