(* ===== verification/Stream_Packet.thy ===== *)
theory Stream_Packet
  imports Stream_Window
begin

text \<open>
  Packets of src/components/streaming/src/nabto_stream_packet.c: the bounded reads and writes,
  the extension lists, the parsers of syn, syn|ack and ack packets, and the creation of packets.
\<close>

section \<open>Protocol constants\<close>

abbreviation (input) NABTO_STREAM_FLAG_ACK :: u8 where "NABTO_STREAM_FLAG_ACK \<equiv> 0x10"
abbreviation (input) NABTO_STREAM_FLAG_RST :: u8 where "NABTO_STREAM_FLAG_RST \<equiv> 0x20"
abbreviation (input) NABTO_STREAM_FLAG_SYN :: u8 where "NABTO_STREAM_FLAG_SYN \<equiv> 0x80"
abbreviation (input) NABTO_STREAM_FLAG_SYN_ACK :: u8 where "NABTO_STREAM_FLAG_SYN_ACK \<equiv> 0x90"

abbreviation (input) EXTENSION_SEGMENT_SIZES :: u16 where "EXTENSION_SEGMENT_SIZES \<equiv> 0x1000"
abbreviation (input) EXTENSION_ACK :: u16 where "EXTENSION_ACK \<equiv> 0x1001"
abbreviation (input) EXTENSION_DATA :: u16 where "EXTENSION_DATA \<equiv> 0x1002"
abbreviation (input) EXTENSION_CONTENT_TYPE :: u16 where "EXTENSION_CONTENT_TYPE \<equiv> 0x1003"
abbreviation (input) EXTENSION_FIN :: u16 where "EXTENSION_FIN \<equiv> 0x1004"
abbreviation (input) EXTENSION_SYN :: u16 where "EXTENSION_SYN \<equiv> 0x1006"
abbreviation (input) EXTENSION_NONCE :: u16 where "EXTENSION_NONCE \<equiv> 0x1007"
abbreviation (input) EXTENSION_NONCE_RESPONSE :: u16 where "EXTENSION_NONCE_RESPONSE \<equiv> 0x1008"
abbreviation (input) EXTENSION_NONCE_CAPABILITY :: u16 where "EXTENSION_NONCE_CAPABILITY \<equiv> 0x1009"

abbreviation (input) NABTO_STREAM_NONCE_SIZE :: nat where "NABTO_STREAM_NONCE_SIZE \<equiv> 8"
abbreviation (input) NABTO_STREAM_DATA_OVERHEAD :: nat where "NABTO_STREAM_DATA_OVERHEAD \<equiv> 8"
abbreviation (input) MAX_ACK_GAP_BLOCKS :: nat where "MAX_ACK_GAP_BLOCKS \<equiv> 64"

section \<open>Reads and writes\<close>

text \<open>A read pointer is \<open>None\<close> for null, otherwise the bytes from there to the end.\<close>

type_synonym rptr = "bytes option"

definition nabto_stream_read_uint8 :: "rptr \<Rightarrow> (u8 \<times> bytes) option" where
  "nabto_stream_read_uint8 p = (case p of
     Some (a # r) \<Rightarrow> Some (a, r) | _ \<Rightarrow> None)"

definition nabto_stream_read_uint16 :: "rptr \<Rightarrow> (u16 \<times> bytes) option" where
  "nabto_stream_read_uint16 p = (case p of
     Some (a # b # r) \<Rightarrow> Some (of_be16 a b, r) | _ \<Rightarrow> None)"

definition nabto_stream_read_uint32 :: "rptr \<Rightarrow> (u32 \<times> bytes) option" where
  "nabto_stream_read_uint32 p = (case p of
     Some (a # b # c # d # r) \<Rightarrow> Some (of_be32 a b c d, r) | _ \<Rightarrow> None)"

definition nabto_stream_read_nonce :: "rptr \<Rightarrow> (bytes \<times> bytes) option" where
  "nabto_stream_read_nonce p = (case p of None \<Rightarrow> None
     | Some r \<Rightarrow> if length r < NABTO_STREAM_NONCE_SIZE then None
                else Some (take NABTO_STREAM_NONCE_SIZE r, drop 8 r))"

definition nabto_stream_write_uint8 :: "u8 \<Rightarrow> wptr \<Rightarrow> wptr" where
  "nabto_stream_write_uint8 v = wput [v]"

definition nabto_stream_write_uint16 :: "u16 \<Rightarrow> wptr \<Rightarrow> wptr" where
  "nabto_stream_write_uint16 v = wput (be16 v)"

definition nabto_stream_write_uint32 :: "u32 \<Rightarrow> wptr \<Rightarrow> wptr" where
  "nabto_stream_write_uint32 v = wput (be32 v)"

definition nabto_stream_write_nonce :: "bytes \<Rightarrow> wptr \<Rightarrow> wptr" where
  "nabto_stream_write_nonce nonce = wput (take 8 nonce)"

definition nabto_stream_encode_buffer :: "bytes \<Rightarrow> wptr \<Rightarrow> wptr" where
  "nabto_stream_encode_buffer buffer = wput buffer"

lemmas stream_write_defs = nabto_stream_write_uint8_def nabto_stream_write_uint16_def
  nabto_stream_write_uint32_def nabto_stream_write_nonce_def nabto_stream_encode_buffer_def

section \<open>Extension lists\<close>

text \<open>The type, the payload of the extension and the bytes after it.\<close>

definition nabto_stream_read_extension_header :: "bytes \<Rightarrow> (u16 \<times> bytes \<times> bytes) option" where
  "nabto_stream_read_extension_header ptr =
     (case nabto_stream_read_uint16 (Some ptr) of
        None \<Rightarrow> None
      | Some (type, ptr) \<Rightarrow>
         (case nabto_stream_read_uint16 (Some ptr) of
            None \<Rightarrow> None
          | Some (len, ptr) \<Rightarrow>
             if length ptr < unat len then None
             else Some (type, take (unat len) ptr, drop (unat len) ptr)))"

lemma read_extension_header_decreases [simp]:
  "nabto_stream_read_extension_header ptr = Some (type, ext, rest) \<Longrightarrow> length rest < length ptr"
  by (auto simp: nabto_stream_read_extension_header_def nabto_stream_read_uint16_def
      split: option.splits list.splits if_splits) arith

text \<open>
  The loop \<open>while (ptr < end)\<close> over the extensions that all the parsers have: \<open>f\<close> is its body
  after the header has been read, and the flag says whether the loop ran to the end of the packet
  instead of stopping at a truncated extension.
\<close>

function extension_loop :: "(u16 \<Rightarrow> bytes \<Rightarrow> 's \<Rightarrow> 's) \<Rightarrow> bytes \<Rightarrow> 's \<Rightarrow> bool \<times> 's" where
  "extension_loop f ptr s =
     (if ptr = [] then (True, s)
      else (case nabto_stream_read_extension_header ptr of
              None \<Rightarrow> (False, s)
            | Some (type, ext, rest) \<Rightarrow> extension_loop f rest (f type ext s)))"
  by pat_completeness auto
termination by (relation "measure (\<lambda>(f, ptr, s). length ptr)") auto

declare extension_loop.simps [simp del]

definition nabto_stream_extensions_well_formed :: "bytes \<Rightarrow> bool" where
  "nabto_stream_extensions_well_formed ptr = fst (extension_loop (\<lambda>_ _ s. s) ptr ())"

section \<open>Syn and syn|ack packets\<close>

definition parse_segment_sizes :: "bytes \<Rightarrow> (u16 \<times> u16) option" where
  "parse_segment_sizes ext = (case nabto_stream_read_uint16 (Some ext) of
     None \<Rightarrow> None
   | Some (sendSize, extPtr) \<Rightarrow> (case nabto_stream_read_uint16 (Some extPtr) of
       None \<Rightarrow> None
     | Some (recvSize, _) \<Rightarrow> Some (sendSize, recvSize)))"

definition parse_syn_extension :: "u16 \<Rightarrow> bytes \<Rightarrow> syn_request \<times> bool \<Rightarrow> syn_request \<times> bool" where
  "parse_syn_extension type ext s = (case s of (req, hasSeq) \<Rightarrow>
     if type = EXTENSION_CONTENT_TYPE then
       (case nabto_stream_read_uint32 (Some ext) of
          None \<Rightarrow> s | Some (contentType, _) \<Rightarrow> (req\<lparr>sr_contentType := contentType\<rparr>, hasSeq))
     else if type = EXTENSION_SEGMENT_SIZES then
       (case parse_segment_sizes ext of None \<Rightarrow> s
        | Some (sendSize, recvSize) \<Rightarrow>
           (req\<lparr>sr_maxSendSegmentSize := sendSize, sr_maxRecvSegmentSize := recvSize\<rparr>, hasSeq))
     else if type = EXTENSION_SYN then
       (case nabto_stream_read_uint32 (Some ext) of
          None \<Rightarrow> s | Some (seq, _) \<Rightarrow> (req\<lparr>sr_seq := seq\<rparr>, True))
     else if type = EXTENSION_NONCE_CAPABILITY then
       (req\<lparr>sr_hasNonceCapability := True\<rparr>, hasSeq)
     else s)"

definition nabto_stream_parse_syn :: "bytes \<Rightarrow> stream_header \<Rightarrow> 'm stream \<Rightarrow> 'm stream" where
  "nabto_stream_parse_syn ptr hdr st =
     (let req = \<lparr>sr_seq = 0, sr_contentType = 0,
            sr_maxSendSegmentSize = NABTO_STREAM_DEFAULT_MAX_SEGMENT_SIZE,
            sr_maxRecvSegmentSize = NABTO_STREAM_DEFAULT_MAX_SEGMENT_SIZE,
            sr_hasNonceCapability = False\<rparr>
      in case extension_loop parse_syn_extension ptr (req, False) of
           (False, _) \<Rightarrow> st
         | (True, req, hasSeq) \<Rightarrow>
             if \<not> hasSeq then st else nabto_stream_handle_syn hdr req st)"

record syn_ack_parse =
  sp_req :: syn_ack_request
  sp_hasSegmentSizes :: bool
  sp_hasSeq :: bool
  sp_badNonce :: bool

definition parse_syn_ack_extension :: "u16 \<Rightarrow> bytes \<Rightarrow> syn_ack_parse \<Rightarrow> syn_ack_parse" where
  "parse_syn_ack_extension type ext s =
     (if type = EXTENSION_SEGMENT_SIZES then
        (case parse_segment_sizes ext of None \<Rightarrow> s
         | Some (sendSize, recvSize) \<Rightarrow>
            s\<lparr>sp_req := (sp_req s)\<lparr>sa_maxSendSegmentSize := sendSize,
                                  sa_maxRecvSegmentSize := recvSize\<rparr>,
              sp_hasSegmentSizes := True\<rparr>)
      else if type = EXTENSION_SYN then
        (case nabto_stream_read_uint32 (Some ext) of None \<Rightarrow> s
         | Some (seq, _) \<Rightarrow> s\<lparr>sp_req := (sp_req s)\<lparr>sa_seq := seq\<rparr>, sp_hasSeq := True\<rparr>)
      else if type = EXTENSION_NONCE then
        (case nabto_stream_read_nonce (Some ext) of
           Some (nonce, _) \<Rightarrow> s\<lparr>sp_req := (sp_req s)\<lparr>sa_nonce := nonce, sa_hasNonce := True\<rparr>\<rparr>
         | None \<Rightarrow> s\<lparr>sp_badNonce := True\<rparr>)
      else s)"

section \<open>Ack packets\<close>

fun nabto_stream_ack_block ::
  "seg_addr list \<Rightarrow> u32 \<Rightarrow> u32 \<Rightarrow> 'm stream \<Rightarrow> seg_addr list \<times> 'm stream" where
  "nabto_stream_ack_block [] bottom tsEcr st = ([], st)"
| "nabto_stream_ack_block (a # it) bottom tsEcr st =
     (if nabto_stream_sequence_less bottom (ss_seq (send_seg st a))
      then nabto_stream_ack_block it bottom tsEcr (nabto_stream_handle_ack_iterator a tsEcr st)
      else (a # it, st))"

fun nabto_stream_nack_block ::
  "seg_addr list \<Rightarrow> u32 \<Rightarrow> u32 \<Rightarrow> 'm stream \<Rightarrow> seg_addr list \<times> 'm stream" where
  "nabto_stream_nack_block [] bottom tsEcr st = ([], st)"
| "nabto_stream_nack_block (a # it) bottom tsEcr st =
     (if nabto_stream_sequence_less bottom (ss_seq (send_seg st a))
      then nabto_stream_nack_block it bottom tsEcr (nabto_stream_handle_nack_iterator a tsEcr st)
      else (a # it, st))"

text \<open>The gap loop of \<open>nabto_stream_parse_ack_extension\<close>, for \<open>n\<close> gap blocks at \<open>ptr\<close>.\<close>

fun parse_gaps :: "nat \<Rightarrow> bytes \<Rightarrow> u32 \<Rightarrow> seg_addr list \<Rightarrow> u32 \<Rightarrow> 'm stream \<Rightarrow> seg_addr list \<times> 'm stream" where
  "parse_gaps 0 ptr ackTop it tsEcr st = (it, st)"
| "parse_gaps (Suc n) ptr ackTop it tsEcr st =
     (case nabto_stream_read_uint32 (Some ptr) of
        None \<Rightarrow> (it, st)
      | Some (ackGap, ptr) \<Rightarrow> (case nabto_stream_read_uint32 (Some ptr) of
          None \<Rightarrow> (it, st)
        | Some (nackGap, ptr) \<Rightarrow>
           (let nackTop = ackTop - ackGap;
                nackBottom = nackTop - nackGap;
                (it, st) = nabto_stream_ack_block it nackTop tsEcr st;
                (it, st) = nabto_stream_nack_block it nackBottom tsEcr st
            in parse_gaps n ptr nackBottom it tsEcr st)))"

fun ack_rest :: "seg_addr list \<Rightarrow> u32 \<Rightarrow> 'm stream \<Rightarrow> 'm stream" where
  "ack_rest [] tsEcr st = st"
| "ack_rest (a # it) tsEcr st = ack_rest it tsEcr (nabto_stream_handle_ack_iterator a tsEcr st)"

text \<open>The unacked segments up to \<open>maxAcked\<close>, the one with the highest number first.\<close>

definition ack_iterator :: "u32 \<Rightarrow> 'm stream \<Rightarrow> seg_addr list" where
  "ack_iterator maxAcked st =
     rev (takeWhile (\<lambda>a. nabto_stream_sequence_less_equal (ss_seq (send_seg st a)) maxAcked)
            (st_unacked st))"

definition read_ack_fields :: "bytes \<Rightarrow> (u32 \<times> u32 \<times> u32 \<times> bytes) option" where
  "read_ack_fields ptr = (case nabto_stream_read_uint32 (Some ptr) of None \<Rightarrow> None
     | Some (maxAcked, ptr) \<Rightarrow> (case nabto_stream_read_uint32 (Some ptr) of None \<Rightarrow> None
     | Some (windowSize, ptr) \<Rightarrow> (case nabto_stream_read_uint32 (Some ptr) of None \<Rightarrow> None
     | Some (tsEcr, ptr) \<Rightarrow> (case nabto_stream_read_uint32 (Some ptr) of None \<Rightarrow> None
     | Some (delay, ptr) \<Rightarrow> Some (maxAcked, windowSize, tsEcr, ptr)))))"

definition apply_window :: "u32 \<Rightarrow> u32 \<Rightarrow> stream_header \<Rightarrow> 'm stream \<Rightarrow> 'm stream" where
  "apply_window maxAcked windowSize hdr st =
     (if nabto_stream_logical_stamp_less_or_equal (st_timestampToEcho st) (hd_timestampValue hdr) then
        (let oldAdvertisedWindow = st_maxAdvertisedWindow st;
             st = st\<lparr>st_maxAdvertisedWindow := maxAcked + windowSize\<rparr>
         in if nabto_stream_sequence_less (st_maxAdvertisedWindow st) oldAdvertisedWindow
            then nabto_stream_flow_control_advertised_window_reduced st else st)
      else st)"

definition nabto_stream_parse_ack_extension :: "bytes \<Rightarrow> stream_header \<Rightarrow> 'm stream \<Rightarrow> 'm stream" where
  "nabto_stream_parse_ack_extension ext hdr st =
     (if length ext < 16 \<or> (length ext - 16) mod 8 \<noteq> 0 then st
      else
        (let st = (if st_state st = ST_SYN_RCVD then nabto_stream_handle_ack_on_syn_ack st else st)
         in case read_ack_fields ext of
              None \<Rightarrow> st
            | Some (maxAcked, windowSize, tsEcr, ptr) \<Rightarrow>
               (let st = apply_window maxAcked windowSize hdr st;
                    (it, st) = parse_gaps ((length ext - 16) div 8) ptr maxAcked
                                 (ack_iterator maxAcked st) tsEcr st
                in ack_rest it tsEcr st)))"

definition nabto_stream_parse_acking :: "bytes \<Rightarrow> stream_header \<Rightarrow> 'm stream \<Rightarrow> 'm stream" where
  "nabto_stream_parse_acking ptr hdr st =
     snd (extension_loop (\<lambda>type ext st.
            if type = EXTENSION_ACK then nabto_stream_parse_ack_extension ext hdr st else st) ptr st)"

definition nabto_stream_parse_syn_ack :: "bytes \<Rightarrow> stream_header \<Rightarrow> 'm stream \<Rightarrow> 'm stream" where
  "nabto_stream_parse_syn_ack ptr hdr st =
     (let req = \<lparr>sa_seq = 0, sa_maxSendSegmentSize = NABTO_STREAM_DEFAULT_MAX_SEGMENT_SIZE,
            sa_maxRecvSegmentSize = NABTO_STREAM_DEFAULT_MAX_SEGMENT_SIZE, sa_hasNonce = False,
            sa_nonce = zero_nonce\<rparr>;
          s = \<lparr>sp_req = req, sp_hasSegmentSizes = False, sp_hasSeq = False, sp_badNonce = False\<rparr>
      in case extension_loop parse_syn_ack_extension ptr s of
           (False, _) \<Rightarrow> st
         | (True, s) \<Rightarrow>
             if \<not> sp_hasSegmentSizes s \<or> \<not> sp_hasSeq s \<or> sp_badNonce s then st
             else nabto_stream_parse_acking ptr hdr (nabto_stream_handle_syn_ack hdr (sp_req s) st))"

definition nabto_stream_parse_nonce_response :: "bytes \<Rightarrow> 'm stream \<Rightarrow> 'm stream" where
  "nabto_stream_parse_nonce_response ptr st =
     snd (extension_loop (\<lambda>type ext st.
       if type = EXTENSION_NONCE_RESPONSE then
         (case nabto_stream_read_nonce (Some ext) of None \<Rightarrow> st
          | Some (nonce, _) \<Rightarrow>
             if nonce = st_nonce st then st\<lparr>st_nonceValidated := True\<rparr> else st)
       else st) ptr st)"

definition nabto_stream_parse_data_extension :: "bytes \<Rightarrow> 'm stream \<Rightarrow> 'm stream" where
  "nabto_stream_parse_data_extension ext st = (case nabto_stream_read_uint32 (Some ext) of
     None \<Rightarrow> st
   | Some (seq, data) \<Rightarrow> nabto_stream_handle_data seq data st)"

definition nabto_stream_parse_fin_extension :: "bytes \<Rightarrow> 'm stream \<Rightarrow> 'm stream" where
  "nabto_stream_parse_fin_extension ext st = (case nabto_stream_read_uint32 (Some ext) of
     None \<Rightarrow> st
   | Some (seq, _) \<Rightarrow> nabto_stream_handle_fin seq st)"

definition parse_ack_data_extension :: "u16 \<Rightarrow> bytes \<Rightarrow> 'm stream \<Rightarrow> 'm stream" where
  "parse_ack_data_extension type ext st =
     (if type = EXTENSION_DATA then nabto_stream_parse_data_extension ext st
      else if type = EXTENSION_FIN then nabto_stream_parse_fin_extension ext st
      else st)"

definition nabto_stream_parse_ack :: "bytes \<Rightarrow> stream_header \<Rightarrow> 'm stream \<Rightarrow> 'm stream" where
  "nabto_stream_parse_ack ptr hdr st =
     (let st = (if \<not> st_disableReplayProtection st then
                  (if \<not> st_nonceValidated st then nabto_stream_parse_nonce_response ptr st else st)
                else st)
      in if \<not> st_disableReplayProtection st \<and> \<not> st_nonceValidated st then st
         else snd (extension_loop parse_ack_data_extension ptr (nabto_stream_parse_acking ptr hdr st)))"

text \<open>A well formed packet is counted and its time stamp is remembered if it is newer.\<close>

definition packet_received :: "u32 \<Rightarrow> 'm stream \<Rightarrow> 'm stream" where
  "packet_received timestampValue st =
     (let st = st\<lparr>st_receivedPackets := st_receivedPackets st + 1\<rparr>
      in if nabto_stream_logical_stamp_less (st_timestampToEcho st) timestampValue
         then st\<lparr>st_timestampToEcho := timestampValue\<rparr> else st)"

definition nabto_stream_handle_packet :: "bytes \<Rightarrow> 'm stream \<Rightarrow> 'm stream" where
  "nabto_stream_handle_packet packet st = (case nabto_stream_read_uint8 (Some packet) of
     None \<Rightarrow> st
   | Some (flags, ptr) \<Rightarrow> (case nabto_stream_read_uint32 (Some ptr) of
       None \<Rightarrow> st
     | Some (timestampValue, ptr) \<Rightarrow>
        if \<not> nabto_stream_extensions_well_formed ptr then st
        else
          (let hdr = \<lparr>hd_flags = flags, hd_timestampValue = timestampValue\<rparr>;
               st = packet_received timestampValue st
           in if flags = NABTO_STREAM_FLAG_SYN then nabto_stream_parse_syn ptr hdr st
              else if flags = NABTO_STREAM_FLAG_SYN_ACK then nabto_stream_parse_syn_ack ptr hdr st
              else if flags = NABTO_STREAM_FLAG_ACK then nabto_stream_parse_ack ptr hdr st
              else if flags = NABTO_STREAM_FLAG_RST then nabto_stream_handle_rst st
              else st)))"

end
