(* ===== verification/Stream_Create.thy ===== *)
theory Stream_Create
  imports Stream_Packet
begin

text \<open>
  The packets the stream creates, src/components/streaming/src/nabto_stream_packet.c: syn, syn|ack,
  ack with data, rst, the ack extension with its gap blocks, and the segments written to a packet.
  A packet that could not be created is \<open>None\<close>, where the C code returns size 0.
\<close>

definition nabto_stream_write_header :: "u8 \<Rightarrow> u32 \<Rightarrow> wptr \<Rightarrow> wptr" where
  "nabto_stream_write_header type logicalTimestamp p =
     nabto_stream_write_uint32 logicalTimestamp (nabto_stream_write_uint8 type p)"

text \<open>The packet from the first byte of the buffer to the write pointer.\<close>

definition written :: "wptr \<Rightarrow> bytes option" where
  "written p = map_option fst p"

definition nabto_stream_create_syn_packet :: "nat \<Rightarrow> 'm stream \<Rightarrow> bytes option \<times> 'm stream" where
  "nabto_stream_create_syn_packet bufferSize st =
     (let (logicalTimestamp, st) = nabto_stream_logical_stamp_get st;
          ptr = Some ([], bufferSize);
          ptr = nabto_stream_write_header NABTO_STREAM_FLAG_SYN logicalTimestamp ptr;
          ptr = nabto_stream_write_uint16 EXTENSION_SYN ptr;
          ptr = nabto_stream_write_uint16 4 ptr;
          ptr = nabto_stream_write_uint32 (st_startSequenceNumber st) ptr;
          ptr = nabto_stream_write_uint16 EXTENSION_SEGMENT_SIZES ptr;
          ptr = nabto_stream_write_uint16 4 ptr;
          ptr = nabto_stream_write_uint16 (st_maxSendSegmentSize st) ptr;
          ptr = nabto_stream_write_uint16 (st_maxRecvSegmentSize st) ptr;
          ptr = nabto_stream_write_uint16 EXTENSION_CONTENT_TYPE ptr;
          ptr = nabto_stream_write_uint16 4 ptr;
          ptr = nabto_stream_write_uint32 (st_contentType st) ptr;
          ptr = (if \<not> st_disableReplayProtection st
                 then nabto_stream_write_uint16 0
                        (nabto_stream_write_uint16 EXTENSION_NONCE_CAPABILITY ptr)
                 else ptr)
      in case ptr of
           None \<Rightarrow> (None, st)
         | Some (w, room) \<Rightarrow>
             (Some w, st\<lparr>st_timeoutStamp :=
                        nabto_stream_get_future_stamp st (of_nat NABTO_STREAM_DEFAULT_TIMEOUT),
                        st_retransCount := st_retransCount st + 1\<rparr>))"

section \<open>The ack extension\<close>

type_synonym gap_block = "u32 \<times> u32"

text \<open>Fold block 1 into block 0 when there is no room for another one.\<close>

fun consolidate_gaps :: "gap_block list \<Rightarrow> gap_block list" where
  "consolidate_gaps ((a0, n0) # (a1, n1) # bs) = (a0, n0 + a1 + n1) # bs"
| "consolidate_gaps bs = bs"

definition rs_has_data :: "recv_segment \<Rightarrow> bool" where
  "rs_has_data s \<longleftrightarrow> rs_state s = RB_DATA"

lemma gap_iterator_decreases:
  assumes "it \<noteq> []"
  shows "length (dropWhile (Not \<circ> P) (dropWhile P it)) < length it"
proof (cases it)
  case (Cons s ss)
  show ?thesis
  proof (cases "P s")
    case True
    then show ?thesis
      using length_dropWhile_le [of "Not \<circ> P" "dropWhile P ss"] length_dropWhile_le [of P ss] Cons
      by simp
  next
    case False
    then show ?thesis
      using length_dropWhile_le [of "Not \<circ> P" ss] Cons by (simp add: o_def)
  qed
qed (use assms in simp)

text \<open>
  The gap loop; \<open>it\<close> is the window from the iterator downwards, so its first segment has data.
\<close>

function gap_blocks_loop :: "nat \<Rightarrow> recv_segment list \<Rightarrow> gap_block list \<Rightarrow> gap_block list" where
  "gap_blocks_loop maxGapBlocks it blocks =
     (if it = [] then blocks
      else let
        blocks = (if maxGapBlocks \<le> length blocks then consolidate_gaps blocks else blocks);
        ackGap = length (takeWhile rs_has_data it);
        it1 = dropWhile rs_has_data it;
        nackGap = length (takeWhile (Not \<circ> rs_has_data) it1);
        it2 = dropWhile (Not \<circ> rs_has_data) it1
      in gap_blocks_loop maxGapBlocks it2 (blocks @ [(of_nat ackGap, of_nat nackGap)]))"
  by pat_completeness auto

termination by (relation "measure (\<lambda>(_, it, _). length it)") (auto simp: gap_iterator_decreases)

declare gap_blocks_loop.simps [simp del]

fun write_gap_blocks :: "gap_block list \<Rightarrow> wptr \<Rightarrow> wptr" where
  "write_gap_blocks [] ptr = ptr"
| "write_gap_blocks ((ackGap, nackGap) # bs) ptr =
     write_gap_blocks bs (nabto_stream_write_uint32 nackGap (nabto_stream_write_uint32 ackGap ptr))"

text \<open>The two length bytes are stored at index \<open>i\<close>, where \<open>ackLength\<close> points.\<close>

definition patch_uint16 :: "nat \<Rightarrow> u16 \<Rightarrow> bytes \<Rightarrow> bytes" where
  "patch_uint16 i v w = w[i := byte_at 8 v, i + 1 := byte_at 0 v]"

definition nabto_stream_add_ack_extension :: "'m stream \<Rightarrow> wptr \<Rightarrow> wptr" where
  "nabto_stream_add_ack_extension st ptr =
     (let ptr = nabto_stream_write_uint16 EXTENSION_ACK ptr;
          ackLength = ptr;
          ptr = nabto_stream_write_uint16 0 ptr;
          extBegin = ptr;
          ptr = nabto_stream_write_uint32 (st_recvMax st) ptr;
          ptr = nabto_stream_write_uint32 (nabto_stream_get_recv_window_size st) ptr;
          ptr = nabto_stream_write_uint32 (st_timestampToEcho st) ptr;
          ptr = nabto_stream_write_uint32 0 ptr
      in case ptr of
           None \<Rightarrow> None
         | Some (w, room) \<Rightarrow>
            (let maxGapBlocks = (if room div 8 < MAX_ACK_GAP_BLOCKS then room div 8
                                 else MAX_ACK_GAP_BLOCKS)
             in if maxGapBlocks < 2 then None
                else
                  (let blocks = (if st_recvMax st \<noteq> st_recvTop st
                         then gap_blocks_loop maxGapBlocks (nabto_stream_recv_max_segment st) []
                         else [])
                   in case write_gap_blocks blocks ptr of
                        None \<Rightarrow> None
                      | Some (w, room) \<Rightarrow>
                         (let len = length w - length (fst (the extBegin))
                          in Some (patch_uint16 (length (fst (the ackLength))) (of_nat len) w, room)))))"

definition nabto_stream_create_syn_ack_packet :: "nat \<Rightarrow> 'm stream \<Rightarrow> bytes option \<times> 'm stream" where
  "nabto_stream_create_syn_ack_packet bufferSize st =
     (let (logicalTimestamp, st) = nabto_stream_logical_stamp_get st;
          ptr = Some ([], bufferSize);
          ptr = nabto_stream_write_header NABTO_STREAM_FLAG_SYN_ACK logicalTimestamp ptr;
          ptr = nabto_stream_add_ack_extension st ptr;
          ptr = nabto_stream_write_uint16 EXTENSION_SYN ptr;
          ptr = nabto_stream_write_uint16 4 ptr;
          ptr = nabto_stream_write_uint32 (st_startSequenceNumber st) ptr;
          ptr = nabto_stream_write_uint16 EXTENSION_SEGMENT_SIZES ptr;
          ptr = nabto_stream_write_uint16 4 ptr;
          ptr = nabto_stream_write_uint16 (st_maxSendSegmentSize st) ptr;
          ptr = nabto_stream_write_uint16 (st_maxRecvSegmentSize st) ptr;
          ptr = (if \<not> st_disableReplayProtection st
                 then nabto_stream_write_nonce (st_nonce st)
                        (nabto_stream_write_uint16 8 (nabto_stream_write_uint16 EXTENSION_NONCE ptr))
                 else ptr)
      in (written ptr, st))"

section \<open>Data\<close>

definition nabto_stream_write_segment ::
  "seg_addr \<Rightarrow> u32 \<Rightarrow> u32 \<Rightarrow> wptr \<times> 'm stream \<Rightarrow> wptr \<times> 'm stream" where
  "nabto_stream_write_segment a logicalTimestamp packetSeq s = (case s of (ptr, st) \<Rightarrow>
     (let current = send_seg st a;
          ptr = (if a = FIN_SEG then
                   (let ptr = nabto_stream_write_uint16 EXTENSION_FIN ptr;
                        ptr = nabto_stream_write_uint16 4 ptr
                    in nabto_stream_write_uint32 (ss_seq current) ptr)
                 else
                   (let ptr = nabto_stream_write_uint16 EXTENSION_DATA ptr;
                        ptr = nabto_stream_write_uint16 (ss_used current + 4) ptr;
                        ptr = nabto_stream_write_uint32 (ss_seq current) ptr
                    in nabto_stream_encode_buffer (take (unat (ss_used current)) (ss_buf current)) ptr))
      in (ptr, set_seg a (current\<lparr>ss_sentStamp := nabto_stream_get_stamp st,
                 ss_logicalSentStamp := logicalTimestamp, ss_packetSeqStamp := packetSeq,
                 ss_ackedAfter := 0\<rparr>) st)))"

definition wroom :: "wptr \<Rightarrow> nat" where
  "wroom p = (case p of None \<Rightarrow> 0 | Some (w, room) \<Rightarrow> room)"

text \<open>
  The bodies of the two loops of \<open>nabto_stream_write_data_to_packet\<close>: a segment from the resend list
  and a segment from the send list.
\<close>

definition write_resent_segment ::
  "seg_addr \<Rightarrow> u32 \<Rightarrow> u32 \<Rightarrow> wptr \<times> 'm stream \<Rightarrow> wptr \<times> 'm stream" where
  "write_resent_segment a ts packetSeq s =
     (let (ptr, st) = nabto_stream_write_segment a ts packetSeq s
      in (ptr, nabto_stream_remove_segment_from_resend_list a st))"

definition write_new_segment ::
  "seg_addr \<Rightarrow> u32 \<Rightarrow> u32 \<Rightarrow> wptr \<times> 'm stream \<Rightarrow> wptr \<times> 'm stream" where
  "write_new_segment a ts packetSeq s =
     (let (ptr, st) = nabto_stream_write_segment a ts packetSeq s;
          st = upd_cc (\<lambda>c. c\<lparr>cc_flightSize := cc_flightSize c + 1\<rparr>) st;
          st = nabto_stream_remove_segment_from_send_list a st
      in (ptr, add_to_unacked_list_end a st))"

text \<open>
  Both loops, over the segments that are in the list when the loop begins; the flag tells that the
  packet is full and the function returns.
\<close>

fun write_segments_loop ::
  "(seg_addr \<Rightarrow> wptr \<times> 'm stream \<Rightarrow> wptr \<times> 'm stream) \<Rightarrow> seg_addr list \<Rightarrow> nat \<Rightarrow>
   wptr \<times> 'm stream \<Rightarrow> bool \<times> nat \<times> wptr \<times> 'm stream" where
  "write_segments_loop write [] n s = (False, n, s)"
| "write_segments_loop write (a # as) n s =
     (if nabto_stream_flow_control_can_send (snd s) (ss_seq (send_seg (snd s) a)) then
        (if wroom (fst s) < unat (ss_used (send_seg (snd s) a)) + NABTO_STREAM_DATA_OVERHEAD
         then (True, n, s)
         else write_segments_loop write as (n + 1) (write a s))
      else (False, n, s))"

definition nabto_stream_write_data_to_packet ::
  "u32 \<Rightarrow> wptr \<Rightarrow> 'm stream \<Rightarrow> wptr \<times> nat \<times> 'm stream" where
  "nabto_stream_write_data_to_packet ts ptr st =
     (let packetSeq = st_sentPackets st + 1;
          (full, n, s) = write_segments_loop (\<lambda>a. write_resent_segment a ts packetSeq)
                           (st_resendList st) 0 (ptr, st);
          (full, n, s) = (if full then (full, n, s)
                          else write_segments_loop (\<lambda>a. write_new_segment a ts packetSeq)
                                 (st_sendList (snd s)) n s);
          st = (if 0 < n then (snd s)\<lparr>st_sentPackets := packetSeq\<rparr> else snd s)
      in (fst s, n, st))"

definition nabto_stream_add_nonce_response_extension :: "'m stream \<Rightarrow> wptr \<Rightarrow> wptr" where
  "nabto_stream_add_nonce_response_extension st ptr =
     (let ptr = nabto_stream_write_uint16 EXTENSION_NONCE_RESPONSE ptr;
          ptr = nabto_stream_write_uint16 (of_nat NABTO_STREAM_NONCE_SIZE) ptr
      in nabto_stream_write_nonce (st_nonce st) ptr)"

definition nabto_stream_create_ack_packet :: "nat \<Rightarrow> 'm stream \<Rightarrow> bytes option \<times> 'm stream" where
  "nabto_stream_create_ack_packet bufferSize st =
     (let (logicalTimestamp, st) = nabto_stream_logical_stamp_get st;
          ptr = Some ([], bufferSize);
          ptr = nabto_stream_write_header NABTO_STREAM_FLAG_ACK logicalTimestamp ptr
      in if ptr = None then (None, st)
         else let
           ptr = (if st_sendNonce st then nabto_stream_add_nonce_response_extension st ptr else ptr);
           ptr = nabto_stream_add_ack_extension st ptr
         in if ptr = None then (None, st)
            else let
              st = st\<lparr>st_sendNonce := False\<rparr>;
              (ptr, segmentsWritten, st) = nabto_stream_write_data_to_packet logicalTimestamp ptr st;
              st = upd_cc (\<lambda>c. c\<lparr>cc_cwnd := sm_round (st_module st)
                     (cc_cwnd c - of_nat segmentsWritten)\<rparr>) st
            in (written ptr, st))"

definition nabto_stream_create_rst_packet :: "nat \<Rightarrow> bytes option" where
  "nabto_stream_create_rst_packet bufferSize =
     written (nabto_stream_write_header NABTO_STREAM_FLAG_RST 0 (Some ([], bufferSize)))"

definition nabto_stream_create_packet ::
  "nat \<Rightarrow> stream_event \<Rightarrow> 'm stream \<Rightarrow> bytes option \<times> 'm stream" where
  "nabto_stream_create_packet bufferSize eventType st = (case eventType of
     ET_SYN \<Rightarrow> nabto_stream_create_syn_packet bufferSize st
   | ET_SYN_ACK \<Rightarrow> nabto_stream_create_syn_ack_packet bufferSize st
   | ET_ACK \<Rightarrow> nabto_stream_create_ack_packet bufferSize st
   | ET_DATA \<Rightarrow> nabto_stream_create_ack_packet bufferSize st
   | ET_RST \<Rightarrow> (nabto_stream_create_rst_packet bufferSize, st)
   | _ \<Rightarrow> (None, st))"

end
