(* ===== verification/Stream_Api.thy ===== *)
theory Stream_Api
  imports Stream_Create
begin

text \<open>
  The operations of the application, src/components/streaming/src/nabto_stream.c: open, accept,
  write, read, close.
\<close>

definition nabto_stream_open :: "u32 \<Rightarrow> 'm stream \<Rightarrow> stream_status \<times> 'm stream" where
  "nabto_stream_open contentType st =
     (let st = SET_STATE ST_SYN_SENT st;
          st = st\<lparr>st_timeoutStamp := STAMP_NOW, st_xmitMaxAllocated := st_startSequenceNumber st,
                  st_contentType := contentType\<rparr>
      in (SS_OK, nabto_stream_module_notify_event ME_OPENED st))"

definition nabto_stream_accept :: "'m stream \<Rightarrow> stream_status \<times> 'm stream" where
  "nabto_stream_accept st =
     (if \<not> (st_state st = ST_WAIT_ACCEPT \<or> st_state st = ST_ACCEPT) then (SS_OK, st)
      else let
        st = st\<lparr>st_xmitMaxAllocated := st_startSequenceNumber st\<rparr>;
        st = nabto_stream_allocate_next_send_segment st;
        st = snd (nabto_stream_allocate_next_recv_segment st);
        st = SET_STATE ST_SYN_RCVD st
      in (SS_OK, nabto_stream_module_notify_event ME_ACCEPTED st))"

text \<open>One round of the loop of \<open>nabto_stream_write_buffer\<close>: the bytes put into segment \<open>a\<close>.\<close>

definition write_next_segment :: "seg_addr \<Rightarrow> bytes \<Rightarrow> 'm stream \<Rightarrow> nat \<times> 'm stream" where
  "write_next_segment a buffer st =
     (let st = st\<lparr>st_nextUnfilledSendSegment := None\<rparr>;
          st = nabto_stream_allocate_next_send_segment st;
          st = st\<lparr>st_xmitMaxAllocated := st_xmitMaxAllocated st + 1\<rparr>;
          sz = min (length buffer) (unat (st_maxSendSegmentSize st));
          segment = send_seg st a;
          segment = segment\<lparr>ss_seq := st_xmitMaxAllocated st,
            ss_buf := take sz buffer @ drop sz (ss_buf segment),
            ss_used := of_nat sz, ss_state := B_DATA\<rparr>;
          st = set_seg a segment st;
          st = (if st_timeoutStamp st = STAMP_INFINITE
                then st\<lparr>st_timeoutStamp := nabto_stream_get_future_stamp st (cc_rto (st_cc st))\<rparr>
                else st)
      in (sz, add_to_send_list_end a st))"

text \<open>
  The loop of \<open>nabto_stream_write_buffer\<close>, with fuel: \<open>None\<close> is a loop that has not ended.  It is
  entered with a positive segment size only, so every round takes at least one byte and one round
  more than there are bytes is enough.  The result has the number of bytes queued.
\<close>

fun write_buffer_loop :: "nat \<Rightarrow> bytes \<Rightarrow> nat \<Rightarrow> 'm stream \<Rightarrow> (nat \<times> 'm stream) option" where
  "write_buffer_loop 0 buffer queued st = None"
| "write_buffer_loop (Suc fuel) buffer queued st =
     (if buffer = [] then Some (queued, st)
      else (case st_nextUnfilledSendSegment st of
          None \<Rightarrow> Some (queued, st)
        | Some a \<Rightarrow>
           (case write_next_segment a buffer st of
              (sz, st') \<Rightarrow> write_buffer_loop fuel (drop sz buffer) (queued + sz) st')))"

definition nabto_stream_write_buffer ::
  "bytes \<Rightarrow> 'm stream \<Rightarrow> (stream_status \<times> nat \<times> 'm stream) option" where
  "nabto_stream_write_buffer buffer st =
     (if st_state st = ST_ABORTED \<or> st_state st = ST_ABORTED_RST then Some (SS_ABORTED, 0, st)
      else if \<not> (st_state st = ST_ESTABLISHED \<or> st_state st = ST_CLOSE_WAIT \<or> st_state st = ST_SYN_RCVD)
      then Some (SS_CLOSED, 0, st)
      else (case (if 0 < nabto_stream_can_write st
                  then write_buffer_loop (length buffer + 1) buffer 0 st
                  else Some (0, st)) of
          None \<Rightarrow> None
        | Some (queued, st) \<Rightarrow>
           (let st = (if queued \<noteq> 0 then nabto_stream_module_notify_event ME_DATA_WRITTEN st else st);
                st = st\<lparr>st_sentBytes := st_sentBytes st + of_nat queued\<rparr>;
                st = (if st_timeFirstMBSent st = 0 \<and> 1048576 \<le> st_sentBytes st
                      then st\<lparr>st_timeFirstMBSent := nabto_stream_get_duration st\<rparr> else st)
            in Some (SS_OK, queued, st))))"

definition nabto_stream_has_more_read_data :: "'m stream \<Rightarrow> bool" where
  "nabto_stream_has_more_read_data st =
     (if st_state st = ST_ABORTED \<or> st_state st = ST_ABORTED_RST then False
      else (case st_recvRead st of [] \<Rightarrow> False | s # _ \<Rightarrow> \<not> rs_isFin s))"

text \<open>The status, the bytes copied to the buffer and the stream.\<close>

definition nabto_stream_read_buffer_once :: "nat \<Rightarrow> 'm stream \<Rightarrow> stream_status \<times> bytes \<times> 'm stream" where
  "nabto_stream_read_buffer_once bufferSize st =
     (if st_state st = ST_ABORTED \<or> st_state st = ST_ABORTED_RST then (SS_ABORTED, [], st)
      else (case st_recvRead st of
          [] \<Rightarrow> (if st_state st \<ge> ST_CLOSED then (SS_CLOSED, [], st) else (SS_OK, [], st))
        | segment # rest \<Rightarrow>
           if rs_isFin segment then (SS_EOF, [], st)
           else
            (let avail = min (unat (rs_size segment - rs_used segment)) bufferSize;
                 data = take avail (drop (unat (rs_used segment)) (rs_buf segment));
                 segment = segment\<lparr>rs_used := rs_used segment + of_nat avail\<rparr>;
                 st = st\<lparr>st_recvRead := segment # rest\<rparr>;
                 st = (if rs_size segment = rs_used segment
                       then nabto_stream_module_notify_event ME_DATA_READ
                              (nabto_stream_free_recv_segment segment (st\<lparr>st_recvRead := rest\<rparr>))
                       else st)
             in (SS_OK, data, st))))"

text \<open>
  The loop of \<open>nabto_stream_read_buffer\<close>.  Each round but the last removes a segment, so one round
  more than there are segments is enough.
\<close>

fun read_buffer_loop :: "nat \<Rightarrow> nat \<Rightarrow> 'm stream \<Rightarrow> stream_status \<times> bytes \<times> 'm stream" where
  "read_buffer_loop 0 bufferSize st = (SS_OK, [], st)"
| "read_buffer_loop (Suc fuel) bufferSize st =
     (case nabto_stream_read_buffer_once bufferSize st of
        (status, data, st) \<Rightarrow>
          if status = SS_OK \<and> nabto_stream_has_more_read_data st \<and> 0 < bufferSize - length data
          then (case read_buffer_loop fuel (bufferSize - length data) st of
                  (status, data2, st) \<Rightarrow> (status, data @ data2, st))
          else (status, data, st))"

definition nabto_stream_read_buffer :: "nat \<Rightarrow> 'm stream \<Rightarrow> stream_status \<times> bytes \<times> 'm stream" where
  "nabto_stream_read_buffer bufferSize st =
     read_buffer_loop (length (st_recvRead st) + 1) bufferSize st"

definition nabto_stream_close :: "'m stream \<Rightarrow> stream_status \<times> 'm stream" where
  "nabto_stream_close st =
     (let state = st_state st in
      if state = ST_IDLE then (SS_INVALID_STATE, st)
      else if state = ST_ABORTED_RST \<or> state = ST_ABORTED then (SS_ABORTED, st)
      else let
        st = (if state = ST_CLOSE_WAIT \<or> state = ST_ESTABLISHED then
                (let st = (if st_unacked st = [] \<and> st_sendList st = []
                           then nabto_stream_add_fin_segment_to_send_lists st else st);
                     st = (if state = ST_CLOSE_WAIT then SET_STATE ST_LAST_ACK st else st)
                 in if state = ST_ESTABLISHED then SET_STATE ST_FIN_WAIT_1 st else st)
              else (if state < ST_ESTABLISHED then SET_STATE ST_ABORTED st else st))
      in if state = ST_CLOSED \<or> state = ST_FIN_WAIT_2 \<or> state = ST_TIME_WAIT then (SS_CLOSED, st)
         else (SS_OK, nabto_stream_module_notify_event ME_CLOSE_CALLED st))"

definition nabto_stream_stop_should_send_rst :: "'m stream \<Rightarrow> bool" where
  "nabto_stream_stop_should_send_rst st =
     (if st_state st = ST_CLOSED \<or> st_state st = ST_IDLE \<or> st_state st = ST_ABORTED_RST then False
      else True)"

definition nabto_stream_set_application_event_callback :: "bool \<Rightarrow> 'm stream \<Rightarrow> stream_status \<times> 'm stream" where
  "nabto_stream_set_application_event_callback cb st = (SS_OK, st\<lparr>st_hasCallback := cb\<rparr>)"

definition nabto_stream_get_content_type :: "'m stream \<Rightarrow> u32" where
  "nabto_stream_get_content_type st = st_contentType st"

end
