(* ===== verification/Stream_Recv.thy ===== *)
theory Stream_Recv
  imports Stream_Api
begin

text \<open>
  The receive side of the stream: the window and the read list hold consecutive sequence numbers,
  what the peer can make the stream allocate is bounded, and the bytes are delivered in order.
\<close>

section \<open>The receive lists\<close>

text \<open>The numbers that follow \<open>base\<close>, in order.\<close>

definition consecutive :: "u32 \<Rightarrow> u32 list \<Rightarrow> bool" where
  "consecutive base xs \<longleftrightarrow> (\<forall>i<length xs. xs ! i = base + of_nat (Suc i))"

lemma consecutive_Nil [simp]: "consecutive base []"
  by (simp add: consecutive_def)

lemma consecutive_Cons: "consecutive base (x # xs) \<longleftrightarrow> x = base + 1 \<and> consecutive x xs"
proof
  assume c: "consecutive base (x # xs)"
  have x: "x = base + 1" using c by (auto simp: consecutive_def dest: spec [of _ 0])
  moreover have "consecutive x xs"
    unfolding consecutive_def
  proof (intro allI impI)
    fix i assume "i < length xs"
    then show "xs ! i = x + of_nat (Suc i)"
      using c x by (auto simp: consecutive_def dest: spec [of _ "Suc i"])
  qed
  ultimately show "x = base + 1 \<and> consecutive x xs" ..
next
  assume "x = base + 1 \<and> consecutive x xs"
  then show "consecutive base (x # xs)"
    by (auto simp: consecutive_def nth_Cons split: nat.splits)
qed

lemma consecutive_append1:
  "consecutive base (xs @ [x]) \<longleftrightarrow> consecutive base xs \<and> x = base + of_nat (Suc (length xs))"
  by (fastforce simp: consecutive_def nth_append less_Suc_eq)

text \<open>A segment with data has them in its buffer, and the reader is within them; a free segment is not the fin.\<close>

definition recv_seg_ok :: "recv_segment \<Rightarrow> bool" where
  "recv_seg_ok s \<longleftrightarrow> (rs_state s = RB_DATA \<and> \<not> rs_isFin s \<longrightarrow>
     rs_used s \<le> rs_size s \<and> unat (rs_size s) \<le> length (rs_buf s)) \<and> (rs_state s = RB_IDLE \<longrightarrow> \<not> rs_isFin s)"

text \<open>
  \<open>recv_lists\<close> is the invariant while segments are waiting to be moved to the read list.  There may be one
  segment above the window: \<open>nabto_stream_recv_segment_available\<close> and the retry of an allocation ask only
  whether there is a segment above \<open>recvMax\<close>.
\<close>

definition recv_lists ::
  "recv_segment list \<Rightarrow> recv_segment list \<Rightarrow> u32 \<Rightarrow> u32 \<Rightarrow> u32 \<Rightarrow> bool \<Rightarrow> bool" where
  "recv_lists readList win recvTop recvMax recvMaxAllocated blocked \<longleftrightarrow>
     consecutive recvTop (map rs_seq win) \<and>
     recvMaxAllocated = recvTop + of_nat (length win) \<and>
     length win \<le> 10001 \<and> (blocked \<longrightarrow> length win \<le> 10000) \<and>
     (\<exists>k\<le>length win. k \<le> 10000 \<and> recvMax = recvTop + of_nat k \<and>
        (\<forall>i<length win. rs_state (win ! i) = RB_DATA \<longrightarrow> i < k)) \<and>
     consecutive (recvTop - of_nat (length readList)) (map rs_seq readList) \<and>
     (\<forall>s\<in>set readList. rs_state s = RB_DATA) \<and>
     (\<forall>s\<in>set readList \<union> set win. recv_seg_ok s)"

definition recv_inv :: "'m stream \<Rightarrow> bool" where
  "recv_inv st \<longleftrightarrow>
     recv_lists (st_recvRead st) (st_recvWindow st) (st_recvTop st) (st_recvMax st)
       (st_recvMaxAllocated st) (is_future (st_recvSegmentAllocationStamp st)) \<and>
     (st_recvWindow st \<noteq> [] \<longrightarrow> rs_state (hd (st_recvWindow st)) = RB_IDLE)"

text \<open>
  What the receive side takes from the rest of the stream; the operations of the send side leave
  it alone.
\<close>

definition recv_part :: "'m stream \<Rightarrow> 'm stream_module \<times> recv_segment list \<times> recv_segment list \<times>
    u32 \<times> u32 \<times> u32 \<times> stream_stamp \<times> u16" where
  "recv_part st = (st_module st, st_recvRead st, st_recvWindow st, st_recvTop st, st_recvMax st,
     st_recvMaxAllocated st, st_recvSegmentAllocationStamp st, st_maxRecvSegmentSize st)"

lemma recv_inv_part: "recv_part st = recv_part st' \<Longrightarrow> recv_inv st = recv_inv st'"
  by (simp add: recv_part_def recv_inv_def)

lemma recv_lists_pop:
  assumes "recv_lists readList (s # win) recvTop recvMax recvMaxAllocated blocked" "rs_state s = RB_DATA"
  shows "recv_lists (readList @ [s]) win (rs_seq s) recvMax recvMaxAllocated blocked"
proof -
  from assms obtain k where c: "rs_seq s = recvTop + 1" "consecutive (rs_seq s) (map rs_seq win)"
    and k: "k \<le> Suc (length win)" "k \<le> 10000" "recvMax = recvTop + of_nat k"
      "\<forall>i<Suc (length win). rs_state ((s # win) ! i) = RB_DATA \<longrightarrow> i < k"
    by (auto simp: recv_lists_def consecutive_Cons)
  have "0 < k" using k(4) assms(2) by (auto dest: spec [of _ 0])
  then obtain j where j: "k = Suc j" by (cases k) auto
  have "\<forall>i<length win. rs_state (win ! i) = RB_DATA \<longrightarrow> i < j"
    using k(4) j by (auto dest: spec [of _ "Suc _"])
  then show ?thesis
    using assms c k j
    by (auto simp: recv_lists_def consecutive_append1 algebra_simps intro!: exI [of _ j])
qed

lemma recv_lists_snoc:
  assumes "recv_lists readList win recvTop recvMax recvMaxAllocated blocked" "length win \<le> 10000"
    "rs_state s = RB_IDLE" "\<not> rs_isFin s" "rs_seq s = recvMaxAllocated + 1" "blocked' \<longrightarrow> False"
  shows "recv_lists readList (win @ [s]) recvTop recvMax (recvMaxAllocated + 1) blocked'"
  using assms
  by (auto simp: recv_lists_def consecutive_append1 nth_append less_Suc_eq le_Suc_eq algebra_simps
      recv_seg_ok_def dest: le_SucI)

lemma recv_lists_fill:
  assumes "recv_lists readList win recvTop recvMax recvMaxAllocated blocked" "i < length win" "i < 10000"
    "rs_seq s = rs_seq (win ! i)" "recv_seg_ok s"
  shows "recv_lists readList (win[i := s]) recvTop (nabto_stream_sequence_max recvMax (rs_seq s))
     recvMaxAllocated blocked"
proof -
  from assms obtain k where k: "k \<le> length win" "recvMax = recvTop + of_nat k"
      "\<forall>i<length win. rs_state (win ! i) = RB_DATA \<longrightarrow> i < k" "k \<le> 10000" and len: "length win \<le> 10001"
    by (auto simp: recv_lists_def)
  have seq: "rs_seq s = recvTop + of_nat (Suc i)"
    using assms by (auto simp: recv_lists_def consecutive_def)
  have small: "unat (of_nat n :: u32) = n" if "n \<le> 10001" for n
    using that by (simp add: unat_of_nat)
  have less: "nabto_stream_sequence_less recvMax (rs_seq s) \<longleftrightarrow> k < Suc i"
    using stream_seq.less_window [of recvMax recvTop "rs_seq s"] k(1,2,4) seq len assms(2)
    by (simp add: small del: of_nat_Suc)
  have "map rs_seq (win[i := s]) = map rs_seq win"
    using assms(2,4) by (simp add: map_update list_update_same_conv)
  moreover have "\<exists>k\<le>length win. k \<le> 10000 \<and> nabto_stream_sequence_max recvMax (rs_seq s) = recvTop + of_nat k \<and>
      (\<forall>j<length win. rs_state (win[i := s] ! j) = RB_DATA \<longrightarrow> j < k)"
  proof (cases "k < Suc i")
    case True
    then show ?thesis
      using k less seq assms(2,3) True
      by (intro exI [of _ "Suc i"])
         (auto simp: nabto_stream_sequence_max_def nth_list_update simp del: of_nat_Suc
            intro: less_trans [of _ k])
  next
    case False
    then show ?thesis
      using k less assms(2)
      by (intro exI [of _ k]) (auto simp: nabto_stream_sequence_max_def nth_list_update)
  qed
  ultimately show ?thesis
    using assms(1,5) set_update_subset_insert [of win i s] by (auto simp: recv_lists_def)
qed

lemma move_recv_loop_inv:
  assumes "recv_lists (st_recvRead st) it (st_recvTop st) (st_recvMax st)
       (st_recvMaxAllocated st) (is_future (st_recvSegmentAllocationStamp st))"
    and "st_recvWindow st = it"
  shows "recv_inv (move_recv_loop it st)"
  using assms
proof (induction it arbitrary: st)
  case Nil
  then show ?case by (simp add: recv_inv_def)
next
  case (Cons s it)
  show ?case
  proof (cases "rs_state s = RB_DATA")
    case True
    show ?thesis
      using True Cons.prems recv_lists_pop [OF Cons.prems(1) True]
      by (auto simp: upd_events_def Let_def intro!: Cons.IH)
  next
    case False
    then have "rs_state s = RB_IDLE" by (cases "rs_state s") auto
    then show ?thesis using Cons.prems by (simp add: recv_inv_def)
  qed
qed

text \<open>What the stream takes from the allocator of receive segments: the segment is empty.\<close>

definition recv_allocator_ok :: "'m stream_module \<Rightarrow> bool" where
  "recv_allocator_ok md \<longleftrightarrow> (\<forall>n m s m'. sm_alloc_recv_segment md n m = (Some s, m') \<longrightarrow>
     rs_state s = RB_IDLE \<and> \<not> rs_isFin s)"

lemma allocate_next_recv_segment_inv:
  assumes "recv_inv st" "recv_allocator_ok (st_module st)" "length (st_recvWindow st) \<le> 10000"
  shows "recv_inv (snd (nabto_stream_allocate_next_recv_segment st))"
proof -
  obtain r user where r: "sm_alloc_recv_segment (st_module st)
      (unat (st_maxRecvSegmentSize st)) (st_user st) = (r, user)" by fastforce
  show ?thesis
  proof (cases r)
    case None
    with r assms show ?thesis
      by (auto simp: nabto_stream_allocate_next_recv_segment_def recv_inv_def recv_lists_def
          nabto_stream_get_future_stamp_def Let_def)
  next
    case (Some s)
    with r assms(2) have s: "rs_state s = RB_IDLE" "\<not> rs_isFin s" by (auto simp: recv_allocator_ok_def)
    show ?thesis
      using assms r Some s
        recv_lists_snoc [of "st_recvRead st" "st_recvWindow st" "st_recvTop st" "st_recvMax st"
          "st_recvMaxAllocated st" "is_future (st_recvSegmentAllocationStamp st)"
          "s\<lparr>rs_seq := st_recvMaxAllocated st + 1\<rparr>" False]
      by (cases "st_recvWindow st")
         (auto simp: nabto_stream_allocate_next_recv_segment_def recv_inv_def Let_def)
  qed
qed

text \<open>What the window accepts: numbers up to \<open>recvTop + 10000\<close>.\<close>

lemma recv_window_end:
  assumes "recv_inv st"
  shows "\<exists>e\<le>10000. st_recvMax st + nabto_stream_get_recv_window_size st = st_recvTop st + of_nat e"
proof -
  obtain k where k: "k \<le> 10000" "st_recvMax st = st_recvTop st + of_nat k"
    using assms by (auto simp: recv_inv_def recv_lists_def)
  show ?thesis
  proof (cases "is_future (st_recvSegmentAllocationStamp st)")
    case True
    then show ?thesis
      using k by (intro exI [of _ k]) (auto simp: nabto_stream_get_recv_window_size_def)
  next
    case False
    have "unat (of_nat k :: u32) = k" using k(1) by (simp add: unat_of_nat)
    then have "(of_nat k :: u32) \<ge> 10000 \<longleftrightarrow> k = 10000"
      using k(1) by (auto simp: word_le_nat_alt)
    then show ?thesis
      using False k
      by (intro exI [of _ 10000]) (auto simp: nabto_stream_get_recv_window_size_def Let_def)
  qed
qed

text \<open>
  The numbers for which the comparison with the window is meaningful: those above \<open>recvTop\<close>, and
  those below it that are not close to the other end of the number space.
\<close>

definition recv_seq_near :: "u32 \<Rightarrow> u32 \<Rightarrow> bool" where
  "recv_seq_near recvTop seq \<longleftrightarrow> nabto_stream_sequence_less recvTop seq \<or>
     unat (recvTop - seq) + 10001 < 2147483648"

lemma window_guard:
  assumes "\<not> nabto_stream_sequence_less (recvTop + of_nat e) seq" "e \<le> 10000"
    "nabto_stream_sequence_less (recvTop + of_nat n) seq" "n \<le> 10001" "recv_seq_near recvTop seq"
  shows "n < e"
proof -
  let ?t = "unat (recvTop - seq)"
  have dist: "unat (recvTop + of_nat m - seq) =
      (if ?t + m < 4294967296 then ?t + m else ?t + m - 4294967296)" if "m \<le> 10001" for m
  proof -
    have "recvTop + of_nat m - seq = (recvTop - seq) + of_nat m" by simp
    moreover have "unat (of_nat m :: u32) = m" using that by (simp add: unat_of_nat)
    ultimately show ?thesis by (metis unat_add_u32)
  qed
  show ?thesis
    using assms dist [of e] dist [OF assms(4)] unat_u32_less [of "recvTop - seq"]
    by (auto simp: recv_seq_near_def stream_seq.less_iff_distance simp del: unat_u32_less
        split: if_splits)
qed

lemma find_recv_alloc_inv:
  assumes "recv_inv st" "recv_allocator_ok (st_module st)"
    "\<not> nabto_stream_sequence_less (st_recvTop st + of_nat e) seq" "e \<le> 10000"
    "recv_seq_near (st_recvTop st) seq"
  shows "recv_inv (snd (find_recv_alloc seq st)) \<and>
    st_recvTop (snd (find_recv_alloc seq st)) = st_recvTop st \<and>
    st_recvMax (snd (find_recv_alloc seq st)) = st_recvMax st \<and>
    st_recvRead (snd (find_recv_alloc seq st)) = st_recvRead st \<and>
    st_module (snd (find_recv_alloc seq st)) = st_module st \<and>
    st_state (snd (find_recv_alloc seq st)) = st_state st"
  using assms
proof (induction seq st rule: find_recv_alloc.induct)
  case (1 seq st)
  show ?case
  proof (cases "nabto_stream_sequence_less (st_recvMaxAllocated st) seq")
    case True
    obtain b st' where r: "nabto_stream_allocate_next_recv_segment st = (b, st')" by fastforce
    have A: "st_recvMaxAllocated st = st_recvTop st + of_nat (length (st_recvWindow st))"
      and len: "length (st_recvWindow st) \<le> 10001"
      using 1(2) by (auto simp: recv_inv_def recv_lists_def)
    have "length (st_recvWindow st) < e"
      using window_guard [OF 1(4,5) _ len 1(6)] True A by simp
    then have inv: "recv_inv st'"
      using allocate_next_recv_segment_inv [OF 1(2,3)] 1(5) r by simp
    have same: "st_recvTop st' = st_recvTop st" "st_recvMax st' = st_recvMax st"
      "st_recvRead st' = st_recvRead st" "st_module st' = st_module st" "st_state st' = st_state st"
      using r by (auto simp: nabto_stream_allocate_next_recv_segment_def Let_def
          split: prod.splits option.splits)
    show ?thesis
    proof (cases b)
      case True
      then show ?thesis
        using "1.IH" [OF \<open>nabto_stream_sequence_less _ _\<close> r [symmetric]] inv same 1 r
          \<open>nabto_stream_sequence_less (st_recvMaxAllocated st) seq\<close>
        by (subst (1 2 3 4 5 6) find_recv_alloc.simps) simp
    next
      case False
      then show ?thesis
        using inv same r \<open>nabto_stream_sequence_less (st_recvMaxAllocated st) seq\<close>
        by (subst (1 2 3 4 5 6) find_recv_alloc.simps) simp
    qed
  next
    case False
    then show ?thesis using 1 by (subst (1 2 3 4 5 6) find_recv_alloc.simps) simp
  qed
qed

lemma find_seq_Some: "find_seq seq ss = Some i \<Longrightarrow> i < length ss \<and> rs_seq (ss ! i) = seq"
  by (induction ss arbitrary: i) (auto split: if_splits)

lemma find_recv_buffer_inv:
  assumes "recv_inv st" "recv_allocator_ok (st_module st)" "recv_seq_near (st_recvTop st) seq"
    and "nabto_stream_find_recv_buffer seq st = (r, st')"
  shows "recv_inv st'" "st_module st' = st_module st" "st_recvTop st' = st_recvTop st"
    "st_recvRead st' = st_recvRead st" "st_recvMax st' = st_recvMax st" "st_state st' = st_state st"
    "r = Some i \<Longrightarrow> i < length (st_recvWindow st') \<and> i < 10000 \<and> rs_seq (st_recvWindow st' ! i) = seq"
proof -
  obtain e where e: "e \<le> 10000"
    "st_recvMax st + nabto_stream_get_recv_window_size st = st_recvTop st + of_nat e"
    using recv_window_end [OF assms(1)] by blast
  have *: "recv_inv st' \<and> st_module st' = st_module st \<and> st_recvTop st' = st_recvTop st \<and>
    st_recvRead st' = st_recvRead st \<and> st_recvMax st' = st_recvMax st \<and> st_state st' = st_state st"
  proof (cases "nabto_stream_sequence_less (st_recvTop st + of_nat e) seq")
    case True
    then show ?thesis using assms e by (simp add: nabto_stream_find_recv_buffer_def)
  next
    case False
    then show ?thesis
      using assms(4) e(2) find_recv_alloc_inv [OF assms(1,2) False e(1) assms(3)]
      by (auto simp: nabto_stream_find_recv_buffer_def split: prod.splits bool.splits)
  qed
  then show "recv_inv st'" "st_module st' = st_module st" "st_recvTop st' = st_recvTop st"
    "st_recvRead st' = st_recvRead st" "st_recvMax st' = st_recvMax st" "st_state st' = st_state st"
    by auto
  assume r: "r = Some i"
  then have i: "i < length (st_recvWindow st')" "rs_seq (st_recvWindow st' ! i) = seq"
    and w: "\<not> nabto_stream_sequence_less (st_recvTop st + of_nat e) seq"
    using assms(4) e(2)
    by (auto simp: nabto_stream_find_recv_buffer_def find_seq_Some split: if_splits prod.splits bool.splits
        dest: find_seq_Some)
  have "seq = st_recvTop st + of_nat (Suc i)" "length (st_recvWindow st') \<le> 10001"
    using i * by (auto simp: recv_inv_def recv_lists_def consecutive_def)
  then have "\<not> e < Suc i"
    using w i(1) e(1) stream_seq.less_window [of "st_recvTop st + of_nat e" "st_recvTop st" seq]
    by (simp add: unat_of_nat del: of_nat_Suc)
  then show "i < length (st_recvWindow st') \<and> i < 10000 \<and> rs_seq (st_recvWindow st' ! i) = seq"
    using i e(1) by simp
qed

text \<open>Filling a segment of the window and moving what is complete.\<close>

lemma fill_and_move_inv:
  assumes "recv_inv st" "i < length (st_recvWindow st)" "i < 10000" "rs_seq s = rs_seq (st_recvWindow st ! i)"
    "recv_seg_ok s"
    and "recv_part st' = recv_part (st\<lparr>st_recvWindow := (st_recvWindow st)[i := s],
           st_recvMax := nabto_stream_sequence_max (st_recvMax st) (rs_seq s)\<rparr>)"
  shows "recv_inv (move_segments_from_recv_window_to_recv_read st')"
  unfolding move_segments_from_recv_window_to_recv_read_def
proof (rule move_recv_loop_inv)
  show "recv_lists (st_recvRead st') (st_recvWindow st') (st_recvTop st') (st_recvMax st')
     (st_recvMaxAllocated st') (is_future (st_recvSegmentAllocationStamp st'))"
    using recv_lists_fill [of _ _ _ _ _ _ i s] assms by (simp add: recv_part_def recv_inv_def)
qed simp

lemma move_recv_loop_same [simp]:
  "st_module (move_recv_loop it st) = st_module st"
  "st_state (move_recv_loop it st) = st_state st"
  by (induction it arbitrary: st) (auto simp: upd_events_def Let_def)

lemma handle_data_inv:
  assumes "recv_inv st" "recv_allocator_ok (st_module st)"
  shows "recv_inv (nabto_stream_handle_data seq data st)"
proof (cases "nabto_stream_sequence_less (st_recvTop st) seq")
  case True
  then have near: "recv_seq_near (st_recvTop st) seq" by (simp add: recv_seq_near_def)
  obtain r st' where f: "nabto_stream_find_recv_buffer seq st = (r, st')" by fastforce
  note inv = find_recv_buffer_inv [OF assms near f]
  show ?thesis
  proof (cases r)
    case None
    then show ?thesis
      using True f assms inv(1) by (simp add: nabto_stream_handle_data_def recv_inv_def)
  next
    case (Some i)
    have i: "i < length (st_recvWindow st')" "i < 10000" "rs_seq (st_recvWindow st' ! i) = seq"
      using inv(7) [OF Some] by auto
    let ?s = "(st_recvWindow st' ! i)\<lparr>rs_state := RB_DATA, rs_size := of_nat (length data),
                 rs_used := 0, rs_buf := data @ drop (length data) (rs_buf (st_recvWindow st' ! i))\<rparr>"
    have ok: "recv_seg_ok ?s"
      using mod_less_eq_dividend [of "length data" 65536]
      by (simp add: recv_seg_ok_def unat_of_nat del: mod_less_eq_dividend)
    note mv = fill_and_move_inv [OF inv(1) i(1,2) _ ok]
    show ?thesis
      using True f Some assms(1) inv(1) i(3)
      by (auto simp: nabto_stream_handle_data_def Let_def recv_inv_def [of "_\<lparr>st_imediateAck := _\<rparr>"]
          recv_inv_def [of st'] recv_part_def intro!: mv)
  qed
next
  case False
  then show ?thesis using assms by (auto simp: nabto_stream_handle_data_def recv_inv_def)
qed

lemma recv_part_SET_STATE [simp]: "recv_part (SET_STATE s st) = recv_part st"
  by (cases s)
     (simp_all add: SET_STATE_def nabto_stream_state_transition_def recv_part_def upd_events_def Let_def)

lemma recv_inv_SET_STATE [simp]: "recv_inv (SET_STATE s st) = recv_inv st"
  by (rule recv_inv_part) simp

lemma handle_fin_inv:
  assumes "recv_inv st" "recv_allocator_ok (st_module st)" "recv_seq_near (st_recvTop st) seq"
  shows "recv_inv (nabto_stream_handle_fin seq st)"
proof -
  obtain r st' where f: "nabto_stream_find_recv_buffer seq st = (r, st')" by fastforce
  note inv = find_recv_buffer_inv [OF assms f]
  show ?thesis
  proof (cases r)
    case None
    then show ?thesis
      using f assms inv(1) by (simp add: nabto_stream_handle_fin_def Let_def recv_inv_def)
  next
    case (Some i)
    have i: "i < length (st_recvWindow st')" "i < 10000" "rs_seq (st_recvWindow st' ! i) = seq"
      using inv(7) [OF Some] by auto
    let ?s = "(st_recvWindow st' ! i)\<lparr>rs_isFin := True, rs_state := RB_DATA, rs_used := 0\<rparr>"
    have ok: "recv_seg_ok ?s"
      by (simp add: recv_seg_ok_def)
    note mv = fill_and_move_inv [OF inv(1) i(1,2) _ ok]
    show ?thesis
      using f Some assms(1) i(3)
      by (auto simp: nabto_stream_handle_fin_def Let_def recv_inv_def [of "_\<lparr>st_imediateAck := _\<rparr>"]
          recv_inv_def [of st] recv_part_def intro!: mv)
  qed
qed

section \<open>Operations that leave the receive side alone\<close>

lemma recv_part_send_ops [simp]:
  "recv_part (set_seg a s st) = recv_part st"
  "recv_part (add_to_send_list_end a st) = recv_part st"
  "recv_part (add_to_send_list_front a st) = recv_part st"
  "recv_part (nabto_stream_remove_segment_from_send_list a st) = recv_part st"
  "recv_part (nabto_stream_remove_segment_from_resend_list a st) = recv_part st"
  "recv_part (nabto_stream_remove_segment_from_unacked_list a st) = recv_part st"
  "recv_part (add_to_unacked_list_end a st) = recv_part st"
  "recv_part (nabto_stream_free_send_segment a st) = recv_part st"
  "recv_part (upd_cc f st) = recv_part st"
  "recv_part (upd_events g st) = recv_part st"
  "recv_part (nabto_stream_module_notify_event ev st) = recv_part st"
  by (simp_all add: recv_part_def set_seg_def add_to_send_list_end_def add_to_send_list_front_def
      nabto_stream_remove_segment_from_send_list_def nabto_stream_remove_segment_from_resend_list_def
      nabto_stream_remove_segment_from_unacked_list_def add_to_unacked_list_end_def
      nabto_stream_free_send_segment_def upd_cc_def upd_events_def
      nabto_stream_module_notify_event_def)

lemma recv_part_updates [simp]:
  "recv_part (st\<lparr>st_user := u\<rparr>) = recv_part st"
  "recv_part (st\<lparr>st_timeoutStamp := t\<rparr>) = recv_part st"
  "recv_part (st\<lparr>st_segmentSentAfterTimeout := b\<rparr>) = recv_part st"
  "recv_part (st\<lparr>st_maxAdvertisedWindow := w\<rparr>) = recv_part st"
  "recv_part (st\<lparr>st_timestampToEcho := w\<rparr>) = recv_part st"
  "recv_part (st\<lparr>st_receivedPackets := w\<rparr>) = recv_part st"
  "recv_part (st\<lparr>st_sendAck := b\<rparr>) = recv_part st"
  "recv_part (st\<lparr>st_imediateAck := b\<rparr>) = recv_part st"
  "recv_part (st\<lparr>st_logicalTimestamp := w\<rparr>) = recv_part st"
  "recv_part (st\<lparr>st_resendList := l\<rparr>) = recv_part st"
  "recv_part (st\<lparr>st_nextSeg := n\<rparr>) = recv_part st"
  "recv_part (st\<lparr>st_nextUnfilledSendSegment := a\<rparr>) = recv_part st"
  "recv_part (st\<lparr>st_sendSegmentAllocationStamp := t\<rparr>) = recv_part st"
  "recv_part (st\<lparr>st_xmitMaxAllocated := w\<rparr>) = recv_part st"
  "recv_part (st\<lparr>st_ccStats := cs\<rparr>) = recv_part st"
  "recv_part (st\<lparr>st_events := ev\<rparr>) = recv_part st"
  "recv_part (st\<lparr>st_hasCallback := b\<rparr>) = recv_part st"
  "recv_part (st\<lparr>st_sentBytes := x\<rparr>) = recv_part st"
  "recv_part (st\<lparr>st_timeFirstMBSent := w\<rparr>) = recv_part st"
  "recv_part (st\<lparr>st_reorderedOrLostSegments := w\<rparr>) = recv_part st"
  "recv_part (st\<lparr>st_reorderedOrLostPackets := w\<rparr>) = recv_part st"
  "recv_part (st\<lparr>st_lastLostPacketSeq := w\<rparr>) = recv_part st"
  "recv_part (st\<lparr>st_sentPackets := w\<rparr>) = recv_part st"
  "recv_part (st\<lparr>st_timeouts := w\<rparr>) = recv_part st"
  "recv_part (st\<lparr>st_disableReplayProtection := b\<rparr>) = recv_part st"
  "recv_part (st\<lparr>st_nonce := ns\<rparr>) = recv_part st"
  "recv_part (st\<lparr>st_sendNonce := b\<rparr>) = recv_part st"
  "recv_part (st\<lparr>st_nonceValidated := b\<rparr>) = recv_part st"
  "recv_part (st\<lparr>st_retransCount := c\<rparr>) = recv_part st"
  "recv_part (st\<lparr>st_startSequenceNumber := w\<rparr>) = recv_part st"
  "recv_part (st\<lparr>st_contentType := w\<rparr>) = recv_part st"
  by (simp_all add: recv_part_def)

lemma recv_part_allocate_send [simp]:
  "recv_part (nabto_stream_allocate_next_send_segment st) = recv_part st"
  by (simp add: nabto_stream_allocate_next_send_segment_def Let_def split: prod.split option.split)

lemma recv_part_cc [simp]:
  "recv_part (congestion_control_adjust_ssthresh_after_triple_ack seg st) = recv_part st"
  "recv_part (nabto_stream_congestion_control_timeout st) = recv_part st"
  "recv_part (nabto_stream_congestion_control_handle_ack seg st) = recv_part st"
  "recv_part (update_congestion_control_receive_stats seg ts st) = recv_part st"
  by (simp_all add: congestion_control_adjust_ssthresh_after_triple_ack_def
      nabto_stream_congestion_control_timeout_def nabto_stream_congestion_control_handle_ack_def
      update_congestion_control_receive_stats_def Let_def)

lemma recv_part_window_reduced [simp]:
  "recv_part (advertised_window_reduced_loop it st) = recv_part st"
  "recv_part (nabto_stream_flow_control_advertised_window_reduced st) = recv_part st"
proof -
  show l: "recv_part (advertised_window_reduced_loop it st) = recv_part st" for it
    by (induction it arbitrary: st) (simp_all add: Let_def)
  show "recv_part (nabto_stream_flow_control_advertised_window_reduced st) = recv_part st"
    by (simp add: nabto_stream_flow_control_advertised_window_reduced_def l)
qed

lemma recv_part_retransmission [simp]:
  "recv_part (nabto_stream_mark_segment_for_retransmission a st) = recv_part st"
  "recv_part (nabto_stream_handle_timeout st) = recv_part st"
proof -
  show m: "recv_part (nabto_stream_mark_segment_for_retransmission a st) = recv_part st" for a and st :: "'a stream"
    by (simp add: nabto_stream_mark_segment_for_retransmission_def)
  have c: "recv_part (clear_resend_loop it st) = recv_part st" for it and st :: "'a stream"
    by (induction it arbitrary: st) simp_all
  have a: "recv_part (mark_all it st) = recv_part st" for it and st :: "'a stream"
    by (induction it arbitrary: st) (simp_all add: m)
  show "recv_part (nabto_stream_handle_timeout st) = recv_part st"
    by (simp add: nabto_stream_handle_timeout_def nabto_stream_clear_resend_list_def c a Let_def)
qed

lemma recv_part_acks [simp]:
  "recv_part (nabto_stream_handle_ack_iterator a ts st) = recv_part st"
  "recv_part (nabto_stream_handle_nack_iterator a ts st) = recv_part st"
  by (simp_all add: nabto_stream_handle_ack_iterator_def nabto_stream_handle_ack_on_fin_def
      nabto_stream_segment_has_been_acked_def nabto_stream_add_fin_segment_to_send_lists_def
      nabto_stream_handle_nack_iterator_def Let_def)

lemma recv_part_blocks [simp]:
  "recv_part (snd (nabto_stream_ack_block it bottom ts st)) = recv_part st"
  "recv_part (snd (nabto_stream_nack_block it bottom ts st)) = recv_part st"
  "recv_part (ack_rest it ts st) = recv_part st"
  by (induction it arbitrary: st) simp_all

lemma recv_part_parse_gaps [simp]: "recv_part (snd (parse_gaps n ptr ackTop it ts st)) = recv_part st"
  by (induction n arbitrary: ptr ackTop it st) (simp_all add: split_beta Let_def split: option.split)

lemma recv_part_apply_window [simp]: "recv_part (apply_window m w hdr st) = recv_part st"
  by (simp add: apply_window_def Let_def)

lemma recv_part_parse_ack_extension [simp]:
  "recv_part (nabto_stream_parse_ack_extension ext hdr st) = recv_part st"
  by (simp add: nabto_stream_parse_ack_extension_def nabto_stream_handle_ack_on_syn_ack_def
      split_beta Let_def split: option.split)

section \<open>Packets and the receive side\<close>

text \<open>An invariant of the body of an extension loop is an invariant of the loop.\<close>

lemma extension_loop_invariant:
  assumes "I s" "\<And>type ext s. I s \<Longrightarrow> I (f type ext s)"
  shows "I (snd (extension_loop f ptr s))"
  using assms(1)
proof (induction "length ptr" arbitrary: ptr s rule: less_induct)
  case less
  then show ?case
    by (subst extension_loop.simps) (auto simp: assms(2) split: option.split)
qed

text \<open>
  A guard on the steps of the loop, evaluated along its run: all the steps of the loop from
  \<open>ptr\<close> and \<open>s\<close> satisfy \<open>g\<close>.
\<close>

definition loop_guard :: "(u16 \<Rightarrow> bytes \<Rightarrow> 's \<Rightarrow> bool) \<Rightarrow> (u16 \<Rightarrow> bytes \<Rightarrow> 's \<Rightarrow> 's) \<Rightarrow>
    bytes \<Rightarrow> 's \<Rightarrow> bool" where
  "loop_guard g f ptr s =
     fst (snd (extension_loop (\<lambda>type ext (ok, s). (ok \<and> g type ext s, f type ext s)) ptr (True, s)))"

lemma guard_flag:
  fixes f g
  defines "h \<equiv> \<lambda>type ext (ok, s). (ok \<and> g type ext s, f type ext s)"
  assumes "fst (snd (extension_loop h ptr (ok, s)))"
  shows ok
proof (rule ccontr)
  assume "\<not> ok"
  then have "\<not> fst (snd (extension_loop h ptr (ok, s)))"
    by (intro extension_loop_invariant [where I = "\<lambda>x. \<not> fst x"]) (auto simp: h_def)
  with assms(2) show False by contradiction
qed

lemma guarded_loop:
  fixes f g
  defines "h \<equiv> \<lambda>type ext (ok, s). (ok \<and> g type ext s, f type ext s)"
  assumes "fst (snd (extension_loop h ptr (True, s)))" "I s"
    "\<And>type ext s. I s \<Longrightarrow> g type ext s \<Longrightarrow> I (f type ext s)"
  shows "I (snd (extension_loop f ptr s))"
  using assms(2,3)
proof (induction "length ptr" arbitrary: ptr s rule: less_induct)
  case less
  show ?case
  proof (cases "ptr = [] \<or> nabto_stream_read_extension_header ptr = None")
    case True
    then show ?thesis
      using less.prems by (subst extension_loop.simps) auto
  next
    case False
    then obtain type ext rest where h: "ptr \<noteq> []"
      "nabto_stream_read_extension_header ptr = Some (type, ext, rest)" by auto
    have flag: "fst (snd (extension_loop h rest (g type ext s, f type ext s)))"
      using less.prems(1) h by (simp add: extension_loop.simps [of _ ptr] h_def)
    then have g: "g type ext s" unfolding h_def by (rule guard_flag)
    then have "I (snd (extension_loop f rest (f type ext s)))"
      using less.hyps [of rest "f type ext s"] h less.prems(2) assms(4) flag by simp
    then show ?thesis using h by (subst extension_loop.simps) simp
  qed
qed

lemma loop_guard_invariant:
  assumes "loop_guard g f ptr s" "I s" "\<And>type ext s. I s \<Longrightarrow> g type ext s \<Longrightarrow> I (f type ext s)"
  shows "I (snd (extension_loop f ptr s))"
  using guarded_loop [of g f ptr s I] assms by (simp add: loop_guard_def)

lemma recv_part_parse_acking [simp]: "recv_part (nabto_stream_parse_acking ptr hdr st) = recv_part st"
  unfolding nabto_stream_parse_acking_def
  by (rule extension_loop_invariant [where I = "\<lambda>s. recv_part s = recv_part st"]) auto

lemma recv_part_parse_nonce_response [simp]:
  "recv_part (nabto_stream_parse_nonce_response ptr st) = recv_part st"
  unfolding nabto_stream_parse_nonce_response_def
  by (rule extension_loop_invariant [where I = "\<lambda>s. recv_part s = recv_part st"])
     (auto split: option.split)

text \<open>
  A fin extension whose number is so far from the receive window that the comparison of serial
  numbers is not meaningful any more is excluded: it makes the allocation loop run past the window.
\<close>

definition fin_near :: "u16 \<Rightarrow> bytes \<Rightarrow> 'm stream \<Rightarrow> bool" where
  "fin_near type ext st = (if type = EXTENSION_FIN then
     (case nabto_stream_read_uint32 (Some ext) of None \<Rightarrow> True
      | Some (seq, _) \<Rightarrow> recv_seq_near (st_recvTop st) seq) else True)"

definition fins_near :: "bytes \<Rightarrow> stream_header \<Rightarrow> 'm stream \<Rightarrow> bool" where
  "fins_near ptr hdr st = loop_guard fin_near parse_ack_data_extension ptr (nabto_stream_parse_acking ptr hdr st)"

end
