(* ===== verification/Stream_State.thy ===== *)
theory Stream_State
  imports Stream_Recv
begin

text \<open>
  The connection state: no operation moves it backwards, and until the stream is open the segment
  lists are empty.
\<close>

section \<open>The connection state only moves forward\<close>

lemma module_state_send_ops [simp]:
  "st_state (set_seg a s st) = st_state st"
  "st_state (add_to_send_list_end a st) = st_state st"
  "st_state (add_to_send_list_front a st) = st_state st"
  "st_state (nabto_stream_remove_segment_from_send_list a st) = st_state st"
  "st_state (nabto_stream_remove_segment_from_resend_list a st) = st_state st"
  "st_state (nabto_stream_remove_segment_from_unacked_list a st) = st_state st"
  "st_state (add_to_unacked_list_end a st) = st_state st"
  "st_state (nabto_stream_free_send_segment a st) = st_state st"
  "st_state (nabto_stream_free_recv_segment s' st) = st_state st"
  "st_state (upd_cc f st) = st_state st"
  "st_state (upd_events g st) = st_state st"
  "st_state (nabto_stream_module_notify_event ev st) = st_state st"
  by (simp_all add: set_seg_def add_to_send_list_end_def add_to_send_list_front_def
      nabto_stream_remove_segment_from_send_list_def nabto_stream_remove_segment_from_resend_list_def
      nabto_stream_remove_segment_from_unacked_list_def add_to_unacked_list_end_def
      nabto_stream_free_send_segment_def nabto_stream_free_recv_segment_def upd_cc_def upd_events_def
      nabto_stream_module_notify_event_def)

lemma state_allocate [simp]:
  "st_state (nabto_stream_allocate_next_send_segment st) = st_state st"
  "st_state (snd (nabto_stream_allocate_next_recv_segment st)) = st_state st"
  by (simp_all add: nabto_stream_allocate_next_send_segment_def
      nabto_stream_allocate_next_recv_segment_def Let_def split: prod.split option.split)

lemma find_recv_alloc_same [simp]:
  "st_state (snd (find_recv_alloc seq st)) = st_state st"
  "st_module (snd (find_recv_alloc seq st)) = st_module st"
proof -
  have "st_state (snd (find_recv_alloc seq st)) = st_state st \<and>
    st_module (snd (find_recv_alloc seq st)) = st_module st"
  proof (induction seq st rule: find_recv_alloc.induct)
    case (1 seq st)
    obtain b st' where r: "nabto_stream_allocate_next_recv_segment st = (b, st')" by fastforce
    then have "st_state st' = st_state st" "st_module st' = st_module st"
      by (auto simp: nabto_stream_allocate_next_recv_segment_def Let_def
          split: prod.splits option.splits)
    then show ?case
      using 1 r by (cases b) (subst (1 2) find_recv_alloc.simps, simp)+
  qed
  then show "st_state (snd (find_recv_alloc seq st)) = st_state st"
    "st_module (snd (find_recv_alloc seq st)) = st_module st" by auto
qed

lemma find_recv_alloc_eqD:
  "find_recv_alloc seq st = (b, st') \<Longrightarrow> st_state st' = st_state st \<and> st_module st' = st_module st"
  by (metis find_recv_alloc_same snd_conv)

lemma find_recv_buffer_same [simp]:
  "st_state (snd (nabto_stream_find_recv_buffer seq st)) = st_state st"
  "st_module (snd (nabto_stream_find_recv_buffer seq st)) = st_module st"
  by (auto simp: nabto_stream_find_recv_buffer_def split: prod.split bool.split
      dest: find_recv_alloc_eqD)

lemma find_recv_buffer_eqD:
  "nabto_stream_find_recv_buffer seq st = (r, st') \<Longrightarrow>
   st_state st' = st_state st \<and> st_module st' = st_module st"
  by (metis find_recv_buffer_same snd_conv)

lemma SET_STATE_state [simp]: "st_state (SET_STATE s st) = s"
  by (cases s)
     (simp_all add: SET_STATE_def nabto_stream_state_transition_def upd_events_def Let_def)

lemma SET_STATE_module [simp]: "st_module (SET_STATE s st) = st_module st"
  by (cases s)
     (simp_all add: SET_STATE_def nabto_stream_state_transition_def upd_events_def Let_def)

lemma handle_data_same [simp]:
  "st_state (nabto_stream_handle_data seq data st) = st_state st"
  "st_module (nabto_stream_handle_data seq data st) = st_module st"
  by (auto simp: nabto_stream_handle_data_def move_segments_from_recv_window_to_recv_read_def Let_def
      split: prod.split option.split dest: find_recv_buffer_eqD)

lemma handle_fin_state:
  "st_state st \<le> st_state (nabto_stream_handle_fin seq st)"
  "st_module (nabto_stream_handle_fin seq st) = st_module st"
  by (auto simp: nabto_stream_handle_fin_def move_segments_from_recv_window_to_recv_read_def Let_def
      state_order split: prod.split option.split dest: find_recv_buffer_eqD)

lemma state_cc [simp]:
  "st_state (congestion_control_adjust_ssthresh_after_triple_ack seg st) = st_state st"
  "st_state (nabto_stream_congestion_control_timeout st) = st_state st"
  "st_state (nabto_stream_congestion_control_handle_ack seg st) = st_state st"
  "st_state (update_congestion_control_receive_stats seg ts st) = st_state st"
  by (simp_all add: congestion_control_adjust_ssthresh_after_triple_ack_def
      nabto_stream_congestion_control_timeout_def nabto_stream_congestion_control_handle_ack_def
      update_congestion_control_receive_stats_def Let_def)

lemma state_window_reduced [simp]:
  "st_state (nabto_stream_flow_control_advertised_window_reduced st) = st_state st"
proof -
  have "st_state (advertised_window_reduced_loop it st) = st_state st" for it
    by (induction it arbitrary: st) (simp_all add: Let_def)
  then show ?thesis
    by (simp add: nabto_stream_flow_control_advertised_window_reduced_def)
qed

lemma state_retransmission [simp]:
  "st_state (nabto_stream_mark_segment_for_retransmission a st) = st_state st"
  "st_state (nabto_stream_handle_timeout st) = st_state st"
proof -
  show m: "st_state (nabto_stream_mark_segment_for_retransmission a st) = st_state st" for a and st :: "'a stream"
    by (simp add: nabto_stream_mark_segment_for_retransmission_def)
  have c: "st_state (clear_resend_loop it st) = st_state st" for it and st :: "'a stream"
    by (induction it arbitrary: st) simp_all
  have a: "st_state (mark_all it st) = st_state st" for it and st :: "'a stream"
    by (induction it arbitrary: st) (simp_all add: m)
  show "st_state (nabto_stream_handle_timeout st) = st_state st"
    by (simp add: nabto_stream_handle_timeout_def nabto_stream_clear_resend_list_def c a Let_def)
qed

lemma state_nack [simp]: "st_state (nabto_stream_handle_nack_iterator a ts st) = st_state st"
  by (simp add: nabto_stream_handle_nack_iterator_def Let_def)

lemma state_nack_block [simp]: "st_state (snd (nabto_stream_nack_block it bottom ts st)) = st_state st"
  by (induction it arbitrary: st) simp_all

lemma ack_iterator_state: "st_state st \<le> st_state (nabto_stream_handle_ack_iterator a ts st)"
  by (simp add: nabto_stream_handle_ack_iterator_def nabto_stream_handle_ack_on_fin_def
      nabto_stream_segment_has_been_acked_def nabto_stream_add_fin_segment_to_send_lists_def
      state_order Let_def)

lemma ack_block_state: "st_state st \<le> st_state (snd (nabto_stream_ack_block it bottom ts st))"
  by (induction it arbitrary: st) (auto intro: order_trans [OF ack_iterator_state])

lemma ack_rest_state: "st_state st \<le> st_state (ack_rest it ts st)"
  by (induction it arbitrary: st) (auto intro: order_trans [OF ack_iterator_state])

lemma parse_gaps_state: "st_state st \<le> st_state (snd (parse_gaps n ptr ackTop it ts st))"
proof (induction n arbitrary: ptr ackTop it st)
  case (Suc n)
  show ?case
    by (auto simp: split_beta Let_def split: option.split
        intro!: order_trans [OF ack_block_state order_trans [OF eq_refl Suc.IH]])
qed simp

lemma apply_window_state [simp]: "st_state (apply_window m w hdr st) = st_state st"
  by (simp add: apply_window_def Let_def)

lemma parse_ack_extension_state: "st_state st \<le> st_state (nabto_stream_parse_ack_extension ext hdr st)"
proof -
  define st1 where "st1 = (if st_state st = ST_SYN_RCVD then nabto_stream_handle_ack_on_syn_ack st else st)"
  have 1: "st_state st \<le> st_state st1"
    by (simp add: st1_def nabto_stream_handle_ack_on_syn_ack_def state_order)
  have 2: "st_state st1 \<le> st_state (ack_rest (fst (parse_gaps n ptr t it ts st')) ts
      (snd (parse_gaps n ptr t it ts st')))"
    if "st_state st' = st_state st1" for n ptr t it ts and st' :: "'a stream"
    using that order_trans [OF parse_gaps_state ack_rest_state] by metis
  have "st_state st1 \<le> st_state (nabto_stream_parse_ack_extension ext hdr st) \<or>
      nabto_stream_parse_ack_extension ext hdr st = st"
    unfolding nabto_stream_parse_ack_extension_def st1_def [symmetric]
    by (auto simp: Let_def split_beta split: option.split intro!: 2)
  with 1 show ?thesis by auto
qed

lemma extension_loop_le:
  assumes "\<And>type ext st. st_state st \<le> st_state (f type ext st)"
  shows "st_state st \<le> st_state (snd (extension_loop f ptr st))"
  by (rule extension_loop_invariant [where I = "\<lambda>s. st_state st \<le> st_state s"])
     (auto intro: order_trans assms)

lemma parse_acking_state: "st_state st \<le> st_state (nabto_stream_parse_acking ptr hdr st)"
  unfolding nabto_stream_parse_acking_def
  by (rule extension_loop_le) (simp add: parse_ack_extension_state)

lemma handle_syn_state: "st_state st \<le> st_state (nabto_stream_handle_syn hdr req st)"
  by (simp add: nabto_stream_handle_syn_def Let_def state_order)

lemma handle_syn_ack_state: "st_state st \<le> st_state (nabto_stream_handle_syn_ack hdr req st)"
  by (simp add: nabto_stream_handle_syn_ack_def Let_def state_order)

lemma handle_rst_state: "st_state st \<le> st_state (nabto_stream_handle_rst st)"
  by (cases "st_state st") (simp_all add: nabto_stream_handle_rst_def Let_def state_order)

lemma nonce_response_same [simp]:
  "st_state (nabto_stream_parse_nonce_response ptr st) = st_state st"
  unfolding nabto_stream_parse_nonce_response_def
  by (rule extension_loop_invariant [where I = "\<lambda>s. st_state s = st_state st"])
     (auto split: option.split)

lemma parse_ack_data_extension_state: "st_state st \<le> st_state (parse_ack_data_extension type ext st)"
  by (auto simp: parse_ack_data_extension_def nabto_stream_parse_data_extension_def
      nabto_stream_parse_fin_extension_def handle_fin_state split: option.split)

lemma parse_ack_state: "st_state st \<le> st_state (nabto_stream_parse_ack ptr hdr st)"
proof -
  have *: "st_state st' \<le> st_state (snd (extension_loop parse_ack_data_extension ptr
      (nabto_stream_parse_acking ptr hdr st')))" for st' :: "'a stream"
    by (rule order_trans [OF parse_acking_state extension_loop_le]) (rule parse_ack_data_extension_state)
  show ?thesis
    using * [of st] * [of "nabto_stream_parse_nonce_response ptr st"]
    by (simp add: nabto_stream_parse_ack_def Let_def)
qed

lemma parse_syn_ack_state: "st_state st \<le> st_state (nabto_stream_parse_syn_ack ptr hdr st)"
  by (auto simp: nabto_stream_parse_syn_ack_def Let_def split: prod.split bool.split
      intro: order_trans [OF handle_syn_ack_state parse_acking_state])

lemma parse_syn_state: "st_state st \<le> st_state (nabto_stream_parse_syn ptr hdr st)"
  by (auto simp: nabto_stream_parse_syn_def Let_def handle_syn_state split: prod.split bool.split)

text \<open>Reasoning about \<open>nabto_stream_handle_packet\<close> by the kind of packet.\<close>

lemma handle_packet_rule:
  assumes "P st"
    and "\<And>ts. P (packet_received ts st)"
    and "\<And>ptr hdr ts. P (nabto_stream_parse_syn ptr hdr (packet_received ts st))"
    and "\<And>ptr hdr ts. P (nabto_stream_parse_syn_ack ptr hdr (packet_received ts st))"
    and "\<And>ptr hdr ts. P (nabto_stream_parse_ack ptr hdr (packet_received ts st))"
    and "\<And>ts. P (nabto_stream_handle_rst (packet_received ts st))"
  shows "P (nabto_stream_handle_packet packet st)"
  unfolding nabto_stream_handle_packet_def Let_def
  using assms by (auto split: option.split)

lemma packet_received_state [simp]: "st_state (packet_received ts st) = st_state st"
  by (simp add: packet_received_def Let_def)

lemma handle_packet_state: "st_state st \<le> st_state (nabto_stream_handle_packet packet st)"
proof -
  have l: "st_state st \<le> st_state st'" if "st_state (packet_received ts st) \<le> st_state st'" for st' ts
    using that by simp
  show ?thesis
    by (rule handle_packet_rule)
       (auto intro: l [OF parse_syn_state] l [OF parse_syn_ack_state] l [OF parse_ack_state]
          l [OF handle_rst_state])
qed

lemma next_event_state [simp]: "st_state (snd (nabto_stream_next_event_to_handle st)) = st_state st"
  by (simp add: nabto_stream_next_event_to_handle_def Let_def)

lemma event_handled_state:
  "ev = ET_TIME_WAIT \<longrightarrow> st_state st \<le> ST_CLOSED \<Longrightarrow> st_state st \<le> st_state (nabto_stream_event_handled ev st)"
  by (cases ev; cases "st_state st") (simp_all add: nabto_stream_event_handled_def state_order)

lemma write_segment_same [simp]:
  "st_state (snd (nabto_stream_write_segment a ts seq s)) = st_state (snd s)"
  "st_state (snd (write_resent_segment a ts seq s)) = st_state (snd s)"
  "st_state (snd (write_new_segment a ts seq s)) = st_state (snd s)"
  by (simp_all add: nabto_stream_write_segment_def write_resent_segment_def write_new_segment_def
      Let_def split_beta)

lemma write_segments_loop_state:
  assumes "\<And>a s. st_state (snd (write a s)) = st_state (snd s)"
  shows "st_state (snd (snd (snd (write_segments_loop write as n s)))) = st_state (snd s)"
  by (induction as arbitrary: n s) (simp_all add: assms)

lemma write_data_state [simp]:
  "st_state (snd (snd (nabto_stream_write_data_to_packet ts ptr st))) = st_state st"
  by (simp add: nabto_stream_write_data_to_packet_def Let_def split_beta write_segments_loop_state)

lemma create_packet_state [simp]: "st_state (snd (nabto_stream_create_packet bsize ev st)) = st_state st"
  by (simp add: nabto_stream_create_packet_def nabto_stream_create_syn_packet_def
      nabto_stream_create_syn_ack_packet_def nabto_stream_create_ack_packet_def
      nabto_stream_logical_stamp_get_def Let_def split_beta split: stream_event.split option.split)

lemma accept_state: "st_state st \<le> st_state (snd (nabto_stream_accept st))"
  by (auto simp: nabto_stream_accept_def Let_def state_order)

lemma write_next_segment_state [simp]:
  "write_next_segment a buffer st = (sz, st') \<Longrightarrow> st_state st' = st_state st"
  by (auto simp: write_next_segment_def Let_def)

lemma write_buffer_loop_state:
  "write_buffer_loop fuel buffer queued st = Some (n, st') \<Longrightarrow> st_state st' = st_state st"
  by (induction fuel buffer queued st rule: write_buffer_loop.induct)
     (auto split: if_splits option.splits prod.splits)

lemma write_buffer_state:
  "nabto_stream_write_buffer buffer st = Some (status, n, st') \<Longrightarrow> st_state st' = st_state st"
  by (auto simp: nabto_stream_write_buffer_def Let_def dest: write_buffer_loop_state
      split: if_splits option.splits prod.splits)

lemma read_once_state [simp]: "st_state (snd (snd (nabto_stream_read_buffer_once bsize st))) = st_state st"
  by (simp add: nabto_stream_read_buffer_once_def Let_def split: list.split)

lemma read_buffer_state [simp]: "st_state (snd (snd (nabto_stream_read_buffer bsize st))) = st_state st"
proof -
  have "st_state (snd (snd (read_buffer_loop fuel bsize st))) = st_state st" for fuel
    by (induction fuel arbitrary: bsize st)
       (auto split: prod.split, (metis read_once_state snd_conv)+)
  then show ?thesis unfolding nabto_stream_read_buffer_def by blast
qed

lemma close_state: "st_state st \<le> st_state (snd (nabto_stream_close st))"
  by (cases "st_state st")
     (simp_all add: nabto_stream_close_def nabto_stream_add_fin_segment_to_send_lists_def Let_def state_order)

lemma connection_died_state: "st_state st \<le> st_state (nabto_stream_connection_died st)"
  by (cases "st_state st") (simp_all add: nabto_stream_connection_died_def state_order)

section \<open>Before the stream is open there is nothing to send or read\<close>

definition early_inv :: "'m stream \<Rightarrow> bool" where
  "early_inv st \<longleftrightarrow> (st_state st \<le> ST_SYN_SENT \<longrightarrow>
     st_recvRead st = [] \<and> st_recvWindow st = [] \<and> st_unacked st = [] \<and> st_sendList st = [] \<and>
     \<not> is_future (st_sendSegmentAllocationStamp st) \<and>
     \<not> is_future (st_recvSegmentAllocationStamp st) \<and> st_nextUnfilledSendSegment st = None)"

definition early_part :: "'m stream \<Rightarrow> stream_state \<times> recv_segment list \<times> recv_segment list \<times>
    seg_addr list \<times> seg_addr list \<times> stream_stamp \<times> stream_stamp \<times> seg_addr option" where
  "early_part st = (st_state st, st_recvRead st, st_recvWindow st, st_unacked st, st_sendList st,
     st_sendSegmentAllocationStamp st, st_recvSegmentAllocationStamp st, st_nextUnfilledSendSegment st)"

lemma early_inv_part: "early_part st = early_part st' \<Longrightarrow> early_inv st = early_inv st'"
  by (simp add: early_part_def early_inv_def)

lemma early_part_state: "early_part st = early_part st' \<Longrightarrow> st_state st = st_state st'"
  by (simp add: early_part_def)

lemma early_inv_late: "ST_SYN_SENT < st_state st \<Longrightarrow> early_inv st"
  by (simp add: early_inv_def flip: not_le)

lemma early_inv_le: "ST_SYN_SENT < st_state st \<Longrightarrow> st_state st \<le> st_state st' \<Longrightarrow> early_inv st'"
  by (rule early_inv_late) simp

lemma early_states: "s \<le> ST_SYN_SENT \<longleftrightarrow> s \<in> {ST_IDLE, ST_ACCEPT, ST_WAIT_ACCEPT, ST_SYN_SENT}"
  by (cases s) (simp_all add: state_order)

lemma parse_gaps_Nil [simp]: "parse_gaps n ptr ackTop [] ts st = ([], st)"
  by (induction n arbitrary: ptr ackTop) (simp_all split: option.split)

lemma early_parse_ack_extension:
  assumes "st_unacked st = []" "st_state st \<noteq> ST_SYN_RCVD"
  shows "early_part (nabto_stream_parse_ack_extension ext hdr st) = early_part st"
    "st_unacked (nabto_stream_parse_ack_extension ext hdr st) = []"
    "st_state (nabto_stream_parse_ack_extension ext hdr st) \<noteq> ST_SYN_RCVD"
  using assms
  by (auto simp: nabto_stream_parse_ack_extension_def apply_window_def early_part_def Let_def
      nabto_stream_flow_control_advertised_window_reduced_def ack_iterator_def split: option.split)

lemma early_parse_acking:
  assumes "st_unacked st = []" "st_state st \<noteq> ST_SYN_RCVD"
  shows "early_part (nabto_stream_parse_acking ptr hdr st) = early_part st"
proof -
  let ?I = "\<lambda>s. early_part s = early_part st \<and> st_unacked s = [] \<and> st_state s \<noteq> ST_SYN_RCVD"
  have "?I (nabto_stream_parse_acking ptr hdr st)"
    unfolding nabto_stream_parse_acking_def
    by (rule extension_loop_invariant [where I = ?I])
       (use assms in \<open>auto simp: early_parse_ack_extension\<close>)
  then show ?thesis by blast
qed

lemma early_parse_ack_data_extension:
  assumes "st_state st \<le> ST_SYN_SENT"
  shows "early_part (parse_ack_data_extension type ext st) = early_part st"
  using assms
  by (auto simp: parse_ack_data_extension_def nabto_stream_parse_data_extension_def
      nabto_stream_parse_fin_extension_def nabto_stream_handle_data_def nabto_stream_handle_fin_def
      Let_def early_states early_part_def split: option.split)

lemma early_parse_ack:
  assumes "early_inv st" "st_state st \<le> ST_SYN_SENT"
  shows "early_part (nabto_stream_parse_ack ptr hdr st) = early_part st"
proof -
  have n: "early_part (nabto_stream_parse_nonce_response ptr st') = early_part st'" for st' :: "'a stream"
    unfolding nabto_stream_parse_nonce_response_def
    by (rule extension_loop_invariant [where I = "\<lambda>s. early_part s = early_part st'"])
       (auto simp: early_part_def split: option.split)
  have l: "early_part (snd (extension_loop parse_ack_data_extension ptr s)) = early_part st"
    if "early_part s = early_part st" for s
    by (rule extension_loop_invariant [where I = "\<lambda>s. early_part s = early_part st"])
       (use that assms(2) early_parse_ack_data_extension early_part_state in \<open>metis+\<close>)
  have a: "early_part (nabto_stream_parse_acking ptr hdr s) = early_part st"
    if "early_part s = early_part st" for s
  proof -
    have "st_unacked s = []" "st_state s \<noteq> ST_SYN_RCVD"
      using that assms by (auto simp: early_part_def early_inv_def early_states)
    then show ?thesis using early_parse_acking that by metis
  qed
  show ?thesis
    unfolding nabto_stream_parse_ack_def Let_def
    by (auto simp: n intro!: l a)
qed

lemma early_handle_syn: "early_inv st \<Longrightarrow> early_inv (nabto_stream_handle_syn hdr req st)"
  by (auto simp: nabto_stream_handle_syn_def SET_STATE_def nabto_stream_state_transition_def Let_def
      early_inv_def state_order)

lemma handle_packet_early_inv:
  assumes "early_inv st"
  shows "early_inv (nabto_stream_handle_packet packet st)"
proof (cases "st_state st \<le> ST_SYN_SENT")
  case False
  then show ?thesis using early_inv_le [OF _ handle_packet_state] by (simp add: not_le)
next
  case early: True
  have syn: "early_inv (nabto_stream_parse_syn ptr hdr s)" if "early_inv s" for ptr hdr and s :: "'a stream"
    using that by (auto simp: nabto_stream_parse_syn_def Let_def early_handle_syn
        split: prod.split bool.split)
  have sa: "early_inv (nabto_stream_parse_syn_ack ptr hdr s)" if "early_part s = early_part st" for ptr hdr s
  proof -
    have early_s: "early_inv s" "st_state s \<le> ST_SYN_SENT"
      using that assms early early_inv_part early_part_state by metis+
    have h: "early_inv (nabto_stream_parse_acking ptr hdr (nabto_stream_handle_syn_ack hdr req s))" for req
    proof (cases "st_state s = ST_SYN_SENT")
      case True
      then have "st_state (nabto_stream_handle_syn_ack hdr req s) = ST_ESTABLISHED"
        by (simp add: nabto_stream_handle_syn_ack_def Let_def)
      then show ?thesis
        by (intro early_inv_le [OF _ parse_acking_state]) (simp add: state_order)
    next
      case False
      let ?s = "nabto_stream_handle_syn_ack hdr req s"
      have p: "early_part ?s = early_part s"
        using False early_s(2)
        by (auto simp: nabto_stream_handle_syn_ack_def Let_def early_states early_part_def)
      then have "st_unacked ?s = []" "st_state ?s \<noteq> ST_SYN_RCVD"
        using early_s by (auto simp: early_part_def early_inv_def early_states)
      then show ?thesis
        using early_parse_acking p early_inv_part early_s(1) by metis
    qed
    show ?thesis
      using early_s(1) h by (auto simp: nabto_stream_parse_syn_ack_def Let_def split: prod.split bool.split)
  qed
  have ack: "early_inv (nabto_stream_parse_ack ptr hdr s)" if "early_part s = early_part st" for ptr hdr s
    using early_parse_ack [of s ptr hdr] that assms early early_inv_part early_part_state by metis
  have rst: "early_inv (nabto_stream_handle_rst s)" if "early_part s = early_part st" for s
  proof -
    have "st_state (nabto_stream_handle_rst s) = ST_ABORTED_RST"
      using early_part_state [OF that] early
      by (auto simp: nabto_stream_handle_rst_def early_states Let_def state_order)
    then show ?thesis by (intro early_inv_late) (simp add: state_order)
  qed
  have upd: "early_part (packet_received ts st) = early_part st" for ts
    by (simp add: early_part_def packet_received_def Let_def)
  have inv: "early_inv s" if "early_part s = early_part st" for s
    using early_inv_part [OF that] assms by simp
  show ?thesis
    by (rule handle_packet_rule) (simp_all add: assms upd inv syn sa ack rst)
qed

end
