(* ===== verification/Stream_Reach.thy ===== *)
theory Stream_Reach
  imports Stream_State
begin

text \<open>
  The states a stream can reach.  \<open>stream_inv\<close> is the invariant of the receive side; every operation
  of the interface preserves it, a packet under the condition \<open>packet_near\<close> that none of its fins
  is numbered half the number space away (\<open>Stream_Receive_Props\<close> shows what happens otherwise).
  \<open>stream_reach md\<close> is the reachability relation for a stream driven through \<open>nabto_stream.h\<close> with
  the callbacks \<open>md\<close>, and \<open>stream_reach_inv\<close> the induction over it.
\<close>

section \<open>Packets\<close>

text \<open>
  The guard on packets: along the run of the second extension loop of \<open>nabto_stream_parse_ack\<close>,
  no fin extension has a number at the far end of the number space.
\<close>

definition packet_near :: "bytes \<Rightarrow> 'm stream \<Rightarrow> bool" where
  "packet_near packet st = (case nabto_stream_read_uint8 (Some packet) of
     None \<Rightarrow> True
   | Some (flags, ptr) \<Rightarrow> (case nabto_stream_read_uint32 (Some ptr) of
       None \<Rightarrow> True
     | Some (ts, ptr) \<Rightarrow>
        (let st = packet_received ts st;
             st = (if \<not> st_disableReplayProtection st \<and> \<not> st_nonceValidated st
                   then nabto_stream_parse_nonce_response ptr st else st)
         in fins_near ptr \<lparr>hd_flags = flags, hd_timestampValue = ts\<rparr> st)))"

definition stream_inv :: "'m stream \<Rightarrow> bool" where
  "stream_inv st \<longleftrightarrow> recv_inv st \<and> early_inv st \<and> recv_allocator_ok (st_module st)"

lemma parse_ack_data_extension_inv:
  assumes "recv_inv st \<and> recv_allocator_ok (st_module st)" "fin_near type ext st"
  shows "recv_inv (parse_ack_data_extension type ext st) \<and>
    recv_allocator_ok (st_module (parse_ack_data_extension type ext st))"
  using assms handle_data_inv handle_fin_inv
  by (auto simp: parse_ack_data_extension_def nabto_stream_parse_data_extension_def fin_near_def
      nabto_stream_parse_fin_extension_def handle_fin_state(2) split: option.split if_splits)

lemma recv_part_module: "recv_part st = recv_part st' \<Longrightarrow> st_module st = st_module st'"
  by (simp add: recv_part_def)

lemma recv_ok_part:
  assumes "recv_part st' = recv_part st" "recv_inv st \<and> recv_allocator_ok (st_module st)"
  shows "recv_inv st' \<and> recv_allocator_ok (st_module st')"
  using assms recv_inv_part recv_part_module by metis

lemma parse_ack_recv_inv:
  assumes "recv_inv st \<and> recv_allocator_ok (st_module st)"
    and "fins_near ptr hdr (if \<not> st_disableReplayProtection st \<and> \<not> st_nonceValidated st
           then nabto_stream_parse_nonce_response ptr st else st)"
  shows "recv_inv (nabto_stream_parse_ack ptr hdr st) \<and>
    recv_allocator_ok (st_module (nabto_stream_parse_ack ptr hdr st))"
proof -
  let ?st = "if \<not> st_disableReplayProtection st \<and> \<not> st_nonceValidated st
           then nabto_stream_parse_nonce_response ptr st else st"
  have 1: "recv_inv ?st \<and> recv_allocator_ok (st_module ?st)"
    by (rule recv_ok_part [OF _ assms(1)]) simp
  have 2: "recv_inv (nabto_stream_parse_acking ptr hdr ?st) \<and>
      recv_allocator_ok (st_module (nabto_stream_parse_acking ptr hdr ?st))"
    by (rule recv_ok_part [OF _ 1]) simp
  have 3: "recv_inv (snd (extension_loop parse_ack_data_extension ptr (nabto_stream_parse_acking ptr hdr ?st))) \<and>
      recv_allocator_ok (st_module (snd (extension_loop parse_ack_data_extension ptr
        (nabto_stream_parse_acking ptr hdr ?st))))"
    using assms(2) unfolding fins_near_def
    by (rule loop_guard_invariant [where
          I = "\<lambda>s. recv_inv s \<and> recv_allocator_ok (st_module s)"])
       (use 2 parse_ack_data_extension_inv in blast)+
  have e: "nabto_stream_parse_ack ptr hdr st =
     (if \<not> st_disableReplayProtection ?st \<and> \<not> st_nonceValidated ?st then ?st
      else snd (extension_loop parse_ack_data_extension ptr (nabto_stream_parse_acking ptr hdr ?st)))"
    by (auto simp: nabto_stream_parse_ack_def Let_def)
  show ?thesis unfolding e using 1 3 by presburger
qed

lemma handle_syn_recv_inv:
  assumes "recv_inv st" "early_inv st"
  shows "recv_inv (nabto_stream_handle_syn hdr req st)"
  using assms
  by (auto simp: nabto_stream_handle_syn_def Let_def recv_inv_def recv_lists_def early_inv_def
      SET_STATE_def nabto_stream_state_transition_def state_order)

lemma handle_syn_ack_recv_inv:
  assumes "recv_inv st" "early_inv st" "recv_allocator_ok (st_module st)"
  shows "recv_inv (nabto_stream_handle_syn_ack hdr req st)"
proof -
  define st1 where "st1 = (if \<not> st_disableReplayProtection st then
                  (if \<not> sa_hasNonce req then st\<lparr>st_disableReplayProtection := True\<rparr>
                   else st\<lparr>st_sendNonce := True, st_nonce := sa_nonce req\<rparr>)
                else st)"
  have p: "recv_part st1 = recv_part st" by (simp add: st1_def)
  have e: "early_inv st1" "st_state st1 = st_state st"
    using assms(2) by (auto simp: st1_def early_inv_def)
  show ?thesis
  proof (cases "st_state st = ST_SYN_SENT")
    case False
    then show ?thesis
      using p assms(1) recv_inv_part [OF p] unfolding nabto_stream_handle_syn_ack_def st1_def [symmetric]
      by (auto simp: Let_def e recv_inv_def)
  next
    case True
    let ?s = "(SET_STATE ST_ESTABLISHED st1)\<lparr>
        st_maxSendSegmentSize := min16 (st_maxSendSegmentSize (SET_STATE ST_ESTABLISHED st1)) (sa_maxRecvSegmentSize req),
        st_maxRecvSegmentSize := min16 (st_maxRecvSegmentSize (SET_STATE ST_ESTABLISHED st1)) (sa_maxSendSegmentSize req),
        st_imediateAck := True, st_recvMax := sa_seq req, st_recvMaxAllocated := sa_seq req,
        st_recvTop := sa_seq req, st_timestampToEcho := hd_timestampValue hdr\<rparr>"
    let ?s2 = "nabto_stream_allocate_next_send_segment ?s"
    have empty: "st_recvWindow (SET_STATE ST_ESTABLISHED st1) = []"
      "st_recvRead (SET_STATE ST_ESTABLISHED st1) = []"
      "\<not> is_future (st_recvSegmentAllocationStamp (SET_STATE ST_ESTABLISHED st1))"
      using e True recv_part_SET_STATE [of ST_ESTABLISHED st1]
      by (auto simp: recv_part_def early_inv_def)
    have "recv_inv ?s"
      using empty by (simp add: recv_inv_def recv_lists_def)
    then have i: "recv_inv ?s2"
      using recv_inv_part [OF recv_part_allocate_send [of ?s]] by simp
    have m: "st_module ?s2 = st_module st" "st_recvWindow ?s2 = []"
      using recv_part_allocate_send [of ?s] p empty(1) by (simp_all add: recv_part_def)
    have "recv_inv (snd (nabto_stream_allocate_next_recv_segment ?s2))"
      by (rule allocate_next_recv_segment_inv) (use i m assms(3) in simp_all)
    then show ?thesis
      using True unfolding nabto_stream_handle_syn_ack_def st1_def [symmetric]
      by (simp add: Let_def e)
  qed
qed

lemma handle_syn_module [simp]:
  "st_module (nabto_stream_handle_syn hdr req st) = st_module st"
  by (simp add: nabto_stream_handle_syn_def Let_def)

lemma allocate_module [simp]:
  "st_module (nabto_stream_allocate_next_send_segment st) = st_module st"
  "st_module (snd (nabto_stream_allocate_next_recv_segment st)) = st_module st"
  by (simp_all add: nabto_stream_allocate_next_send_segment_def set_seg_def
      nabto_stream_allocate_next_recv_segment_def Let_def split: prod.split option.split)

lemma handle_syn_ack_module [simp]:
  "st_module (nabto_stream_handle_syn_ack hdr req st) = st_module st"
  by (simp add: nabto_stream_handle_syn_ack_def Let_def)

lemma handle_packet_inv:
  assumes "stream_inv st" "packet_near packet st"
  shows "stream_inv (nabto_stream_handle_packet packet st)"
proof -
  have rp: "recv_part (packet_received ts st) = recv_part st" for ts
    by (simp add: packet_received_def Let_def)
  have r: "recv_inv (packet_received ts st) \<and> recv_allocator_ok (st_module (packet_received ts st))" for ts
    by (rule recv_ok_part [OF rp]) (use assms(1) in \<open>simp add: stream_inv_def\<close>)
  have e: "early_inv (packet_received ts st)" for ts
    using assms(1) by (auto simp: stream_inv_def packet_received_def Let_def early_inv_def)
  let ?P = "\<lambda>s. recv_inv s \<and> recv_allocator_ok (st_module s)"
  have syn: "?P (nabto_stream_parse_syn ptr hdr (packet_received ts st))" for ptr hdr ts
    using r [of ts] e [of ts] by (auto simp: nabto_stream_parse_syn_def Let_def handle_syn_recv_inv
        split: prod.split bool.split)
  have sa1: "?P (nabto_stream_parse_acking ptr hdr (nabto_stream_handle_syn_ack hdr req (packet_received ts st)))"
    for ptr hdr req ts
    by (rule recv_ok_part [OF recv_part_parse_acking]) (use r [of ts] e [of ts] handle_syn_ack_recv_inv in auto)
  have sa: "?P (nabto_stream_parse_syn_ack ptr hdr (packet_received ts st))" for ptr hdr ts
    using r [of ts] sa1 by (auto simp: nabto_stream_parse_syn_ack_def Let_def split: prod.split bool.split)
  have rst: "?P (nabto_stream_handle_rst (packet_received ts st))" for ts
    using r [of ts] by (auto simp: nabto_stream_handle_rst_def Let_def)
  have st: "?P st" using assms(1) by (simp add: stream_inv_def)
  have "?P (nabto_stream_handle_packet packet st)"
  proof (cases "nabto_stream_read_uint8 (Some packet)")
    case None
    then show ?thesis using st by (simp add: nabto_stream_handle_packet_def)
  next
    case (Some a)
    obtain flags p where a: "a = (flags, p)" by fastforce
    show ?thesis
    proof (cases "nabto_stream_read_uint32 (Some p)")
      case None
      then show ?thesis using Some a st by (simp add: nabto_stream_handle_packet_def)
    next
      case (Some b)
      obtain ts ptr where b: "b = (ts, ptr)" by fastforce
      let ?hdr = "\<lparr>hd_flags = flags, hd_timestampValue = ts\<rparr>"
      have ack: "?P (nabto_stream_parse_ack ptr ?hdr (packet_received ts st))"
        by (rule parse_ack_recv_inv [OF r])
           (use assms(2) \<open>nabto_stream_read_uint8 _ = _\<close> Some a b in \<open>simp add: packet_near_def Let_def\<close>)
      have eq: "nabto_stream_handle_packet packet st =
          (if \<not> nabto_stream_extensions_well_formed ptr then st
           else if flags = NABTO_STREAM_FLAG_SYN then nabto_stream_parse_syn ptr ?hdr (packet_received ts st)
           else if flags = NABTO_STREAM_FLAG_SYN_ACK then nabto_stream_parse_syn_ack ptr ?hdr (packet_received ts st)
           else if flags = NABTO_STREAM_FLAG_ACK then nabto_stream_parse_ack ptr ?hdr (packet_received ts st)
           else if flags = NABTO_STREAM_FLAG_RST then nabto_stream_handle_rst (packet_received ts st)
           else packet_received ts st)"
        using \<open>nabto_stream_read_uint8 _ = _\<close> Some a b
        by (simp add: nabto_stream_handle_packet_def Let_def)
      show ?thesis
        unfolding eq using syn sa ack rst r st by presburger
    qed
  qed
  then show ?thesis
    using handle_packet_early_inv [of st packet] assms(1) by (simp add: stream_inv_def)
qed

section \<open>The other operations\<close>

lemma stream_inv_parts:
  assumes "stream_inv st" "recv_part st' = recv_part st" "early_inv st'"
  shows "stream_inv st'"
  using assms recv_inv_part recv_part_module by (metis stream_inv_def)

lemma stream_inv_late:
  assumes "stream_inv st" "recv_part st' = recv_part st" "st_state st \<le> st_state st'"
    "st_state st \<le> ST_SYN_SENT \<longrightarrow> early_inv st'"
  shows "stream_inv st'"
  using stream_inv_parts [OF assms(1,2)] early_inv_le [OF _ assms(3)] assms(4) by (auto simp: not_le)

lemma early_allocate [simp]:
  "early_inv st \<Longrightarrow> is_future (st_sendSegmentAllocationStamp st) \<Longrightarrow>
   early_inv (nabto_stream_allocate_next_send_segment st)"
  "early_inv st \<Longrightarrow> is_future (st_recvSegmentAllocationStamp st) \<Longrightarrow>
   early_inv (snd (nabto_stream_allocate_next_recv_segment st))"
  by (auto simp: early_inv_def)

lemma recv_inv_simps [simp]:
  "recv_inv (nabto_stream_allocate_next_send_segment st) = recv_inv st"
  "recv_inv (nabto_stream_module_notify_event ev st) = recv_inv st"
  by (rule recv_inv_part, simp)+

lemma notify_module [simp]: "st_module (nabto_stream_module_notify_event ev st) = st_module st"
  by (simp add: nabto_stream_module_notify_event_def)

lemma recv_window_blocked:
  "recv_inv st \<Longrightarrow> is_future (st_recvSegmentAllocationStamp st) \<Longrightarrow> length (st_recvWindow st) \<le> 10000"
  by (simp add: recv_inv_def recv_lists_def)

lemma next_event_inv:
  assumes "stream_inv st"
  shows "stream_inv (snd (nabto_stream_next_event_to_handle st))"
proof -
  define st1 where "st1 = (if is_future (st_sendSegmentAllocationStamp st)
      then nabto_stream_allocate_next_send_segment st else st)"
  have 1: "stream_inv st1"
    unfolding st1_def using assms
    by (auto intro!: stream_inv_parts [OF assms] simp: stream_inv_def)
  then have "stream_inv (if is_future (st_recvSegmentAllocationStamp st1)
      then snd (nabto_stream_allocate_next_recv_segment st1) else st1)"
    using recv_window_blocked [of st1] by (auto simp: stream_inv_def intro!: allocate_next_recv_segment_inv)
  then show ?thesis
    unfolding st1_def by (simp add: nabto_stream_next_event_to_handle_def Let_def split del: if_split)
qed

lemma early_inv_updates [simp]:
  "early_inv (st\<lparr>st_timeoutStamp := t\<rparr>) = early_inv st"
  "early_inv (st\<lparr>st_retransCount := c\<rparr>) = early_inv st"
  "early_inv (st\<lparr>st_imediateAck := b\<rparr>) = early_inv st"
  "early_inv (st\<lparr>st_sendAck := b\<rparr>) = early_inv st"
  "early_inv (st\<lparr>st_segmentSentAfterTimeout := b\<rparr>) = early_inv st"
  "early_inv (st\<lparr>st_user := u\<rparr>) = early_inv st"
  "early_inv (st\<lparr>st_startSequenceNumber := w\<rparr>) = early_inv st"
  "early_inv (st\<lparr>st_contentType := w\<rparr>) = early_inv st"
  "early_inv (st\<lparr>st_xmitMaxAllocated := w\<rparr>) = early_inv st"
  "early_inv (st\<lparr>st_hasCallback := b\<rparr>) = early_inv st"
  "early_inv (st\<lparr>st_logicalTimestamp := w\<rparr>) = early_inv st"
  "early_inv (st\<lparr>st_sendNonce := b\<rparr>) = early_inv st"
  "early_inv (st\<lparr>st_sentPackets := w\<rparr>) = early_inv st"
  "early_inv (st\<lparr>st_sentBytes := x\<rparr>) = early_inv st"
  "early_inv (st\<lparr>st_timeFirstMBSent := w\<rparr>) = early_inv st"
  "early_inv (upd_cc f st) = early_inv st"
  "early_inv (upd_events g st) = early_inv st"
  "early_inv (nabto_stream_module_notify_event ev st) = early_inv st"
  by (simp_all add: early_inv_def upd_cc_def upd_events_def nabto_stream_module_notify_event_def)

lemma early_inv_SET_STATE:
  "early_inv st \<Longrightarrow> s \<le> ST_SYN_SENT \<Longrightarrow> st_state st \<le> ST_SYN_SENT \<Longrightarrow> early_inv (SET_STATE s st)"
  by (cases s)
     (auto simp: early_inv_def SET_STATE_def nabto_stream_state_transition_def state_order)

lemma event_handled_inv:
  assumes "stream_inv st" "ev = ET_TIME_WAIT \<longrightarrow> st_state st \<le> ST_CLOSED"
  shows "stream_inv (nabto_stream_event_handled ev st)"
proof (rule stream_inv_late [OF assms(1) _ event_handled_state [OF assms(2)]])
  show "recv_part (nabto_stream_event_handled ev st) = recv_part st"
    by (cases ev) (simp_all add: nabto_stream_event_handled_def)
  show "st_state st \<le> ST_SYN_SENT \<longrightarrow> early_inv (nabto_stream_event_handled ev st)"
    using assms(1)
    by (cases ev)
       (auto simp: nabto_stream_event_handled_def stream_inv_def state_order early_inv_late
          intro!: early_inv_SET_STATE)
qed

lemma handle_timeout_inv: "stream_inv st \<Longrightarrow> stream_inv (nabto_stream_handle_timeout st)"
proof (rule stream_inv_parts)
  assume "stream_inv st"
  have c: "early_inv (clear_resend_loop it s) = early_inv s" for it and s :: "'a stream"
    by (induction it arbitrary: s)
       (simp_all add: nabto_stream_remove_segment_from_resend_list_def early_inv_def)
  have m: "early_inv (mark_all it s) = early_inv s" for it and s :: "'a stream"
    by (induction it arbitrary: s)
       (simp_all add: nabto_stream_mark_segment_for_retransmission_def early_inv_def)
  have t: "early_inv (nabto_stream_congestion_control_timeout s) = early_inv s" for s :: "'a stream"
    by (simp add: nabto_stream_congestion_control_timeout_def Let_def)
       (simp add: early_inv_def upd_cc_def)
  show "early_inv (nabto_stream_handle_timeout st)"
    using \<open>stream_inv st\<close>
    by (simp add: nabto_stream_handle_timeout_def nabto_stream_clear_resend_list_def Let_def c m t stream_inv_def)
qed simp_all

text \<open>Writing segments to a packet.\<close>

lemma recv_part_write_segment [simp]:
  "recv_part (snd (nabto_stream_write_segment a ts q s)) = recv_part (snd s)"
  "recv_part (snd (write_resent_segment a ts q s)) = recv_part (snd s)"
  "recv_part (snd (write_new_segment a ts q s)) = recv_part (snd s)"
  by (simp_all add: nabto_stream_write_segment_def write_resent_segment_def write_new_segment_def
      Let_def split_beta)

lemma write_segments_loop_invariant:
  assumes "\<And>a s. I s \<Longrightarrow> I (wr a s)" "I s"
  shows "I (snd (snd (write_segments_loop wr as n s)))"
  using assms(2) by (induction as arbitrary: n s) (simp_all add: assms(1))

lemma recv_part_write_data [simp]:
  "recv_part (snd (snd (nabto_stream_write_data_to_packet ts ptr st))) = recv_part st"
proof -
  have r: "recv_part (snd (snd (snd (write_segments_loop (\<lambda>a. write_resent_segment a ts q) as n s)))) = recv_part (snd s)"
    for as n q and s :: "wptr \<times> 'a stream"
    using write_segments_loop_invariant [where I = "\<lambda>x. recv_part (snd x) = recv_part (snd s)" and
        wr = "\<lambda>a. write_resent_segment a ts q"] by simp
  have w: "recv_part (snd (snd (snd (write_segments_loop (\<lambda>a. write_new_segment a ts q) as n s)))) = recv_part (snd s)"
    for as n q and s :: "wptr \<times> 'a stream"
    using write_segments_loop_invariant [where I = "\<lambda>x. recv_part (snd x) = recv_part (snd s)" and
        wr = "\<lambda>a. write_new_segment a ts q"] by simp
  show ?thesis
    by (simp add: nabto_stream_write_data_to_packet_def Let_def split_beta r w)
qed

lemma recv_part_create_packet [simp]:
  "recv_part (snd (nabto_stream_create_packet n ev st)) = recv_part st"
  by (simp add: nabto_stream_create_packet_def nabto_stream_create_syn_packet_def
      nabto_stream_create_syn_ack_packet_def nabto_stream_create_ack_packet_def
      nabto_stream_logical_stamp_get_def Let_def split_beta split: stream_event.split option.split)

lemma early_write_data:
  assumes "st_sendList st = []" "early_inv st"
  shows "early_inv (snd (snd (nabto_stream_write_data_to_packet ts ptr st)))"
proof -
  have r: "early_inv (snd (snd (snd (write_segments_loop (\<lambda>a. write_resent_segment a ts q) as n (ptr, st))))) \<and>
    st_sendList (snd (snd (snd (write_segments_loop (\<lambda>a. write_resent_segment a ts q) as n (ptr, st))))) = []"
    for as n q
    by (rule write_segments_loop_invariant [where I = "\<lambda>x. early_inv (snd x) \<and> st_sendList (snd x) = []"])
       (use assms in \<open>simp_all add: write_resent_segment_def nabto_stream_write_segment_def Let_def split_beta
          set_seg_def nabto_stream_remove_segment_from_resend_list_def early_inv_def\<close>)
  then show ?thesis
    by (simp add: nabto_stream_write_data_to_packet_def Let_def split_beta)
qed

lemma create_packet_inv:
  assumes "stream_inv st"
  shows "stream_inv (snd (nabto_stream_create_packet n ev st))"
proof (rule stream_inv_late [OF assms])
  show "st_state st \<le> ST_SYN_SENT \<longrightarrow> early_inv (snd (nabto_stream_create_packet n ev st))"
  proof
    assume "st_state st \<le> ST_SYN_SENT"
    then have "st_sendList st = []" "early_inv st"
      using assms by (auto simp: stream_inv_def early_inv_def)
    then show "early_inv (snd (nabto_stream_create_packet n ev st))"
      by (simp add: nabto_stream_create_packet_def nabto_stream_create_syn_packet_def
          nabto_stream_create_syn_ack_packet_def nabto_stream_create_ack_packet_def early_write_data
          nabto_stream_logical_stamp_get_def Let_def split_beta split: stream_event.split option.split)
  qed
qed simp_all

section \<open>The application\<close>

lemma open_inv:
  assumes "stream_inv st" "st_state st = ST_IDLE"
  shows "stream_inv (snd (nabto_stream_open ct st))"
  by (rule stream_inv_parts [OF assms(1)])
     (use assms in \<open>auto simp: nabto_stream_open_def Let_def stream_inv_def state_order intro!: early_inv_SET_STATE\<close>)

lemma stream_inv_late_state:
  assumes "recv_inv st" "recv_allocator_ok (st_module st)" "ST_SYN_SENT < st_state st"
  shows "stream_inv st"
  using assms by (simp add: stream_inv_def early_inv_late)

lemma accept_inv:
  assumes "stream_inv st"
  shows "stream_inv (snd (nabto_stream_accept st))"
proof (cases "st_state st = ST_WAIT_ACCEPT \<or> st_state st = ST_ACCEPT")
  case False
  then show ?thesis using assms by (simp add: nabto_stream_accept_def)
next
  case True
  let ?s = "nabto_stream_allocate_next_send_segment (st\<lparr>st_xmitMaxAllocated := st_startSequenceNumber st\<rparr>)"
  have p: "recv_part ?s = recv_part st" by simp
  have s: "recv_inv ?s" "recv_allocator_ok (st_module ?s)"
    using recv_ok_part [OF p] assms by (auto simp: stream_inv_def)
  have "st_recvWindow st = []"
    using True assms by (auto simp: stream_inv_def early_inv_def state_order)
  then have w: "st_recvWindow ?s = []" using p by (simp add: recv_part_def)
  have i: "recv_inv (snd (nabto_stream_allocate_next_recv_segment ?s))"
    by (rule allocate_next_recv_segment_inv [OF s]) (simp add: w)
  show ?thesis
    by (rule stream_inv_late_state)
       (use True i s(2) in \<open>auto simp: nabto_stream_accept_def Let_def state_order\<close>)
qed

lemma write_next_segment_recv_part:
  "write_next_segment a buffer st = (sz, st') \<Longrightarrow> recv_part st' = recv_part st"
  by (auto simp: write_next_segment_def Let_def)

lemma write_buffer_loop_recv_part:
  "write_buffer_loop fuel buffer queued st = Some (n, st') \<Longrightarrow> recv_part st' = recv_part st"
  by (induction fuel buffer queued st rule: write_buffer_loop.induct)
     (auto split: if_splits option.splits prod.splits dest: write_next_segment_recv_part)

lemma write_buffer_inv:
  assumes "stream_inv st" "nabto_stream_write_buffer buffer st = Some (status, n, st')"
  shows "stream_inv st'"
proof (cases "status = SS_OK")
  case False
  then show ?thesis
    using assms by (auto simp: nabto_stream_write_buffer_def Let_def
        split: if_splits option.splits prod.splits)
next
  case True
  then have late: "st_state st \<in> {ST_ESTABLISHED, ST_CLOSE_WAIT, ST_SYN_RCVD}"
    using assms(2) by (auto simp: nabto_stream_write_buffer_def Let_def split: if_splits)
  show ?thesis
  proof (rule stream_inv_parts [OF assms(1)])
    show "recv_part st' = recv_part st"
      using assms(2) by (auto simp: nabto_stream_write_buffer_def Let_def
          dest: write_buffer_loop_recv_part simp del: write_buffer_loop.simps
          split: if_splits option.splits prod.splits)
    show "early_inv st'"
      using late write_buffer_state [OF assms(2)] by (intro early_inv_late) (auto simp: state_order)
  qed
qed

lemma consecutive_tl:
  "consecutive (recvTop - of_nat (Suc n)) (x # xs) \<Longrightarrow> length xs = n \<Longrightarrow> consecutive (recvTop - of_nat n) xs"
  by (auto simp: consecutive_Cons algebra_simps)

lemma recv_lists_tl:
  assumes "recv_lists (s # readList) win recvTop recvMax recvMaxAllocated blocked"
  shows "recv_lists readList win recvTop recvMax recvMaxAllocated blocked"
  using assms consecutive_tl [of recvTop "length readList" "rs_seq s" "map rs_seq readList"]
  by (auto simp: recv_lists_def)

lemma recv_lists_used:
  assumes "recv_lists (s # readList) win recvTop recvMax recvMaxAllocated blocked"
    "u \<le> rs_size s"
  shows "recv_lists (s\<lparr>rs_used := u\<rparr> # readList) win recvTop recvMax recvMaxAllocated blocked"
  using assms by (auto simp: recv_lists_def recv_seg_ok_def)

lemma free_recv_simps [simp]:
  "recv_inv (nabto_stream_free_recv_segment s st) = recv_inv st"
  "early_inv (nabto_stream_free_recv_segment s st) = early_inv st"
  "st_module (nabto_stream_free_recv_segment s st) = st_module st"
  by (simp_all add: nabto_stream_free_recv_segment_def early_inv_def recv_inv_def)

lemma used_advance:
  assumes "(u::u16) \<le> sz"
  shows "unat (u + of_nat (min (unat (sz - u)) n)) = unat u + min (unat sz - unat u) n"
proof -
  have d: "unat (sz - u) = unat sz - unat u" using assms by (simp add: unat_sub)
  have le: "unat u + min (unat sz - unat u) n \<le> unat sz" using assms by (simp add: word_le_nat_alt)
  also have "\<dots> < 65536" by simp
  finally show ?thesis
    by (simp add: d unat_word_ariths unat_of_nat)
qed

lemma used_le_size:
  assumes "(u::u16) \<le> sz"
  shows "u + of_nat (min (unat (sz - u)) n) \<le> sz"
  using assms by (simp add: word_le_nat_alt used_advance [OF assms])

lemma read_once_inv:
  assumes "stream_inv st"
  shows "stream_inv (snd (snd (nabto_stream_read_buffer_once n st)))"
proof (cases "st_recvRead st")
  case Nil
  then show ?thesis using assms by (simp add: nabto_stream_read_buffer_once_def)
next
  case (Cons s rest)
  have lists: "recv_lists (s # rest) (st_recvWindow st) (st_recvTop st) (st_recvMax st)
       (st_recvMaxAllocated st) (is_future (st_recvSegmentAllocationStamp st))"
    using assms Cons by (simp add: stream_inv_def recv_inv_def)
  have ok: "rs_used s \<le> rs_size s" if "\<not> rs_isFin s"
    using lists that by (auto simp: recv_lists_def recv_seg_ok_def)
  have u: "rs_used s + of_nat (min (unat (rs_size s - rs_used s)) n) \<le> rs_size s" if "\<not> rs_isFin s"
    by (rule used_le_size [OF ok [OF that]])
  have "recv_inv (st\<lparr>st_recvRead := rest\<rparr>)"
    using assms Cons recv_lists_tl by (auto simp: stream_inv_def recv_inv_def)
  moreover have "recv_inv (st\<lparr>st_recvRead := s\<lparr>rs_used := rs_used s +
      of_nat (min (unat (rs_size s - rs_used s)) n)\<rparr> # rest\<rparr>)" if "\<not> rs_isFin s"
    using assms recv_lists_used [OF lists u [OF that]] by (simp add: stream_inv_def recv_inv_def)
  moreover have "early_inv (st\<lparr>st_recvRead := rs\<rparr>)" for rs
    using assms Cons by (auto simp: stream_inv_def early_inv_def)
  ultimately show ?thesis
    using assms Cons by (auto simp: nabto_stream_read_buffer_once_def Let_def stream_inv_def)
qed

lemma read_buffer_inv:
  assumes "stream_inv st"
  shows "stream_inv (snd (snd (nabto_stream_read_buffer n st)))"
proof -
  have "stream_inv (snd (snd (read_buffer_loop fuel n st)))" for fuel
    using assms
  proof (induction fuel arbitrary: n st)
    case (Suc fuel)
    obtain status data st' where r: "nabto_stream_read_buffer_once n st = (status, data, st')"
      by (cases "nabto_stream_read_buffer_once n st") auto
    then have "stream_inv st'" using read_once_inv [OF Suc.prems, of n] by simp
    then show ?case using Suc.IH [of st' "n - length data"] r by (simp add: split_beta)
  qed simp
  then show ?thesis unfolding nabto_stream_read_buffer_def by blast
qed

lemma close_inv:
  assumes "stream_inv st"
  shows "stream_inv (snd (nabto_stream_close st))"
proof (rule stream_inv_late [OF assms _ close_state])
  show "recv_part (snd (nabto_stream_close st)) = recv_part st"
    by (simp add: nabto_stream_close_def nabto_stream_add_fin_segment_to_send_lists_def Let_def)
  show "st_state st \<le> ST_SYN_SENT \<longrightarrow> early_inv (snd (nabto_stream_close st))"
    using assms by (auto simp: nabto_stream_close_def Let_def early_states state_order early_inv_late stream_inv_def)
qed

lemma send_segment_available_inv:
  "stream_inv st \<Longrightarrow> stream_inv (nabto_stream_send_segment_available st)"
  by (auto simp: nabto_stream_send_segment_available_def stream_inv_def early_inv_late)

lemma recv_window_full:
  assumes "recv_inv st" "st_recvMaxAllocated st = st_recvMax st"
  shows "length (st_recvWindow st) \<le> 10000"
proof -
  obtain k where k: "k \<le> 10000" "st_recvMax st = st_recvTop st + of_nat k"
    and n: "length (st_recvWindow st) \<le> 10001" "st_recvMaxAllocated st = st_recvTop st + of_nat (length (st_recvWindow st))"
    using assms(1) by (auto simp: recv_inv_def recv_lists_def)
  then have "(of_nat k :: u32) = of_nat (length (st_recvWindow st))" using assms(2) by simp
  then have "unat (of_nat k :: u32) = unat (of_nat (length (st_recvWindow st)) :: u32)" by simp
  then show ?thesis using k(1) n(1) by (simp add: unat_of_nat)
qed

lemma recv_segment_available_inv:
  "stream_inv st \<Longrightarrow> stream_inv (nabto_stream_recv_segment_available st)"
  by (auto simp: nabto_stream_recv_segment_available_def stream_inv_def early_inv_late
      intro!: allocate_next_recv_segment_inv recv_window_full)

lemma connection_died_inv:
  assumes "stream_inv st"
  shows "stream_inv (nabto_stream_connection_died st)"
  by (rule stream_inv_late [OF assms _ connection_died_state])
     (auto simp: nabto_stream_connection_died_def early_states state_order early_inv_late)

lemma dispatch_event_inv:
  assumes "stream_inv st"
  shows "stream_inv (snd (nabto_stream_dispatch_event st))"
  using assms by (intro stream_inv_parts [OF assms]) (simp_all add: nabto_stream_dispatch_event_def Let_def stream_inv_def)

lemma init_inv:
  "recv_allocator_ok md \<Longrightarrow> stream_inv (nabto_stream_init md user)"
  by (simp add: nabto_stream_init_def nabto_stream_congestion_control_init_def upd_cc_def
      stream_inv_def recv_inv_def recv_lists_def early_inv_def)

text \<open>
  The streams that initialisation, packets, the event loop and the application can lead to.  The
  user data may change between two calls.  Outside of it are: opening a stream that is not idle, the end of
  a time wait in another state, and a fin at the far end of the number space.
\<close>

inductive stream_reach :: "'m stream_module \<Rightarrow> 'm stream \<Rightarrow> bool" for md where
  init: "stream_reach md (nabto_stream_init md user)"
| initiator: "stream_reach md st \<Longrightarrow> stream_reach md (nabto_stream_init_initiator st)"
| responder: "stream_reach md st \<Longrightarrow> stream_reach md (nabto_stream_init_responder nonce st)"
| set_start: "stream_reach md st \<Longrightarrow> stream_reach md (nabto_stream_set_start_sequence_number seq st)"
| user: "stream_reach md st \<Longrightarrow> stream_reach md (st\<lparr>st_user := u\<rparr>)"
| packet: "stream_reach md st \<Longrightarrow> packet_near packet st \<Longrightarrow> stream_reach md (nabto_stream_handle_packet packet st)"
| next_event: "stream_reach md st \<Longrightarrow> stream_reach md (snd (nabto_stream_next_event_to_handle st))"
| create: "stream_reach md st \<Longrightarrow> stream_reach md (snd (nabto_stream_create_packet n ev st))"
| handled: "stream_reach md st \<Longrightarrow> ev = ET_TIME_WAIT \<longrightarrow> st_state st = ST_TIME_WAIT \<Longrightarrow>
    stream_reach md (nabto_stream_event_handled ev st)"
| timeout: "stream_reach md st \<Longrightarrow> stream_reach md (nabto_stream_handle_timeout st)"
| dispatch: "stream_reach md st \<Longrightarrow> stream_reach md (snd (nabto_stream_dispatch_event st))"
| callback: "stream_reach md st \<Longrightarrow>
    stream_reach md (snd (nabto_stream_set_application_event_callback cb st))"
| opened: "stream_reach md st \<Longrightarrow> st_state st = ST_IDLE \<Longrightarrow> stream_reach md (snd (nabto_stream_open ct st))"
| accept: "stream_reach md st \<Longrightarrow> stream_reach md (snd (nabto_stream_accept st))"
| written: "stream_reach md st \<Longrightarrow> nabto_stream_write_buffer buffer st = Some (status, n, st') \<Longrightarrow>
    stream_reach md st'"
| read: "stream_reach md st \<Longrightarrow> stream_reach md (snd (snd (nabto_stream_read_buffer n st)))"
| close: "stream_reach md st \<Longrightarrow> stream_reach md (snd (nabto_stream_close st))"
| send_available: "stream_reach md st \<Longrightarrow> stream_reach md (nabto_stream_send_segment_available st)"
| recv_available: "stream_reach md st \<Longrightarrow> stream_reach md (nabto_stream_recv_segment_available st)"
| died: "stream_reach md st \<Longrightarrow> stream_reach md (nabto_stream_connection_died st)"

lemma stream_reach_inv:
  assumes "stream_reach md st" "recv_allocator_ok md"
  shows "stream_inv st"
  using assms(1)
proof (induction rule: stream_reach.induct)
  case (init user) then show ?case using assms(2) by (rule init_inv)
next
  case (packet st packet) then show ?case using handle_packet_inv by blast
next
  case (next_event st) then show ?case using next_event_inv by blast
next
  case (create st n ev) then show ?case using create_packet_inv by blast
next
  case (handled st ev) then show ?case by (intro event_handled_inv) (auto simp: state_order)
next
  case (timeout st) then show ?case using handle_timeout_inv by blast
next
  case (dispatch st) then show ?case using dispatch_event_inv by blast
next
  case (opened st ct) then show ?case using open_inv by blast
next
  case (accept st) then show ?case using accept_inv by blast
next
  case (written st buffer status n st') then show ?case using write_buffer_inv by blast
next
  case (read st n) then show ?case using read_buffer_inv by blast
next
  case (close st) then show ?case using close_inv by blast
next
  case (send_available st) then show ?case using send_segment_available_inv by blast
next
  case (recv_available st) then show ?case using recv_segment_available_inv by blast
next
  case (died st) then show ?case using connection_died_inv by blast
qed (auto simp: stream_inv_def recv_inv_def early_inv_def nabto_stream_init_initiator_def
      nabto_stream_init_responder_def nabto_stream_set_start_sequence_number_def
      nabto_stream_set_application_event_callback_def)

end
