(* ===== verification/Stream_Send.thy ===== *)
theory Stream_Send
  imports Stream_Reach
begin

text \<open>
  The send side of a stream.  \<open>send_inv\<close> relates the segment store, the unacked list, the send list,
  the resend list, the segment being filled and the counters of flow and congestion control;
  \<open>acked_segments\<close> states what an ack extension acknowledges without the iterator the code walks with.
  Every step of the component keeps \<open>send_inv\<close>.
\<close>

section \<open>The invariant of the send side\<close>

text \<open>The segments written and not yet acknowledged, oldest first.\<close>

definition send_queue :: "'m stream \<Rightarrow> seg_addr list" where
  "send_queue st = st_unacked st @ st_sendList st"

text \<open>The states of a stream whose write direction has been closed.\<close>

definition write_closed :: "'m stream \<Rightarrow> bool" where
  "write_closed st \<longleftrightarrow> ST_FIN_WAIT_1 \<le> st_state st \<and> st_state st \<noteq> ST_CLOSE_WAIT"

text \<open>
  The store holds the fin segment, the queued segments and the segment being filled, and nothing
  else; a segment is in one place; the resend list links unacknowledged segments; the counters are the
  lengths of the lists; and a queued fin is the whole queue.
\<close>

definition send_inv :: "'m stream \<Rightarrow> bool" where
  "send_inv st \<longleftrightarrow>
     distinct (send_queue st) \<and>
     dom (st_segs st) = insert FIN_SEG (set (send_queue st) \<union> set_option (st_nextUnfilledSendSegment st)) \<and>
     (\<forall>a\<in>set_option (st_nextUnfilledSendSegment st). a \<noteq> FIN_SEG \<and> a \<notin> set (send_queue st)) \<and>
     (\<forall>a\<in>dom (st_segs st). a < st_nextSeg st) \<and>
     distinct (st_resendList st) \<and> set (st_resendList st) \<subseteq> set (st_unacked st) \<and>
     st_unackedSize st = length (st_unacked st) \<and> st_sendListSize st = length (st_sendList st) \<and>
     cc_flightSize (st_cc st) = of_nat (length (st_unacked st)) \<and>
     (FIN_SEG \<in> set (send_queue st) \<longrightarrow> send_queue st = [FIN_SEG] \<and> write_closed st)"

definition send_part :: "'m stream \<Rightarrow> (seg_addr \<Rightarrow> send_segment option) \<times> seg_addr \<times> seg_addr list \<times> nat \<times>
    seg_addr list \<times> nat \<times> seg_addr list \<times> seg_addr option \<times> u32" where
  "send_part st = (st_segs st, st_nextSeg st, st_unacked st, st_unackedSize st, st_sendList st,
     st_sendListSize st, st_resendList st, st_nextUnfilledSendSegment st, cc_flightSize (st_cc st))"

text \<open>What the operations of the receive side and the state transitions keep.\<close>

definition send_kept :: "'m stream \<Rightarrow> 'm stream \<Rightarrow> bool" where
  "send_kept st st' \<longleftrightarrow> send_part st' = send_part st \<and> (write_closed st \<longrightarrow> write_closed st')"

lemma send_kept_refl [simp]: "send_kept st st"
  by (simp add: send_kept_def)

lemma send_kept_trans: "send_kept a b \<Longrightarrow> send_kept b c \<Longrightarrow> send_kept a c"
  by (simp add: send_kept_def)

lemma send_kept_inv: "send_kept st st' \<Longrightarrow> send_inv st \<Longrightarrow> send_inv st'"
  by (simp add: send_kept_def send_part_def send_inv_def send_queue_def)

lemma send_kept_same: "send_part st' = send_part st \<Longrightarrow> st_state st' = st_state st \<Longrightarrow> send_kept st st'"
  by (simp add: send_kept_def write_closed_def)

subsection \<open>What leaves the send side alone\<close>

lemma send_part_updates [simp]:
  "send_part (st\<lparr>st_user := u\<rparr>) = send_part st"
  "send_part (st\<lparr>st_state := s\<rparr>) = send_part st"
  "send_part (st\<lparr>st_timeoutStamp := t\<rparr>) = send_part st"
  "send_part (st\<lparr>st_segmentSentAfterTimeout := b\<rparr>) = send_part st"
  "send_part (st\<lparr>st_maxAdvertisedWindow := w\<rparr>) = send_part st"
  "send_part (st\<lparr>st_timestampToEcho := w\<rparr>) = send_part st"
  "send_part (st\<lparr>st_receivedPackets := w\<rparr>) = send_part st"
  "send_part (st\<lparr>st_sendAck := b\<rparr>) = send_part st"
  "send_part (st\<lparr>st_imediateAck := b\<rparr>) = send_part st"
  "send_part (st\<lparr>st_logicalTimestamp := w\<rparr>) = send_part st"
  "send_part (st\<lparr>st_sendSegmentAllocationStamp := t\<rparr>) = send_part st"
  "send_part (st\<lparr>st_xmitMaxAllocated := w\<rparr>) = send_part st"
  "send_part (st\<lparr>st_ccStats := cs\<rparr>) = send_part st"
  "send_part (st\<lparr>st_events := ev\<rparr>) = send_part st"
  "send_part (st\<lparr>st_hasCallback := b\<rparr>) = send_part st"
  "send_part (st\<lparr>st_sentBytes := x\<rparr>) = send_part st"
  "send_part (st\<lparr>st_receivedBytes := x\<rparr>) = send_part st"
  "send_part (st\<lparr>st_timeFirstMBSent := w\<rparr>) = send_part st"
  "send_part (st\<lparr>st_timeFirstMBReceived := w\<rparr>) = send_part st"
  "send_part (st\<lparr>st_reorderedOrLostSegments := w\<rparr>) = send_part st"
  "send_part (st\<lparr>st_reorderedOrLostPackets := w\<rparr>) = send_part st"
  "send_part (st\<lparr>st_lastLostPacketSeq := w\<rparr>) = send_part st"
  "send_part (st\<lparr>st_sentPackets := w\<rparr>) = send_part st"
  "send_part (st\<lparr>st_timeouts := w\<rparr>) = send_part st"
  "send_part (st\<lparr>st_disableReplayProtection := b\<rparr>) = send_part st"
  "send_part (st\<lparr>st_nonce := ns\<rparr>) = send_part st"
  "send_part (st\<lparr>st_sendNonce := b\<rparr>) = send_part st"
  "send_part (st\<lparr>st_nonceValidated := b\<rparr>) = send_part st"
  "send_part (st\<lparr>st_retransCount := c\<rparr>) = send_part st"
  "send_part (st\<lparr>st_startSequenceNumber := w\<rparr>) = send_part st"
  "send_part (st\<lparr>st_contentType := w\<rparr>) = send_part st"
  "send_part (st\<lparr>st_maxSendSegmentSize := h\<rparr>) = send_part st"
  "send_part (st\<lparr>st_maxRecvSegmentSize := h\<rparr>) = send_part st"
  "send_part (st\<lparr>st_recvRead := l\<rparr>) = send_part st"
  "send_part (st\<lparr>st_recvWindow := l\<rparr>) = send_part st"
  "send_part (st\<lparr>st_recvTop := w\<rparr>) = send_part st"
  "send_part (st\<lparr>st_recvMax := w\<rparr>) = send_part st"
  "send_part (st\<lparr>st_recvMaxAllocated := w\<rparr>) = send_part st"
  "send_part (st\<lparr>st_recvSegmentAllocationStamp := t\<rparr>) = send_part st"
  "send_part (upd_events g st) = send_part st"
  "send_part (nabto_stream_module_notify_event e st) = send_part st"
  "send_part (nabto_stream_free_recv_segment r st) = send_part st"
  by (simp_all add: send_part_def upd_events_def nabto_stream_module_notify_event_def
      nabto_stream_free_recv_segment_def)

lemma send_part_SET_STATE [simp]: "send_part (SET_STATE s st) = send_part st"
  by (cases s)
     (simp_all add: SET_STATE_def nabto_stream_state_transition_def Let_def)

lemma send_part_allocate_recv [simp]:
  "send_part (snd (nabto_stream_allocate_next_recv_segment st)) = send_part st"
  by (simp add: nabto_stream_allocate_next_recv_segment_def Let_def split: prod.split option.split)

lemma send_part_cc [simp]:
  "(\<And>c. cc_flightSize (f c) = cc_flightSize c) \<Longrightarrow> send_part (upd_cc f st) = send_part st"
  "send_part (congestion_control_adjust_ssthresh_after_triple_ack seg st) = send_part st"
  "send_part (nabto_stream_congestion_control_timeout st) = send_part st"
  "send_part (update_congestion_control_receive_stats seg ts st) = send_part st"
  by (simp_all add: upd_cc_def congestion_control_adjust_ssthresh_after_triple_ack_def
      nabto_stream_congestion_control_timeout_def update_congestion_control_receive_stats_def Let_def
      send_part_def)

lemma send_part_find_alloc [simp]: "send_part (snd (find_recv_alloc seq st)) = send_part st"
proof (induction seq st rule: find_recv_alloc.induct)
  case (1 seq st)
  obtain b st' where r: "nabto_stream_allocate_next_recv_segment st = (b, st')" by fastforce
  then have "send_part st' = send_part st"
    using send_part_allocate_recv [of st] by simp
  then show ?case using 1 r by (cases b) (subst find_recv_alloc.simps, simp)+
qed

lemma send_part_find [simp]: "send_part (snd (nabto_stream_find_recv_buffer seq st)) = send_part st"
proof -
  have "send_part st' = send_part st" if "find_recv_alloc seq st = (b, st')" for b st'
    using that send_part_find_alloc [of seq st] by simp
  then show ?thesis
    by (auto simp: nabto_stream_find_recv_buffer_def split: prod.split bool.split)
qed

lemma send_part_find_eqD: "nabto_stream_find_recv_buffer seq st = (r, st') \<Longrightarrow> send_part st' = send_part st"
  by (metis send_part_find snd_conv)

lemma send_part_move [simp]:
  "send_part (move_segments_from_recv_window_to_recv_read st) = send_part st"
proof -
  have "send_part (move_recv_loop it st) = send_part st" for it and st :: "'a stream"
    by (induction it arbitrary: st) (simp_all add: Let_def)
  then show ?thesis by (simp add: move_segments_from_recv_window_to_recv_read_def)
qed

lemma handle_data_send_kept: "send_kept st (nabto_stream_handle_data seq data st)"
  by (rule send_kept_same [OF _ handle_data_same(1)])
     (auto simp: nabto_stream_handle_data_def Let_def split: prod.split option.split dest: send_part_find_eqD)

lemma write_closed_SET_STATE [simp]:
  "write_closed (SET_STATE s st) \<longleftrightarrow> ST_FIN_WAIT_1 \<le> s \<and> s \<noteq> ST_CLOSE_WAIT"
  by (simp add: write_closed_def)

lemma handle_fin_send_kept: "send_kept st (nabto_stream_handle_fin seq st)"
proof -
  have "send_part (nabto_stream_handle_fin seq st) = send_part st"
    by (auto simp: nabto_stream_handle_fin_def Let_def split: prod.split option.split dest: send_part_find_eqD)
  moreover have "write_closed st \<Longrightarrow> write_closed (nabto_stream_handle_fin seq st)"
    by (auto simp: nabto_stream_handle_fin_def move_segments_from_recv_window_to_recv_read_def write_closed_def
        state_order Let_def split: prod.split option.split dest!: find_recv_buffer_eqD)
  ultimately show ?thesis by (simp add: send_kept_def)
qed

subsection \<open>Segments entering and leaving the lists\<close>

lemma send_inv_dest:
  assumes "send_inv st"
  shows "distinct (st_unacked st)" "distinct (st_sendList st)" "distinct (st_resendList st)"
    "set (st_resendList st) \<subseteq> set (st_unacked st)"
    "a \<in> set (send_queue st) \<Longrightarrow> a \<in> dom (st_segs st)"
    "FIN_SEG \<in> dom (st_segs st)"
    "st_nextUnfilledSendSegment st = Some b \<Longrightarrow> b \<in> dom (st_segs st) \<and> b \<notin> set (send_queue st) \<and> b \<noteq> FIN_SEG"
  using assms by (auto simp: send_inv_def send_queue_def)

lemma set_seg_inv [simp]:
  assumes "send_inv st" "a \<in> dom (st_segs st)"
  shows "send_inv (set_seg a s st)"
proof -
  have "dom (st_segs (set_seg a s st)) = dom (st_segs st)"
    using assms(2) by (auto simp: set_seg_def)
  then show ?thesis
    using assms(1) unfolding send_inv_def send_queue_def write_closed_def
    by (simp add: set_seg_def)
qed

lemma remove_resend_inv [simp]:
  "send_inv st \<Longrightarrow> send_inv (nabto_stream_remove_segment_from_resend_list a st)"
  using set_remove1_subset [of a "st_resendList st"]
  by (auto simp: send_inv_def send_queue_def write_closed_def nabto_stream_remove_segment_from_resend_list_def)

lemma allocate_send_inv:
  assumes "send_inv st"
  shows "send_inv (nabto_stream_allocate_next_send_segment st)"
proof -
  have fresh: "st_nextSeg st \<notin> dom (st_segs st)" using assms by (auto simp: send_inv_def)
  then have "st_nextSeg st \<notin> set (send_queue st)" "st_nextSeg st \<noteq> 0"
    using send_inv_dest(5,6) [OF assms] by metis+
  then show ?thesis
    using assms fresh
    by (auto simp: nabto_stream_allocate_next_send_segment_def Let_def set_seg_def send_inv_def
        send_queue_def write_closed_def less_Suc_eq split: prod.split option.split)
qed

lemma allocate_send_kept_lists [simp]:
  "send_queue (nabto_stream_allocate_next_send_segment st) = send_queue st"
  "st_unacked (nabto_stream_allocate_next_send_segment st) = st_unacked st"
  "st_sendList (nabto_stream_allocate_next_send_segment st) = st_sendList st"
  by (simp_all add: nabto_stream_allocate_next_send_segment_def Let_def set_seg_def send_queue_def
      split: prod.split option.split)

lemma mark_inv [simp]:
  assumes "send_inv st" "a \<in> set (st_unacked st)"
  shows "send_inv (nabto_stream_mark_segment_for_retransmission a st)"
proof -
  have r: "set (resend_insert f a l) = insert a (set l)" for f l by (induction l) auto
  have d: "distinct (resend_insert f a l) \<longleftrightarrow> a \<notin> set l \<and> distinct l" for f l
    by (induction l) (auto simp: r)
  show ?thesis
    using assms
    by (auto simp: nabto_stream_mark_segment_for_retransmission_def send_inv_def send_queue_def
        write_closed_def r d)
qed

section \<open>Acknowledgements\<close>

lemma send_part_handle_ack:
  "send_part (nabto_stream_congestion_control_handle_ack seg st) =
   send_part (upd_cc (\<lambda>c. c\<lparr>cc_flightSize := cc_flightSize c - 1\<rparr>) st)"
  by (simp add: nabto_stream_congestion_control_handle_ack_def Let_def send_part_def upd_cc_def)

lemma ack_on_fin_kept: "send_kept st (nabto_stream_handle_ack_on_fin st)"
  by (auto simp: nabto_stream_handle_ack_on_fin_def send_kept_def state_order write_closed_def)

lemma add_fin_inv:
  assumes "send_inv st" "send_queue st = []" "write_closed st"
  shows "send_inv (nabto_stream_add_fin_segment_to_send_lists st)"
  using assms
  by (auto simp: nabto_stream_add_fin_segment_to_send_lists_def Let_def set_seg_def
      add_to_send_list_end_def send_inv_def send_queue_def write_closed_def)

text \<open>The stream after segment \<open>a\<close> has left the store and the lists.\<close>

definition segment_acked :: "seg_addr \<Rightarrow> 'm stream \<Rightarrow> 'm stream \<Rightarrow> bool" where
  "segment_acked a st st' \<longleftrightarrow>
     send_part st' = ((if a = FIN_SEG then st_segs st else (st_segs st)(a := None)), st_nextSeg st,
       remove1 a (st_unacked st), st_unackedSize st - 1, st_sendList st, st_sendListSize st,
       remove1 a (st_resendList st), st_nextUnfilledSendSegment st, cc_flightSize (st_cc st) - 1) \<and>
     (write_closed st \<longrightarrow> write_closed st')"

lemma segment_acked_inv:
  assumes "segment_acked a st st'" "send_inv st" "a \<in> set (st_unacked st)"
  shows "send_inv st'"
proof -
  have f: "of_nat (length (st_unacked st)) - 1 = (of_nat (length (remove1 a (st_unacked st))) :: u32)"
    using assms(3) by (cases "length (st_unacked st)") (simp_all add: length_remove1)
  have p: "st_segs st' = (if a = FIN_SEG then st_segs st else (st_segs st)(a := None))"
    "st_nextSeg st' = st_nextSeg st" "st_unacked st' = remove1 a (st_unacked st)"
    "st_unackedSize st' = st_unackedSize st - 1" "st_sendList st' = st_sendList st"
    "st_sendListSize st' = st_sendListSize st" "st_resendList st' = remove1 a (st_resendList st)"
    "st_nextUnfilledSendSegment st' = st_nextUnfilledSendSegment st"
    "cc_flightSize (st_cc st') = cc_flightSize (st_cc st) - 1" "write_closed st \<Longrightarrow> write_closed st'"
    using assms(1) by (auto simp: segment_acked_def send_part_def)
  have d: "distinct (st_unacked st)" "distinct (st_sendList st)" "a \<notin> set (st_sendList st)"
    using assms(2,3) by (auto simp: send_inv_def send_queue_def)
  have q: "set (send_queue st') = set (send_queue st) - {a}" "distinct (send_queue st')"
    using assms(2) d p by (auto simp: send_inv_def send_queue_def)
  have r: "set (st_resendList st') \<subseteq> set (st_unacked st')" "distinct (st_resendList st')"
    using send_inv_dest [OF assms(2)] p by auto
  have u: "a \<notin> set_option (st_nextUnfilledSendSegment st)"
    using assms(2,3) by (auto simp: send_inv_def send_queue_def)
  have "dom (st_segs st') = insert FIN_SEG (set (send_queue st') \<union> set_option (st_nextUnfilledSendSegment st'))"
  proof -
    have D: "dom (st_segs st) = insert FIN_SEG (set (send_queue st) \<union> set_option (st_nextUnfilledSendSegment st))"
      using assms(2) unfolding send_inv_def by blast
    have "dom (st_segs st') = (if a = FIN_SEG then dom (st_segs st) else dom (st_segs st) - {a})"
      using p(1) by simp
    then show ?thesis unfolding D q(1) p(8) using u by auto
  qed
  moreover have "FIN_SEG \<notin> set (send_queue st')"
  proof -
    have F: "FIN_SEG \<in> set (send_queue st) \<longrightarrow> send_queue st = [FIN_SEG]"
      using assms(2) unfolding send_inv_def by blast
    have "a \<in> set (send_queue st)" using assms(3) by (simp add: send_queue_def)
    then show ?thesis using F unfolding q(1) by fastforce
  qed
  moreover have "\<forall>b\<in>dom (st_segs st'). b < st_nextSeg st'"
  proof -
    have "\<forall>b\<in>dom (st_segs st). b < st_nextSeg st" using assms(2) unfolding send_inv_def by blast
    then show ?thesis using p(1,2) by (auto split: if_splits)
  qed
  moreover have "st_unackedSize st' = length (st_unacked st')" "st_sendListSize st' = length (st_sendList st')"
    "cc_flightSize (st_cc st') = of_nat (length (st_unacked st'))"
  proof -
    have "st_unackedSize st = length (st_unacked st)" "st_sendListSize st = length (st_sendList st)"
      "cc_flightSize (st_cc st) = of_nat (length (st_unacked st))"
      using assms(2) unfolding send_inv_def by blast+
    then show "st_unackedSize st' = length (st_unacked st')" "st_sendListSize st' = length (st_sendList st')"
      "cc_flightSize (st_cc st') = of_nat (length (st_unacked st'))"
      using assms(3) p f by (simp_all add: length_remove1)
  qed
  moreover have "\<forall>b\<in>set_option (st_nextUnfilledSendSegment st'). b \<noteq> FIN_SEG \<and> b \<notin> set (send_queue st')"
  proof -
    have "\<forall>b\<in>set_option (st_nextUnfilledSendSegment st). b \<noteq> FIN_SEG \<and> b \<notin> set (send_queue st)"
      using assms(2) unfolding send_inv_def by blast
    then show ?thesis unfolding p(8) q(1) by blast
  qed
  ultimately show ?thesis
    using q(2) r unfolding send_inv_def by (intro conjI impI; (assumption | blast))
qed

lemma ack_iterator_acked:
  fixes st :: "'m stream" and a :: seg_addr
  defines "st1 \<equiv> (if a = FIN_SEG then nabto_stream_handle_ack_on_fin st else st)"
  shows "segment_acked a st (nabto_stream_segment_has_been_acked a (upd_events g
     (nabto_stream_congestion_control_handle_ack s (update_congestion_control_receive_stats s' ts st1))))"
    (is "segment_acked a st ?st'")
proof -
  define st2 where "st2 = upd_events g
     (nabto_stream_congestion_control_handle_ack s (update_congestion_control_receive_stats s' ts st1))"
  have k: "send_kept st st1" by (simp add: st1_def ack_on_fin_kept)
  have "send_part st2 = send_part (upd_cc (\<lambda>c. c\<lparr>cc_flightSize := cc_flightSize c - 1\<rparr>)
      (update_congestion_control_receive_stats s' ts st1))"
    by (simp add: st2_def send_part_handle_ack)
  moreover have "send_part (update_congestion_control_receive_stats s' ts st1) = send_part st"
    using k by (simp add: send_kept_def)
  ultimately have p: "send_part st2 = (st_segs st, st_nextSeg st, st_unacked st, st_unackedSize st,
       st_sendList st, st_sendListSize st, st_resendList st, st_nextUnfilledSendSegment st,
       cc_flightSize (st_cc st) - 1)"
    by (simp add: send_part_def upd_cc_def)
  have "send_part ?st' = ((if a = FIN_SEG then st_segs st else (st_segs st)(a := None)), st_nextSeg st,
       remove1 a (st_unacked st), st_unackedSize st - 1, st_sendList st, st_sendListSize st,
       remove1 a (st_resendList st), st_nextUnfilledSendSegment st, cc_flightSize (st_cc st) - 1)"
    using p unfolding st2_def [symmetric]
    by (auto simp: nabto_stream_segment_has_been_acked_def nabto_stream_free_send_segment_def
        nabto_stream_remove_segment_from_unacked_list_def nabto_stream_remove_segment_from_resend_list_def
        send_part_def)
  moreover have "write_closed st \<Longrightarrow> write_closed ?st'"
    using k unfolding st2_def [symmetric]
    by (simp add: nabto_stream_segment_has_been_acked_def write_closed_def st2_def send_kept_def)
  ultimately show ?thesis by (simp add: segment_acked_def)
qed

lemma handle_ack_iterator_inv:
  assumes "send_inv st" "a \<in> set (st_unacked st)"
  shows "send_inv (nabto_stream_handle_ack_iterator a ts st)"
    and "st_unacked (nabto_stream_handle_ack_iterator a ts st) = remove1 a (st_unacked st)"
    and "b \<noteq> a \<Longrightarrow> b \<noteq> FIN_SEG \<Longrightarrow>
      st_segs (nabto_stream_handle_ack_iterator a ts st) b = st_segs st b"
proof -
  define st1 where "st1 = (if a = FIN_SEG then nabto_stream_handle_ack_on_fin st else st)"
  define st2 where "st2 = update_congestion_control_receive_stats (send_seg st1 a) ts st1"
  define st' where "st' = nabto_stream_segment_has_been_acked a (upd_events (\<lambda>e. e\<lparr>ae_dataWrite := True\<rparr>)
     (nabto_stream_congestion_control_handle_ack (send_seg st2 a) st2))"
  have acked: "segment_acked a st st'"
    unfolding st'_def st2_def st1_def by (rule ack_iterator_acked)
  then have inv: "send_inv st'" by (rule segment_acked_inv [OF _ assms])
  have eq: "nabto_stream_handle_ack_iterator a ts st =
     (if st_unacked st' = [] \<and> st_sendList st' = [] then
           (if st_state st' \<in> {ST_FIN_WAIT_1, ST_LAST_ACK, ST_CLOSING} \<and>
               ss_state (send_seg st' FIN_SEG) = B_IDLE
            then nabto_stream_add_fin_segment_to_send_lists st'
            else st'\<lparr>st_timeoutStamp := STAMP_INFINITE\<rparr>)
         else st')"
    by (simp only: nabto_stream_handle_ack_iterator_def Let_def st'_def st2_def st1_def)
  have un: "st_unacked st' = remove1 a (st_unacked st)"
    and segs: "b \<noteq> a \<Longrightarrow> st_segs st' b = st_segs st b" for b
    using acked by (auto simp: segment_acked_def send_part_def)
  have "send_inv (st'\<lparr>st_timeoutStamp := STAMP_INFINITE\<rparr>)"
    by (rule send_kept_inv [OF send_kept_same inv]) simp_all
  then show "send_inv (nabto_stream_handle_ack_iterator a ts st)"
    using inv unfolding eq
    by (auto simp: send_queue_def write_closed_def state_order intro!: add_fin_inv)
  show "st_unacked (nabto_stream_handle_ack_iterator a ts st) = remove1 a (st_unacked st)"
    using un unfolding eq
    by (simp add: nabto_stream_add_fin_segment_to_send_lists_def add_to_send_list_end_def set_seg_def Let_def)
  show "b \<noteq> a \<Longrightarrow> b \<noteq> FIN_SEG \<Longrightarrow>
      st_segs (nabto_stream_handle_ack_iterator a ts st) b = st_segs st b"
    using segs unfolding eq
    by (simp add: nabto_stream_add_fin_segment_to_send_lists_def add_to_send_list_end_def set_seg_def Let_def)
qed

lemma adjust_ssthresh_kept [simp]:
  "send_kept st (congestion_control_adjust_ssthresh_after_triple_ack seg st)"
  by (rule send_kept_same) simp_all

lemma nack_iterator_inv:
  assumes "send_inv st" "a \<in> set (st_unacked st)"
  shows "send_inv (nabto_stream_handle_nack_iterator a ts st)"
    and "send_queue (nabto_stream_handle_nack_iterator a ts st) = send_queue st"
    and "st_unacked (nabto_stream_handle_nack_iterator a ts st) = st_unacked st"
    and "ss_seq (send_seg (nabto_stream_handle_nack_iterator a ts st) b) = ss_seq (send_seg st b)"
proof -
  define st1 where "st1 = set_seg a ((send_seg st a)\<lparr>ss_ackedAfter := ss_ackedAfter (send_seg st a) + 1\<rparr>) st"
  have inv1: "send_inv st1"
    unfolding st1_def using assms by (auto simp: send_inv_dest(5) send_queue_def)
  have un1: "st_unacked st1 = st_unacked st" "st_sendList st1 = st_sendList st"
    and seq1: "ss_seq (send_seg st1 b) = ss_seq (send_seg st b)" for b
    by (auto simp: st1_def set_seg_def send_seg_def)
  define st3 where "st3 = (let st = congestion_control_adjust_ssthresh_after_triple_ack (send_seg st1 a) st1;
                   st = st\<lparr>st_reorderedOrLostSegments := st_reorderedOrLostSegments st + 1\<rparr>
               in if st_lastLostPacketSeq st \<noteq> ss_packetSeqStamp (send_seg st a)
                         then st\<lparr>st_reorderedOrLostPackets := st_reorderedOrLostPackets st + 1,
                                 st_lastLostPacketSeq := ss_packetSeqStamp (send_seg st a)\<rparr>
                         else st)"
  have p3: "send_part st3 = send_part st1" "st_state st3 = st_state st1"
    by (simp_all add: st3_def Let_def)
  then have inv3: "send_inv st3" using send_kept_inv [OF send_kept_same inv1] by simp
  have eq: "nabto_stream_handle_nack_iterator a ts st =
     (if ss_logicalSentStamp (send_seg st a) < ts then
        if ss_ackedAfter (send_seg st1 a) = 2 then nabto_stream_mark_segment_for_retransmission a st3 else st1
      else st)"
    by (simp only: nabto_stream_handle_nack_iterator_def Let_def st1_def st3_def)
  have l3: "st_unacked st3 = st_unacked st" "st_sendList st3 = st_sendList st" "st_segs st3 = st_segs st1"
    using p3 un1 by (auto simp: send_part_def)
  show "send_inv (nabto_stream_handle_nack_iterator a ts st)"
    using inv1 inv3 assms l3 unfolding eq by simp
  show "send_queue (nabto_stream_handle_nack_iterator a ts st) = send_queue st"
    "st_unacked (nabto_stream_handle_nack_iterator a ts st) = st_unacked st"
    "ss_seq (send_seg (nabto_stream_handle_nack_iterator a ts st) b) = ss_seq (send_seg st b)"
    using l3 un1 seq1 unfolding eq
    by (auto simp: send_queue_def nabto_stream_mark_segment_for_retransmission_def send_seg_def)
qed

subsection \<open>The walk over an ack extension\<close>

text \<open>
  The segments an ack extension acknowledges, stated without the iterator: those above the first
  nacked range, those between two nacked ranges and those below the last one.
\<close>

fun acked_segments :: "(seg_addr \<Rightarrow> u32) \<Rightarrow> (u32 \<times> u32) list \<Rightarrow> u32 \<Rightarrow> seg_addr list \<Rightarrow> seg_addr list" where
  "acked_segments seq [] ackTop it = it"
| "acked_segments seq ((ackGap, nackGap) # bs) ackTop it =
     takeWhile (\<lambda>a. nabto_stream_sequence_less (ackTop - ackGap) (seq a)) it @
     acked_segments seq bs (ackTop - ackGap - nackGap)
       (dropWhile (\<lambda>a. nabto_stream_sequence_less (ackTop - ackGap - nackGap) (seq a))
         (dropWhile (\<lambda>a. nabto_stream_sequence_less (ackTop - ackGap) (seq a)) it))"

fun read_gaps :: "nat \<Rightarrow> bytes \<Rightarrow> (u32 \<times> u32) list" where
  "read_gaps 0 ptr = []"
| "read_gaps (Suc n) ptr = (case nabto_stream_read_uint32 (Some ptr) of
     None \<Rightarrow> []
   | Some (ackGap, ptr) \<Rightarrow> (case nabto_stream_read_uint32 (Some ptr) of
       None \<Rightarrow> []
     | Some (nackGap, ptr) \<Rightarrow> (ackGap, nackGap) # read_gaps n ptr))"

definition seg_seq :: "'m stream \<Rightarrow> seg_addr \<Rightarrow> u32" where
  "seg_seq st a = ss_seq (send_seg st a)"

text \<open>The iterator and the stream during the walk.\<close>

definition walk_inv :: "seg_addr list \<Rightarrow> 'm stream \<Rightarrow> bool" where
  "walk_inv it st \<longleftrightarrow> send_inv st \<and> distinct it \<and> set it \<subseteq> set (st_unacked st)"

lemma acked_segments_subset: "set (acked_segments seq bs ackTop it) \<subseteq> set it"
  by (induction seq bs ackTop it rule: acked_segments.induct)
     (auto dest: set_takeWhileD set_dropWhileD subsetD)

lemma acked_segments_cong:
  "(\<And>a. a \<in> set it \<Longrightarrow> seq a = seq' a) \<Longrightarrow> acked_segments seq bs ackTop it = acked_segments seq' bs ackTop it"
proof (induction seq bs ackTop it rule: acked_segments.induct)
  case (2 seq ackGap nackGap bs ackTop it)
  have w: "takeWhile (\<lambda>a. nabto_stream_sequence_less x (seq a)) l =
      takeWhile (\<lambda>a. nabto_stream_sequence_less x (seq' a)) l"
    "dropWhile (\<lambda>a. nabto_stream_sequence_less x (seq a)) l =
      dropWhile (\<lambda>a. nabto_stream_sequence_less x (seq' a)) l"
    if "set l \<subseteq> set it" for x l
    using that 2(2) by (auto intro!: takeWhile_cong dropWhile_cong)
  have s: "set (dropWhile P it) \<subseteq> set it" for P by (auto dest: set_dropWhileD)
  show ?case
    using 2 by (simp add: w s 2(1)) (auto dest: set_dropWhileD)
qed simp

lemma walk_ack_step:
  assumes "walk_inv (a # it) st"
  shows "walk_inv it (nabto_stream_handle_ack_iterator a ts st)"
    "b \<in> set it \<Longrightarrow> seg_seq (nabto_stream_handle_ack_iterator a ts st) b = seg_seq st b"
    "st_unacked (nabto_stream_handle_ack_iterator a ts st) = filter (\<lambda>x. x \<noteq> a) (st_unacked st)"
proof -
  have i: "send_inv st" "a \<in> set (st_unacked st)" "a \<notin> set it" "distinct it" "set it \<subseteq> set (st_unacked st)"
    using assms by (auto simp: walk_inv_def)
  show u: "st_unacked (nabto_stream_handle_ack_iterator a ts st) = filter (\<lambda>x. x \<noteq> a) (st_unacked st)"
    using handle_ack_iterator_inv(2) [OF i(1,2)] send_inv_dest(1) [OF i(1)]
    by (simp add: distinct_remove1_removeAll removeAll_filter_not_eq) (rule filter_cong; auto)
  show "walk_inv it (nabto_stream_handle_ack_iterator a ts st)"
    using i u handle_ack_iterator_inv(1) [OF i(1,2)] by (auto simp: walk_inv_def)
  assume "b \<in> set it"
  then have "b \<noteq> a" "{a, b} \<subseteq> set (send_queue st)"
    using i by (auto simp: send_queue_def)
  moreover have "FIN_SEG \<in> set (send_queue st) \<longrightarrow> send_queue st = [FIN_SEG]"
    using i(1) unfolding send_inv_def by blast
  ultimately have "b \<noteq> a" "b \<noteq> FIN_SEG" by (blast, cases "b = FIN_SEG", simp_all)
  then show "seg_seq (nabto_stream_handle_ack_iterator a ts st) b = seg_seq st b"
    using handle_ack_iterator_inv(3) [OF i(1,2)] by (simp add: seg_seq_def send_seg_def)
qed

lemma ack_block_walk:
  assumes "walk_inv it st"
    and "nabto_stream_ack_block it bottom ts st = (it', st')"
  defines "P \<equiv> \<lambda>a. nabto_stream_sequence_less bottom (seg_seq st a)"
  shows "it' = dropWhile P it \<and> walk_inv it' st' \<and> (\<forall>a\<in>set it'. seg_seq st' a = seg_seq st a) \<and>
    st_unacked st' = filter (\<lambda>x. x \<notin> set (takeWhile P it)) (st_unacked st)"
  using assms(1,2) unfolding P_def
proof (induction it arbitrary: st)
  case (Cons a it)
  let ?st1 = "nabto_stream_handle_ack_iterator a ts st"
  show ?case
  proof (cases "nabto_stream_sequence_less bottom (seg_seq st a)")
    case True
    have w: "\<And>b. b \<in> set it \<Longrightarrow> seg_seq ?st1 b = seg_seq st b" by (rule walk_ack_step(2) [OF Cons.prems(1)])
    have t: "takeWhile (\<lambda>a. nabto_stream_sequence_less bottom (seg_seq ?st1 a)) it =
        takeWhile (\<lambda>a. nabto_stream_sequence_less bottom (seg_seq st a)) it"
      "dropWhile (\<lambda>a. nabto_stream_sequence_less bottom (seg_seq ?st1 a)) it =
        dropWhile (\<lambda>a. nabto_stream_sequence_less bottom (seg_seq st a)) it"
      using w by (auto intro!: takeWhile_cong dropWhile_cong)
    have "nabto_stream_ack_block it bottom ts ?st1 = (it', st')"
      using Cons.prems(2) True by (simp add: seg_seq_def)
    from Cons.IH [OF walk_ack_step(1) [OF Cons.prems(1)] this]
    show ?thesis
      using True w walk_ack_step(3) [OF Cons.prems(1), of ts]
      by (auto simp: t filter_filter conj_commute dest: set_dropWhileD)
  next
    case False
    then show ?thesis using Cons.prems by (auto simp: seg_seq_def)
  qed
qed auto

lemma nack_block_walk:
  assumes "walk_inv it st"
    and "nabto_stream_nack_block it bottom ts st = (it', st')"
  defines "P \<equiv> \<lambda>a. nabto_stream_sequence_less bottom (seg_seq st a)"
  shows "it' = dropWhile P it \<and> walk_inv it' st' \<and> (\<forall>a. seg_seq st' a = seg_seq st a) \<and>
    st_unacked st' = st_unacked st"
  using assms(1,2) unfolding P_def
proof (induction it arbitrary: st)
  case (Cons a it)
  let ?st1 = "nabto_stream_handle_nack_iterator a ts st"
  have i: "send_inv st" "a \<in> set (st_unacked st)" using Cons.prems(1) by (auto simp: walk_inv_def)
  have w: "seg_seq ?st1 b = seg_seq st b" "st_unacked ?st1 = st_unacked st" for b
    using nack_iterator_inv [OF i] by (auto simp: seg_seq_def)
  have w1: "walk_inv it ?st1"
    using nack_iterator_inv [OF i] Cons.prems(1) by (auto simp: walk_inv_def)
  show ?case
  proof (cases "nabto_stream_sequence_less bottom (seg_seq st a)")
    case True
    then have "nabto_stream_nack_block it bottom ts ?st1 = (it', st')"
      using Cons.prems(2) by (simp add: seg_seq_def)
    from Cons.IH [OF w1 this] show ?thesis using True w by auto
  next
    case False
    then show ?thesis using Cons.prems by (auto simp: seg_seq_def)
  qed
qed auto

lemma ack_rest_walk:
  "walk_inv it st \<Longrightarrow> send_inv (ack_rest it ts st) \<and>
   st_unacked (ack_rest it ts st) = filter (\<lambda>x. x \<notin> set it) (st_unacked st)"
proof (induction it arbitrary: st)
  case (Cons a it)
  then show ?case
    using walk_ack_step [OF Cons.prems] by (simp add: filter_filter conj_commute)
qed (simp add: walk_inv_def)

lemma parse_gaps_walk:
  assumes "walk_inv it st" "parse_gaps n ptr ackTop it ts st = (it', st')"
  shows "send_inv (ack_rest it' ts st') \<and>
    st_unacked (ack_rest it' ts st') =
      filter (\<lambda>x. x \<notin> set (acked_segments (seg_seq st) (read_gaps n ptr) ackTop it)) (st_unacked st)"
  using assms
proof (induction n arbitrary: ptr ackTop it st)
  case 0
  then show ?case using ack_rest_walk by auto
next
  case (Suc n)
  show ?case
  proof (cases "read_gaps (Suc n) ptr")
    case Nil
    then show ?thesis
      using Suc.prems ack_rest_walk by (auto split: option.splits)
  next
    case (Cons g gs)
    then obtain a b ptr1 ptr2 where r: "nabto_stream_read_uint32 (Some ptr) = Some (a, ptr1)"
      "nabto_stream_read_uint32 (Some ptr1) = Some (b, ptr2)" "g = (a, b)" "gs = read_gaps n ptr2"
      by (auto split: option.splits)
    obtain it1 st1 where 1: "nabto_stream_ack_block it (ackTop - a) ts st = (it1, st1)" by fastforce
    obtain it2 st2 where 2: "nabto_stream_nack_block it1 (ackTop - a - b) ts st1 = (it2, st2)" by fastforce
    have p: "parse_gaps n ptr2 (ackTop - a - b) it2 ts st2 = (it', st')"
      using Suc.prems(2) r 1 2 by (simp add: Let_def)
    note w1 = ack_block_walk [OF Suc.prems(1) 1]
    then have w1': "walk_inv it1 st1" by blast
    note w2 = nack_block_walk [OF w1' 2]
    then have w2': "walk_inv it2 st2" by blast
    have d: "it2 = dropWhile (\<lambda>x. nabto_stream_sequence_less (ackTop - a - b) (seg_seq st x))
        (dropWhile (\<lambda>x. nabto_stream_sequence_less (ackTop - a) (seg_seq st x)) it)"
      using w1 w2 by (auto intro!: dropWhile_cong)
    have sub: "set it2 \<subseteq> set it1" using w2 by (auto dest: set_dropWhileD)
    have c: "acked_segments (seg_seq st2) gs (ackTop - a - b) it2 = acked_segments (seg_seq st) gs (ackTop - a - b) it2"
      by (rule acked_segments_cong) (use w1 w2 sub in auto)
    have u: "st_unacked st2 = filter (\<lambda>x. x \<notin> set (takeWhile
        (\<lambda>x. nabto_stream_sequence_less (ackTop - a) (seg_seq st x)) it)) (st_unacked st)"
      using w1 w2 by simp
    note ih = Suc.IH [OF w2' p, folded r(4), unfolded c u filter_filter]
    show ?thesis
      using ih unfolding Cons r(3) acked_segments.simps d [symmetric] by (simp add: conj_commute)
  qed
qed

lemma ack_iterator_walk: "send_inv st \<Longrightarrow> walk_inv (ack_iterator maxAcked st) st"
  by (auto simp: walk_inv_def ack_iterator_def send_inv_dest dest: set_takeWhileD)

section \<open>A smaller window\<close>

lemma window_reduced_step:
  fixes st :: "'m stream"
  assumes "send_inv st" "st_unacked st = us @ [a]"
  defines "st' \<equiv> add_to_send_list_front a (upd_cc (\<lambda>c. c\<lparr>cc_flightSize := cc_flightSize c - 1\<rparr>)
    (nabto_stream_remove_segment_from_resend_list a (nabto_stream_remove_segment_from_unacked_list a st)))"
  shows "send_inv st'" "st_unacked st' = us" "st_sendList st' = a # st_sendList st"
    "send_queue st' = send_queue st"
proof -
  have n: "a \<notin> set us" "distinct us" using send_inv_dest(1) [OF assms(1)] assms(2) by auto
  show l: "st_unacked st' = us" "st_sendList st' = a # st_sendList st"
    using n assms(2)
    by (simp_all add: st'_def add_to_send_list_front_def upd_cc_def remove1_append
        nabto_stream_remove_segment_from_resend_list_def nabto_stream_remove_segment_from_unacked_list_def)
  then show q: "send_queue st' = send_queue st" by (simp add: send_queue_def assms(2))
  have s: "st_segs st' = st_segs st" "st_nextSeg st' = st_nextSeg st"
    "st_nextUnfilledSendSegment st' = st_nextUnfilledSendSegment st"
    "st_resendList st' = remove1 a (st_resendList st)" "st_unackedSize st' = st_unackedSize st - 1"
    "st_sendListSize st' = st_sendListSize st + 1" "st_state st' = st_state st"
    "cc_flightSize (st_cc st') = cc_flightSize (st_cc st) - 1"
    by (simp_all add: st'_def add_to_send_list_front_def upd_cc_def
        nabto_stream_remove_segment_from_resend_list_def nabto_stream_remove_segment_from_unacked_list_def)
  have r: "set (remove1 a (st_resendList st)) \<subseteq> set us" "distinct (remove1 a (st_resendList st))"
    using send_inv_dest(3,4) [OF assms(1)] assms(2) by auto
  show "send_inv st'"
    using assms(1) r unfolding send_inv_def q s l write_closed_def by (simp add: assms(2))
qed

lemma window_reduced_loop:
  "send_inv st \<Longrightarrow> st_unacked st = rev it \<Longrightarrow>
   send_inv (advertised_window_reduced_loop it st) \<and>
   send_queue (advertised_window_reduced_loop it st) = send_queue st"
proof (induction it arbitrary: st)
  case (Cons a it)
  then have u: "st_unacked st = rev it @ [a]" by simp
  show ?case
    using Cons.IH [OF window_reduced_step(1,2) [OF Cons.prems(1) u]]
      window_reduced_step(4) [OF Cons.prems(1) u] Cons.prems(1)
    by (simp add: Let_def)
qed simp

lemma window_reduced_inv:
  assumes "send_inv st"
  shows "send_inv (nabto_stream_flow_control_advertised_window_reduced st)"
    "send_queue (nabto_stream_flow_control_advertised_window_reduced st) = send_queue st"
  using window_reduced_loop [OF assms, of "rev (st_unacked st)"]
  by (auto simp: nabto_stream_flow_control_advertised_window_reduced_def)

lemma send_inv_update:
  "send_inv st \<Longrightarrow> send_inv (st\<lparr>st_maxAdvertisedWindow := w\<rparr>)"
  by (rule send_kept_inv [OF send_kept_same]) simp_all

lemma apply_window_inv:
  assumes "send_inv st"
  shows "send_inv (apply_window maxAcked windowSize hdr st)"
    "send_queue (apply_window maxAcked windowSize hdr st) = send_queue st"
proof -
  have q: "send_queue (st\<lparr>st_maxAdvertisedWindow := w\<rparr>) = send_queue st" for w
    by (simp add: send_queue_def)
  show "send_inv (apply_window maxAcked windowSize hdr st)"
    "send_queue (apply_window maxAcked windowSize hdr st) = send_queue st"
    using window_reduced_inv [OF send_inv_update [OF assms]] send_inv_update [OF assms] assms q
    by (simp_all add: apply_window_def Let_def)
qed

section \<open>Packets keep the invariant of the send side\<close>

lemma ack_on_syn_ack_kept:
  "st_state st = ST_SYN_RCVD \<Longrightarrow> send_kept st (nabto_stream_handle_ack_on_syn_ack st)"
  by (simp add: nabto_stream_handle_ack_on_syn_ack_def send_kept_def write_closed_def state_order)

lemma ack_extension_walk:
  fixes hdr :: stream_header
  assumes "send_inv st" "16 \<le> length ext" "(length ext - 16) mod 8 = 0"
    "read_ack_fields ext = Some (maxAcked, windowSize, tsEcr, ptr)"
  defines "st1 \<equiv> apply_window maxAcked windowSize hdr
    (if st_state st = ST_SYN_RCVD then nabto_stream_handle_ack_on_syn_ack st else st)"
  shows "send_inv (nabto_stream_parse_ack_extension ext hdr st) \<and>
    st_unacked (nabto_stream_parse_ack_extension ext hdr st) =
      filter (\<lambda>x. x \<notin> set (acked_segments (seg_seq st1) (read_gaps ((length ext - 16) div 8) ptr)
        maxAcked (ack_iterator maxAcked st1))) (st_unacked st1)"
proof -
  have "send_inv (if st_state st = ST_SYN_RCVD then nabto_stream_handle_ack_on_syn_ack st else st)"
    using assms(1) send_kept_inv [OF ack_on_syn_ack_kept [of st]] by simp
  then have inv1: "send_inv st1" unfolding st1_def by (rule apply_window_inv(1))
  obtain it' st' where g: "parse_gaps ((length ext - 16) div 8) ptr maxAcked (ack_iterator maxAcked st1) tsEcr st1
      = (it', st')" by fastforce
  have "nabto_stream_parse_ack_extension ext hdr st = ack_rest it' tsEcr st'"
    using assms(2,3,4) g by (simp add: nabto_stream_parse_ack_extension_def st1_def Let_def)
  then show ?thesis
    using parse_gaps_walk [OF ack_iterator_walk [OF inv1] g] by simp
qed

lemma ack_extension_ignored:
  assumes "length ext < 16 \<or> (length ext - 16) mod 8 \<noteq> 0"
  shows "nabto_stream_parse_ack_extension ext hdr st = st"
  using assms by (auto simp: nabto_stream_parse_ack_extension_def)

lemma read_ack_fields_total: "16 \<le> length ext \<Longrightarrow> \<exists>m w t p. read_ack_fields ext = Some (m, w, t, p)"
proof -
  assume "16 \<le> length ext"
  then obtain a0 a1 a2 a3 a4 a5 a6 a7 a8 a9 a10 a11 a12 a13 a14 a15 r where
    "ext = a0 # a1 # a2 # a3 # a4 # a5 # a6 # a7 # a8 # a9 # a10 # a11 # a12 # a13 # a14 # a15 # r"
    by (auto simp: numeral_eq_Suc Suc_le_length_iff)
  then show ?thesis by (simp add: read_ack_fields_def nabto_stream_read_uint32_def)
qed

lemma parse_ack_extension_send_inv:
  assumes "send_inv st"
  shows "send_inv (nabto_stream_parse_ack_extension ext hdr st)"
proof (cases "length ext < 16 \<or> (length ext - 16) mod 8 \<noteq> 0")
  case True
  then show ?thesis using assms ack_extension_ignored by metis
next
  case False
  then have l: "16 \<le> length ext" "(length ext - 16) mod 8 = 0" by auto
  from read_ack_fields_total [OF l(1)] ack_extension_walk [OF assms l] show ?thesis by metis
qed

lemma parse_acking_send_inv: "send_inv st \<Longrightarrow> send_inv (nabto_stream_parse_acking ptr hdr st)"
  unfolding nabto_stream_parse_acking_def
  by (rule extension_loop_invariant [where I = send_inv]) (simp_all add: parse_ack_extension_send_inv)

lemma nonce_response_send_kept: "send_kept st (nabto_stream_parse_nonce_response ptr st)"
proof -
  have "send_kept st (s\<lparr>st_nonceValidated := True\<rparr>)" if "send_kept st s" for s
    by (rule send_kept_trans [OF that send_kept_same]) simp_all
  then show ?thesis
    unfolding nabto_stream_parse_nonce_response_def
    by (intro extension_loop_invariant [where I = "send_kept st"]) (simp_all split: option.split)
qed

lemma ack_data_extension_send_inv: "send_inv st \<Longrightarrow> send_inv (parse_ack_data_extension type ext st)"
  using send_kept_inv [OF handle_data_send_kept] send_kept_inv [OF handle_fin_send_kept]
  by (auto simp: parse_ack_data_extension_def nabto_stream_parse_data_extension_def
      nabto_stream_parse_fin_extension_def split: option.split)

lemma parse_ack_send_inv:
  assumes "send_inv st"
  shows "send_inv (nabto_stream_parse_ack ptr hdr st)"
proof -
  have "send_inv (nabto_stream_parse_nonce_response ptr st)"
    using send_kept_inv [OF nonce_response_send_kept assms] .
  moreover have "send_inv (snd (extension_loop parse_ack_data_extension ptr (nabto_stream_parse_acking ptr hdr s)))"
    if "send_inv s" for s :: "'a stream"
    by (rule extension_loop_invariant [where I = send_inv])
       (simp_all add: that parse_acking_send_inv ack_data_extension_send_inv)
  ultimately show ?thesis using assms by (simp add: nabto_stream_parse_ack_def Let_def)
qed

lemma handle_syn_send_kept: "send_kept st (nabto_stream_handle_syn hdr req st)"
  by (simp add: send_kept_def nabto_stream_handle_syn_def Let_def write_closed_def state_order)

lemma send_inv_recv_allocate: "send_inv st \<Longrightarrow> send_inv (snd (nabto_stream_allocate_next_recv_segment st))"
  by (rule send_kept_inv [OF send_kept_same]) simp_all

lemma handle_syn_ack_send_inv:
  assumes "send_inv st"
  shows "send_inv (nabto_stream_handle_syn_ack hdr req st)"
proof (cases "st_state st = ST_SYN_SENT")
  case False
  have "send_kept st (nabto_stream_handle_syn_ack hdr req st)"
    using False by (auto simp: nabto_stream_handle_syn_ack_def Let_def intro!: send_kept_same)
  then show ?thesis using assms by (rule send_kept_inv)
next
  case True
  have k: "send_inv (nabto_stream_allocate_next_send_segment s)"
    if "send_part s = send_part st" for s :: "'a stream"
    by (rule allocate_send_inv, rule send_kept_inv [OF _ assms]) (use that True in \<open>simp add: send_kept_def write_closed_def state_order\<close>)
  show ?thesis
    unfolding nabto_stream_handle_syn_ack_def Let_def
    using True by (auto intro!: send_inv_recv_allocate k)
qed

lemma parse_syn_send_kept: "send_kept st (nabto_stream_parse_syn ptr hdr st)"
  by (auto simp: nabto_stream_parse_syn_def Let_def handle_syn_send_kept split: prod.split bool.split)

lemma parse_syn_ack_send_inv: "send_inv st \<Longrightarrow> send_inv (nabto_stream_parse_syn_ack ptr hdr st)"
  by (auto simp: nabto_stream_parse_syn_ack_def Let_def handle_syn_ack_send_inv parse_acking_send_inv
      split: prod.split bool.split)

lemma handle_rst_send_kept: "send_kept st (nabto_stream_handle_rst st)"
  by (simp add: send_kept_def nabto_stream_handle_rst_def Let_def write_closed_def state_order)

lemma packet_received_send_kept: "send_kept st (packet_received ts st)"
  by (rule send_kept_same) (simp_all add: packet_received_def Let_def)

lemma handle_packet_send_inv:
  assumes "send_inv st"
  shows "send_inv (nabto_stream_handle_packet packet st)"
  by (rule handle_packet_rule)
     (simp_all add: assms send_kept_inv [OF packet_received_send_kept] parse_ack_send_inv
        parse_syn_ack_send_inv send_kept_inv [OF parse_syn_send_kept] send_kept_inv [OF handle_rst_send_kept])

section \<open>The other operations\<close>

lemma next_event_send_inv:
  assumes "send_inv st"
  shows "send_inv (snd (nabto_stream_next_event_to_handle st))"
  using assms by (auto simp: nabto_stream_next_event_to_handle_def Let_def
      intro!: send_inv_recv_allocate allocate_send_inv)

lemma event_handled_send_kept:
  "ev = ET_TIME_WAIT \<longrightarrow> st_state st = ST_TIME_WAIT \<Longrightarrow> send_kept st (nabto_stream_event_handled ev st)"
  by (cases ev) (simp_all add: nabto_stream_event_handled_def send_kept_def write_closed_def state_order)

lemma handle_timeout_send_inv:
  assumes "send_inv st"
  shows "send_inv (nabto_stream_handle_timeout st)"
    "st_unacked (nabto_stream_handle_timeout st) = st_unacked st"
    "st_sendList (nabto_stream_handle_timeout st) = st_sendList st"
    "set (st_resendList (nabto_stream_handle_timeout st)) = set (st_unacked st)"
proof -
  have c: "send_inv s \<Longrightarrow> send_inv (clear_resend_loop it s) \<and> st_unacked (clear_resend_loop it s) = st_unacked s \<and>
      st_sendList (clear_resend_loop it s) = st_sendList s \<and>
      set (st_resendList (clear_resend_loop it s)) = set (st_resendList s) - set it" for it and s :: "'a stream"
  proof (induction it arbitrary: s)
    case (Cons a it)
    let ?s = "nabto_stream_remove_segment_from_resend_list a s"
    have "st_unacked ?s = st_unacked s" "st_sendList ?s = st_sendList s"
      "set (st_resendList ?s) = set (st_resendList s) - {a}"
      using send_inv_dest(3) [OF Cons.prems]
      by (auto simp: nabto_stream_remove_segment_from_resend_list_def)
    then show ?case using Cons.IH [of ?s] Cons.prems by auto
  qed simp
  have r: "set (resend_insert f a l) = insert a (set l)" for f a l by (induction l) auto
  have m: "send_inv s \<Longrightarrow> set it \<subseteq> set (st_unacked s) \<Longrightarrow> send_inv (mark_all it s) \<and>
      st_unacked (mark_all it s) = st_unacked s \<and> st_sendList (mark_all it s) = st_sendList s \<and>
      set (st_resendList (mark_all it s)) = set (st_resendList s) \<union> set it" for it and s :: "'a stream"
  proof (induction it arbitrary: s)
    case (Cons a it)
    have l: "st_unacked (nabto_stream_mark_segment_for_retransmission a s) = st_unacked s"
      "st_sendList (nabto_stream_mark_segment_for_retransmission a s) = st_sendList s"
      "set (st_resendList (nabto_stream_mark_segment_for_retransmission a s)) = insert a (set (st_resendList s))"
      by (auto simp: nabto_stream_mark_segment_for_retransmission_def r)
    show ?case
      using Cons.IH [of "nabto_stream_mark_segment_for_retransmission a s"] Cons.prems l by simp
  qed simp
  define st1 where "st1 = mark_all (st_unacked (nabto_stream_clear_resend_list st)) (nabto_stream_clear_resend_list st)"
  have 0: "send_inv (nabto_stream_clear_resend_list st)" "st_resendList (nabto_stream_clear_resend_list st) = []"
    "st_unacked (nabto_stream_clear_resend_list st) = st_unacked st"
    "st_sendList (nabto_stream_clear_resend_list st) = st_sendList st"
    using c [OF assms, of "st_resendList st"] by (auto simp: nabto_stream_clear_resend_list_def)
  have 1: "send_inv st1" "st_unacked st1 = st_unacked st" "st_sendList st1 = st_sendList st"
    "set (st_resendList st1) = set (st_unacked st)"
    using m [OF 0(1) subset_refl] 0 by (auto simp: st1_def)
  have e: "nabto_stream_handle_timeout st = (nabto_stream_congestion_control_timeout st1)\<lparr>st_segmentSentAfterTimeout := False\<rparr>"
    by (simp add: nabto_stream_handle_timeout_def st1_def Let_def)
  have k: "send_kept st1 (nabto_stream_handle_timeout st)"
    by (rule send_kept_same) (simp_all add: e)
  then show "send_inv (nabto_stream_handle_timeout st)" using 1(1) by (rule send_kept_inv)
  show "st_unacked (nabto_stream_handle_timeout st) = st_unacked st"
    "st_sendList (nabto_stream_handle_timeout st) = st_sendList st"
    "set (st_resendList (nabto_stream_handle_timeout st)) = set (st_unacked st)"
    using k 1 by (auto simp: send_kept_def send_part_def)
qed

section \<open>Writing segments to a packet\<close>

lemma write_segment_inv:
  assumes "send_inv (snd s)" "a \<in> set (send_queue (snd s))"
  shows "send_inv (snd (nabto_stream_write_segment a ts q s))"
    "st_unacked (snd (nabto_stream_write_segment a ts q s)) = st_unacked (snd s)"
    "st_sendList (snd (nabto_stream_write_segment a ts q s)) = st_sendList (snd s)"
    "st_resendList (snd (nabto_stream_write_segment a ts q s)) = st_resendList (snd s)"
  using assms(1) send_inv_dest(5) [OF assms]
  by (simp_all add: nabto_stream_write_segment_def Let_def split_beta)
     (simp_all add: set_seg_def)

lemma write_resent_inv:
  assumes "send_inv (snd s)" "a \<in> set (send_queue (snd s))"
  shows "send_inv (snd (write_resent_segment a ts q s))"
    "st_unacked (snd (write_resent_segment a ts q s)) = st_unacked (snd s)"
    "st_sendList (snd (write_resent_segment a ts q s)) = st_sendList (snd s)"
    "st_resendList (snd (write_resent_segment a ts q s)) = remove1 a (st_resendList (snd s))"
  using write_segment_inv [OF assms]
  by (simp_all add: write_resent_segment_def Let_def split_beta)
     (simp_all add: nabto_stream_remove_segment_from_resend_list_def)

lemma send_new_inv:
  fixes st :: "'m stream"
  assumes "send_inv st" "st_sendList st = a # l"
  defines "st' \<equiv> add_to_unacked_list_end a (nabto_stream_remove_segment_from_send_list a
    (upd_cc (\<lambda>c. c\<lparr>cc_flightSize := cc_flightSize c + 1\<rparr>) st))"
  shows "send_inv st'" "st_sendList st' = l" "st_unacked st' = st_unacked st @ [a]"
    "send_queue st' = send_queue st"
proof -
  show l: "st_sendList st' = l" "st_unacked st' = st_unacked st @ [a]"
    using assms(2)
    by (simp_all add: st'_def add_to_unacked_list_end_def upd_cc_def
        nabto_stream_remove_segment_from_send_list_def)
  then show q: "send_queue st' = send_queue st" by (simp add: send_queue_def assms(2))
  have s: "st_segs st' = st_segs st" "st_nextSeg st' = st_nextSeg st"
    "st_nextUnfilledSendSegment st' = st_nextUnfilledSendSegment st"
    "st_resendList st' = st_resendList st" "st_unackedSize st' = st_unackedSize st + 1"
    "st_sendListSize st' = st_sendListSize st - 1" "st_state st' = st_state st"
    "cc_flightSize (st_cc st') = cc_flightSize (st_cc st) + 1"
    by (simp_all add: st'_def add_to_unacked_list_end_def upd_cc_def
        nabto_stream_remove_segment_from_send_list_def)
  show "send_inv st'"
    using assms(1) unfolding send_inv_def q s l write_closed_def by (auto simp: assms(2))
qed

lemma write_new_inv:
  assumes "send_inv (snd s)" "st_sendList (snd s) = a # l"
  shows "send_inv (snd (write_new_segment a ts q s))"
    "st_sendList (snd (write_new_segment a ts q s)) = l"
    "st_unacked (snd (write_new_segment a ts q s)) = st_unacked (snd s) @ [a]"
    "send_queue (snd (write_new_segment a ts q s)) = send_queue (snd s)"
proof -
  have a: "a \<in> set (send_queue (snd s))" using assms(2) by (simp add: send_queue_def)
  have e: "snd (write_new_segment a ts q s) = add_to_unacked_list_end a
     (nabto_stream_remove_segment_from_send_list a
       (upd_cc (\<lambda>c. c\<lparr>cc_flightSize := cc_flightSize c + 1\<rparr>) (snd (nabto_stream_write_segment a ts q s))))"
    by (simp add: write_new_segment_def Let_def split_beta)
  note w = write_segment_inv [OF assms(1) a, of ts q]
  have l: "st_sendList (snd (nabto_stream_write_segment a ts q s)) = a # l" using w(3) assms(2) by simp
  have q: "send_queue (snd (nabto_stream_write_segment a ts q s)) = send_queue (snd s)"
    using w(2,3) by (simp add: send_queue_def)
  show "send_inv (snd (write_new_segment a ts q s))"
    "st_sendList (snd (write_new_segment a ts q s)) = l"
    "st_unacked (snd (write_new_segment a ts q s)) = st_unacked (snd s) @ [a]"
    "send_queue (snd (write_new_segment a ts q s)) = send_queue (snd s)"
    unfolding e using send_new_inv [OF w(1) l] w(2) q by simp_all
qed

lemma resend_loop_inv:
  assumes "send_inv (snd s)" "set as \<subseteq> set (send_queue (snd s))"
    and "write_segments_loop (\<lambda>a. write_resent_segment a ts q) as n s = (full, n', s')"
  shows "send_inv (snd s') \<and> st_unacked (snd s') = st_unacked (snd s) \<and>
    st_sendList (snd s') = st_sendList (snd s)"
  using assms
proof (induction as arbitrary: n s)
  case (Cons a as)
  let ?s = "write_resent_segment a ts q s"
  have w: "send_inv (snd ?s)" "st_unacked (snd ?s) = st_unacked (snd s)" "st_sendList (snd ?s) = st_sendList (snd s)"
    using write_resent_inv [OF Cons.prems(1)] Cons.prems(2) by auto
  then have "set as \<subseteq> set (send_queue (snd ?s))" using Cons.prems(2) by (simp add: send_queue_def)
  from Cons.IH [OF w(1) this] show ?case
    using Cons.prems w by (auto split: if_splits)
qed auto

lemma new_loop_inv:
  assumes "send_inv (snd s)" "st_sendList (snd s) = as"
    and "write_segments_loop (\<lambda>a. write_new_segment a ts q) as n s = (full, n', s')"
  shows "send_inv (snd s') \<and> send_queue (snd s') = send_queue (snd s)"
  using assms
proof (induction as arbitrary: n s)
  case (Cons a as)
  note w = write_new_inv [OF Cons.prems(1,2), of ts q]
  from Cons.IH [OF w(1,2)] show ?case
    using Cons.prems w(4) by (auto split: if_splits)
qed auto

lemma write_data_inv:
  assumes "send_inv st"
  shows "send_inv (snd (snd (nabto_stream_write_data_to_packet ts ptr st)))"
    "send_queue (snd (snd (nabto_stream_write_data_to_packet ts ptr st))) = send_queue st"
proof -
  define q where "q = st_sentPackets st + 1"
  obtain full n s where 1: "write_segments_loop (\<lambda>a. write_resent_segment a ts q) (st_resendList st) 0 (ptr, st) = (full, n, s)"
    by (metis prod_cases3)
  obtain full' n' s' where 2: "write_segments_loop (\<lambda>a. write_new_segment a ts q) (st_sendList (snd s)) n s = (full', n', s')"
    by (metis prod_cases3)
  have r: "send_inv (snd s)" "send_queue (snd s) = send_queue st"
  proof -
    have "set (st_resendList st) \<subseteq> set (send_queue (snd (ptr, st)))"
      using send_inv_dest(4) [OF assms] by (auto simp: send_queue_def)
    from resend_loop_inv [OF _ this 1] show "send_inv (snd s)" "send_queue (snd s) = send_queue st"
      using assms by (simp_all add: send_queue_def)
  qed
  have "send_inv (snd s')" "send_queue (snd s') = send_queue st"
    using new_loop_inv [OF r(1) _ 2] r(2) by auto
  then have *: "send_inv (snd x) \<and> send_queue (snd x) = send_queue st" if "x = (if full then s else s')" for x
    using that r by simp
  have k: "send_inv (x\<lparr>st_sentPackets := q\<rparr>)" if "send_inv x" for x :: "'a stream"
    by (rule send_kept_inv [OF send_kept_same that]) simp_all
  show "send_inv (snd (snd (nabto_stream_write_data_to_packet ts ptr st)))"
    "send_queue (snd (snd (nabto_stream_write_data_to_packet ts ptr st))) = send_queue st"
    using * k 1 2 by (auto simp: nabto_stream_write_data_to_packet_def q_def [symmetric] Let_def send_queue_def)
qed

lemma logical_stamp_kept: "send_kept st (snd (nabto_stream_logical_stamp_get st))"
  by (rule send_kept_same) (simp_all add: nabto_stream_logical_stamp_get_def)

lemma create_ack_inv:
  assumes "send_inv st"
  shows "send_inv (snd (nabto_stream_create_ack_packet n st)) \<and>
    send_queue (snd (nabto_stream_create_ack_packet n st)) = send_queue st"
proof -
  have k: "send_inv s \<and> send_queue s = send_queue st" if "send_part s = send_part st" "st_state s = st_state st" for s :: "'a stream"
    using send_kept_inv [OF send_kept_same [OF that] assms] that(1) by (simp add: send_part_def send_queue_def)
  have w: "send_inv (upd_cc (\<lambda>c. c\<lparr>cc_cwnd := v c\<rparr>) (snd (snd (nabto_stream_write_data_to_packet ts ptr s)))) \<and>
     send_queue (upd_cc (\<lambda>c. c\<lparr>cc_cwnd := v c\<rparr>) (snd (snd (nabto_stream_write_data_to_packet ts ptr s)))) = send_queue st"
    if "send_inv s \<and> send_queue s = send_queue st" for s :: "'a stream" and ts ptr v
  proof -
    let ?w = "snd (snd (nabto_stream_write_data_to_packet ts ptr s))"
    have "send_kept ?w (upd_cc (\<lambda>c. c\<lparr>cc_cwnd := v c\<rparr>) ?w)"
      by (rule send_kept_same) simp_all
    then have "send_inv (upd_cc (\<lambda>c. c\<lparr>cc_cwnd := v c\<rparr>) ?w)"
      by (rule send_kept_inv) (rule write_data_inv(1), use that in simp)
    moreover have "send_queue (upd_cc (\<lambda>c. c\<lparr>cc_cwnd := v c\<rparr>) ?w) = send_queue ?w"
      by (simp add: send_queue_def upd_cc_def)
    moreover have "send_queue ?w = send_queue st"
      using write_data_inv(2) [of s ts ptr] that by simp
    ultimately show ?thesis by simp
  qed
  define lst where "lst = snd (nabto_stream_logical_stamp_get st)"
  define ts where "ts = fst (nabto_stream_logical_stamp_get st)"
  define p0 where "p0 = nabto_stream_write_header NABTO_STREAM_FLAG_ACK ts (Some ([], n))"
  define p1 where "p1 = nabto_stream_add_ack_extension lst
    (if st_sendNonce lst then nabto_stream_add_nonce_response_extension lst p0 else p0)"
  define d where "d = nabto_stream_write_data_to_packet ts p1 (lst\<lparr>st_sendNonce := False\<rparr>)"
  have e: "snd (nabto_stream_create_ack_packet n st) = (if p0 = None then lst else if p1 = None then lst
    else upd_cc (\<lambda>c. c\<lparr>cc_cwnd := sm_round (st_module (snd (snd d))) (cc_cwnd c - of_nat (fst (snd d)))\<rparr>)
      (snd (snd d)))"
    by (simp only: nabto_stream_create_ack_packet_def Let_def split_beta p0_def p1_def lst_def ts_def d_def
        if_distrib [of snd] snd_conv)
  have l: "send_inv lst \<and> send_queue lst = send_queue st"
    "send_inv (lst\<lparr>st_sendNonce := False\<rparr>) \<and> send_queue (lst\<lparr>st_sendNonce := False\<rparr>) = send_queue st"
    by (rule k; simp add: lst_def nabto_stream_logical_stamp_get_def)+
  show ?thesis
    unfolding e d_def using w [OF l(2)] l(1) by simp
qed

lemma create_packet_send_inv:
  assumes "send_inv st"
  shows "send_inv (snd (nabto_stream_create_packet n ev st)) \<and>
    send_queue (snd (nabto_stream_create_packet n ev st)) = send_queue st"
proof -
  have k: "send_inv s \<and> send_queue s = send_queue st" if "send_part s = send_part st" "st_state s = st_state st" for s :: "'a stream"
    using send_kept_inv [OF send_kept_same [OF that] assms] that(1) by (simp add: send_part_def send_queue_def)
  have "send_inv (snd (nabto_stream_create_syn_packet n st)) \<and>
      send_queue (snd (nabto_stream_create_syn_packet n st)) = send_queue st"
    "send_inv (snd (nabto_stream_create_syn_ack_packet n st)) \<and>
      send_queue (snd (nabto_stream_create_syn_ack_packet n st)) = send_queue st"
    by (rule k; simp add: nabto_stream_create_syn_packet_def nabto_stream_create_syn_ack_packet_def
        nabto_stream_logical_stamp_get_def Let_def split: option.split)+
  then show ?thesis
    using create_ack_inv [OF assms] assms by (cases ev) (simp_all add: nabto_stream_create_packet_def)
qed

end
