(* ===== verification/Stream_Receive_Props.thy ===== *)
theory Stream_Receive_Props
  imports Stream_Reach
begin

text \<open>
  What the receive side of a stream promises, for every reachable state: the window of receive
  segments, the bytes handed to the reader, the packets that have no effect, the replay
  protection, and two packets the code handles in a way it does not mean to.
\<close>

section \<open>A concrete module\<close>

text \<open>A module whose clock stands still and whose allocator never fails, for concrete streams.\<close>

definition fresh_recv_segment :: "nat \<Rightarrow> recv_segment" where
  "fresh_recv_segment n = \<lparr>rs_seq = 0, rs_state = RB_IDLE, rs_isFin = False, rs_capacity = n,
     rs_size = 0, rs_used = 0, rs_buf = replicate n 0\<rparr>"

definition sample_module :: "unit stream_module" where
  "sample_module = \<lparr>sm_get_stamp = (\<lambda>_. 0),
     sm_alloc_send_segment = (\<lambda>n m. (Some (zero_send_segment\<lparr>ss_capacity := n, ss_buf := replicate n 0\<rparr>), m)),
     sm_free_send_segment = (\<lambda>_ m. m),
     sm_alloc_recv_segment = (\<lambda>n m. (Some (fresh_recv_segment n), m)),
     sm_free_recv_segment = (\<lambda>_ m. m), sm_notify_event = (\<lambda>_ m. m), sm_round = id\<rparr>"

lemma sample_module_ok: "recv_allocator_ok sample_module"
  by (simp add: recv_allocator_ok_def sample_module_def fresh_recv_segment_def)

section \<open>Properties of the receive side\<close>

text \<open>C1: In every reachable stream the segments waiting for the reader and the segments of the
  receive window have consecutive sequence numbers, the reader's part ending at \<open>recvTop\<close>; the first
  segment of the window is the one that is missing; data are only held in the first
  \<open>NABTO_STREAM_MAX_RECV_SEGMENTS\<close> places of the window, and there is at most one free segment more.
  Reachable means that no fin extension is numbered half of the number space away from the window
  (\<open>packet_near\<close>); C30 shows that such a fin breaks the bound.\<close>

theorem recv_window_consecutive:
  assumes "stream_reach md st" "recv_allocator_ok md"
  shows "consecutive (st_recvTop st - of_nat (length (st_recvRead st)))
           (map rs_seq (st_recvRead st @ st_recvWindow st)) \<and>
    (\<forall>s\<in>set (st_recvRead st). rs_state s = RB_DATA) \<and>
    (st_recvWindow st \<noteq> [] \<longrightarrow> rs_state (hd (st_recvWindow st)) = RB_IDLE) \<and>
    st_recvMaxAllocated st = st_recvTop st + of_nat (length (st_recvWindow st)) \<and>
    (\<forall>i<length (st_recvWindow st). rs_state (st_recvWindow st ! i) = RB_DATA \<longrightarrow>
       i < unat NABTO_STREAM_MAX_RECV_SEGMENTS) \<and>
    length (st_recvWindow st) \<le> unat NABTO_STREAM_MAX_RECV_SEGMENTS + 1"
proof -
  have inv: "recv_inv st" using stream_reach_inv [OF assms] by (simp add: stream_inv_def)
  have app: "consecutive (T - of_nat (length xs)) (xs @ ys)"
    if "consecutive (T - of_nat (length xs)) xs" "consecutive T ys" for T xs ys
    using that by (fastforce simp: consecutive_def nth_append algebra_simps)
  have "\<forall>i<length (st_recvWindow st). rs_state (st_recvWindow st ! i) = RB_DATA \<longrightarrow> i < 10000"
    using inv by (auto simp: recv_inv_def recv_lists_def)
  then show ?thesis
    using inv app [of "st_recvTop st" "map rs_seq (st_recvRead st)" "map rs_seq (st_recvWindow st)"]
    by (simp add: recv_inv_def recv_lists_def)
qed

section \<open>Reading\<close>

text \<open>The bytes the reader can get: up to the fin, from where the reader is.\<close>

definition seg_rest :: "recv_segment \<Rightarrow> bytes" where
  "seg_rest s = drop (unat (rs_used s)) (take (unat (rs_size s)) (rs_buf s))"

definition read_pending :: "'m stream \<Rightarrow> bytes" where
  "read_pending st = concat (map seg_rest (takeWhile (\<lambda>s. \<not> rs_isFin s) (st_recvRead st)))"

definition read_ok :: "'m stream \<Rightarrow> bool" where
  "read_ok st \<longleftrightarrow> (\<forall>s\<in>set (st_recvRead st). \<not> rs_isFin s \<longrightarrow>
     rs_used s \<le> rs_size s \<and> unat (rs_size s) \<le> length (rs_buf s))"

lemma seg_rest_length:
  "rs_used s \<le> rs_size s \<Longrightarrow> unat (rs_size s) \<le> length (rs_buf s) \<Longrightarrow>
   length (seg_rest s) = unat (rs_size s - rs_used s)"
  by (simp add: seg_rest_def unat_sub)

lemma seg_rest_take:
  assumes "rs_used s \<le> rs_size s" "unat (rs_size s) \<le> length (rs_buf s)"
  shows "take (min (unat (rs_size s - rs_used s)) n) (drop (unat (rs_used s)) (rs_buf s)) = take n (seg_rest s)"
proof -
  have "unat (rs_size s - rs_used s) = unat (rs_size s) - unat (rs_used s)" using assms(1) by (simp add: unat_sub)
  then show ?thesis
    by (simp add: seg_rest_def drop_take min.commute)
qed

lemma seg_rest_advance:
  assumes "rs_used s \<le> rs_size s" "unat (rs_size s) \<le> length (rs_buf s)"
  shows "seg_rest (s\<lparr>rs_used := rs_used s + of_nat (min (unat (rs_size s - rs_used s)) n)\<rparr>) = drop n (seg_rest s)"
proof -
  have "min (unat (rs_size s) - unat (rs_used s)) n + unat (rs_used s) = n + unat (rs_used s) \<or>
    (unat (rs_size s) \<le> n + unat (rs_used s) \<and>
     min (unat (rs_size s) - unat (rs_used s)) n + unat (rs_used s) = unat (rs_size s))"
    using assms(1) by (auto simp: word_le_nat_alt)
  then show ?thesis
    unfolding seg_rest_def using used_advance [OF assms(1), of n] by (auto simp: add.commute)
qed

text \<open>One call of \<open>nabto_stream_read_buffer_once\<close> on a stream with a data segment in front.\<close>

lemma read_once_data:
  assumes "st_recvRead st = s # rest" "\<not> rs_isFin s" "read_ok st"
    "st_state st \<noteq> ST_ABORTED" "st_state st \<noteq> ST_ABORTED_RST"
    and "nabto_stream_read_buffer_once n st = (status, data, st')"
  shows "status = SS_OK" "data = take n (seg_rest s)" "read_ok st'" "st_state st' = st_state st"
    "read_pending st = data @ read_pending st'"
    "st_recvRead st' = rest \<or> (length data = n \<and> length (st_recvRead st') = Suc (length rest))"
proof -
  have ok: "rs_used s \<le> rs_size s" "unat (rs_size s) \<le> length (rs_buf s)"
    using assms(1-3) by (auto simp: read_ok_def)
  let ?s = "s\<lparr>rs_used := rs_used s + of_nat (min (unat (rs_size s - rs_used s)) n)\<rparr>"
  have adv: "unat (rs_used ?s) = unat (rs_used s) + min (unat (rs_size s) - unat (rs_used s)) n"
    using used_advance [OF ok(1)] by simp
  have eq: "rs_size s = rs_used ?s \<longleftrightarrow> length (seg_rest s) \<le> n"
    using adv ok by (auto simp: u16_eq_iff seg_rest_length unat_sub word_le_nat_alt)
  have r: "status = SS_OK \<and> data = take n (seg_rest s) \<and> st_state st' = st_state st \<and>
    st_recvRead st' = (if length (seg_rest s) \<le> n then rest else ?s # rest)"
    using assms eq seg_rest_take [OF ok, of n]
    by (auto simp: nabto_stream_read_buffer_once_def Let_def nabto_stream_free_recv_segment_def
        nabto_stream_module_notify_event_def split: if_splits)
  then show "status = SS_OK" "data = take n (seg_rest s)" "st_state st' = st_state st" by auto
  have ok': "rs_used ?s \<le> rs_size ?s" using used_le_size [OF ok(1)] by simp
  then show "read_ok st'"
    using r assms(1,3) ok by (auto simp: read_ok_def split: if_splits)
  show "read_pending st = data @ read_pending st'"
    using r assms(1,2) seg_rest_advance [OF ok, of n]
    by (auto simp: read_pending_def split: if_splits)
  show "st_recvRead st' = rest \<or> (length data = n \<and> length (st_recvRead st') = Suc (length rest))"
    using r by (auto split: if_splits)
qed

lemma read_loop_delivers:
  assumes "read_ok st" "st_state st \<noteq> ST_ABORTED" "st_state st \<noteq> ST_ABORTED_RST"
    "nabto_stream_has_more_read_data st" "length (st_recvRead st) < fuel"
    "read_buffer_loop fuel n st = (status, data, st')"
  shows "status = SS_OK \<and> data = take n (read_pending st) \<and> read_pending st' = drop n (read_pending st)
    \<and> read_ok st'"
  using assms
proof (induction fuel arbitrary: n st status data st')
  case 0
  from 0(5) show ?case by (simp only: not_less_zero)
next
  case (Suc fuel)
  from Suc.prems(4) obtain s rest where s: "st_recvRead st = s # rest" "\<not> rs_isFin s"
    by (auto simp: nabto_stream_has_more_read_data_def split: if_splits list.splits)
  obtain st1 d1 s1 where r1: "nabto_stream_read_buffer_once n st = (s1, d1, st1)"
    by (cases "nabto_stream_read_buffer_once n st") auto
  note once = read_once_data [OF s Suc.prems(1-3) r1]
  show ?case
  proof (cases "nabto_stream_has_more_read_data st1 \<and> 0 < n - length d1")
    case True
    obtain s2 d2 st2 where r2: "read_buffer_loop fuel (n - length d1) st1 = (s2, d2, st2)"
      by (cases "read_buffer_loop fuel (n - length d1) st1") auto
    have len: "length (st_recvRead st1) < fuel"
      using once(6) True s(1) Suc.prems(5) by auto
    have ih: "s2 = SS_OK \<and> d2 = take (n - length d1) (read_pending st1) \<and>
      read_pending st2 = drop (n - length d1) (read_pending st1) \<and> read_ok st2"
      by (rule Suc.IH [OF once(3) _ _ _ len r2]) (use Suc.prems(2,3) once(4) True in auto)
    have le: "length d1 \<le> n" using once(2) by simp
    show ?thesis
      using Suc.prems(6) r1 r2 True once(1,5) ih le by auto
  next
    case False
    then have fin: "st' = st1" "data = d1" "status = SS_OK"
      using Suc.prems(6) r1 once(1) by (auto split: if_splits)
    have "read_pending st1 = [] \<or> length d1 = n"
    proof (cases "nabto_stream_has_more_read_data st1")
      case True
      then show ?thesis using False once(2) by auto
    next
      case no: False
      then have "read_pending st1 = []"
        using Suc.prems(2,3) once(4)
        by (auto simp: nabto_stream_has_more_read_data_def read_pending_def split: list.splits if_splits)
      then show ?thesis ..
    qed
    then show ?thesis
      using fin once(2,3,5) by auto
  qed
qed

text \<open>C5: Reading returns the bytes the reader has not seen yet, in the order of the sequence
  numbers and up to the fin, as many as the buffer holds; what is left to read afterwards is the
  rest.\<close>

theorem read_buffer_delivers:
  assumes "stream_reach md st" "recv_allocator_ok md" "nabto_stream_has_more_read_data st"
  shows "\<exists>st'. nabto_stream_read_buffer n st = (SS_OK, take n (read_pending st), st') \<and>
    read_pending st' = drop n (read_pending st)"
proof -
  have ok: "read_ok st"
    using stream_reach_inv [OF assms(1,2)]
    by (auto simp: stream_inv_def recv_inv_def recv_lists_def recv_seg_ok_def read_ok_def)
  have st: "st_state st \<noteq> ST_ABORTED" "st_state st \<noteq> ST_ABORTED_RST"
    using assms(3) by (auto simp: nabto_stream_has_more_read_data_def)
  obtain status data st' where r: "read_buffer_loop (length (st_recvRead st) + 1) n st = (status, data, st')"
    by (cases "read_buffer_loop (length (st_recvRead st) + 1) n st") auto
  from read_loop_delivers [OF ok st assms(3) _ r] show ?thesis
    unfolding nabto_stream_read_buffer_def r by simp
qed

text \<open>A responder that has accepted a stream, and the packets that bring it there.\<close>

definition sample_syn :: bytes where
  "sample_syn = [0x80, 0,0,0,1, 0x10,0x00, 0,4, 0,4, 0,4, 0x10,0x06, 0,4, 0,0,0,7]"

definition sample_ack :: bytes where
  "sample_ack = [0x10, 0,0,0,2, 0x10,0x01, 0,16, 0,0,0,0, 0,0,0,9, 0,0,0,0, 0,0,0,0,
     0x10,0x02, 0,6, 0,0,0,8, 65,66]"

definition sample_accepted :: "unit stream" where
  "sample_accepted = snd (nabto_stream_accept
     (nabto_stream_handle_packet sample_syn (nabto_stream_init sample_module ())))"

definition sample_open :: "unit stream" where
  "sample_open = nabto_stream_handle_packet sample_ack sample_accepted"

lemma sample_accepted_reach: "stream_reach sample_module sample_accepted"
proof -
  have "packet_near sample_syn (nabto_stream_init sample_module ())" by code_simp
  then show ?thesis
    unfolding sample_accepted_def
    by (intro stream_reach.accept stream_reach.packet stream_reach.init)
qed

lemma sample_open_reach: "stream_reach sample_module sample_open"
proof -
  have "packet_near sample_ack sample_accepted" by code_simp
  then show ?thesis
    unfolding sample_open_def by (intro stream_reach.packet sample_accepted_reach)
qed

text \<open>The next segment but one arrives.\<close>

definition sample_data :: bytes where
  "sample_data = [0x10, 0,0,0,3, 0x10,0x02, 0,5, 0,0,0,10, 67]"

definition sample_gap :: "unit stream" where
  "sample_gap = nabto_stream_handle_packet sample_data sample_open"

lemma sample_gap_reach: "stream_reach sample_module sample_gap"
proof -
  have "packet_near sample_data sample_open" by code_simp
  then show ?thesis unfolding sample_gap_def by (intro stream_reach.packet sample_open_reach)
qed

definition receive_view :: "'m stream \<Rightarrow> u32 \<times> recv_buffer_state list \<times> recv_buffer_state list" where
  "receive_view st = (st_recvTop st, map rs_state (st_recvRead st), map rs_state (st_recvWindow st))"

lemma sample_gap_view: "receive_view sample_gap = (8, [RB_DATA], [RB_IDLE, RB_DATA])"
  by code_simp

theorem recv_window_consecutive_witness:
  "consecutive 7 (map rs_seq (st_recvRead sample_gap @ st_recvWindow sample_gap)) \<and>
   map rs_state (st_recvRead sample_gap) = [RB_DATA] \<and> map rs_state (st_recvWindow sample_gap) = [RB_IDLE, RB_DATA]"
proof -
  have w: "st_recvTop sample_gap = 8" "map rs_state (st_recvRead sample_gap) = [RB_DATA]"
    "map rs_state (st_recvWindow sample_gap) = [RB_IDLE, RB_DATA]"
    using sample_gap_view by (simp_all add: receive_view_def)
  have "length (st_recvRead sample_gap) = 1" using arg_cong [OF w(2), of length] by simp
  then show ?thesis
    using recv_window_consecutive [OF sample_gap_reach sample_module_ok] w by simp
qed

theorem read_buffer_delivers_witness: "fst (snd (nabto_stream_read_buffer 1 sample_open)) = [65]"
proof -
  have more: "nabto_stream_has_more_read_data sample_open" by code_simp
  have pending: "read_pending sample_open = [65, 66]" by code_simp
  from read_buffer_delivers [OF sample_open_reach sample_module_ok more, of 1]
  show ?thesis unfolding pending by auto
qed

text \<open>The segments with data, in the order of their numbers.\<close>

definition held_data :: "'m stream \<Rightarrow> recv_segment list" where
  "held_data st = filter (\<lambda>s. rs_state s = RB_DATA) (st_recvRead st @ st_recvWindow st)"

lemma allocate_recv_held:
  assumes "recv_allocator_ok (st_module st)"
  shows "held_data (snd (nabto_stream_allocate_next_recv_segment st)) = held_data st"
proof -
  obtain r user where r: "sm_alloc_recv_segment (st_module st)
      (unat (st_maxRecvSegmentSize st)) (st_user st) = (r, user)" by fastforce
  then have "r = Some s \<Longrightarrow> rs_state s = RB_IDLE" for s
    using assms by (auto simp: recv_allocator_ok_def)
  with r show ?thesis
    by (auto simp: nabto_stream_allocate_next_recv_segment_def Let_def held_data_def split: option.split)
qed

lemma find_recv_alloc_held:
  "recv_allocator_ok (st_module st) \<Longrightarrow> held_data (snd (find_recv_alloc seq st)) = held_data st"
proof (induction seq st rule: find_recv_alloc.induct)
  case (1 seq st)
  obtain b st' where r: "nabto_stream_allocate_next_recv_segment st = (b, st')" by fastforce
  have c: "held_data st' = held_data st" "st_module st' = st_module st"
    using allocate_recv_held [OF 1(2)] allocate_module(2) [of st] r by simp_all
  show ?case
    using "1.IH" [OF _ r [symmetric]] c 1(2) r
    by (cases b) (subst find_recv_alloc.simps, simp)+
qed

lemma find_recv_buffer_held:
  assumes "recv_allocator_ok (st_module st)" "nabto_stream_find_recv_buffer seq st = (r, st')"
  shows "held_data st' = held_data st"
  using assms(2) find_recv_alloc_held [OF assms(1), of seq]
  by (auto simp: nabto_stream_find_recv_buffer_def split: if_splits prod.splits bool.splits)

lemma move_recv_loop_all:
  "st_recvWindow st = it \<Longrightarrow>
   st_recvRead (move_recv_loop it st) @ st_recvWindow (move_recv_loop it st) = st_recvRead st @ it"
  by (induction it arbitrary: st) (auto simp: upd_events_def Let_def)

lemma move_segments_held [simp]:
  "held_data (move_segments_from_recv_window_to_recv_read st) = held_data st"
  by (simp add: held_data_def move_segments_from_recv_window_to_recv_read_def move_recv_loop_all flip: filter_append)

lemma held_data_fill:
  assumes "i < length (st_recvWindow st)" "rs_state (st_recvWindow st ! i) = RB_IDLE" "rs_state s = RB_DATA"
    "st_recvRead st' = st_recvRead st" "st_recvWindow st' = (st_recvWindow st)[i := s]"
  shows "\<exists>xs ys. held_data st = xs @ ys \<and> held_data st' = xs @ s # ys"
proof -
  let ?w = "st_recvWindow st" and ?P = "\<lambda>s. rs_state s = RB_DATA"
  have w: "st_recvRead st @ ?w = (st_recvRead st @ take i ?w) @ ?w ! i # drop (Suc i) ?w"
    "st_recvRead st' @ st_recvWindow st' = (st_recvRead st @ take i ?w) @ s # drop (Suc i) ?w"
    using assms(1,4,5) by (simp_all add: upd_conv_take_nth_drop) (metis id_take_nth_drop)
  show ?thesis
    unfolding held_data_def w using assms(2,3)
    by (intro exI [of _ "filter ?P (st_recvRead st @ take i ?w)"] exI [of _ "filter ?P (drop (Suc i) ?w)"]) simp
qed

text \<open>A number has one place in the window.\<close>

lemma window_place:
  assumes "recv_inv st" "i < length (st_recvWindow st)" "j < length (st_recvWindow st)"
    "rs_seq (st_recvWindow st ! i) = rs_seq (st_recvWindow st ! j)"
  shows "i = j"
proof -
  have "length (st_recvWindow st) \<le> 10001" "consecutive (st_recvTop st) (map rs_seq (st_recvWindow st))"
    using assms(1) by (auto simp: recv_inv_def recv_lists_def)
  then have "(of_nat (Suc i) :: u32) = of_nat (Suc j)" "i \<le> 10000" "j \<le> 10000"
    using assms(2-4) by (auto simp: consecutive_def simp del: of_nat_Suc)
  moreover have "unat (of_nat (Suc n) :: u32) = Suc n" if "n \<le> 10000" for n
    using that by (simp add: unat_of_nat del: of_nat_Suc)
  ultimately show ?thesis by (metis Suc_inject)
qed

lemma held_place:
  assumes "recv_inv st1" "i < length (st_recvWindow st1)" "rs_seq (st_recvWindow st1 ! i) = seq"
    "held_data st1 = held_data st" "st_recvRead st1 = st_recvRead st"
  shows "(\<exists>s\<in>set (st_recvWindow st). rs_state s = RB_DATA \<and> rs_seq s = seq) \<longleftrightarrow> rs_state (st_recvWindow st1 ! i) = RB_DATA"
proof -
  let ?P = "\<lambda>s. rs_state s = RB_DATA"
  have f: "filter ?P (st_recvWindow st1) = filter ?P (st_recvWindow st)"
    using assms(4,5) by (simp add: held_data_def)
  have "(\<exists>s\<in>set (st_recvWindow st). ?P s \<and> rs_seq s = seq) \<longleftrightarrow> (\<exists>s\<in>set (filter ?P (st_recvWindow st)). rs_seq s = seq)"
    by auto
  also have "\<dots> \<longleftrightarrow> (\<exists>s\<in>set (st_recvWindow st1). ?P s \<and> rs_seq s = seq)" unfolding f [symmetric] by auto
  also have "\<dots> \<longleftrightarrow> ?P (st_recvWindow st1 ! i)"
    using assms(2,3) window_place [OF assms(1,2)] by (metis in_set_conv_nth nth_mem)
  finally show ?thesis .
qed

text \<open>The data extension with this number is stored: it can be taken in this state, it has a place in
  the window, and there are no data in this place yet.\<close>

definition data_accepted :: "u32 \<Rightarrow> bytes \<Rightarrow> 'm stream \<Rightarrow> bool" where
  "data_accepted seq data st \<longleftrightarrow> st_state st \<in> {ST_ESTABLISHED, ST_CLOSE_WAIT, ST_FIN_WAIT_1, ST_FIN_WAIT_2} \<and>
     length data \<le> unat (st_maxRecvSegmentSize st) \<and> nabto_stream_sequence_less (st_recvTop st) seq \<and>
     fst (nabto_stream_find_recv_buffer seq st) \<noteq> None \<and>
     (\<forall>s\<in>set (st_recvWindow st). rs_state s = RB_DATA \<longrightarrow> rs_seq s \<noteq> seq)"

text \<open>C6: A data extension is stored once, under its own number, and never overwrites data.  When it is
  accepted, the segments that were held are still held, in their order and unchanged, with one more
  among them that has the number and the bytes of the extension, nothing of it read and no fin;
  otherwise, in particular when its number has data already, whatever bytes it carries this time,
  the segments that are held do not change.\<close>

theorem handle_data_content:
  fixes st :: "'m stream" and seq :: u32 and data :: bytes
  assumes "stream_reach md st" "recv_allocator_ok md"
  defines "st' \<equiv> nabto_stream_handle_data seq data st"
  shows "if data_accepted seq data st
    then \<exists>xs s ys. held_data st = xs @ ys \<and> held_data st' = xs @ s # ys \<and> rs_seq s = seq \<and>
      take (unat (rs_size s)) (rs_buf s) = data \<and> rs_used s = 0 \<and> \<not> rs_isFin s
    else held_data st' = held_data st"
proof -
  have inv: "recv_inv st" "recv_allocator_ok (st_module st)"
    using stream_reach_inv [OF assms(1,2)] by (auto simp: stream_inv_def)
  have upd [simp]: "held_data (s\<lparr>st_imediateAck := b\<rparr>) = held_data s" for s :: "'m stream" and b
    by (simp add: held_data_def)
  show ?thesis
  proof (cases "st_state st \<in> {ST_ESTABLISHED, ST_CLOSE_WAIT, ST_FIN_WAIT_1, ST_FIN_WAIT_2} \<and>
      length data \<le> unat (st_maxRecvSegmentSize st) \<and> nabto_stream_sequence_less (st_recvTop st) seq")
    case False
    then show ?thesis by (auto simp: data_accepted_def st'_def nabto_stream_handle_data_def)
  next
    case True
    obtain r st1 where f: "nabto_stream_find_recv_buffer seq st = (r, st1)" by fastforce
    have near: "recv_seq_near (st_recvTop st) seq" using True by (simp add: recv_seq_near_def)
    note found = find_recv_buffer_inv [OF inv near f]
    have held: "held_data st1 = held_data st" by (rule find_recv_buffer_held [OF inv(2) f])
    show ?thesis
    proof (cases r)
      case None
      then show ?thesis using True f held by (auto simp: data_accepted_def st'_def nabto_stream_handle_data_def)
    next
      case (Some i)
      have i: "i < length (st_recvWindow st1)" "rs_seq (st_recvWindow st1 ! i) = seq"
        using found(7) [OF Some] by auto
      have data_i: "(\<exists>s\<in>set (st_recvWindow st). rs_state s = RB_DATA \<and> rs_seq s = seq) \<longleftrightarrow>
          rs_state (st_recvWindow st1 ! i) = RB_DATA"
        by (rule held_place [OF found(1) i held found(4)])
      show ?thesis
      proof (cases "rs_state (st_recvWindow st1 ! i) = RB_DATA")
        case data: True
        then show ?thesis
          using True f Some held data_i
          by (auto simp: data_accepted_def st'_def nabto_stream_handle_data_def Let_def)
      next
        case False
        then have idle: "rs_state (st_recvWindow st1 ! i) = RB_IDLE" by (cases "rs_state (st_recvWindow st1 ! i)") auto
        define s where "s = (st_recvWindow st1 ! i)\<lparr>rs_state := RB_DATA, rs_size := of_nat (length data),
                        rs_used := 0, rs_buf := data @ drop (length data) (rs_buf (st_recvWindow st1 ! i))\<rparr>"
        have "unat (of_nat (length data) :: u16) = length data"
          using True unat_u16_less [of "st_maxRecvSegmentSize st"] by (simp add: unat_of_nat del: unat_u16_less)
        then have s: "rs_seq s = seq" "take (unat (rs_size s)) (rs_buf s) = data" "rs_used s = 0" "rs_state s = RB_DATA"
          "\<not> rs_isFin s"
          using i(2) idle found(1) nth_mem [OF i(1)] by (auto simp: s_def recv_inv_def recv_lists_def recv_seg_ok_def)
        obtain st2 where e: "st' = move_segments_from_recv_window_to_recv_read st2" "st_recvRead st2 = st_recvRead st1"
          "st_recvWindow st2 = (st_recvWindow st1)[i := s]"
          using True f Some idle by (force simp: st'_def nabto_stream_handle_data_def Let_def s_def)
        obtain xs ys where "held_data st1 = xs @ ys" "held_data st2 = xs @ s # ys"
          using held_data_fill [OF i(1) idle s(4) e(2,3)] by blast
        moreover have "data_accepted seq data st" using True f Some data_i False by (auto simp: data_accepted_def)
        ultimately show ?thesis using e(1) held s by auto
      qed
    qed
  qed
qed

theorem handle_data_content_witness:
  "\<exists>xs s ys. held_data sample_open = xs @ ys \<and> held_data (nabto_stream_handle_data 9 [67] sample_open) = xs @ s # ys \<and>
     rs_seq s = 9 \<and> take (unat (rs_size s)) (rs_buf s) = [67]"
proof -
  have "data_accepted 9 [67] sample_open" by code_simp
  then show ?thesis using handle_data_content [OF sample_open_reach sample_module_ok, of 9 "[67]"] by auto
qed

section \<open>Packets that must have no effect\<close>

text \<open>A packet without a whole header or with a truncated extension leaves the stream exactly as
  it was.\<close>

theorem malformed_packet_no_effect:
  assumes "length packet < 5 \<or> \<not> nabto_stream_extensions_well_formed (drop 5 packet)"
  shows "nabto_stream_handle_packet packet st = st"
proof (cases "length packet < 5")
  case True
  then show ?thesis
    by (auto simp: nabto_stream_handle_packet_def nabto_stream_read_uint8_def nabto_stream_read_uint32_def
        split: option.split list.split)
next
  case False
  then obtain f a b c d ptr where "packet = f # a # b # c # d # ptr"
    by (auto simp: not_less numeral_eq_Suc Suc_le_length_iff)
  then show ?thesis
    using assms False
    by (simp add: nabto_stream_handle_packet_def nabto_stream_read_uint8_def nabto_stream_read_uint32_def)
qed

theorem malformed_packet_no_effect_witness:
  "nabto_stream_handle_packet [0x10, 0, 0, 0, 1, 0x10, 0x02, 0, 9, 1] sample_open = sample_open"
proof -
  have "\<not> nabto_stream_extensions_well_formed (drop 5 [0x10, 0, 0, 0, 1, 0x10, 0x02, 0, 9, 1])"
    by code_simp
  then show ?thesis using malformed_packet_no_effect by blast
qed

text \<open>No packet moves the connection backwards: the state after it is the same or a later one
  in the order of the protocol.\<close>

theorem packet_state_forward:
  "st_state st \<le> st_state (nabto_stream_handle_packet packet st)"
  by (rule handle_packet_state)

section \<open>Replay protection\<close>

text \<open>The packet carries the nonce in some nonce response extension.\<close>

definition carries_nonce :: "bytes \<Rightarrow> bytes \<Rightarrow> bool" where
  "carries_nonce nonce ptr = snd (extension_loop (\<lambda>type ext found.
     found \<or> (type = EXTENSION_NONCE_RESPONSE \<and>
       (case nabto_stream_read_nonce (Some ext) of None \<Rightarrow> False | Some (n, _) \<Rightarrow> n = nonce)))
     ptr False)"

lemma extension_loop_simulation:
  assumes "R s t" "\<And>type ext s t. R s t \<Longrightarrow> R (f type ext s) (g type ext t)"
  shows "R (snd (extension_loop f ptr s)) (snd (extension_loop g ptr t)) \<and>
    fst (extension_loop f ptr s) = fst (extension_loop g ptr t)"
  using assms(1)
proof (induction "length ptr" arbitrary: ptr s t rule: less_induct)
  case less
  then show ?case
    by (subst (1 2 3 4) extension_loop.simps) (auto simp: assms(2) split: option.split)
qed

lemma nonce_response_missing:
  assumes "\<not> carries_nonce (st_nonce st) ptr"
  shows "nabto_stream_parse_nonce_response ptr st = st"
proof -
  have "snd (extension_loop (\<lambda>type ext found.
     found \<or> (type = EXTENSION_NONCE_RESPONSE \<and>
       (case nabto_stream_read_nonce (Some ext) of None \<Rightarrow> False | Some (n, _) \<Rightarrow> n = st_nonce st)))
     ptr False) \<or> nabto_stream_parse_nonce_response ptr st = st"
    unfolding nabto_stream_parse_nonce_response_def
    by (rule extension_loop_simulation [where R = "\<lambda>found s. found \<or> s = st", THEN conjunct1])
       (auto split: option.split)
  with assms show ?thesis by (simp add: carries_nonce_def)
qed

text \<open>While a responder waits for its nonce, an ack packet that does not carry it (a replayed
  packet, which cannot know the nonce of this stream) is not acted on: nothing is acknowledged,
  stored or opened, only the packet counter and the time stamp to echo may move.\<close>

theorem replayed_ack_ignored:
  assumes "\<not> st_disableReplayProtection st" "\<not> st_nonceValidated st"
    "packet = NABTO_STREAM_FLAG_ACK # rest" "\<not> carries_nonce (st_nonce st) (drop 4 rest)"
  shows "nabto_stream_handle_packet packet st = st \<or>
    (\<exists>ts. nabto_stream_handle_packet packet st = packet_received ts st)"
proof -
  have same: "st_nonce (packet_received ts st) = st_nonce st"
    "\<not> st_disableReplayProtection (packet_received ts st)" "\<not> st_nonceValidated (packet_received ts st)" for ts
    using assms(1,2) by (auto simp: packet_received_def Let_def)
  have "nabto_stream_parse_ack (drop 4 rest) hdr (packet_received ts st) = packet_received ts st" for ts hdr
    using same nonce_response_missing [of "packet_received ts st" "drop 4 rest"] assms(4)
    by (simp add: nabto_stream_parse_ack_def Let_def)
  then show ?thesis
    using assms(3)
    by (auto simp: nabto_stream_handle_packet_def nabto_stream_read_uint8_def nabto_stream_read_uint32_def
        split: option.split list.split)
qed

definition sample_nonce_syn :: bytes where
  "sample_nonce_syn = [0x80, 0,0,0,1, 0x10,0x00, 0,4, 0,2, 0,2, 0x10,0x06, 0,4, 0,0,0,7, 0x10,0x09, 0,0]"

definition sample_responder :: "unit stream" where
  "sample_responder = snd (nabto_stream_accept (nabto_stream_handle_packet sample_nonce_syn
     (nabto_stream_init_responder [1,2,3,4,5,6,7,8] (nabto_stream_init sample_module ()))))"

theorem replayed_ack_ignored_witness:
  "st_state (nabto_stream_handle_packet sample_ack sample_responder) = ST_SYN_RCVD"
proof -
  have 1: "\<not> st_disableReplayProtection sample_responder" "\<not> st_nonceValidated sample_responder"
    "\<not> carries_nonce (st_nonce sample_responder) (drop 4 (tl sample_ack))"
    "st_state sample_responder = ST_SYN_RCVD" "sample_ack = NABTO_STREAM_FLAG_ACK # tl sample_ack"
    by code_simp+
  have "st_state (packet_received ts sample_responder) = ST_SYN_RCVD" for ts using 1(4) by simp
  then show ?thesis
    using replayed_ack_ignored [OF 1(1,2,5,3)] 1(4) by metis
qed

lemma sample_responder_waiting:
  "st_state sample_responder = ST_SYN_RCVD" "\<not> st_disableReplayProtection sample_responder"
  "\<not> st_nonceValidated sample_responder"
  by code_simp+

lemma sample_responder_reach: "stream_reach sample_module sample_responder"
proof -
  have "packet_near sample_nonce_syn (nabto_stream_init_responder [1,2,3,4,5,6,7,8] (nabto_stream_init sample_module ()))"
    by code_simp
  then show ?thesis
    unfolding sample_responder_def
    by (intro stream_reach.accept stream_reach.packet stream_reach.responder stream_reach.init)
qed

text \<open>A packet with segment sizes, a sequence number and an ack without gaps, but without a nonce.\<close>

definition nonceless_packet :: "u8 \<Rightarrow> bytes \<Rightarrow> bytes \<Rightarrow> bytes \<Rightarrow> bytes \<Rightarrow> bytes" where
  "nonceless_packet flags ts sizes seq ack =
     flags # ts @ [0x10, 0x00, 0, 4] @ sizes @ [0x10, 0x06, 0, 4] @ seq @ [0x10, 0x01, 0, 16] @ ack"

lemma length_4: "length xs = 4 \<Longrightarrow> \<exists>a b c d. xs = [a, b, c, d]"
  by (auto simp: numeral_eq_Suc length_Suc_conv)

lemma nonceless_loop:
  assumes "length sizes = 4" "length seq = 4" "length ack = 16"
  shows "extension_loop f ([0x10, 0x00, 0, 4] @ sizes @ [0x10, 0x06, 0, 4] @ seq @ [0x10, 0x01, 0, 16] @ ack) s =
    (True, f EXTENSION_ACK ack (f EXTENSION_SYN seq (f EXTENSION_SEGMENT_SIZES sizes s)))"
proof -
  have h: "nabto_stream_read_extension_header (0x10 # t # 0 # len # ext @ rest) = Some (of_be16 0x10 t, ext, rest)"
    if "unat (of_be16 0 len) = length ext" for t len ext rest
    using that by (simp add: nabto_stream_read_extension_header_def nabto_stream_read_uint16_def)
  have "unat (of_be16 0 4) = 4" "unat (of_be16 0 16) = 16" "of_be16 0x10 0 = EXTENSION_SEGMENT_SIZES"
    "of_be16 0x10 6 = EXTENSION_SYN" "of_be16 0x10 1 = EXTENSION_ACK"
    by (simp_all add: of_be16_def)
  then show ?thesis
    using assms h [of 4 sizes 0] h [of 4 seq 6] h [of 16 ack 1 "[]"] by (simp add: extension_loop.simps)
qed

lemma established_ack_rest: "st_state st = ST_ESTABLISHED \<Longrightarrow> st_state (ack_rest it ts st) = ST_ESTABLISHED"
  by (induction it arbitrary: st)
    (simp_all add: nabto_stream_handle_ack_iterator_def nabto_stream_handle_ack_on_fin_def
      nabto_stream_segment_has_been_acked_def Let_def)

text \<open>C29: A responder that waits for the nonce it has sent is opened by a syn|ack packet that carries no
  nonce at all: \<open>nabto_stream_handle_syn_ack\<close> turns the protection off before it looks at the state of the
  stream, and the ack extension of the same packet then opens it.  This holds for every stream in
  this state and all contents of the fields.  In an ack packet the same extensions open nothing
  while the protection is on.\<close>

theorem forged_syn_ack_opens_responder:
  assumes "st_state st = ST_SYN_RCVD" "length ts = 4" "length sizes = 4" "length seq = 4" "length ack = 16"
  shows "st_state (nabto_stream_handle_packet (nonceless_packet NABTO_STREAM_FLAG_SYN_ACK ts sizes seq ack) st) = ST_ESTABLISHED \<and>
    (\<not> st_disableReplayProtection st \<and> \<not> st_nonceValidated st \<longrightarrow>
      st_state (nabto_stream_handle_packet (nonceless_packet NABTO_STREAM_FLAG_ACK ts sizes seq ack) st) = ST_SYN_RCVD)"
proof
  note loop = nonceless_loop [OF assms(3-5)]
  obtain a b c d where ts: "ts = [a, b, c, d]" using length_4 [OF assms(2)] by blast
  let ?ptr = "[0x10, 0x00, 0, 4] @ sizes @ [0x10, 0x06, 0, 4] @ seq @ [0x10, 0x01, 0, 16] @ ack"
  let ?hdr = "\<lparr>hd_flags = NABTO_STREAM_FLAG_SYN_ACK, hd_timestampValue = of_be32 a b c d\<rparr>"
  have opens: "st_state (nabto_stream_parse_ack_extension ack hdr st') = ST_ESTABLISHED"
    if "st_state st' = ST_SYN_RCVD" for hdr and st' :: "'a stream"
  proof -
    obtain x where "read_ack_fields ack = Some x"
      using assms(5) by (auto simp: numeral_eq_Suc length_Suc_conv read_ack_fields_def nabto_stream_read_uint32_def)
    then show ?thesis
      using that assms(5)
      by (cases x) (simp add: nabto_stream_parse_ack_extension_def nabto_stream_handle_ack_on_syn_ack_def established_ack_rest Let_def)
  qed
  have "\<exists>req. nabto_stream_parse_syn_ack ?ptr hdr st' = nabto_stream_parse_acking ?ptr hdr (nabto_stream_handle_syn_ack hdr req st')"
    for hdr and st' :: "'a stream"
    using length_4 [OF assms(3)] length_4 [OF assms(4)] unfolding nabto_stream_parse_syn_ack_def Let_def loop
    by (auto simp: parse_syn_ack_extension_def parse_segment_sizes_def nabto_stream_read_uint16_def nabto_stream_read_uint32_def)
  moreover have acking: "nabto_stream_parse_acking ?ptr hdr st' = nabto_stream_parse_ack_extension ack hdr st'"
    for hdr and st' :: "'a stream"
    unfolding nabto_stream_parse_acking_def loop by simp
  moreover have "st_state (nabto_stream_handle_syn_ack hdr req st') = ST_SYN_RCVD"
    if "st_state st' = ST_SYN_RCVD" for hdr req and st' :: "'a stream"
    using that by (simp add: nabto_stream_handle_syn_ack_def Let_def)
  ultimately have "st_state (nabto_stream_parse_syn_ack ?ptr hdr st') = ST_ESTABLISHED"
    if "st_state st' = ST_SYN_RCVD" for hdr and st' :: "'a stream"
    using opens that by metis
  moreover have "nabto_stream_extensions_well_formed ?ptr" unfolding nabto_stream_extensions_well_formed_def loop by simp
  ultimately show "st_state (nabto_stream_handle_packet (nonceless_packet NABTO_STREAM_FLAG_SYN_ACK ts sizes seq ack) st) = ST_ESTABLISHED"
    using assms(1)
    by (simp add: nabto_stream_handle_packet_def nonceless_packet_def ts nabto_stream_read_uint8_def
        nabto_stream_read_uint32_def)
  have "\<not> carries_nonce (st_nonce st) ?ptr" unfolding carries_nonce_def loop by simp
  then have "\<not> carries_nonce (st_nonce st) (drop 4 (ts @ ?ptr))" by (simp add: ts)
  moreover have "nonceless_packet NABTO_STREAM_FLAG_ACK ts sizes seq ack = NABTO_STREAM_FLAG_ACK # (ts @ ?ptr)"
    by (simp add: nonceless_packet_def)
  ultimately show "\<not> st_disableReplayProtection st \<and> \<not> st_nonceValidated st \<longrightarrow>
      st_state (nabto_stream_handle_packet (nonceless_packet NABTO_STREAM_FLAG_ACK ts sizes seq ack) st) = ST_SYN_RCVD"
    using replayed_ack_ignored [of st] assms(1) by (metis packet_received_state)
qed

theorem forged_syn_ack_opens_responder_witness:
  "stream_reach sample_module sample_responder \<and> \<not> st_disableReplayProtection sample_responder \<and>
   \<not> st_nonceValidated sample_responder \<and>
   st_state (nabto_stream_handle_packet (nonceless_packet NABTO_STREAM_FLAG_SYN_ACK [0, 0, 0, 2] [0, 2, 0, 2]
     [0, 0, 0, 7] [0, 0, 0, 0, 0, 0, 0, 9, 0, 0, 0, 0, 0, 0, 0, 0]) sample_responder) = ST_ESTABLISHED"
  using forged_syn_ack_opens_responder [OF sample_responder_waiting(1)] sample_responder_waiting(2,3) sample_responder_reach
  by simp

section \<open>A fin at the far end of the number space\<close>

text \<open>An allocator that has memory and goes on having it.\<close>

definition keeps_memory :: "'m stream_module \<Rightarrow> ('m \<Rightarrow> bool) \<Rightarrow> bool" where
  "keeps_memory md memory \<longleftrightarrow>
     (\<forall>n m. memory m \<longrightarrow> (\<exists>s m'. sm_alloc_recv_segment md n m = (Some s, m') \<and> memory m'))"

lemma find_recv_alloc_to_seq:
  assumes "keeps_memory (st_module st) memory" "memory (st_user st)"
    "unat (seq - st_recvMaxAllocated st) \<le> 2147483648"
  shows "fst (find_recv_alloc seq st) \<and> length (st_recvWindow (snd (find_recv_alloc seq st))) =
    length (st_recvWindow st) + unat (seq - st_recvMaxAllocated st) \<and>
    st_recvRead (snd (find_recv_alloc seq st)) = st_recvRead st"
  using assms
proof (induction seq st rule: find_recv_alloc.induct)
  case (1 seq st)
  let ?d = "unat (seq - st_recvMaxAllocated st)"
  obtain s user where r: "sm_alloc_recv_segment (st_module st)
      (unat (st_maxRecvSegmentSize st)) (st_user st) = (Some s, user)" "memory user"
    using 1(2,3) unfolding keeps_memory_def by metis
  then obtain st' where a: "nabto_stream_allocate_next_recv_segment st = (True, st')"
    and st': "st_recvMaxAllocated st' = st_recvMaxAllocated st + 1" "st_module st' = st_module st"
      "length (st_recvWindow st') = Suc (length (st_recvWindow st))" "memory (st_user st')"
      "st_recvRead st' = st_recvRead st"
    by (simp add: nabto_stream_allocate_next_recv_segment_def Let_def)
  show ?case
  proof (cases "?d = 0")
    case True
    then have "seq = st_recvMaxAllocated st" by (simp add: unat_eq_0)
    then show ?thesis by (subst (1 2 3) find_recv_alloc.simps) simp
  next
    case False
    have "unat (st_recvMaxAllocated st - seq) = 4294967296 - ?d"
      using False by (auto simp: unat_diff_u32 split: if_splits)
    then have less: "nabto_stream_sequence_less (st_recvMaxAllocated st) seq"
      using 1(4) by (simp add: stream_seq.less_iff_distance)
    have d: "unat (seq - (st_recvMaxAllocated st + 1)) = ?d - 1"
    proof -
      have "seq - (st_recvMaxAllocated st + 1) = (seq - st_recvMaxAllocated st) - 1" by simp
      then show ?thesis using False by (simp only: unat_diff_u32) simp
    qed
    then show ?thesis
      using "1.IH" [OF less a [symmetric]] less a st' 1(2,4) False
      by (subst (1 2 3) find_recv_alloc.simps) simp
  qed
qed

text \<open>C30: When more segments are allocated than the window admits, a fin whose number is half of the number
  space above them passes the window check, because the comparison wraps around, and makes the
  stream allocate 2147483648 segments, if the allocator has the memory.  The window admits fewer
  segments than are allocated after an allocation failed halfway, for the window is closed until the
  retry, and the allocator may have memory again when the fin arrives; or when the segment above a full
  window has been allocated.\<close>

theorem far_fin_allocates:
  assumes "st_state st \<in> {ST_ESTABLISHED, ST_FIN_WAIT_1, ST_FIN_WAIT_2}"
    "nabto_stream_sequence_less (st_recvMax st + nabto_stream_get_recv_window_size st) (st_recvMaxAllocated st)"
    "keeps_memory (st_module st) memory" "memory (st_user st)"
  defines "st' \<equiv> nabto_stream_handle_fin (st_recvMaxAllocated st + 0x80000000) st"
  shows "length (st_recvRead st' @ st_recvWindow st') = length (st_recvRead st @ st_recvWindow st) + 2147483648"
proof -
  let ?seq = "st_recvMaxAllocated st + 0x80000000"
  let ?W = "st_recvMax st + nabto_stream_get_recv_window_size st"
  have "?W - ?seq = (?W - st_recvMaxAllocated st) - 0x80000000" by simp
  moreover have "2147483648 \<le> unat (?W - st_recvMaxAllocated st)"
    using assms(2) by (simp add: stream_seq.less_iff_distance)
  ultimately have "unat (?W - ?seq) < 2147483648"
    using unat_u32_less [of "?W - st_recvMaxAllocated st"] by (simp only: unat_diff_u32) simp
  then have w: "\<not> nabto_stream_sequence_less ?W ?seq" by (simp add: stream_seq.less_iff_distance)
  define st1 where "st1 = snd (find_recv_alloc ?seq st)"
  have d: "unat (?seq - st_recvMaxAllocated st) = 2147483648" by simp
  have f: "find_recv_alloc ?seq st = (True, st1)" "length (st_recvWindow st1) = length (st_recvWindow st) + 2147483648"
    "st_recvRead st1 = st_recvRead st"
    using find_recv_alloc_to_seq [OF assms(3,4), of ?seq, unfolded d, OF order_refl]
    by (simp_all add: st1_def prod_eq_iff)
  have mv: "length (st_recvRead (move_segments_from_recv_window_to_recv_read s)) +
      length (st_recvWindow (move_segments_from_recv_window_to_recv_read s)) =
      length (st_recvRead s) + length (st_recvWindow s)" for s :: "'a stream"
    using arg_cong [OF move_recv_loop_all [of s "st_recvWindow s"], of length]
    by (simp add: move_segments_from_recv_window_to_recv_read_def)
  have sames: "st_recvRead (SET_STATE x s) = st_recvRead s" "st_recvWindow (SET_STATE x s) = st_recvWindow s"
    for x and s :: "'a stream"
    using recv_part_SET_STATE [of x s] by (simp_all add: recv_part_def)
  have "nabto_stream_find_recv_buffer ?seq st = (find_seq ?seq (st_recvWindow st1), st1)"
    using w f(1) by (simp add: nabto_stream_find_recv_buffer_def)
  then have "length (st_recvRead st') + length (st_recvWindow st') = length (st_recvRead st1) + length (st_recvWindow st1)"
    using assms(1) by (auto simp: st'_def nabto_stream_handle_fin_def Let_def mv sames split: option.split)
  then show ?thesis using f(2,3) by simp
qed

lemma handle_packet_module: "st_module (nabto_stream_handle_packet packet st) = st_module st"
proof (rule handle_packet_rule)
  have r [simp]: "st_module (packet_received ts st) = st_module st" for ts
    by (simp add: packet_received_def Let_def)
  have a [simp]: "st_module (nabto_stream_parse_acking ptr hdr s) = st_module s"
    "st_module (nabto_stream_parse_nonce_response ptr s) = st_module s" for ptr hdr and s :: "'a stream"
    using recv_part_module recv_part_parse_acking recv_part_parse_nonce_response by blast+
  have d [simp]: "st_module (snd (extension_loop parse_ack_data_extension ptr s)) = st_module s" for ptr and s :: "'a stream"
    by (rule extension_loop_invariant [where I = "\<lambda>s'. st_module s' = st_module s"])
      (auto simp: parse_ack_data_extension_def nabto_stream_parse_data_extension_def nabto_stream_parse_fin_extension_def
        handle_fin_state(2) split: option.split)
  show "st_module (nabto_stream_parse_syn ptr hdr (packet_received ts st)) = st_module st"
    "st_module (nabto_stream_parse_syn_ack ptr hdr (packet_received ts st)) = st_module st"
    "st_module (nabto_stream_parse_ack ptr hdr (packet_received ts st)) = st_module st" for ptr hdr ts
    by (auto simp: nabto_stream_parse_syn_def nabto_stream_parse_syn_ack_def nabto_stream_parse_ack_def Let_def
        split: prod.split bool.split)
  show "st_module (nabto_stream_handle_rst (packet_received ts st)) = st_module st" for ts
    by (cases "st_state (packet_received ts st)") (simp_all add: nabto_stream_handle_rst_def Let_def)
qed (simp_all add: packet_received_def Let_def)

text \<open>An allocator that has so many receive segments left, or no limit.\<close>

definition sample_limited_module :: "nat option stream_module" where
  "sample_limited_module =
    \<lparr>sm_get_stamp = (\<lambda>_. 1000),
sm_alloc_send_segment = (\<lambda>n m. (Some (zero_send_segment\<lparr>ss_capacity := n, ss_buf := replicate n 0\<rparr>), m)),
     sm_free_send_segment = (\<lambda>_ m. m),
     sm_alloc_recv_segment = (\<lambda>n m. case m of None \<Rightarrow> (Some (fresh_recv_segment n), None)
       | Some 0 \<Rightarrow> (None, Some 0) | Some (Suc k) \<Rightarrow> (Some (fresh_recv_segment n), Some k)),
     sm_free_recv_segment = (\<lambda>_ m. m), sm_notify_event = (\<lambda>_ m. m), sm_round = id\<rparr>"

text \<open>A stream in which an allocation failed for data after a gap, and then there is memory again.\<close>

definition sample_limited_open :: "nat option stream" where
  "sample_limited_open = nabto_stream_handle_packet sample_ack (snd (nabto_stream_accept
     (nabto_stream_handle_packet sample_syn (nabto_stream_init sample_limited_module None))))"

definition sample_blocked :: "nat option stream" where
  "sample_blocked = (nabto_stream_handle_packet sample_data (sample_limited_open\<lparr>st_user := Some 1\<rparr>))\<lparr>st_user := None\<rparr>"

lemma sample_blocked_reach: "stream_reach sample_limited_module sample_blocked"
proof -
  let ?accepted = "snd (nabto_stream_accept (nabto_stream_handle_packet sample_syn (nabto_stream_init sample_limited_module None)))"
  have "packet_near sample_syn (nabto_stream_init sample_limited_module None)" by code_simp
  moreover have "packet_near sample_ack ?accepted" by code_simp
  moreover have "packet_near sample_data (sample_limited_open\<lparr>st_user := Some 1\<rparr>)" by code_simp
  ultimately show ?thesis
    unfolding sample_blocked_def sample_limited_open_def
    by (intro stream_reach.user stream_reach.packet stream_reach.accept stream_reach.init)
qed

definition fin_view :: "nat option stream \<Rightarrow> stream_state \<times> u32 \<times> bool \<times> nat option \<times> nat" where
  "fin_view st = (st_state st, st_recvMaxAllocated st,
     nabto_stream_sequence_less (st_recvMax st + nabto_stream_get_recv_window_size st) (st_recvMaxAllocated st),
     st_user st, length (st_recvRead st @ st_recvWindow st))"

lemma sample_blocked_view: "fin_view sample_blocked = (ST_ESTABLISHED, 9, True, None, 2)"
  by code_simp

theorem far_fin_allocates_witness:
  "stream_reach sample_limited_module sample_blocked \<and>
   (let st' = nabto_stream_handle_fin 0x80000009 sample_blocked
    in length (st_recvRead st' @ st_recvWindow st') = 2147483650)"
proof -
  have md: "st_module sample_blocked = sample_limited_module"
    by (simp add: sample_blocked_def sample_limited_open_def handle_packet_module nabto_stream_accept_def Let_def
        nabto_stream_init_def nabto_stream_congestion_control_init_def upd_cc_def)
  have v: "st_state sample_blocked = ST_ESTABLISHED" "st_user sample_blocked = None"
    "nabto_stream_sequence_less (st_recvMax sample_blocked + nabto_stream_get_recv_window_size sample_blocked)
      (st_recvMaxAllocated sample_blocked)"
    using sample_blocked_view unfolding fin_view_def prod.inject eq_True by blast+
  have "keeps_memory sample_limited_module (\<lambda>m. m = None)"
    by (simp add: keeps_memory_def sample_limited_module_def)
  then have "let st' = nabto_stream_handle_fin (st_recvMaxAllocated sample_blocked + 0x80000000) sample_blocked
    in length (st_recvRead st' @ st_recvWindow st') = length (st_recvRead sample_blocked @ st_recvWindow sample_blocked) + 2147483648"
    unfolding Let_def using v by (intro far_fin_allocates [where memory = "\<lambda>m. m = None"]) (simp_all only: md insert_iff simp_thms)
  moreover have "st_recvMaxAllocated sample_blocked + 0x80000000 = 0x80000009"
    "length (st_recvRead sample_blocked @ st_recvWindow sample_blocked) = 2"
    using sample_blocked_view by (simp_all add: fin_view_def)
  ultimately show ?thesis using sample_blocked_reach by (simp only: Let_def) simp
qed

end
