(* ===== verification/Stream_Send_Props.thy ===== *)
theory Stream_Send_Props
  imports Stream_Send Stream_Receive_Props
begin

text \<open>
  What the send side of a stream promises, for every reachable state: the consistency of the segment
  store and the lists, the place of the fin, destruction, writing, the order of the queue, the
  effect of an acknowledgement and of a timeout.
\<close>

section \<open>The application's operations keep the send side\<close>

lemma allocate_add_commute:
  assumes "st_nextUnfilledSendSegment st = None"
  shows "send_part (add_to_send_list_end a (nabto_stream_allocate_next_send_segment st)) =
    send_part (nabto_stream_allocate_next_send_segment (add_to_send_list_end a st))"
  using assms
  by (simp add: nabto_stream_allocate_next_send_segment_def add_to_send_list_end_def set_seg_def Let_def
      nabto_stream_get_future_stamp_def stream_now_def send_part_def split: prod.split option.split)

text \<open>The state in which \<open>a\<close> has moved from the slot for the segment being filled to the send list.\<close>

definition slot_queued :: "seg_addr \<Rightarrow> 'm stream \<Rightarrow> 'm stream" where
  "slot_queued a st = nabto_stream_allocate_next_send_segment
     (add_to_send_list_end a (st\<lparr>st_nextUnfilledSendSegment := None\<rparr>))"

lemma slot_queued_inv:
  assumes "send_inv st" "st_nextUnfilledSendSegment st = Some a" "\<not> write_closed st"
  shows "send_inv (slot_queued a st)" "send_queue (slot_queued a st) = send_queue st @ [a]"
    "b \<in> set (send_queue st) \<Longrightarrow> st_segs (slot_queued a st) b = st_segs st b"
proof -
  let ?s = "add_to_send_list_end a (st\<lparr>st_nextUnfilledSendSegment := None\<rparr>)"
  have a: "a \<in> dom (st_segs st)" "a \<notin> set (send_queue st)" "a \<noteq> FIN_SEG"
    using send_inv_dest(7) [OF assms(1,2)] by auto
  have q: "send_queue ?s = send_queue st @ [a]"
    by (simp add: add_to_send_list_end_def send_queue_def)
  have l: "st_unacked ?s = st_unacked st" "st_sendList ?s = st_sendList st @ [a]" "st_segs ?s = st_segs st"
    "st_nextSeg ?s = st_nextSeg st" "st_nextUnfilledSendSegment ?s = None" "st_resendList ?s = st_resendList st"
    "st_unackedSize ?s = st_unackedSize st" "st_sendListSize ?s = st_sendListSize st + 1"
    "st_cc ?s = st_cc st" "st_state ?s = st_state st"
    by (simp_all add: add_to_send_list_end_def)
  have fin: "FIN_SEG \<notin> set (send_queue st)" using assms(1,3) unfolding send_inv_def by blast
  have D: "dom (st_segs st) = insert FIN_SEG (set (send_queue st) \<union> {a})"
    using assms(1,2) by (simp add: send_inv_def)
  have inv: "send_inv ?s"
    using assms(1) a fin unfolding send_inv_def q l write_closed_def by (simp add: D)
  then show "send_inv (slot_queued a st)" unfolding slot_queued_def by (rule allocate_send_inv)
  show "send_queue (slot_queued a st) = send_queue st @ [a]" by (simp add: slot_queued_def q)
  have "st_nextSeg st \<notin> dom (st_segs st)" using assms(1) by (auto simp: send_inv_def)
  then have "b \<noteq> st_nextSeg ?s" if "b \<in> set (send_queue st)" for b
    using send_inv_dest(5) [OF assms(1) that] l(4) by auto
  then show "b \<in> set (send_queue st) \<Longrightarrow> st_segs (slot_queued a st) b = st_segs st b"
    using l(3) by (auto simp: slot_queued_def nabto_stream_allocate_next_send_segment_def set_seg_def Let_def
        split: prod.split option.split)
qed

lemma write_next_segment_parts:
  assumes "write_next_segment a buffer st = (sz, st')"
  shows "sz = min (length buffer) (unat (st_maxSendSegmentSize st))"
    "st_maxSendSegmentSize st' = st_maxSendSegmentSize st"
    "st_xmitMaxAllocated st' = st_xmitMaxAllocated st + 1"
    "\<exists>sg. ss_seq sg = st_xmitMaxAllocated st + 1 \<and> ss_used sg = of_nat sz \<and> ss_state sg = B_DATA \<and>
      take sz (ss_buf sg) = take sz buffer \<and> st_segs st' a = Some sg \<and>
      send_part st' = send_part (set_seg a sg (slot_queued a st))"
proof -
  define st1 where "st1 = nabto_stream_allocate_next_send_segment (st\<lparr>st_nextUnfilledSendSegment := None\<rparr>)"
  define sg where "sg = (send_seg st1 a)\<lparr>ss_seq := st_xmitMaxAllocated st1 + 1,
     ss_buf := take sz buffer @ drop sz (ss_buf (send_seg st1 a)), ss_used := of_nat sz, ss_state := B_DATA\<rparr>"
  have m: "st_maxSendSegmentSize st1 = st_maxSendSegmentSize st" "st_xmitMaxAllocated st1 = st_xmitMaxAllocated st"
    by (simp_all add: st1_def nabto_stream_allocate_next_send_segment_def set_seg_def Let_def
        split: prod.split option.split)
  show sz: "sz = min (length buffer) (unat (st_maxSendSegmentSize st))"
    using assms m by (auto simp: write_next_segment_def st1_def Let_def)
  show "st_maxSendSegmentSize st' = st_maxSendSegmentSize st"
    "st_xmitMaxAllocated st' = st_xmitMaxAllocated st + 1"
    using assms m
    by (auto simp: write_next_segment_def st1_def [symmetric] Let_def add_to_send_list_end_def set_seg_def)
  have e: "send_part st' = send_part (set_seg a sg (add_to_send_list_end a st1))" "st_segs st' a = Some sg"
    using assms sz m
    by (auto simp: write_next_segment_def st1_def [symmetric] Let_def add_to_send_list_end_def set_seg_def
        send_part_def sg_def send_seg_def)
  have p: "send_part (set_seg a sg x) = send_part (set_seg a sg y)" if "send_part x = send_part y" for x y :: "'a stream"
    using that by (simp add: send_part_def set_seg_def)
  have "send_part st' = send_part (set_seg a sg (slot_queued a st))"
    unfolding e slot_queued_def st1_def by (rule p, rule allocate_add_commute) simp
  then show "\<exists>sg. ss_seq sg = st_xmitMaxAllocated st + 1 \<and> ss_used sg = of_nat sz \<and> ss_state sg = B_DATA \<and>
      take sz (ss_buf sg) = take sz buffer \<and> st_segs st' a = Some sg \<and>
      send_part st' = send_part (set_seg a sg (slot_queued a st))"
    using e m sz by (intro exI [of _ sg]) (simp add: sg_def min_def)
qed

text \<open>The bytes queued and not acknowledged, in order.\<close>

definition seg_data :: "'m stream \<Rightarrow> seg_addr \<Rightarrow> bytes" where
  "seg_data st a = (if a = FIN_SEG then [] else take (unat (ss_used (send_seg st a))) (ss_buf (send_seg st a)))"

definition queued_data :: "'m stream \<Rightarrow> bytes" where
  "queued_data st = concat (map (seg_data st) (send_queue st))"

lemma write_next_segment_inv:
  assumes "write_next_segment a buffer st = (sz, st')" "send_inv st"
    "st_nextUnfilledSendSegment st = Some a" "\<not> write_closed st"
  shows "send_inv st'" "send_queue st' = send_queue st @ [a]" "st_state st' = st_state st"
    "b \<in> set (send_queue st) \<Longrightarrow> send_seg st' b = send_seg st b"
    "queued_data st' = queued_data st @ take sz buffer"
    "seg_seq st' a = st_xmitMaxAllocated st + 1"
proof -
  note w = write_next_segment_parts [OF assms(1)]
  note s = slot_queued_inv [OF assms(2,3,4)]
  obtain sg where sg: "ss_seq sg = st_xmitMaxAllocated st + 1" "ss_used sg = of_nat sz"
      "take sz (ss_buf sg) = take sz buffer" "st_segs st' a = Some sg"
      "send_part st' = send_part (set_seg a sg (slot_queued a st))"
    using w(4) by blast
  have a: "a \<noteq> FIN_SEG" "a \<notin> set (send_queue st)" using send_inv_dest(7) [OF assms(2,3)] by auto
  have st: "st_state st' = st_state st" using assms(1) by (rule write_next_segment_state)
  have "st_state (set_seg a sg (slot_queued a st)) = st_state st"
    by (simp add: slot_queued_def)
  then have k: "send_kept (set_seg a sg (slot_queued a st)) st'"
    using sg(5) st by (intro send_kept_same) simp_all
  have "a \<in> dom (st_segs (slot_queued a st))"
    using send_inv_dest(5) [OF s(1)] s(2) by simp
  then show inv: "send_inv st'" using send_kept_inv [OF k] s(1) by simp
  show q: "send_queue st' = send_queue st @ [a]"
    using sg(5) s(2) by (simp add: send_part_def send_queue_def set_seg_def)
  show "st_state st' = st_state st" by (rule st)
  show seg: "send_seg st' b = send_seg st b" if "b \<in> set (send_queue st)" for b
    using sg(5) s(3) [OF that] that a by (auto simp: send_part_def send_seg_def set_seg_def)
  have "sz < 65536"
    using w(1) unat_u16_less [of "st_maxSendSegmentSize st"] by linarith
  then have "seg_data st' a = take sz buffer"
    using a sg by (simp add: seg_data_def send_seg_def unat_of_nat)
  moreover have "map (seg_data st') (send_queue st) = map (seg_data st) (send_queue st)"
    using seg by (simp add: seg_data_def)
  ultimately show "queued_data st' = queued_data st @ take sz buffer"
    by (simp only: queued_data_def q map_append concat_append list.map concat.simps append_Nil2)
  show "seg_seq st' a = st_xmitMaxAllocated st + 1"
    using sg by (simp add: seg_seq_def send_seg_def)
qed


lemma write_buffer_loop_total:
  assumes "length buffer < fuel" "0 < unat (st_maxSendSegmentSize st)" "send_inv st" "\<not> write_closed st"
  shows "\<exists>n st' new. write_buffer_loop fuel buffer queued st = Some (queued + n, st') \<and>
    n \<le> length buffer \<and> (st_nextUnfilledSendSegment st' \<noteq> None \<longrightarrow> n = length buffer) \<and>
    send_inv st' \<and> st_state st' = st_state st \<and> queued_data st' = queued_data st @ take n buffer \<and>
    send_queue st' = send_queue st @ new \<and>
    (\<forall>b\<in>set (send_queue st). send_seg st' b = send_seg st b) \<and>
    consecutive (st_xmitMaxAllocated st) (map (seg_seq st') new)"
  using assms
proof (induction fuel buffer queued st rule: write_buffer_loop.induct)
  case (1 buffer queued st)
  then show ?case by simp
next
  case (2 fuel buffer queued st)
  consider (empty) "buffer = []" | (full) "buffer \<noteq> []" "st_nextUnfilledSendSegment st = None"
    | (step) a where "buffer \<noteq> []" "st_nextUnfilledSendSegment st = Some a" by (cases "st_nextUnfilledSendSegment st") auto
  then show ?case
  proof cases
    case empty
    then show ?thesis using 2(4) by (intro exI [of _ 0] exI [of _ st] exI [of _ "[]"]) simp
  next
    case full
    then show ?thesis using 2(4) by (intro exI [of _ 0] exI [of _ st] exI [of _ "[]"]) simp
  next
    case step
    obtain sz st1 where w: "write_next_segment a buffer st = (sz, st1)" by fastforce
    note p = write_next_segment_parts [OF w]
    note i = write_next_segment_inv [OF w 2(4) step(2) 2(5)]
    have sz: "0 < sz" "sz \<le> length buffer" using p(1) 2(3) step(1) by auto
    have c: "\<not> write_closed st1" using 2(5) i(3) by (simp add: write_closed_def)
    have "length (drop sz buffer) < fuel" using sz 2(2) by simp
    then obtain n st' new where IH: "write_buffer_loop fuel (drop sz buffer) (queued + sz) st1 = Some (queued + sz + n, st')"
      "n \<le> length buffer - sz" "st_nextUnfilledSendSegment st' \<noteq> None \<longrightarrow> n = length buffer - sz"
      "send_inv st'" "st_state st' = st_state st1" "queued_data st' = queued_data st1 @ take n (drop sz buffer)"
      "send_queue st' = send_queue st1 @ new" "\<forall>b\<in>set (send_queue st1). send_seg st' b = send_seg st1 b"
      "consecutive (st_xmitMaxAllocated st1) (map (seg_seq st') new)"
      using "2.IH" [OF step(1,2) w [symmetric] _ _ i(1) c] 2(3) p(2) by auto
    have "seg_seq st' a = st_xmitMaxAllocated st + 1"
      using IH(8) i(2,6) by (simp add: seg_seq_def)
    then have "consecutive (st_xmitMaxAllocated st) (map (seg_seq st') (a # new))"
      using IH(9) p(3) by (simp add: consecutive_Cons)
    moreover have "queued_data st' = queued_data st @ take (sz + n) buffer"
      using IH(6) i(5) by (simp add: take_add)
    ultimately show ?thesis
      using IH i sz w step
      by (intro exI [of _ "sz + n"] exI [of _ st'] exI [of _ "a # new"]) auto
  qed
qed

lemma write_buffer_result:
  assumes "send_inv st" "st_state st \<in> {ST_SYN_RCVD, ST_ESTABLISHED, ST_CLOSE_WAIT}"
  shows "\<exists>n st' new. nabto_stream_write_buffer buffer st = Some (SS_OK, n, st') \<and>
    n \<le> length buffer \<and> send_inv st' \<and> st_state st' = st_state st \<and>
    queued_data st' = queued_data st @ take n buffer \<and>
    send_queue st' = send_queue st @ new \<and> consecutive (st_xmitMaxAllocated st) (map (seg_seq st') new) \<and>
    (0 < nabto_stream_can_write st \<and> st_nextUnfilledSendSegment st' \<noteq> None \<longrightarrow> n = length buffer)"
proof -
  have k: "send_inv x \<Longrightarrow> send_inv y \<and> send_queue y = send_queue x \<and> queued_data y = queued_data x \<and> seg_seq y = seg_seq x"
    if "send_part y = send_part x" "st_state y = st_state x" for x y :: "'a stream"
  proof -
    have q: "st_segs y = st_segs x" "send_queue y = send_queue x"
      using that(1) by (simp_all add: send_part_def send_queue_def)
    then have "seg_data y = seg_data x" "seg_seq y = seg_seq x"
      by (simp_all add: fun_eq_iff seg_data_def seg_seq_def send_seg_def)
    then show "send_inv x \<Longrightarrow> send_inv y \<and> send_queue y = send_queue x \<and> queued_data y = queued_data x \<and> seg_seq y = seg_seq x"
      using q send_kept_inv [OF send_kept_same [OF that]] by (simp add: queued_data_def)
  qed
  have c: "\<not> write_closed st" using assms(2) by (auto simp: write_closed_def state_order)
  define r where "r = (if 0 < nabto_stream_can_write st
                  then write_buffer_loop (length buffer + 1) buffer 0 st else Some (0, st))"
  have "\<exists>n st' new. r = Some (n, st') \<and> n \<le> length buffer \<and> send_inv st' \<and> st_state st' = st_state st \<and>
    queued_data st' = queued_data st @ take n buffer \<and> send_queue st' = send_queue st @ new \<and>
    consecutive (st_xmitMaxAllocated st) (map (seg_seq st') new) \<and>
    (0 < nabto_stream_can_write st \<and> st_nextUnfilledSendSegment st' \<noteq> None \<longrightarrow> n = length buffer)"
  proof (cases "0 < nabto_stream_can_write st")
    case True
    then have "0 < unat (st_maxSendSegmentSize st)"
      by (simp add: nabto_stream_can_write_def split: if_splits)
    from write_buffer_loop_total [OF _ this assms(1) c, of buffer "length buffer + 1" 0] True
    show ?thesis by (fastforce simp: r_def)
  next
    case False
    then show ?thesis using assms(1) by (intro exI [of _ 0] exI [of _ st] exI [of _ "[]"]) (simp add: r_def)
  qed
  then obtain n st' new where *: "r = Some (n, st')" "n \<le> length buffer" "send_inv st'" "st_state st' = st_state st"
    "queued_data st' = queued_data st @ take n buffer" "send_queue st' = send_queue st @ new"
    "consecutive (st_xmitMaxAllocated st) (map (seg_seq st') new)"
    "0 < nabto_stream_can_write st \<and> st_nextUnfilledSendSegment st' \<noteq> None \<longrightarrow> n = length buffer" by blast
  define st2 where "st2 = (let st = (if n \<noteq> 0 then nabto_stream_module_notify_event ME_DATA_WRITTEN st' else st');
                st = st\<lparr>st_sentBytes := st_sentBytes st + of_nat n\<rparr>
            in if st_timeFirstMBSent st = 0 \<and> 1048576 \<le> st_sentBytes st
                      then st\<lparr>st_timeFirstMBSent := nabto_stream_get_duration st\<rparr> else st)"
  have e: "nabto_stream_write_buffer buffer st = Some (SS_OK, n, st2)"
    using assms(2) *(1) by (auto simp: nabto_stream_write_buffer_def r_def [symmetric] st2_def Let_def)
  have p: "send_part st2 = send_part st'" "st_state st2 = st_state st'"
    by (simp_all add: st2_def Let_def)
  have "st_nextUnfilledSendSegment st2 = st_nextUnfilledSendSegment st'" using p(1) by (simp add: send_part_def)
  then show ?thesis
    using e k [OF p *(3)] p(2) *(2,4-8) by (intro exI [of _ n] exI [of _ st2] exI [of _ new]) simp
qed

lemma write_buffer_send_inv:
  assumes "send_inv st" "nabto_stream_write_buffer buffer st = Some (status, n, st')"
  shows "send_inv st'"
proof (cases "st_state st \<in> {ST_SYN_RCVD, ST_ESTABLISHED, ST_CLOSE_WAIT}")
  case True
  from write_buffer_result [OF assms(1) True, of buffer] assms(2) show ?thesis by auto
next
  case False
  then show ?thesis
    using assms by (auto simp: nabto_stream_write_buffer_def split: if_splits)
qed

lemma read_buffer_send_kept: "send_kept st (snd (snd (nabto_stream_read_buffer n st)))"
proof -
  have o: "send_part (snd (snd (nabto_stream_read_buffer_once n st))) = send_part st" for n and st :: "'a stream"
    by (simp add: nabto_stream_read_buffer_once_def Let_def split: list.split)
  have "send_part (snd (snd (read_buffer_loop fuel n st))) = send_part st" for fuel n and st :: "'a stream"
  proof (induction fuel arbitrary: n st)
    case (Suc fuel)
    obtain status data st1 where r: "nabto_stream_read_buffer_once n st = (status, data, st1)"
      by (metis prod_cases3)
    then show ?case using o [of n st] Suc.IH by (simp add: split_beta)
  qed simp
  then show ?thesis
    by (intro send_kept_same read_buffer_state) (simp add: nabto_stream_read_buffer_def del: read_buffer_loop.simps)
qed

lemma close_send_inv:
  assumes "send_inv st"
  shows "send_inv (snd (nabto_stream_close st))"
proof -
  have n: "send_inv s \<Longrightarrow> send_inv (nabto_stream_module_notify_event ev s)" for ev and s :: "'a stream"
    by (rule send_kept_inv [OF send_kept_same]) simp_all
  have S: "send_inv (SET_STATE x s)" if "send_inv s" "x \<notin> {ST_CLOSE_WAIT}" "ST_FIN_WAIT_1 \<le> x" for x and s :: "'a stream"
    using that by (intro send_kept_inv [OF _ that(1)]) (auto simp: send_kept_def)
  have F: "send_inv (SET_STATE x (nabto_stream_add_fin_segment_to_send_lists st))"
    if "st_unacked st = [] \<and> st_sendList st = []" "x \<notin> {ST_CLOSE_WAIT}" "ST_FIN_WAIT_1 \<le> x" for x
  proof -
    have "send_inv (nabto_stream_add_fin_segment_to_send_lists (SET_STATE x st))"
      using S [OF assms that(2,3)] that send_part_SET_STATE [of x st]
      by (intro add_fin_inv) (auto simp: send_queue_def send_part_def)
    moreover have "send_kept (nabto_stream_add_fin_segment_to_send_lists (SET_STATE x st))
        (SET_STATE x (nabto_stream_add_fin_segment_to_send_lists st))"
      using send_part_SET_STATE [of x st]
        send_part_SET_STATE [of x "nabto_stream_add_fin_segment_to_send_lists st"] that
      by (auto simp: send_kept_def)
         (auto simp: send_part_def nabto_stream_add_fin_segment_to_send_lists_def add_to_send_list_end_def
           set_seg_def Let_def SET_STATE_def nabto_stream_state_transition_def upd_events_def send_seg_def
           split: stream_state.split)
    ultimately show ?thesis using send_kept_inv by blast
  qed
  have states: "ST_FIN_WAIT_1 \<le> ST_LAST_ACK" "ST_FIN_WAIT_1 \<le> ST_FIN_WAIT_1" "ST_FIN_WAIT_1 \<le> ST_ABORTED"
    by (simp_all add: state_order)
  show ?thesis
    using assms by (auto simp: nabto_stream_close_def Let_def states intro!: n S F)
qed

section \<open>Every reachable stream\<close>

lemma init_send_inv: "send_inv (nabto_stream_init md user)"
  by (simp add: nabto_stream_init_def nabto_stream_congestion_control_init_def upd_cc_def zero_cc_def
      send_inv_def send_queue_def)

lemma accept_send_inv:
  assumes "send_inv st"
  shows "send_inv (snd (nabto_stream_accept st))"
proof (cases "st_state st = ST_WAIT_ACCEPT \<or> st_state st = ST_ACCEPT")
  case False
  then show ?thesis using assms by (simp add: nabto_stream_accept_def)
next
  case True
  let ?s = "snd (nabto_stream_allocate_next_recv_segment (nabto_stream_allocate_next_send_segment
    (st\<lparr>st_xmitMaxAllocated := st_startSequenceNumber st\<rparr>)))"
  have "send_inv ?s"
    by (intro send_inv_recv_allocate allocate_send_inv send_kept_inv [OF send_kept_same assms]) simp_all
  moreover have "send_kept ?s (snd (nabto_stream_accept st))"
    using True by (auto simp: nabto_stream_accept_def Let_def send_kept_def write_closed_def state_order)
  ultimately show ?thesis using send_kept_inv by blast
qed

lemma open_send_inv:
  assumes "send_inv st" "st_state st = ST_IDLE"
  shows "send_inv (snd (nabto_stream_open ct st))"
proof (rule send_kept_inv [OF _ assms(1)])
  show "send_kept st (snd (nabto_stream_open ct st))"
    using assms(2) by (simp add: send_kept_def nabto_stream_open_def Let_def write_closed_def state_order)
qed

lemma send_available_send_inv: "send_inv st \<Longrightarrow> send_inv (nabto_stream_send_segment_available st)"
  by (simp add: nabto_stream_send_segment_available_def allocate_send_inv)

lemma recv_available_send_inv: "send_inv st \<Longrightarrow> send_inv (nabto_stream_recv_segment_available st)"
  by (simp add: nabto_stream_recv_segment_available_def send_inv_recv_allocate)

lemma dispatch_send_kept: "send_kept st (snd (nabto_stream_dispatch_event st))"
  by (rule send_kept_same) (simp_all add: nabto_stream_dispatch_event_def Let_def)

lemma died_send_kept: "send_kept st (nabto_stream_connection_died st)"
  by (simp add: send_kept_def nabto_stream_connection_died_def write_closed_def state_order)

lemma stream_reach_send_inv:
  assumes "stream_reach md st"
  shows "send_inv st"
  using assms
proof (induction rule: stream_reach.induct)
  case (init user) then show ?case by (rule init_send_inv)
next
  case (packet st packet) then show ?case using handle_packet_send_inv by blast
next
  case (next_event st) then show ?case using next_event_send_inv by blast
next
  case (create st n ev) then show ?case using create_packet_send_inv by blast
next
  case (handled st ev) then show ?case using send_kept_inv [OF event_handled_send_kept] by blast
next
  case (timeout st) then show ?case using handle_timeout_send_inv by blast
next
  case (dispatch st) then show ?case using send_kept_inv [OF dispatch_send_kept] by blast
next
  case (opened st ct) then show ?case using open_send_inv by blast
next
  case (accept st) then show ?case using accept_send_inv by blast
next
  case (written st buffer status n st') then show ?case using write_buffer_send_inv by blast
next
  case (read st n) then show ?case using send_kept_inv [OF read_buffer_send_kept] by blast
next
  case (close st) then show ?case using close_send_inv by blast
next
  case (send_available st) then show ?case using send_available_send_inv by blast
next
  case (recv_available st) then show ?case using recv_available_send_inv by blast
next
  case (died st) then show ?case using send_kept_inv [OF died_send_kept] by blast
next
  case (user st u)
  then show ?case by (intro send_kept_inv [OF send_kept_same user.IH]) simp_all
next
  case (initiator st)
  then show ?case
    by (intro send_kept_inv [OF send_kept_same initiator.IH]) (simp_all add: nabto_stream_init_initiator_def)
next
  case (responder st nonce)
  show ?case
    unfolding nabto_stream_init_responder_def
    by (rule send_kept_inv [OF _ responder.IH]) (simp add: send_kept_def send_part_def write_closed_def)
next
  case (set_start st seq)
  then show ?case
    by (intro send_kept_inv [OF send_kept_same set_start.IH])
       (simp_all add: nabto_stream_set_start_sequence_number_def)
next
  case (callback st cb)
  then show ?case
    by (intro send_kept_inv [OF send_kept_same callback.IH])
       (simp_all add: nabto_stream_set_application_event_callback_def)
qed

section \<open>Properties\<close>

text \<open>C2: In every reachable stream the store holds exactly the fin segment, the segments of the two
  send lists and the segment being filled; no segment is queued twice; every segment waiting for
  retransmission is an unacknowledged one; and the sizes kept beside the lists, the flight size of
  the congestion control among them, are the lengths of the lists.\<close>

theorem send_lists_consistent:
  assumes "stream_reach md st"
  shows "dom (st_segs st) = insert FIN_SEG (set (st_unacked st) \<union> set (st_sendList st) \<union>
           set_option (st_nextUnfilledSendSegment st)) \<and>
    distinct (st_unacked st @ st_sendList st) \<and>
    set_option (st_nextUnfilledSendSegment st) \<inter> set (st_unacked st @ st_sendList st) = {} \<and>
    distinct (st_resendList st) \<and> set (st_resendList st) \<subseteq> set (st_unacked st) \<and>
    st_unackedSize st = length (st_unacked st) \<and> st_sendListSize st = length (st_sendList st) \<and>
    cc_flightSize (st_cc st) = of_nat (length (st_unacked st))"
proof -
  have "\<forall>a\<in>set_option (st_nextUnfilledSendSegment st). a \<notin> set (st_unacked st @ st_sendList st)"
    using stream_reach_send_inv [OF assms] by (simp add: send_inv_def send_queue_def)
  then show ?thesis
    using stream_reach_send_inv [OF assms] unfolding send_inv_def send_queue_def
    by (auto simp del: dom_eq_empty_conv)
qed

text \<open>The fin is the last thing a stream sends: while it is queued or unacknowledged there is no
  data segment before or after it, and the write direction is closed.\<close>

theorem fin_is_last:
  assumes "stream_reach md st" "FIN_SEG \<in> set (send_queue st)"
  shows "send_queue st = [FIN_SEG] \<and> write_closed st"
  using stream_reach_send_inv [OF assms(1)] assms(2) by (simp add: send_inv_def)

section \<open>Destroying a stream\<close>

lemma destroy_unacked_result:
  fixes st :: "'m stream"
  assumes "distinct it" "st_unacked st = it"
  defines "st' \<equiv> destroy_unacked it st"
  shows "st_unacked st' = [] \<and> st_segs st' = (st_segs st) |` (- (set it - {FIN_SEG})) \<and>
    st_user st' = fold (sm_free_send_segment (st_module st)) (filter (\<lambda>a. a \<noteq> FIN_SEG) it) (st_user st) \<and>
    st_module st' = st_module st \<and> st_sendList st' = st_sendList st \<and>
    st_recvRead st' = st_recvRead st \<and> st_recvWindow st' = st_recvWindow st \<and>
    st_nextUnfilledSendSegment st' = st_nextUnfilledSendSegment st"
  using assms(1,2) unfolding st'_def
proof (induction it arbitrary: st)
  case (Cons a it)
  let ?s = "nabto_stream_free_send_segment a (nabto_stream_remove_segment_from_resend_list a
     (nabto_stream_remove_segment_from_unacked_list a st))"
  have "st_unacked ?s = it"
    using Cons.prems by (simp add: nabto_stream_free_send_segment_def
        nabto_stream_remove_segment_from_resend_list_def nabto_stream_remove_segment_from_unacked_list_def)
  from Cons.IH [OF _ this] Cons.prems show ?case
    by (auto simp: Let_def nabto_stream_free_send_segment_def nabto_stream_remove_segment_from_resend_list_def
        nabto_stream_remove_segment_from_unacked_list_def restrict_map_def fun_eq_iff)
qed (simp add: restrict_map_def fun_eq_iff)

lemma destroy_sendList_result:
  fixes st :: "'m stream"
  assumes "distinct it" "st_sendList st = it"
  defines "st' \<equiv> destroy_sendList it st"
  shows "st_sendList st' = [] \<and> st_segs st' = (st_segs st) |` (- (set it - {FIN_SEG})) \<and>
    st_user st' = fold (sm_free_send_segment (st_module st)) (filter (\<lambda>a. a \<noteq> FIN_SEG) it) (st_user st) \<and>
    st_module st' = st_module st \<and> st_unacked st' = st_unacked st \<and>
    st_recvRead st' = st_recvRead st \<and> st_recvWindow st' = st_recvWindow st \<and>
    st_nextUnfilledSendSegment st' = st_nextUnfilledSendSegment st"
  using assms(1,2) unfolding st'_def
proof (induction it arbitrary: st)
  case (Cons a it)
  let ?s = "nabto_stream_free_send_segment a (nabto_stream_remove_segment_from_send_list a st)"
  have "st_sendList ?s = it"
    using Cons.prems by (simp add: nabto_stream_free_send_segment_def nabto_stream_remove_segment_from_send_list_def)
  from Cons.IH [OF _ this] Cons.prems show ?case
    by (auto simp: Let_def nabto_stream_free_send_segment_def nabto_stream_remove_segment_from_send_list_def
        restrict_map_def fun_eq_iff)
qed (simp add: restrict_map_def fun_eq_iff)

lemma destroy_recv_result:
  "st_recvRead st = rs \<Longrightarrow> destroy_recvRead rs st =
     st\<lparr>st_recvRead := [], st_user := fold (sm_free_recv_segment (st_module st)) rs (st_user st)\<rparr>"
  "st_recvWindow st = rs \<Longrightarrow> destroy_recvWindow rs st =
     st\<lparr>st_recvWindow := [], st_user := fold (sm_free_recv_segment (st_module st)) rs (st_user st)\<rparr>"
  by (induction rs arbitrary: st) (auto simp: nabto_stream_free_recv_segment_def)

text \<open>C7: Destroying a stream frees every segment it has allocated exactly once: the unacknowledged and
  the queued send segments without the embedded fin, the segments of the reader and of the receive
  window, and the segment being filled.  Afterwards the store holds the fin segment only and the lists
  are empty.\<close>

theorem destroy_frees_once:
  assumes "stream_reach md st"
  shows "st_user (nabto_stream_destroy st) =
      fold (sm_free_send_segment (st_module st)) (case st_nextUnfilledSendSegment st of None \<Rightarrow> [] | Some a \<Rightarrow> [a])
        (fold (sm_free_recv_segment (st_module st)) (st_recvRead st @ st_recvWindow st)
          (fold (sm_free_send_segment (st_module st)) (filter (\<lambda>a. a \<noteq> FIN_SEG) (st_unacked st @ st_sendList st))
            (st_user st))) \<and>
    dom (st_segs (nabto_stream_destroy st)) = {FIN_SEG} \<and>
    st_unacked (nabto_stream_destroy st) = [] \<and> st_sendList (nabto_stream_destroy st) = [] \<and>
    st_recvRead (nabto_stream_destroy st) = [] \<and> st_recvWindow (nabto_stream_destroy st) = []"
proof -
  note inv = stream_reach_send_inv [OF assms]
  define st1 where "st1 = destroy_unacked (st_unacked st) st"
  define st2 where "st2 = destroy_sendList (st_sendList st1) st1"
  note 1 = destroy_unacked_result [OF send_inv_dest(1) [OF inv] refl, folded st1_def]
  have d: "distinct (st_sendList st1)" using 1 send_inv_dest(2) [OF inv] by simp
  note 2 = destroy_sendList_result [OF d refl, folded st2_def]
  define st4 where "st4 = st2\<lparr>st_recvRead := [], st_recvWindow := [],
    st_user := fold (sm_free_recv_segment (st_module st2)) (st_recvRead st2 @ st_recvWindow st2) (st_user st2)\<rparr>"
  have r: "destroy_recvWindow (st_recvWindow (destroy_recvRead (st_recvRead st2) st2))
      (destroy_recvRead (st_recvRead st2) st2) = st4"
    by (simp add: destroy_recv_result st4_def)
  have e: "nabto_stream_destroy st = (case st_nextUnfilledSendSegment st4 of
            None \<Rightarrow> st4
          | Some a \<Rightarrow> (nabto_stream_free_send_segment a st4)\<lparr>st_nextUnfilledSendSegment := None\<rparr>)"
    unfolding nabto_stream_destroy_def Let_def st1_def [symmetric] st2_def [symmetric] r ..
  have D: "dom (st_segs st) = insert FIN_SEG (set (st_unacked st) \<union> set (st_sendList st) \<union>
      set_option (st_nextUnfilledSendSegment st))"
    using inv by (simp add: send_inv_def send_queue_def)
  have U: "\<forall>a\<in>set_option (st_nextUnfilledSendSegment st). a \<noteq> FIN_SEG \<and> a \<notin> set (send_queue st)"
    using inv unfolding send_inv_def by blast
  have D4: "dom (st_segs st4) = insert FIN_SEG (set_option (st_nextUnfilledSendSegment st))"
  proof -
    have "st_segs st4 = st_segs st |` (- (set (st_unacked st) - {FIN_SEG}) \<inter> - (set (st_sendList st) - {FIN_SEG}))"
      using 1 2 by (simp add: st4_def restrict_restrict)
    then have "dom (st_segs st4) = dom (st_segs st) \<inter>
        (- (set (st_unacked st) - {FIN_SEG}) \<inter> - (set (st_sendList st) - {FIN_SEG}))" by simp
    then show ?thesis unfolding D using U by (auto simp: send_queue_def)
  qed
  have n: "st_nextUnfilledSendSegment st4 = st_nextUnfilledSendSegment st" using 1 2 by (simp add: st4_def)
  have seg: "dom (st_segs (nabto_stream_destroy st)) = {FIN_SEG}"
    using D4 U n by (auto simp: e nabto_stream_free_send_segment_def split: option.splits)
  have user: "st_user st4 = fold (sm_free_recv_segment (st_module st)) (st_recvRead st @ st_recvWindow st)
          (fold (sm_free_send_segment (st_module st)) (filter (\<lambda>a. a \<noteq> FIN_SEG) (st_unacked st @ st_sendList st))
            (st_user st))" and l: "st_unacked st4 = []" "st_sendList st4 = []" "st_module st4 = st_module st"
      "st_recvRead st4 = []" "st_recvWindow st4 = []"
    using 1 2 by (simp_all add: st4_def)
  show ?thesis
    using seg user l n U
    by (cases "st_nextUnfilledSendSegment st") (simp_all add: e nabto_stream_free_send_segment_def)
qed

section \<open>Writing\<close>

text \<open>C4: Writing to an open stream always returns; it takes a prefix of the buffer, the bytes queued
  after it are the bytes queued before followed by that prefix, the new segments go to the end of the
  queue and continue the sequence numbers; and if segments can be allocated while the stream accepts
  data, it takes the whole buffer.\<close>

theorem write_buffer_queues_prefix:
  assumes "stream_reach md st" "st_state st \<in> {ST_SYN_RCVD, ST_ESTABLISHED, ST_CLOSE_WAIT}"
  shows "\<exists>n st' new. nabto_stream_write_buffer buffer st = Some (SS_OK, n, st') \<and>
    n \<le> length buffer \<and> queued_data st' = queued_data st @ take n buffer \<and>
    send_queue st' = send_queue st @ new \<and>
    consecutive (st_xmitMaxAllocated st) (map (seg_seq st') new) \<and>
    (0 < nabto_stream_can_write st \<and> st_nextUnfilledSendSegment st' \<noteq> None \<longrightarrow> n = length buffer)"
  using write_buffer_result [OF stream_reach_send_inv [OF assms(1)] assms(2), of buffer] by blast

section \<open>Sending and acknowledging\<close>

text \<open>Creating a packet of any kind keeps the order of the queue: segments are moved from the front of
  the send list to the end of the unacked list, none is lost, duplicated or overtaken.\<close>

theorem create_packet_keeps_order:
  assumes "stream_reach md st"
  shows "send_queue (snd (nabto_stream_create_packet bufferSize ev st)) = send_queue st"
  using create_packet_send_inv [OF stream_reach_send_inv [OF assms]] by blast

text \<open>C3: An ack extension of a right length removes from the unacked list exactly the segments it
  acknowledges: those up to the highest acknowledged number, without the ranges its gap blocks name
  as missing; the others stay in order.  The list it is compared with is the one after the advertised
  window has been applied.\<close>

theorem ack_extension_removes_acked:
  assumes "stream_reach md st" "16 \<le> length ext" "(length ext - 16) mod 8 = 0"
    "read_ack_fields ext = Some (maxAcked, windowSize, tsEcr, gaps)"
    "st1 = apply_window maxAcked windowSize hdr
      (if st_state st = ST_SYN_RCVD then nabto_stream_handle_ack_on_syn_ack st else st)"
  shows "st_unacked (nabto_stream_parse_ack_extension ext hdr st) =
    filter (\<lambda>a. a \<notin> set (acked_segments (seg_seq st1) (read_gaps ((length ext - 16) div 8) gaps) maxAcked
      (ack_iterator maxAcked st1))) (st_unacked st1)"
  using ack_extension_walk [OF stream_reach_send_inv [OF assms(1)] assms(2,3,4)] unfolding assms(5) by blast

text \<open>After a timeout every unacknowledged segment is in the resend list and nothing else, the queue
  is as before, and the retransmission timeout is at most 16 seconds.\<close>

theorem timeout_resends_unacked:
  assumes "stream_reach md st"
  shows "set (st_resendList (nabto_stream_handle_timeout st)) = set (st_unacked (nabto_stream_handle_timeout st)) \<and>
    st_unacked (nabto_stream_handle_timeout st) = st_unacked st \<and>
    st_sendList (nabto_stream_handle_timeout st) = st_sendList st \<and>
    cc_rto (st_cc (nabto_stream_handle_timeout st)) \<le> 16000"
proof -
  have "cc_rto (st_cc (nabto_stream_congestion_control_timeout s)) \<le> 16000" for s :: "'a stream"
    by (simp add: nabto_stream_congestion_control_timeout_def Let_def upd_cc_def not_less)
  then have "cc_rto (st_cc (nabto_stream_handle_timeout st)) \<le> 16000"
    by (simp add: nabto_stream_handle_timeout_def Let_def)
  then show ?thesis
    using handle_timeout_send_inv [OF stream_reach_send_inv [OF assms]] by simp
qed

section \<open>Instances\<close>

definition sample_written :: "unit stream" where
  "sample_written = snd (snd (the (nabto_stream_write_buffer [1, 2, 3] sample_open)))"

lemma sample_written_some:
  "nabto_stream_write_buffer [1, 2, 3] sample_open = Some (SS_OK, 3, sample_written)"
proof -
  have "map_option (\<lambda>(status, n, st). (status, n)) (nabto_stream_write_buffer [1, 2, 3] sample_open) = Some (SS_OK, 3)"
    by code_simp
  then show ?thesis by (auto simp: sample_written_def)
qed

lemma sample_written_reach: "stream_reach sample_module sample_written"
  by (rule stream_reach.written [OF sample_open_reach sample_written_some])

definition sample_sent :: "unit stream" where
  "sample_sent = snd (nabto_stream_create_packet 100 ET_DATA sample_written)"

lemma sample_sent_reach: "stream_reach sample_module sample_sent"
  unfolding sample_sent_def by (rule stream_reach.create [OF sample_written_reach])

definition sample_view :: "unit stream \<Rightarrow> seg_addr list \<times> stream_state \<times> u32 \<times> u32 \<times> u32" where
  "sample_view st = (st_unacked st, st_state st, st_timestampToEcho st, st_maxAdvertisedWindow st,
     ss_seq (send_seg st 1))"

lemma sample_sent_view: "sample_view sample_sent = ([1], ST_ESTABLISHED, 2, 9, 1)"
  by code_simp

lemma sample_sent_facts:
  "st_unacked sample_sent = [1] \<and> st_state sample_sent = ST_ESTABLISHED \<and>
   st_timestampToEcho sample_sent = 2 \<and> st_maxAdvertisedWindow sample_sent = 9 \<and>
   ss_seq (send_seg sample_sent 1) = 1"
  using sample_sent_view by (simp add: sample_view_def)

lemmas sample_sent_unacked = sample_sent_facts [THEN conjunct1]

theorem send_lists_consistent_witness:
  "st_unackedSize sample_sent = 1 \<and> dom (st_segs sample_sent) =
     insert FIN_SEG (insert 1 (set (st_sendList sample_sent) \<union> set_option (st_nextUnfilledSendSegment sample_sent)))"
  using send_lists_consistent [OF sample_sent_reach] by (simp add: sample_sent_unacked)

definition sample_closing :: "unit stream" where
  "sample_closing = snd (nabto_stream_close sample_open)"

lemma sample_closing_reach: "stream_reach sample_module sample_closing"
  unfolding sample_closing_def by (rule stream_reach.close [OF sample_open_reach])

theorem fin_is_last_witness:
  "send_queue sample_closing = [FIN_SEG] \<and> write_closed sample_closing"
proof -
  have "FIN_SEG \<in> set (send_queue sample_closing)" by code_simp
  then show ?thesis using fin_is_last [OF sample_closing_reach] by blast
qed

theorem destroy_frees_once_witness:
  "dom (st_segs (nabto_stream_destroy sample_sent)) = {FIN_SEG}"
  using destroy_frees_once [OF sample_sent_reach] by blast

theorem write_buffer_queues_prefix_witness:
  "\<exists>n st'. nabto_stream_write_buffer [1, 2, 3] sample_open = Some (SS_OK, n, st') \<and>
    queued_data st' = queued_data sample_open @ take n [1, 2, 3]"
proof -
  have "st_state sample_open \<in> {ST_SYN_RCVD, ST_ESTABLISHED, ST_CLOSE_WAIT}" by code_simp
  from write_buffer_queues_prefix [OF sample_open_reach this, of "[1, 2, 3]"] show ?thesis by blast
qed

theorem create_packet_keeps_order_witness:
  "send_queue (snd (nabto_stream_create_packet 100 ET_DATA sample_written)) = send_queue sample_written"
  by (rule create_packet_keeps_order [OF sample_written_reach])

definition sample_ack_extension :: bytes where
  "sample_ack_extension = [0,0,0,1, 0,0,0,9, 0,0,0,0, 0,0,0,0]"

definition sample_hdr :: stream_header where
  "sample_hdr = \<lparr>hd_flags = NABTO_STREAM_FLAG_ACK, hd_timestampValue = 3\<rparr>"

theorem ack_extension_removes_acked_witness:
  "st_unacked (nabto_stream_parse_ack_extension sample_ack_extension sample_hdr sample_sent) = []"
proof -
  have r: "read_ack_fields sample_ack_extension = Some (1, 9, 0, [])" "length sample_ack_extension = 16"
    by code_simp+
  define st1 where "st1 = apply_window 1 9 sample_hdr (if st_state sample_sent = ST_SYN_RCVD
      then nabto_stream_handle_ack_on_syn_ack sample_sent else sample_sent)"
  have st1: "st1 = sample_sent\<lparr>st_maxAdvertisedWindow := 10\<rparr>"
    using sample_sent_facts
    by (simp add: st1_def apply_window_def sample_hdr_def nabto_stream_logical_stamp_less_or_equal_def
        nabto_stream_sequence_less_def)
  have "ack_iterator 1 st1 = [1]"
    using sample_sent_facts
    by (simp add: st1 ack_iterator_def send_seg_def nabto_stream_sequence_less_equal_def)
  then show ?thesis
    using ack_extension_removes_acked [OF sample_sent_reach _ _ r(1) st1_def] r(2) sample_sent_facts
    by (simp add: st1)
qed

theorem timeout_resends_unacked_witness:
  "set (st_resendList (nabto_stream_handle_timeout sample_sent)) = {1}"
  using timeout_resends_unacked [OF sample_sent_reach] sample_sent_unacked by simp

end
