(* ===== verification/Nn_Llist.thy ===== *)
theory Nn_Llist
  imports Prelude
begin

text \<open>
  The intrusive doubly linked list of src/components/nn/src/nn/llist.c.  Memory is a function from
  addresses to nodes, a list is the address of its sentinel, and every operation is the sequence of
  stores of the code, so that aliasing of a node with its neighbours is what the proofs are about.
  \<open>linked h a ns b\<close> says that the pointers lead from \<open>a\<close> over \<open>ns\<close> to \<open>b\<close> and back;
  \<open>llist h l ns\<close> that the list at \<open>l\<close> holds the nodes \<open>ns\<close>.  The segment lists of the streaming
  component are lists of the same kind, which is why they are modelled by the list of their nodes.
\<close>

section \<open>Nodes, lists and iterators\<close>

type_synonym addr = nat

record 'a llist_node =
  nd_next :: addr
  nd_prev :: addr
  nd_item :: "'a option"

type_synonym 'a node_heap = "addr \<Rightarrow> 'a llist_node"

record llist_iterator =
  li_list :: addr
  li_node :: addr

definition set_next :: "addr \<Rightarrow> addr \<Rightarrow> 'a node_heap \<Rightarrow> 'a node_heap" where
  "set_next a n h = h(a := (h a)\<lparr>nd_next := n\<rparr>)"

definition set_prev :: "addr \<Rightarrow> addr \<Rightarrow> 'a node_heap \<Rightarrow> 'a node_heap" where
  "set_prev a n h = h(a := (h a)\<lparr>nd_prev := n\<rparr>)"

definition set_item :: "addr \<Rightarrow> 'a option \<Rightarrow> 'a node_heap \<Rightarrow> 'a node_heap" where
  "set_item a x h = h(a := (h a)\<lparr>nd_item := x\<rparr>)"

definition nn_llist_init :: "addr \<Rightarrow> 'a node_heap \<Rightarrow> 'a node_heap" where
  "nn_llist_init l h = set_item l None (set_prev l l (set_next l l h))"

definition nn_llist_node_init :: "addr \<Rightarrow> 'a node_heap \<Rightarrow> 'a node_heap" where
  "nn_llist_node_init n h = set_item n None (set_prev n n (set_next n n h))"

definition nn_llist_node_in_list :: "'a node_heap \<Rightarrow> addr \<Rightarrow> bool" where
  "nn_llist_node_in_list h n \<longleftrightarrow> nd_next (h n) \<noteq> n \<and> nd_prev (h n) \<noteq> n"

definition nn_llist_empty :: "'a node_heap \<Rightarrow> addr \<Rightarrow> bool" where
  "nn_llist_empty h l \<longleftrightarrow> nd_next (h l) = l"

definition nn_llist_begin :: "'a node_heap \<Rightarrow> addr \<Rightarrow> llist_iterator" where
  "nn_llist_begin h l = \<lparr>li_list = l, li_node = nd_next (h l)\<rparr>"

definition nn_llist_end :: "addr \<Rightarrow> llist_iterator" where
  "nn_llist_end l = \<lparr>li_list = l, li_node = l\<rparr>"

definition nn_llist_next :: "'a node_heap \<Rightarrow> llist_iterator \<Rightarrow> llist_iterator" where
  "nn_llist_next h it = it\<lparr>li_node := nd_next (h (li_node it))\<rparr>"

definition nn_llist_is_end :: "llist_iterator \<Rightarrow> bool" where
  "nn_llist_is_end it \<longleftrightarrow> li_node it = li_list it"

definition nn_llist_get_node :: "llist_iterator \<Rightarrow> addr" where
  "nn_llist_get_node it = li_node it"

definition nn_llist_get_item :: "'a node_heap \<Rightarrow> llist_iterator \<Rightarrow> 'a option" where
  "nn_llist_get_item h it = nd_item (h (li_node it))"

definition nn_llist_append :: "addr \<Rightarrow> addr \<Rightarrow> 'a option \<Rightarrow> 'a node_heap \<Rightarrow> llist_iterator \<times> 'a node_heap" where
  "nn_llist_append l node item h =
     (let h = set_item node item h;
          before = nd_prev (h l);
          after = nd_next (h before);
          h = set_next before node h;
          h = set_next node after h;
          h = set_prev after node h;
          h = set_prev node before h
      in (\<lparr>li_list = l, li_node = node\<rparr>, h))"

definition nn_llist_insert_before ::
  "llist_iterator \<Rightarrow> addr \<Rightarrow> 'a option \<Rightarrow> 'a node_heap \<Rightarrow> 'a node_heap" where
  "nn_llist_insert_before it node item h =
     (let h = set_item node item h;
          before = nd_prev (h (li_node it));
          after = li_node it;
          h = set_next before node h;
          h = set_next node after h;
          h = set_prev after node h
      in set_prev node before h)"

definition nn_llist_erase_node :: "addr \<Rightarrow> 'a node_heap \<Rightarrow> 'a node_heap" where
  "nn_llist_erase_node node h =
     (let before = nd_prev (h node);
          after = nd_next (h node);
          h = set_next before after h;
          h = set_prev after before h
      in nn_llist_node_init node h)"

definition nn_llist_erase :: "llist_iterator \<Rightarrow> 'a node_heap \<Rightarrow> 'a node_heap" where
  "nn_llist_erase it h = nn_llist_erase_node (li_node it) h"

text \<open>The loop of \<open>nn_llist_size\<close>; \<open>None\<close> is a walk that does not come back to the sentinel.\<close>

partial_function (option) size_loop :: "'a node_heap \<Rightarrow> llist_iterator \<Rightarrow> nat \<Rightarrow> nat option" where
  [code]: "size_loop h it n =
     (if nn_llist_is_end it then Some n else size_loop h (nn_llist_next h it) (n + 1))"

definition nn_llist_size :: "'a node_heap \<Rightarrow> addr \<Rightarrow> nat option" where
  "nn_llist_size h l = size_loop h (nn_llist_begin h l) 0"

section \<open>Linked nodes\<close>

fun linked :: "'a node_heap \<Rightarrow> addr \<Rightarrow> addr list \<Rightarrow> addr \<Rightarrow> bool" where
  "linked h a [] b \<longleftrightarrow> nd_next (h a) = b \<and> nd_prev (h b) = a"
| "linked h a (n # ns) b \<longleftrightarrow> nd_next (h a) = n \<and> nd_prev (h n) = a \<and> linked h n ns b"

definition llist :: "'a node_heap \<Rightarrow> addr \<Rightarrow> addr list \<Rightarrow> bool" where
  "llist h l ns \<longleftrightarrow> distinct (l # ns) \<and> linked h l ns l"

lemma store_simps [simp]:
  "nd_next (set_next a n h b) = (if b = a then n else nd_next (h b))"
  "nd_prev (set_next a n h b) = nd_prev (h b)"
  "nd_item (set_next a n h b) = nd_item (h b)"
  "nd_next (set_prev a n h b) = nd_next (h b)"
  "nd_prev (set_prev a n h b) = (if b = a then n else nd_prev (h b))"
  "nd_item (set_prev a n h b) = nd_item (h b)"
  "nd_next (set_item a x h b) = nd_next (h b)"
  "nd_prev (set_item a x h b) = nd_prev (h b)"
  "nd_item (set_item a x h b) = (if b = a then x else nd_item (h b))"
  by (simp_all add: set_next_def set_prev_def set_item_def)

lemma linked_append: "linked h a (xs @ y # ys) b \<longleftrightarrow> linked h a xs y \<and> linked h y ys b"
  by (induction xs arbitrary: a) auto

lemma linked_cong:
  assumes "\<And>x. x \<in> set (a # ns) \<Longrightarrow> nd_next (h' x) = nd_next (h x)"
    "\<And>x. x \<in> set (ns @ [b]) \<Longrightarrow> nd_prev (h' x) = nd_prev (h x)"
  shows "linked h' a ns b = linked h a ns b"
  using assms by (induction ns arbitrary: a) auto

lemma linked_last: "linked h a ns b \<Longrightarrow> nd_prev (h b) = last (a # ns)"
  by (induction ns arbitrary: a) auto

lemma linked_snoc_next: "linked h a ns b \<Longrightarrow> nd_next (h (last (a # ns))) = b"
  by (induction ns arbitrary: a) auto

text \<open>Putting a node between two neighbours, as append and insert both do.\<close>

lemma linked_splice:
  assumes "linked h a ns b" "node \<notin> set (a # ns @ [b])" "distinct (a # ns)" "b \<notin> set ns"
  shows "linked (set_prev node (last (a # ns)) (set_prev b node (set_next node b (set_next (last (a # ns)) node h))))
    a (ns @ [node]) b"
proof (cases ns rule: rev_cases)
  case Nil
  then show ?thesis using assms by auto
next
  case (snoc xs y)
  let ?h = "set_prev node y (set_prev b node (set_next node b (set_next y node h)))"
  have l: "linked h a xs y" "nd_next (h y) = b"
    using assms(1) snoc by (auto simp: linked_append)
  have "linked ?h a xs y"
    using l(1) assms snoc by (subst linked_cong [where h = h]) auto
  then show ?thesis
    using assms snoc by (auto simp: linked_append)
qed

lemma linked_items: "linked (set_item n x h) a ns b = linked h a ns b"
  by (rule linked_cong) simp_all

section \<open>The operations on the list of nodes\<close>

lemma llist_init: "llist (nn_llist_init l h) l []"
  by (simp add: llist_def nn_llist_init_def)

lemma llist_empty_iff: "llist h l ns \<Longrightarrow> nn_llist_empty h l \<longleftrightarrow> ns = []"
  by (cases ns) (auto simp: llist_def nn_llist_empty_def)

lemma llist_node_in_list:
  assumes "llist h l ns" "n \<in> set ns"
  shows "nn_llist_node_in_list h n"
proof -
  obtain xs ys where ns: "ns = xs @ n # ys" using assms(2) by (auto simp: in_set_conv_decomp)
  have l: "linked h l xs n" "linked h n ys l" "n \<notin> set xs" "n \<notin> set ys" "n \<noteq> l"
    using assms(1) unfolding llist_def ns by (auto simp: linked_append)
  have "nd_prev (h n) = last (l # xs)" using linked_last [OF l(1)] .
  moreover have "last (l # xs) \<noteq> n" using l by (metis last_in_set list.discI set_ConsD)
  moreover have "nd_next (h n) \<noteq> n" using l by (cases ys) auto
  ultimately show ?thesis by (simp add: nn_llist_node_in_list_def)
qed

lemma append_heap:
  assumes "llist h l ns" "node \<notin> set (l # ns)"
  shows "snd (nn_llist_append l node item h) =
    set_prev node (last (l # ns)) (set_prev l node (set_next node l (set_next (last (l # ns)) node (set_item node item h))))"
proof -
  have p: "nd_prev (set_item node item h l) = last (l # ns)"
    "nd_next (set_item node item h (last (l # ns))) = l"
    using linked_last [of h l ns l] linked_snoc_next [of h l ns l] assms(1)
    by (auto simp: llist_def simp del: last.simps)
  show ?thesis
    unfolding nn_llist_append_def Let_def snd_conv p ..
qed

lemma llist_append:
  assumes "llist h l ns" "node \<notin> set (l # ns)"
  shows "llist (snd (nn_llist_append l node item h)) l (ns @ [node])"
  unfolding append_heap [OF assms] llist_def
  using assms linked_splice [of "set_item node item h" l ns l node]
  by (auto simp: llist_def linked_items)

lemma append_items:
  assumes "llist h l ns" "node \<notin> set (l # ns)"
  shows "nd_item (snd (nn_llist_append l node item h) b) = (if b = node then item else nd_item (h b))"
  unfolding append_heap [OF assms] by simp

lemma insert_before_heap:
  assumes "llist h l (xs @ ys)" "li_node it = hd (ys @ [l])"
  shows "nn_llist_insert_before it node item h =
    set_prev node (last (l # xs)) (set_prev (hd (ys @ [l])) node (set_next node (hd (ys @ [l]))
      (set_next (last (l # xs)) node (set_item node item h))))"
proof -
  have "nd_prev (set_item node item h (li_node it)) = last (l # xs)"
  proof (cases ys)
    case Nil
    then show ?thesis using assms linked_last [of h l xs l] by (simp add: llist_def)
  next
    case (Cons y ys')
    then show ?thesis using assms linked_last [of h l xs y] by (simp add: llist_def linked_append)
  qed
  then show ?thesis
    unfolding nn_llist_insert_before_def Let_def assms(2) by simp
qed

lemma llist_insert_before:
  assumes "llist h l (xs @ ys)" "li_node it = hd (ys @ [l])" "node \<notin> set (l # xs @ ys)"
  shows "llist (nn_llist_insert_before it node item h) l (xs @ node # ys)"
proof (cases ys)
  case Nil
  then have *: "llist h l xs" using assms(1) by simp
  show ?thesis
    unfolding insert_before_heap [OF assms(1,2)] llist_def
    using Nil * assms(3) linked_splice [of "set_item node item h" l xs l node]
    by (auto simp: llist_def linked_items)
next
  case (Cons y ys')
  let ?h = "set_prev node (last (l # xs)) (set_prev y node (set_next node y
      (set_next (last (l # xs)) node (set_item node item h))))"
  have l: "linked h l xs y" "linked h y ys' l" and d: "distinct (l # xs @ y # ys')" "node \<notin> set (l # xs @ y # ys')"
    using assms Cons by (auto simp: llist_def linked_append)
  have "linked ?h l (xs @ [node]) y"
    using linked_splice [of "set_item node item h" l xs y node] l d by (auto simp: linked_items)
  moreover have "linked ?h y ys' l"
  proof -
    have "last (l # xs) \<notin> set (y # ys')" using d by (cases xs rule: rev_cases) auto
    then show ?thesis using l(2) d by (subst linked_cong [where h = h]) auto
  qed
  ultimately have "linked ?h l (xs @ node # y # ys') l" by (auto simp: linked_append)
  then show ?thesis
    unfolding insert_before_heap [OF assms(1,2)] llist_def using d Cons by simp
qed

lemma llist_erase_node:
  assumes "llist h l (xs @ n # ys)"
  shows "llist (nn_llist_erase_node n h) l (xs @ ys)" "\<not> nn_llist_node_in_list (nn_llist_erase_node n h) n"
    "b \<noteq> n \<Longrightarrow> nd_item (nn_llist_erase_node n h b) = nd_item (h b)"
proof -
  have l: "linked h l xs n" "linked h n ys l" and d: "distinct (l # xs @ n # ys)"
    using assms by (auto simp: llist_def linked_append)
  have p: "nd_prev (h n) = last (l # xs)" using linked_last [OF l(1)] .
  have e: "nn_llist_erase_node n h = nn_llist_node_init n
      (set_prev (nd_next (h n)) (last (l # xs)) (set_next (last (l # xs)) (nd_next (h n)) h))" (is "_ = ?h")
    by (simp add: nn_llist_erase_node_def Let_def p)
  have lastn: "last (l # xs) \<noteq> n" "last (l # xs) \<notin> set ys" using d by (cases xs rule: rev_cases; auto)+
  have "linked ?h l (xs @ ys) l"
  proof (cases ys)
    case Nil
    then have nx: "nd_next (h n) = l" using l(2) by simp
    show ?thesis
    proof (cases xs rule: rev_cases)
      case Nil
      then show ?thesis using \<open>ys = []\<close> nx d by (simp add: nn_llist_node_init_def)
    next
      case (snoc zs z)
      have "linked h l zs z" using l(1) snoc by (simp add: linked_append)
      then have "linked ?h l zs z"
        using d snoc by (subst linked_cong [where h = h]) (auto simp: nn_llist_node_init_def nx)
      then show ?thesis using snoc \<open>ys = []\<close> nx d by (auto simp: linked_append nn_llist_node_init_def)
    qed
  next
    case (Cons y ys')
    then have nx: "nd_next (h n) = y" "linked h y ys' l" using l(2) by auto
    have "linked ?h y ys' l"
      using nx d Cons lastn by (subst linked_cong [where h = h]) (auto simp: nn_llist_node_init_def)
    moreover have "linked ?h l xs y"
    proof (cases xs rule: rev_cases)
      case Nil
      then show ?thesis using nx d Cons by (auto simp: nn_llist_node_init_def)
    next
      case (snoc zs z)
      have "linked h l zs z" using l(1) snoc by (simp add: linked_append)
      then have "linked ?h l zs z"
        using d snoc Cons by (subst linked_cong [where h = h]) (auto simp: nn_llist_node_init_def nx)
      then show ?thesis using snoc nx d Cons by (auto simp: linked_append nn_llist_node_init_def)
    qed
    ultimately show ?thesis using Cons by (simp add: linked_append)
  qed
  then show "llist (nn_llist_erase_node n h) l (xs @ ys)" using d by (simp add: llist_def e)
  show "\<not> nn_llist_node_in_list (nn_llist_erase_node n h) n"
    by (simp add: e nn_llist_node_in_list_def nn_llist_node_init_def)
  show "b \<noteq> n \<Longrightarrow> nd_item (nn_llist_erase_node n h b) = nd_item (h b)"
    by (simp add: e nn_llist_node_init_def)
qed

lemma size_loop_linked:
  "linked h a ns l \<Longrightarrow> l \<notin> set ns \<Longrightarrow>
   size_loop h \<lparr>li_list = l, li_node = nd_next (h a)\<rparr> k = Some (k + length ns)"
proof (induction ns arbitrary: a k)
  case Nil
  then show ?case by (subst size_loop.simps) (simp add: nn_llist_is_end_def)
next
  case (Cons n ns)
  then show ?case
    using Cons.IH [of n "k + 1"] by (subst size_loop.simps) (auto simp: nn_llist_is_end_def nn_llist_next_def)
qed


lemma llist_size: "llist h l ns \<Longrightarrow> nn_llist_size h l = Some (length ns)"
  unfolding nn_llist_size_def nn_llist_begin_def llist_def using size_loop_linked [of h l ns l 0] by simp

section \<open>Refinement of a list of items\<close>

text \<open>
  The abstract list is the list of the nodes with their items.  An operation names the node it puts
  in and, for an insertion or an erasure, the node it works at; the sentinel stands for the end.
\<close>

datatype 'a list_op = APPEND addr 'a | INSERT_BEFORE addr addr 'a | ERASE addr

definition list_view :: "'a node_heap \<Rightarrow> addr \<Rightarrow> (addr \<times> 'a) list \<Rightarrow> bool" where
  "list_view h l xs \<longleftrightarrow> llist h l (map fst xs) \<and> (\<forall>(n, x)\<in>set xs. nd_item (h n) = Some x)"

fun run_op :: "addr \<Rightarrow> 'a list_op \<Rightarrow> 'a node_heap \<Rightarrow> 'a node_heap" where
  "run_op l (APPEND n x) h = snd (nn_llist_append l n (Some x) h)"
| "run_op l (INSERT_BEFORE b n x) h =
     nn_llist_insert_before \<lparr>li_list = l, li_node = b\<rparr> n (Some x) h"
| "run_op l (ERASE n) h = nn_llist_erase \<lparr>li_list = l, li_node = n\<rparr> h"

fun abs_op :: "'a list_op \<Rightarrow> (addr \<times> 'a) list \<Rightarrow> (addr \<times> 'a) list" where
  "abs_op (APPEND n x) xs = xs @ [(n, x)]"
| "abs_op (INSERT_BEFORE b n x) xs =
     takeWhile (\<lambda>y. fst y \<noteq> b) xs @ (n, x) # dropWhile (\<lambda>y. fst y \<noteq> b) xs"
| "abs_op (ERASE n) xs = filter (\<lambda>y. fst y \<noteq> n) xs"

text \<open>A node is put in only when it is in no list, and taken out only when it is in this one.\<close>

fun op_ok :: "addr \<Rightarrow> 'a list_op \<Rightarrow> (addr \<times> 'a) list \<Rightarrow> bool" where
  "op_ok l (APPEND n x) xs \<longleftrightarrow> n \<notin> set (l # map fst xs)"
| "op_ok l (INSERT_BEFORE b n x) xs \<longleftrightarrow> b \<in> set (l # map fst xs) \<and> n \<notin> set (l # map fst xs)"
| "op_ok l (ERASE n) xs \<longleftrightarrow> n \<in> set (map fst xs)"

fun ops_ok :: "addr \<Rightarrow> 'a list_op list \<Rightarrow> (addr \<times> 'a) list \<Rightarrow> bool" where
  "ops_ok l [] xs \<longleftrightarrow> True"
| "ops_ok l (x # ops) xs \<longleftrightarrow> op_ok l x xs \<and> ops_ok l ops (abs_op x xs)"

lemma insert_before_items:
  assumes "llist h l (xs @ ys)" "li_node it = hd (ys @ [l])"
  shows "nd_item (nn_llist_insert_before it node item h b) = (if b = node then item else nd_item (h b))"
  unfolding insert_before_heap [OF assms] by simp

lemma erase_filter:
  "distinct (map fst (xs @ (n, x) # ys)) \<Longrightarrow>
   filter (\<lambda>y. fst y \<noteq> n) (xs @ (n, x) # ys) = xs @ ys"
proof -
  assume "distinct (map fst (xs @ (n, x) # ys))"
  then have "filter (\<lambda>y. fst y \<noteq> n) xs = xs" "filter (\<lambda>y. fst y \<noteq> n) ys = ys"
    by (force intro!: filter_True)+
  then show ?thesis by simp
qed

lemma insert_position:
  assumes "l \<notin> fst ` set xs" "b = l \<or> b \<in> fst ` set xs"
  shows "fst (hd (dropWhile (\<lambda>y. fst y \<noteq> b) xs @ [(l, x)])) = b"
  using assms by (induction xs) auto

lemma run_op_view:
  assumes v: "list_view h l xs" and ok: "op_ok l f xs"
  shows "list_view (run_op l f h) l (abs_op f xs)"
proof (cases f)
  case (APPEND n x)
  have l: "llist h l (map fst xs)" "n \<notin> set (l # map fst xs)"
    using v ok APPEND by (auto simp: list_view_def)
  show ?thesis
    using llist_append [OF l, of "Some x"] append_items [OF l, of "Some x"] v l(2)
    unfolding list_view_def APPEND by force
next
  case (INSERT_BEFORE b n x)
  let ?as = "takeWhile (\<lambda>y. fst y \<noteq> b) xs" and ?bs = "dropWhile (\<lambda>y. fst y \<noteq> b) xs"
  have e: "map fst xs = map fst ?as @ map fst ?bs"
    unfolding map_append [symmetric] takeWhile_dropWhile_id ..
  have n: "n \<notin> set (l # map fst ?as @ map fst ?bs)"
    using ok INSERT_BEFORE unfolding e [symmetric] by simp
  have l: "llist h l (map fst ?as @ map fst ?bs)"
    using v unfolding e [symmetric] by (simp add: list_view_def)
  have "fst (hd (?bs @ [(l, x)])) = b"
    by (rule insert_position) (use v ok INSERT_BEFORE in \<open>auto simp: list_view_def llist_def\<close>)
  then have b: "li_node \<lparr>li_list = l, li_node = b\<rparr> = hd (map fst ?bs @ [l])"
    by (cases ?bs) (simp_all del: dropWhile_eq_Nil_conv)
  have i: "nd_item (h m) = Some y" if "(m, y) \<in> set ?as \<union> set ?bs" for m y
    using v that by (auto simp: list_view_def dest: set_takeWhileD set_dropWhileD)
  have s: "m \<noteq> n" if "(m, y) \<in> set ?as \<union> set ?bs" for m y
    using n that by force
  show ?thesis
    using llist_insert_before [OF l b n, of "Some x"] insert_before_items [OF l b, of n "Some x"] i
    by (auto simp: list_view_def INSERT_BEFORE dest: s [OF UnI1] s [OF UnI2])
next
  case (ERASE n)
  then obtain x where "(n, x) \<in> set xs" using ok by auto
  then obtain ys zs where xs: "xs = ys @ (n, x) # zs" by (metis split_list)
  have l: "llist h l (map fst ys @ n # map fst zs)" using v xs by (simp add: list_view_def)
  then have f: "filter (\<lambda>y. fst y \<noteq> n) xs = ys @ zs"
    unfolding xs by (intro erase_filter) (simp add: llist_def)
  have "distinct (map fst ys @ n # map fst zs)" using l unfolding llist_def by simp
  then have s: "m \<noteq> n" if "(m, y) \<in> set (ys @ zs)" for m y
    using that by force
  have i: "nd_item (h m) = Some y" if "(m, y) \<in> set (ys @ zs)" for m y
    using v that unfolding list_view_def xs by auto
  show ?thesis
    unfolding list_view_def ERASE run_op.simps abs_op.simps nn_llist_erase_def f
    using llist_erase_node(1) [OF l] llist_erase_node(3) [OF l] i s by fastforce
qed

lemma run_ops_view:
  "list_view h l xs \<Longrightarrow> ops_ok l ops xs \<Longrightarrow> list_view (fold (run_op l) ops h) l (fold abs_op ops xs)"
  by (induction ops arbitrary: h xs) (simp_all add: run_op_view)

text \<open>C31: the pointer operations implement a list.  Starting from a freshly initialised list, after
  every sequence of appends, insertions and erasures that puts in nodes that are in no list and
  takes out nodes that are in this one, following the pointers visits exactly the nodes of the
  abstract list in their order, every node still holds its item, the walk that counts the nodes ends
  with their number, and the emptiness test agrees.\<close>

theorem llist_refines_list:
  fixes h :: "'a node_heap"
  assumes "ops_ok l ops []"
  defines "h' \<equiv> fold (run_op l) ops (nn_llist_init l h)" and "xs \<equiv> fold abs_op ops []"
  shows "list_view h' l xs \<and> nn_llist_size h' l = Some (length xs) \<and> (nn_llist_empty h' l \<longleftrightarrow> xs = [])"
proof -
  have v: "list_view h' l xs"
    unfolding h'_def xs_def by (rule run_ops_view [OF _ assms(1)]) (simp add: list_view_def llist_init)
  then have "llist h' l (map fst xs)"
    by (simp add: list_view_def)
  from v llist_size [OF this] llist_empty_iff [OF this] show ?thesis by simp
qed

definition sample_ops :: "nat list_op list" where
  "sample_ops = [APPEND 1 10, APPEND 2 20, INSERT_BEFORE 1 3 30, ERASE 1, INSERT_BEFORE 0 4 40]"

theorem llist_refines_list_witness:
  "nn_llist_size (fold (run_op 0) sample_ops (nn_llist_init 0 (\<lambda>_. \<lparr>nd_next = 0, nd_prev = 0, nd_item = None\<rparr>))) 0 = Some 3
   \<and> fold abs_op sample_ops [] = [(3, 30), (2, 20), (4, 40)]"
  using llist_refines_list [of 0 sample_ops "\<lambda>_. \<lparr>nd_next = 0, nd_prev = 0, nd_item = None\<rparr>"]
  by (simp add: sample_ops_def del: run_op.simps)

end
