(* ===== verification/Nn_Vector.thy ===== *)
theory Nn_Vector
  imports Nn_Memory
begin

text \<open>
  The growing vector of src/components/nn/src/nn/vector.c.  The buffer is a block of \<open>capacity\<close> slots
  of \<open>itemSize\<close> bytes each; a slot that was allocated and never written is \<open>None\<close>.  Sizes are numbers
  and \<open>size_max\<close> is the SIZE_MAX of the platform: \<open>vec_ok\<close> says that the size of the buffer in bytes
  never exceeds it, so that the sums and products of the code do not wrap.  \<open>vector_list\<close> is the list
  that a vector stands for.
\<close>

section \<open>The vector\<close>

record ('a, 'm) nn_vector =
  vec_elements :: "(address \<times> 'a option list) option"
  vec_capacity :: nat
  vec_used :: nat
  vec_itemSize :: nat
  vec_allocator :: "'m nn_allocator"

definition nn_vector_init :: "nat \<Rightarrow> 'm nn_allocator \<Rightarrow> ('a, 'm) nn_vector" where
  "nn_vector_init itemSize al =
     \<lparr>vec_elements = None, vec_capacity = 0, vec_used = 0, vec_itemSize = itemSize, vec_allocator = al\<rparr>"

definition nn_vector_deinit :: "('a, 'm) nn_vector \<Rightarrow> 'm \<Rightarrow> ('a, 'm) nn_vector \<times> 'm" where
  "nn_vector_deinit v m =
     (let m = nn_allocator_free (vec_allocator v) (map_option fst (vec_elements v)) m
      in (v\<lparr>vec_elements := None, vec_capacity := 0, vec_used := 0, vec_itemSize := 0\<rparr>, m))"

definition nn_vector_next_capacity :: "nat \<Rightarrow> ('a, 'm) nn_vector \<Rightarrow> nat option" where
  "nn_vector_next_capacity size_max v =
     (let grow = (\<lambda>capacity.
            if vec_itemSize v \<noteq> 0 \<and> size_max div vec_itemSize v < capacity then None else Some capacity)
      in if vec_capacity v = 0 then grow 1
         else if size_max div 2 < vec_capacity v then None
         else grow (vec_capacity v * 2))"

text \<open>Storing one item at the end of the items in use, the last step of push_back.\<close>

definition vector_store :: "'a \<Rightarrow> ('a, 'm) nn_vector \<Rightarrow> ('a, 'm) nn_vector" where
  "vector_store element v =
     v\<lparr>vec_elements := map_option (\<lambda>(p, slots). (p, slots[vec_used v := Some element])) (vec_elements v),
       vec_used := vec_used v + 1\<rparr>"

definition nn_vector_push_back ::
  "nat \<Rightarrow> 'a \<Rightarrow> ('a, 'm) nn_vector \<Rightarrow> 'm \<Rightarrow> bool \<times> ('a, 'm) nn_vector \<times> 'm" where
  "nn_vector_push_back size_max element v m =
     (if vec_used v = vec_capacity v then
        (case nn_vector_next_capacity size_max v of
           None \<Rightarrow> (False, v, m)
         | Some newCapacity \<Rightarrow>
            (case nn_allocator_calloc (vec_allocator v) newCapacity (vec_itemSize v) m of
               (None, m) \<Rightarrow> (False, v, m)
             | (Some newElements, m) \<Rightarrow>
                (let copied = (case vec_elements v of None \<Rightarrow> [] | Some (p, slots) \<Rightarrow> take (vec_capacity v) slots);
                     slots = copied @ replicate (newCapacity - length copied) None;
                     m = nn_allocator_free (vec_allocator v) (map_option fst (vec_elements v)) m;
                     v = v\<lparr>vec_elements := Some (newElements, slots), vec_capacity := newCapacity\<rparr>
                 in (True, vector_store element v, m))))
      else (True, vector_store element v, m))"

definition nn_vector_erase :: "nat \<Rightarrow> ('a, 'm) nn_vector \<Rightarrow> ('a, 'm) nn_vector" where
  "nn_vector_erase index v =
     (if index < vec_used v then
        (let v = v\<lparr>vec_used := vec_used v - 1\<rparr>;
             after = vec_used v - index
         in v\<lparr>vec_elements := map_option (\<lambda>(p, slots).
               (p, take index slots @ take after (drop (index + 1) slots) @ drop (index + after) slots))
               (vec_elements v)\<rparr>)
      else v)"

definition nn_vector_empty :: "('a, 'm) nn_vector \<Rightarrow> bool" where
  "nn_vector_empty v \<longleftrightarrow> vec_used v = 0"

definition nn_vector_size :: "('a, 'm) nn_vector \<Rightarrow> nat" where
  "nn_vector_size v = vec_used v"

text \<open>\<open>element\<close> is what the caller's variable holds before the call.\<close>

definition nn_vector_get :: "('a, 'm) nn_vector \<Rightarrow> nat \<Rightarrow> 'a option \<Rightarrow> 'a option" where
  "nn_vector_get v index element =
     (if index < vec_used v then (case vec_elements v of None \<Rightarrow> element | Some (p, slots) \<Rightarrow> slots ! index)
      else element)"

text \<open>A reference is the block and the index of the item in it.\<close>

definition nn_vector_reference :: "('a, 'm) nn_vector \<Rightarrow> nat \<Rightarrow> (address \<times> nat) option" where
  "nn_vector_reference v index =
     (case vec_elements v of None \<Rightarrow> None
      | Some (p, slots) \<Rightarrow> if vec_used v \<le> index then None else Some (p, index))"

definition nn_vector_clear :: "('a, 'm) nn_vector \<Rightarrow> ('a, 'm) nn_vector" where
  "nn_vector_clear v = v\<lparr>vec_used := 0\<rparr>"

text \<open>An iterator is the position in the vector it belongs to.\<close>

type_synonym vector_iterator = nat

definition nn_vector_begin :: vector_iterator where
  "nn_vector_begin = 0"

definition nn_vector_next :: "vector_iterator \<Rightarrow> vector_iterator" where
  "nn_vector_next it = it + 1"

definition nn_vector_is_end :: "('a, 'm) nn_vector \<Rightarrow> vector_iterator \<Rightarrow> bool" where
  "nn_vector_is_end v it \<longleftrightarrow> vec_used v \<le> it"

definition nn_vector_get_element :: "('a, 'm) nn_vector \<Rightarrow> vector_iterator \<Rightarrow> 'a option \<Rightarrow> 'a option" where
  "nn_vector_get_element v it element = nn_vector_get v it element"

definition nn_vector_get_reference :: "('a, 'm) nn_vector \<Rightarrow> vector_iterator \<Rightarrow> (address \<times> nat) option" where
  "nn_vector_get_reference v it = nn_vector_reference v it"

text \<open>A loop over the vector whose body returns at the first item that passes a test.\<close>

function foreach_find :: "('a \<Rightarrow> bool) \<Rightarrow> ('a, 'm) nn_vector \<Rightarrow> vector_iterator \<Rightarrow> vector_iterator option" where
  "foreach_find test v it =
     (if nn_vector_is_end v it then None
      else if (case nn_vector_get_element v it None of None \<Rightarrow> False | Some e \<Rightarrow> test e) then Some it
      else foreach_find test v (nn_vector_next it))"
  by pat_completeness auto
termination by (relation "measure (\<lambda>(test, v, it). vec_used v - it)") (auto simp: nn_vector_is_end_def nn_vector_next_def)

declare foreach_find.simps [simp del]

text \<open>A loop over the vector whose body runs for every item.\<close>

function vector_foreach :: "('a \<Rightarrow> 's \<Rightarrow> 's) \<Rightarrow> ('a, 'm) nn_vector \<Rightarrow> vector_iterator \<Rightarrow> 's \<Rightarrow> 's" where
  "vector_foreach body v it s =
     (if nn_vector_is_end v it then s
      else vector_foreach body v (nn_vector_next it)
        (case nn_vector_get_element v it None of None \<Rightarrow> s | Some e \<Rightarrow> body e s))"
  by pat_completeness auto
termination by (relation "measure (\<lambda>(body, v, it, s). vec_used v - it)") (auto simp: nn_vector_is_end_def nn_vector_next_def)

declare vector_foreach.simps [simp del]

section \<open>The list a vector stands for\<close>

definition vector_list :: "('a, 'm) nn_vector \<Rightarrow> 'a list" where
  "vector_list v = (case vec_elements v of None \<Rightarrow> [] | Some (p, slots) \<Rightarrow> map the (take (vec_used v) slots))"

definition vector_blocks :: "('a, 'm) nn_vector \<Rightarrow> address set" where
  "vector_blocks v = set_option (map_option fst (vec_elements v))"

definition vec_ok :: "nat \<Rightarrow> ('a, 'm) nn_vector \<Rightarrow> bool" where
  "vec_ok size_max v \<longleftrightarrow>
     vec_used v \<le> vec_capacity v \<and> vec_capacity v * vec_itemSize v \<le> size_max \<and>
     (case vec_elements v of None \<Rightarrow> vec_capacity v = 0
      | Some (p, slots) \<Rightarrow> length slots = vec_capacity v \<and> None \<notin> set (take (vec_used v) slots))"

lemma vec_ok_init: "vec_ok sm (nn_vector_init n al)" "vector_list (nn_vector_init n al) = []"
  by (simp_all add: vec_ok_def nn_vector_init_def vector_list_def)

lemma length_vector_list: "vec_ok sm v \<Longrightarrow> length (vector_list v) = vec_used v"
  by (auto simp: vec_ok_def vector_list_def split: option.splits)

lemma next_capacity:
  assumes "nn_vector_next_capacity sm v = Some c"
  shows "vec_capacity v < c" "c * vec_itemSize v \<le> sm"
proof -
  have *: "a * i \<le> sm" if "i = 0 \<or> \<not> sm div i < a" for a i
  proof (cases "i = 0")
    case False
    then have "a * i \<le> sm div i * i" using that by (intro mult_right_mono) auto
    also have "\<dots> \<le> sm" by simp
    finally show ?thesis .
  qed simp
  show "vec_capacity v < c" "c * vec_itemSize v \<le> sm"
    using assms * [of "vec_itemSize v" c]
    by (auto simp: nn_vector_next_capacity_def Let_def mult.commute split: if_splits)
qed

lemma vector_store_list:
  assumes "vec_ok sm v" "vec_used v < vec_capacity v"
  shows "vec_ok sm (vector_store x v) \<and> vector_list (vector_store x v) = vector_list v @ [x]"
  using assms
  by (auto simp: vec_ok_def vector_store_def vector_list_def take_Suc_conv_app_nth
      split: option.splits)

lemma get_element:
  assumes "vec_ok sm v" "it < vec_used v"
  shows "nn_vector_get_element v it e = Some (vector_list v ! it)"
proof -
  obtain p slots where s: "vec_elements v = Some (p, slots)" "length slots = vec_capacity v"
      "None \<notin> set (take (vec_used v) slots)" "it < length slots"
    using assms by (auto simp: vec_ok_def split: option.splits)
  then have "take (vec_used v) slots ! it \<noteq> None"
    using assms(2) by (metis in_set_conv_nth length_take min_less_iff_conj)
  then show ?thesis
    using s assms(2) by (auto simp: nn_vector_get_element_def nn_vector_get_def vector_list_def)
qed

text \<open>The index the loop over the items stops at, as a function of the list.\<close>

primrec first_index :: "('a \<Rightarrow> bool) \<Rightarrow> 'a list \<Rightarrow> nat option" where
  "first_index test [] = None"
| "first_index test (x # xs) = (if test x then Some 0 else map_option Suc (first_index test xs))"

lemma first_index_None [simp]: "first_index test xs = None \<longleftrightarrow> (\<forall>x\<in>set xs. \<not> test x)"
  by (induction xs) auto

lemma first_index_Some:
  "first_index test xs = Some i \<Longrightarrow>
   xs = take i xs @ xs ! i # drop (Suc i) xs \<and> i < length xs \<and> test (xs ! i) \<and> (\<forall>x\<in>set (take i xs). \<not> test x)"
  by (induction xs arbitrary: i) (auto split: if_splits)

lemma foreach_find_drop:
  "vec_ok sm v \<Longrightarrow> foreach_find test v it = map_option ((+) it) (first_index test (drop it (vector_list v)))"
proof (induction test v it rule: foreach_find.induct)
  case (1 test v it)
  show ?case
  proof (cases "it < vec_used v")
    case True
    then have "drop it (vector_list v) = vector_list v ! it # drop (Suc it) (vector_list v)"
      by (simp add: Cons_nth_drop_Suc length_vector_list [OF "1.prems"])
    then show ?thesis
      using 1 True get_element [OF "1.prems" True, of None]
      by (subst foreach_find.simps)
        (auto simp: nn_vector_is_end_def nn_vector_next_def option.map_comp comp_def)
  next
    case False
    then show ?thesis
      using length_vector_list [OF "1.prems"]
      by (subst foreach_find.simps) (simp add: nn_vector_is_end_def)
  qed
qed

lemma foreach_find_list:
  assumes "vec_ok sm v"
  shows "foreach_find test v nn_vector_begin = first_index test (vector_list v)"
proof -
  have "map_option ((+) (0::nat)) z = z" for z by (cases z) auto
  then show ?thesis by (simp only: nn_vector_begin_def foreach_find_drop [OF assms] drop_0)
qed

lemma vector_foreach_drop:
  "vec_ok sm v \<Longrightarrow> vector_foreach body v it s = fold body (drop it (vector_list v)) s"
proof (induction body v it s rule: vector_foreach.induct)
  case (1 body v it s)
  show ?case
  proof (cases "it < vec_used v")
    case True
    then have "drop it (vector_list v) = vector_list v ! it # drop (Suc it) (vector_list v)"
      by (simp add: Cons_nth_drop_Suc length_vector_list [OF "1.prems"])
    then show ?thesis
      using 1 True get_element [OF "1.prems" True, of None]
      by (subst vector_foreach.simps) (simp add: nn_vector_is_end_def nn_vector_next_def)
  next
    case False
    then show ?thesis
      using length_vector_list [OF "1.prems"]
      by (subst vector_foreach.simps) (simp add: nn_vector_is_end_def)
  qed
qed

section \<open>The operations on the list\<close>

lemma vec_ok_clear: "vec_ok sm v \<Longrightarrow> vec_ok sm (nn_vector_clear v) \<and> vector_list (nn_vector_clear v) = []"
  by (auto simp: vec_ok_def nn_vector_clear_def vector_list_def split: option.splits)

lemma erase_slots:
  assumes "index < used" "used \<le> length slots"
  shows "take (used - 1) (take index slots @ take (used - 1 - index) (drop (index + 1) slots) @
      drop (index + (used - 1 - index)) slots) = take index (take used slots) @ drop (Suc index) (take used slots)"
proof -
  let ?a = "take index slots" and ?b = "take (used - 1 - index) (drop (index + 1) slots)"
  have "length (?a @ ?b) = used - 1" using assms by auto
  then have "take (used - 1) (?a @ ?b @ cs) = ?a @ ?b" for cs
    by (metis append.assoc append_eq_conv_conj)
  then show ?thesis using assms by (simp add: drop_take)
qed

lemma vec_ok_erase:
  assumes "vec_ok sm v"
  shows "vec_ok sm (nn_vector_erase i v) \<and>
    vector_list (nn_vector_erase i v) = take i (vector_list v) @ drop (Suc i) (vector_list v)"
proof (cases "i < vec_used v")
  case True
  obtain p slots where s: "vec_elements v = Some (p, slots)" "length slots = vec_capacity v"
      "None \<notin> set (take (vec_used v) slots)" "vec_used v \<le> length slots" "vec_capacity v * vec_itemSize v \<le> sm"
    using assms True by (auto simp: vec_ok_def split: option.splits)
  note e = erase_slots [OF True s(4)]
  have "None \<notin> set (take i (take (vec_used v) slots) @ drop (Suc i) (take (vec_used v) slots))"
    using s(3) unfolding set_append by (blast dest: in_set_takeD in_set_dropD)
  then show ?thesis
    using s True e
    by (simp add: nn_vector_erase_def Let_def vec_ok_def vector_list_def take_map drop_map)
next
  case False
  then show ?thesis
    using assms length_vector_list [OF assms] by (simp add: nn_vector_erase_def)
qed

lemma push_back_ok:
  assumes ok: "vec_ok sm v" and al: "allocator_ok (vec_allocator v) live" and l: "vector_blocks v \<subseteq> live m"
    and p: "nn_vector_push_back sm x v m = (b, v', m')"
  shows "vec_ok sm v' \<and> vector_list v' = (if b then vector_list v @ [x] else vector_list v) \<and>
    vec_allocator v' = vec_allocator v \<and> vec_itemSize v' = vec_itemSize v \<and>
    vector_blocks v' \<subseteq> live m' \<and> live m' = (live m - vector_blocks v) \<union> vector_blocks v' \<and>
    (live m - vector_blocks v) \<inter> vector_blocks v' = {}"
proof (cases "vec_used v = vec_capacity v")
  case True
  then show ?thesis
  proof (cases "b")
    case True
    then obtain c q m1 where c: "nn_vector_next_capacity sm v = Some c"
        "nn_allocator_calloc (vec_allocator v) c (vec_itemSize v) m = (Some q, m1)"
      using p \<open>vec_used v = vec_capacity v\<close>
      by (auto simp: nn_vector_push_back_def Let_def split: option.splits prod.splits)
    define slots where "slots = (case vec_elements v of None \<Rightarrow> [] | Some (p, slots) \<Rightarrow> slots)"
    have s: "length slots = vec_capacity v" "None \<notin> set slots" "vector_list v = map the slots"
      using ok \<open>vec_used v = vec_capacity v\<close>
      by (auto simp: vec_ok_def slots_def vector_list_def split: option.splits)
    define v1 where "v1 = v\<lparr>vec_elements := Some (q, slots @ replicate (c - length slots) None), vec_capacity := c\<rparr>"
    have v': "v' = vector_store x v1"
      "m' = nn_allocator_free (vec_allocator v) (map_option fst (vec_elements v)) m1"
      using p c \<open>vec_used v = vec_capacity v\<close> s(1)
      by (auto simp: nn_vector_push_back_def Let_def v1_def slots_def split: option.splits)
    have n: "vec_capacity v < c" "c * vec_itemSize v \<le> sm" using next_capacity [OF c(1)] by auto
    have o1: "vec_ok sm v1" "vec_used v1 < vec_capacity v1" "vector_list v1 = vector_list v"
      using s n \<open>vec_used v = vec_capacity v\<close> by (auto simp: vec_ok_def v1_def vector_list_def)
    have b: "vector_blocks v' = {q}"
      by (simp add: v' vector_store_def v1_def vector_blocks_def)
    have m1: "q \<notin> live m" "live m1 = insert q (live m)" using calloc_Some [OF al c(2)] by auto
    then have "live m' = (live m - vector_blocks v) \<union> {q}"
      using l al by (cases "vec_elements v") (auto simp: v'(2) vector_blocks_def)
    then show ?thesis
      using vector_store_list [OF o1(1,2), of x] o1(3) b m1 \<open>b\<close>
      by (simp add: v'(1)) (simp add: vector_store_def v1_def)
  next
    case False
    then have "v' = v \<and> (m' = m \<or> (\<exists>c. nn_allocator_calloc (vec_allocator v) c (vec_itemSize v) m = (None, m')))"
      using p \<open>vec_used v = vec_capacity v\<close>
      by (auto simp: nn_vector_push_back_def Let_def split: option.splits prod.splits)
    then have "v' = v" "live m' = live m" using calloc_None [OF al] by blast+
    then show ?thesis using False ok l by auto
  qed
next
  case False
  then have "vec_used v < vec_capacity v" using ok by (simp add: vec_ok_def)
  then show ?thesis
    using False p l vector_store_list [OF ok, of x]
    by (auto simp: nn_vector_push_back_def vector_store_def vector_blocks_def split: option.splits)
qed


section \<open>Properties\<close>

text \<open>Appending to a vector.  On an allocator that keeps its contract, an append that succeeds
  leaves the list with the item at its end, one that fails leaves the vector as it was; the buffer
  never grows past the largest size the platform can name, and every block the vector had and no
  longer uses is given back: the blocks in use are the others and those of the vector.\<close>

theorem vector_push_back_appends:
  assumes "vec_ok sm v" "allocator_ok (vec_allocator v) live" "vector_blocks v \<subseteq> live m"
    "nn_vector_push_back sm x v m = (ok, v', m')"
  shows "vec_ok sm v' \<and> vector_list v' = (if ok then vector_list v @ [x] else vector_list v) \<and>
    vec_capacity v' * vec_itemSize v' \<le> sm \<and> (\<not> ok \<longrightarrow> v' = v) \<and>
    live m' = (live m - vector_blocks v) \<union> vector_blocks v'"
proof -
  have "v' = v" if "\<not> ok"
    using assms(4) that by (auto simp: nn_vector_push_back_def Let_def split: if_splits option.splits prod.splits)
  then show ?thesis
    using push_back_ok [OF assms] by (auto simp: vec_ok_def)
qed

definition sample_vector :: "(nat, counting) nn_vector" where
  "sample_vector = \<lparr>vec_elements = Some (7, [Some 5, Some 6]), vec_capacity = 2, vec_used = 2,
     vec_itemSize = 8, vec_allocator = counting_allocator\<rparr>"

lemma sample_vector_ok: "vec_ok 1000 sample_vector" "vector_list sample_vector = [5, 6]"
  by (simp_all add: vec_ok_def sample_vector_def vector_list_def)

theorem vector_push_back_appends_witness:
  "case nn_vector_push_back 1000 9 sample_vector (3, [7]) of (ok, v', m') \<Rightarrow>
     ok \<and> vector_list v' = [5, 6, 9] \<and> vec_capacity v' = 4 \<and> counting_live m' = {8}"
proof -
  obtain v' m' where p: "nn_vector_push_back 1000 9 sample_vector (3, [7]) = (True, v', m')"
      and c: "vec_capacity v' = 4" "vector_blocks v' = {8}"
    by (simp add: nn_vector_push_back_def sample_vector_def nn_vector_next_capacity_def Let_def vector_store_def
        vector_blocks_def)
  have "vector_blocks sample_vector = {7}" by (simp add: vector_blocks_def sample_vector_def)
  then show ?thesis
    using vector_push_back_appends [OF sample_vector_ok(1) _ _ p, of counting_live] c p
      counting_allocator_ok sample_vector_ok(2)
    by (simp add: sample_vector_def counting_live_def)
qed

text \<open>Erasing from a vector removes exactly the item at the index, moves the later ones down by one
  place and does nothing for an index out of range; every remaining item is found at its place.\<close>

theorem vector_erase_removes:
  assumes "vec_ok sm v"
  shows "vec_ok sm (nn_vector_erase i v) \<and>
    vector_list (nn_vector_erase i v) = take i (vector_list v) @ drop (Suc i) (vector_list v) \<and>
    (\<forall>j < nn_vector_size (nn_vector_erase i v). nn_vector_get (nn_vector_erase i v) j None =
       Some (vector_list v ! (if j < i then j else Suc j)))"
proof -
  note e = vec_ok_erase [OF assms, of i]
  have "nn_vector_get (nn_vector_erase i v) j None = Some (vector_list v ! (if j < i then j else Suc j))"
    if j: "j < nn_vector_size (nn_vector_erase i v)" for j
  proof -
    have l: "j < length (take i (vector_list v) @ drop (Suc i) (vector_list v))"
      using j e length_vector_list [of sm "nn_vector_erase i v"] by (metis nn_vector_size_def)
    have "nn_vector_get (nn_vector_erase i v) j None = Some (vector_list (nn_vector_erase i v) ! j)"
      using get_element [of sm "nn_vector_erase i v" j None] e j
      by (simp add: nn_vector_get_element_def nn_vector_size_def)
    then show ?thesis
      using e l by (auto simp: nth_append min_def)
  qed
  then show ?thesis using e by blast
qed

theorem vector_erase_removes_witness:
  "vector_list (nn_vector_erase 0 sample_vector) = [6] \<and> nn_vector_get (nn_vector_erase 0 sample_vector) 0 None = Some 6"
  using vector_erase_removes [OF sample_vector_ok(1), of 0] sample_vector_ok(2)
  by (simp add: nn_vector_size_def nn_vector_erase_def sample_vector_def)

end
