(* ===== verification/Nn_Set.thy ===== *)
theory Nn_Set
  imports Nn_Vector
begin

text \<open>
  The two sets built on the vector: src/components/nn/src/nn/set.c, which compares items by a
  user-supplied order, and src/components/nn/src/nn/string_set.c, which owns copies of its strings.
  The locale \<open>set_interface\<close> is the contract both give to their users; it is interpreted on the two
  models.
\<close>

section \<open>The interface of a set\<close>

text \<open>
  A state holds a set and the memory it lives in.  An insertion may fail, and then changes nothing.
\<close>

locale set_interface =
  fixes inv :: "'s \<Rightarrow> bool" and elems :: "'s \<Rightarrow> 'k set"
    and ins :: "'k \<Rightarrow> 's \<Rightarrow> bool \<times> 's" and del :: "'k \<Rightarrow> 's \<Rightarrow> 's"
    and mem :: "'s \<Rightarrow> 'k \<Rightarrow> bool" and card_of :: "'s \<Rightarrow> nat"
  assumes mem_elems: "inv s \<Longrightarrow> mem s k \<longleftrightarrow> k \<in> elems s"
    and ins_elems: "inv s \<Longrightarrow> ins k s = (ok, s') \<Longrightarrow>
      inv s' \<and> elems s' = (if ok then insert k (elems s) else elems s)"
    and del_elems: "inv s \<Longrightarrow> inv (del k s) \<and> elems (del k s) = elems s - {k}"
    and card_elems: "inv s \<Longrightarrow> finite (elems s) \<and> card_of s = card (elems s)"
begin

primrec ins_all :: "'k list \<Rightarrow> 's \<Rightarrow> bool \<times> 's" where
  "ins_all [] s = (True, s)"
| "ins_all (k # ks) s = (case ins k s of (ok, s') \<Rightarrow> if ok then ins_all ks s' else (False, s'))"

lemma ins_all_elems:
  "inv s \<Longrightarrow> ins_all ks s = (ok, s') \<Longrightarrow>
   inv s' \<and> elems s \<subseteq> elems s' \<and> elems s' \<subseteq> elems s \<union> set ks \<and> (ok \<longrightarrow> elems s' = elems s \<union> set ks)"
proof (induction ks arbitrary: s)
  case (Cons k ks)
  obtain ok1 s1 where i: "ins k s = (ok1, s1)" by fastforce
  note e = ins_elems [OF Cons.prems(1) i]
  show ?case
  proof (cases ok1)
    case True
    then have "ins_all ks s1 = (ok, s')" using Cons.prems(2) i by simp
    with Cons.IH [of s1] e True show ?thesis by auto
  next
    case False
    then show ?thesis using Cons.prems i e by auto
  qed
qed simp

lemma mem_after_ins: "inv s \<Longrightarrow> ins k s = (True, s') \<Longrightarrow> mem s' j \<longleftrightarrow> j = k \<or> mem s j"
  using ins_elems [of s k True s'] mem_elems [of s] mem_elems [of s'] by auto

lemma mem_after_del: "inv s \<Longrightarrow> mem (del k s) j \<longleftrightarrow> j \<noteq> k \<and> mem s j"
  using del_elems [of s k] mem_elems [of s] mem_elems [of "del k s"] by auto

lemma card_after_ins:
  "inv s \<Longrightarrow> ins k s = (True, s') \<Longrightarrow> card_of s' = (if mem s k then card_of s else card_of s + 1)"
  using ins_elems [of s k True s'] card_elems [of s] card_elems [of s'] mem_elems [of s k]
  by (auto simp: insert_absorb)

end

section \<open>The set of items\<close>

record ('a, 'm) nn_set =
  set_less :: "'a \<Rightarrow> 'a \<Rightarrow> bool"
  set_items :: "('a, 'm) nn_vector"

definition nn_set_init :: "nat \<Rightarrow> ('a \<Rightarrow> 'a \<Rightarrow> bool) \<Rightarrow> 'm nn_allocator \<Rightarrow> ('a, 'm) nn_set" where
  "nn_set_init itemSize lt al = \<lparr>set_less = lt, set_items = nn_vector_init itemSize al\<rparr>"

definition nn_set_deinit :: "('a, 'm) nn_set \<Rightarrow> 'm \<Rightarrow> ('a, 'm) nn_set \<times> 'm" where
  "nn_set_deinit s m =
     (case nn_vector_deinit (nn_vector_clear (set_items s)) m of (v, m) \<Rightarrow> (s\<lparr>set_items := v\<rparr>, m))"

definition nn_set_equal :: "('a, 'm) nn_set \<Rightarrow> 'a \<Rightarrow> 'a \<Rightarrow> bool" where
  "nn_set_equal s lhs rhs \<longleftrightarrow> \<not> set_less s lhs rhs \<and> \<not> set_less s rhs lhs"

definition nn_set_contains :: "('a, 'm) nn_set \<Rightarrow> 'a \<Rightarrow> bool" where
  "nn_set_contains s item \<longleftrightarrow>
     foreach_find (\<lambda>e. nn_set_equal s e item) (set_items s) nn_vector_begin \<noteq> None"

definition nn_set_insert :: "nat \<Rightarrow> 'a \<Rightarrow> ('a, 'm) nn_set \<Rightarrow> 'm \<Rightarrow> bool \<times> ('a, 'm) nn_set \<times> 'm" where
  "nn_set_insert size_max item s m =
     (if nn_set_contains s item then (True, s, m)
      else (case nn_vector_push_back size_max item (set_items s) m of
              (False, v, m) \<Rightarrow> (False, s\<lparr>set_items := v\<rparr>, m)
            | (True, v, m) \<Rightarrow> (True, s\<lparr>set_items := v\<rparr>, m)))"

text \<open>The loop counts up to the size before the call; it returns at the first item that is equal.\<close>

definition nn_set_erase :: "'a \<Rightarrow> ('a, 'm) nn_set \<Rightarrow> ('a, 'm) nn_set" where
  "nn_set_erase item s =
     (case foreach_find (\<lambda>e. nn_set_equal s item e) (set_items s) 0 of
        None \<Rightarrow> s
      | Some i \<Rightarrow> s\<lparr>set_items := nn_vector_erase i (set_items s)\<rparr>)"

definition nn_set_clear :: "('a, 'm) nn_set \<Rightarrow> ('a, 'm) nn_set" where
  "nn_set_clear s = s\<lparr>set_items := nn_vector_clear (set_items s)\<rparr>"

definition nn_set_empty :: "('a, 'm) nn_set \<Rightarrow> bool" where
  "nn_set_empty s \<longleftrightarrow> nn_vector_empty (set_items s)"

definition nn_set_size :: "('a, 'm) nn_set \<Rightarrow> nat" where
  "nn_set_size s = nn_vector_size (set_items s)"

definition nn_set_begin :: vector_iterator where
  "nn_set_begin = nn_vector_begin"

definition nn_set_is_end :: "('a, 'm) nn_set \<Rightarrow> vector_iterator \<Rightarrow> bool" where
  "nn_set_is_end s it \<longleftrightarrow> nn_vector_is_end (set_items s) it"

definition nn_set_next :: "vector_iterator \<Rightarrow> vector_iterator" where
  "nn_set_next it = nn_vector_next it"

definition nn_set_get_element :: "('a, 'm) nn_set \<Rightarrow> vector_iterator \<Rightarrow> 'a option \<Rightarrow> 'a option" where
  "nn_set_get_element s it item = nn_vector_get_element (set_items s) it item"

text \<open>The states of a set of a linearly ordered type whose items are compared by its order.\<close>

definition set_inv :: "nat \<Rightarrow> ('m \<Rightarrow> address set) \<Rightarrow> ('a::linorder, 'm) nn_set \<times> 'm \<Rightarrow> bool" where
  "set_inv sm live sx = (case sx of (s, m) \<Rightarrow>
     set_less s = (<) \<and> vec_ok sm (set_items s) \<and> distinct (vector_list (set_items s)) \<and>
     allocator_ok (vec_allocator (set_items s)) live \<and> vector_blocks (set_items s) \<subseteq> live m)"

definition set_elems :: "('a, 'm) nn_set \<times> 'm \<Rightarrow> 'a set" where
  "set_elems sx = set (vector_list (set_items (fst sx)))"

lemma nn_set_equal_linorder: "set_less s = (<) \<Longrightarrow> nn_set_equal s a b \<longleftrightarrow> a = (b::'a::linorder)"
  by (auto simp: nn_set_equal_def)

lemma contains_list:
  "vec_ok sm (set_items s) \<Longrightarrow> set_less s = (<) \<Longrightarrow>
   nn_set_contains s k \<longleftrightarrow> k \<in> set (vector_list (set_items s))" for k :: "'a::linorder"
  by (auto simp: nn_set_contains_def foreach_find_list nn_set_equal_linorder
      simp del: not_None_eq not_Some_eq)

lemma vector_erase_blocks [simp]:
  "vector_blocks (nn_vector_erase i v) = vector_blocks v" "vec_allocator (nn_vector_erase i v) = vec_allocator v"
  by (auto simp: nn_vector_erase_def Let_def vector_blocks_def split: option.splits)

lemma remove_index:
  assumes "distinct xs" "i < length xs"
  shows "set (take i xs @ drop (Suc i) xs) = set xs - {xs ! i}" "distinct (take i xs @ drop (Suc i) xs)"
proof -
  have "xs = take i xs @ xs ! i # drop (Suc i) xs" using assms(2) by (simp add: id_take_nth_drop)
  then show "set (take i xs @ drop (Suc i) xs) = set xs - {xs ! i}" "distinct (take i xs @ drop (Suc i) xs)"
    using assms(1) by (metis (no_types, lifting) Diff_insert_absorb distinct.simps(2) distinct_append
        insert_is_Un list.simps(15) set_append Un_insert_right not_distinct_conv_prefix Un_iff disjoint_insert(2),
      metis distinct_append distinct.simps(2) disjoint_insert(2) list.simps(15))
qed

interpretation item_set: set_interface "set_inv sm live" set_elems
  "\<lambda>k (s, m). nn_set_insert sm k s m" "\<lambda>k (s, m). (nn_set_erase k s, m)"
  "\<lambda>(s, m). nn_set_contains s" "\<lambda>(s, m). nn_set_size s" for sm :: nat and live :: "'b \<Rightarrow> address set"
proof
  fix sx :: "('a::linorder, 'b) nn_set \<times> 'b" and k :: 'a and ok s'
  assume i: "set_inv sm live sx"
  obtain s m where sx: "sx = (s, m)" by fastforce
  have s: "set_less s = (<)" "vec_ok sm (set_items s)" "distinct (vector_list (set_items s))"
    "allocator_ok (vec_allocator (set_items s)) live" "vector_blocks (set_items s) \<subseteq> live m"
    using i by (auto simp: set_inv_def sx)
  show c: "(case sx of (s, m) \<Rightarrow> nn_set_contains s) k \<longleftrightarrow> k \<in> set_elems sx"
    by (simp add: sx set_elems_def contains_list [OF s(2,1)])
  show "finite (set_elems sx) \<and> (case sx of (s, m) \<Rightarrow> nn_set_size s) = card (set_elems sx)"
    using s by (simp add: sx set_elems_def nn_set_size_def nn_vector_size_def distinct_card length_vector_list)
  show "set_inv sm live s' \<and> set_elems s' = (if ok then insert k (set_elems sx) else set_elems sx)"
    if e: "(case sx of (s, m) \<Rightarrow> nn_set_insert sm k s m) = (ok, s')"
  proof (cases "nn_set_contains s k")
    case True
    then show ?thesis using e i c by (auto simp: sx nn_set_insert_def insert_absorb)
  next
    case False
    obtain b v m1 where p: "nn_vector_push_back sm k (set_items s) m = (b, v, m1)" by (metis prod_cases3)
    have "k \<notin> set (vector_list (set_items s))" using False contains_list [OF s(2,1)] by simp
    then show ?thesis
      using push_back_ok [OF s(2,4,5) p] e False p s
      by (auto simp: sx nn_set_insert_def set_inv_def set_elems_def split: bool.splits if_splits)
  qed
  show "set_inv sm live (case sx of (s, m) \<Rightarrow> (nn_set_erase k s, m)) \<and>
    set_elems (case sx of (s, m) \<Rightarrow> (nn_set_erase k s, m)) = set_elems sx - {k}"
  proof (cases "foreach_find (\<lambda>e. nn_set_equal s k e) (set_items s) 0")
    case None
    then have "k \<notin> set (vector_list (set_items s))"
      using foreach_find_list [OF s(2)] by (auto simp: nn_vector_begin_def nn_set_equal_linorder [OF s(1)])
    then show ?thesis using None i by (simp add: sx nn_set_erase_def set_elems_def)
  next
    case (Some j)
    then have f: "first_index (\<lambda>e. nn_set_equal s k e) (vector_list (set_items s)) = Some j"
      using foreach_find_list [OF s(2)] by (simp add: nn_vector_begin_def)
    from first_index_Some [OF this]
    have j: "j < length (vector_list (set_items s))" "vector_list (set_items s) ! j = k"
      by (auto simp: nn_set_equal_linorder [OF s(1)])
    then show ?thesis
      using Some s vec_ok_erase [OF s(2), of j] remove_index [OF s(3) j(1)]
      by (simp add: sx nn_set_erase_def set_inv_def set_elems_def)
  qed
qed

section \<open>The set of strings\<close>

text \<open>
  The vector holds the pointers; a pointer is given with the string it points to, so that strcmp
  is equality of the strings.
\<close>

record 'm nn_string_set =
  sset_strings :: "(cstring, 'm) nn_vector"
  sset_allocator :: "'m nn_allocator"

text \<open>\<open>ptr_size\<close> is the size of a pointer of the platform.\<close>

definition nn_string_set_init :: "nat \<Rightarrow> 'm nn_allocator \<Rightarrow> 'm nn_string_set" where
  "nn_string_set_init ptr_size al = \<lparr>sset_strings = nn_vector_init ptr_size al, sset_allocator = al\<rparr>"

text \<open>The loop that frees every string, from the iterator to the end.\<close>

definition free_strings :: "'m nn_string_set \<Rightarrow> vector_iterator \<Rightarrow> 'm \<Rightarrow> 'm" where
  "free_strings s it m =
     vector_foreach (\<lambda>str. nn_allocator_free (sset_allocator s) (Some (fst str))) (sset_strings s) it m"

definition nn_string_set_clear :: "'m nn_string_set \<Rightarrow> 'm \<Rightarrow> 'm nn_string_set \<times> 'm" where
  "nn_string_set_clear s m =
     (let m = free_strings s nn_vector_begin m
      in (s\<lparr>sset_strings := nn_vector_clear (sset_strings s)\<rparr>, m))"

definition nn_string_set_deinit :: "'m nn_string_set \<Rightarrow> 'm \<Rightarrow> 'm nn_string_set \<times> 'm" where
  "nn_string_set_deinit s m =
     (let m = free_strings s nn_vector_begin m;
          (v, m) = nn_vector_deinit (nn_vector_clear (sset_strings s)) m
      in (s\<lparr>sset_strings := v\<rparr>, m))"

definition nn_string_set_contains :: "'m nn_string_set \<Rightarrow> bytes \<Rightarrow> bool" where
  "nn_string_set_contains s item \<longleftrightarrow>
     foreach_find (\<lambda>e. snd e = item) (sset_strings s) nn_vector_begin \<noteq> None"

definition nn_string_set_insert ::
  "nat \<Rightarrow> bytes \<Rightarrow> 'm nn_string_set \<Rightarrow> 'm \<Rightarrow> bool \<times> 'm nn_string_set \<times> 'm" where
  "nn_string_set_insert size_max item s m =
     (if nn_string_set_contains s item then (True, s, m)
      else (case nn_strdup item (sset_allocator s) m of
              (None, m) \<Rightarrow> (False, s, m)
            | (Some dup, m) \<Rightarrow>
               (case nn_vector_push_back size_max dup (sset_strings s) m of
                  (False, v, m) \<Rightarrow>
                    (False, s\<lparr>sset_strings := v\<rparr>, nn_allocator_free (sset_allocator s) (Some (fst dup)) m)
                | (True, v, m) \<Rightarrow> (True, s\<lparr>sset_strings := v\<rparr>, m))))"

definition nn_string_set_erase :: "bytes \<Rightarrow> 'm nn_string_set \<Rightarrow> 'm \<Rightarrow> 'm nn_string_set \<times> 'm" where
  "nn_string_set_erase item s m =
     (case foreach_find (\<lambda>e. item = snd e) (sset_strings s) 0 of
        None \<Rightarrow> (s, m)
      | Some i \<Rightarrow>
         (let e = nn_vector_get (sset_strings s) i None;
              v = nn_vector_erase i (sset_strings s)
          in (s\<lparr>sset_strings := v\<rparr>, nn_allocator_free (sset_allocator s) (cstring_ptr e) m)))"

definition nn_string_set_empty :: "'m nn_string_set \<Rightarrow> bool" where
  "nn_string_set_empty s \<longleftrightarrow> nn_vector_empty (sset_strings s)"

definition nn_string_set_size :: "'m nn_string_set \<Rightarrow> nat" where
  "nn_string_set_size s = nn_vector_size (sset_strings s)"

definition nn_string_set_begin :: vector_iterator where
  "nn_string_set_begin = nn_vector_begin"

definition nn_string_set_is_end :: "'m nn_string_set \<Rightarrow> vector_iterator \<Rightarrow> bool" where
  "nn_string_set_is_end s it \<longleftrightarrow> nn_vector_is_end (sset_strings s) it"

definition nn_string_set_next :: "vector_iterator \<Rightarrow> vector_iterator" where
  "nn_string_set_next it = nn_vector_next it"

definition nn_string_set_get_element :: "'m nn_string_set \<Rightarrow> vector_iterator \<Rightarrow> cstring option" where
  "nn_string_set_get_element s it = nn_vector_get_element (sset_strings s) it None"

text \<open>
  The states of a string set: every string once, every string in a block of its own, none of them
  the buffer of the vector, and all of them in use.
\<close>

abbreviation strings :: "'m nn_string_set \<Rightarrow> cstring list" where
  "strings s \<equiv> vector_list (sset_strings s)"

definition string_set_blocks :: "'m nn_string_set \<Rightarrow> address set" where
  "string_set_blocks s = fst ` set (strings s) \<union> vector_blocks (sset_strings s)"

definition string_set_inv :: "nat \<Rightarrow> ('m \<Rightarrow> address set) \<Rightarrow> 'm nn_string_set \<times> 'm \<Rightarrow> bool" where
  "string_set_inv sm live sx = (case sx of (s, m) \<Rightarrow>
     vec_ok sm (sset_strings s) \<and> distinct (map snd (strings s)) \<and> distinct (map fst (strings s)) \<and>
     fst ` set (strings s) \<inter> vector_blocks (sset_strings s) = {} \<and>
     vec_allocator (sset_strings s) = sset_allocator s \<and> allocator_ok (sset_allocator s) live \<and>
     string_set_blocks s \<subseteq> live m)"

definition string_set_elems :: "'m nn_string_set \<times> 'm \<Rightarrow> bytes set" where
  "string_set_elems sx = snd ` set (strings (fst sx))"

lemma string_set_invD:
  assumes "string_set_inv sm live (s, m)"
  shows "vec_ok sm (sset_strings s)" "distinct (map snd (strings s))" "distinct (map fst (strings s))"
    "fst ` set (strings s) \<inter> vector_blocks (sset_strings s) = {}"
    "vec_allocator (sset_strings s) = sset_allocator s" "allocator_ok (sset_allocator s) live"
    "fst ` set (strings s) \<subseteq> live m" "vector_blocks (sset_strings s) \<subseteq> live m"
  using assms by (auto simp: string_set_inv_def string_set_blocks_def)

lemma string_contains_elems:
  "string_set_inv sm live (s, m) \<Longrightarrow> nn_string_set_contains s k \<longleftrightarrow> k \<in> string_set_elems (s, m)"
  by (auto simp: nn_string_set_contains_def string_set_elems_def foreach_find_list [OF string_set_invD(1)]
      image_iff simp del: not_None_eq not_Some_eq)

lemma free_strings_fold:
  "vec_ok sm (sset_strings s) \<Longrightarrow> free_strings s it m =
   fold (\<lambda>p. nn_allocator_free (sset_allocator s) (Some p)) (map fst (drop it (strings s))) m"
  by (simp add: free_strings_def vector_foreach_drop fold_map comp_def)

lemma free_strings_live:
  assumes "string_set_inv sm live (s, m)"
  shows "live (free_strings s nn_vector_begin m) = live m - fst ` set (strings s)"
  using free_all_live [OF string_set_invD(6,3) [OF assms], of m] string_set_invD(7) [OF assms]
  by (simp add: free_strings_fold [OF string_set_invD(1) [OF assms]] nn_vector_begin_def)

lemma string_insert_step:
  assumes i: "string_set_inv sm live (s, m)" and e: "nn_string_set_insert sm k s m = (ok, s', m')"
  shows "string_set_inv sm live (s', m') \<and>
    string_set_elems (s', m') = (if ok then insert k (string_set_elems (s, m)) else string_set_elems (s, m)) \<and>
    live m' = (live m - string_set_blocks s) \<union> string_set_blocks s' \<and> (\<not> ok \<longrightarrow> s' = s)"
proof -
  note d = string_set_invD [OF i]
  note c = string_contains_elems [OF i, of k]
  have l: "string_set_blocks s \<subseteq> live m" using d(7,8) by (auto simp: string_set_blocks_def)
  show ?thesis
  proof (cases "nn_string_set_contains s k")
    case True
    then show ?thesis using e i c l by (auto simp: nn_string_set_insert_def insert_absorb)
  next
    case new: False
    show ?thesis
    proof (cases "nn_strdup k (sset_allocator s) m")
      case (Pair r m1)
      show ?thesis
      proof (cases r)
        case None
        then have "live m1 = live m" "s' = s" "m' = m1" "\<not> ok"
          using strdup_None [OF d(6)] Pair e new by (auto simp: nn_string_set_insert_def)
        then show ?thesis using i l by (auto simp: string_set_inv_def string_set_elems_def)
      next
        case (Some dup)
        have dup: "snd dup = k" "fst dup \<notin> live m" "live m1 = insert (fst dup) (live m)"
          using strdup_Some [OF d(6)] Pair Some by auto
        obtain b v m2 where p: "nn_vector_push_back sm dup (sset_strings s) m1 = (b, v, m2)"
          by (metis prod_cases3)
        have al: "vector_blocks (sset_strings s) \<subseteq> live m1" "allocator_ok (vec_allocator (sset_strings s)) live"
          using d(5,6,8) dup(3) by auto
        note q = push_back_ok [OF d(1) al(2,1) p]
        have same: "v = sset_strings s" if "\<not> b"
          using p that by (auto simp: nn_vector_push_back_def Let_def split: if_splits option.splits prod.splits)
        show ?thesis
        proof (cases b)
          case True
          then have e': "s' = s\<lparr>sset_strings := v\<rparr>" "m' = m2" ok
            using e new Pair Some p by (auto simp: nn_string_set_insert_def)
          have vl: "vector_list v = strings s @ [dup]" using q True by simp
          have "fst dup \<notin> vector_blocks v"
            using q dup d(8) by auto
          moreover have "fst ` set (strings s) \<inter> vector_blocks v = {}"
            using q d(4,7) dup(3) by blast
          ultimately have "string_set_inv sm live (s', m')"
            using q d dup c new unfolding string_set_inv_def string_set_blocks_def e'
            by (auto simp: vl string_set_elems_def)
          moreover have "live m' = (live m - string_set_blocks s) \<union> string_set_blocks s'"
            using q dup d(4,7,8) unfolding string_set_blocks_def e' by (auto simp: vl)
          ultimately show ?thesis using e' vl dup(1) by (simp add: string_set_elems_def)
        next
          case False
          have e': "s' = s" "m' = nn_allocator_free (sset_allocator s) (Some (fst dup)) m2" "\<not> ok"
            using e new Pair Some p same [OF False] False by (auto simp: nn_string_set_insert_def)
          have "live m2 = live m1" using q same [OF False] al(1) by auto
          then have "live m' = live m" using e'(2) dup d(6) by simp
          then show ?thesis using e' i l by (auto simp: string_set_inv_def string_set_elems_def)
        qed
      qed
    qed
  qed
qed

lemma string_erase_step:
  assumes i: "string_set_inv sm live (s, m)" and e: "nn_string_set_erase k s m = (s', m')"
  shows "string_set_inv sm live (s', m') \<and>
    string_set_elems (s', m') = string_set_elems (s, m) - {k} \<and>
    live m' = (live m - string_set_blocks s) \<union> string_set_blocks s'"
proof (cases "foreach_find (\<lambda>e. k = snd e) (sset_strings s) 0")
  note d = string_set_invD [OF i]
  note f = foreach_find_list [OF d(1), unfolded nn_vector_begin_def]
  case None
  then have "k \<notin> string_set_elems (s, m)" using f by (auto simp: string_set_elems_def)
  then show ?thesis
    using None e i d(7,8) by (auto simp: nn_string_set_erase_def string_set_elems_def string_set_blocks_def)
next
  note d = string_set_invD [OF i]
  note f = foreach_find_list [OF d(1), unfolded nn_vector_begin_def]
  case (Some j)
  then have j: "j < length (strings s)" "snd (strings s ! j) = k"
    using first_index_Some [of _ "strings s" j] f by auto
  then have g: "nn_vector_get (sset_strings s) j None = Some (strings s ! j)"
    using get_element [OF d(1), of j None] length_vector_list [OF d(1)]
    by (simp add: nn_vector_get_element_def)
  have e': "s' = s\<lparr>sset_strings := nn_vector_erase j (sset_strings s)\<rparr>"
      "m' = nn_allocator_free (sset_allocator s) (Some (fst (strings s ! j))) m"
    using e Some g by (auto simp: nn_string_set_erase_def)
  define xs where "xs = take j (strings s) @ drop (Suc j) (strings s)"
  have v: "vec_ok sm (sset_strings s')" "strings s' = xs"
    using vec_ok_erase [OF d(1), of j] by (simp_all add: e' xs_def)
  have mf: "map fst xs = take j (map fst (strings s)) @ drop (Suc j) (map fst (strings s))"
    and ms: "map snd xs = take j (map snd (strings s)) @ drop (Suc j) (map snd (strings s))"
    by (simp_all add: xs_def take_map drop_map)
  have xs: "fst ` set xs = fst ` set (strings s) - {fst (strings s ! j)}" "distinct (map fst xs)"
      "snd ` set xs = snd ` set (strings s) - {k}" "distinct (map snd xs)"
    using remove_index [OF d(3), of j] remove_index [OF d(2), of j] j
    unfolding set_map [symmetric] mf ms by auto
  have mem: "fst (strings s ! j) \<in> fst ` set (strings s)" using j by simp
  then have "live m' = live m - {fst (strings s ! j)}" using e' d(6,7) by auto
  then show ?thesis
    using d v xs mem unfolding string_set_inv_def string_set_elems_def string_set_blocks_def
    by (auto simp: e')
qed

interpretation string_set: set_interface "string_set_inv sm live" string_set_elems
  "\<lambda>k (s, m). nn_string_set_insert sm k s m" "\<lambda>k (s, m). nn_string_set_erase k s m"
  "\<lambda>(s, m). nn_string_set_contains s" "\<lambda>(s, m). nn_string_set_size s"
  for sm :: nat and live :: "'m \<Rightarrow> address set"
proof
  fix sx :: "'m nn_string_set \<times> 'm" and k ok s'
  assume i: "string_set_inv sm live sx"
  obtain s m where sx: "sx = (s, m)" by fastforce
  show "(case sx of (s, m) \<Rightarrow> nn_string_set_contains s) k \<longleftrightarrow> k \<in> string_set_elems sx"
    using string_contains_elems i by (simp add: sx)
  show "finite (string_set_elems sx) \<and> (case sx of (s, m) \<Rightarrow> nn_string_set_size s) = card (string_set_elems sx)"
    using string_set_invD(1,2) [OF i [unfolded sx]] distinct_card [of "map snd (strings s)"]
    by (simp add: sx string_set_elems_def nn_string_set_size_def nn_vector_size_def length_vector_list)
  show "string_set_inv sm live s' \<and> string_set_elems s' =
      (if ok then insert k (string_set_elems sx) else string_set_elems sx)"
    if "(case sx of (s, m) \<Rightarrow> nn_string_set_insert sm k s m) = (ok, s')"
    using string_insert_step [OF i [unfolded sx], of k ok "fst s'" "snd s'"] that by (simp add: sx)
  show "string_set_inv sm live (case sx of (s, m) \<Rightarrow> nn_string_set_erase k s m) \<and>
    string_set_elems (case sx of (s, m) \<Rightarrow> nn_string_set_erase k s m) = string_set_elems sx - {k}"
    using string_erase_step [OF i [unfolded sx], of k] by (cases "nn_string_set_erase k s m") (simp add: sx)
qed

section \<open>Properties\<close>

text \<open>The set of items is a set.  On items of a linearly ordered type, after a successful
  insertion exactly the item and the earlier ones are found and the size counts it once, a failed
  insertion changes nothing that can be found, and after an erasure exactly the other items are
  found.\<close>

theorem item_set_is_set:
  fixes s :: "('a::linorder, 'm) nn_set"
  assumes "set_inv sm live (s, m)" "nn_set_insert sm k s m = (ok, s', m')"
  shows "(nn_set_contains s' j \<longleftrightarrow> (ok \<and> j = k) \<or> nn_set_contains s j) \<and>
    (ok \<longrightarrow> nn_set_size s' = (if nn_set_contains s k then nn_set_size s else nn_set_size s + 1)) \<and>
    (nn_set_contains (nn_set_erase k s) j \<longleftrightarrow> j \<noteq> k \<and> nn_set_contains s j)"
proof -
  have "nn_set_contains s' j \<longleftrightarrow> (ok \<and> j = k) \<or> nn_set_contains s j"
    using item_set.ins_elems [OF assms(1), of k ok "(s', m')"] item_set.mem_elems [of sm live "(s, m)" j]
      item_set.mem_elems [of sm live "(s', m')" j] assms by auto
  moreover have "ok \<longrightarrow> nn_set_size s' = (if nn_set_contains s k then nn_set_size s else nn_set_size s + 1)"
    using item_set.card_after_ins [OF assms(1), of k "(s', m')"] assms(2) by auto
  moreover have "nn_set_contains (nn_set_erase k s) j \<longleftrightarrow> j \<noteq> k \<and> nn_set_contains s j"
    using item_set.mem_after_del [OF assms(1), of k j] by simp
  ultimately show ?thesis by blast
qed

definition sample_set :: "(nat, counting) nn_set" where
  "sample_set = \<lparr>set_less = (<), set_items = sample_vector\<rparr>"

lemma sample_set_inv: "set_inv 1000 counting_live (sample_set, (3, [7]))"
  using sample_vector_ok counting_allocator_ok
  by (simp add: set_inv_def sample_set_def) (simp add: sample_vector_def counting_live_def vector_blocks_def)

theorem item_set_is_set_witness:
  "case nn_set_insert 1000 9 sample_set (3, [7]) of (ok, s', m') \<Rightarrow>
     ok \<and> nn_set_contains s' 9 \<and> nn_set_contains s' 5 \<and> nn_set_size s' = 3 \<and>
     \<not> nn_set_contains (nn_set_erase 9 sample_set) 9"
proof -
  obtain ok s' m' where p: "nn_set_insert 1000 9 sample_set (3, [7]) = (ok, s', m')" by (metis prod_cases3)
  have c: "nn_set_contains sample_set k \<longleftrightarrow> k = 5 \<or> k = 6" for k
    using contains_list [of 1000 sample_set k] sample_vector_ok by (auto simp: sample_set_def)
  have ok
    using p by (auto simp: nn_set_insert_def c)
      (auto simp: sample_set_def nn_vector_push_back_def sample_vector_def nn_vector_next_capacity_def Let_def)
  then show ?thesis
    using item_set_is_set [OF sample_set_inv p, of 9] item_set_is_set [OF sample_set_inv p, of 5] p c
    by (simp add: nn_set_size_def nn_vector_size_def sample_set_def sample_vector_def)
qed

text \<open>The string set owns its strings.  An insertion keeps every string once, in a block of its
  own; whether it succeeds or fails at either of its two allocations, the blocks in use afterwards
  are those of the rest of the program and those of the set, so nothing leaks; an erasure gives
  back the block of the string it removes.\<close>

theorem string_set_no_leak:
  assumes "string_set_inv sm live (s, m)"
    "nn_string_set_insert sm k s m = (ok, s1, m1)" "nn_string_set_erase k s m = (s2, m2)"
  shows "string_set_inv sm live (s1, m1) \<and> string_set_inv sm live (s2, m2) \<and>
    (nn_string_set_contains s1 j \<longleftrightarrow> (ok \<and> j = k) \<or> nn_string_set_contains s j) \<and>
    (nn_string_set_contains s2 j \<longleftrightarrow> j \<noteq> k \<and> nn_string_set_contains s j) \<and>
    live m1 = (live m - string_set_blocks s) \<union> string_set_blocks s1 \<and>
    live m2 = (live m - string_set_blocks s) \<union> string_set_blocks s2"
proof -
  note a = string_insert_step [OF assms(1,2)] and b = string_erase_step [OF assms(1,3)]
  have "nn_string_set_contains s1 j \<longleftrightarrow> (ok \<and> j = k) \<or> nn_string_set_contains s j"
    using a string_contains_elems [OF assms(1), of j] string_contains_elems [of sm live s1 m1 j] by auto
  moreover have "nn_string_set_contains s2 j \<longleftrightarrow> j \<noteq> k \<and> nn_string_set_contains s j"
    using string_set.mem_after_del [OF assms(1), of k j] assms(3) by simp
  ultimately show ?thesis using a b by blast
qed

definition sample_string_set :: "counting nn_string_set" where
  "sample_string_set = \<lparr>sset_strings = \<lparr>vec_elements = Some (7, [Some (4, [97]), Some (5, [98])]),
     vec_capacity = 2, vec_used = 2, vec_itemSize = 8, vec_allocator = counting_allocator\<rparr>,
     sset_allocator = counting_allocator\<rparr>"

lemma sample_string_set_inv: "string_set_inv 1000 counting_live (sample_string_set, (1, [4, 5, 7]))"
  using counting_allocator_ok
  by (auto simp: string_set_inv_def sample_string_set_def vec_ok_def vector_list_def vector_blocks_def
      string_set_blocks_def counting_live_def)

text \<open>The copy of the new string takes the last block, and the vector cannot grow.\<close>

theorem string_set_no_leak_witness:
  "case nn_string_set_insert 1000 [99] sample_string_set (1, [4, 5, 7]) of (ok, s1, m1) \<Rightarrow>
     \<not> ok \<and> counting_live m1 = {4, 5, 7} \<and> \<not> nn_string_set_contains s1 [99]"
proof -
  have p: "nn_string_set_insert 1000 [99] sample_string_set (1, [4, 5, 7]) = (False, sample_string_set, (1, [4, 5, 7]))"
    by (simp add: nn_string_set_insert_def nn_string_set_contains_def foreach_find.simps nn_vector_begin_def
        nn_vector_is_end_def nn_vector_next_def nn_vector_get_element_def nn_vector_get_def nn_strdup_def
        sample_string_set_def nn_vector_push_back_def nn_vector_next_capacity_def Let_def)
  obtain s2 m2 where q: "nn_string_set_erase [99] sample_string_set (1, [4, 5, 7]) = (s2, m2)"
    by (metis surj_pair)
  have "\<not> nn_string_set_contains sample_string_set [99]"
    using string_contains_elems [OF sample_string_set_inv]
    by (simp add: string_set_elems_def sample_string_set_def vector_list_def)
  then show ?thesis
    using string_set_no_leak [OF sample_string_set_inv p q, of "[99]"] p by (simp add: counting_live_def)
qed

end
