(* ===== verification/Stun_Message.thy ===== *)
theory Stun_Message
  imports Nn_Ip
begin

text \<open>
  The messages of src/components/stun/src/nabto_stun_message.c: the bounded reads and writes, the
  binding request and the attributes of a binding response.  A read pointer is the list of the bytes
  between it and the end, or \<open>None\<close> for the null pointer, and a write pointer is the \<open>wptr\<close> of the
  prelude.
\<close>

section \<open>Data\<close>

record nn_endpoint =
  ep_ip :: nn_ip_address
  ep_port :: u16

datatype nabto_stun_socket = PRIMARY | SECONDARY

datatype stun_message_state = MS_NONE | MS_SENT | MS_FAILED | MS_COMPLETED

record stun_message =
  ms_state :: stun_message_state
  ms_changeAddress :: bool
  ms_changePort :: bool
  ms_sock :: nabto_stun_socket
  ms_testEp :: nn_endpoint
  ms_transactionId :: bytes
  ms_stamp :: u32
  ms_retransmissions :: u8
  ms_maxRetransmissions :: u8
  ms_mappedEp :: nn_endpoint
  ms_serverEp :: nn_endpoint
  ms_altServerEp :: nn_endpoint

text \<open>The functions the user supplies: the clock, and random bytes with a flag that tells success.\<close>

record 'm stun_module =
  stm_get_stamp :: "'m \<Rightarrow> u32"
  stm_get_rand :: "nat \<Rightarrow> 'm \<Rightarrow> (bytes \<times> bool) \<times> 'm"

definition STUN_MESSAGE_BINDING_REQUEST :: u16 where "STUN_MESSAGE_BINDING_REQUEST = 0x0001"
definition STUN_MESSAGE_BINDING_RESPONSE_SUCCESS :: u16 where "STUN_MESSAGE_BINDING_RESPONSE_SUCCESS = 0x0101"
definition STUN_ATTRIBUTE_CHANGE_REQUEST :: u16 where "STUN_ATTRIBUTE_CHANGE_REQUEST = 0x0003"
definition STUN_ATTRIBUTE_XOR_MAPPED_ADDRESS :: u16 where "STUN_ATTRIBUTE_XOR_MAPPED_ADDRESS = 0x0020"
definition STUN_ATTRIBUTE_XOR_MAPPED_ADDRESS_ALT :: u16 where "STUN_ATTRIBUTE_XOR_MAPPED_ADDRESS_ALT = 0x8020"
definition STUN_ATTRIBUTE_RESPONSE_ORIGIN :: u16 where "STUN_ATTRIBUTE_RESPONSE_ORIGIN = 0x802b"
definition STUN_ATTRIBUTE_OTHER_ADDRESS :: u16 where "STUN_ATTRIBUTE_OTHER_ADDRESS = 0x802c"
definition STUN_MAGIC_COOKIE :: u32 where "STUN_MAGIC_COOKIE = 0x2112A442"
definition STUN_MAGIC_COOKIE_BYTES :: bytes where "STUN_MAGIC_COOKIE_BYTES = [0x21, 0x12, 0xA4, 0x42]"
definition STUN_BINDING_REQUEST_SIZE :: nat where "STUN_BINDING_REQUEST_SIZE = 28"
definition STUN_ADDRESS_FAMILY_V4 :: u8 where "STUN_ADDRESS_FAMILY_V4 = 1"
definition STUN_ADDRESS_FAMILY_V6 :: u8 where "STUN_ADDRESS_FAMILY_V6 = 2"

lemmas stun_constants [simp] = STUN_MESSAGE_BINDING_REQUEST_def STUN_MESSAGE_BINDING_RESPONSE_SUCCESS_def
  STUN_ATTRIBUTE_CHANGE_REQUEST_def STUN_ATTRIBUTE_XOR_MAPPED_ADDRESS_def
  STUN_ATTRIBUTE_XOR_MAPPED_ADDRESS_ALT_def STUN_ATTRIBUTE_RESPONSE_ORIGIN_def
  STUN_ATTRIBUTE_OTHER_ADDRESS_def STUN_MAGIC_COOKIE_def STUN_MAGIC_COOKIE_BYTES_def
  STUN_BINDING_REQUEST_SIZE_def STUN_ADDRESS_FAMILY_V4_def STUN_ADDRESS_FAMILY_V6_def

section \<open>Writing\<close>

definition nabto_stun_uint8_write_forward :: "u8 \<Rightarrow> wptr \<Rightarrow> wptr" where
  "nabto_stun_uint8_write_forward val buf = wput [val] buf"

fun nabto_stun_buf_write_forward :: "bytes \<Rightarrow> wptr \<Rightarrow> wptr" where
  "nabto_stun_buf_write_forward [] buf = buf"
| "nabto_stun_buf_write_forward (v # val) buf =
     nabto_stun_buf_write_forward val (nabto_stun_uint8_write_forward v buf)"

definition nabto_stun_uint16_write_forward :: "u16 \<Rightarrow> wptr \<Rightarrow> wptr" where
  "nabto_stun_uint16_write_forward val buf =
     nabto_stun_uint8_write_forward (byte_at 0 val) (nabto_stun_uint8_write_forward (byte_at 8 val) buf)"

definition nabto_stun_uint32_write_forward :: "u32 \<Rightarrow> wptr \<Rightarrow> wptr" where
  "nabto_stun_uint32_write_forward val buf =
     nabto_stun_uint8_write_forward (byte_at 0 val) (nabto_stun_uint8_write_forward (byte_at 8 val)
       (nabto_stun_uint8_write_forward (byte_at 16 val) (nabto_stun_uint8_write_forward (byte_at 24 val) buf)))"

text \<open>The message written, or \<open>None\<close> when the function returns 0 because the buffer is too small.\<close>

definition nabto_stun_write_message :: "nat \<Rightarrow> stun_message \<Rightarrow> bytes option" where
  "nabto_stun_write_message sz msg =
     (let ptr = Some ([], sz);
          bits = (0 :: u32);
          ptr = nabto_stun_uint16_write_forward STUN_MESSAGE_BINDING_REQUEST ptr;
          ptr = nabto_stun_uint16_write_forward 8 ptr;
          ptr = nabto_stun_uint32_write_forward STUN_MAGIC_COOKIE ptr;
          ptr = nabto_stun_buf_write_forward (take 12 (ms_transactionId msg)) ptr;
          bits = (if ms_changePort msg then bits OR push_bit 1 1 else bits);
          bits = (if ms_changeAddress msg then bits OR push_bit 2 1 else bits);
          ptr = nabto_stun_uint16_write_forward STUN_ATTRIBUTE_CHANGE_REQUEST ptr;
          ptr = nabto_stun_uint16_write_forward 4 ptr;
          ptr = nabto_stun_uint32_write_forward bits ptr
      in map_option fst ptr)"

definition nabto_stun_init_message ::
  "'m stun_module \<Rightarrow> bool \<Rightarrow> bool \<Rightarrow> nabto_stun_socket \<Rightarrow> nn_endpoint \<Rightarrow> u8 \<Rightarrow> stun_message \<Rightarrow> 'm \<Rightarrow> stun_message \<times> 'm" where
  "nabto_stun_init_message md changeAddr changePort sock ep maxRetransmissions msg m =
     (let msg = msg\<lparr>ms_state := MS_NONE, ms_changeAddress := changeAddr, ms_changePort := changePort,
                   ms_testEp := ep, ms_sock := sock\<rparr>;
          ((rand, ok), m) = stm_get_rand md 12 m;
          msg = msg\<lparr>ms_transactionId := rand\<rparr>
      in (msg\<lparr>ms_retransmissions := 0, ms_maxRetransmissions := maxRetransmissions\<rparr>, m))"

section \<open>Reading\<close>

definition nabto_stun_read_uint8 :: "bytes option \<Rightarrow> (u8 \<times> bytes) option" where
  "nabto_stun_read_uint8 ptr = (case ptr of Some (b # bs) \<Rightarrow> Some (b, bs) | _ \<Rightarrow> None)"

fun nabto_stun_read_buf :: "nat \<Rightarrow> bytes option \<Rightarrow> (bytes \<times> bytes) option" where
  "nabto_stun_read_buf 0 ptr = map_option (Pair []) ptr"
| "nabto_stun_read_buf (Suc n) ptr =
     (case nabto_stun_read_uint8 ptr of
        None \<Rightarrow> None
      | Some (b, ptr) \<Rightarrow> map_option (\<lambda>(bs, ptr). (b # bs, ptr)) (nabto_stun_read_buf n (Some ptr)))"

definition nabto_stun_read_uint16 :: "bytes option \<Rightarrow> (u16 \<times> bytes) option" where
  "nabto_stun_read_uint16 ptr =
     (case nabto_stun_read_uint8 ptr of
        None \<Rightarrow> None
      | Some (d0, ptr) \<Rightarrow>
         (case nabto_stun_read_uint8 (Some ptr) of
            None \<Rightarrow> None
          | Some (d1, ptr) \<Rightarrow> Some (push_bit 8 (ucast d0) OR ucast d1, ptr)))"

definition nabto_stun_read_uint32 :: "bytes option \<Rightarrow> (u32 \<times> bytes) option" where
  "nabto_stun_read_uint32 ptr =
     (case nabto_stun_read_buf 4 ptr of
        None \<Rightarrow> None
      | Some (d, ptr) \<Rightarrow> Some (push_bit 24 (ucast (d ! 0)) OR push_bit 16 (ucast (d ! 1)) OR
          push_bit 8 (ucast (d ! 2)) OR ucast (d ! 3), ptr))"

text \<open>The attribute value is read from \<open>buf\<close>; the result is the pointer returned and the endpoint.\<close>

definition nabto_stun_read_endpoint :: "bytes \<Rightarrow> bool \<Rightarrow> nn_endpoint \<Rightarrow> bytes option \<times> nn_endpoint" where
  "nabto_stun_read_endpoint buf xored ep =
     (case nabto_stun_read_uint8 (Some buf) of
        None \<Rightarrow> (None, ep)
      | Some (reserved, ptr) \<Rightarrow> (case nabto_stun_read_uint8 (Some ptr) of
        None \<Rightarrow> (None, ep)
      | Some (family, ptr) \<Rightarrow> (case nabto_stun_read_uint16 (Some ptr) of
        None \<Rightarrow> (None, ep)
      | Some (port, ptr) \<Rightarrow>
         if family = STUN_ADDRESS_FAMILY_V4 then
           (if length buf \<noteq> 8 then (None, ep)
            else
             (let ep = ep\<lparr>ep_port := port, ep_ip := (ep_ip ep)\<lparr>ip_type := NN_IPV4\<rparr>\<rparr>
              in case nabto_stun_read_buf 4 (Some ptr) of
                   None \<Rightarrow> (None, ep)
                 | Some (octets, ptr) \<Rightarrow>
                    (let ep = ep\<lparr>ep_ip := set_v4 octets (ep_ip ep)\<rparr>
                     in if xored
                        then (Some ptr, ep\<lparr>ep_port := ep_port ep XOR ucast (drop_bit 16 STUN_MAGIC_COOKIE),
                                ep_ip := set_v4 (map2 (XOR) octets STUN_MAGIC_COOKIE_BYTES) (ep_ip ep)\<rparr>)
                        else (Some ptr, ep))))
         else if family = STUN_ADDRESS_FAMILY_V6 then
           (if length buf \<noteq> 20 then None else Some [], ep)
         else (None, ep))))"

text \<open>What the loop does with the value of one attribute; the flag is false for a malformed one.\<close>

definition decode_attribute :: "u16 \<Rightarrow> bytes \<Rightarrow> stun_message \<Rightarrow> bool \<times> stun_message" where
  "decode_attribute attType attPtr msg =
     (if attType = STUN_ATTRIBUTE_XOR_MAPPED_ADDRESS_ALT \<or> attType = STUN_ATTRIBUTE_XOR_MAPPED_ADDRESS then
        (case nabto_stun_read_endpoint attPtr True (ms_mappedEp msg) of
           (p, ep) \<Rightarrow> (p \<noteq> None, msg\<lparr>ms_mappedEp := ep\<rparr>))
      else if attType = STUN_ATTRIBUTE_RESPONSE_ORIGIN then
        (case nabto_stun_read_endpoint attPtr False (ms_serverEp msg) of
           (p, ep) \<Rightarrow> (p \<noteq> None, msg\<lparr>ms_serverEp := ep\<rparr>))
      else if attType = STUN_ATTRIBUTE_OTHER_ADDRESS then
        (case nabto_stun_read_endpoint attPtr False (ms_altServerEp msg) of
           (p, ep) \<Rightarrow> (p \<noteq> None, msg\<lparr>ms_altServerEp := ep\<rparr>))
      else (True, msg))"

definition attribute_padding :: "nat \<Rightarrow> nat" where
  "attribute_padding attLen = (4 - attLen mod 4) mod 4"

lemma read_uint8_simps [simp]:
  "nabto_stun_read_uint8 None = None" "nabto_stun_read_uint8 (Some []) = None"
  "nabto_stun_read_uint8 (Some (b # bs)) = Some (b, bs)"
  by (simp_all add: nabto_stun_read_uint8_def)

lemma read_uint16_simps [simp]:
  "nabto_stun_read_uint16 None = None" "nabto_stun_read_uint16 (Some []) = None"
  "nabto_stun_read_uint16 (Some [a]) = None"
  "nabto_stun_read_uint16 (Some (a # b # bs)) = Some (of_be16 a b, bs)"
  by (simp_all add: nabto_stun_read_uint16_def of_be16_def)

lemma read_uint16_Some:
  "nabto_stun_read_uint16 (Some ptr) = Some (v, rest) \<Longrightarrow> length ptr = length rest + 2"
  by (auto simp: nabto_stun_read_uint16_def nabto_stun_read_uint8_def split: option.splits list.splits)

text \<open>The loop over the attributes; \<open>ptr\<close> is what is left of the packet.\<close>

function decode_attributes :: "bytes \<Rightarrow> stun_message \<Rightarrow> bool \<times> stun_message" where
  "decode_attributes ptr msg =
     (if ptr = [] then (True, msg)
      else (case nabto_stun_read_uint16 (Some ptr) of
        None \<Rightarrow> (True, msg)
      | Some (attType, ptr1) \<Rightarrow> (case nabto_stun_read_uint16 (Some ptr1) of
        None \<Rightarrow> (True, msg)
      | Some (attLen, ptr2) \<Rightarrow>
         if length ptr2 < unat attLen then (False, msg)
         else (case decode_attribute attType (take (unat attLen) ptr2) msg of
           (False, msg) \<Rightarrow> (False, msg)
         | (True, msg) \<Rightarrow>
             decode_attributes
               (drop (min (attribute_padding (unat attLen)) (length (drop (unat attLen) ptr2)))
                 (drop (unat attLen) ptr2)) msg))))"
  by pat_completeness auto
termination by (relation "measure (\<lambda>(ptr, msg). length ptr)") (auto dest!: read_uint16_Some)

declare decode_attributes.simps [simp del]

definition nabto_stun_decode_message :: "stun_message \<Rightarrow> bytes \<Rightarrow> bool \<times> stun_message" where
  "nabto_stun_decode_message msg buf =
     (case nabto_stun_read_uint16 (Some buf) of
        None \<Rightarrow> (False, msg)
      | Some (type, ptr) \<Rightarrow> (case nabto_stun_read_uint16 (Some ptr) of
        None \<Rightarrow> (False, msg)
      | Some (len, ptr) \<Rightarrow>
         if type \<noteq> STUN_MESSAGE_BINDING_RESPONSE_SUCCESS \<or> length buf < unat len + 20 then (False, msg)
         else (case nabto_stun_read_uint32 (Some ptr) of
           None \<Rightarrow> (False, msg)
         | Some (cookie, ptr) \<Rightarrow>
             if cookie \<noteq> STUN_MAGIC_COOKIE then (False, msg)
             else decode_attributes (drop 12 ptr) msg)))"

section \<open>Messages on the wire\<close>

lemma buf_write_forward: "nabto_stun_buf_write_forward val buf = wput val buf"
proof (induction val buf rule: nabto_stun_buf_write_forward.induct)
  case (1 buf)
  then show ?case by (auto simp: wput_def split: option.splits)
next
  case (2 v val buf)
  then show ?case by (simp add: nabto_stun_uint8_write_forward_def wput_wput)
qed

lemma uint16_write_forward: "nabto_stun_uint16_write_forward v buf = wput (be16 v) buf"
  by (simp add: nabto_stun_uint16_write_forward_def nabto_stun_uint8_write_forward_def wput_wput be16_def)

lemma uint32_write_forward: "nabto_stun_uint32_write_forward v buf = wput (be32 v) buf"
  by (simp add: nabto_stun_uint32_write_forward_def nabto_stun_uint8_write_forward_def wput_wput be32_def)

lemma read_buf_take:
  "nabto_stun_read_buf n (Some ptr) = (if length ptr < n then None else Some (take n ptr, drop n ptr))"
  by (induction n arbitrary: ptr) (auto simp: nabto_stun_read_uint8_def split: list.splits)

lemma read_uint32_be32 [simp]: "nabto_stun_read_uint32 (Some (be32 v @ rest)) = Some (v, rest)"
proof -
  have "nabto_stun_read_uint32 (Some (a # b # c # d # rest)) = Some (of_be32 a b c d, rest)" for a b c d
    by (simp add: nabto_stun_read_uint32_def read_buf_take of_be32_def)
  then show ?thesis by (simp add: be32_def)
qed

lemma read_uint16_be16 [simp]: "nabto_stun_read_uint16 (Some (be16 v @ rest)) = Some (v, rest)"
  by (simp add: be16_def)

text \<open>A binding request is written exactly when the buffer holds its 28 bytes: the request type, the
  length of its one attribute, the magic cookie, the transaction id of the message and the
  CHANGE-REQUEST attribute with bit 1 for another port and bit 2 for another address.\<close>

theorem stun_request_layout:
  assumes "length (ms_transactionId msg) = 12"
  shows "nabto_stun_write_message sz msg =
    (if sz < STUN_BINDING_REQUEST_SIZE then None
     else Some (be16 0x0001 @ be16 8 @ be32 0x2112A442 @ ms_transactionId msg @ be16 0x0003 @ be16 4 @
       be32 ((if ms_changePort msg then 2 else 0) + (if ms_changeAddress msg then 4 else 0))))"
proof -
  have "nabto_stun_write_message sz msg = map_option fst (wput (be16 0x0001 @ be16 8 @ be32 0x2112A442 @
      ms_transactionId msg @ be16 0x0003 @ be16 4 @
      be32 ((if ms_changePort msg then 2 else 0) + (if ms_changeAddress msg then 4 else 0))) (Some ([], sz)))"
    unfolding nabto_stun_write_message_def Let_def uint16_write_forward uint32_write_forward
      buf_write_forward wput_wput
    using assms by (simp add: push_bit_eq_mult)
  then show ?thesis using assms by (simp add: wput_def)
qed

definition sample_endpoint :: nn_endpoint where
  "sample_endpoint = \<lparr>ep_ip = sample_ip, ep_port = 5478\<rparr>"

definition sample_stun_message :: stun_message where
  "sample_stun_message = \<lparr>ms_state = MS_SENT, ms_changeAddress = True, ms_changePort = False, ms_sock = PRIMARY,
     ms_testEp = sample_endpoint, ms_transactionId = [1, 2, 3, 4, 5, 6, 7, 8, 9, 10, 11, 12], ms_stamp = 0,
     ms_retransmissions = 1, ms_maxRetransmissions = 3,
     ms_mappedEp = sample_endpoint, ms_serverEp = sample_endpoint, ms_altServerEp = sample_endpoint\<rparr>"

theorem stun_request_layout_witness:
  "nabto_stun_write_message 28 sample_stun_message =
     Some ([0, 1, 0, 8, 0x21, 0x12, 0xA4, 0x42, 1, 2, 3, 4, 5, 6, 7, 8, 9, 10, 11, 12, 0, 3, 0, 4, 0, 0, 0, 4]) \<and>
   nabto_stun_write_message 27 sample_stun_message = None"
  using stun_request_layout [of sample_stun_message 28] stun_request_layout [of sample_stun_message 27]
  by (simp add: sample_stun_message_def be16_def be32_def byte_at_def drop_bit_eq_div)

section \<open>Attributes\<close>

text \<open>
  An attribute on the wire is its type, the length of its value, the value and the padding to a
  multiple of four.  Decoding a sequence of them is applying them one by one.
\<close>

type_synonym stun_attribute = "u16 \<times> bytes \<times> bytes"

definition attribute_ok :: "stun_attribute \<Rightarrow> bool" where
  "attribute_ok a = (case a of (type, val, pad) \<Rightarrow> length val < 65536 \<and> length pad = attribute_padding (length val))"

definition encode_attribute :: "stun_attribute \<Rightarrow> bytes" where
  "encode_attribute a = (case a of (type, val, pad) \<Rightarrow> be16 type @ be16 (of_nat (length val)) @ val @ pad)"

fun apply_attributes :: "stun_attribute list \<Rightarrow> stun_message \<Rightarrow> bool \<times> stun_message" where
  "apply_attributes [] msg = (True, msg)"
| "apply_attributes ((type, val, pad) # as) msg =
     (case decode_attribute type val msg of
        (False, msg) \<Rightarrow> (False, msg)
      | (True, msg) \<Rightarrow> apply_attributes as msg)"

lemma decode_attributes_encode:
  "\<forall>a\<in>set as. attribute_ok a \<Longrightarrow> decode_attributes (concat (map encode_attribute as)) msg = apply_attributes as msg"
proof (induction as arbitrary: msg)
  case Nil
  then show ?case by (simp add: decode_attributes.simps)
next
  case (Cons a as)
  obtain type val pad where a: "a = (type, val, pad)" by (metis prod_cases3)
  have l: "unat (of_nat (length val) :: u16) = length val" "length pad = attribute_padding (length val)"
    using Cons.prems by (auto simp: a attribute_ok_def unat_of_nat)
  have e: "encode_attribute a = byte_at 8 type # byte_at 0 type # byte_at 8 (of_nat (length val) :: u16) #
      byte_at 0 (of_nat (length val) :: u16) # val @ pad"
    by (simp add: a encode_attribute_def be16_def)
  show ?case
    using Cons l
    by (subst decode_attributes.simps) (auto simp: a [symmetric] e, auto simp: a split: prod.splits bool.splits)
qed

text \<open>The value of an address attribute for an IPv4 endpoint.\<close>

definition endpoint_value :: "bool \<Rightarrow> nn_endpoint \<Rightarrow> bytes" where
  "endpoint_value xored ep =
     (let octets = take 4 (ip_bytes (ep_ip ep))
      in [0, 1] @ be16 (if xored then ep_port ep XOR 0x2112 else ep_port ep) @
         (if xored then map2 (XOR) octets [0x21, 0x12, 0xA4, 0x42] else octets))"

definition endpoint_ok :: "nn_endpoint \<Rightarrow> bool" where
  "endpoint_ok ep \<longleftrightarrow> ip_ok (ep_ip ep)"

text \<open>The endpoint that reading an address leaves in an endpoint that was there before.\<close>

definition set_endpoint :: "nn_endpoint \<Rightarrow> nn_endpoint \<Rightarrow> nn_endpoint" where
  "set_endpoint new old = old\<lparr>ep_port := ep_port new, ep_ip := set_v4 (take 4 (ip_bytes (ep_ip new))) (ep_ip old)\<rparr>"

lemma length_endpoint_value: "endpoint_ok ep \<Longrightarrow> length (endpoint_value xored ep) = 8"
  by (simp add: endpoint_value_def endpoint_ok_def ip_ok_def Let_def)

lemma xor_cancel [simp]: "(a XOR b) XOR b = (a :: 'a::len word)"
  by (simp add: xor.assoc)

lemma read_endpoint_value:
  assumes "endpoint_ok ep" "endpoint_ok old"
  shows "nabto_stun_read_endpoint (endpoint_value xored ep) xored old = (Some [], set_endpoint ep old)"
proof -
  obtain a b c d where o: "take 4 (ip_bytes (ep_ip ep)) = [a, b, c, d]"
    using ip_bytes_v4 [of "ep_ip ep"] assms(1) by (auto simp: endpoint_ok_def)
  have l: "length (ip_bytes (ep_ip old)) = 16" using assms(2) by (simp add: endpoint_ok_def ip_ok_def)
  have c: "ucast (drop_bit 16 (0x2112A442 :: u32)) = (0x2112 :: u16)"
    by (simp add: drop_bit_eq_div)
  show ?thesis
    using l by (cases xored) (simp_all add: nabto_stun_read_endpoint_def endpoint_value_def o Let_def be16_def
      read_buf_take set_endpoint_def set_v4_def c)
qed

definition unknown_attribute :: "stun_attribute \<Rightarrow> bool" where
  "unknown_attribute a \<longleftrightarrow> attribute_ok a \<and> fst a \<notin> {0x0020, 0x8020, 0x802b, 0x802c}"

lemma apply_unknown: "\<forall>a\<in>set as. unknown_attribute a \<Longrightarrow> apply_attributes (as @ bs) msg = apply_attributes bs msg"
  by (induction as) (auto simp: unknown_attribute_def decode_attribute_def split: prod.splits)

text \<open>The header of a binding response with the attributes that follow it.\<close>

definition binding_response :: "bytes \<Rightarrow> stun_attribute list \<Rightarrow> bytes" where
  "binding_response tid as =
     (let body = concat (map encode_attribute as)
      in be16 0x0101 @ be16 (of_nat (length body)) @ be32 0x2112A442 @ tid @ body)"

lemma decode_response:
  assumes "length tid = 12" "\<forall>a\<in>set as. attribute_ok a" "length (concat (map encode_attribute as)) < 65536"
  shows "nabto_stun_decode_message msg (binding_response tid as) = apply_attributes as msg"
proof -
  have "unat (of_nat (length (concat (map encode_attribute as))) :: u16) = length (concat (map encode_attribute as))"
    using assms(3) by (simp add: unat_of_nat)
  then show ?thesis
    using assms decode_attributes_encode [OF assms(2), of msg]
    by (simp add: nabto_stun_decode_message_def binding_response_def Let_def)
qed

text \<open>C36: a binding response with the transformed mapped address (under either attribute type), the origin
  and the other address, among any attributes that are not known, is decoded to these three
  endpoints; the transformation of the port and of the octets is undone and nothing else in the
  message changes.\<close>

theorem stun_response_roundtrip:
  assumes "length tid = 12" "endpoint_ok mapped" "endpoint_ok origin" "endpoint_ok other"
    "endpoint_ok (ms_mappedEp msg)" "endpoint_ok (ms_serverEp msg)" "endpoint_ok (ms_altServerEp msg)"
    "\<forall>a\<in>set (us @ vs). unknown_attribute a" "xor_type \<in> {0x0020, 0x8020}"
    "as = us @ [(xor_type, endpoint_value True mapped, []), (0x802b, endpoint_value False origin, []),
           (0x802c, endpoint_value False other, [])] @ vs"
    "length (concat (map encode_attribute as)) < 65536"
  shows "nabto_stun_decode_message msg (binding_response tid as) =
    (True, msg\<lparr>ms_mappedEp := set_endpoint mapped (ms_mappedEp msg),
               ms_serverEp := set_endpoint origin (ms_serverEp msg),
               ms_altServerEp := set_endpoint other (ms_altServerEp msg)\<rparr>)"
proof -
  have ok: "\<forall>a\<in>set as. attribute_ok a"
    using assms(2-4,8) length_endpoint_value
    by (auto simp: assms(10) unknown_attribute_def attribute_ok_def attribute_padding_def)
  have v: "apply_attributes vs m = (True, m)" for m
    using apply_unknown [of vs "[]"] assms(8) by simp
  show ?thesis
    unfolding decode_response [OF assms(1) ok assms(11)]
    unfolding assms(10) using assms(2-9)
    by (simp add: apply_unknown decode_attribute_def read_endpoint_value v) (auto simp: decode_attribute_def)
qed

theorem stun_response_roundtrip_witness:
  "case nabto_stun_decode_message sample_stun_message (binding_response [1, 2, 3, 4, 5, 6, 7, 8, 9, 10, 11, 12]
     [(0x8022, [65], [0, 0, 0]), (0x0020, endpoint_value True sample_endpoint, []),
      (0x802b, endpoint_value False sample_endpoint, []), (0x802c, endpoint_value False sample_endpoint, [])]) of
   (ok, msg) \<Rightarrow> ok \<and> ep_port (ms_mappedEp msg) = 5478 \<and> take 4 (ip_bytes (ep_ip (ms_mappedEp msg))) = [192, 168, 0, 1]"
proof -
  let ?as = "[(0x8022, [65], [0, 0, 0]), (0x0020, endpoint_value True sample_endpoint, []),
      (0x802b, endpoint_value False sample_endpoint, []), (0x802c, endpoint_value False sample_endpoint, [])] :: stun_attribute list"
  have "nabto_stun_decode_message sample_stun_message (binding_response [1, 2, 3, 4, 5, 6, 7, 8, 9, 10, 11, 12] ?as) =
      (True, sample_stun_message\<lparr>ms_mappedEp := set_endpoint sample_endpoint (ms_mappedEp sample_stun_message),
        ms_serverEp := set_endpoint sample_endpoint (ms_serverEp sample_stun_message),
        ms_altServerEp := set_endpoint sample_endpoint (ms_altServerEp sample_stun_message)\<rparr>)"
    by (rule stun_response_roundtrip [where us = "[(0x8022, [65], [0, 0, 0])]" and vs = "[]" and xor_type = "0x0020"])
      (simp_all add: sample_stun_message_def endpoint_ok_def ip_ok_def sample_endpoint_def sample_ip_def
        unknown_attribute_def attribute_ok_def attribute_padding_def encode_attribute_def endpoint_value_def)
  then show ?thesis
    by (simp add: set_endpoint_def set_v4_def sample_stun_message_def sample_endpoint_def sample_ip_def)
qed

end
