(* ===== verification/Stun_Client.thy ===== *)
theory Stun_Client
  imports Stun_Message
begin

text \<open>
  The NAT analysis of src/components/stun/src/nabto_stun_client.c: a client that the application drives
  by asking for the next event, sending what it is given, handing in packets and reporting timeouts.
  The pointer \<open>nextTest\<close> is a reference to one of the messages of the client, or \<open>None\<close> for the null
  pointer; an operation that would follow the null pointer is \<open>None\<close>.
\<close>

section \<open>Data\<close>

datatype stun_state = STUN_NOT_STARTED | STUN_INITIAL_TEST | STUN_TESTING | STUN_DEFECT_ROUTER_TEST
  | STUN_COMPLETED | STUN_FAILED

datatype stun_event = STUN_ET_SEND_PRIMARY | STUN_ET_SEND_SECONDARY | STUN_ET_WAIT | STUN_ET_NO_EVENT
  | STUN_ET_COMPLETED | STUN_ET_FAILED

datatype stun_nat_result = STUN_NOT_AVAILABLE | STUN_INDEPENDENT | STUN_ADDR_DEPENDENT | STUN_PORT_DEPENDENT

record stun_result =
  sr_mapping :: stun_nat_result
  sr_filtering :: stun_nat_result
  sr_hasDefectNatAnswer :: bool
  sr_defectNat :: bool
  sr_extEp :: nn_endpoint

text \<open>What \<open>nextTest\<close> points to.\<close>

datatype test_ref = TEST1 | TESTS nat | DEFECT

record 'm stun =
  sn_module :: "'m stun_module"
  sn_user :: 'm
  sn_result :: stun_result
  sn_nextEvent :: stun_event
  sn_state :: stun_state
  sn_simple :: bool
  sn_eps :: "nn_endpoint list"
  sn_numEps :: u8
  sn_initialTestsSent :: u8
  sn_nextTest :: "test_ref option"
  sn_nextTimeout :: u32
  sn_test1 :: stun_message
  sn_tests :: "stun_message list"
  sn_defectRouterTest :: stun_message

definition NABTO_STUN_MAX_RETRIES_DROPPED :: u8 where "NABTO_STUN_MAX_RETRIES_DROPPED = 3"
definition NABTO_STUN_MAX_RETRIES_ACCEPTED :: u8 where "NABTO_STUN_MAX_RETRIES_ACCEPTED = 7"
definition NABTO_STUN_SEND_TIMEOUT :: u32 where "NABTO_STUN_SEND_TIMEOUT = 500"

lemmas stun_limits [simp] = NABTO_STUN_MAX_RETRIES_DROPPED_def NABTO_STUN_MAX_RETRIES_ACCEPTED_def
  NABTO_STUN_SEND_TIMEOUT_def

definition zero_endpoint :: nn_endpoint where
  "zero_endpoint = \<lparr>ep_ip = \<lparr>ip_type = NN_IPV4, ip_bytes = replicate 16 0\<rparr>, ep_port = 0\<rparr>"

definition zero_result :: stun_result where
  "zero_result = \<lparr>sr_mapping = STUN_NOT_AVAILABLE, sr_filtering = STUN_NOT_AVAILABLE,
     sr_hasDefectNatAnswer = False, sr_defectNat = False, sr_extEp = zero_endpoint\<rparr>"

text \<open>Reading and writing the message a reference points to.\<close>

definition test_at :: "test_ref \<Rightarrow> 'm stun \<Rightarrow> stun_message" where
  "test_at r st = (case r of TEST1 \<Rightarrow> sn_test1 st | TESTS i \<Rightarrow> sn_tests st ! i | DEFECT \<Rightarrow> sn_defectRouterTest st)"

definition set_test :: "test_ref \<Rightarrow> stun_message \<Rightarrow> 'm stun \<Rightarrow> 'm stun" where
  "set_test r msg st = (case r of TEST1 \<Rightarrow> st\<lparr>sn_test1 := msg\<rparr>
     | TESTS i \<Rightarrow> st\<lparr>sn_tests := (sn_tests st)[i := msg]\<rparr> | DEFECT \<Rightarrow> st\<lparr>sn_defectRouterTest := msg\<rparr>)"

definition stun_stamp :: "'m stun \<Rightarrow> u32" where
  "stun_stamp st = stm_get_stamp (sn_module st) (sn_user st)"

text \<open>Initialising one message of the client.\<close>

definition init_test ::
  "test_ref \<Rightarrow> bool \<Rightarrow> bool \<Rightarrow> nabto_stun_socket \<Rightarrow> nn_endpoint \<Rightarrow> u8 \<Rightarrow> 'm stun \<Rightarrow> 'm stun" where
  "init_test r changeAddr changePort sock ep maxRetr st =
     (case nabto_stun_init_message (sn_module st) changeAddr changePort sock ep maxRetr (test_at r st) (sn_user st) of
        (msg, m) \<Rightarrow> set_test r msg (st\<lparr>sn_user := m\<rparr>))"

section \<open>Operations\<close>

definition nabto_stun_init :: "'m stun_module \<Rightarrow> 'm \<Rightarrow> nn_endpoint list \<Rightarrow> u8 \<Rightarrow> 'm stun \<Rightarrow> 'm stun" where
  "nabto_stun_init md m eps numEps st =
     st\<lparr>sn_module := md, sn_user := m, sn_eps := eps, sn_numEps := numEps,
        sn_state := STUN_NOT_STARTED, sn_nextEvent := STUN_ET_NO_EVENT\<rparr>"

text \<open>The first endpoint is read whether there is one or not.\<close>

definition nabto_stun_async_analyze :: "bool \<Rightarrow> 'm stun \<Rightarrow> 'm stun option" where
  "nabto_stun_async_analyze simple st =
     (case sn_eps st of
        [] \<Rightarrow> None
      | ep # eps \<Rightarrow>
         (let st = st\<lparr>sn_result := zero_result, sn_simple := simple, sn_nextEvent := STUN_ET_SEND_PRIMARY,
                     sn_state := STUN_INITIAL_TEST, sn_initialTestsSent := 0,
                     sn_nextTimeout := NABTO_STUN_SEND_TIMEOUT, sn_nextTest := Some TEST1\<rparr>
          in Some (init_test TEST1 False False PRIMARY ep NABTO_STUN_MAX_RETRIES_ACCEPTED st)))"

text \<open>The endpoint to send to, the inner \<open>None\<close> when the function returns false.\<close>

definition nabto_stun_get_data_endpoint :: "'m stun \<Rightarrow> nn_endpoint option option" where
  "nabto_stun_get_data_endpoint st =
     (case sn_state st of
        STUN_INITIAL_TEST \<Rightarrow>
          (if sn_numEps st \<le> sn_initialTestsSent st then Some None
           else Some (Some (sn_eps st ! unat (sn_initialTestsSent st))))
      | STUN_TESTING \<Rightarrow>
          (case sn_nextTest st of None \<Rightarrow> None | Some r \<Rightarrow> Some (Some (ms_testEp (test_at r st))))
      | STUN_DEFECT_ROUTER_TEST \<Rightarrow> Some (Some (ms_testEp (sn_defectRouterTest st)))
      | _ \<Rightarrow> Some None)"

definition send_event :: "stun_message \<Rightarrow> stun_event" where
  "send_event msg = (if ms_sock msg = PRIMARY then STUN_ET_SEND_PRIMARY else STUN_ET_SEND_SECONDARY)"

text \<open>The rest of the body of the first loop, for a test that is not new.\<close>

definition next_test_step :: "nat \<Rightarrow> 'm stun \<Rightarrow> 'm stun" where
  "next_test_step i st =
     (let st = (if ms_maxRetransmissions (sn_tests st ! i) \<le> ms_retransmissions (sn_tests st ! i)
                then set_test (TESTS i) ((sn_tests st ! i)\<lparr>ms_state := MS_FAILED\<rparr>) st else st)
      in if ms_state (sn_tests st ! i) = MS_SENT then st\<lparr>sn_nextTest := Some (TESTS i)\<rparr> else st)"

text \<open>
  The first loop of \<open>nabto_stun_set_next_test\<close>, with \<open>k\<close> tests left from test \<open>i\<close> on; the flag tells
  that it returned from the function.
\<close>

fun next_test_loop :: "nat \<Rightarrow> nat \<Rightarrow> 'm stun \<Rightarrow> bool \<times> 'm stun" where
  "next_test_loop 0 i st = (False, st)"
| "next_test_loop (Suc k) i st =
     (if ms_state (sn_tests st ! i) = MS_NONE then
        (True, st\<lparr>sn_nextTest := Some (TESTS i), sn_nextEvent := send_event (sn_tests st ! i)\<rparr>)
      else next_test_loop k (Suc i) (next_test_step i st))"

text \<open>The second loop: the test in flight with the smallest stamp.\<close>

fun oldest_test_loop :: "nat \<Rightarrow> nat \<Rightarrow> test_ref \<Rightarrow> 'm stun \<Rightarrow> test_ref" where
  "oldest_test_loop 0 i r st = r"
| "oldest_test_loop (Suc k) i r st =
     oldest_test_loop k (Suc i)
       (if ms_state (sn_tests st ! i) = MS_SENT \<and> ms_stamp (sn_tests st ! i) < ms_stamp (test_at r st)
        then TESTS i else r) st"

definition nabto_stun_set_next_test :: "'m stun \<Rightarrow> 'm stun" where
  "nabto_stun_set_next_test st =
     (let stamp = stun_stamp st in
      case sn_state st of
        STUN_INITIAL_TEST \<Rightarrow> st\<lparr>sn_nextTest := Some TEST1, sn_nextTimeout := NABTO_STUN_SEND_TIMEOUT\<rparr>
      | STUN_TESTING \<Rightarrow>
         (case next_test_loop 5 0 (st\<lparr>sn_nextTest := None\<rparr>) of
            (True, st) \<Rightarrow> st
          | (False, st) \<Rightarrow>
             (case sn_nextTest st of
                None \<Rightarrow> st\<lparr>sn_state := STUN_DEFECT_ROUTER_TEST, sn_nextTest := Some DEFECT,
                           sn_nextEvent := STUN_ET_SEND_SECONDARY\<rparr>
              | Some r \<Rightarrow>
                 (let r = oldest_test_loop 5 0 r st;
                      st = st\<lparr>sn_nextTest := Some r\<rparr>;
                      waitTime = stamp - ms_stamp (test_at r st)
                  in if NABTO_STUN_SEND_TIMEOUT \<le> waitTime
                     then st\<lparr>sn_nextEvent := send_event (test_at r st), sn_nextTimeout := 0\<rparr>
                     else st\<lparr>sn_nextEvent := STUN_ET_WAIT,
                             sn_nextTimeout := NABTO_STUN_SEND_TIMEOUT - waitTime\<rparr>)))
      | STUN_DEFECT_ROUTER_TEST \<Rightarrow> st\<lparr>sn_nextTest := Some DEFECT\<rparr>
      | _ \<Rightarrow> st\<lparr>sn_nextTest := None\<rparr>)"

text \<open>The bytes to send, the inner \<open>None\<close> when the function returns 0.\<close>

definition nabto_stun_get_send_data :: "nat \<Rightarrow> 'm stun \<Rightarrow> (bytes option \<times> 'm stun) option" where
  "nabto_stun_get_send_data sz st =
     (case sn_state st of
        STUN_INITIAL_TEST \<Rightarrow>
          (if sn_initialTestsSent st < sn_numEps st then
            (let ret = nabto_stun_write_message sz (sn_test1 st);
                 st = st\<lparr>sn_test1 := (sn_test1 st)\<lparr>ms_stamp := stun_stamp st, ms_state := MS_SENT\<rparr>\<rparr>;
                 st = (if uint (sn_initialTestsSent st) = uint (sn_numEps st) - 1
                       then st\<lparr>sn_nextEvent := STUN_ET_WAIT\<rparr> else st);
                 st = st\<lparr>sn_initialTestsSent := sn_initialTestsSent st + 1\<rparr>
             in Some (ret, nabto_stun_set_next_test st))
           else Some (None, nabto_stun_set_next_test (st\<lparr>sn_nextEvent := STUN_ET_WAIT\<rparr>)))
      | STUN_TESTING \<Rightarrow>
          (case sn_nextTest st of
             None \<Rightarrow> None
           | Some r \<Rightarrow>
              (let msg = test_at r st;
                   ret = nabto_stun_write_message sz msg;
                   msg = msg\<lparr>ms_stamp := stun_stamp st, ms_state := MS_SENT,
                             ms_retransmissions := ms_retransmissions msg + 1\<rparr>
               in Some (ret, nabto_stun_set_next_test (set_test r msg st))))
      | STUN_DEFECT_ROUTER_TEST \<Rightarrow>
          (let msg = sn_defectRouterTest st;
               ret = nabto_stun_write_message sz msg;
               msg = msg\<lparr>ms_stamp := stun_stamp st, ms_state := MS_SENT,
                         ms_retransmissions := ms_retransmissions msg + 1\<rparr>
           in Some (ret, st\<lparr>sn_defectRouterTest := msg, sn_nextEvent := STUN_ET_WAIT,
                           sn_nextTimeout := NABTO_STUN_SEND_TIMEOUT\<rparr>))
      | _ \<Rightarrow> Some (None, st\<lparr>sn_nextEvent := STUN_ET_NO_EVENT\<rparr>))"

definition nabto_stun_compute_result_and_stop :: "'m stun \<Rightarrow> 'm stun" where
  "nabto_stun_compute_result_and_stop st =
     (let port = (\<lambda>msg. ep_port (ms_mappedEp msg));
          tests = (\<lambda>i. sn_tests st ! i);
          mapping = (if port (sn_test1 st) \<noteq> port (tests 0) then STUN_PORT_DEPENDENT
                     else if port (sn_test1 st) \<noteq> port (tests 1) then STUN_ADDR_DEPENDENT
                     else STUN_INDEPENDENT);
          filtering = (if ms_state (tests 3) = MS_COMPLETED then STUN_INDEPENDENT
                       else if ms_state (tests 2) = MS_COMPLETED then STUN_ADDR_DEPENDENT
                       else STUN_PORT_DEPENDENT);
          answer = (ms_state (sn_defectRouterTest st) = MS_COMPLETED);
          defect = (answer \<and> mapping = STUN_INDEPENDENT \<and> port (sn_defectRouterTest st) \<noteq> port (tests 4))
      in st\<lparr>sn_result := \<lparr>sr_mapping = mapping, sr_filtering = filtering, sr_hasDefectNatAnswer = answer,
              sr_defectNat = defect, sr_extEp = ms_mappedEp (sn_test1 st)\<rparr>,
            sn_state := STUN_COMPLETED, sn_nextEvent := STUN_ET_COMPLETED\<rparr>)"

definition nabto_stun_get_result :: "'m stun \<Rightarrow> stun_result option" where
  "nabto_stun_get_result st = (if sn_state st = STUN_COMPLETED then Some (sn_result st) else None)"

definition nabto_stun_handle_wait_event :: "'m stun \<Rightarrow> 'm stun" where
  "nabto_stun_handle_wait_event st =
     (case sn_state st of
        STUN_INITIAL_TEST \<Rightarrow>
          (let st = st\<lparr>sn_initialTestsSent := 0, sn_nextEvent := STUN_ET_SEND_PRIMARY\<rparr>;
               msg = (sn_test1 st)\<lparr>ms_retransmissions := ms_retransmissions (sn_test1 st) + 1\<rparr>;
               st = st\<lparr>sn_test1 := msg\<rparr>
           in if ms_maxRetransmissions msg \<le> ms_retransmissions msg
              then st\<lparr>sn_state := STUN_FAILED, sn_nextEvent := STUN_ET_FAILED\<rparr> else st)
      | STUN_TESTING \<Rightarrow> nabto_stun_set_next_test st
      | STUN_DEFECT_ROUTER_TEST \<Rightarrow>
          (let msg = sn_defectRouterTest st
           in if ms_maxRetransmissions msg \<le> ms_retransmissions msg
              then nabto_stun_compute_result_and_stop
                (st\<lparr>sn_defectRouterTest := msg\<lparr>ms_state := MS_FAILED\<rparr>, sn_state := STUN_COMPLETED\<rparr>)
              else st\<lparr>sn_nextEvent := STUN_ET_SEND_SECONDARY\<rparr>)
      | _ \<Rightarrow> st\<lparr>sn_nextEvent := STUN_ET_NO_EVENT\<rparr>)"

definition nabto_stun_check_transaction_id :: "stun_message \<Rightarrow> bytes \<Rightarrow> bool" where
  "nabto_stun_check_transaction_id test packet \<longleftrightarrow>
     20 \<le> length packet \<and> take 12 (ms_transactionId test) = take 12 (drop 8 packet)"

definition nabto_stun_init_tests :: "'m stun \<Rightarrow> 'm stun" where
  "nabto_stun_init_tests st =
     (let s1p1 = ms_serverEp (sn_test1 st);
          s1p2 = s1p1\<lparr>ep_port := ep_port (ms_altServerEp (sn_test1 st))\<rparr>;
          s2p1 = (ms_altServerEp (sn_test1 st))\<lparr>ep_port := ep_port (ms_serverEp (sn_test1 st))\<rparr>;
          st = init_test (TESTS 0) False False PRIMARY s1p2 NABTO_STUN_MAX_RETRIES_ACCEPTED st;
          st = init_test (TESTS 1) False False PRIMARY s2p1 NABTO_STUN_MAX_RETRIES_ACCEPTED st;
          st = init_test (TESTS 2) False True SECONDARY s1p1 NABTO_STUN_MAX_RETRIES_DROPPED st;
          st = init_test (TESTS 3) True False SECONDARY s1p1 NABTO_STUN_MAX_RETRIES_DROPPED st;
          st = init_test (TESTS 4) False False SECONDARY s1p1 NABTO_STUN_MAX_RETRIES_ACCEPTED st
      in init_test DEFECT False False SECONDARY s2p1 NABTO_STUN_MAX_RETRIES_ACCEPTED st)"

text \<open>The loop over the five tests that a packet is matched with.\<close>

fun packet_test_loop :: "nat \<Rightarrow> nat \<Rightarrow> bytes \<Rightarrow> 'm stun \<Rightarrow> 'm stun" where
  "packet_test_loop 0 i buf st = st"
| "packet_test_loop (Suc k) i buf st =
     (if nabto_stun_check_transaction_id (sn_tests st ! i) buf then
        (case nabto_stun_decode_message (sn_tests st ! i) buf of
           (True, msg) \<Rightarrow> nabto_stun_set_next_test (set_test (TESTS i) (msg\<lparr>ms_state := MS_COMPLETED\<rparr>) st)
         | (False, msg) \<Rightarrow> packet_test_loop k (Suc i) buf (set_test (TESTS i) msg st))
      else packet_test_loop k (Suc i) buf st)"

definition nabto_stun_handle_packet :: "bytes \<Rightarrow> 'm stun \<Rightarrow> 'm stun" where
  "nabto_stun_handle_packet buf st =
     (case sn_state st of
        STUN_INITIAL_TEST \<Rightarrow>
          (if \<not> nabto_stun_check_transaction_id (sn_test1 st) buf then st
           else (case nabto_stun_decode_message (sn_test1 st) buf of
             (False, msg) \<Rightarrow> st\<lparr>sn_test1 := msg\<rparr>
           | (True, msg) \<Rightarrow>
              (let st = st\<lparr>sn_test1 := msg\<rparr> in
               if ep_port (ms_mappedEp msg) = 0 then st
               else if sn_simple st then
                 st\<lparr>sn_result := (sn_result st)\<lparr>sr_extEp := ms_mappedEp msg\<rparr>, sn_state := STUN_COMPLETED,
                    sn_nextEvent := STUN_ET_COMPLETED, sn_test1 := msg\<lparr>ms_state := MS_COMPLETED\<rparr>\<rparr>
               else if ep_port (ms_serverEp msg) \<noteq> 0 \<or> ep_port (ms_altServerEp msg) \<noteq> 0 then
                 (let st = st\<lparr>sn_result := (sn_result st)\<lparr>sr_extEp := ms_mappedEp msg\<rparr>,
                             sn_state := STUN_TESTING, sn_nextEvent := STUN_ET_SEND_PRIMARY\<rparr>;
                      st = nabto_stun_init_tests st;
                      st = nabto_stun_set_next_test st
                  in st\<lparr>sn_test1 := (sn_test1 st)\<lparr>ms_state := MS_COMPLETED\<rparr>\<rparr>)
               else st)))
      | STUN_TESTING \<Rightarrow> packet_test_loop 5 0 buf st
      | STUN_DEFECT_ROUTER_TEST \<Rightarrow>
          (if nabto_stun_check_transaction_id (sn_defectRouterTest st) buf then
            (case nabto_stun_decode_message (sn_defectRouterTest st) buf of
               (False, msg) \<Rightarrow> st\<lparr>sn_defectRouterTest := msg\<rparr>
             | (True, msg) \<Rightarrow>
                if ep_port (ms_mappedEp msg) = 0 then st\<lparr>sn_defectRouterTest := msg\<rparr>
                else nabto_stun_compute_result_and_stop
                  (st\<lparr>sn_defectRouterTest := msg\<lparr>ms_state := MS_COMPLETED\<rparr>\<rparr>))
           else st)
      | _ \<Rightarrow> st)"

definition nabto_stun_next_event_to_handle :: "'m stun \<Rightarrow> stun_event" where
  "nabto_stun_next_event_to_handle st = sn_nextEvent st"

definition nabto_stun_get_timeout_ms :: "'m stun \<Rightarrow> u32" where
  "nabto_stun_get_timeout_ms st = sn_nextTimeout st"

end
