(* ===== verification/Stun_Props.thy ===== *)
theory Stun_Props
  imports Stun_Client
begin

text \<open>
  Properties of the NAT analysis: the client never follows the null pointer and always has an
  endpoint when it asks to send, and one analysis sends a bounded number of packets.
\<close>

section \<open>What decoding keeps\<close>

definition message_part :: "stun_message \<Rightarrow> stun_message_state \<times> bool \<times> bool \<times> nabto_stun_socket \<times> nn_endpoint \<times> bytes \<times> u32 \<times> u8 \<times> u8" where
  "message_part msg = (ms_state msg, ms_changeAddress msg, ms_changePort msg, ms_sock msg, ms_testEp msg,
     ms_transactionId msg, ms_stamp msg, ms_retransmissions msg, ms_maxRetransmissions msg)"

lemma decode_attribute_part [simp]: "message_part (snd (decode_attribute t val msg)) = message_part msg"
  by (simp add: decode_attribute_def message_part_def split: prod.splits)

lemma decode_attributes_part: "message_part (snd (decode_attributes ptr msg)) = message_part msg"
proof (induction ptr msg rule: decode_attributes.induct)
  case (1 ptr msg)
  have d: "message_part m = message_part msg" if "decode_attribute t v msg = (b, m)" for t v b m
    using decode_attribute_part [of t v msg] that by simp
  show ?case
    by (subst decode_attributes.simps) (auto simp: "1.IH" d simp del: drop_drop length_drop split: option.splits prod.splits bool.splits)
qed

lemma decode_message_part: "message_part (snd (nabto_stun_decode_message msg buf)) = message_part msg"
  by (auto simp: nabto_stun_decode_message_def decode_attributes_part split: option.splits prod.splits)

lemma decode_message_keeps:
  assumes "nabto_stun_decode_message msg buf = (ok, msg')"
  shows "ms_retransmissions msg' = ms_retransmissions msg" "ms_maxRetransmissions msg' = ms_maxRetransmissions msg"
    "ms_state msg' = ms_state msg" "ms_sock msg' = ms_sock msg" "ms_stamp msg' = ms_stamp msg"
    "ms_transactionId msg' = ms_transactionId msg"
  using decode_message_part [of msg buf] assms by (auto simp: message_part_def)

section \<open>Choosing the next test\<close>

text \<open>How often a message may still be sent.\<close>

definition sends_left :: "stun_message \<Rightarrow> nat" where
  "sends_left msg = unat (ms_maxRetransmissions msg) - unat (ms_retransmissions msg)"

definition test_ok :: "stun_message \<Rightarrow> bool" where
  "test_ok msg \<longleftrightarrow> ms_retransmissions msg \<le> ms_maxRetransmissions msg \<and>
     (ms_state msg = MS_NONE \<longrightarrow> ms_retransmissions msg < ms_maxRetransmissions msg)"

lemma sends_left_pos: "ms_retransmissions msg < ms_maxRetransmissions msg \<longleftrightarrow> 0 < sends_left msg"
  by (simp add: sends_left_def word_less_nat_alt)

definition tests_left :: "'m stun \<Rightarrow> nat" where
  "tests_left st = sum_list (map sends_left (sn_tests st))"

lemma sends_left_state [simp]: "sends_left (msg\<lparr>ms_state := s\<rparr>) = sends_left msg"
  by (simp add: sends_left_def)

lemma set_test_simps [simp]:
  "sn_tests (set_test (TESTS i) msg st) = (sn_tests st)[i := msg]"
  "sn_state (set_test r msg st) = sn_state st" "sn_nextTest (set_test r msg st) = sn_nextTest st"
  "sn_nextEvent (set_test r msg st) = sn_nextEvent st" "sn_numEps (set_test r msg st) = sn_numEps st"
  "sn_eps (set_test r msg st) = sn_eps st" "sn_module (set_test r msg st) = sn_module st"
  "sn_defectRouterTest (set_test (TESTS i) msg st) = sn_defectRouterTest st"
  "sn_test1 (set_test (TESTS i) msg st) = sn_test1 st"
  by (cases r; simp add: set_test_def)+

text \<open>Everything that choosing a test leaves alone.\<close>

definition same_run :: "'m stun \<Rightarrow> 'm stun \<Rightarrow> bool" where
  "same_run st st' \<longleftrightarrow> sn_state st' = sn_state st \<and> sn_defectRouterTest st' = sn_defectRouterTest st \<and>
     sn_test1 st' = sn_test1 st \<and> sn_module st' = sn_module st \<and> sn_user st' = sn_user st \<and>
     sn_numEps st' = sn_numEps st \<and> sn_eps st' = sn_eps st \<and> sn_initialTestsSent st' = sn_initialTestsSent st \<and>
     map (\<lambda>t. (message_part (t\<lparr>ms_state := MS_NONE\<rparr>), ms_mappedEp t)) (sn_tests st') =
     map (\<lambda>t. (message_part (t\<lparr>ms_state := MS_NONE\<rparr>), ms_mappedEp t)) (sn_tests st)"

lemma same_run_trans: "same_run a b \<Longrightarrow> same_run b c \<Longrightarrow> same_run a c"
  by (simp add: same_run_def)

lemma same_run_refl [simp]: "same_run a a"
  by (simp add: same_run_def)

lemma same_run_tests:
  assumes "same_run st st'"
  shows "length (sn_tests st') = length (sn_tests st)"
    "j < length (sn_tests st) \<Longrightarrow> ms_retransmissions (sn_tests st' ! j) = ms_retransmissions (sn_tests st ! j)"
    "j < length (sn_tests st) \<Longrightarrow> ms_maxRetransmissions (sn_tests st' ! j) = ms_maxRetransmissions (sn_tests st ! j)"
    "j < length (sn_tests st) \<Longrightarrow> ms_sock (sn_tests st' ! j) = ms_sock (sn_tests st ! j)"
    "tests_left st' = tests_left st" "map sends_left (sn_tests st') = map sends_left (sn_tests st)"
proof -
  note m = assms [unfolded same_run_def]
  show l: "length (sn_tests st') = length (sn_tests st)"
    using m by (auto dest: map_eq_imp_length_eq)
  have "message_part ((sn_tests st' ! j)\<lparr>ms_state := MS_NONE\<rparr>) = message_part ((sn_tests st ! j)\<lparr>ms_state := MS_NONE\<rparr>)"
    if "j < length (sn_tests st)" for j
    using arg_cong [OF conjunct2 [OF conjunct2 [OF conjunct2 [OF conjunct2 [OF conjunct2 [OF conjunct2 [OF conjunct2 [OF conjunct2 [OF m]]]]]]]],
        of "\<lambda>xs. fst (xs ! j)"] that l by simp
  then show r: "j < length (sn_tests st) \<Longrightarrow> ms_retransmissions (sn_tests st' ! j) = ms_retransmissions (sn_tests st ! j)"
    and x: "j < length (sn_tests st) \<Longrightarrow> ms_maxRetransmissions (sn_tests st' ! j) = ms_maxRetransmissions (sn_tests st ! j)"
    and "j < length (sn_tests st) \<Longrightarrow> ms_sock (sn_tests st' ! j) = ms_sock (sn_tests st ! j)" for j
    by (simp_all add: message_part_def)
  then show "map sends_left (sn_tests st') = map sends_left (sn_tests st)"
    by (intro nth_equalityI) (simp_all add: l sends_left_def)
  then show "tests_left st' = tests_left st" by (simp add: tests_left_def)
qed

lemma next_test_step:
  assumes "i < length (sn_tests st)"
  shows "same_run st (next_test_step i st)" "sn_nextEvent (next_test_step i st) = sn_nextEvent st"
    "list_all test_ok (sn_tests st) \<Longrightarrow> list_all test_ok (sn_tests (next_test_step i st))"
    "j \<noteq> i \<Longrightarrow> sn_tests (next_test_step i st) ! j = sn_tests st ! j"
    "ms_state (sn_tests (next_test_step i st) ! i) = MS_SENT \<Longrightarrow>
       0 < sends_left (sn_tests st ! i) \<and> sn_nextTest (next_test_step i st) = Some (TESTS i)"
    "ms_state (sn_tests (next_test_step i st) ! i) \<noteq> MS_SENT \<Longrightarrow> sn_nextTest (next_test_step i st) = sn_nextTest st"
    "ms_state (sn_tests (next_test_step i st) ! i) =
       (if 0 < sends_left (sn_tests st ! i) then ms_state (sn_tests st ! i) else MS_FAILED)"
proof -
  let ?t = "sn_tests st ! i"
  let ?f = "\<lambda>t. (message_part (t\<lparr>ms_state := MS_NONE\<rparr>), ms_mappedEp t)"
  have "map ?f ((sn_tests st)[i := ?t\<lparr>ms_state := MS_FAILED\<rparr>]) = map ?f (sn_tests st)"
    using assms by (intro nth_equalityI) (auto simp: nth_list_update message_part_def)
  then show "same_run st (next_test_step i st)"
    by (simp add: same_run_def next_test_step_def Let_def set_test_def)
  show "list_all test_ok (sn_tests st) \<Longrightarrow> list_all test_ok (sn_tests (next_test_step i st))"
    using assms by (auto simp: next_test_step_def Let_def list_all_length nth_list_update test_ok_def)
qed (use assms in \<open>auto simp: next_test_step_def Let_def sends_left_pos [symmetric] not_less\<close>)

lemma next_test_loop:
  "next_test_loop k i st = (b, st') \<Longrightarrow> i + k \<le> length (sn_tests st) \<Longrightarrow> list_all test_ok (sn_tests st) \<Longrightarrow>
   same_run st st' \<and> list_all test_ok (sn_tests st') \<and>
   (\<forall>j < i. sn_tests st' ! j = sn_tests st ! j) \<and>
   (b \<longrightarrow> (\<exists>j < length (sn_tests st). sn_nextTest st' = Some (TESTS j) \<and> 0 < sends_left (sn_tests st' ! j) \<and>
      sn_nextEvent st' = send_event (sn_tests st' ! j))) \<and>
   (\<not> b \<longrightarrow> (\<forall>j. i \<le> j \<longrightarrow> j < i + k \<longrightarrow> ms_state (sn_tests st' ! j) = MS_SENT \<longrightarrow> 0 < sends_left (sn_tests st' ! j)) \<and>
      (sn_nextTest st' = sn_nextTest st \<or>
       (\<exists>j < i + k. sn_nextTest st' = Some (TESTS j) \<and> ms_state (sn_tests st' ! j) = MS_SENT \<and>
          0 < sends_left (sn_tests st' ! j))))"
proof (induction k arbitrary: i st)
  case (Suc k)
  let ?t = "sn_tests st ! i"
  have i: "i < length (sn_tests st)" using Suc.prems(2) by simp
  show ?case
  proof (cases "ms_state ?t = MS_NONE")
    case True
    then have "0 < sends_left ?t" using Suc.prems(3) i by (auto simp: list_all_length test_ok_def sends_left_pos)
    then show ?thesis using True Suc.prems i by (auto simp: same_run_def)
  next
    case False
    define st1 where "st1 = next_test_step i st"
    note s = next_test_step [OF i, folded st1_def]
    have l: "length (sn_tests st1) = length (sn_tests st)" by (rule same_run_tests(1) [OF s(1)])
    have "next_test_loop k (Suc i) st1 = (b, st')"
      using Suc.prems(1) False by (simp add: st1_def)
    from Suc.IH [OF this] have h: "same_run st1 st'" "list_all test_ok (sn_tests st')"
        "\<forall>j < Suc i. sn_tests st' ! j = sn_tests st1 ! j"
        "b \<longrightarrow> (\<exists>j < length (sn_tests st). sn_nextTest st' = Some (TESTS j) \<and> 0 < sends_left (sn_tests st' ! j) \<and>
           sn_nextEvent st' = send_event (sn_tests st' ! j))"
        "\<not> b \<longrightarrow> (\<forall>j. Suc i \<le> j \<longrightarrow> j < Suc i + k \<longrightarrow> ms_state (sn_tests st' ! j) = MS_SENT \<longrightarrow> 0 < sends_left (sn_tests st' ! j))"
        "\<not> b \<longrightarrow> sn_nextTest st' = sn_nextTest st1 \<or>
          (\<exists>j < Suc i + k. sn_nextTest st' = Some (TESTS j) \<and> ms_state (sn_tests st' ! j) = MS_SENT \<and> 0 < sends_left (sn_tests st' ! j))"
      using s(3) [OF Suc.prems(3)] Suc.prems(2) l by auto
    have sent: "ms_state (sn_tests st' ! i) = MS_SENT \<Longrightarrow>
        0 < sends_left (sn_tests st' ! i) \<and> sn_nextTest st1 = Some (TESTS i)"
      using s(5) h(3) same_run_tests(2,3) [OF s(1) i] by (simp add: sends_left_def)
    have nosent: "ms_state (sn_tests st' ! i) \<noteq> MS_SENT \<Longrightarrow> sn_nextTest st1 = sn_nextTest st"
      using s(6) h(3) by simp
    have below: "\<forall>j < i. sn_tests st' ! j = sn_tests st ! j" using h(3) s(4) by auto
    have all: "\<not> b \<longrightarrow> (\<forall>j. i \<le> j \<longrightarrow> j < i + Suc k \<longrightarrow> ms_state (sn_tests st' ! j) = MS_SENT \<longrightarrow> 0 < sends_left (sn_tests st' ! j))"
      using h(5) sent by (metis Suc_leI add_Suc_right add_Suc le_neq_implies_less)
    have nt: "\<not> b \<longrightarrow> sn_nextTest st' = sn_nextTest st \<or>
       (\<exists>j < i + Suc k. sn_nextTest st' = Some (TESTS j) \<and> ms_state (sn_tests st' ! j) = MS_SENT \<and> 0 < sends_left (sn_tests st' ! j))"
      using h(6) sent nosent by (cases "ms_state (sn_tests st' ! i) = MS_SENT") auto
    show ?thesis using same_run_trans [OF s(1) h(1)] h(2,4) below all nt by blast
  qed
qed simp

lemma oldest_test_loop:
  "oldest_test_loop k i r st = r \<or>
   (\<exists>j < i + k. oldest_test_loop k i r st = TESTS j \<and> ms_state (sn_tests st ! j) = MS_SENT)"
proof (induction k arbitrary: i r)
  case (Suc k)
  show ?case
    using Suc.IH [of "Suc i" "if ms_state (sn_tests st ! i) = MS_SENT \<and>
        ms_stamp (sn_tests st ! i) < ms_stamp (test_at r st) then TESTS i else r"]
    by (auto split: if_splits)
qed simp

section \<open>The invariant\<close>

definition testing_ok :: "'m stun \<Rightarrow> bool" where
  "testing_ok st \<longleftrightarrow> length (sn_tests st) = 5 \<and> list_all test_ok (sn_tests st) \<and>
     ms_maxRetransmissions (sn_defectRouterTest st) = 7"

definition stun_inv :: "'m stun \<Rightarrow> bool" where
  "stun_inv st \<longleftrightarrow> length (sn_tests st) = 5 \<and> (case sn_state st of
     STUN_NOT_STARTED \<Rightarrow> sn_nextEvent st = STUN_ET_NO_EVENT
   | STUN_INITIAL_TEST \<Rightarrow> sn_nextTest st = Some TEST1 \<and> 0 < sn_numEps st \<and> length (sn_eps st) = unat (sn_numEps st) \<and>
       ms_maxRetransmissions (sn_test1 st) = 7 \<and> ms_retransmissions (sn_test1 st) < 7 \<and>
       (sn_nextEvent st = STUN_ET_SEND_PRIMARY \<and> sn_initialTestsSent st < sn_numEps st \<or>
        sn_nextEvent st = STUN_ET_WAIT \<and> sn_initialTestsSent st = sn_numEps st)
   | STUN_TESTING \<Rightarrow> testing_ok st \<and> ms_retransmissions (sn_defectRouterTest st) = 0 \<and>
       (\<exists>i < 5. sn_nextTest st = Some (TESTS i) \<and> 0 < sends_left (sn_tests st ! i) \<and>
          sn_nextEvent st \<in> {send_event (sn_tests st ! i), STUN_ET_WAIT})
   | STUN_DEFECT_ROUTER_TEST \<Rightarrow> testing_ok st \<and>
       (sn_nextEvent st = STUN_ET_SEND_SECONDARY \<and> ms_retransmissions (sn_defectRouterTest st) < 7 \<or>
        sn_nextEvent st = STUN_ET_WAIT \<and> ms_retransmissions (sn_defectRouterTest st) \<le> 7)
   | STUN_COMPLETED \<Rightarrow> sn_nextEvent st \<in> {STUN_ET_COMPLETED, STUN_ET_NO_EVENT}
   | STUN_FAILED \<Rightarrow> sn_nextEvent st \<in> {STUN_ET_FAILED, STUN_ET_NO_EVENT})"

text \<open>How many packets may still be sent.\<close>

definition budget :: "'m stun \<Rightarrow> nat" where
  "budget st = (case sn_state st of
     STUN_INITIAL_TEST \<Rightarrow> sends_left (sn_test1 st) * unat (sn_numEps st) - unat (sn_initialTestsSent st) + 34
   | STUN_TESTING \<Rightarrow> tests_left st + 7
   | STUN_DEFECT_ROUTER_TEST \<Rightarrow> sends_left (sn_defectRouterTest st)
   | _ \<Rightarrow> 0)"

lemma set_next_test_testing:
  assumes "sn_state st = STUN_TESTING" "testing_ok st" "ms_retransmissions (sn_defectRouterTest st) = 0"
  shows "stun_inv (nabto_stun_set_next_test st) \<and> budget (nabto_stun_set_next_test st) \<le> budget st"
proof -
  obtain b st1 where l: "next_test_loop 5 0 (st\<lparr>sn_nextTest := None\<rparr>) = (b, st1)" by fastforce
  have ok: "0 + 5 \<le> length (sn_tests (st\<lparr>sn_nextTest := None\<rparr>))" "list_all test_ok (sn_tests (st\<lparr>sn_nextTest := None\<rparr>))"
    using assms(2) by (auto simp: testing_ok_def)
  note h = next_test_loop [OF l ok]
  have s: "sn_state st1 = STUN_TESTING" "sn_defectRouterTest st1 = sn_defectRouterTest st"
    "sn_module st1 = sn_module st" "sn_user st1 = sn_user st"
    using h assms(1) by (auto simp: same_run_def)
  have t: "length (sn_tests st1) = 5" "tests_left st1 = tests_left st"
    using h same_run_tests(1,5) [of "st\<lparr>sn_nextTest := None\<rparr>" st1] assms(2)
    by (auto simp: testing_ok_def tests_left_def)
  have d: "testing_ok st1" using h t(1) s(2) assms(2) by (simp add: testing_ok_def)
  show ?thesis
  proof (cases b)
    case True
    then have "nabto_stun_set_next_test st = st1"
      using l assms(1) by (simp add: nabto_stun_set_next_test_def Let_def)
    moreover have "\<exists>j < 5. sn_nextTest st1 = Some (TESTS j) \<and> 0 < sends_left (sn_tests st1 ! j) \<and>
        sn_nextEvent st1 = send_event (sn_tests st1 ! j)"
      using h True assms(2) by (auto simp: testing_ok_def)
    ultimately show ?thesis
      using s t d assms by (auto simp: stun_inv_def budget_def)
  next
    case False
    note loop = l [unfolded False] 
    show ?thesis
    proof (cases "sn_nextTest st1")
      case None
      then have "nabto_stun_set_next_test st = st1\<lparr>sn_state := STUN_DEFECT_ROUTER_TEST, sn_nextTest := Some DEFECT,
          sn_nextEvent := STUN_ET_SEND_SECONDARY\<rparr>"
        using loop False assms(1) by (simp add: nabto_stun_set_next_test_def Let_def)
      then show ?thesis
        using s t d assms by (simp add: stun_inv_def budget_def testing_ok_def sends_left_def)
    next
      case (Some r)
      define q where "q = oldest_test_loop 5 0 r st1"
      have r: "\<exists>j < 5. r = TESTS j \<and> ms_state (sn_tests st1 ! j) = MS_SENT"
        using h False Some by auto
      then obtain j where j: "j < 5" "q = TESTS j" "ms_state (sn_tests st1 ! j) = MS_SENT"
        using oldest_test_loop [of 5 0 r st1] by (auto simp: q_def)
      have left: "0 < sends_left (sn_tests st1 ! j)" using h False j(1,3) by auto
      define w where "w = stun_stamp st - ms_stamp (test_at q (st1\<lparr>sn_nextTest := Some q\<rparr>))"
      have e: "nabto_stun_set_next_test st =
          (if NABTO_STUN_SEND_TIMEOUT \<le> w
           then st1\<lparr>sn_nextTest := Some q, sn_nextEvent := send_event (sn_tests st1 ! j), sn_nextTimeout := 0\<rparr>
           else st1\<lparr>sn_nextTest := Some q, sn_nextEvent := STUN_ET_WAIT, sn_nextTimeout := NABTO_STUN_SEND_TIMEOUT - w\<rparr>)"
        using loop False assms(1) Some
        by (simp add: nabto_stun_set_next_test_def Let_def flip: q_def) (simp add: w_def j(2) test_at_def)
      show ?thesis
        using s t d assms j left unfolding e
        by (auto simp: stun_inv_def budget_def testing_ok_def tests_left_def)
    qed
  qed
qed

lemma init_test_simps [simp]:
  "sn_state (init_test r a p sock ep x st) = sn_state st" "sn_numEps (init_test r a p sock ep x st) = sn_numEps st"
  "sn_eps (init_test r a p sock ep x st) = sn_eps st" "sn_nextTest (init_test r a p sock ep x st) = sn_nextTest st"
  "sn_nextEvent (init_test r a p sock ep x st) = sn_nextEvent st"
  "sn_simple (init_test r a p sock ep x st) = sn_simple st"
  "sn_initialTestsSent (init_test r a p sock ep x st) = sn_initialTestsSent st"
  "length (sn_tests (init_test r a p sock ep x st)) = length (sn_tests st)"
  by (cases r; simp add: init_test_def set_test_def split: prod.splits)+

text \<open>What initialising a message leaves in the fields the bounds depend on.\<close>

definition retr_part :: "stun_message \<Rightarrow> stun_message_state \<times> u8 \<times> u8" where
  "retr_part msg = (ms_state msg, ms_retransmissions msg, ms_maxRetransmissions msg)"

lemma retr_part_test_ok: "retr_part msg = (s, 0, x) \<Longrightarrow> 0 < x \<Longrightarrow> test_ok msg \<and> sends_left msg = unat x"
  by (auto simp: retr_part_def test_ok_def sends_left_def)

lemma init_message_part:
  "retr_part (fst (nabto_stun_init_message md a p sock ep x msg m)) = (MS_NONE, 0, x)"
  "ms_mappedEp (fst (nabto_stun_init_message md a p sock ep x msg m)) = ms_mappedEp msg"
  by (simp_all add: nabto_stun_init_message_def Let_def retr_part_def split: prod.splits)

lemma init_test_tests:
  "map retr_part (sn_tests (init_test (TESTS i) a p sock ep x st)) = (map retr_part (sn_tests st))[i := (MS_NONE, 0, x)]"
  "retr_part (sn_defectRouterTest (init_test (TESTS i) a p sock ep x st)) = retr_part (sn_defectRouterTest st)"
  "sn_test1 (init_test (TESTS i) a p sock ep x st) = sn_test1 st"
  "map retr_part (sn_tests (init_test DEFECT a p sock ep x st)) = map retr_part (sn_tests st)"
  "retr_part (sn_defectRouterTest (init_test DEFECT a p sock ep x st)) = (MS_NONE, 0, x)"
  "sn_test1 (init_test DEFECT a p sock ep x st) = sn_test1 st"
  using init_message_part(1) [of "sn_module st" a p sock ep x _ "sn_user st"]
  by (auto simp: init_test_def set_test_def map_update split: prod.splits)
    (metis fst_conv)+

lemma init_tests:
  assumes "length (sn_tests st) = 5"
  shows "testing_ok (nabto_stun_init_tests st)" "tests_left (nabto_stun_init_tests st) = 27"
    "ms_retransmissions (sn_defectRouterTest (nabto_stun_init_tests st)) = 0"
    "sn_state (nabto_stun_init_tests st) = sn_state st"
proof -
  have t: "map retr_part (sn_tests (nabto_stun_init_tests st)) =
      [(MS_NONE, 0, 7), (MS_NONE, 0, 7), (MS_NONE, 0, 3), (MS_NONE, 0, 3), (MS_NONE, 0, 7)]"
    "retr_part (sn_defectRouterTest (nabto_stun_init_tests st)) = (MS_NONE, 0, 7)"
    using assms by (auto simp: nabto_stun_init_tests_def Let_def init_test_tests length_Suc_conv numeral_eq_Suc)
  have l: "length (sn_tests (nabto_stun_init_tests st)) = 5"
    using arg_cong [OF t(1), of length] by simp
  have p: "i < 5 \<Longrightarrow> retr_part (sn_tests (nabto_stun_init_tests st) ! i) =
      [(MS_NONE, 0, 7), (MS_NONE, 0, 7), (MS_NONE, 0, 3), (MS_NONE, 0, 3), (MS_NONE, 0, 7)] ! i" for i
    using arg_cong [OF t(1), of "\<lambda>xs. xs ! i"] l by simp
  obtain a b c d e where s: "sn_tests (nabto_stun_init_tests st) = [a, b, c, d, e]"
    using l by (auto simp: length_Suc_conv numeral_eq_Suc)
  have "retr_part a = (MS_NONE, 0, 7)" "retr_part b = (MS_NONE, 0, 7)" "retr_part c = (MS_NONE, 0, 3)"
      "retr_part d = (MS_NONE, 0, 3)" "retr_part e = (MS_NONE, 0, 7)"
    using t(1) by (simp_all add: s)
  note k = this [THEN retr_part_test_ok]
  show "testing_ok (nabto_stun_init_tests st)"
    using k t(2) by (simp add: testing_ok_def s retr_part_def)
  show "tests_left (nabto_stun_init_tests st) = 27"
    using k by (simp add: tests_left_def s)
  show "ms_retransmissions (sn_defectRouterTest (nabto_stun_init_tests st)) = 0"
    using t(2) by (simp add: retr_part_def)
  show "sn_state (nabto_stun_init_tests st) = sn_state st"
    by (simp add: nabto_stun_init_tests_def Let_def)
qed

lemma update_test_ok:
  assumes "testing_ok st" "i < 5" "retr_part msg = (s, ms_retransmissions (sn_tests st ! i), ms_maxRetransmissions (sn_tests st ! i))"
    "s \<noteq> MS_NONE \<or> s = ms_state (sn_tests st ! i)"
  shows "testing_ok (set_test (TESTS i) msg st)" "tests_left (set_test (TESTS i) msg st) = tests_left st"
proof -
  have t: "length (sn_tests st) = 5" "test_ok (sn_tests st ! i)"
    using assms(1,2) by (auto simp: testing_ok_def list_all_length)
  then have "test_ok msg" using assms(3,4) by (auto simp: test_ok_def retr_part_def)
  then show "testing_ok (set_test (TESTS i) msg st)"
    using assms(1,2) by (auto simp: testing_ok_def list_all_length nth_list_update)
  have "sends_left msg = sends_left (sn_tests st ! i)"
    using assms(3) by (simp add: sends_left_def retr_part_def)
  then have "map sends_left ((sn_tests st)[i := msg]) = map sends_left (sn_tests st)"
    using t(1) assms(2) by (intro nth_equalityI) (auto simp: nth_list_update)
  then show "tests_left (set_test (TESTS i) msg st) = tests_left st"
    by (simp add: tests_left_def)
qed

lemma set_test_inv:
  assumes "stun_inv st" "sn_state st = STUN_TESTING" "i < 5"
    "retr_part msg = retr_part (sn_tests st ! i)" "ms_sock msg = ms_sock (sn_tests st ! i)"
  shows "stun_inv (set_test (TESTS i) msg st)" "budget (set_test (TESTS i) msg st) = budget st"
proof -
  have t: "testing_ok st" "length (sn_tests st) = 5" using assms(1,2) by (auto simp: stun_inv_def testing_ok_def)
  have u: "testing_ok (set_test (TESTS i) msg st)" "tests_left (set_test (TESTS i) msg st) = tests_left st"
    using update_test_ok [OF t(1) assms(3), of msg "ms_state (sn_tests st ! i)"] assms(4)
    by (auto simp: retr_part_def)
  have "sends_left msg = sends_left (sn_tests st ! i)" "send_event msg = send_event (sn_tests st ! i)"
    using assms(4,5) by (simp_all add: sends_left_def retr_part_def send_event_def)
  then have "\<forall>j < 5. sends_left ((sn_tests st)[i := msg] ! j) = sends_left (sn_tests st ! j) \<and>
      send_event ((sn_tests st)[i := msg] ! j) = send_event (sn_tests st ! j)"
    using t(2) assms(3) by (simp add: nth_list_update)
  then show "stun_inv (set_test (TESTS i) msg st)" "budget (set_test (TESTS i) msg st) = budget st"
    using assms(1,2) u t(2) by (auto simp: stun_inv_def budget_def)
qed

lemma packet_test_loop_inv:
  "stun_inv st \<Longrightarrow> sn_state st = STUN_TESTING \<Longrightarrow> i + k \<le> 5 \<Longrightarrow>
   stun_inv (packet_test_loop k i buf st) \<and> budget (packet_test_loop k i buf st) \<le> budget st"
proof (induction k arbitrary: i st)
  case (Suc k)
  show ?case
  proof (cases "nabto_stun_check_transaction_id (sn_tests st ! i) buf")
    case True
    obtain ok msg where d: "nabto_stun_decode_message (sn_tests st ! i) buf = (ok, msg)" by fastforce
    note p = decode_message_keeps [OF d]
    show ?thesis
    proof (cases ok)
      case True
      have "testing_ok st" "ms_retransmissions (sn_defectRouterTest st) = 0"
        using Suc.prems(1,2) by (auto simp: stun_inv_def)
      note u = update_test_ok [OF this(1), of i "msg\<lparr>ms_state := MS_COMPLETED\<rparr>" MS_COMPLETED] this
      have "stun_inv (nabto_stun_set_next_test (set_test (TESTS i) (msg\<lparr>ms_state := MS_COMPLETED\<rparr>) st)) \<and>
          budget (nabto_stun_set_next_test (set_test (TESTS i) (msg\<lparr>ms_state := MS_COMPLETED\<rparr>) st)) \<le>
          budget (set_test (TESTS i) (msg\<lparr>ms_state := MS_COMPLETED\<rparr>) st)"
        using u Suc.prems p by (intro set_next_test_testing) (auto simp: retr_part_def)
      moreover have "budget (set_test (TESTS i) (msg\<lparr>ms_state := MS_COMPLETED\<rparr>) st) = budget st"
        using u(2) Suc.prems p by (simp add: budget_def retr_part_def)
      ultimately show ?thesis using True d \<open>nabto_stun_check_transaction_id (sn_tests st ! i) buf\<close> by simp
    next
      case False
      have "stun_inv (set_test (TESTS i) msg st)" "budget (set_test (TESTS i) msg st) = budget st"
        using set_test_inv [OF Suc.prems(1,2), of i msg] Suc.prems(3) p by (auto simp: retr_part_def)
      then show ?thesis
        using Suc.IH [of "set_test (TESTS i) msg st" "Suc i"] Suc.prems d False
          \<open>nabto_stun_check_transaction_id (sn_tests st ! i) buf\<close> by simp
    qed
  next
    case False
    then show ?thesis using Suc.IH [of st "Suc i"] Suc.prems by simp
  qed
qed simp

lemma compute_result_inv:
  "length (sn_tests st) = 5 \<Longrightarrow> stun_inv (nabto_stun_compute_result_and_stop st) \<and>
   budget (nabto_stun_compute_result_and_stop st) = 0"
  by (simp add: stun_inv_def budget_def nabto_stun_compute_result_and_stop_def Let_def)

lemma stun_packet_inv:
  assumes "stun_inv st"
  shows "stun_inv (nabto_stun_handle_packet buf st) \<and> budget (nabto_stun_handle_packet buf st) \<le> budget st"
proof (cases "sn_state st")
  case STUN_INITIAL_TEST
  obtain ok msg where d: "nabto_stun_decode_message (sn_test1 st) buf = (ok, msg)" by fastforce
  note p = decode_message_keeps [OF d]
  define st1 where "st1 = st\<lparr>sn_test1 := msg, sn_result := (sn_result st)\<lparr>sr_extEp := ms_mappedEp msg\<rparr>,
      sn_state := STUN_TESTING, sn_nextEvent := STUN_ET_SEND_PRIMARY\<rparr>"
  have l: "length (sn_tests st1) = 5" using assms by (simp add: stun_inv_def st1_def)
  note it = init_tests [OF l]
  have "stun_inv (nabto_stun_set_next_test (nabto_stun_init_tests st1)) \<and>
      budget (nabto_stun_set_next_test (nabto_stun_init_tests st1)) \<le> budget (nabto_stun_init_tests st1)"
    using it by (intro set_next_test_testing) (auto simp: st1_def)
  moreover have "budget (nabto_stun_init_tests st1) = 34"
    using it by (simp add: budget_def st1_def)
  moreover have "stun_inv (s\<lparr>sn_test1 := (sn_test1 s)\<lparr>ms_state := x\<rparr>\<rparr>) = stun_inv s"
      "budget (s\<lparr>sn_test1 := (sn_test1 s)\<lparr>ms_state := x\<rparr>\<rparr>) = budget s" for s :: "'a stun" and x
    by (simp_all add: stun_inv_def budget_def testing_ok_def tests_left_def split: stun_state.splits)
  moreover have "34 \<le> budget st" using STUN_INITIAL_TEST by (simp add: budget_def)
  ultimately show ?thesis
    using assms STUN_INITIAL_TEST d p
    by (auto simp: nabto_stun_handle_packet_def Let_def st1_def [symmetric] split: bool.splits)
      (auto simp: stun_inv_def budget_def sends_left_def)
next
  case STUN_TESTING
  then show ?thesis using packet_test_loop_inv [OF assms, of 0 5 buf] by (simp add: nabto_stun_handle_packet_def)
next
  case STUN_DEFECT_ROUTER_TEST
  obtain ok msg where d: "nabto_stun_decode_message (sn_defectRouterTest st) buf = (ok, msg)" by fastforce
  note p = decode_message_keeps [OF d]
  have i: "stun_inv (st\<lparr>sn_defectRouterTest := msg\<rparr>)" "budget (st\<lparr>sn_defectRouterTest := msg\<rparr>) = budget st"
    using assms STUN_DEFECT_ROUTER_TEST p
    by (auto simp: stun_inv_def budget_def testing_ok_def sends_left_def)
  have "stun_inv (nabto_stun_compute_result_and_stop (st\<lparr>sn_defectRouterTest := x\<rparr>)) \<and>
      budget (nabto_stun_compute_result_and_stop (st\<lparr>sn_defectRouterTest := x\<rparr>)) = 0" for x
    using assms by (intro compute_result_inv) (simp add: stun_inv_def)
  then show ?thesis
    using i STUN_DEFECT_ROUTER_TEST assms d by (auto simp: nabto_stun_handle_packet_def split: bool.splits)
qed (use assms in \<open>simp_all add: nabto_stun_handle_packet_def\<close>)

text \<open>The client asks for a packet to be sent, on either socket.\<close>

definition wants_send :: "'m stun \<Rightarrow> bool" where
  "wants_send st \<longleftrightarrow> nabto_stun_next_event_to_handle st \<in> {STUN_ET_SEND_PRIMARY, STUN_ET_SEND_SECONDARY}"

lemma unat_Suc_less: "(a :: u8) < b \<Longrightarrow> unat (a + 1) = Suc (unat a)"
  using unat_u8_less [of b] by (simp add: word_less_nat_alt unat_word_ariths del: unat_u8_less)

lemma sends_left_sent:
  "0 < sends_left msg \<Longrightarrow> sends_left (msg\<lparr>ms_stamp := t, ms_state := s, ms_retransmissions := ms_retransmissions msg + 1\<rparr>) + 1 = sends_left msg"
proof -
  assume "0 < sends_left msg"
  then have r: "ms_retransmissions msg < ms_maxRetransmissions msg" by (simp add: sends_left_pos)
  have "unat (ms_retransmissions msg) < unat (ms_maxRetransmissions msg)"
    using r by (simp only: word_less_nat_alt)
  then show ?thesis by (simp add: sends_left_def unat_Suc_less [OF r])
qed

lemma sum_list_replace:
  "i < length xs \<Longrightarrow> sum_list (xs[i := a]) + xs ! i = sum_list xs + (a :: nat)"
  by (induction xs arbitrary: i) (auto split: nat.splits)

lemma get_send_data_inv:
  assumes "stun_inv st" "wants_send st" "nabto_stun_get_send_data sz st = Some (ret, st')"
  shows "stun_inv st' \<and> budget st' + 1 \<le> budget st"
proof (cases "sn_state st")
  case STUN_INITIAL_TEST
  have i: "sn_initialTestsSent st < sn_numEps st" "sn_nextEvent st = STUN_ET_SEND_PRIMARY"
      "0 < sends_left (sn_test1 st)"
    using assms(1,2) STUN_INITIAL_TEST
    by (auto simp: stun_inv_def wants_send_def nabto_stun_next_event_to_handle_def sends_left_pos [symmetric])
  have n: "unat (sn_initialTestsSent st + 1) = Suc (unat (sn_initialTestsSent st))"
    by (rule unat_Suc_less [OF i(1)])
  have e: "uint (sn_initialTestsSent st) = uint (sn_numEps st) - 1 \<longleftrightarrow> sn_initialTestsSent st + 1 = sn_numEps st"
  proof -
    have "uint (sn_initialTestsSent st) = uint (sn_numEps st) - 1 \<longleftrightarrow> unat (sn_initialTestsSent st) + 1 = unat (sn_numEps st)"
      unfolding uint_nat by linarith
    also have "\<dots> \<longleftrightarrow> sn_initialTestsSent st + 1 = sn_numEps st"
      by (simp add: word_unat_eq_iff n)
    finally show ?thesis .
  qed
  have less: "sn_initialTestsSent st + 1 < sn_numEps st" if "sn_initialTestsSent st + 1 \<noteq> sn_numEps st"
    using that i(1) by (auto simp: word_less_nat_alt word_unat_eq_iff n)
  have "unat (sn_initialTestsSent st) < unat (sn_numEps st)" using i(1) by (simp add: word_less_nat_alt)
  also have "\<dots> \<le> sends_left (sn_test1 st) * unat (sn_numEps st)" using i(3) by simp
  finally have b: "unat (sn_initialTestsSent st) < sends_left (sn_test1 st) * unat (sn_numEps st)" .
  have st': "sn_state st' = STUN_INITIAL_TEST" "sn_numEps st' = sn_numEps st" "sn_eps st' = sn_eps st"
      "sn_initialTestsSent st' = sn_initialTestsSent st + 1" "sn_nextTest st' = Some TEST1" "sn_tests st' = sn_tests st"
      "ms_retransmissions (sn_test1 st') = ms_retransmissions (sn_test1 st)"
      "ms_maxRetransmissions (sn_test1 st') = ms_maxRetransmissions (sn_test1 st)"
      "sn_nextEvent st' = (if sn_initialTestsSent st + 1 = sn_numEps st then STUN_ET_WAIT else sn_nextEvent st)"
    using assms(3) STUN_INITIAL_TEST i(1)
    by (auto simp: nabto_stun_get_send_data_def nabto_stun_set_next_test_def Let_def e)
  show ?thesis
    using assms(1) STUN_INITIAL_TEST st' i(2) less b n
    by (auto simp: stun_inv_def budget_def sends_left_def)
next
  case STUN_TESTING
  then obtain i where i: "i < 5" "sn_nextTest st = Some (TESTS i)" "0 < sends_left (sn_tests st ! i)"
    using assms(1) by (auto simp: stun_inv_def)
  have t: "testing_ok st" "ms_retransmissions (sn_defectRouterTest st) = 0"
    using assms(1) STUN_TESTING by (auto simp: stun_inv_def)
  define msg where "msg = (sn_tests st ! i)\<lparr>ms_stamp := stun_stamp st, ms_state := MS_SENT,
      ms_retransmissions := ms_retransmissions (sn_tests st ! i) + 1\<rparr>"
  define st1 where "st1 = set_test (TESTS i) msg st"
  have st': "st' = nabto_stun_set_next_test st1"
    using assms(3) STUN_TESTING i(2)
    by (simp add: nabto_stun_get_send_data_def Let_def test_at_def st1_def msg_def)
  have len: "length (sn_tests st) = 5" using t(1) by (simp add: testing_ok_def)
  have sl: "sends_left msg + 1 = sends_left (sn_tests st ! i)"
    unfolding msg_def by (rule sends_left_sent [OF i(3)])
  have r: "ms_retransmissions (sn_tests st ! i) < ms_maxRetransmissions (sn_tests st ! i)"
    using i(3) by (simp add: sends_left_pos)
  then have "test_ok msg" by (simp add: test_ok_def msg_def inc_le)
  then have ok: "testing_ok st1"
    using t(1) i(1) by (auto simp: testing_ok_def st1_def list_all_length nth_list_update)
  have "tests_left st1 + 1 = tests_left st"
    using sum_list_replace [of i "map sends_left (sn_tests st)" "sends_left msg"] sl i(1) len
    by (simp add: tests_left_def st1_def map_update)
  moreover have "stun_inv st' \<and> budget st' \<le> budget st1"
    unfolding st' using ok t(2) STUN_TESTING by (intro set_next_test_testing) (auto simp: st1_def)
  ultimately show ?thesis using STUN_TESTING by (simp add: budget_def st1_def)
next
  case STUN_DEFECT_ROUTER_TEST
  then have d: "0 < sends_left (sn_defectRouterTest st)" "testing_ok st" "length (sn_tests st) = 5"
    using assms(1,2) by (auto simp: stun_inv_def wants_send_def nabto_stun_next_event_to_handle_def
        testing_ok_def sends_left_pos [symmetric])
  have "ms_retransmissions (sn_defectRouterTest st) + 1 \<le> 7"
    using d(1,2) by (simp add: sends_left_pos [symmetric] testing_ok_def inc_le)
  then show ?thesis
    using assms(1,3) STUN_DEFECT_ROUTER_TEST d(2,3)
      sends_left_sent [OF d(1), where t = "stun_stamp st" and s = MS_SENT]
    by (auto simp: stun_inv_def budget_def nabto_stun_get_send_data_def Let_def testing_ok_def)
qed (use assms in \<open>auto simp: stun_inv_def wants_send_def nabto_stun_next_event_to_handle_def\<close>)

lemma get_send_data_defined: "stun_inv st \<Longrightarrow> nabto_stun_get_send_data sz st \<noteq> None"
  by (auto simp: stun_inv_def nabto_stun_get_send_data_def Let_def split: stun_state.splits)

lemma get_data_endpoint_defined:
  assumes "stun_inv st"
  shows "nabto_stun_get_data_endpoint st \<noteq> None" "wants_send st \<Longrightarrow> \<exists>ep. nabto_stun_get_data_endpoint st = Some (Some ep)"
  using assms
  by (auto simp: stun_inv_def nabto_stun_get_data_endpoint_def wants_send_def nabto_stun_next_event_to_handle_def
      not_le split: stun_state.splits)

lemma handle_wait_inv:
  assumes "stun_inv st" "nabto_stun_next_event_to_handle st = STUN_ET_WAIT"
  shows "stun_inv (nabto_stun_handle_wait_event st) \<and> budget (nabto_stun_handle_wait_event st) \<le> budget st"
proof (cases "sn_state st")
  case STUN_INITIAL_TEST
  have i: "sn_initialTestsSent st = sn_numEps st" "0 < sends_left (sn_test1 st)" "ms_maxRetransmissions (sn_test1 st) = 7"
    using assms STUN_INITIAL_TEST
    by (auto simp: stun_inv_def nabto_stun_next_event_to_handle_def sends_left_pos [symmetric])
  define msg where "msg = (sn_test1 st)\<lparr>ms_retransmissions := ms_retransmissions (sn_test1 st) + 1\<rparr>"
  have m: "sends_left msg + 1 = sends_left (sn_test1 st)" "ms_maxRetransmissions msg = 7"
    using sends_left_sent [OF i(2)] i(3) by (simp_all add: sends_left_def msg_def)
  have "sends_left msg * unat (sn_numEps st) + unat (sn_numEps st) = sends_left (sn_test1 st) * unat (sn_numEps st)"
    unfolding m(1) [symmetric] by simp
  moreover have "\<not> ms_maxRetransmissions msg \<le> ms_retransmissions msg \<Longrightarrow> ms_retransmissions msg < 7"
    using m(2) by simp
  moreover have "nabto_stun_handle_wait_event st =
      (if ms_maxRetransmissions msg \<le> ms_retransmissions msg
       then st\<lparr>sn_initialTestsSent := 0, sn_test1 := msg, sn_state := STUN_FAILED, sn_nextEvent := STUN_ET_FAILED\<rparr>
       else st\<lparr>sn_initialTestsSent := 0, sn_nextEvent := STUN_ET_SEND_PRIMARY, sn_test1 := msg\<rparr>)"
    using STUN_INITIAL_TEST by (simp add: nabto_stun_handle_wait_event_def Let_def msg_def)
  ultimately show ?thesis
    using assms STUN_INITIAL_TEST i(1) m(2) by (auto simp: stun_inv_def budget_def)
next
  case STUN_TESTING
  then show ?thesis
    using assms set_next_test_testing [of st] by (simp add: nabto_stun_handle_wait_event_def stun_inv_def)
next
  case STUN_DEFECT_ROUTER_TEST
  have c: "stun_inv (nabto_stun_compute_result_and_stop (st\<lparr>sn_defectRouterTest := x, sn_state := STUN_COMPLETED\<rparr>)) \<and>
      budget (nabto_stun_compute_result_and_stop (st\<lparr>sn_defectRouterTest := x, sn_state := STUN_COMPLETED\<rparr>)) = 0" for x
    using assms(1) by (intro compute_result_inv) (simp add: stun_inv_def)
  show ?thesis
  proof (cases "ms_maxRetransmissions (sn_defectRouterTest st) \<le> ms_retransmissions (sn_defectRouterTest st)")
    case True
    then show ?thesis using STUN_DEFECT_ROUTER_TEST c by (simp add: nabto_stun_handle_wait_event_def Let_def)
  next
    case False
    then show ?thesis
      using assms STUN_DEFECT_ROUTER_TEST
      by (simp add: nabto_stun_handle_wait_event_def stun_inv_def budget_def testing_ok_def)
  qed
qed (use assms in \<open>auto simp: stun_inv_def nabto_stun_next_event_to_handle_def\<close>)

section \<open>Runs of one analysis\<close>

text \<open>
  What can happen between the start of an analysis and the next one: the application sends when it
  is asked to, reports a timeout when it was told to wait, hands in packets of any content at any
  time, and the clock moves.  The number counts the packets sent.
\<close>

inductive stun_run :: "'m stun \<Rightarrow> nat \<Rightarrow> 'm stun \<Rightarrow> bool" where
  run_start: "stun_run st 0 st"
| run_send: "stun_run st n st1 \<Longrightarrow> wants_send st1 \<Longrightarrow> nabto_stun_get_send_data sz st1 = Some (ret, st2) \<Longrightarrow>
    stun_run st (Suc n) st2"
| run_wait: "stun_run st n st1 \<Longrightarrow> nabto_stun_next_event_to_handle st1 = STUN_ET_WAIT \<Longrightarrow>
    stun_run st n (nabto_stun_handle_wait_event st1)"
| run_packet: "stun_run st n st1 \<Longrightarrow> stun_run st n (nabto_stun_handle_packet buf st1)"
| run_clock: "stun_run st n st1 \<Longrightarrow> stun_run st n (st1\<lparr>sn_user := m\<rparr>)"

lemma user_irrelevant [simp]: "stun_inv (st\<lparr>sn_user := m\<rparr>) = stun_inv st" "budget (st\<lparr>sn_user := m\<rparr>) = budget st"
  by (cases "sn_state st"; simp add: stun_inv_def budget_def testing_ok_def tests_left_def)+

lemma stun_run_inv: "stun_run st n st' \<Longrightarrow> stun_inv st \<Longrightarrow> stun_inv st' \<and> n + budget st' \<le> budget st"
proof (induction rule: stun_run.induct)
  case (run_send st n st1 sz ret st2)
  then show ?case using get_send_data_inv [of st1 sz ret st2] by linarith
next
  case (run_wait st n st1)
  then show ?case using handle_wait_inv [of st1] by linarith
next
  case (run_packet st n st1 buf)
  then show ?case using stun_packet_inv [of st1 buf] by linarith
qed simp_all

text \<open>A client that was initialised with endpoints: their number is the one the application gave.\<close>

definition client_ok :: "'m stun \<Rightarrow> bool" where
  "client_ok st \<longleftrightarrow> length (sn_tests st) = 5 \<and> sn_eps st \<noteq> [] \<and> length (sn_eps st) = unat (sn_numEps st)"

lemma analyze_inv:
  assumes "client_ok st0" "nabto_stun_async_analyze simple st0 = Some st"
  shows "stun_inv st" "budget st = 7 * length (sn_eps st0) + 34" "sn_state st = STUN_INITIAL_TEST"
    "sends_left (sn_test1 st) = 7" "sn_numEps st = sn_numEps st0" "sn_initialTestsSent st = 0"
    "ms_mappedEp (sn_test1 st) = ms_mappedEp (sn_test1 st0)"
    "sn_simple st = simple"
proof -
  obtain ep eps where eps: "sn_eps st0 = ep # eps" using assms(1) by (cases "sn_eps st0") (auto simp: client_ok_def)
  define st1 where "st1 = st0\<lparr>sn_result := zero_result, sn_simple := simple, sn_nextEvent := STUN_ET_SEND_PRIMARY,
      sn_state := STUN_INITIAL_TEST, sn_initialTestsSent := 0, sn_nextTimeout := NABTO_STUN_SEND_TIMEOUT,
      sn_nextTest := Some TEST1\<rparr>"
  have st: "st = init_test TEST1 False False PRIMARY ep 7 st1"
    using assms(2) eps by (simp add: nabto_stun_async_analyze_def st1_def)
  have r: "retr_part (sn_test1 st) = (MS_NONE, 0, 7)" "ms_mappedEp (sn_test1 st) = ms_mappedEp (sn_test1 st0)"
    using init_message_part [of "sn_module st1" False False PRIMARY ep 7 "sn_test1 st1" "sn_user st1"]
    by (auto simp: st init_test_def test_at_def set_test_def st1_def split: prod.splits)
  show "ms_mappedEp (sn_test1 st) = ms_mappedEp (sn_test1 st0)" by (rule r(2))
  show l: "sends_left (sn_test1 st) = 7" using retr_part_test_ok [OF r(1)] by simp
  show s: "sn_state st = STUN_INITIAL_TEST" "sn_numEps st = sn_numEps st0" "sn_initialTestsSent st = 0"
      "sn_simple st = simple"
    by (simp_all add: st st1_def)
  have n: "0 < sn_numEps st0" "length (sn_eps st0) = unat (sn_numEps st0)"
    using assms(1) eps by (auto simp: client_ok_def word_gt_0 unat_eq_0 [symmetric])
  show "stun_inv st"
    using assms(1) n s r(1) by (simp add: stun_inv_def client_ok_def retr_part_def) (simp add: st st1_def)
  show "budget st = 7 * length (sn_eps st0) + 34"
    using n l s by (simp add: budget_def)
qed

text \<open>C34: an analysis always has something to send when it asks to send.  At every point of every run the
  request and its endpoint can be taken without following the null pointer, and when the client asks
  for a packet to be sent there is an endpoint to send it to.\<close>

theorem stun_never_null:
  assumes "client_ok st0" "nabto_stun_async_analyze simple st0 = Some st" "stun_run st n st'"
  shows "nabto_stun_get_data_endpoint st' \<noteq> None \<and> nabto_stun_get_send_data sz st' \<noteq> None \<and>
    (nabto_stun_next_event_to_handle st' \<in> {STUN_ET_SEND_PRIMARY, STUN_ET_SEND_SECONDARY} \<longrightarrow>
       (\<exists>ep. nabto_stun_get_data_endpoint st' = Some (Some ep)))"
proof -
  have "stun_inv st'" using stun_run_inv [OF assms(3) analyze_inv(1) [OF assms(1,2)]] by simp
  then show ?thesis
    using get_data_endpoint_defined [of st'] get_send_data_defined [of st' sz] by (auto simp: wants_send_def)
qed

text \<open>One analysis sends a bounded number of packets, whatever is received and whenever timeouts are
  reported: at most seven to every endpoint, at most 27 for the five tests and seven for the test of
  the router.\<close>

theorem stun_sends_bounded:
  assumes "client_ok st0" "nabto_stun_async_analyze simple st0 = Some st" "stun_run st n st'"
  shows "n \<le> 7 * length (sn_eps st0) + 34"
  using stun_run_inv [OF assms(3) analyze_inv(1) [OF assms(1,2)]] analyze_inv(2) [OF assms(1,2)] by linarith

end
