(* ===== verification/Stun_Outcome.thy ===== *)
theory Stun_Outcome
  imports Stun_Props
begin

text \<open>
  How an analysis ends: the exact schedule of one that nobody answers, and two answers that the
  analysis gets wrong.
\<close>

section \<open>Silence\<close>

text \<open>The application does what the next event says, and no packet arrives.\<close>

definition drive :: "nat \<Rightarrow> 'm stun \<Rightarrow> 'm stun" where
  "drive sz st =
     (if wants_send st then (case nabto_stun_get_send_data sz st of None \<Rightarrow> st | Some (ret, st) \<Rightarrow> st)
      else if nabto_stun_next_event_to_handle st = STUN_ET_WAIT then nabto_stun_handle_wait_event st
      else st)"

definition steps_left :: "'m stun \<Rightarrow> nat" where
  "steps_left st = sends_left (sn_test1 st) * (unat (sn_numEps st) + 1) - unat (sn_initialTestsSent st)"

lemma drive_initial:
  assumes "stun_inv st" "sn_state st = STUN_INITIAL_TEST"
  shows "steps_left st = 1 \<and> sn_state (drive sz st) = STUN_FAILED \<and> sn_nextEvent (drive sz st) = STUN_ET_FAILED \<or>
    stun_inv (drive sz st) \<and> sn_state (drive sz st) = STUN_INITIAL_TEST \<and> steps_left (drive sz st) + 1 = steps_left st"
proof (cases "wants_send st")
  case True
  then have i: "sn_initialTestsSent st < sn_numEps st" "0 < sends_left (sn_test1 st)"
    using assms by (auto simp: stun_inv_def wants_send_def nabto_stun_next_event_to_handle_def sends_left_pos [symmetric])
  obtain ret st' where e: "nabto_stun_get_send_data sz st = Some (ret, st')"
    using get_send_data_defined [OF assms(1), of sz] by auto
  then have "sn_state st' = STUN_INITIAL_TEST" "sn_initialTestsSent st' = sn_initialTestsSent st + 1"
      "sn_numEps st' = sn_numEps st" "sends_left (sn_test1 st') = sends_left (sn_test1 st)"
    using assms(2) i(1)
    by (auto simp: nabto_stun_get_send_data_def nabto_stun_set_next_test_def Let_def sends_left_def)
  moreover have "unat (sn_initialTestsSent st) < sends_left (sn_test1 st) * (unat (sn_numEps st) + 1)"
  proof -
    have "unat (sn_initialTestsSent st) < 1 * (unat (sn_numEps st) + 1)"
      using i(1) by (simp add: word_less_nat_alt)
    also have "\<dots> \<le> sends_left (sn_test1 st) * (unat (sn_numEps st) + 1)"
      using i(2) by (intro mult_right_mono) auto
    finally show ?thesis .
  qed
  ultimately show ?thesis
    using get_send_data_inv [OF assms(1) True e] True e unat_Suc_less [OF i(1)]
    by (simp add: drive_def steps_left_def)
next
  case False
  then have w: "nabto_stun_next_event_to_handle st = STUN_ET_WAIT" "sn_initialTestsSent st = sn_numEps st"
      "0 < sends_left (sn_test1 st)" "ms_maxRetransmissions (sn_test1 st) = 7"
    using assms by (auto simp: stun_inv_def wants_send_def nabto_stun_next_event_to_handle_def sends_left_pos [symmetric])
  define msg where "msg = (sn_test1 st)\<lparr>ms_retransmissions := ms_retransmissions (sn_test1 st) + 1\<rparr>"
  have m: "sends_left msg + 1 = sends_left (sn_test1 st)"
    using sends_left_sent [OF w(3)] by (simp add: sends_left_def msg_def)
  have d: "drive sz st = nabto_stun_handle_wait_event st" using False w(1) by (simp add: drive_def)
  show ?thesis
  proof (cases "sends_left msg = 0")
    case True
    then have "\<not> ms_retransmissions msg < ms_maxRetransmissions msg" by (simp add: sends_left_pos)
    moreover have "sends_left (sn_test1 st) = 1" using m True by simp
    then have "steps_left st = 1" using w(2) by (simp add: steps_left_def)
    ultimately show ?thesis
      using assms(2) unfolding d by (simp add: nabto_stun_handle_wait_event_def Let_def msg_def not_less)
  next
    case False
    then have "\<not> ms_maxRetransmissions msg \<le> ms_retransmissions msg" by (simp add: not_le sends_left_pos)
    then have h: "nabto_stun_handle_wait_event st =
        st\<lparr>sn_initialTestsSent := 0, sn_nextEvent := STUN_ET_SEND_PRIMARY, sn_test1 := msg\<rparr>"
      using assms(2) by (simp add: nabto_stun_handle_wait_event_def Let_def msg_def)
    then show ?thesis
      using handle_wait_inv [OF assms(1) w(1)] assms(2) w(2) unfolding d h
      by (simp add: steps_left_def flip: m)
  qed
qed

text \<open>The first round of all: which request the \<open>k\<close>-th step is about.\<close>

lemma drive_initial_eps:
  assumes "stun_inv st" "sn_state st = STUN_INITIAL_TEST"
  shows "sn_eps (drive sz st) = sn_eps st" "sn_numEps (drive sz st) = sn_numEps st"
  using assms
  by (auto simp: stun_inv_def drive_def wants_send_def nabto_stun_next_event_to_handle_def nabto_stun_get_send_data_def
      nabto_stun_set_next_test_def nabto_stun_handle_wait_event_def Let_def)

lemma drive_initial_steps:
  assumes "stun_inv st" "sn_state st = STUN_INITIAL_TEST" "k < steps_left st"
  shows "stun_inv ((drive sz ^^ k) st) \<and> sn_state ((drive sz ^^ k) st) = STUN_INITIAL_TEST \<and>
    steps_left ((drive sz ^^ k) st) + k = steps_left st \<and> sn_eps ((drive sz ^^ k) st) = sn_eps st \<and>
    sn_numEps ((drive sz ^^ k) st) = sn_numEps st"
  using assms(3)
proof (induction k)
  case (Suc k)
  let ?s = "(drive sz ^^ k) st"
  have ih: "stun_inv ?s" "sn_state ?s = STUN_INITIAL_TEST" "steps_left ?s + k = steps_left st" "sn_eps ?s = sn_eps st"
    "sn_numEps ?s = sn_numEps st" using Suc by auto
  show ?case using drive_initial [OF ih(1,2), of sz] drive_initial_eps [OF ih(1,2), of sz] ih Suc.prems by auto
qed (simp_all add: assms)

text \<open>In a state with \<open>7 * (N + 1) - k\<close> steps left, the \<open>k mod (N + 1)\<close>-th step of a round is next.\<close>

lemma initial_position:
  assumes "stun_inv st" "sn_state st = STUN_INITIAL_TEST" "steps_left st + k = 7 * (unat (sn_numEps st) + 1)"
  shows "unat (sn_initialTestsSent st) = k mod (unat (sn_numEps st) + 1)"
proof -
  let ?N = "unat (sn_numEps st)" and ?i = "unat (sn_initialTestsSent st)"
  have i: "?i \<le> ?N" "0 < sends_left (sn_test1 st)" "sends_left (sn_test1 st) \<le> 7"
    using assms(1,2) by (auto simp: stun_inv_def sends_left_pos [symmetric] word_less_nat_alt)
      (simp add: sends_left_def)+
  have "?i \<le> 1 * (?N + 1)" using i(1) by simp
  also have "\<dots> \<le> sends_left (sn_test1 st) * (?N + 1)" using i(2) by (intro mult_right_mono) auto
  finally have "sends_left (sn_test1 st) * (?N + 1) - ?i + k = 7 * (?N + 1)" "?i \<le> sends_left (sn_test1 st) * (?N + 1)"
    using assms(3) by (simp_all add: steps_left_def)
  then have "sends_left (sn_test1 st) * (?N + 1) + k = 7 * (?N + 1) + ?i" by linarith
  moreover have "7 * (?N + 1) = sends_left (sn_test1 st) * (?N + 1) + (7 - sends_left (sn_test1 st)) * (?N + 1)"
    using i(3) by (simp flip: distrib_right)
  ultimately have "k = ?i + (7 - sends_left (sn_test1 st)) * (?N + 1)" by linarith
  then have "k mod (?N + 1) = ?i mod (?N + 1)" by (metis mod_mult_self1)
  then show ?thesis using i(1) by simp
qed

lemma drive_initial_fails:
  assumes "stun_inv st" "sn_state st = STUN_INITIAL_TEST" "steps_left st = 1"
  shows "sn_state (drive sz st) = STUN_FAILED \<and> sn_nextEvent (drive sz st) = STUN_ET_FAILED"
proof -
  have "steps_left st' \<noteq> 0" if "stun_inv st'" "sn_state st' = STUN_INITIAL_TEST" for st' :: "'a stun"
    using drive_initial [OF that, of sz] by auto
  from this [of "drive sz st"] show ?thesis using drive_initial [OF assms(1,2), of sz] assms(3) by auto
qed

lemma drive_stopped: "nabto_stun_next_event_to_handle st = STUN_ET_FAILED \<Longrightarrow> (drive sz ^^ k) st = st"
  by (induction k) (simp_all add: drive_def wants_send_def)

text \<open>C35: when nobody answers, the analysis makes exactly seven rounds and gives up.  Let \<open>N\<close> be the number of
  endpoints.  In each round the first \<open>N\<close> steps send the request, the \<open>i\<close>-th of them to the \<open>i\<close>-th
  endpoint, and the last waits for the timeout; after the seventh timeout, and not before, the
  client says that it failed, and it stays so.\<close>

theorem stun_gives_up:
  assumes "client_ok st0" "nabto_stun_async_analyze simple st0 = Some st"
  defines "N \<equiv> length (sn_eps st0)"
  shows "(\<forall>k < 7 * (N + 1).
      nabto_stun_next_event_to_handle ((drive sz ^^ k) st) =
        (if k mod (N + 1) < N then STUN_ET_SEND_PRIMARY else STUN_ET_WAIT) \<and>
      nabto_stun_get_data_endpoint ((drive sz ^^ k) st) =
        Some (if k mod (N + 1) < N then Some (sn_eps st0 ! (k mod (N + 1))) else None)) \<and>
    (\<forall>k \<ge> 7 * (N + 1). nabto_stun_next_event_to_handle ((drive sz ^^ k) st) = STUN_ET_FAILED \<and>
      nabto_stun_get_result ((drive sz ^^ k) st) = None)"
proof -
  note a = analyze_inv [OF assms(1,2)]
  have N: "unat (sn_numEps st) = N" "0 < N" using a(5) assms(1) by (auto simp: client_ok_def N_def simp flip: length_greater_0_conv)
  have eps: "sn_eps st = sn_eps st0"
    using assms(2) by (auto simp: nabto_stun_async_analyze_def Let_def split: list.splits)
  have left: "steps_left st = 7 * (N + 1)" using a(4,6) N by (simp add: steps_left_def)
  have before: "nabto_stun_next_event_to_handle ((drive sz ^^ k) st) =
        (if k mod (N + 1) < N then STUN_ET_SEND_PRIMARY else STUN_ET_WAIT) \<and>
      nabto_stun_get_data_endpoint ((drive sz ^^ k) st) =
        Some (if k mod (N + 1) < N then Some (sn_eps st0 ! (k mod (N + 1))) else None)"
    if k: "k < 7 * (N + 1)" for k
  proof -
    let ?s = "(drive sz ^^ k) st"
    have s: "stun_inv ?s" "sn_state ?s = STUN_INITIAL_TEST" "steps_left ?s + k = 7 * (N + 1)" "sn_eps ?s = sn_eps st0"
      "unat (sn_numEps ?s) = N"
      using drive_initial_steps [OF a(1,3), of k sz] k left N eps by auto
    have p: "unat (sn_initialTestsSent ?s) = k mod (N + 1)"
      using initial_position [OF s(1,2), of k] s(3,5) by simp
    then show ?thesis
      using s by (auto simp: stun_inv_def nabto_stun_next_event_to_handle_def nabto_stun_get_data_endpoint_def
          word_less_nat_alt word_le_nat_alt)
  qed
  let ?l = "(drive sz ^^ (7 * (N + 1) - 1)) st" and ?f = "(drive sz ^^ (7 * (N + 1))) st"
  have l: "stun_inv ?l" "sn_state ?l = STUN_INITIAL_TEST" "steps_left ?l = 1"
    using drive_initial_steps [OF a(1,3), of "7 * (N + 1) - 1" sz] left by auto
  have "7 * (N + 1) = Suc (7 * (N + 1) - 1)" by simp
  then have "?f = drive sz ?l" by (metis comp_apply funpow.simps(2))
  then have f: "sn_state ?f = STUN_FAILED" "nabto_stun_next_event_to_handle ?f = STUN_ET_FAILED"
    using drive_initial_fails [OF l, of sz] by (simp_all add: nabto_stun_next_event_to_handle_def)
  have "(drive sz ^^ k) st = ?f" if "7 * (N + 1) \<le> k" for k
    using drive_stopped [OF f(2), of "k - 7 * (N + 1)" sz]
      fun_cong [OF funpow_add [of "k - 7 * (N + 1)" "7 * (N + 1)" "drive sz"], of st] that
    by (simp only: le_add_diff_inverse2 o_apply)
  moreover have "nabto_stun_get_result ?f = None" using f(1) by (simp add: nabto_stun_get_result_def)
  ultimately have "nabto_stun_next_event_to_handle ((drive sz ^^ k) st) = STUN_ET_FAILED \<and>
      nabto_stun_get_result ((drive sz ^^ k) st) = None" if "7 * (N + 1) \<le> k" for k
    using that f(2) by metis
  with before show ?thesis by blast
qed

section \<open>Packets that change nothing\<close>

text \<open>A packet whose transaction id is that of none of the requests of the client leaves the client
  exactly as it was, in every state.\<close>

theorem stun_foreign_packet_ignored:
  assumes "\<not> nabto_stun_check_transaction_id (sn_test1 st) buf" "length (sn_tests st) = 5"
    "\<forall>test\<in>set (sn_tests st). \<not> nabto_stun_check_transaction_id test buf"
    "\<not> nabto_stun_check_transaction_id (sn_defectRouterTest st) buf"
  shows "nabto_stun_handle_packet buf st = st"
proof -
  have "i + k \<le> 5 \<Longrightarrow> packet_test_loop k i buf st = st" for k i
    using assms(2,3) by (induction k arbitrary: i) auto
  then show ?thesis
    using assms(1,4) by (simp add: nabto_stun_handle_packet_def split: stun_state.splits)
qed

section \<open>Two answers the analysis gets wrong\<close>

text \<open>C37: an endpoint that an earlier analysis found is taken for the answer of a new one.  The mapped
  endpoint of the message is not cleared when an analysis starts, so that a success response without
  any attribute completes the analysis, and the result is the old endpoint.\<close>

theorem stun_stale_endpoint:
  assumes "client_ok st0" "nabto_stun_async_analyze True st0 = Some st"
    "ep_port (ms_mappedEp (sn_test1 st0)) \<noteq> 0" "length (ms_transactionId (sn_test1 st)) = 12"
  defines "st' \<equiv> nabto_stun_handle_packet (binding_response (ms_transactionId (sn_test1 st)) []) st"
  shows "map_option sr_extEp (nabto_stun_get_result st') = Some (ms_mappedEp (sn_test1 st0))"
proof -
  note a = analyze_inv [OF assms(1,2)]
  define buf where "buf = binding_response (ms_transactionId (sn_test1 st)) []"
  have "nabto_stun_decode_message (sn_test1 st) buf = (True, sn_test1 st)"
    using decode_response [OF assms(4), of "[]" "sn_test1 st"] by (simp add: buf_def)
  moreover have "nabto_stun_check_transaction_id (sn_test1 st) buf"
    using assms(4) by (simp add: nabto_stun_check_transaction_id_def buf_def binding_response_def be16_def be32_def)
  ultimately show ?thesis
    using a(3,7,8) assms(3)
    by (simp add: st'_def buf_def [symmetric] nabto_stun_handle_packet_def nabto_stun_get_result_def)
qed

lemma next_test_loop_states:
  "i + k \<le> length (sn_tests st) \<Longrightarrow> \<forall>j < length (sn_tests st). ms_state (sn_tests st ! j) \<noteq> MS_NONE \<Longrightarrow>
   \<exists>st'. next_test_loop k i st = (False, st') \<and>
     (\<forall>j. i \<le> j \<longrightarrow> j < i + k \<longrightarrow> ms_state (sn_tests st' ! j) =
       (if 0 < sends_left (sn_tests st ! j) then ms_state (sn_tests st ! j) else MS_FAILED)) \<and>
     (\<forall>j < i. sn_tests st' ! j = sn_tests st ! j)"
proof (induction k arbitrary: i st)
  case (Suc k)
  have i: "i < length (sn_tests st)" using Suc.prems(1) by simp
  define st1 where "st1 = next_test_step i st"
  note s = next_test_step [OF i, folded st1_def]
  have l: "length (sn_tests st1) = length (sn_tests st)" by (rule same_run_tests(1) [OF s(1)])
  have "\<forall>j < length (sn_tests st1). ms_state (sn_tests st1 ! j) \<noteq> MS_NONE"
  proof (intro allI impI)
    fix j
    assume "j < length (sn_tests st1)"
    then show "ms_state (sn_tests st1 ! j) \<noteq> MS_NONE"
      using Suc.prems(2) s(4,7) l i by (cases "j = i") auto
  qed
  from Suc.IH [OF _ this, of "Suc i"] obtain st' where h: "next_test_loop k (Suc i) st1 = (False, st')"
      "\<forall>j. Suc i \<le> j \<longrightarrow> j < Suc i + k \<longrightarrow> ms_state (sn_tests st' ! j) =
         (if 0 < sends_left (sn_tests st1 ! j) then ms_state (sn_tests st1 ! j) else MS_FAILED)"
      "\<forall>j < Suc i. sn_tests st' ! j = sn_tests st1 ! j"
    using Suc.prems(1) l by auto
  have "ms_state (sn_tests st' ! j) = (if 0 < sends_left (sn_tests st ! j) then ms_state (sn_tests st ! j) else MS_FAILED)"
    if "i \<le> j" "j < i + Suc k" for j
  proof (cases "j = i")
    case True
    then show ?thesis using h(3) s(7) by simp
  next
    case False
    then show ?thesis using h(2) s(4) that by auto
  qed
  moreover have "\<forall>j < i. sn_tests st' ! j = sn_tests st ! j" using h(3) s(4) by auto
  ultimately show ?case using h(1) Suc.prems(2) i by (auto simp: st1_def)
qed simp

lemma set_next_test_states:
  assumes "sn_state st = STUN_TESTING" "length (sn_tests st) = 5"
    "\<forall>j < 5. ms_state (sn_tests st ! j) \<noteq> MS_NONE" "j < 5"
  shows "ms_state (sn_tests (nabto_stun_set_next_test st) ! j) =
    (if 0 < sends_left (sn_tests st ! j) then ms_state (sn_tests st ! j) else MS_FAILED)"
  using next_test_loop_states [of 0 5 "st\<lparr>sn_nextTest := None\<rparr>"] assms
  by (auto simp: nabto_stun_set_next_test_def Let_def split: option.splits)

lemma packet_test_loop_at:
  "j \<le> i \<Longrightarrow> i < j + k \<Longrightarrow> \<forall>l < i. \<not> nabto_stun_check_transaction_id (sn_tests st ! l) buf \<Longrightarrow>
   nabto_stun_check_transaction_id (sn_tests st ! i) buf \<Longrightarrow>
   nabto_stun_decode_message (sn_tests st ! i) buf = (True, msg) \<Longrightarrow>
   packet_test_loop k j buf st = nabto_stun_set_next_test (set_test (TESTS i) (msg\<lparr>ms_state := MS_COMPLETED\<rparr>) st)"
proof (induction k arbitrary: j)
  case (Suc k)
  then show ?case by (cases "j = i") auto
qed simp

text \<open>A filtering test that has been sent as often as it may is lost: it is failed and stays so, and the
  result does not report what an answer to it shows.\<close>

definition shown_by :: "nat \<Rightarrow> stun_nat_result" where
  "shown_by i = (if i = 3 then STUN_INDEPENDENT else STUN_ADDR_DEPENDENT)"

definition lost :: "nat \<Rightarrow> 'm stun \<Rightarrow> bool" where
  "lost i st \<longleftrightarrow> i \<in> {2, 3} \<and> length (sn_tests st) = 5 \<and>
     sn_state st \<in> {STUN_TESTING, STUN_DEFECT_ROUTER_TEST, STUN_COMPLETED} \<and>
     (\<forall>j < 5. ms_state (sn_tests st ! j) \<noteq> MS_NONE) \<and>
     sends_left (sn_tests st ! i) = 0 \<and> ms_state (sn_tests st ! i) = MS_FAILED \<and>
     (sn_state st = STUN_COMPLETED \<longrightarrow> sr_filtering (sn_result st) \<noteq> shown_by i)"

lemma set_next_test_lost:
  assumes "sn_state st = STUN_TESTING" "testing_ok st" "\<forall>j < 5. ms_state (sn_tests st ! j) \<noteq> MS_NONE"
    "i \<in> {2, 3}" "sends_left (sn_tests st ! i) = 0"
  shows "lost i (nabto_stun_set_next_test st)"
proof -
  let ?st = "nabto_stun_set_next_test st"
  have l: "length (sn_tests st) = 5" using assms(2) by (simp add: testing_ok_def)
  note t = set_next_test_states [OF assms(1) l assms(3)]
  obtain b st1 where n: "next_test_loop 5 0 (st\<lparr>sn_nextTest := None\<rparr>) = (b, st1)" by fastforce
  have r: "same_run (st\<lparr>sn_nextTest := None\<rparr>) st1"
    using next_test_loop [OF n] assms(2) by (simp add: testing_ok_def)
  have s: "sn_tests ?st = sn_tests st1" "sn_state ?st \<in> {STUN_TESTING, STUN_DEFECT_ROUTER_TEST}"
    using n r assms(1) by (auto simp: nabto_stun_set_next_test_def Let_def same_run_def split: bool.splits option.splits)
  have "map sends_left (sn_tests st1) = map sends_left (sn_tests st)" using same_run_tests(6) [OF r] by simp
  then have m: "length (sn_tests st1) = 5" "i < 5 \<Longrightarrow> sends_left (sn_tests st1 ! i) = sends_left (sn_tests st ! i)"
    using l by (auto dest: map_eq_imp_length_eq simp: list_eq_iff_nth_eq)
  show ?thesis
    using t [of i] t m s assms(3,4,5) by (auto simp: lost_def)
qed

lemma packet_test_loop_lost:
  "lost i st \<Longrightarrow> testing_ok st \<Longrightarrow> sn_state st = STUN_TESTING \<Longrightarrow> j + k \<le> 5 \<Longrightarrow> lost i (packet_test_loop k j buf st)"
proof (induction k arbitrary: j st)
  case (Suc k)
  show ?case
  proof (cases "nabto_stun_check_transaction_id (sn_tests st ! j) buf")
    case True
    obtain ok msg where d: "nabto_stun_decode_message (sn_tests st ! j) buf = (ok, msg)" by fastforce
    note p = decode_message_keeps [OF d]
    have left: "sends_left msg = sends_left (sn_tests st ! j)" by (simp add: sends_left_def p)
    have u: "testing_ok (set_test (TESTS j) (msg\<lparr>ms_state := x\<rparr>) st)" if "x \<in> {MS_COMPLETED, ms_state msg}" for x
      using Suc.prems(2,4) p that by (auto simp: testing_ok_def list_all_length nth_list_update test_ok_def)
    show ?thesis
    proof (cases ok)
      case True
      have "lost i (nabto_stun_set_next_test (set_test (TESTS j) (msg\<lparr>ms_state := MS_COMPLETED\<rparr>) st))"
        using Suc.prems left by (intro set_next_test_lost u) (auto simp: lost_def nth_list_update)
      then show ?thesis using True d \<open>nabto_stun_check_transaction_id _ _\<close> by simp
    next
      case False
      have "lost i (set_test (TESTS j) msg st)"
        using Suc.prems left p by (auto simp: lost_def nth_list_update)
      then show ?thesis
        using Suc.IH [of "set_test (TESTS j) msg st" "Suc j"] u [of "ms_state msg"] Suc.prems d False
          \<open>nabto_stun_check_transaction_id _ _\<close> by simp
    qed
  next
    case False
    then show ?thesis using Suc by simp
  qed
qed simp

lemma compute_result_lost:
  "lost i st \<Longrightarrow> lost i (nabto_stun_compute_result_and_stop (st\<lparr>sn_defectRouterTest := x, sn_state := s\<rparr>))"
  "lost i st \<Longrightarrow> lost i (nabto_stun_compute_result_and_stop (st\<lparr>sn_defectRouterTest := x\<rparr>))"
  by (auto simp: lost_def nabto_stun_compute_result_and_stop_def Let_def shown_by_def)

lemma lost_step:
  assumes "lost i st" "stun_inv st"
  shows "wants_send st \<Longrightarrow> nabto_stun_get_send_data sz st = Some (ret, st') \<Longrightarrow> lost i st'"
    "lost i (nabto_stun_handle_wait_event st)" "lost i (nabto_stun_handle_packet buf st)"
proof -
  have ok: "sn_state st = STUN_TESTING \<Longrightarrow> testing_ok st" using assms(2) by (simp add: stun_inv_def)
  have states: "sn_state st = STUN_TESTING \<or> sn_state st = STUN_DEFECT_ROUTER_TEST \<or> sn_state st = STUN_COMPLETED"
    using assms(1) by (auto simp: lost_def)
  have user: "lost i (st\<lparr>sn_nextEvent := e\<rparr>)" "lost i (st\<lparr>sn_defectRouterTest := x\<rparr>)" for e x
    using assms(1) by (simp_all add: lost_def)
  have choose: "sn_state st = STUN_TESTING \<Longrightarrow> lost i (nabto_stun_set_next_test st)"
    using assms(1) ok by (intro set_next_test_lost) (auto simp: lost_def)
  show "lost i (nabto_stun_handle_wait_event st)"
    using states choose user compute_result_lost [OF assms(1)]
    by (auto simp: nabto_stun_handle_wait_event_def Let_def)
  show "lost i (nabto_stun_handle_packet buf st)"
    using states ok packet_test_loop_lost [OF assms(1), of 0 5 buf] compute_result_lost [OF assms(1)] assms(1) user
    by (auto simp: nabto_stun_handle_packet_def split: prod.splits bool.splits)
  assume w: "wants_send st" "nabto_stun_get_send_data sz st = Some (ret, st')"
  show "lost i st'"
  proof (cases "sn_state st = STUN_TESTING")
    case True
    then obtain j where j: "j < 5" "sn_nextTest st = Some (TESTS j)" "0 < sends_left (sn_tests st ! j)"
      using assms(2) by (auto simp: stun_inv_def)
    have "j \<noteq> i" using j(3) assms(1) by (auto simp: lost_def)
    have inc: "ms_retransmissions (sn_tests st ! j) < ms_maxRetransmissions (sn_tests st ! j)"
      using j(3) by (simp add: sends_left_pos)
    show ?thesis
      using w(2) True j ok [OF True] assms(1) \<open>j \<noteq> i\<close> inc_le [OF inc]
      by (auto simp: nabto_stun_get_send_data_def Let_def test_at_def intro!: set_next_test_lost)
        (auto simp: lost_def testing_ok_def list_all_length nth_list_update test_ok_def split: if_splits)
  next
    case False
    then show ?thesis
      using w(2) assms(1) by (auto simp: lost_def nabto_stun_get_send_data_def Let_def)
  qed
qed

lemma lost_run: "stun_run st n st' \<Longrightarrow> stun_inv st \<Longrightarrow> lost i st \<Longrightarrow> lost i st'"
proof (induction rule: stun_run.induct)
  case (run_clock st n st1 m)
  then show ?case by (simp add: lost_def)
qed (use lost_step stun_run_inv in blast)+

text \<open>C38: the answer to the last request of a filtering test (test 2 or 3 of the five) is never counted.  When
  all five tests have been sent and this one as often as it may, a valid answer to it makes it
  failed in the same call, and whatever happens in the rest of the analysis, the result does not
  report the filtering that the answer shows: endpoint independent filtering for test 3, address
  dependent filtering for test 2.\<close>

theorem stun_last_answer_lost:
  assumes "client_ok st0" "nabto_stun_async_analyze simple st0 = Some st" "stun_run st n st1"
    and "sn_state st1 = STUN_TESTING" "\<forall>test\<in>set (sn_tests st1). ms_state test \<noteq> MS_NONE"
    and "i \<in> {2, 3}" "ms_maxRetransmissions (sn_tests st1 ! i) \<le> ms_retransmissions (sn_tests st1 ! i)"
    and "\<forall>j < i. \<not> nabto_stun_check_transaction_id (sn_tests st1 ! j) buf"
    and "nabto_stun_check_transaction_id (sn_tests st1 ! i) buf"
    and "fst (nabto_stun_decode_message (sn_tests st1 ! i) buf)"
    and "stun_run (nabto_stun_handle_packet buf st1) n' st2"
  shows "ms_state (sn_tests (nabto_stun_handle_packet buf st1) ! i) = MS_FAILED \<and>
    (\<forall>result. nabto_stun_get_result st2 = Some result \<longrightarrow>
       sr_filtering result \<noteq> (if i = 3 then STUN_INDEPENDENT else STUN_ADDR_DEPENDENT))"
proof -
  have inv: "stun_inv st1" using stun_run_inv [OF assms(3) analyze_inv(1) [OF assms(1,2)]] by simp
  then have ok: "testing_ok st1" "length (sn_tests st1) = 5" using assms(4) by (auto simp: stun_inv_def testing_ok_def)
  obtain msg where d: "nabto_stun_decode_message (sn_tests st1 ! i) buf = (True, msg)"
    using assms(10) by (cases "nabto_stun_decode_message (sn_tests st1 ! i) buf") auto
  note p = decode_message_keeps [OF d]
  define st3 where "st3 = set_test (TESTS i) (msg\<lparr>ms_state := MS_COMPLETED\<rparr>) st1"
  have h: "nabto_stun_handle_packet buf st1 = nabto_stun_set_next_test st3"
    using packet_test_loop_at [of 0 i 5 st1 buf msg] assms(4,6,8,9) d
    by (auto simp: nabto_stun_handle_packet_def st3_def)
  have "\<not> 0 < sends_left (sn_tests st1 ! i)" using assms(7) by (simp add: sends_left_pos [symmetric])
  then have left: "sends_left (msg\<lparr>ms_state := MS_COMPLETED\<rparr>) = 0" by (simp add: sends_left_def p)
  have "testing_ok st3"
    using ok assms(6) p by (auto simp: testing_ok_def st3_def list_all_length nth_list_update test_ok_def)
  then have "lost i (nabto_stun_set_next_test st3)"
    using ok(2) assms(4,5,6) left by (intro set_next_test_lost) (auto simp: st3_def nth_list_update split: if_splits)
  then have l: "lost i (nabto_stun_handle_packet buf st1)" by (simp add: h)
  moreover have "stun_inv (nabto_stun_handle_packet buf st1)" using stun_packet_inv [OF inv] by simp
  ultimately have "lost i st2" using lost_run [OF assms(11)] by blast
  then show ?thesis using l by (auto simp: lost_def nabto_stun_get_result_def shown_by_def split: if_splits)
qed

section \<open>Concrete clients\<close>

text \<open>A user with a clock that stands still and random bytes that count the calls.\<close>

definition sample_stun_module :: "nat stun_module" where
  "sample_stun_module = \<lparr>stm_get_stamp = (\<lambda>m. 1000), stm_get_rand = (\<lambda>n m. ((replicate n (of_nat m), True), Suc m))\<rparr>"

definition sample_client :: "nat stun" where
  "sample_client = \<lparr>sn_module = sample_stun_module, sn_user = 1, sn_result = zero_result,
     sn_nextEvent = STUN_ET_NO_EVENT, sn_state = STUN_NOT_STARTED, sn_simple = False,
     sn_eps = [sample_endpoint], sn_numEps = 1, sn_initialTestsSent = 0, sn_nextTest = None, sn_nextTimeout = 0,
     sn_test1 = sample_stun_message, sn_tests = replicate 5 (sample_stun_message\<lparr>ms_retransmissions := 3\<rparr>),
     sn_defectRouterTest = sample_stun_message\<rparr>"

lemma sample_client_ok: "client_ok sample_client"
  by (simp add: client_ok_def sample_client_def)

lemma sample_analyze:
  obtains st where "nabto_stun_async_analyze simple sample_client = Some st"
    "sn_nextEvent st = STUN_ET_SEND_PRIMARY" "length (ms_transactionId (sn_test1 st)) = 12"
  by (simp add: nabto_stun_async_analyze_def sample_client_def init_test_def set_test_def test_at_def
      nabto_stun_init_message_def sample_stun_module_def)

theorem stun_never_null_witness:
  "\<exists>st ep. nabto_stun_async_analyze False sample_client = Some st \<and> nabto_stun_get_data_endpoint st = Some (Some ep)"
proof -
  obtain st where "nabto_stun_async_analyze False sample_client = Some st" "sn_nextEvent st = STUN_ET_SEND_PRIMARY"
    using sample_analyze by metis
  then show ?thesis
    using stun_never_null [OF sample_client_ok _ run_start, of False st]
    by (auto simp: nabto_stun_next_event_to_handle_def)
qed

theorem stun_sends_bounded_witness:
  "\<exists>st st'. nabto_stun_async_analyze False sample_client = Some st \<and> stun_run st 1 st' \<and>
     (1 :: nat) \<le> 7 * length (sn_eps sample_client) + 34"
proof -
  obtain st where a: "nabto_stun_async_analyze False sample_client = Some st" "sn_nextEvent st = STUN_ET_SEND_PRIMARY"
    using sample_analyze by metis
  obtain ret st' where g: "nabto_stun_get_send_data 28 st = Some (ret, st')"
    using stun_never_null [OF sample_client_ok a(1) run_start, of 28] by auto
  have "wants_send st" using a(2) by (simp add: wants_send_def nabto_stun_next_event_to_handle_def)
  then have "stun_run st (Suc 0) st'" using g by (rule run_send [OF run_start])
  then show ?thesis using stun_sends_bounded [OF sample_client_ok a(1)] a(1) by auto
qed

theorem stun_gives_up_witness:
  "\<exists>st. nabto_stun_async_analyze False sample_client = Some st \<and>
     nabto_stun_next_event_to_handle ((drive 28 ^^ 12) st) = STUN_ET_SEND_PRIMARY \<and>
     nabto_stun_next_event_to_handle ((drive 28 ^^ 14) st) = STUN_ET_FAILED"
proof -
  obtain st where a: "nabto_stun_async_analyze False sample_client = Some st"
    using sample_analyze by metis
  have n: "length (sn_eps sample_client) = 1" by (simp add: sample_client_def)
  show ?thesis
    using stun_gives_up [OF sample_client_ok a, of 28] unfolding n
    by (intro exI [of _ st] conjI a) (simp_all add: numeral_2_eq_2 [symmetric] del: funpow.simps)
qed

theorem stun_foreign_packet_ignored_witness: "nabto_stun_handle_packet [1, 1, 0, 0] sample_client = sample_client"
  by (rule stun_foreign_packet_ignored)
    (simp_all add: nabto_stun_check_transaction_id_def sample_client_def)

theorem stun_stale_endpoint_witness:
  "\<exists>st. nabto_stun_async_analyze True sample_client = Some st \<and>
     map_option (\<lambda>r. ep_port (sr_extEp r)) (nabto_stun_get_result (nabto_stun_handle_packet
       (binding_response (ms_transactionId (sn_test1 st)) []) st)) = Some 5478"
proof -
  obtain st where a: "nabto_stun_async_analyze True sample_client = Some st" "length (ms_transactionId (sn_test1 st)) = 12"
    using sample_analyze by metis
  have p: "ms_mappedEp (sn_test1 sample_client) = sample_endpoint" "ep_port sample_endpoint = 5478"
    by (simp_all add: sample_client_def sample_stun_message_def sample_endpoint_def)
  have "map_option sr_extEp (nabto_stun_get_result (nabto_stun_handle_packet
       (binding_response (ms_transactionId (sn_test1 st)) []) st)) = Some sample_endpoint"
    using stun_stale_endpoint [OF sample_client_ok a(1) _ a(2)] p by simp
  then show ?thesis using a(1) p(2) by (auto simp: map_option_case split: option.splits)
qed

section \<open>A run in which the answer comes too late\<close>

text \<open>Moves of an application: do what the next event says, set the clock, hand in a packet.\<close>

datatype stun_move = DRIVE | CLOCK u32 | ANSWER bytes

fun play :: "stun_move list \<Rightarrow> (u32 \<times> nat) stun \<Rightarrow> (u32 \<times> nat) stun" where
  "play [] st = st"
| "play (DRIVE # ms) st = play ms (drive 28 st)"
| "play (CLOCK t # ms) st = play ms (st\<lparr>sn_user := (t, snd (sn_user st))\<rparr>)"
| "play (ANSWER buf # ms) st = play ms (nabto_stun_handle_packet buf st)"

lemma play_run: "stun_run st n st1 \<Longrightarrow> \<exists>n'. stun_run st n' (play ms st1)"
proof (induction ms st1 arbitrary: n rule: play.induct)
  case (2 ms st1)
  have "\<exists>n'. stun_run st n' (drive 28 st1)"
    using "2.prems" by (auto simp: drive_def split: option.splits intro: run_send run_wait)
  then show ?case using "2.IH" by auto
qed (auto intro: run_clock run_packet)

definition sample_clock_module :: "(u32 \<times> nat) stun_module" where
  "sample_clock_module = \<lparr>stm_get_stamp = fst,
     stm_get_rand = (\<lambda>n (t, m). ((replicate n (of_nat m), True), (t, Suc m)))\<rparr>"

definition sample_timed_client :: "(u32 \<times> nat) stun" where
  "sample_timed_client = \<lparr>sn_module = sample_clock_module, sn_user = (1000, 1), sn_result = zero_result,
     sn_nextEvent = STUN_ET_NO_EVENT, sn_state = STUN_NOT_STARTED, sn_simple = False,
     sn_eps = [sample_endpoint], sn_numEps = 1, sn_initialTestsSent = 0, sn_nextTest = None, sn_nextTimeout = 0,
     sn_test1 = sample_stun_message, sn_tests = replicate 5 sample_stun_message,
     sn_defectRouterTest = sample_stun_message\<rparr>"

definition sample_answer :: "u8 \<Rightarrow> bytes" where
  "sample_answer n = binding_response (replicate 12 n)
     [(0x0020, endpoint_value True sample_endpoint, []), (0x802b, endpoint_value False sample_endpoint, []),
      (0x802c, endpoint_value False sample_endpoint, [])]"

text \<open>The first request is answered, the five tests are sent, and again after half a second and after a second.\<close>

definition sample_started :: "(u32 \<times> nat) stun" where
  "sample_started = the (nabto_stun_async_analyze False sample_timed_client)"

definition sample_moves :: "stun_move list" where
  "sample_moves = [DRIVE, ANSWER (sample_answer 1), DRIVE, DRIVE, DRIVE, DRIVE, DRIVE, CLOCK 1500, DRIVE, DRIVE,
     DRIVE, DRIVE, DRIVE, DRIVE, CLOCK 2000, DRIVE, DRIVE, DRIVE, DRIVE, DRIVE, DRIVE]"

text \<open>After the late answer to test 3, the other tests and the test of the router are answered.\<close>

definition sample_rest :: "stun_move list" where
  "sample_rest = [ANSWER (sample_answer 2), ANSWER (sample_answer 3), ANSWER (sample_answer 6), DRIVE, ANSWER (sample_answer 7)]"

definition sample_late :: "(u32 \<times> nat) stun" where
  "sample_late = play sample_moves sample_started"

definition sample_end :: "(u32 \<times> nat) stun" where
  "sample_end = play sample_rest (nabto_stun_handle_packet (sample_answer 5) sample_late)"

lemma sample_started_some: "nabto_stun_async_analyze False sample_timed_client = Some sample_started"
  by (simp add: sample_started_def nabto_stun_async_analyze_def sample_timed_client_def)

definition last_sent :: "bytes \<Rightarrow> 'm stun \<Rightarrow> bool" where
  "last_sent buf st \<longleftrightarrow> sn_state st = STUN_TESTING \<and> (\<forall>test\<in>set (sn_tests st). ms_state test \<noteq> MS_NONE) \<and>
     ms_maxRetransmissions (sn_tests st ! 3) \<le> ms_retransmissions (sn_tests st ! 3) \<and>
     list_all (\<lambda>j. \<not> nabto_stun_check_transaction_id (sn_tests st ! j) buf) [0, 1, 2] \<and>
     nabto_stun_check_transaction_id (sn_tests st ! 3) buf \<and> fst (nabto_stun_decode_message (sn_tests st ! 3) buf)"

lemma sample_late_facts: "last_sent (sample_answer 5) sample_late"
  by code_simp

lemma sample_end_done: "nabto_stun_get_result sample_end \<noteq> None"
  by code_simp

theorem stun_last_answer_lost_witness:
  "ms_state (sn_tests (nabto_stun_handle_packet (sample_answer 5) sample_late) ! 3) = MS_FAILED \<and>
   (\<exists>result. nabto_stun_get_result sample_end = Some result \<and> sr_filtering result \<noteq> STUN_INDEPENDENT)"
proof -
  have ok: "client_ok sample_timed_client" by (simp add: client_ok_def sample_timed_client_def)
  obtain n where n: "stun_run sample_started n sample_late"
    using play_run [OF run_start] unfolding sample_late_def by blast
  obtain n' where n': "stun_run (nabto_stun_handle_packet (sample_answer 5) sample_late) n' sample_end"
    using play_run [OF run_start] unfolding sample_end_def by blast
  have ids: "\<forall>j < 3. \<not> nabto_stun_check_transaction_id (sn_tests sample_late ! j) (sample_answer 5)"
    using sample_late_facts by (auto simp: last_sent_def numeral_3_eq_3 numeral_2_eq_2 less_Suc_eq)
  show ?thesis
    using stun_last_answer_lost [OF ok sample_started_some n _ _ _ _ ids _ _ n'] sample_late_facts sample_end_done
    by (auto simp: last_sent_def simp del: not_None_eq)
qed

end
