(* ===== verification/Mdns.thy ===== *)
theory Mdns
  imports Nn_Set Nn_Map Nn_Ip
begin

text \<open>
  The mDNS responder of src/components/mdns/src/mdns_server.c: matching the name in a question, with
  its compression pointers, and writing the response.  A pointer into the packet that is read is the
  offset from its start, or \<open>None\<close> for the null pointer; the packet that is written is a \<open>wptr\<close>.
\<close>

section \<open>The server\<close>

record 'm mdns_context =
  mc_instanceName :: "bytes option"
  mc_subtypes :: "'m nn_string_set"
  mc_txtItems :: "'m nn_string_map"

text \<open>
  After the initialisation the three pointers are null; the set and the map are only used when there
  is an instance name, and \<open>nabto_mdns_server_update_info\<close> sets all three.
\<close>

definition nabto_mdns_server_init :: "'m mdns_context \<Rightarrow> 'm mdns_context" where
  "nabto_mdns_server_init context = context\<lparr>mc_instanceName := None\<rparr>"

definition nabto_mdns_server_update_info ::
  "bytes \<Rightarrow> 'm nn_string_set \<Rightarrow> 'm nn_string_map \<Rightarrow> 'm mdns_context \<Rightarrow> 'm mdns_context" where
  "nabto_mdns_server_update_info instanceName subtypes txtItems context =
     context\<lparr>mc_instanceName := Some instanceName, mc_subtypes := subtypes, mc_txtItems := txtItems\<rparr>"

definition NABTO_MDNS_A :: u16 where "NABTO_MDNS_A = 1"
definition NABTO_MDNS_PTR :: u16 where "NABTO_MDNS_PTR = 12"
definition NABTO_MDNS_TXT :: u16 where "NABTO_MDNS_TXT = 16"
definition NABTO_MDNS_AAAA :: u16 where "NABTO_MDNS_AAAA = 28"
definition NABTO_MDNS_SRV :: u16 where "NABTO_MDNS_SRV = 33"
definition NABTO_MDNS_MAX_COMPRESSION_HOPS :: nat where "NABTO_MDNS_MAX_COMPRESSION_HOPS = 32"

text \<open>The labels in the code, as the bytes of their characters.\<close>

definition label_nabto :: bytes where "label_nabto = [95, 110, 97, 98, 116, 111]"
definition label_udp :: bytes where "label_udp = [95, 117, 100, 112]"
definition label_local :: bytes where "label_local = [108, 111, 99, 97, 108]"
definition label_services :: bytes where "label_services = [95, 115, 101, 114, 118, 105, 99, 101, 115]"
definition label_dns_sd :: bytes where "label_dns_sd = [95, 100, 110, 115, 45, 115, 100]"
definition label_sub :: bytes where "label_sub = [95, 115, 117, 98]"

section \<open>Reading a question\<close>

definition nabto_mdns_server_uint8_read_forward :: "bytes \<Rightarrow> nat option \<Rightarrow> (u8 \<times> nat) option" where
  "nabto_mdns_server_uint8_read_forward buffer ptr =
     (case ptr of None \<Rightarrow> None
      | Some p \<Rightarrow> if p < length buffer then Some (buffer ! p, p + 1) else None)"

definition nabto_mdns_server_uint16_read_forward :: "bytes \<Rightarrow> nat option \<Rightarrow> (u16 \<times> nat) option" where
  "nabto_mdns_server_uint16_read_forward buffer ptr =
     (case ptr of None \<Rightarrow> None
      | Some p \<Rightarrow> if p + 2 \<le> length buffer
                 then Some (push_bit 8 (ucast (buffer ! p)) + ucast (buffer ! (p + 1)), p + 2) else None)"

text \<open>The C function tolower in the C locale.\<close>

definition tolower :: "u8 \<Rightarrow> u8" where
  "tolower c = (if 65 \<le> c \<and> c \<le> 90 then c + 32 else c)"

definition match_label :: "bytes \<Rightarrow> bytes \<Rightarrow> bool" where
  "match_label bufferLabel label \<longleftrightarrow>
     length bufferLabel = length label \<and> (\<forall>i < length label. tolower (label ! i) = tolower (bufferLabel ! i))"

function match_name_loop :: "bytes \<Rightarrow> nat option \<Rightarrow> bytes list \<Rightarrow> nat \<Rightarrow> bool" where
  "match_name_loop buffer ptr [] compressionHops = True"
| "match_name_loop buffer ptr (label # toMatch) compressionHops =
     (case nabto_mdns_server_uint8_read_forward buffer ptr of
        None \<Rightarrow> False
      | Some (len, p) \<Rightarrow>
         if len AND 0xC0 = 0xC0 then
           (case nabto_mdns_server_uint8_read_forward buffer (Some p) of
              None \<Rightarrow> False
            | Some (len2, p) \<Rightarrow>
               (let offset = (ucast len2 :: u16) + push_bit 8 (ucast (len AND NOT 0xC0)) in
                if p \<le> unat offset then False
                else if NABTO_MDNS_MAX_COMPRESSION_HOPS \<le> compressionHops then False
                else match_name_loop buffer (Some (unat offset)) (label # toMatch) (compressionHops + 1)))
         else if length buffer < p + unat len then False
         else if \<not> match_label (take (unat len) (drop p buffer)) label then False
         else match_name_loop buffer (Some (p + unat len)) toMatch compressionHops)"
  by pat_completeness auto
termination
  by (relation "measure (\<lambda>(buffer, ptr, toMatch, hops). length toMatch + (NABTO_MDNS_MAX_COMPRESSION_HOPS - hops))") auto

declare match_name_loop.simps(2) [simp del]

definition match_name :: "bytes \<Rightarrow> nat option \<Rightarrow> bytes list \<Rightarrow> bool" where
  "match_name buffer ptr toMatch = match_name_loop buffer ptr toMatch 0"

lemma read_uint8_Some:
  "nabto_mdns_server_uint8_read_forward buffer ptr = Some (v, q) \<longleftrightarrow>
   (\<exists>p. ptr = Some p \<and> p < length buffer \<and> v = buffer ! p \<and> q = p + 1)"
  by (auto simp: nabto_mdns_server_uint8_read_forward_def split: option.splits)

function skip_name :: "bytes \<Rightarrow> nat option \<Rightarrow> nat option" where
  "skip_name buffer ptr =
     (case nabto_mdns_server_uint8_read_forward buffer ptr of
        None \<Rightarrow> None
      | Some (len, p) \<Rightarrow>
         if len AND 0xC0 = 0xC0 then map_option snd (nabto_mdns_server_uint8_read_forward buffer (Some p))
         else if len = 0 then Some p
         else if 63 < len then None
         else if length buffer < p + unat len then None
         else skip_name buffer (Some (p + unat len)))"
  by pat_completeness auto
termination
  by (relation "measure (\<lambda>(buffer, ptr). case ptr of None \<Rightarrow> 0 | Some p \<Rightarrow> Suc (length buffer) - p)")
    (auto simp: read_uint8_Some)

declare skip_name.simps [simp del]

text \<open>The names a question is compared with, apart from the subtypes.\<close>

definition own_names :: "bytes \<Rightarrow> bytes list list" where
  "own_names instanceName =
     [[label_nabto, label_udp, label_local], [instanceName, label_nabto, label_udp, label_local],
      [instanceName, label_local], [label_services, label_dns_sd, label_udp, label_local]]"

definition match_question :: "bytes \<Rightarrow> 'm mdns_context \<Rightarrow> bytes \<Rightarrow> nat option \<Rightarrow> bool" where
  "match_question instanceName context buffer ptr \<longleftrightarrow>
     list_ex (match_name buffer ptr) (own_names instanceName) \<or>
     foreach_find (\<lambda>subtype. match_name buffer ptr [snd subtype, label_sub, label_nabto, label_udp, label_local])
       (sset_strings (mc_subtypes context)) nn_string_set_begin \<noteq> None"

text \<open>The loop over the questions, with \<open>n\<close> of them left.\<close>

fun question_loop :: "nat \<Rightarrow> bytes \<Rightarrow> 'm mdns_context \<Rightarrow> bytes \<Rightarrow> nat option \<Rightarrow> bool" where
  "question_loop 0 instanceName context buffer ptr = False"
| "question_loop (Suc n) instanceName context buffer ptr =
     (if match_question instanceName context buffer ptr then True
      else
       (let ptr = skip_name buffer ptr;
            ptr = map_option snd (nabto_mdns_server_uint16_read_forward buffer ptr);
            ptr = map_option snd (nabto_mdns_server_uint16_read_forward buffer ptr)
        in question_loop n instanceName context buffer ptr))"

text \<open>The result and the id, when it was read.\<close>

definition nabto_mdns_server_handle_packet :: "'m mdns_context \<Rightarrow> bytes \<Rightarrow> bool \<times> u16 option" where
  "nabto_mdns_server_handle_packet context buffer =
     (case mc_instanceName context of
        None \<Rightarrow> (False, None)
      | Some instanceName \<Rightarrow> (case nabto_mdns_server_uint16_read_forward buffer (Some 0) of
        None \<Rightarrow> (False, None)
      | Some (pid, ptr) \<Rightarrow> (case nabto_mdns_server_uint16_read_forward buffer (Some ptr) of
        None \<Rightarrow> (False, Some pid)
      | Some (flags, ptr) \<Rightarrow>
         if flags AND 0x8000 = 0x8000 then (False, Some pid)
         else (case nabto_mdns_server_uint16_read_forward buffer (Some ptr) of
           None \<Rightarrow> (False, Some pid)
         | Some (questions, ptr) \<Rightarrow>
             if length buffer - ptr < 6 then (False, Some pid)
             else (question_loop (unat questions) instanceName context buffer (Some (ptr + 6)), Some pid)))))"

section \<open>Writing the response\<close>

definition nabto_mdns_server_uint8_write_forward :: "u8 \<Rightarrow> wptr \<Rightarrow> wptr" where
  "nabto_mdns_server_uint8_write_forward val buf = wput [val] buf"

definition nabto_mdns_server_uint16_write_forward :: "u16 \<Rightarrow> wptr \<Rightarrow> wptr" where
  "nabto_mdns_server_uint16_write_forward val buf =
     nabto_mdns_server_uint8_write_forward (byte_at 0 val) (nabto_mdns_server_uint8_write_forward (byte_at 8 val) buf)"

definition nabto_mdns_server_uint32_write_forward :: "u32 \<Rightarrow> wptr \<Rightarrow> wptr" where
  "nabto_mdns_server_uint32_write_forward val buf =
     nabto_mdns_server_uint8_write_forward (byte_at 0 val) (nabto_mdns_server_uint8_write_forward (byte_at 8 val)
       (nabto_mdns_server_uint8_write_forward (byte_at 16 val) (nabto_mdns_server_uint8_write_forward (byte_at 24 val) buf)))"

fun nabto_mdns_server_string_write_forward :: "bytes \<Rightarrow> wptr \<Rightarrow> wptr" where
  "nabto_mdns_server_string_write_forward [] buf = buf"
| "nabto_mdns_server_string_write_forward (c # val) buf =
     nabto_mdns_server_string_write_forward val (nabto_mdns_server_uint8_write_forward c buf)"

fun nabto_mdns_server_data_write_forward :: "bytes \<Rightarrow> wptr \<Rightarrow> wptr" where
  "nabto_mdns_server_data_write_forward [] buf = buf"
| "nabto_mdns_server_data_write_forward (c # data) buf =
     nabto_mdns_server_data_write_forward data (nabto_mdns_server_uint8_write_forward c buf)"

definition nabto_mdns_server_encode_string :: "bytes \<Rightarrow> wptr \<Rightarrow> wptr" where
  "nabto_mdns_server_encode_string str buf =
     (if 255 < length str then None
      else nabto_mdns_server_string_write_forward str
        (nabto_mdns_server_uint8_write_forward (of_nat (length str)) buf))"

definition nabto_mdns_server_compression_label :: "wptr \<Rightarrow> u16" where
  "nabto_mdns_server_compression_label ptr = (case ptr of None \<Rightarrow> 0 | Some (w, room) \<Rightarrow> 0xC000 + of_nat (length w))"

text \<open>Type, class, time to live and length of a record.\<close>

definition write_record_head :: "u16 \<Rightarrow> u16 \<Rightarrow> u32 \<Rightarrow> u16 \<Rightarrow> wptr \<Rightarrow> wptr" where
  "write_record_head type cls ttl rdlength ptr =
     nabto_mdns_server_uint16_write_forward rdlength
       (nabto_mdns_server_uint32_write_forward ttl
         (nabto_mdns_server_uint16_write_forward cls (nabto_mdns_server_uint16_write_forward type ptr)))"

definition write_mdns_header :: "u16 \<Rightarrow> u16 \<Rightarrow> wptr \<Rightarrow> wptr" where
  "write_mdns_header pid records ptr =
     (let ptr = nabto_mdns_server_uint16_write_forward pid ptr;
          ptr = nabto_mdns_server_uint16_write_forward (push_bit 15 1 + push_bit 10 1) ptr;
          ptr = nabto_mdns_server_uint16_write_forward 0 ptr;
          ptr = nabto_mdns_server_uint16_write_forward records ptr;
          ptr = nabto_mdns_server_uint16_write_forward 0 ptr
      in nabto_mdns_server_uint16_write_forward 0 ptr)"

text \<open>The labels of the names that later records refer to.\<close>

record mdns_labels =
  ml_service :: u16
  ml_nabto :: u16
  ml_udp :: u16
  ml_local :: u16

definition write_service_ptr :: "u32 \<Rightarrow> bytes \<Rightarrow> wptr \<Rightarrow> mdns_labels \<times> wptr" where
  "write_service_ptr ttl instanceName ptr =
     (let nabtoLabel = nabto_mdns_server_compression_label ptr;
          ptr = nabto_mdns_server_encode_string label_nabto ptr;
          udpLabel = nabto_mdns_server_compression_label ptr;
          ptr = nabto_mdns_server_encode_string label_udp ptr;
          localLabel = nabto_mdns_server_compression_label ptr;
          ptr = nabto_mdns_server_encode_string label_local ptr;
          ptr = nabto_mdns_server_uint8_write_forward 0 ptr;
          ptr = write_record_head NABTO_MDNS_PTR 1 ttl (of_nat (length instanceName + 3)) ptr;
          serviceLabel = nabto_mdns_server_compression_label ptr;
          ptr = nabto_mdns_server_encode_string instanceName ptr;
          ptr = nabto_mdns_server_uint16_write_forward 0xC00C ptr
      in (\<lparr>ml_service = serviceLabel, ml_nabto = nabtoLabel, ml_udp = udpLabel, ml_local = localLabel\<rparr>, ptr))"

text \<open>The body of the loop over the subtypes; the state is the label of \<open>_sub\<close> and the pointer.\<close>

definition write_subtype_ptr :: "u32 \<Rightarrow> mdns_labels \<Rightarrow> cstring \<Rightarrow> u16 \<times> wptr \<Rightarrow> u16 \<times> wptr" where
  "write_subtype_ptr ttl labels subtype s =
     (case s of (subLabel, ptr) \<Rightarrow>
       let ptr = nabto_mdns_server_encode_string (snd subtype) ptr;
           (subLabel, ptr) =
             (if subLabel = 0 then
               (let subLabel = nabto_mdns_server_compression_label ptr;
                    ptr = nabto_mdns_server_encode_string label_sub ptr
                in (subLabel, nabto_mdns_server_uint16_write_forward (ml_nabto labels) ptr))
              else (subLabel, nabto_mdns_server_uint16_write_forward subLabel ptr));
           ptr = write_record_head NABTO_MDNS_PTR 1 ttl 2 ptr
       in (subLabel, nabto_mdns_server_uint16_write_forward (ml_service labels) ptr))"

definition write_services_ptr :: "u32 \<Rightarrow> mdns_labels \<Rightarrow> wptr \<Rightarrow> wptr" where
  "write_services_ptr ttl labels ptr =
     (let ptr = nabto_mdns_server_encode_string label_services ptr;
          ptr = nabto_mdns_server_encode_string label_dns_sd ptr;
          ptr = nabto_mdns_server_uint16_write_forward (ml_udp labels) ptr;
          ptr = write_record_head NABTO_MDNS_PTR 1 ttl 2 ptr
      in nabto_mdns_server_uint16_write_forward 0xC00C ptr)"

definition write_srv :: "u32 \<Rightarrow> u16 \<Rightarrow> u16 \<Rightarrow> bytes \<Rightarrow> mdns_labels \<Rightarrow> wptr \<Rightarrow> u16 \<times> wptr" where
  "write_srv ttl cacheFlushBit port instanceName labels ptr =
     (let ptr = nabto_mdns_server_uint16_write_forward (ml_service labels) ptr;
          ptr = write_record_head NABTO_MDNS_SRV (1 + cacheFlushBit) ttl (of_nat (6 + 1 + length instanceName + 2)) ptr;
          ptr = nabto_mdns_server_uint16_write_forward 0 ptr;
          ptr = nabto_mdns_server_uint16_write_forward 0 ptr;
          ptr = nabto_mdns_server_uint16_write_forward port ptr;
          domainLabel = nabto_mdns_server_compression_label ptr;
          ptr = nabto_mdns_server_encode_string instanceName ptr
      in (domainLabel, nabto_mdns_server_uint16_write_forward (ml_local labels) ptr))"

text \<open>The two loops over the text items.\<close>

definition txt_length :: "string_map_item \<Rightarrow> nat" where
  "txt_length item = length (snd (smi_key item)) + 1 + length (snd (smi_value item))"

fun txt_data_length :: "string_map_item list \<Rightarrow> nat \<Rightarrow> nat" where
  "txt_data_length [] txtDataLen = txtDataLen"
| "txt_data_length (item # items) txtDataLen =
     txt_data_length items (txtDataLen + 1 + length (snd (smi_key item)) + 1 + length (snd (smi_value item)))"

text \<open>The outer \<open>None\<close> is the early return for an item that is too long.\<close>

fun write_txt_items :: "string_map_item list \<Rightarrow> wptr \<Rightarrow> wptr option" where
  "write_txt_items [] ptr = Some ptr"
| "write_txt_items (item # items) ptr =
     (if 255 < txt_length item then None
      else
       (let ptr = nabto_mdns_server_uint8_write_forward (of_nat (txt_length item)) ptr;
            ptr = nabto_mdns_server_string_write_forward (snd (smi_key item)) ptr;
            ptr = nabto_mdns_server_string_write_forward [61] ptr;
            ptr = nabto_mdns_server_string_write_forward (snd (smi_value item)) ptr
        in write_txt_items items ptr))"

definition write_txt :: "u32 \<Rightarrow> u16 \<Rightarrow> string_map_item list \<Rightarrow> mdns_labels \<Rightarrow> wptr \<Rightarrow> wptr option" where
  "write_txt ttl cacheFlushBit items labels ptr =
     (let ptr = nabto_mdns_server_uint16_write_forward (ml_service labels) ptr;
          ptr = nabto_mdns_server_uint16_write_forward NABTO_MDNS_TXT ptr;
          ptr = nabto_mdns_server_uint16_write_forward (1 + cacheFlushBit) ptr;
          ptr = nabto_mdns_server_uint32_write_forward ttl ptr;
          txtDataLen = txt_data_length items 0
      in if 65535 < txtDataLen then None
         else write_txt_items items (nabto_mdns_server_uint16_write_forward (of_nat txtDataLen) ptr))"

definition write_ip :: "u32 \<Rightarrow> u16 \<Rightarrow> u16 \<Rightarrow> nn_ip_address \<Rightarrow> wptr \<Rightarrow> wptr" where
  "write_ip ttl cacheFlushBit domainLabel ip ptr =
     (let ptr = nabto_mdns_server_uint16_write_forward domainLabel ptr
      in case ip_type ip of
           NN_IPV4 \<Rightarrow> nabto_mdns_server_data_write_forward (take 4 (ip_bytes ip))
             (write_record_head NABTO_MDNS_A (1 + cacheFlushBit) ttl 4 ptr)
         | NN_IPV6 \<Rightarrow> nabto_mdns_server_data_write_forward (take 16 (ip_bytes ip))
             (write_record_head NABTO_MDNS_AAAA (1 + cacheFlushBit) ttl 16 ptr))"

text \<open>The packet, or \<open>None\<close> when the function returns false.\<close>

definition nabto_mdns_server_build_packet ::
  "'m mdns_context \<Rightarrow> u16 \<Rightarrow> bool \<Rightarrow> bool \<Rightarrow> nn_ip_address list \<Rightarrow> u16 \<Rightarrow> nat \<Rightarrow> bytes option" where
  "nabto_mdns_server_build_packet context pid unicastResponse goodbye ips port bufferSize =
     (case mc_instanceName context of
        None \<Rightarrow> None
      | Some instanceName \<Rightarrow>
         (let cacheFlushBit = (if unicastResponse then 0 else push_bit 15 1);
              ttl = (if goodbye then 0 else 120);
              records = 1 + 1 + 1 + 1 + length ips + nn_string_set_size (mc_subtypes context)
          in if 65535 < records then None
             else
              (let ptr = write_mdns_header pid (of_nat records) (Some ([], bufferSize));
                   (labels, ptr) = write_service_ptr ttl instanceName ptr;
                   (subLabel, ptr) = vector_foreach (write_subtype_ptr ttl labels)
                     (sset_strings (mc_subtypes context)) nn_string_set_begin (0, ptr);
                   ptr = write_services_ptr ttl labels ptr;
                   (domainLabel, ptr) = write_srv ttl cacheFlushBit port instanceName labels ptr
               in case write_txt ttl cacheFlushBit (smap_items (mc_txtItems context)) labels ptr of
                    None \<Rightarrow> None
                  | Some ptr \<Rightarrow>
                      (case fold (write_ip ttl cacheFlushBit domainLabel) ips ptr of
                         None \<Rightarrow> None
                       | Some (w, room) \<Rightarrow> Some w))))"

end
