(* ===== verification/Mdns_Names.thy ===== *)
theory Mdns_Names
  imports Mdns
begin

text \<open>
  What the name matching of the mDNS responder accepts: the reading of names with compression pointers
  is stated as a relation, and the loop of the code is equivalent to it.
\<close>

section \<open>Names in a packet\<close>

text \<open>
  The labels \<open>ls\<close> can be read from the offset \<open>p\<close>, following \<open>h\<close> compression pointers.  The target of a
  pointer has to lie before the end of the pointer, as the code asks it: it may be the pointer itself or
  its second byte.
\<close>

inductive name_at :: "bytes \<Rightarrow> nat \<Rightarrow> bytes list \<Rightarrow> nat \<Rightarrow> bool" for buffer where
  name_end: "name_at buffer p [] 0"
| name_label: "p < length buffer \<Longrightarrow> buffer ! p AND 0xC0 \<noteq> 0xC0 \<Longrightarrow> p + 1 + unat (buffer ! p) \<le> length buffer \<Longrightarrow>
    name_at buffer (p + 1 + unat (buffer ! p)) ls h \<Longrightarrow>
    name_at buffer p (take (unat (buffer ! p)) (drop (p + 1) buffer) # ls) h"
| name_pointer: "p + 1 < length buffer \<Longrightarrow> buffer ! p AND 0xC0 = 0xC0 \<Longrightarrow>
    q = unat (push_bit 8 (ucast (buffer ! p AND NOT 0xC0)) + ucast (buffer ! (p + 1)) :: u16) \<Longrightarrow> q < p + 2 \<Longrightarrow>
    name_at buffer q (l # ls) h \<Longrightarrow> name_at buffer p (l # ls) (Suc h)"

inductive_simps name_at_Nil: "name_at buffer p [] h"
inductive_simps name_at_Cons: "name_at buffer p (l # ls) h"

definition pointer_offset :: "bytes \<Rightarrow> nat \<Rightarrow> nat" where
  "pointer_offset buffer p = unat (push_bit 8 (ucast (buffer ! p AND NOT 0xC0)) + ucast (buffer ! (p + 1)) :: u16)"

lemma name_at_outside: "length buffer \<le> p \<Longrightarrow> \<not> name_at buffer p (l # ls) h"
  by (subst name_at_Cons) auto

lemma name_at_label:
  "p < length buffer \<Longrightarrow> buffer ! p AND 0xC0 \<noteq> 0xC0 \<Longrightarrow>
   name_at buffer p (l # ls) h \<longleftrightarrow> p + 1 + unat (buffer ! p) \<le> length buffer \<and>
     l = take (unat (buffer ! p)) (drop (p + 1) buffer) \<and> name_at buffer (p + 1 + unat (buffer ! p)) ls h"
  by (subst name_at_Cons) auto

lemma name_at_pointer:
  "buffer ! p AND 0xC0 = 0xC0 \<Longrightarrow>
   name_at buffer p (l # ls) h \<longleftrightarrow> p + 1 < length buffer \<and> pointer_offset buffer p < p + 2 \<and>
     (\<exists>k. h = Suc k \<and> name_at buffer (pointer_offset buffer p) (l # ls) k)"
  by (subst name_at_Cons) (auto simp: pointer_offset_def)

lemma match_name_loop_label:
  assumes "p < length buffer" "buffer ! p AND 0xC0 \<noteq> 0xC0"
  shows "match_name_loop buffer (Some p) (label # names) hops \<longleftrightarrow> p + 1 + unat (buffer ! p) \<le> length buffer \<and>
    match_label (take (unat (buffer ! p)) (drop (p + 1) buffer)) label \<and>
    match_name_loop buffer (Some (p + 1 + unat (buffer ! p))) names hops"
  using assms by (subst match_name_loop.simps) (auto simp: nabto_mdns_server_uint8_read_forward_def)

lemma match_name_loop_pointer:
  assumes "p < length buffer" "buffer ! p AND 0xC0 = 0xC0"
  shows "match_name_loop buffer (Some p) (label # names) hops \<longleftrightarrow> p + 1 < length buffer \<and>
    pointer_offset buffer p < p + 2 \<and> hops < 32 \<and>
    match_name_loop buffer (Some (pointer_offset buffer p)) (label # names) (hops + 1)"
  using assms
  by (subst match_name_loop.simps)
    (auto simp: nabto_mdns_server_uint8_read_forward_def NABTO_MDNS_MAX_COMPRESSION_HOPS_def Let_def
      pointer_offset_def add.commute)

lemma match_name_loop_outside: "length buffer \<le> p \<Longrightarrow> \<not> match_name_loop buffer (Some p) (label # names) hops"
  by (subst match_name_loop.simps) (simp add: nabto_mdns_server_uint8_read_forward_def)

lemma match_name_loop_iff:
  "hops \<le> 32 \<Longrightarrow> match_name_loop buffer (Some p) names hops \<longleftrightarrow>
   (\<exists>ls h. name_at buffer p ls h \<and> hops + h \<le> 32 \<and> list_all2 match_label ls names)"
proof (induction "length names + (32 - hops)" arbitrary: p names hops rule: less_induct)
  case less
  show ?case
  proof (cases names)
    case Nil
    then show ?thesis using less.prems by (auto simp: name_at_Nil)
  next
    case (Cons label rest)
    show ?thesis
    proof (cases "p < length buffer")
      case False
      then show ?thesis
        using match_name_loop_outside [of buffer p label rest hops] name_at_outside [of buffer p]
        by (auto simp: Cons list_all2_Cons2)
    next
      case p: True
      show ?thesis
      proof (cases "buffer ! p AND 0xC0 = 0xC0")
        case False
        let ?next = "p + 1 + unat (buffer ! p)"
        let ?inside = "?next \<le> length buffer"
        let ?label = "take (unat (buffer ! p)) (drop (p + 1) buffer)"
        have "match_name_loop buffer (Some (p + 1 + unat (buffer ! p))) rest hops \<longleftrightarrow>
            (\<exists>ls h. name_at buffer (p + 1 + unat (buffer ! p)) ls h \<and> hops + h \<le> 32 \<and> list_all2 match_label ls rest)"
          using less.prems by (intro less.hyps) (auto simp: Cons)
        then have loop: "match_name_loop buffer (Some p) names hops \<longleftrightarrow> ?inside \<and> match_label ?label label \<and>
            (\<exists>ls h. name_at buffer ?next ls h \<and> hops + h \<le> 32 \<and> list_all2 match_label ls rest)"
          unfolding Cons match_name_loop_label [OF p False] by simp
        show ?thesis
        proof
          assume "match_name_loop buffer (Some p) names hops"
          then obtain ls h where h: "?inside" "match_label ?label label" "name_at buffer ?next ls h"
              "hops + h \<le> 32" "list_all2 match_label ls rest"
            using loop by blast
          then have "name_at buffer p (?label # ls) h" using name_at_label [OF p False] by blast
          then show "\<exists>ls h. name_at buffer p ls h \<and> hops + h \<le> 32 \<and> list_all2 match_label ls names"
            using h Cons by (intro exI [of _ "?label # ls"] exI [of _ h]) simp
        next
          assume "\<exists>ls h. name_at buffer p ls h \<and> hops + h \<le> 32 \<and> list_all2 match_label ls names"
          then obtain ls h where h: "name_at buffer p ls h" "hops + h \<le> 32" "list_all2 match_label ls (label # rest)"
            using Cons by blast
          then obtain l ls' where ls: "ls = l # ls'" by (cases ls) auto
          then show "match_name_loop buffer (Some p) names hops"
            using h name_at_label [OF p False] loop by auto
        qed
      next
        case True
        let ?q = "pointer_offset buffer p"
        have ih: "hops < 32 \<Longrightarrow> match_name_loop buffer (Some ?q) (label # rest) (hops + 1) \<longleftrightarrow>
            (\<exists>ls h. name_at buffer ?q ls h \<and> hops + 1 + h \<le> 32 \<and> list_all2 match_label ls (label # rest))"
          by (intro less.hyps) (auto simp: Cons)
        show ?thesis
        proof
          assume "match_name_loop buffer (Some p) names hops"
          then have c: "p + 1 < length buffer" "?q < p + 2" "hops < 32"
              "match_name_loop buffer (Some ?q) (label # rest) (hops + 1)"
            unfolding Cons match_name_loop_pointer [OF p True] by simp_all
          then obtain ls h where h: "name_at buffer ?q ls h" "hops + 1 + h \<le> 32" "list_all2 match_label ls (label # rest)"
            using ih by blast
          then obtain l ls' where "ls = l # ls'" by (cases ls) auto
          then have "name_at buffer p ls (Suc h)" using name_at_pointer [OF True] c h(1) by blast
          then show "\<exists>ls h. name_at buffer p ls h \<and> hops + h \<le> 32 \<and> list_all2 match_label ls names"
            using h(2,3) Cons by (intro exI [of _ ls] exI [of _ "Suc h"]) simp
        next
          assume "\<exists>ls h. name_at buffer p ls h \<and> hops + h \<le> 32 \<and> list_all2 match_label ls names"
          then obtain ls h where h: "name_at buffer p ls h" "hops + h \<le> 32" "list_all2 match_label ls (label # rest)"
            using Cons by blast
          then obtain l ls' where ls: "ls = l # ls'" by (cases ls) auto
          then obtain k where k: "p + 1 < length buffer" "?q < p + 2" "h = Suc k" "name_at buffer ?q ls k"
            using h(1) name_at_pointer [OF True] by blast
          then have "match_name_loop buffer (Some ?q) (label # rest) (hops + 1)"
            using ih h(2,3) by (metis add_Suc_right add_Suc Suc_eq_plus1 Suc_le_lessD add_leD1 le_trans le_add1)
          then show "match_name_loop buffer (Some p) names hops"
            unfolding Cons match_name_loop_pointer [OF p True] using k h(2) by simp
        qed
      qed
    qed
  qed
qed

lemma match_name_iff:
  "match_name buffer (Some p) names \<longleftrightarrow>
   (\<exists>ls h. name_at buffer p ls h \<and> h \<le> 32 \<and> list_all2 match_label ls names)"
  by (simp add: match_name_def match_name_loop_iff)

text \<open>C39: name matching.  A name at an offset is accepted exactly when the labels that are asked for can be
  read from there, following at most 32 compression pointers, and agree up to the case of letters;
  labels that follow them in the packet do not matter.  The target of a pointer has to lie before the
  end of the pointer, not before the pointer, as the comments of the code say: a pointer to its own
  second byte, which is then read as the length of a label, is accepted.\<close>

theorem match_name_decodes:
  "(match_name buffer (Some p) names \<longleftrightarrow>
    (\<exists>ls h. name_at buffer p ls h \<and> h \<le> NABTO_MDNS_MAX_COMPRESSION_HOPS \<and> list_all2 match_label ls names)) \<and>
   match_name [0xC0, 1, 97] (Some 0) [[97]]"
proof
  show "match_name buffer (Some p) names \<longleftrightarrow>
    (\<exists>ls h. name_at buffer p ls h \<and> h \<le> NABTO_MDNS_MAX_COMPRESSION_HOPS \<and> list_all2 match_label ls names)"
    by (simp add: match_name_iff NABTO_MDNS_MAX_COMPRESSION_HOPS_def)
  show "match_name [0xC0, 1, 97] (Some 0) [[97]]"
  proof -
    have "name_at [0xC0, 1, 97] (1 + 1 + unat ([0xC0, 1, 97 :: u8] ! 1)) [] 0" by (rule name_end)
    then have "name_at [0xC0, 1, 97] 1 [[97]] 0" using name_label [of 1 "[0xC0, 1, 97]" "[]" 0] by simp
    then have "name_at [0xC0, 1, 97] 0 [[97]] (Suc 0)" by (intro name_pointer [where q = 1]) simp_all
    then show ?thesis unfolding match_name_iff by (intro exI [of _ "[[97]]"] exI [of _ "Suc 0"]) (simp add: match_label_def)
  qed
qed

end
