(* ===== verification/Mdns_Props.thy ===== *)
theory Mdns_Props
  imports Mdns_Names
begin

text \<open>
  The responses of the mDNS responder.  The packets are read back with the name matching of the same
  server: a name that is written refers with its compression pointers to the bytes before it, these
  references stay valid when more is written, and so every writer of \<open>build_packet\<close> adds one record
  (or one per subtype and address) to the records that can be walked through.
\<close>

section \<open>Walking through a packet\<close>

lemma name_at_append: "name_at b p ls h \<Longrightarrow> name_at (b @ c) p ls h"
proof (induction p ls h rule: name_at.induct)
  case (name_label p ls h)
  then show ?case
    using name_at.name_label [of p "b @ c" ls h] by (simp add: nth_append)
next
  case (name_pointer p q l ls h)
  then show ?case
    using name_at.name_pointer [of p "b @ c" q l ls h] by (simp add: nth_append)
qed (rule name_at.name_end)

lemma skip_name_append: "skip_name b ptr = Some q \<Longrightarrow> skip_name (b @ c) ptr = Some q"
proof (induction b ptr rule: skip_name.induct)
  case (1 b ptr)
  show ?case
  proof (cases "nabto_mdns_server_uint8_read_forward b ptr")
    case None
    then show ?thesis using 1(2) by (subst (asm) skip_name.simps) simp
  next
    case (Some r)
    obtain len p where r: "r = (len, p)" by (cases r)
    have e: "nabto_mdns_server_uint8_read_forward (b @ c) ptr = Some (len, p)"
      using Some r by (auto simp: read_uint8_Some nth_append)
    have n: "nabto_mdns_server_uint8_read_forward b (Some p) = Some x \<Longrightarrow>
        nabto_mdns_server_uint8_read_forward (b @ c) (Some p) = Some x" for x
      by (cases x) (auto simp: read_uint8_Some nth_append)
    show ?thesis
      using 1(2) 1(1) [OF Some r [symmetric]] Some r e n
      by (subst skip_name.simps, subst (asm) skip_name.simps) (auto split: if_splits)
  qed
qed

text \<open>The start of the record that follows the one at the pointer.\<close>

definition skip_record :: "bytes \<Rightarrow> nat option \<Rightarrow> nat option" where
  "skip_record buffer ptr =
     (case skip_name buffer ptr of
        None \<Rightarrow> None
      | Some p \<Rightarrow>
         (case nabto_mdns_server_uint16_read_forward buffer (Some (p + 8)) of
            None \<Rightarrow> None
          | Some (rdlength, q) \<Rightarrow> if q + unat rdlength \<le> length buffer then Some (q + unat rdlength) else None))"

lemma skip_record_append: "skip_record b ptr = Some q \<Longrightarrow> skip_record (b @ c) ptr = Some q"
  by (auto simp: skip_record_def nabto_mdns_server_uint16_read_forward_def nth_append
      dest!: skip_name_append [of b ptr _ c] split: option.splits if_splits)

text \<open>Where records that have these names end, when they are read one after the other.\<close>

fun walk_records :: "bytes \<Rightarrow> nat option \<Rightarrow> bytes list list \<Rightarrow> nat option" where
  "walk_records buffer ptr [] = ptr"
| "walk_records buffer ptr (name # names) =
     (if match_name buffer ptr name then walk_records buffer (skip_record buffer ptr) names else None)"

lemma walk_records_None: "walk_records b None names = Some q \<Longrightarrow> False"
proof (induction names)
  case (Cons name names)
  have "skip_record b None = None"
    by (simp add: skip_record_def skip_name.simps nabto_mdns_server_uint8_read_forward_def)
  then show ?case using Cons by (auto split: if_splits)
qed simp

lemma walk_records_Cons:
  "walk_records b ptr (name # names) = Some q \<longleftrightarrow>
   match_name b ptr name \<and> (\<exists>r. skip_record b ptr = Some r \<and> walk_records b (Some r) names = Some q)"
  using walk_records_None [of b names q] by (cases "skip_record b ptr") auto

declare walk_records.simps(2) [simp del]

lemma match_name_append: "match_name b (Some p) name \<Longrightarrow> match_name (b @ c) (Some p) name"
  using name_at_append unfolding match_name_iff by blast

lemma walk_records_append:
  "walk_records b (Some p) names = Some q \<Longrightarrow> walk_records (b @ c) (Some p) names = Some q"
proof (induction names arbitrary: p)
  case (Cons name names)
  then show ?case
    unfolding walk_records_Cons using match_name_append skip_record_append by blast
qed simp

lemma walk_records_join:
  "walk_records b (Some p) names = Some q \<Longrightarrow> walk_records b (Some q) names' = Some r \<Longrightarrow>
   walk_records b (Some p) (names @ names') = Some r"
proof (induction names arbitrary: p)
  case (Cons n names)
  then show ?case unfolding append_Cons walk_records_Cons by blast
qed simp

section \<open>Names that are written\<close>

text \<open>The bytes after \<open>w\<close> are one name, and its labels \<open>ls\<close> can be read there with at most \<open>h\<close> pointers.\<close>

definition wrote_name :: "bytes \<Rightarrow> bytes \<Rightarrow> bytes list \<Rightarrow> nat \<Rightarrow> bool" where
  "wrote_name w nb ls h \<longleftrightarrow> skip_name (w @ nb) (Some (length w)) = Some (length (w @ nb)) \<and>
     (\<exists>k \<le> h. name_at (w @ nb) (length w) ls k)"

definition refers :: "bytes \<Rightarrow> u16 \<Rightarrow> bytes list \<Rightarrow> nat \<Rightarrow> bool" where
  "refers w label ls h \<longleftrightarrow> (\<exists>n. label = 0xC000 + of_nat n \<and> n < 0x4000 \<and> n \<le> length w \<and> (\<exists>k \<le> h. name_at w n ls k))"

lemma refers_append: "refers w label ls h \<Longrightarrow> refers (w @ c) label ls h"
proof -
  assume "refers w label ls h"
  then obtain n k where n: "label = 0xC000 + of_nat n" "n < 0x4000" "n \<le> length w" "k \<le> h" "name_at w n ls k"
    unfolding refers_def by blast
  then have "name_at (w @ c) n ls k" by (intro name_at_append)
  then show ?thesis unfolding refers_def using n by (intro exI [of _ n]) auto
qed

lemma top_bits: "(b :: u8) AND 0xC0 = 0xC0 \<longleftrightarrow> 192 \<le> unat b"
proof -
  have "\<forall>n < 256. ((of_nat n :: u8) AND 0xC0 = 0xC0) = (192 \<le> n)" by code_simp
  then have "((of_nat (unat b) :: u8) AND 0xC0 = 0xC0) = (192 \<le> unat b)" using unat_u8_less [of b] by blast
  then show ?thesis by simp
qed

lemma wrote_end: "wrote_name w [0] [] 0"
  using name_end by (auto simp: wrote_name_def skip_name.simps [of "w @ [0]"] nabto_mdns_server_uint8_read_forward_def)

lemma label_bytes:
  assumes "n < 0x4000"
  shows "unat (byte_at 8 (0xC000 + of_nat n :: u16)) = 192 + n div 256" "unat (byte_at 0 (0xC000 + of_nat n :: u16)) = n mod 256"
proof -
  have u: "unat (0xC000 + of_nat n :: u16) = 0xC000 + n"
    using assms by (simp add: unat_word_ariths unat_of_nat)
  have "unat (byte_at 8 (0xC000 + of_nat n :: u16)) = ((0xC000 + n) div 256) mod 256"
    by (simp add: u)
  then show "unat (byte_at 8 (0xC000 + of_nat n :: u16)) = 192 + n div 256" using assms by simp
  have "unat (byte_at 0 (0xC000 + of_nat n :: u16)) = (0xC000 + n) mod 256"
    by (simp add: u)
  also have "\<dots> = (n + 192 * 256) mod 256" by (simp add: add.commute)
  also have "\<dots> = n mod 256" by (rule mod_mult_self1)
  finally show "unat (byte_at 0 (0xC000 + of_nat n :: u16)) = n mod 256" .
qed

lemma offset_value:
  assumes "n < 0x4000"
  shows "unat (push_bit 8 (ucast (byte_at 8 (0xC000 + of_nat n :: u16) AND NOT 0xC0)) +
    ucast (byte_at 0 (0xC000 + of_nat n :: u16)) :: u16) = n"
proof -
  have m: "\<forall>k < 64. unat ((of_nat (192 + k) :: u8) AND NOT 0xC0) = k" by code_simp
  have "byte_at 8 (0xC000 + of_nat n :: u16) = of_nat (192 + n div 256)"
    unfolding label_bytes(1) [OF assms, symmetric] by (simp del: unat_byte_at_u16)
  then have "unat (byte_at 8 (0xC000 + of_nat n :: u16) AND NOT 0xC0) = n div 256"
    using m assms by simp
  then show ?thesis
    using assms label_bytes(2) [OF assms]
    unfolding of_be16_plus unat_of_be16 by simp
qed

lemma wrote_pointer:
  assumes "refers w label (l # ls) h"
  shows "wrote_name w (be16 label) (l # ls) (Suc h)"
proof -
  obtain n k where n: "label = 0xC000 + of_nat n" "n < 0x4000" "n \<le> length w" "k \<le> h" "name_at w n (l # ls) k"
    using assms unfolding refers_def by blast
  have t: "byte_at 8 label AND 0xC0 = 0xC0"
    unfolding top_bits n(1) using label_bytes(1) [OF n(2)] by simp
  have "name_at (w @ be16 label) (length w) (l # ls) (Suc k)"
    using t n(3) offset_value [OF n(2)]
    by (intro name_pointer [where q = n] name_at_append n(5)) (simp_all add: be16_def nth_append n(1))
  moreover have "skip_name (w @ be16 label) (Some (length w)) = Some (length (w @ be16 label))"
    using t by (subst skip_name.simps) (simp add: nabto_mdns_server_uint8_read_forward_def be16_def nth_append)
  ultimately show ?thesis using n(4) unfolding wrote_name_def by (meson Suc_le_mono)
qed

lemma wrote_label:
  assumes "wrote_name (w @ of_nat (length l) # l) nb ls h" "0 < length l" "length l \<le> 63"
  shows "wrote_name w ((of_nat (length l) # l) @ nb) (l # ls) h"
proof -
  let ?b = "w @ (of_nat (length l) # l) @ nb" and ?len = "of_nat (length l) :: u8"
  have u: "unat ?len = length l" using assms(3) by (simp add: unat_of_nat)
  have t: "?len AND 0xC0 \<noteq> 0xC0" unfolding top_bits u using assms(3) by simp
  have b: "?b ! length w = ?len" by (simp add: nth_append)
  obtain k where k: "k \<le> h" "name_at ?b (length w + 1 + length l) ls k"
    using assms(1) unfolding wrote_name_def by auto
  have "name_at ?b (length w) (take (length l) (drop (length w + 1) ?b) # ls) k"
    using name_label [of "length w" ?b ls k] t k(2) unfolding b u by simp
  then have n: "name_at ?b (length w) (l # ls) k" by simp
  have "?len \<noteq> 0" "\<not> 63 < ?len"
    using assms(2,3) u by (auto simp: word_less_nat_alt)
  then have "skip_name ?b (Some (length w)) = skip_name ?b (Some (length w + 1 + length l))"
    using t by (subst skip_name.simps) (simp add: nabto_mdns_server_uint8_read_forward_def nth_append u)
  also have "\<dots> = Some (length ?b)" using assms(1) unfolding wrote_name_def by simp
  finally show ?thesis using n k(1) unfolding wrote_name_def by blast
qed

lemma refers_name:
  "wrote_name w nb ls h \<Longrightarrow> length w < 0x4000 \<Longrightarrow> refers (w @ nb) (0xC000 + of_nat (length w)) ls h"
  unfolding refers_def wrote_name_def by (intro exI [of _ "length w"]) simp

lemma read_uint16_at:
  "nabto_mdns_server_uint16_read_forward (a @ be16 v @ c) (Some (length a)) = Some (v, length a + 2)"
  by (simp add: nabto_mdns_server_uint16_read_forward_def be16_def nth_append of_be16_plus)

text \<open>A whole record after \<open>w\<close>.\<close>

lemma walk_record:
  assumes "wrote_name w nb ls h" "h \<le> 32" "length d < 65536"
  shows "walk_records (w @ nb @ be16 t @ be16 c @ be32 ttl @ be16 (of_nat (length d)) @ d) (Some (length w)) [ls] =
    Some (length (w @ nb @ be16 t @ be16 c @ be32 ttl @ be16 (of_nat (length d)) @ d))"
proof -
  let ?rest = "be16 t @ be16 c @ be32 ttl @ be16 (of_nat (length d)) @ d"
  have m: "match_name (w @ nb @ ?rest) (Some (length w)) ls"
  proof -
    have "list_all2 match_label ls ls" by (simp add: list_all2_refl match_label_def)
    then show ?thesis
      using assms(1,2) name_at_append [of "w @ nb" "length w" ls _ ?rest]
      unfolding match_name_iff wrote_name_def append.assoc by (meson le_trans)
  qed
  have n: "skip_name (w @ nb @ ?rest) (Some (length w)) = Some (length (w @ nb))"
    using assms(1) skip_name_append [of "w @ nb" "Some (length w)" _ ?rest] unfolding wrote_name_def by simp
  have "nabto_mdns_server_uint16_read_forward (w @ nb @ ?rest) (Some (length (w @ nb) + 8)) =
      Some (of_nat (length d), length (w @ nb) + 10)"
    using read_uint16_at [of "w @ nb @ be16 t @ be16 c @ be32 ttl" "of_nat (length d)" d]
    by (simp add: add.assoc)
  then show ?thesis
    using m n assms(3) unfolding walk_records_Cons skip_record_def by (simp add: unat_of_nat)
qed

section \<open>The packet that is written\<close>

definition encoded :: "bytes \<Rightarrow> bytes" where
  "encoded l = of_nat (length l) # l"

lemma mdns_uint16_write: "nabto_mdns_server_uint16_write_forward v buf = wput (be16 v) buf"
  by (simp add: nabto_mdns_server_uint16_write_forward_def nabto_mdns_server_uint8_write_forward_def wput_wput be16_def)

lemma mdns_uint32_write: "nabto_mdns_server_uint32_write_forward v buf = wput (be32 v) buf"
  by (simp add: nabto_mdns_server_uint32_write_forward_def nabto_mdns_server_uint8_write_forward_def wput_wput be32_def)

lemma wput_Nil [simp]: "wput [] p = p"
  by (auto simp: wput_def split: option.splits)

lemma mdns_string_write: "nabto_mdns_server_string_write_forward val buf = wput val buf"
  by (induction val buf rule: nabto_mdns_server_string_write_forward.induct)
    (simp_all add: nabto_mdns_server_uint8_write_forward_def wput_wput)

lemma mdns_data_write: "nabto_mdns_server_data_write_forward val buf = wput val buf"
  by (induction val buf rule: nabto_mdns_server_data_write_forward.induct)
    (simp_all add: nabto_mdns_server_uint8_write_forward_def wput_wput)

lemma mdns_encode_string: "length l \<le> 255 \<Longrightarrow> nabto_mdns_server_encode_string l buf = wput (encoded l) buf"
  by (simp add: nabto_mdns_server_encode_string_def mdns_string_write nabto_mdns_server_uint8_write_forward_def
      wput_wput encoded_def)

lemma mdns_record_head:
  "write_record_head t c ttl n ptr = wput (be16 t @ be16 c @ be32 ttl @ be16 n) ptr"
  by (simp add: write_record_head_def mdns_uint16_write mdns_uint32_write wput_wput)

lemmas mdns_writes = mdns_uint16_write mdns_uint32_write mdns_string_write mdns_data_write mdns_record_head
  nabto_mdns_server_uint8_write_forward_def

text \<open>What holds of the bytes written so far, unless the packet has already been given up.\<close>

definition holds :: "nat \<Rightarrow> (bytes \<Rightarrow> bool) \<Rightarrow> wptr \<Rightarrow> bool" where
  "holds sz P ptr \<longleftrightarrow> (\<forall>w room. ptr = Some (w, room) \<longrightarrow> length w + room = sz \<and> P w)"

lemma holds_wput:
  assumes "holds sz Q ptr" "\<And>w. Q w \<Longrightarrow> length w + length bs \<le> sz \<Longrightarrow> P (w @ bs)"
  shows "holds sz P (wput bs ptr)"
  using assms unfolding holds_def by (auto simp: wput_def split: option.splits if_splits)

lemma holds_mono: "holds sz Q ptr \<Longrightarrow> (\<And>w. Q w \<Longrightarrow> P w) \<Longrightarrow> holds sz P ptr"
  unfolding holds_def by blast

text \<open>The names that the labels of the packet refer to.\<close>

definition name_nabto :: "bytes list" where "name_nabto = [label_nabto, label_udp, label_local]"

definition name_service :: "bytes \<Rightarrow> bytes list" where "name_service inst = inst # name_nabto"

definition labels_ok :: "bytes \<Rightarrow> mdns_labels \<Rightarrow> bytes \<Rightarrow> bool" where
  "labels_ok inst labels w \<longleftrightarrow> refers w (ml_service labels) (name_service inst) 1 \<and>
     refers w (ml_nabto labels) name_nabto 0 \<and> refers w (ml_udp labels) [label_udp, label_local] 0 \<and>
     refers w (ml_local labels) [label_local] 0"

definition ready :: "bytes \<Rightarrow> bytes \<Rightarrow> mdns_labels \<Rightarrow> bytes list list \<Rightarrow> bytes \<Rightarrow> bool" where
  "ready hdr inst labels names w \<longleftrightarrow> take 12 w = hdr \<and> length hdr = 12 \<and> labels_ok inst labels w \<and>
     walk_records w (Some 12) names = Some (length w)"

lemma labels_ok_append: "labels_ok inst labels w \<Longrightarrow> labels_ok inst labels (w @ c)"
  unfolding labels_ok_def using refers_append by blast

lemma ready_record:
  assumes "ready hdr inst labels names w" "wrote_name w nb ls h" "h \<le> 32" "length d < 65536"
  shows "ready hdr inst labels (names @ [ls]) (w @ nb @ be16 t @ be16 c @ be32 ttl @ be16 (of_nat (length d)) @ d)"
proof -
  let ?r = "nb @ be16 t @ be16 c @ be32 ttl @ be16 (of_nat (length d)) @ d"
  have "12 \<le> length w" using assms(1) unfolding ready_def by (metis length_take min.absorb_iff2 min.commute)
  moreover have "walk_records (w @ ?r) (Some 12) (names @ [ls]) = Some (length (w @ ?r))"
    using assms(1) walk_record [OF assms(2-4), of t c ttl] walk_records_append [of w 12 names "length w" ?r]
    unfolding ready_def by (intro walk_records_join [of _ _ names "length w"]) auto
  ultimately show ?thesis
    using assms(1) labels_ok_append unfolding ready_def by auto
qed

text \<open>The three ways a name is written: in full, as labels before a pointer, as a pointer.\<close>

lemma wrote_encoded:
  assumes "wrote_name (w @ encoded l) nb ls h" "0 < length l" "length l \<le> 63"
  shows "wrote_name w (encoded l @ nb) (l # ls) h"
  using wrote_label [OF assms(1) [unfolded encoded_def] assms(2,3)] by (simp add: encoded_def)

lemma label_lengths:
  "length label_nabto = 6" "length label_udp = 4" "length label_local = 5" "length label_services = 9"
  "length label_dns_sd = 7" "length label_sub = 4"
  by (simp_all add: label_nabto_def label_udp_def label_local_def label_services_def label_dns_sd_def label_sub_def)

lemma refers_at:
  "wrote_name w nb ls h \<Longrightarrow> length w < 0x4000 \<Longrightarrow> refers (w @ nb @ c) (0xC000 + of_nat (length w)) ls h"
  using refers_append [OF refers_name, of w nb ls h c] by simp

lemma length_encoded [simp]: "length (encoded l) = length l + 1"
  by (simp add: encoded_def)

lemma compression_label_Some [simp]: "nabto_mdns_server_compression_label (Some (w, room)) = 0xC000 + of_nat (length w)"
  by (simp add: nabto_mdns_server_compression_label_def)

lemma wrote_nabto: "wrote_name w (encoded label_nabto @ encoded label_udp @ encoded label_local @ [0]) name_nabto 0"
  and wrote_udp: "wrote_name w (encoded label_udp @ encoded label_local @ [0]) [label_udp, label_local] 0"
  and wrote_local: "wrote_name w (encoded label_local @ [0]) [label_local] 0"
  unfolding name_nabto_def by (intro wrote_encoded wrote_end; simp add: label_lengths)+

lemma wput_SomeD: "wput bs p = Some (w, room) \<Longrightarrow> \<exists>v. p = Some (v, room + length bs) \<and> w = v @ bs"
  by (auto simp: wput_def split: option.splits if_splits)

lemma wrote_pointer_to: "refers w label ls h \<Longrightarrow> ls \<noteq> [] \<Longrightarrow> wrote_name w (be16 label) ls (Suc h)"
  using wrote_pointer by (cases ls) auto

lemma wrote_label_pointer:
  "refers (w @ encoded l) label ls h \<Longrightarrow> ls \<noteq> [] \<Longrightarrow> 0 < length l \<Longrightarrow> length l \<le> 63 \<Longrightarrow>
   wrote_name w (encoded l @ be16 label) (l # ls) (Suc h)"
  by (intro wrote_encoded wrote_pointer_to)

lemma names_nonempty [simp]: "name_nabto \<noteq> []" "name_service inst \<noteq> []"
  by (simp_all add: name_nabto_def name_service_def)

lemma service_ptr:
  assumes "write_service_ptr ttl inst (Some (hdr, room)) = (labels, ptr)" "length hdr = 12"
    "0 < length inst" "length inst \<le> 63" "12 + room = sz"
  shows "holds sz (ready hdr inst labels [name_nabto]) ptr"
proof -
  let ?nb = "encoded label_nabto @ encoded label_udp @ encoded label_local @ [0]"
  let ?d = "encoded inst @ be16 0xC00C"
  let ?head = "be16 NABTO_MDNS_PTR @ be16 1 @ be32 ttl @ be16 (of_nat (length ?d))"
  let ?rec = "?nb @ ?head @ ?d"
  have p: "ptr = wput ?rec (Some (hdr, room))"
    using assms(1,4) by (auto simp: write_service_ptr_def Let_def mdns_encode_string label_lengths mdns_writes wput_wput
        add.commute)
  have "ready hdr inst labels [name_nabto] (hdr @ ?rec)" if "length ?rec \<le> room"
  proof -
    have l: "labels = \<lparr>ml_service = 0xC000 + of_nat (length (hdr @ ?nb @ ?head)), ml_nabto = 0xC000 + of_nat (length hdr),
        ml_udp = 0xC000 + of_nat (length (hdr @ encoded label_nabto)),
        ml_local = 0xC000 + of_nat (length (hdr @ encoded label_nabto @ encoded label_udp))\<rparr>"
      using assms(1,4) that by (auto simp: write_service_ptr_def Let_def mdns_encode_string label_lengths mdns_writes
          wput_def add.commute)
    have n: "refers (hdr @ ?rec) (ml_nabto labels) name_nabto 0"
      using refers_at [OF wrote_nabto [of hdr], of "?head @ ?d"] assms(2) unfolding l by simp
    have n': "refers (hdr @ ?nb @ ?head @ encoded inst) 0xC00C name_nabto 0"
      using refers_at [OF wrote_nabto [of hdr], of "?head @ encoded inst"] assms(2) by simp
    have u: "refers (hdr @ ?rec) (ml_udp labels) [label_udp, label_local] 0"
      using refers_at [OF wrote_udp [of "hdr @ encoded label_nabto"], of "?head @ ?d"] assms(2)
      unfolding l by (simp add: label_lengths)
    have o: "refers (hdr @ ?rec) (ml_local labels) [label_local] 0"
      using refers_at [OF wrote_local [of "hdr @ encoded label_nabto @ encoded label_udp"], of "?head @ ?d"] assms(2)
      unfolding l by (simp add: label_lengths)
    have "wrote_name (hdr @ ?nb @ ?head) ?d (name_service inst) 1"
      using wrote_label_pointer [of "hdr @ ?nb @ ?head" inst "0xC00C" name_nabto 0] n' assms(3,4)
      unfolding name_service_def by simp
    then have s: "refers (hdr @ ?rec) (ml_service labels) (name_service inst) 1"
      using refers_at [of "hdr @ ?nb @ ?head" ?d _ _ "[]"] assms(2) unfolding l by (simp add: label_lengths)
    have "walk_records (hdr @ ?rec) (Some 12) [name_nabto] = Some (length (hdr @ ?rec))"
      using walk_record [OF wrote_nabto [of hdr], of ?d NABTO_MDNS_PTR 1 ttl] assms(2,4) by simp
    then show ?thesis
      using n u o s assms(2) unfolding ready_def labels_ok_def by simp
  qed
  then show ?thesis
    using assms(2,5) unfolding holds_def p by auto
qed

lemma subtype_ptr:
  assumes "holds sz (\<lambda>w. ready hdr inst labels names w \<and> (label = 0 \<or> refers w label (label_sub # name_nabto) 1)) ptr"
    "write_subtype_ptr ttl labels subtype (label, ptr) = (label', ptr')"
    "0 < length (snd subtype)" "length (snd subtype) \<le> 63" "sz \<le> 0x4000"
  shows "holds sz (\<lambda>w. ready hdr inst labels (names @ [snd subtype # label_sub # name_nabto]) w \<and>
    (label' = 0 \<or> refers w label' (label_sub # name_nabto) 1)) ptr'"
proof -
  let ?s = "encoded (snd subtype)" and ?d = "be16 (ml_service labels)"
  let ?tail = "be16 NABTO_MDNS_PTR @ be16 1 @ be32 ttl @ be16 (of_nat (length ?d)) @ ?d"
  show ?thesis
  proof (cases "label = 0")
    case True
    let ?rest = "encoded label_sub @ be16 (ml_nabto labels)"
    have e: "label' = nabto_mdns_server_compression_label (wput ?s ptr)" "ptr' = wput ((?s @ ?rest) @ ?tail) ptr"
      using assms(2,4) True by (auto simp: write_subtype_ptr_def Let_def mdns_encode_string label_lengths mdns_writes wput_wput)
    show ?thesis
      unfolding holds_def
    proof (intro allI impI)
      fix w room
      assume "ptr' = Some (w, room)"
      then obtain v where v: "ptr = Some (v, room + length ((?s @ ?rest) @ ?tail))" "w = v @ (?s @ ?rest) @ ?tail"
        using wput_SomeD e(2) by metis
      have r: "ready hdr inst labels names v" "length v + length ((?s @ ?rest) @ ?tail) + room = sz"
        using assms(1) v(1) unfolding holds_def by auto
      have "refers ((v @ ?s) @ encoded label_sub) (ml_nabto labels) name_nabto 0"
        using r(1) refers_append unfolding ready_def labels_ok_def by blast
      then have sub: "wrote_name (v @ ?s) ?rest (label_sub # name_nabto) 1"
        using wrote_label_pointer [of "v @ ?s" label_sub "ml_nabto labels" name_nabto 0] by (simp add: label_lengths)
      have "label' = 0xC000 + of_nat (length (v @ ?s))"
        using e(1) v(1) by (simp add: wput_def)
      then have "refers w label' (label_sub # name_nabto) 1"
        using refers_at [OF sub, of ?tail] r(2) assms(5) v(2) by simp
      moreover have "ready hdr inst labels (names @ [snd subtype # label_sub # name_nabto]) w"
        using ready_record [OF r(1) wrote_encoded [OF sub assms(3,4)], of ?d NABTO_MDNS_PTR 1 ttl] v(2) by simp
      ultimately show "length w + room = sz \<and> ready hdr inst labels (names @ [snd subtype # label_sub # name_nabto]) w \<and>
          (label' = 0 \<or> refers w label' (label_sub # name_nabto) 1)"
        using r(2) v(2) by simp
    qed
  next
    case False
    have e: "label' = label" "ptr' = wput ((?s @ be16 label) @ ?tail) ptr"
      using assms(2,4) False by (auto simp: write_subtype_ptr_def Let_def mdns_encode_string mdns_writes wput_wput)
    show ?thesis
      unfolding e
    proof (rule holds_wput [OF assms(1)])
      fix w
      assume w: "ready hdr inst labels names w \<and> (label = 0 \<or> refers w label (label_sub # name_nabto) 1)"
      then have l: "refers w label (label_sub # name_nabto) 1" using False by blast
      then have "wrote_name w (?s @ be16 label) (snd subtype # label_sub # name_nabto) 2"
        using wrote_label_pointer [OF refers_append [OF l]] assms(3,4) by (simp add: numeral_2_eq_2)
      then show "ready hdr inst labels (names @ [snd subtype # label_sub # name_nabto]) (w @ (?s @ be16 label) @ ?tail) \<and>
          (label = 0 \<or> refers (w @ (?s @ be16 label) @ ?tail) label (label_sub # name_nabto) 1)"
        using ready_record [of hdr inst labels names w "?s @ be16 label" _ 2 ?d NABTO_MDNS_PTR 1 ttl] w
          refers_append [OF l] by simp
    qed
  qed
qed

lemma subtypes_ptr:
  assumes "holds sz (\<lambda>w. ready hdr inst labels names w \<and> (label = 0 \<or> refers w label (label_sub # name_nabto) 1)) ptr"
    "\<forall>s \<in> set subs. 0 < length (snd s) \<and> length (snd s) \<le> 63" "sz \<le> 0x4000"
    "fold (write_subtype_ptr ttl labels) subs (label, ptr) = (label', ptr')"
  shows "holds sz (ready hdr inst labels (names @ map (\<lambda>s. snd s # label_sub # name_nabto) subs)) ptr'"
  using assms
proof (induction subs arbitrary: names label ptr)
  case Nil
  then show ?case unfolding holds_def by simp
next
  case (Cons sub subs)
  obtain l p where q: "write_subtype_ptr ttl labels sub (label, ptr) = (l, p)" by (metis surj_pair)
  have "holds sz (\<lambda>w. ready hdr inst labels (names @ [snd sub # label_sub # name_nabto]) w \<and>
      (l = 0 \<or> refers w l (label_sub # name_nabto) 1)) p"
    using subtype_ptr [OF Cons.prems(1) q] Cons.prems(2,3) by simp
  then show ?case using Cons.IH Cons.prems(2-4) q by fastforce
qed

lemma services_ptr:
  assumes "holds sz (ready hdr inst labels names) ptr"
  shows "holds sz (ready hdr inst labels (names @ [[label_services, label_dns_sd, label_udp, label_local]]))
    (write_services_ptr ttl labels ptr)"
proof -
  let ?nb = "encoded label_services @ encoded label_dns_sd @ be16 (ml_udp labels)" and ?d = "be16 0xC00C"
  let ?rec = "?nb @ be16 NABTO_MDNS_PTR @ be16 1 @ be32 ttl @ be16 (of_nat (length ?d)) @ ?d"
  have e: "write_services_ptr ttl labels ptr = wput ?rec ptr"
    by (simp add: write_services_ptr_def mdns_encode_string label_lengths mdns_writes wput_wput)
  show ?thesis
    unfolding e
  proof (rule holds_wput [OF assms])
    fix w
    assume r: "ready hdr inst labels names w"
    have "refers ((w @ encoded label_services) @ encoded label_dns_sd) (ml_udp labels) [label_udp, label_local] 0"
      using r refers_append unfolding ready_def labels_ok_def by blast
    then have "wrote_name w ?nb [label_services, label_dns_sd, label_udp, label_local] 1"
      using wrote_pointer_to [of "(w @ encoded label_services) @ encoded label_dns_sd" "ml_udp labels" _ 0]
      by (intro wrote_encoded) (simp_all add: label_lengths)
    then show "ready hdr inst labels (names @ [[label_services, label_dns_sd, label_udp, label_local]]) (w @ ?rec)"
      using ready_record [OF r, of ?nb _ 1 ?d] by simp
  qed
qed

lemma wrote_service: "labels_ok inst labels w \<Longrightarrow> wrote_name w (be16 (ml_service labels)) (name_service inst) 2"
  using wrote_pointer_to [of w "ml_service labels" "name_service inst" 1]
  by (simp add: labels_ok_def numeral_2_eq_2)

lemma srv_record:
  assumes "holds sz (ready hdr inst labels names) ptr" "write_srv ttl cf port inst labels ptr = (domain, ptr')"
    "0 < length inst" "length inst \<le> 63" "sz \<le> 0x4000"
  shows "holds sz (\<lambda>w. ready hdr inst labels (names @ [name_service inst]) w \<and> refers w domain [inst, label_local] 1) ptr'"
proof -
  let ?d1 = "be16 0 @ be16 0 @ be16 port" and ?d2 = "encoded inst @ be16 (ml_local labels)"
  let ?head = "be16 (ml_service labels) @ be16 NABTO_MDNS_SRV @ be16 (1 + cf) @ be32 ttl @ be16 (of_nat (length (?d1 @ ?d2)))"
  have e: "domain = nabto_mdns_server_compression_label (wput (?head @ ?d1) ptr)" "ptr' = wput (?head @ ?d1 @ ?d2) ptr"
    using assms(2,4) by (auto simp: write_srv_def Let_def mdns_encode_string mdns_writes wput_wput)
  show ?thesis
    unfolding holds_def
  proof (intro allI impI)
    fix w room
    assume "ptr' = Some (w, room)"
    then obtain v where v: "ptr = Some (v, room + length (?head @ ?d1 @ ?d2))" "w = v @ ?head @ ?d1 @ ?d2"
      using wput_SomeD e(2) by metis
    have r: "ready hdr inst labels names v" "length v + length (?head @ ?d1 @ ?d2) + room = sz"
      using assms(1) v(1) unfolding holds_def by auto
    let ?v = "v @ ?head @ ?d1"
    have "refers (?v @ encoded inst) (ml_local labels) [label_local] 0"
      using r(1) refers_append unfolding ready_def labels_ok_def by (metis append.assoc)
    then have "wrote_name ?v ?d2 [inst, label_local] 1"
      using wrote_label_pointer [of ?v inst] assms(3,4) by simp
    moreover have "domain = 0xC000 + of_nat (length ?v)"
      using e(1) v(1) by (simp add: wput_def)
    ultimately have "refers w domain [inst, label_local] 1"
      using refers_at [of ?v ?d2 _ _ "[]"] r(2) assms(5) v(2) by simp
    moreover have s: "wrote_name v (be16 (ml_service labels)) (name_service inst) 2"
      using r(1) wrote_service unfolding ready_def by blast
    ultimately have "ready hdr inst labels (names @ [name_service inst]) w \<and> refers w domain [inst, label_local] 1"
      using ready_record [OF r(1) s, of "?d1 @ ?d2" NABTO_MDNS_SRV "1 + cf" ttl] v(2) assms(4) by simp
    then show "length w + room = sz \<and> ready hdr inst labels (names @ [name_service inst]) w \<and>
        refers w domain [inst, label_local] 1"
      using r(2) v(2) by simp
  qed
qed

definition txt_bytes :: "string_map_item \<Rightarrow> bytes" where
  "txt_bytes item = of_nat (txt_length item) # snd (smi_key item) @ [61] @ snd (smi_value item)"

lemma txt_items_written: "write_txt_items items ptr = Some ptr' \<Longrightarrow> ptr' = wput (concat (map txt_bytes items)) ptr"
proof (induction items arbitrary: ptr)
  case (Cons item items)
  then have "write_txt_items items (wput (txt_bytes item) ptr) = Some ptr'"
    by (auto simp: mdns_writes wput_wput txt_bytes_def split: if_splits)
  from Cons.IH [OF this] show ?case by (simp add: wput_wput)
qed simp

lemma txt_data_length_sum: "txt_data_length items n = n + length (concat (map txt_bytes items))"
  by (induction items arbitrary: n) (simp_all add: txt_bytes_def)

lemma txt_record:
  assumes "holds sz (\<lambda>w. ready hdr inst labels names w \<and> refers w domain [inst, label_local] 1) ptr"
    "write_txt ttl cf items labels ptr = Some ptr'"
  shows "holds sz (\<lambda>w. ready hdr inst labels (names @ [name_service inst]) w \<and> refers w domain [inst, label_local] 1) ptr'"
proof -
  let ?d = "concat (map txt_bytes items)"
  let ?rec = "be16 (ml_service labels) @ be16 NABTO_MDNS_TXT @ be16 (1 + cf) @ be32 ttl @ be16 (of_nat (length ?d)) @ ?d"
  have d: "length ?d < 65536"
    using assms(2) by (auto simp: write_txt_def Let_def txt_data_length_sum split: if_splits)
  have e: "ptr' = wput ?rec ptr"
    using assms(2) by (auto simp: write_txt_def Let_def txt_data_length_sum mdns_writes wput_wput dest!: txt_items_written split: if_splits)
  show ?thesis
    unfolding e
  proof (rule holds_wput [OF assms(1)])
    fix w
    assume w: "ready hdr inst labels names w \<and> refers w domain [inst, label_local] 1"
    then have "wrote_name w (be16 (ml_service labels)) (name_service inst) 2"
      using wrote_service unfolding ready_def by blast
    then show "ready hdr inst labels (names @ [name_service inst]) (w @ ?rec) \<and>
        refers (w @ ?rec) domain [inst, label_local] 1"
      using ready_record [of hdr inst labels names w _ _ 2 ?d] w d refers_append by auto
  qed
qed

lemma ip_record:
  assumes "holds sz (\<lambda>w. ready hdr inst labels names w \<and> refers w domain [inst, label_local] 1) ptr" "ip_ok ip"
  shows "holds sz (\<lambda>w. ready hdr inst labels (names @ [[inst, label_local]]) w \<and> refers w domain [inst, label_local] 1)
    (write_ip ttl cf domain ip ptr)"
proof -
  define t where "t = (case ip_type ip of NN_IPV4 \<Rightarrow> NABTO_MDNS_A | NN_IPV6 \<Rightarrow> NABTO_MDNS_AAAA)"
  define d where "d = (case ip_type ip of NN_IPV4 \<Rightarrow> take 4 (ip_bytes ip) | NN_IPV6 \<Rightarrow> take 16 (ip_bytes ip))"
  let ?rec = "be16 domain @ be16 t @ be16 (1 + cf) @ be32 ttl @ be16 (of_nat (length d)) @ d"
  have e: "write_ip ttl cf domain ip ptr = wput ?rec ptr"
    using assms(2) by (cases "ip_type ip") (simp_all add: write_ip_def t_def d_def mdns_writes wput_wput ip_ok_def)
  have l: "length d < 65536"
    using assms(2) by (cases "ip_type ip") (simp_all add: d_def ip_ok_def)
  show ?thesis
    unfolding e
  proof (rule holds_wput [OF assms(1)])
    fix w
    assume w: "ready hdr inst labels names w \<and> refers w domain [inst, label_local] 1"
    then have "wrote_name w (be16 domain) [inst, label_local] 2"
      using wrote_pointer_to [of w domain _ 1] by (simp add: numeral_2_eq_2)
    then show "ready hdr inst labels (names @ [[inst, label_local]]) (w @ ?rec) \<and> refers (w @ ?rec) domain [inst, label_local] 1"
      using ready_record [of hdr inst labels names w _ _ 2 d] l w refers_append by auto
  qed
qed

lemma ip_records:
  "holds sz (\<lambda>w. ready hdr inst labels names w \<and> refers w domain [inst, label_local] 1) ptr \<Longrightarrow>
   \<forall>ip \<in> set ips. ip_ok ip \<Longrightarrow>
   holds sz (ready hdr inst labels (names @ replicate (length ips) [inst, label_local]))
     (fold (write_ip ttl cf domain) ips ptr)"
proof (induction ips arbitrary: names ptr)
  case (Cons ip ips)
  then show ?case using Cons.IH [OF ip_record [OF Cons.prems(1)]] by simp
qed (auto simp: holds_def)

text \<open>The names of the records of a response, in their order.\<close>

definition answer_names :: "bytes \<Rightarrow> bytes list \<Rightarrow> nat \<Rightarrow> bytes list list" where
  "answer_names inst subs ips =
     [label_nabto, label_udp, label_local] # map (\<lambda>s. [s, label_sub, label_nabto, label_udp, label_local]) subs @
     [[label_services, label_dns_sd, label_udp, label_local], [inst, label_nabto, label_udp, label_local],
      [inst, label_nabto, label_udp, label_local]] @ replicate ips [inst, label_local]"

definition label_ok :: "bytes \<Rightarrow> bool" where
  "label_ok l \<longleftrightarrow> 0 < length l \<and> length l \<le> 63"

text \<open>C40: the response.  When the names are labels that DNS allows and the buffer is one that compression
  pointers reach, the packet is a response whose header announces as many records as follow, and reading
  them one after the other with the name matching of this server finds the service, every subtype, the
  service discovery, the SRV, the TXT and the address records under their names and ends exactly
  at the end of the packet.\<close>

theorem mdns_response_well_formed:
  assumes "nabto_mdns_server_build_packet context pid unicast goodbye ips port bufferSize = Some out"
    "mc_instanceName context = Some inst" "label_ok inst"
    "vec_ok sm (sset_strings (mc_subtypes context))" "\<forall>s \<in> set (strings (mc_subtypes context)). label_ok (snd s)"
    "\<forall>ip \<in> set ips. ip_ok ip" "bufferSize \<le> 0x4000"
  defines "names \<equiv> answer_names inst (map snd (strings (mc_subtypes context))) (length ips)"
  shows "length names < 65536 \<and> length out \<le> bufferSize \<and>
    take 12 out = be16 pid @ be16 0x8400 @ be16 0 @ be16 (of_nat (length names)) @ be16 0 @ be16 0 \<and>
    walk_records out (Some 12) names = Some (length out)"
proof -
  let ?subs = "strings (mc_subtypes context)"
  let ?hdr = "be16 pid @ be16 0x8400 @ be16 0 @ be16 (of_nat (length names)) @ be16 0 @ be16 0"
  define cf :: u16 where "cf = (if unicast then 0 else push_bit 15 1)"
  define ttl :: u32 where "ttl = (if goodbye then 0 else 120)"
  have n: "length names = 1 + 1 + 1 + 1 + length ips + nn_string_set_size (mc_subtypes context)"
    using length_vector_list [OF assms(4)]
    by (simp add: names_def answer_names_def nn_string_set_size_def nn_vector_size_def)
  define p0 where "p0 = write_mdns_header pid (of_nat (length names)) (Some ([], bufferSize))"
  obtain labels p1 where p1: "write_service_ptr ttl inst p0 = (labels, p1)" by (metis surj_pair)
  obtain sub p2 where p2: "fold (write_subtype_ptr ttl labels) ?subs (0, p1) = (sub, p2)" by (metis surj_pair)
  obtain domain p4 where p4: "write_srv ttl cf port inst labels (write_services_ptr ttl labels p2) = (domain, p4)"
    by (metis surj_pair)
  have "vector_foreach (write_subtype_ptr ttl labels) (sset_strings (mc_subtypes context)) nn_string_set_begin (0, p1) = (sub, p2)"
    using p2 by (simp add: vector_foreach_drop [OF assms(4)] nn_string_set_begin_def nn_vector_begin_def)
  then obtain p5 room where p5: "write_txt ttl cf (smap_items (mc_txtItems context)) labels p4 = Some p5"
      "fold (write_ip ttl cf domain) ips p5 = Some (out, room)" "length names < 65536"
    using assms(1,2) p1 p4 n
    by (auto simp: nabto_mdns_server_build_packet_def Let_def cf_def ttl_def p0_def split: if_splits option.splits)
  have h: "p0 = wput ?hdr (Some ([], bufferSize))"
    by (simp add: p0_def write_mdns_header_def mdns_writes wput_wput)
  have "holds bufferSize (ready ?hdr inst labels [name_nabto]) p1"
  proof (cases "bufferSize < 12")
    case True
    then have "p0 = None" unfolding h by (simp add: wput_def)
    then have "p1 = None"
      using p1 assms(3) by (auto simp: write_service_ptr_def Let_def mdns_encode_string label_lengths mdns_writes label_ok_def)
    then show ?thesis by (simp add: holds_def)
  next
    case False
    then have "p0 = Some (?hdr, bufferSize - 12)" unfolding h by (simp add: wput_def)
    then show ?thesis
      using False p1 assms(3) by (intro service_ptr [of ttl inst _ "bufferSize - 12"]) (auto simp: label_ok_def)
  qed
  then have "holds bufferSize (\<lambda>w. ready ?hdr inst labels [name_nabto] w \<and> (0 = 0 \<or> refers w 0 (label_sub # name_nabto) 1)) p1"
    by (simp add: holds_def)
  note a = services_ptr [OF subtypes_ptr [OF this _ assms(7) p2]]
  have b: "holds bufferSize (ready ?hdr inst labels ([name_nabto] @ map (\<lambda>s. snd s # label_sub # name_nabto) ?subs @
      [[label_services, label_dns_sd, label_udp, label_local]])) (write_services_ptr ttl labels p2)"
    using a assms(5) by (simp add: label_ok_def)
  have "holds bufferSize (ready ?hdr inst labels names) (Some (out, room))"
    using ip_records [OF txt_record [OF srv_record [OF b p4 _ _ assms(7)] p5(1)] assms(6), of ttl cf] p5(2) assms(3)
    by (simp add: label_ok_def names_def answer_names_def name_service_def name_nabto_def comp_def)
  then show ?thesis
    using p5(3) unfolding holds_def ready_def by auto
qed

definition sample_subtypes :: "counting nn_string_set" where
  "sample_subtypes = \<lparr>sset_strings = \<lparr>vec_elements = Some (7, [Some (4, [97]), Some (5, [98])]),
     vec_capacity = 2, vec_used = 2, vec_itemSize = 8, vec_allocator = counting_allocator\<rparr>,
     sset_allocator = counting_allocator\<rparr>"

definition sample_mdns :: "counting mdns_context" where
  "sample_mdns = nabto_mdns_server_update_info [112] sample_subtypes
     \<lparr>smap_items = [\<lparr>smi_node = 1, smi_key = (2, [107]), smi_value = (3, [118])\<rparr>], smap_allocator = counting_allocator\<rparr>
     \<lparr>mc_instanceName = None, mc_subtypes = sample_subtypes, mc_txtItems =
       \<lparr>smap_items = [], smap_allocator = counting_allocator\<rparr>\<rparr>"

definition sample_response :: bytes where
  "sample_response = (case nabto_mdns_server_build_packet sample_mdns 7 False False [sample_ip] 4433 400 of
     Some out \<Rightarrow> out | None \<Rightarrow> [])"

lemma sample_response:
  "nabto_mdns_server_build_packet sample_mdns 7 False False [sample_ip] 4433 400 = Some sample_response"
proof -
  have "\<not> Option.is_none (nabto_mdns_server_build_packet sample_mdns 7 False False [sample_ip] 4433 400)"
    by (simp add: nabto_mdns_server_build_packet_def sample_mdns_def nabto_mdns_server_update_info_def Let_def
        write_mdns_header_def write_service_ptr_def write_services_ptr_def write_srv_def write_txt_def write_ip_def
        sample_subtypes_def vector_foreach.simps nn_vector_begin_def nn_string_set_begin_def nn_string_set_size_def
        nn_vector_size_def nn_vector_is_end_def nn_vector_next_def nn_vector_get_element_def nn_vector_get_def
        mdns_writes mdns_encode_string label_lengths sample_ip_def write_subtype_ptr_def wput_def txt_length_def)
  then show ?thesis
    unfolding sample_response_def by (auto split: option.splits simp: Option.is_none_def)
qed

theorem mdns_response_well_formed_witness:
  "nabto_mdns_server_build_packet sample_mdns 7 False False [sample_ip] 4433 400 = Some sample_response \<and>
   walk_records sample_response (Some 12) (answer_names [112] [[97], [98]] 1) = Some (length sample_response) \<and>
   length (answer_names [112] [[97], [98]] 1) = 7"
proof -
  have s: "strings (mc_subtypes sample_mdns) = [(4, [97]), (5, [98])]"
    by (simp add: sample_mdns_def nabto_mdns_server_update_info_def sample_subtypes_def vector_list_def)
  have "vec_ok 1000 (sset_strings (mc_subtypes sample_mdns))"
    by (simp add: sample_mdns_def nabto_mdns_server_update_info_def sample_subtypes_def vec_ok_def)
  then have "walk_records sample_response (Some 12) (answer_names [112] [[97], [98]] 1) = Some (length sample_response)"
    using mdns_response_well_formed [OF sample_response, of "[112]" 1000] unfolding s
    by (simp add: label_ok_def sample_mdns_def nabto_mdns_server_update_info_def ip_ok_def sample_ip_def)
  then show ?thesis using sample_response by (simp add: answer_names_def)
qed

section \<open>The flags of a response\<close>

text \<open>The packet keeps the header it starts with, whatever is written after it.\<close>

definition headed :: "bytes \<Rightarrow> wptr \<Rightarrow> bool" where
  "headed hdr ptr \<longleftrightarrow> (\<forall>w room. ptr = Some (w, room) \<longrightarrow> (\<exists>r. w = hdr @ r))"

lemma headed_wput: "headed hdr ptr \<Longrightarrow> headed hdr (wput bs ptr)"
  by (auto simp: headed_def wput_def split: option.splits)

lemma headed_None: "headed hdr None"
  by (simp add: headed_def)

lemma headed_encode: "headed hdr ptr \<Longrightarrow> headed hdr (nabto_mdns_server_encode_string l ptr)"
  unfolding nabto_mdns_server_encode_string_def mdns_writes by (simp add: headed_wput headed_None)

lemma headed_service: "headed hdr ptr \<Longrightarrow> headed hdr (snd (write_service_ptr ttl inst ptr))"
  unfolding write_service_ptr_def Let_def mdns_writes snd_conv by (intro headed_wput headed_encode)

lemma headed_services: "headed hdr ptr \<Longrightarrow> headed hdr (write_services_ptr ttl labels ptr)"
  unfolding write_services_ptr_def Let_def mdns_writes by (intro headed_wput headed_encode)

lemma headed_srv: "headed hdr ptr \<Longrightarrow> headed hdr (snd (write_srv ttl cf port inst labels ptr))"
  unfolding write_srv_def Let_def mdns_writes snd_conv by (intro headed_wput headed_encode)

lemma headed_subtype: "headed hdr (snd s) \<Longrightarrow> headed hdr (snd (write_subtype_ptr ttl labels sub s))"
  by (cases s, cases "fst s = 0") (simp_all add: write_subtype_ptr_def Let_def mdns_writes headed_wput headed_encode)

lemma headed_txt: "headed hdr ptr \<Longrightarrow> write_txt ttl cf items labels ptr = Some ptr' \<Longrightarrow> headed hdr ptr'"
  by (auto simp: write_txt_def Let_def mdns_writes headed_wput dest!: txt_items_written split: if_splits)

lemma headed_ips: "headed hdr ptr \<Longrightarrow> headed hdr (fold (write_ip ttl cf domain) ips ptr)"
proof (induction ips arbitrary: ptr)
  case (Cons ip ips)
  have "headed hdr (write_ip ttl cf domain ip ptr)"
    using Cons.prems by (simp add: write_ip_def Let_def mdns_writes headed_wput split: nn_ip_address_type.split)
  then show ?case using Cons.IH by simp
qed simp

lemma vector_foreach_keeps:
  "(\<And>a s. P s \<Longrightarrow> P (body a s)) \<Longrightarrow> P s \<Longrightarrow> P (vector_foreach body v it s)"
proof (induction body v it s rule: vector_foreach.induct)
  case (1 body v it s)
  show ?case
  proof (cases "nn_vector_is_end v it")
    case True
    then show ?thesis using 1(3) by (subst vector_foreach.simps) simp
  next
    case False
    then show ?thesis
      using 1(2,3) by (subst vector_foreach.simps) (simp add: 1(1) split: option.split)
  qed
qed

lemma build_packet_header:
  assumes "nabto_mdns_server_build_packet context pid unicast goodbye ips port bufferSize = Some out"
  shows "\<exists>n rest. out = be16 pid @ be16 0x8400 @ be16 0 @ be16 n @ be16 0 @ be16 0 @ rest"
proof -
  obtain inst where inst: "mc_instanceName context = Some inst"
    using assms by (auto simp: nabto_mdns_server_build_packet_def split: option.splits)
  define n :: u16 where "n = of_nat (1 + 1 + 1 + 1 + length ips + nn_string_set_size (mc_subtypes context))"
  define cf :: u16 where "cf = (if unicast then 0 else push_bit 15 1)"
  define ttl :: u32 where "ttl = (if goodbye then 0 else 120)"
  let ?hdr = "be16 pid @ be16 0x8400 @ be16 0 @ be16 n @ be16 0 @ be16 0"
  define p0 where "p0 = write_mdns_header pid n (Some ([], bufferSize))"
  have h0: "headed ?hdr p0"
    by (auto simp: p0_def write_mdns_header_def mdns_writes wput_wput headed_def wput_def)
  obtain labels p1 where p1: "write_service_ptr ttl inst p0 = (labels, p1)" by (metis surj_pair)
  obtain sub p2 where p2: "vector_foreach (write_subtype_ptr ttl labels) (sset_strings (mc_subtypes context))
      nn_string_set_begin (0, p1) = (sub, p2)" by (metis surj_pair)
  obtain domain p4 where p4: "write_srv ttl cf port inst labels (write_services_ptr ttl labels p2) = (domain, p4)"
    by (metis surj_pair)
  obtain p5 room where p5: "write_txt ttl cf (smap_items (mc_txtItems context)) labels p4 = Some p5"
      "fold (write_ip ttl cf domain) ips p5 = Some (out, room)"
    using assms inst p1 p2 p4
    by (auto simp: nabto_mdns_server_build_packet_def Let_def cf_def ttl_def p0_def n_def split: if_splits option.splits)
  have "headed ?hdr p1" using headed_service [OF h0] p1 by (metis snd_conv)
  then have "headed ?hdr p2"
    using vector_foreach_keeps [of "\<lambda>s. headed ?hdr (snd s)" "write_subtype_ptr ttl labels", OF headed_subtype] p2
    by (metis snd_conv)
  then have "headed ?hdr p4" using headed_srv [OF headed_services] p4 by (metis snd_conv)
  then have "headed ?hdr (Some (out, room))" using headed_ips headed_txt p5 by metis
  then show ?thesis by (auto simp: headed_def)
qed

text \<open>No answers to answers.  A packet that the responder has written has the response flag, so that no
  responder of this kind answers it: two of them on a network cannot answer each other forever.\<close>

theorem mdns_no_answer_to_answers:
  assumes "nabto_mdns_server_build_packet context pid unicast goodbye ips port bufferSize = Some out"
  shows "\<not> fst (nabto_mdns_server_handle_packet other out)"
proof -
  obtain n rest where out: "out = be16 pid @ be16 0x8400 @ be16 0 @ be16 n @ be16 0 @ be16 0 @ rest"
    using build_packet_header [OF assms] by blast
  have "nabto_mdns_server_uint16_read_forward out (Some 0) = Some (pid, 2)"
    "nabto_mdns_server_uint16_read_forward out (Some 2) = Some (0x8400, 4)"
    using read_uint16_at [of "[]" pid] read_uint16_at [of "be16 pid" "0x8400"] unfolding out by simp_all
  then show ?thesis by (simp add: nabto_mdns_server_handle_packet_def split: option.splits)
qed

text \<open>The responder that wrote the packet gets it back.\<close>

theorem mdns_no_answer_to_answers_witness:
  "\<not> fst (nabto_mdns_server_handle_packet sample_mdns sample_response)"
  by (rule mdns_no_answer_to_answers [OF sample_response])

section \<open>The length of a label\<close>

text \<open>Labels.  The encoder takes strings of up to 255 bytes, but what it writes is a label followed by the rest
  of the name only when the string has at most 63; a longer one is read as an error, or as a compression pointer
  when its length has both top bits set.\<close>

theorem encode_string_reads_back:
  assumes "nabto_mdns_server_encode_string str (Some (w, room)) = Some (w', room')" "str \<noteq> []"
  shows "skip_name (w' @ [0]) (Some (length w)) = Some (length w' + 1) \<longleftrightarrow> length str \<le> 63"
proof -
  have l: "length str \<le> 255" and w': "w' = w @ encoded str"
    using assms(1) by (auto simp: nabto_mdns_server_encode_string_def mdns_writes encoded_def wput_wput split: if_splits)
  show ?thesis
  proof (cases "length str \<le> 63")
    case True
    then have "wrote_name w (encoded str @ [0]) [str] 0"
      using assms(2) by (intro wrote_encoded wrote_end) auto
    then show ?thesis using True w' unfolding wrote_name_def by simp
  next
    case False
    let ?len = "of_nat (length str) :: u8"
    have u: "unat ?len = length str" using l by (simp add: unat_of_nat)
    then have "?len \<noteq> 0" "63 < ?len" using False by (auto simp: word_less_nat_alt)
    moreover have "?len AND 0xC0 = 0xC0 \<longleftrightarrow> 192 \<le> length str" unfolding top_bits u ..
    ultimately show ?thesis
      using False w' by (subst skip_name.simps) (auto simp: nabto_mdns_server_uint8_read_forward_def encoded_def nth_append)
  qed
qed

theorem encode_string_reads_back_witness:
  "nabto_mdns_server_encode_string (replicate 64 97) (Some ([], 300)) = Some (64 # replicate 64 97, 235) \<and>
   skip_name (64 # replicate 64 97 @ [0]) (Some 0) \<noteq> Some 66"
proof -
  have "nabto_mdns_server_encode_string (replicate 64 97) (Some ([], 300)) = Some (64 # replicate 64 97, 235)"
    by (simp add: mdns_encode_string encoded_def wput_def)
  then show ?thesis using encode_string_reads_back by fastforce
qed

end
