(* ===== verification/Spec2Isabelle.thy ===== *)
theory Spec2Isabelle
  imports Coap_Wire Coap_Client_Packets Coap_Server_Notify Coap_Server_Exchange Stream_Send_Props Stream_Receive_Props Nn_Llist Nn_Set Nn_Map Stun_Outcome Mdns_Props
begin

text \<open>
  \<^bold>\<open>The program.\<close>  The repository is a C library of protocol modules that do no input or output of
  their own: an integrator asks a module for its next event, sends the packets the module creates,
  hands in the packets that arrive and reports timeouts.  The modules under src/components are
  streaming (a reliable byte stream over datagrams), coap (message format, client and server), stun
  (analysis of the NAT in front of a host), mdns (a responder for one service) and nn (the lists,
  vectors, sets, maps, strings, addresses and allocator table that the others use).

  \<^bold>\<open>How C is modelled.\<close>  Structs are records, enumerations are datatypes, integers of a fixed
  width are words of that width, and sizes are natural numbers unless an overflow matters.  A read
  pointer with its end is the list of the bytes in between, a write pointer with its end is the
  \<open>wptr\<close> of \<open>Prelude\<close> (bytes written and room left), and the null pointer is \<open>None\<close>.  Functions
  the integrator supplies (allocators, clocks, random bytes) are fields of the state that pass a
  state of type \<open>'m\<close> of their own along; what the theorems need of them is a named hypothesis
  (\<open>allocator_ok\<close>, \<open>recv_allocator_ok\<close>), satisfied by concrete instances in the witnesses.
  Calls of the log are left out.

  \<^bold>\<open>Shared theories.\<close>  \<open>Prelude\<close>: bytes of words, big-endian numbers, write pointers.
  \<open>Serial\<close>: the locale \<open>serial_order\<close> of comparisons by the sign of a 32 bit difference, interpreted
  for CoAP time stamps, stream sequence numbers and logical stamps.

  \<^bold>\<open>CoAP messages\<close> (src/components/coap/src/nabto_coap.c).  \<open>Coap_Wire\<close>: options, the option
  iterator, messages, header, payload, variable length integers and block options.  A message that is
  written is parsed back to its parts; an accepted packet is exactly header, token, options and payload.

  \<^bold>\<open>CoAP client\<close> (src/components/coap/src/nabto_coap_client_impl.c).  \<open>Coap_Client\<close> has the client with a
  store of requests, and every operation: requests, events, timeouts, packets, responses, the
  blocks of request and response bodies, observations.  The long function that handles a response is
  the sequence of its parts (\<open>prepare_response\<close>, \<open>store_body\<close>, \<open>handle_block1\<close>, \<open>finish_response\<close>).
  A handler is called by the integrator after the step that chooses its request, because it may call any operation.
  \<open>Coap_Client_Memory\<close> defines the reachable states (\<open>client_reach\<close>) and shows that memory is given back exactly
  once; \<open>Coap_Client_Blocks\<close> that a request body is handed over in order and without loss;
  \<open>Coap_Client_Responses\<close> that response bodies are put together from their blocks, and what happens when
  the first block comes again; \<open>Coap_Client_Timing\<close> that a request is sent boundedly often and then reported
  (the driver \<open>quiet_serve\<close> has fuel for 52 events for each packet, which is enough for the longest
  timeout); \<open>Coap_Client_Packets\<close> that request packets parse back and that a packet changes only its own request.

  \<^bold>\<open>CoAP server\<close> (nabto_coap_server_impl.c and nabto_coap_server_impl_incoming.c in src/components/coap/src).
  \<open>Coap_Payload\<close> holds what client and server share: payloads in blocks of their own and the predicate
  \<open>owned\<close> on blocks in use.  \<open>Coap_Router\<close> has the tree of resources, \<open>Coap_Server\<close> the state of a requests
  context and the operations of the application and the integrator, \<open>Coap_Server_Incoming\<close> the packets that
  arrive; a packet ends with the call of a handler, which is a result of the step, because the handler may call any
  operation.  \<open>Coap_Router_Table\<close> shows that the tree is a table from routes to handlers, \<open>Coap_Router_Memory\<close> its
  memory and what a lookup finds.  \<open>Coap_Server_Blocks\<close> and \<open>Coap_Server_Memory\<close> show that the operations keep the
  objects of the server and its memory together; blocks in the hands of an operation are explicit.
  \<open>Coap_Server_Ops\<close> does the same for what the application and the integrator call, \<open>Coap_Server_Packets\<close> for
  packets; \<open>Coap_Server_End\<close> shows that destroying a context and its server gives everything back.
  \<open>Coap_Server_Reach\<close> has the states a server can reach (\<open>server_reach\<close>), the memory safety of
  all of them, and that a request the application holds stays until it is freed.  \<open>Coap_Server_Handlers\<close> shows
  that handlers are called once, with the whole body of a block-wise request, and two ways to follow a null
  pointer; \<open>Coap_Server_Notify\<close> a notification that is overtaken by an older one, in a state that a run leads
  to; \<open>Coap_Server_Exchange\<close> that the packets of responses and notifications read back and that a request packet of the client
  model makes the server model call the handler of its path.  Its hypotheses on the allocator (\<open>allocator_ok\<close>, \<open>never_fails\<close>)
  are the documented behaviour of calloc and free.

  \<^bold>\<open>Streaming\<close> (src/components/streaming/src).  \<open>Stream_Types\<close> holds the transfer control block;
  segments live in a store from addresses to segments, and the lists of the code, which link one
  segment into several lists, are lists of addresses.  \<open>Stream_Memory\<close> has nabto_stream_util.c,
  nabto_stream_memory.c, nabto_stream_congestion_control.c and nabto_stream_flow_control.c (doubles as
  rationals, with the rounding of the platform as a parameter), \<open>Stream_Window\<close> nabto_stream_window.c,
  \<open>Stream_Packet\<close> and \<open>Stream_Create\<close> the two halves of nabto_stream_packet.c and \<open>Stream_Api\<close>
  nabto_stream.c.  \<open>Stream_Reach\<close> defines the states that sequences of calls can reach.
  \<open>Stream_Recv\<close>, \<open>Stream_State\<close> and \<open>Stream_Send\<close> show invariants of the receive side, the
  connection state and the send side for every operation; the properties are in
  \<open>Stream_Receive_Props\<close> and \<open>Stream_Send_Props\<close>: windows of consecutive numbers, no byte lost or
  reordered, acknowledgements that remove exactly the named segments, no leak at destruction,
  malformed and replayed packets without effect, and two packets that are handled in a way the code
  does not mean to.  The loops of \<open>nabto_stream_write_buffer\<close> and \<open>nabto_stream_read_buffer\<close> have
  fuel: one more than the bytes to write, and one more than the segments to read; that this is enough is
  proved (\<open>write_buffer_queues_prefix\<close>, \<open>read_buffer_delivers\<close>).  The guard \<open>packet_near\<close> on
  reachable states excludes fin packets numbered half of the number space away from the window;
  \<open>far_fin_allocates\<close> shows what happens otherwise.

  \<^bold>\<open>nn\<close> (src/components/nn/src/nn).  \<open>Nn_Llist\<close> is the intrusive list as stores to nodes, refined to
  lists; its size loop is a partial function that is shown to return.  \<open>Nn_Memory\<close> has the allocator table
  and strings, \<open>Nn_Vector\<close> the growing vector with a fixed maximal size of the address space,
  \<open>Nn_Set\<close> and \<open>Nn_Map\<close> the sets and maps, whose contracts are the locales \<open>set_interface\<close>,
  \<open>map_interface\<close> and \<open>keyed_items\<close>, interpreted on the model of the code, failed allocations
  included.  \<open>Nn_Ip\<close> has addresses, their text and byte order, for little and big endian hosts.

  \<^bold>\<open>STUN\<close> (src/components/stun/src).  \<open>Stun_Message\<close> has the messages, \<open>Stun_Client\<close> the state
  machine of an analysis; \<open>Stun_Props\<close> shows for every sequence of calls that it never follows the
  null pointer and sends boundedly many packets, \<open>Stun_Outcome\<close> the exact schedule of an analysis that
  nobody answers and two answers that it gets wrong.

  \<^bold>\<open>mDNS\<close> (src/components/mdns/src/mdns_server.c).  \<open>Mdns\<close> has the responder, on the string set and
  string map of \<open>Nn_Set\<close> and \<open>Nn_Map\<close>.  \<open>Mdns_Names\<close> shows what its name matching accepts,
  \<open>Mdns_Props\<close> that the responses can be walked through and stand under the right names.

  \<^bold>\<open>Not modelled.\<close>  Log output
  (nabto_stream_log_helper.c, nabto_stun_util.c, log.c, the dump functions) only prints;
  nabto_coap_client_test.c is a test driver.
\<close>

end
